(* ===== verification/IC_Prelude.thy ===== *)
theory IC_Prelude
  imports Complex_Main "HOL-Library.Sublist"
begin

text \<open>
  Shared vocabulary of the development: JavaScript strings and values as the sources use them,
  the string methods (\<open>startsWith\<close>, \<open>endsWith\<close>, \<open>includes\<close>, \<open>split\<close>, \<open>toLowerCase\<close>), plain
  objects as association lists in insertion order, the decision lattice of the policy layer, the
  generic locale of a state machine with an invariant, and the list lemmas the components share.

  Strings are \<open>char list\<close>, one \<open>char\<close> per ASCII code unit; \<open>toLowerCase\<close> is the ASCII case map.
  Numbers are rationals (every finite double is one). An object is its list of own entries.
\<close>

named_theorems js_simps \<open>rewrite rules for JavaScript string and value operations\<close>
named_theorems role_simps \<open>evaluation of the argument role registry\<close>
named_theorems engine_simps \<open>unfolding of the policy engine's operations\<close>

section \<open>Strings\<close>

abbreviation startsWith :: "string \<Rightarrow> string \<Rightarrow> bool" where
  "startsWith s p \<equiv> prefix p s"

abbreviation endsWith :: "string \<Rightarrow> string \<Rightarrow> bool" where
  "endsWith s p \<equiv> suffix p s"

abbreviation strIncludes :: "string \<Rightarrow> string \<Rightarrow> bool" where
  "strIncludes s p \<equiv> sublist p s"

text \<open>\<open>s.slice(0, -n)\<close>.\<close>

definition dropEnd :: "nat \<Rightarrow> string \<Rightarrow> string" where
  "dropEnd n s = take (length s - n) s"

text \<open>\<open>s.split(c)\<close> for a single-character separator.\<close>

fun splitOn :: "char \<Rightarrow> string \<Rightarrow> string list" where
  "splitOn c [] = [[]]"
| "splitOn c (x # xs) =
     (if x = c then [] # splitOn c xs
      else (case splitOn c xs of [] \<Rightarrow> [[x]] | y # ys \<Rightarrow> (x # y) # ys))"

text \<open>\<open>xs.join(sep)\<close>.\<close>

fun joinWith :: "string \<Rightarrow> string list \<Rightarrow> string" where
  "joinWith sep [] = []"
| "joinWith sep [x] = x"
| "joinWith sep (x # y # ys) = x @ sep @ joinWith sep (y # ys)"

definition toLowerChar :: "char \<Rightarrow> char" where
  "toLowerChar c = (if 65 \<le> (of_char c :: nat) \<and> (of_char c :: nat) \<le> 90
                    then char_of ((of_char c :: nat) + 32) else c)"

definition toLowerCase :: "string \<Rightarrow> string" where
  "toLowerCase s = map toLowerChar s"

definition isDigit :: "char \<Rightarrow> bool" where
  "isDigit c = (48 \<le> (of_char c :: nat) \<and> (of_char c :: nat) \<le> 57)"

definition isLetter :: "char \<Rightarrow> bool" where
  "isLetter c = ((65 \<le> (of_char c :: nat) \<and> (of_char c :: nat) \<le> 90) \<or>
                 (97 \<le> (of_char c :: nat) \<and> (of_char c :: nat) \<le> 122))"

text \<open>The regular-expression class \<open>\w\<close>.\<close>

definition isWordChar :: "char \<Rightarrow> bool" where
  "isWordChar c = (isLetter c \<or> isDigit c \<or> c = CHR ''_'')"

text \<open>Line terminators, which the regular-expression dot does not match.\<close>

definition isLineTerm :: "char \<Rightarrow> bool" where
  "isLineTerm c = (c = CHR 0x0A \<or> c = CHR 0x0D)"

text \<open>ASCII white space, as \<open>trim\<close> removes it.\<close>

definition isSpace :: "char \<Rightarrow> bool" where
  "isSpace c = (c = CHR '' '' \<or> (9 \<le> (of_char c :: nat) \<and> (of_char c :: nat) \<le> 13))"

definition trim :: "string \<Rightarrow> string" where
  "trim s = rev (dropWhile isSpace (rev (dropWhile isSpace s)))"

text \<open>\<open>[...new Set(xs)]\<close>: the first occurrences, in order.\<close>

definition uniq :: "'a list \<Rightarrow> 'a list" where
  "uniq xs = rev (remdups (rev xs))"

lemma set_uniq [simp]: "set (uniq xs) = set xs"
  and distinct_uniq [simp]: "distinct (uniq xs)"
  and uniq_Nil_iff [simp]: "uniq xs = [] \<longleftrightarrow> xs = []"
  by (simp_all add: uniq_def)

section \<open>Values and objects\<close>

datatype jsval =
    JUndefined
  | JNull
  | JBool bool
  | JNum rat
  | JStr string
  | JArr "jsval list"
  | JObj "(string \<times> jsval) list"

type_synonym jsobj = "(string \<times> jsval) list"

text \<open>\<open>o[k]\<close>: an absent property reads as \<open>undefined\<close>.\<close>

definition getProp :: "jsobj \<Rightarrow> string \<Rightarrow> jsval" where
  "getProp obj k = (case map_of obj k of None \<Rightarrow> JUndefined | Some v \<Rightarrow> v)"

text \<open>\<open>k in o\<close>.\<close>

definition hasProp :: "jsobj \<Rightarrow> string \<Rightarrow> bool" where
  "hasProp obj k = (k \<in> fst ` set obj)"

text \<open>\<open>o[k] = v\<close>: an existing property keeps its position, a new one is appended.\<close>

fun setProp :: "(string \<times> 'v) list \<Rightarrow> string \<Rightarrow> 'v \<Rightarrow> (string \<times> 'v) list" where
  "setProp [] k v = [(k, v)]"
| "setProp ((k', v') # ps) k v =
     (if k' = k then (k, v) # ps else (k', v') # setProp ps k v)"

text \<open>Truthiness. Not-a-number cannot occur in arguments that were parsed from JSON.\<close>

fun truthy :: "jsval \<Rightarrow> bool" where
  "truthy JUndefined = False"
| "truthy JNull = False"
| "truthy (JBool b) = b"
| "truthy (JNum n) = (n \<noteq> 0)"
| "truthy (JStr s) = (s \<noteq> [])"
| "truthy (JArr _) = True"
| "truthy (JObj _) = True"

text \<open>The string values of an argument that is a string or an array.\<close>

fun jsStrings :: "jsval \<Rightarrow> string list" where
  "jsStrings (JStr s) = [s]"
| "jsStrings (JArr xs) = concat (map (\<lambda>x. case x of JStr s \<Rightarrow> [s] | _ \<Rightarrow> []) xs)"
| "jsStrings _ = []"

section \<open>Lemmas on strings and objects\<close>

lemma splitOn_nonempty [simp]: "splitOn c s \<noteq> []"
  by (induction s) (auto split: list.splits)

lemma joinWith_Cons: "xs \<noteq> [] \<Longrightarrow> joinWith sep (x # xs) = x @ sep @ joinWith sep xs"
  by (cases xs) auto

lemma joinWith_hd: "joinWith sep ((x # y) # ys) = x # joinWith sep (y # ys)"
  by (cases ys) auto

lemma joinWith_splitOn [simp]: "joinWith [c] (splitOn c s) = s"
proof (induction s)
  case (Cons x s)
  obtain y ys where split: "splitOn c s = y # ys"
    using splitOn_nonempty [of c s] by (cases "splitOn c s") auto
  with Cons.IH show ?case by (auto simp: joinWith_hd joinWith_Cons)
qed simp

lemma splitOn_no_sep: "\<forall>x \<in> set (splitOn c s). c \<notin> set x"
  by (induction s) (auto split: list.splits)

lemma splitOn_no_sep_id: "c \<notin> set s \<Longrightarrow> splitOn c s = [s]"
  by (induction s) auto

lemma splitOn_append_sep: "splitOn c (x @ c # y) = splitOn c x @ splitOn c y"
  by (induction x) (auto split: list.splits)

lemma splitOn_joinWith:
  "xs \<noteq> [] \<Longrightarrow> \<forall>x \<in> set xs. c \<notin> set x \<Longrightarrow> splitOn c (joinWith [c] xs) = xs"
proof (induction xs)
  case (Cons x xs)
  then show ?case
    by (cases xs) (auto simp: splitOn_no_sep_id splitOn_append_sep)
qed simp

lemma toLowerChar_idem [simp]: "toLowerChar (toLowerChar c) = toLowerChar c"
proof (cases "65 \<le> (of_char c :: nat) \<and> (of_char c :: nat) \<le> 90")
  case True
  then have "(of_char c :: nat) + 32 < 256" by simp
  then have "of_char (char_of ((of_char c :: nat) + 32)) = (of_char c :: nat) + 32"
    by simp
  with True show ?thesis by (simp add: toLowerChar_def)
next
  case False
  then show ?thesis by (auto simp: toLowerChar_def)
qed

lemma toLowerCase_idem [simp]: "toLowerCase (toLowerCase s) = toLowerCase s"
  by (simp add: toLowerCase_def)

lemma map_of_setProp [simp]: "map_of (setProp ps k v) = (map_of ps)(k \<mapsto> v)"
  by (induction ps k v rule: setProp.induct) auto

lemma keys_setProp: "fst ` set (setProp ps k v) = insert k (fst ` set ps)"
  by (induction ps k v rule: setProp.induct) auto

lemma getProp_setProp [js_simps]:
  "getProp (setProp obj k v) k' = (if k' = k then v else getProp obj k')"
  by (simp add: getProp_def)

lemma distinct_setProp: "distinct (map fst ps) \<Longrightarrow> distinct (map fst (setProp ps k v))"
proof (induction ps k v rule: setProp.induct)
  case (2 k' v' ps k v)
  then show ?case
    by (auto simp: keys_setProp simp flip: set_map) (metis image_eqI keys_setProp set_map insertE)
qed simp

section \<open>The decision lattice\<close>

text \<open>
  \<open>PolicyDecisionStatus\<close> of \<open>src/types/mcp.ts\<close>, ordered by the severity table of the policy
  engine: allow is the least, deny the greatest restriction.
\<close>

datatype decision = Allow | Escalate | Deny

fun severity :: "decision \<Rightarrow> nat" where
  "severity Allow = 0"
| "severity Escalate = 1"
| "severity Deny = 2"

lemma severity_inj [simp]: "severity a = severity b \<longleftrightarrow> a = b"
  by (cases a; cases b) auto

instantiation decision :: linorder
begin

definition less_eq_decision :: "decision \<Rightarrow> decision \<Rightarrow> bool" where
  "less_eq_decision a b = (severity a \<le> severity b)"

definition less_decision :: "decision \<Rightarrow> decision \<Rightarrow> bool" where
  "less_decision a b = (severity a < severity b)"

instance
  by standard (auto simp: less_eq_decision_def less_decision_def)

end

lemmas decision_order = less_eq_decision_def less_decision_def

lemma Allow_least [simp]: "Allow \<le> d" and Deny_greatest [simp]: "d \<le> Deny"
  by (cases d; simp add: decision_order)+

lemma le_Allow_iff [simp]: "d \<le> Allow \<longleftrightarrow> d = Allow"
  and Deny_le_iff [simp]: "Deny \<le> d \<longleftrightarrow> d = Deny"
  by (cases d; simp add: decision_order)+

text \<open>The most restrictive of a list of decisions.\<close>

definition strictest :: "decision list \<Rightarrow> decision" where
  "strictest ds = foldr max ds Allow"

lemma strictest_Nil [simp]: "strictest [] = Allow"
  and strictest_Cons [simp]: "strictest (d # ds) = max d (strictest ds)"
  by (simp_all add: strictest_def)

lemma max_Allow [simp]: "max Allow d = d" "max d Allow = d"
  by (simp_all add: max_def)

lemma max_Deny [simp]: "max Deny d = Deny" "max d Deny = Deny"
  by (simp_all add: max_def)

lemma strictest_upper: "d \<in> set ds \<Longrightarrow> d \<le> strictest ds"
  by (induction ds) (auto simp: le_max_iff_disj)

lemma strictest_Allow_iff: "strictest ds = Allow \<longleftrightarrow> (\<forall>d \<in> set ds. d = Allow)"
proof (induction ds)
  case (Cons d ds)
  have "max d (strictest ds) = Allow \<longleftrightarrow> d = Allow \<and> strictest ds = Allow"
    by (cases d; cases "strictest ds") (simp_all add: max_def decision_order)
  with Cons show ?case by simp
qed simp

lemma strictest_mem: "ds \<noteq> [] \<Longrightarrow> strictest ds \<in> set ds"
proof (induction ds)
  case (Cons d ds)
  then show ?case by (cases "ds = []") (auto simp: max_def)
qed simp

lemma strictest_Deny: "Deny \<in> set ds \<Longrightarrow> strictest ds = Deny"
  using strictest_upper [of Deny ds] by simp

lemma strictest_map_const: "xs \<noteq> [] \<Longrightarrow> \<forall>x \<in> set xs. f x = d \<Longrightarrow> strictest (map f xs) = d"
proof (induction xs)
  case (Cons x xs)
  then show ?case by (cases "xs = []") auto
qed simp

lemma strictest_map_split:
  "strictest (map f xs) =
     max (strictest (map f (filter P xs))) (strictest (map f (filter (\<lambda>x. \<not> P x) xs)))"
  by (induction xs) (auto simp: max.assoc max.left_commute)

lemma strictest_map_set: "set xs = set ys \<Longrightarrow> strictest (map f xs) = strictest (map f ys)"
proof -
  have eq: "strictest ds = (if ds = [] then Allow else Max (set ds))" for ds
  proof (induction ds)
    case (Cons d ds)
    then show ?case by (cases "ds = []") simp_all
  qed simp
  assume "set xs = set ys"
  then have "set (map f xs) = set (map f ys)" "xs = [] \<longleftrightarrow> ys = []" by auto
  then show ?thesis unfolding eq by auto
qed

section \<open>State machines with an invariant\<close>

text \<open>
  A component whose operations are folded into one step function. A client of the component sees
  it through the invariant: it holds in the initial state and every step keeps it.
\<close>

locale invariant_machine =
  fixes step :: "'s \<Rightarrow> 'e \<Rightarrow> 's"
    and inv :: "'s \<Rightarrow> bool"
    and init :: 's
  assumes inv_init: "inv init"
    and inv_step: "inv s \<Longrightarrow> inv (step s e)"
begin

lemma inv_foldl: "inv s \<Longrightarrow> inv (foldl step s es)"
  by (induction es arbitrary: s) (auto intro: inv_step)

lemma inv_run: "inv (foldl step init es)"
  by (intro inv_foldl inv_init)

end

end
