(* ===== verification/Node_Path.thy ===== *)
theory Node_Path
  imports IC_Prelude
begin

text \<open>
  The part of the runtime that the sources call for paths: the POSIX functions of \<open>node:path\<close>
  (\<open>resolve\<close>, \<open>normalize\<close>, \<open>join\<close>, \<open>dirname\<close>, \<open>basename\<close>) as the Node library computes them, and
  the record of what the host decides (home and working directory, the file system's
  \<open>realpathSync\<close>, the URL parser, the output of a git sub-command). The host record is a parameter
  of everything that depends on it. The lemmas relate normalised absolute paths to their lists of
  components.
\<close>

section \<open>The host\<close>

text \<open>The components of a parsed URL that the sources read: \<open>hostname\<close>, \<open>pathname\<close>, the
  serialisation, and the serialisation after \<open>pathname = ''\<close>.\<close>

record url =
  hostname :: string
  pathname :: string
  href :: string
  hrefRoot :: string

text \<open>\<open>None\<close> stands for a thrown exception (\<open>realpathSync\<close>, \<open>new URL\<close>, \<open>execFileSync\<close>).\<close>

record host =
  homedir :: string
  cwd :: string
  realpathSync :: "string \<Rightarrow> string option"
  parseUrl :: "string \<Rightarrow> url option"
  gitExec :: "string \<Rightarrow> string list \<Rightarrow> string option"

section \<open>Path functions\<close>

text \<open>
  \<open>normalizeString\<close>: empty and \<open>.\<close> segments vanish, \<open>..\<close> removes the segment before it; above
  the root it is kept only when \<open>up\<close> holds (a relative path). The accumulator is reversed.
\<close>

fun normSegs :: "bool \<Rightarrow> string list \<Rightarrow> string list \<Rightarrow> string list" where
  "normSegs up acc [] = rev acc"
| "normSegs up acc (s # ss) =
     (if s = [] \<or> s = ''.'' then normSegs up acc ss
      else if s = ''..'' then
        (case acc of
           [] \<Rightarrow> normSegs up (if up then [s] else []) ss
         | a # as \<Rightarrow> if a = ''..'' then normSegs up (s # acc) ss else normSegs up as ss)
      else normSegs up (s # acc) ss)"

definition normalizeString :: "bool \<Rightarrow> string \<Rightarrow> string" where
  "normalizeString up s = joinWith ''/'' (normSegs up [] (splitOn CHR ''/'' s))"

fun resolveAcc :: "string list \<Rightarrow> string \<Rightarrow> string \<times> bool" where
  "resolveAcc [] acc = (acc, False)"
| "resolveAcc (p # ps) acc =
     (if p = [] then resolveAcc ps acc
      else if startsWith p ''/'' then (p @ ''/'' @ acc, True)
      else resolveAcc ps (p @ ''/'' @ acc))"

text \<open>\<open>path.resolve(...args)\<close>: the arguments are read from the right until one is absolute.\<close>

definition pathResolve :: "string \<Rightarrow> string list \<Rightarrow> string" where
  "pathResolve wd args =
     (let (r, abs) = resolveAcc (rev args @ [wd]) [];
          n = normalizeString (\<not> abs) r
      in if abs then CHR ''/'' # n else if n \<noteq> [] then n else ''.'')"

text \<open>\<open>path.normalize\<close> and \<open>path.join\<close>.\<close>

definition pathNormalize :: "string \<Rightarrow> string" where
  "pathNormalize p =
     (if p = [] then ''.''
      else let isAbs = startsWith p ''/''; trailing = endsWith p ''/'';
               n = normalizeString (\<not> isAbs) p
           in if n = [] then (if isAbs then ''/'' else if trailing then ''./'' else ''.'')
              else let n' = (if trailing then n @ ''/'' else n)
                   in if isAbs then CHR ''/'' # n' else n')"

definition pathJoin :: "string list \<Rightarrow> string" where
  "pathJoin parts =
     (let ps = filter (\<lambda>p. p \<noteq> []) parts
      in if ps = [] then ''.'' else pathNormalize (joinWith ''/'' ps))"

text \<open>\<open>path.dirname\<close>: the index of the last slash before the last component, searched from the
  end down to index 1.\<close>

definition dirname :: "string \<Rightarrow> string" where
  "dirname p =
     (if p = [] then ''.''
      else let hasRoot = startsWith p ''/'';
               r = dropWhile (\<lambda>c. c \<noteq> CHR ''/'') (dropWhile (\<lambda>c. c = CHR ''/'') (rev (tl p)));
               e = length r
           in if r = [] then (if hasRoot then ''/'' else ''.'')
              else if hasRoot \<and> e = 1 then ''//''
              else take e p)"

definition basename :: "string \<Rightarrow> string" where
  "basename p =
     rev (takeWhile (\<lambda>c. c \<noteq> CHR ''/'') (dropWhile (\<lambda>c. c = CHR ''/'') (rev p)))"

section \<open>Normalised absolute paths\<close>

text \<open>A list of components of a normalised absolute path, and the path it stands for.\<close>

definition cleanSeg :: "string \<Rightarrow> bool" where
  "cleanSeg s = (s \<noteq> [] \<and> s \<noteq> ''.'' \<and> s \<noteq> ''..'' \<and> CHR ''/'' \<notin> set s)"

definition absPath :: "string list \<Rightarrow> string" where
  "absPath segs = CHR ''/'' # joinWith ''/'' segs"

definition isCanonical :: "string \<Rightarrow> bool" where
  "isCanonical p = (\<exists>segs. list_all cleanSeg segs \<and> p = absPath segs)"

lemma normSegs_clean_False:
  assumes "list_all cleanSeg acc" "\<forall>s \<in> set ss. CHR ''/'' \<notin> set s"
  shows "list_all cleanSeg (normSegs False acc ss)"
  using assms
proof (induction False acc ss rule: normSegs.induct)
  case (1 acc)
  then show ?case by (simp add: list_all_iff)
next
  case (2 acc s ss)
  then show ?case
    by (cases acc) (auto simp: cleanSeg_def)
qed

lemma normSegs_clean_id:
  "list_all cleanSeg ss \<Longrightarrow> normSegs up acc ss = rev acc @ ss"
  by (induction up acc ss rule: normSegs.induct) (auto simp: cleanSeg_def)

lemma joinWith_append:
  "xs \<noteq> [] \<Longrightarrow> ys \<noteq> [] \<Longrightarrow> joinWith sep (xs @ ys) = joinWith sep xs @ sep @ joinWith sep ys"
proof (induction xs)
  case (Cons x xs)
  then show ?case by (cases "xs = []") (auto simp: joinWith_Cons)
qed simp

lemma splitOn_absPath:
  assumes "list_all cleanSeg segs"
  shows "splitOn CHR ''/'' (absPath segs) = [] # (if segs = [] then [[]] else segs)"
proof (cases "segs = []")
  case False
  with assms have "splitOn CHR ''/'' (joinWith ''/'' segs) = segs"
    by (intro splitOn_joinWith) (auto simp: list_all_iff cleanSeg_def)
  with False show ?thesis by (simp add: absPath_def)
qed (simp add: absPath_def)

lemma absPath_inject:
  assumes "list_all cleanSeg xs" "list_all cleanSeg ys"
  shows "absPath xs = absPath ys \<longleftrightarrow> xs = ys"
proof
  assume "absPath xs = absPath ys"
  with assms have "(if xs = [] then [[]] else xs) = (if ys = [] then [[]] else ys)"
    using splitOn_absPath [OF assms(1)] splitOn_absPath [OF assms(2)] by simp
  moreover have "xs \<noteq> [[]]" "ys \<noteq> [[]]"
    using assms by (auto simp: cleanSeg_def)
  ultimately show "xs = ys" by (simp split: if_splits)
qed simp

lemma normalizeString_absPath:
  "list_all cleanSeg segs \<Longrightarrow> normalizeString False (absPath segs) = joinWith ''/'' segs"
  by (auto simp: normalizeString_def splitOn_absPath normSegs_clean_id)

lemma normalizeString_clean:
  "\<exists>segs. list_all cleanSeg segs \<and> normalizeString False s = joinWith ''/'' segs"
  unfolding normalizeString_def
  by (rule exI [of _ "normSegs False [] (splitOn CHR ''/'' s)"])
    (simp add: normSegs_clean_False splitOn_no_sep)

lemma resolveAcc_absolute:
  "p \<noteq> [] \<Longrightarrow> startsWith p ''/'' \<Longrightarrow> snd (resolveAcc (ps @ [p]) acc)"
  by (induction ps arbitrary: acc) auto

lemma pathResolve_canonical:
  assumes "startsWith wd ''/''"
  shows "isCanonical (pathResolve wd args)"
proof -
  obtain r where r: "resolveAcc (rev args @ [wd]) [] = (r, True)"
    using resolveAcc_absolute [of wd "rev args" "[]"] assms
    by (metis prefix_bot.extremum_uniqueI not_Cons_self2 snd_conv surj_pair)
  show ?thesis
    using normalizeString_clean [of r] by (auto simp: pathResolve_def r isCanonical_def absPath_def)
qed

lemma pathResolve_absPath:
  assumes "list_all cleanSeg segs"
  shows "pathResolve wd [absPath segs] = absPath segs"
proof -
  have "normalizeString False (absPath segs @ ''/'') = joinWith ''/'' segs"
  proof -
    have "splitOn CHR ''/'' (absPath segs @ ''/'') = splitOn CHR ''/'' (absPath segs) @ [[]]"
      by (simp add: splitOn_append_sep)
    moreover have "normSegs False [] (xs @ [[]]) = normSegs False [] xs" for xs
    proof -
      have "normSegs up acc (xs @ [[]]) = normSegs up acc xs" for up acc
        by (induction up acc xs rule: normSegs.induct) (auto split: list.splits)
      then show ?thesis .
    qed
    ultimately show ?thesis
      using normalizeString_absPath [OF assms] by (simp add: normalizeString_def)
  qed
  then show ?thesis by (simp add: pathResolve_def absPath_def)
qed

lemma pathResolve_canonical_id: "isCanonical p \<Longrightarrow> pathResolve wd [p] = p"
  by (auto simp: isCanonical_def pathResolve_absPath)

text \<open>On canonical paths the string test that the sources use is the component-wise prefix test,
  except below the root directory itself.\<close>

lemma absPath_below_iff:
  assumes "list_all cleanSeg xs" "list_all cleanSeg ys" "ys \<noteq> []"
  shows "absPath xs = absPath ys \<or> prefix (absPath ys @ ''/'') (absPath xs) \<longleftrightarrow> prefix ys xs"
    (is "?eq \<or> ?below \<longleftrightarrow> _")
proof
  assume "?eq \<or> ?below"
  then show "prefix ys xs"
  proof
    assume ?eq
    with assms show ?thesis by (simp add: absPath_inject)
  next
    assume ?below
    then obtain z where z: "absPath xs = absPath ys @ CHR ''/'' # z"
      by (auto simp: prefix_def)
    then have "splitOn CHR ''/'' (absPath xs) = splitOn CHR ''/'' (absPath ys) @ splitOn CHR ''/'' z"
      by (simp add: splitOn_append_sep)
    with assms show ?thesis
      by (cases ys) (auto simp: splitOn_absPath prefix_def cleanSeg_def split: if_splits)
  qed
next
  assume "prefix ys xs"
  then obtain zs where "xs = ys @ zs" by (auto simp: prefix_def)
  with assms show "?eq \<or> ?below"
    by (cases "zs = []") (auto simp: absPath_def joinWith_append prefix_def)
qed

end
