(* ===== verification/Argument_Roles.thy ===== *)
theory Argument_Roles
  imports Node_Path
begin

text \<open>
  The argument role registry of \<open>src/types/argument-roles.ts\<close> and the canonicalisers of
  \<open>src/types/url-normalize.ts\<close>: the roles and their definitions, path resolution through symbolic
  links (\<open>resolveRealPath\<close>), the containment test (\<open>isWithinDirectory\<close>), the registry accessors,
  and the resolution of conditional role specifications against the arguments of a call. The
  annotation records are those of \<open>src/pipeline/types.ts\<close>. The prose fields of the registry
  (\<open>description\<close>, \<open>annotationGuidance\<close>), which only feed prompts, are left out.
\<close>

section \<open>Roles\<close>

datatype role_category = CatPath | CatUrl | CatIdentifier | CatOpaque

datatype role =
    ReadPath | WritePath | DeletePath | WriteHistory | DeleteHistory
  | FetchUrl | GitRemoteUrl
  | GithubOwner | GithubRepo
  | BranchName | CommitMessage
  | EmailAddress | EmailBody | SharePermission
  | ProxyDomain
  | NoneRole

fun roleName :: "role \<Rightarrow> string" where
  "roleName ReadPath = ''read-path''"
| "roleName WritePath = ''write-path''"
| "roleName DeletePath = ''delete-path''"
| "roleName WriteHistory = ''write-history''"
| "roleName DeleteHistory = ''delete-history''"
| "roleName FetchUrl = ''fetch-url''"
| "roleName GitRemoteUrl = ''git-remote-url''"
| "roleName GithubOwner = ''github-owner''"
| "roleName GithubRepo = ''github-repo''"
| "roleName BranchName = ''branch-name''"
| "roleName CommitMessage = ''commit-message''"
| "roleName EmailAddress = ''email-address''"
| "roleName EmailBody = ''email-body''"
| "roleName SharePermission = ''share-permission''"
| "roleName ProxyDomain = ''proxy-domain''"
| "roleName NoneRole = ''none''"

record role_definition =
  isResourceIdentifier :: bool
  category :: role_category
  canonicalize :: "host \<Rightarrow> string \<Rightarrow> string"
  serverNames :: "string list option"

section \<open>Canonicalisers\<close>

definition expandTilde :: "host \<Rightarrow> string \<Rightarrow> string" where
  "expandTilde h p =
     (if p = ''~'' then homedir h
      else if startsWith p ''~/'' then homedir h @ drop 1 p
      else p)"

definition MAX_DEPTH :: nat where
  "MAX_DEPTH = 64"

text \<open>The loop of \<open>resolveRealPath\<close> that walks up to the deepest existing ancestor; the first
  argument counts the iterations left, the last is \<open>tail\<close>.\<close>

fun walkUp :: "nat \<Rightarrow> host \<Rightarrow> string \<Rightarrow> string \<Rightarrow> string list \<Rightarrow> string" where
  "walkUp 0 h absolute current tail = absolute"
| "walkUp (Suc i) h absolute current tail =
     (let parent = dirname current; tail' = basename current # tail
      in if parent = current then absolute
         else (case realpathSync h parent of
                 Some r \<Rightarrow> pathJoin (r # tail')
               | None \<Rightarrow> walkUp i h absolute parent tail'))"

definition resolveRealPath :: "host \<Rightarrow> string \<Rightarrow> string" where
  "resolveRealPath h p =
     (let absolute = pathResolve (cwd h) [expandTilde h p]
      in case realpathSync h absolute of
           Some r \<Rightarrow> r
         | None \<Rightarrow> walkUp MAX_DEPTH h absolute absolute [])"

definition isWithinDirectory :: "host \<Rightarrow> string \<Rightarrow> string \<Rightarrow> bool" where
  "isWithinDirectory h targetPath directory =
     (let resolved = resolveRealPath h targetPath; resolvedDir = resolveRealPath h directory
      in resolved = resolvedDir \<or> startsWith resolved (resolvedDir @ ''/''))"

text \<open>\<open>normalizeUrl\<close>: the trailing slash of the serialisation is removed.\<close>

definition stripTrailingSlash :: "string \<Rightarrow> string" where
  "stripTrailingSlash s = (if endsWith s ''/'' then dropEnd 1 s else s)"

definition normalizeUrl :: "host \<Rightarrow> string \<Rightarrow> string" where
  "normalizeUrl h value =
     (case parseUrl h value of
        Some u \<Rightarrow> stripTrailingSlash (if pathname u = ''/'' then hrefRoot u else href u)
      | None \<Rightarrow> value)"

text \<open>The character class \<open>[\w.+-]\<close> of the user part of an SSH remote.\<close>

definition isSshUserChar :: "char \<Rightarrow> bool" where
  "isSshUserChar c = (isWordChar c \<or> c = CHR ''.'' \<or> c = CHR ''+'' \<or> c = CHR ''-'')"

text \<open>\<open>/^([^:]+):(.*)/\<close> on a string: the part before the first colon, which must not be empty,
  and the rest of the line after it.\<close>

definition matchHostColon :: "string \<Rightarrow> (string \<times> string) option" where
  "matchHostColon s =
     (let hst = takeWhile (\<lambda>c. c \<noteq> CHR '':'') s; rest = dropWhile (\<lambda>c. c \<noteq> CHR '':'') s
      in if hst = [] \<or> rest = [] then None
         else Some (hst, takeWhile (\<lambda>c. \<not> isLineTerm c) (tl rest)))"

text \<open>
  \<open>/^(?:[\w.+-]+@)?([^:]+):(.*)/\<close>. The class does not hold \<open>@\<close>, so the user part is the longest
  run of class characters, when an \<open>@\<close> follows it; where the rest does not match after it, the
  engine backtracks to the empty user part.
\<close>

definition sshMatch :: "string \<Rightarrow> (string \<times> string) option" where
  "sshMatch s =
     (let usr = takeWhile isSshUserChar s; rest = dropWhile isSshUserChar s
      in if usr \<noteq> [] \<and> startsWith rest ''@'' \<and> matchHostColon (tl rest) \<noteq> None
         then matchHostColon (tl rest)
         else matchHostColon s)"

definition normalizeGitUrl :: "host \<Rightarrow> string \<Rightarrow> string" where
  "normalizeGitUrl h value =
     (if sshMatch value \<noteq> None \<and> \<not> strIncludes value ''://'' then value
      else normalizeUrl h value)"

definition identityCanon :: "host \<Rightarrow> string \<Rightarrow> string" where
  "identityCanon h value = value"

definition lowercaseCanon :: "host \<Rightarrow> string \<Rightarrow> string" where
  "lowercaseCanon h value = toLowerCase value"

section \<open>Registry\<close>

definition registryEntries :: "(role \<times> role_definition) list" where
  "registryEntries =
    [(ReadPath, \<lparr>isResourceIdentifier = True, category = CatPath,
        canonicalize = resolveRealPath, serverNames = Some [''filesystem'', ''git'']\<rparr>),
     (WritePath, \<lparr>isResourceIdentifier = True, category = CatPath,
        canonicalize = resolveRealPath, serverNames = Some [''filesystem'', ''git'']\<rparr>),
     (DeletePath, \<lparr>isResourceIdentifier = True, category = CatPath,
        canonicalize = resolveRealPath, serverNames = Some [''filesystem'', ''git'']\<rparr>),
     (WriteHistory, \<lparr>isResourceIdentifier = True, category = CatPath,
        canonicalize = resolveRealPath, serverNames = Some [''git'']\<rparr>),
     (DeleteHistory, \<lparr>isResourceIdentifier = True, category = CatPath,
        canonicalize = resolveRealPath, serverNames = Some [''git'']\<rparr>),
     (FetchUrl, \<lparr>isResourceIdentifier = True, category = CatUrl,
        canonicalize = normalizeUrl, serverNames = Some [''fetch'']\<rparr>),
     (GitRemoteUrl, \<lparr>isResourceIdentifier = True, category = CatUrl,
        canonicalize = normalizeGitUrl, serverNames = Some [''git'']\<rparr>),
     (GithubOwner, \<lparr>isResourceIdentifier = True, category = CatIdentifier,
        canonicalize = lowercaseCanon, serverNames = Some [''github'']\<rparr>),
     (GithubRepo, \<lparr>isResourceIdentifier = True, category = CatIdentifier,
        canonicalize = lowercaseCanon, serverNames = Some [''github'']\<rparr>),
     (BranchName, \<lparr>isResourceIdentifier = False, category = CatOpaque,
        canonicalize = identityCanon, serverNames = Some [''git'', ''github'']\<rparr>),
     (CommitMessage, \<lparr>isResourceIdentifier = False, category = CatOpaque,
        canonicalize = identityCanon, serverNames = Some [''git'']\<rparr>),
     (EmailAddress, \<lparr>isResourceIdentifier = False, category = CatOpaque,
        canonicalize = identityCanon, serverNames = Some [''google-workspace'']\<rparr>),
     (EmailBody, \<lparr>isResourceIdentifier = False, category = CatOpaque,
        canonicalize = identityCanon, serverNames = Some [''google-workspace'']\<rparr>),
     (SharePermission, \<lparr>isResourceIdentifier = False, category = CatOpaque,
        canonicalize = lowercaseCanon, serverNames = Some [''google-workspace'']\<rparr>),
     (ProxyDomain, \<lparr>isResourceIdentifier = True, category = CatIdentifier,
        canonicalize = lowercaseCanon, serverNames = Some [''proxy'']\<rparr>),
     (NoneRole, \<lparr>isResourceIdentifier = False, category = CatOpaque,
        canonicalize = identityCanon, serverNames = None\<rparr>)]"

text \<open>\<open>None\<close> is the thrown \<open>No registry entry for role\<close>.\<close>

definition getRoleDefinition :: "role \<Rightarrow> role_definition option" where
  "getRoleDefinition r = map_of registryEntries r"

text \<open>The definition of a role, for callers inside the type: the registry is complete
  (\<open>registry_complete\<close> below).\<close>

definition roleDef :: "role \<Rightarrow> role_definition" where
  "roleDef r = the (getRoleDefinition r)"

definition getResourceRoles :: "role list" where
  "getResourceRoles = map fst (filter (\<lambda>(_, d). isResourceIdentifier d) registryEntries)"

definition isArgumentRole :: "string \<Rightarrow> bool" where
  "isArgumentRole value = (value \<in> set (map (roleName \<circ> fst) registryEntries))"

definition getArgumentRoleValues :: "role list" where
  "getArgumentRoleValues = map fst registryEntries"

definition getRolesForServer :: "string \<Rightarrow> (role \<times> role_definition) list" where
  "getRolesForServer serverName =
     filter (\<lambda>(_, d). case serverNames d of None \<Rightarrow> True | Some ns \<Rightarrow> serverName \<in> set ns)
       registryEntries"

definition getRolesByCategory :: "role_category \<Rightarrow> role list" where
  "getRolesByCategory cat = map fst (filter (\<lambda>(_, d). category d = cat) registryEntries)"

definition getPathRoles :: "role list" where
  "getPathRoles = getRolesByCategory CatPath"

definition getUrlRoles :: "role list" where
  "getUrlRoles = getRolesByCategory CatUrl"

definition getIdentifierRoles :: "role list" where
  "getIdentifierRoles = getRolesByCategory CatIdentifier"

definition SANDBOX_SAFE_PATH_ROLES :: "role list" where
  "SANDBOX_SAFE_PATH_ROLES = [ReadPath, WritePath, DeletePath, WriteHistory, DeleteHistory]"

section \<open>Annotations and conditional roles\<close>

record tool_annotation =
  ta_toolName :: string
  ta_serverName :: string
  ta_comment :: string
  ta_args :: "(string \<times> role list) list"

datatype role_is = IsPresent | IsAbsent | IsTruthy | IsFalsy

record role_condition =
  rc_arg :: string
  rc_equals :: "jsval option"
  rc_in :: "jsval list option"
  rc_is :: "role_is option"

record conditional_roles =
  cr_default :: "role list"
  cr_when :: "(role_condition \<times> role list) list"

datatype role_spec = StaticRoles "role list" | CondRoles conditional_roles

record stored_annotation =
  sa_toolName :: string
  sa_serverName :: string
  sa_comment :: string
  sa_args :: "(string \<times> role_spec) list"
  sa_inputSchema :: jsval

record server_annotations =
  srv_inputHash :: string
  srv_tools :: "stored_annotation list"

record annotations_file =
  af_generatedAt :: string
  af_servers :: "(string \<times> server_annotations) list"

record resolved_server_annotations =
  rsrv_inputHash :: string
  rsrv_tools :: "tool_annotation list"

record resolved_annotations_file =
  raf_generatedAt :: string
  raf_servers :: "(string \<times> resolved_server_annotations) list"

fun isConditionalRoles :: "role_spec \<Rightarrow> bool" where
  "isConditionalRoles (StaticRoles _) = False"
| "isConditionalRoles (CondRoles _) = True"

fun extractDefaultRoles :: "role_spec \<Rightarrow> role list" where
  "extractDefaultRoles (StaticRoles rs) = rs"
| "extractDefaultRoles (CondRoles c) = cr_default c"

definition evaluateCondition :: "role_condition \<Rightarrow> jsobj \<Rightarrow> bool" where
  "evaluateCondition c callArgs =
     (let value = getProp callArgs (rc_arg c); present = hasProp callArgs (rc_arg c)
      in case rc_equals c of
           Some v \<Rightarrow> value = v
         | None \<Rightarrow>
             (case rc_in c of
                Some vs \<Rightarrow> value \<in> set vs
              | None \<Rightarrow>
                  (case rc_is c of
                     Some IsPresent \<Rightarrow> present \<and> value \<noteq> JNull \<and> value \<noteq> JUndefined
                   | Some IsAbsent \<Rightarrow> \<not> present \<or> value = JNull \<or> value = JUndefined
                   | Some IsTruthy \<Rightarrow> present \<and> truthy value
                   | Some IsFalsy \<Rightarrow> \<not> present \<or> \<not> truthy value
                   | None \<Rightarrow> False)))"

fun firstWhen :: "(role_condition \<times> role list) list \<Rightarrow> role list \<Rightarrow> jsobj \<Rightarrow> role list" where
  "firstWhen [] dflt callArgs = dflt"
| "firstWhen ((c, rs) # es) dflt callArgs =
     (if evaluateCondition c callArgs then rs else firstWhen es dflt callArgs)"

definition evaluateConditionalRoles :: "conditional_roles \<Rightarrow> jsobj \<Rightarrow> role list" where
  "evaluateConditionalRoles spec callArgs = firstWhen (cr_when spec) (cr_default spec) callArgs"

fun resolveSpec :: "jsobj \<Rightarrow> role_spec \<Rightarrow> role list" where
  "resolveSpec callArgs (StaticRoles rs) = rs"
| "resolveSpec callArgs (CondRoles c) = evaluateConditionalRoles c callArgs"

text \<open>The fast path of the source returns the stored annotation itself when no argument is
  conditional; read at the type of a resolved annotation it has the same fields.\<close>

definition resolveStoredAnnotation :: "stored_annotation \<Rightarrow> jsobj \<Rightarrow> tool_annotation" where
  "resolveStoredAnnotation st callArgs =
     (let hasConditionals = (\<exists>(_, spec) \<in> set (sa_args st). isConditionalRoles spec);
          resolvedArgs = (if hasConditionals then map (\<lambda>(k, spec). (k, resolveSpec callArgs spec)) (sa_args st)
                          else map (\<lambda>(k, spec). (k, extractDefaultRoles spec)) (sa_args st))
      in \<lparr>ta_toolName = sa_toolName st, ta_serverName = sa_serverName st,
          ta_comment = sa_comment st, ta_args = resolvedArgs\<rparr>)"

definition resolveStoredAnnotationsFile :: "annotations_file \<Rightarrow> resolved_annotations_file" where
  "resolveStoredAnnotationsFile f =
     \<lparr>raf_generatedAt = af_generatedAt f,
      raf_servers = map (\<lambda>(n, srv).
        (n, \<lparr>rsrv_inputHash = srv_inputHash srv,
             rsrv_tools = map (\<lambda>t.
               \<lparr>ta_toolName = sa_toolName t, ta_serverName = sa_serverName t,
                ta_comment = sa_comment t,
                ta_args = map (\<lambda>(k, spec). (k, extractDefaultRoles spec)) (sa_args t)\<rparr>) (srv_tools srv)\<rparr>))
        (af_servers f)\<rparr>"

text \<open>The invariant of \<open>ConditionalRoles\<close> that the type comment states: a conditional entry only
  narrows the default roles.\<close>

definition narrowing :: "role_spec \<Rightarrow> bool" where
  "narrowing spec =
     (case spec of StaticRoles _ \<Rightarrow> True
      | CondRoles c \<Rightarrow> list_all (\<lambda>(_, rs). set rs \<subseteq> set (cr_default c)) (cr_when c))"

section \<open>Registry facts\<close>

lemmas accessor_defs = getPathRoles_def getUrlRoles_def getIdentifierRoles_def
  getRolesByCategory_def getResourceRoles_def registryEntries_def

lemma getPathRoles_eq [role_simps]:
  "getPathRoles = [ReadPath, WritePath, DeletePath, WriteHistory, DeleteHistory]"
  by (simp add: accessor_defs)

lemma getUrlRoles_eq [role_simps]: "getUrlRoles = [FetchUrl, GitRemoteUrl]"
  by (simp add: accessor_defs)

lemma getIdentifierRoles_eq [role_simps]: "getIdentifierRoles = [GithubOwner, GithubRepo, ProxyDomain]"
  by (simp add: accessor_defs)

lemma registry_complete: "\<exists>d. getRoleDefinition r = Some d"
  by (cases r) (simp_all only: getRoleDefinition_def registryEntries_def map_of_Cons_code(2)
      role.distinct if_True if_False simp_thms, blast+)

lemma getRoleDefinition_roleDef [simp]: "getRoleDefinition r = Some (roleDef r)"
  using registry_complete [of r] by (auto simp: roleDef_def)

lemma roleDef_simps:
  "roleDef ReadPath = \<lparr>isResourceIdentifier = True, category = CatPath, canonicalize = resolveRealPath, serverNames = Some [''filesystem'', ''git'']\<rparr>"
  "roleDef WritePath = \<lparr>isResourceIdentifier = True, category = CatPath, canonicalize = resolveRealPath, serverNames = Some [''filesystem'', ''git'']\<rparr>"
  "roleDef DeletePath = \<lparr>isResourceIdentifier = True, category = CatPath, canonicalize = resolveRealPath, serverNames = Some [''filesystem'', ''git'']\<rparr>"
  "roleDef WriteHistory = \<lparr>isResourceIdentifier = True, category = CatPath, canonicalize = resolveRealPath, serverNames = Some [''git'']\<rparr>"
  "roleDef DeleteHistory = \<lparr>isResourceIdentifier = True, category = CatPath, canonicalize = resolveRealPath, serverNames = Some [''git'']\<rparr>"
  "roleDef FetchUrl = \<lparr>isResourceIdentifier = True, category = CatUrl, canonicalize = normalizeUrl, serverNames = Some [''fetch'']\<rparr>"
  "roleDef GitRemoteUrl = \<lparr>isResourceIdentifier = True, category = CatUrl, canonicalize = normalizeGitUrl, serverNames = Some [''git'']\<rparr>"
  "roleDef GithubOwner = \<lparr>isResourceIdentifier = True, category = CatIdentifier, canonicalize = lowercaseCanon, serverNames = Some [''github'']\<rparr>"
  "roleDef GithubRepo = \<lparr>isResourceIdentifier = True, category = CatIdentifier, canonicalize = lowercaseCanon, serverNames = Some [''github'']\<rparr>"
  "roleDef BranchName = \<lparr>isResourceIdentifier = False, category = CatOpaque, canonicalize = identityCanon, serverNames = Some [''git'', ''github'']\<rparr>"
  "roleDef CommitMessage = \<lparr>isResourceIdentifier = False, category = CatOpaque, canonicalize = identityCanon, serverNames = Some [''git'']\<rparr>"
  "roleDef EmailAddress = \<lparr>isResourceIdentifier = False, category = CatOpaque, canonicalize = identityCanon, serverNames = Some [''google-workspace'']\<rparr>"
  "roleDef EmailBody = \<lparr>isResourceIdentifier = False, category = CatOpaque, canonicalize = identityCanon, serverNames = Some [''google-workspace'']\<rparr>"
  "roleDef SharePermission = \<lparr>isResourceIdentifier = False, category = CatOpaque, canonicalize = lowercaseCanon, serverNames = Some [''google-workspace'']\<rparr>"
  "roleDef ProxyDomain = \<lparr>isResourceIdentifier = True, category = CatIdentifier, canonicalize = lowercaseCanon, serverNames = Some [''proxy'']\<rparr>"
  "roleDef NoneRole = \<lparr>isResourceIdentifier = False, category = CatOpaque, canonicalize = identityCanon, serverNames = None\<rparr>"
  by (simp_all only: roleDef_def getRoleDefinition_def registryEntries_def map_of_Cons_code(2)
      role.distinct option.sel if_True if_False simp_thms)

lemma category_roleDef [role_simps]:
  "category (roleDef r) =
     (if r \<in> set getPathRoles then CatPath else if r \<in> set getUrlRoles then CatUrl
      else if r \<in> set getIdentifierRoles then CatIdentifier else CatOpaque)"
  by (cases r) (simp_all only: roleDef_simps role_definition.simps role.simps role_category.simps
      getPathRoles_eq getUrlRoles_eq getIdentifierRoles_eq list.set insert_iff empty_iff if_True if_False simp_thms)

lemma isResourceIdentifier_roleDef [role_simps]:
  "isResourceIdentifier (roleDef r) \<longleftrightarrow> category (roleDef r) \<noteq> CatOpaque"
  by (cases r) (simp_all only: roleDef_simps role_definition.simps role.simps role_category.simps
      getPathRoles_eq getUrlRoles_eq getIdentifierRoles_eq list.set insert_iff empty_iff if_True if_False simp_thms)

lemma canonicalize_roleDef [role_simps]:
  "canonicalize (roleDef r) =
     (if r \<in> set getPathRoles then resolveRealPath
      else if r = FetchUrl then normalizeUrl
      else if r = GitRemoteUrl then normalizeGitUrl
      else if r \<in> set getIdentifierRoles \<or> r = SharePermission then lowercaseCanon
      else identityCanon)"
  by (cases r) (simp_all only: roleDef_simps role_definition.simps role.simps role_category.simps
      getPathRoles_eq getUrlRoles_eq getIdentifierRoles_eq list.set insert_iff empty_iff if_True if_False simp_thms)

lemma roleName_inject [simp]: "roleName a = roleName b \<longleftrightarrow> a = b"
  by (cases a; cases b) simp_all

lemma isArgumentRole_iff: "isArgumentRole s \<longleftrightarrow> (\<exists>r. s = roleName r)"
proof
  assume "\<exists>r. s = roleName r"
  then obtain r where "s = roleName r" by blast
  then show "isArgumentRole s"
    by (cases r) (simp_all add: isArgumentRole_def registryEntries_def)
qed (auto simp: isArgumentRole_def)

text \<open>A role is offered to the filesystem server only if the sandbox may resolve it.\<close>

lemma filesystem_roles_sandbox_safe:
  "r \<in> fst ` set (getRolesForServer ''filesystem'') \<Longrightarrow> r \<in> set SANDBOX_SAFE_PATH_ROLES \<or> r = NoneRole"
  by (auto simp: getRolesForServer_def registryEntries_def SANDBOX_SAFE_PATH_ROLES_def)

section \<open>Path resolution\<close>

text \<open>What the sources rely on from the host: an absolute working directory, and that
  \<open>realpathSync\<close> returns a normalised absolute path when it returns.\<close>

definition hostOk :: "host \<Rightarrow> bool" where
  "hostOk h \<longleftrightarrow> startsWith (cwd h) ''/'' \<and> (\<forall>p r. realpathSync h p = Some r \<longrightarrow> isCanonical r)"

lemma rev_clean: "cleanSeg x \<Longrightarrow> \<exists>c cs. rev x = c # cs \<and> c \<noteq> CHR ''/'' \<and> CHR ''/'' \<notin> set (c # cs)"
  by (cases "rev x") (auto simp: cleanSeg_def rev_eq_Cons_iff)

lemma strip_clean_end:
  assumes "cleanSeg x"
  shows "dropWhile (\<lambda>c. c = CHR ''/'') (rev x @ zs) = rev x @ zs"
    and "dropWhile (\<lambda>c. c \<noteq> CHR ''/'') (rev x @ CHR ''/'' # zs) = CHR ''/'' # zs"
    and "takeWhile (\<lambda>c. c \<noteq> CHR ''/'') (rev x @ CHR ''/'' # zs) = rev x"
    and "dropWhile (\<lambda>c. c \<noteq> CHR ''/'') (rev x) = []"
proof -
  obtain c cs where rx: "rev x = c # cs" and c: "c \<noteq> CHR ''/''" and all: "\<forall>d \<in> set (rev x). d \<noteq> CHR ''/''"
    using rev_clean [OF assms] by auto
  show "dropWhile (\<lambda>c. c = CHR ''/'') (rev x @ zs) = rev x @ zs"
    using rx c by simp
  show "dropWhile (\<lambda>c. c \<noteq> CHR ''/'') (rev x @ CHR ''/'' # zs) = CHR ''/'' # zs"
    and "takeWhile (\<lambda>c. c \<noteq> CHR ''/'') (rev x @ CHR ''/'' # zs) = rev x"
    and "dropWhile (\<lambda>c. c \<noteq> CHR ''/'') (rev x) = []"
    using all by (simp_all add: dropWhile_append3 takeWhile_tail dropWhile_eq_Nil_conv)
qed

lemma absPath_snoc: "absPath (xs @ [x]) = (if xs = [] then CHR ''/'' # x else absPath xs @ CHR ''/'' # x)"
  by (simp add: absPath_def joinWith_append)

lemma dirname_absPath:
  assumes "list_all cleanSeg xs" "cleanSeg x"
  shows "dirname (absPath (xs @ [x])) = absPath xs"
proof (cases "xs = []")
  case True
  then show ?thesis
    using strip_clean_end(1) [OF assms(2), of "[]"] strip_clean_end(4) [OF assms(2)]
    by (simp add: dirname_def absPath_def)
next
  case False
  obtain y ys where cons: "joinWith ''/'' xs = y # ys"
    using False assms
    by (cases xs) (auto simp: cleanSeg_def neq_Nil_conv joinWith_hd simp del: joinWith.simps)
  have p: "absPath (xs @ [x]) = absPath xs @ CHR ''/'' # x"
    using False by (simp add: absPath_snoc)
  have "rev (tl (absPath (xs @ [x]))) = rev x @ CHR ''/'' # rev (joinWith ''/'' xs)"
    using p by (simp add: absPath_def)
  then have "dropWhile (\<lambda>c. c \<noteq> CHR ''/'') (dropWhile (\<lambda>c. c = CHR ''/'') (rev (tl (absPath (xs @ [x]))))) =
      CHR ''/'' # rev (joinWith ''/'' xs)"
    by (simp add: strip_clean_end [OF assms(2)])
  then show ?thesis
    using cons by (simp add: dirname_def p) (simp add: absPath_def)
qed

lemma basename_absPath:
  assumes "cleanSeg x"
  shows "basename (absPath (xs @ [x])) = x"
proof -
  obtain zs where "rev (absPath (xs @ [x])) = rev x @ CHR ''/'' # zs"
    by (cases "xs = []") (auto simp: absPath_snoc, simp add: absPath_def)
  then show ?thesis
    by (simp add: basename_def strip_clean_end [OF assms])
qed

lemma dirname_root [simp]: "dirname (absPath []) = absPath []"
  by (simp add: dirname_def absPath_def)

lemma pathJoin_absPath:
  assumes "list_all cleanSeg rs" "list_all cleanSeg ss" "ss \<noteq> []"
  shows "pathJoin (absPath rs # ss) = absPath (rs @ ss)"
proof -
  have ne: "filter (\<lambda>p. p \<noteq> []) (absPath rs # ss) = absPath rs # ss"
    using assms(2) by (auto simp: absPath_def list_all_iff cleanSeg_def filter_id_conv)
  let ?j = "joinWith ''/'' (absPath rs # ss)"
  have j: "?j = absPath rs @ CHR ''/'' # joinWith ''/'' ss"
    using assms(3) by (simp add: joinWith_Cons)
  have "splitOn CHR ''/'' (joinWith ''/'' ss) = ss"
    using assms by (intro splitOn_joinWith) (auto simp: list_all_iff cleanSeg_def)
  then have "normSegs False [] (splitOn CHR ''/'' ?j) = rs @ ss"
    using assms by (simp add: j splitOn_append_sep splitOn_absPath normSegs_clean_id)
  then have n: "normalizeString False ?j = joinWith ''/'' (rs @ ss)"
    by (simp add: normalizeString_def)
  obtain z zs where last: "ss = zs @ [z]" "cleanSeg z"
    using assms(2,3) by (cases ss rule: rev_cases) auto
  have "\<not> endsWith ?j ''/''"
  proof -
    have "suffix z ?j"
      using last by (cases "zs = []") (auto simp: joinWith_append joinWith_Cons suffix_def)
    then show ?thesis using last(2) by (auto simp: suffix_def cleanSeg_def) (metis Un_iff append_is_Nil_conv
          last_appendR last_in_set last_snoc set_append)
  qed
  moreover have "startsWith ?j ''/''" and "?j \<noteq> []"
    unfolding j by (simp_all add: absPath_def)
  moreover have "joinWith ''/'' (rs @ ss) \<noteq> []"
    using last by (cases "rs @ zs = []") (auto simp: joinWith_append cleanSeg_def simp flip: append_assoc)
  ultimately show ?thesis
    unfolding pathJoin_def ne pathNormalize_def by (simp add: n) (simp add: absPath_def)
qed

lemma walkUp_found:
  assumes "list_all cleanSeg (xs @ ys)" "ys \<noteq> []" "length ys \<le> n" "list_all cleanSeg ts"
    and "realpathSync h (absPath xs) = Some r"
    and "\<And>zs ws. ys = zs @ ws \<Longrightarrow> zs \<noteq> [] \<Longrightarrow> ws \<noteq> [] \<Longrightarrow> realpathSync h (absPath (xs @ zs)) = None"
  shows "walkUp n h a (absPath (xs @ ys)) ts = pathJoin (r # ys @ ts)"
  using assms
proof (induction n arbitrary: ys ts)
  case (Suc n)
  obtain zs z where ys: "ys = zs @ [z]" using Suc.prems(2) by (cases ys rule: rev_cases) auto
  have z: "cleanSeg z" and zs: "list_all cleanSeg (xs @ zs)" using Suc.prems(1) ys by auto
  have dir: "dirname (absPath (xs @ ys)) = absPath (xs @ zs)"
    and base: "basename (absPath (xs @ ys)) = z"
    using dirname_absPath [OF zs z] basename_absPath [OF z, of "xs @ zs"] ys by simp_all
  have ne: "absPath (xs @ zs) \<noteq> absPath (xs @ ys)"
    using absPath_inject [OF zs Suc.prems(1)] ys by simp
  show ?case
  proof (cases "zs = []")
    case True
    with Suc.prems(5) dir base ne ys show ?thesis by (simp add: Let_def)
  next
    case False
    have "walkUp n h a (absPath (xs @ zs)) (z # ts) = pathJoin (r # zs @ z # ts)"
    proof (rule Suc.IH [OF zs False _ _ Suc.prems(5)])
      show "length zs \<le> n" using Suc.prems(3) ys by simp
      show "list_all cleanSeg (z # ts)" using z Suc.prems(4) by simp
      show "realpathSync h (absPath (xs @ us)) = None" if "zs = us @ ws" "us \<noteq> []" "ws \<noteq> []" for us ws
        using that ys by (intro Suc.prems(6) [of us "ws @ [z]"]) auto
    qed
    moreover have "realpathSync h (absPath (xs @ zs)) = None"
      using Suc.prems(6) [of zs "[z]"] ys False by simp
    ultimately show ?thesis using dir base ne ys by (simp add: Let_def)
  qed
qed simp

lemma walkUp_exhausted:
  assumes "list_all cleanSeg (xs @ ys)" "n \<le> length ys"
    and "\<And>zs ws. ys = zs @ ws \<Longrightarrow> ws \<noteq> [] \<Longrightarrow> length ws \<le> n \<Longrightarrow> realpathSync h (absPath (xs @ zs)) = None"
  shows "walkUp n h a (absPath (xs @ ys)) ts = a"
  using assms
proof (induction n arbitrary: ys ts)
  case (Suc n)
  obtain zs z where ys: "ys = zs @ [z]" using Suc.prems(2) by (cases ys rule: rev_cases) auto
  have z: "cleanSeg z" and zs: "list_all cleanSeg (xs @ zs)" using Suc.prems(1) ys by auto
  have dir: "dirname (absPath (xs @ ys)) = absPath (xs @ zs)"
    using dirname_absPath [OF zs z] ys by simp
  have "realpathSync h (absPath (xs @ zs)) = None"
    using Suc.prems(3) [of zs "[z]"] ys by simp
  moreover have "walkUp n h a (absPath (xs @ zs)) us = a" for us
  proof (rule Suc.IH [OF zs])
    show "n \<le> length zs" using Suc.prems(2) ys by simp
    show "realpathSync h (absPath (xs @ us)) = None" if "zs = us @ ws" "ws \<noteq> []" "length ws \<le> n" for us ws
      using that ys by (intro Suc.prems(3) [of us "ws @ [z]"]) auto
  qed
  ultimately show ?case using dir by (simp add: Let_def)
qed simp

lemma walkUp_canonical:
  assumes "hostOk h" "isCanonical a" "list_all cleanSeg segs" "list_all cleanSeg ts"
  shows "isCanonical (walkUp n h a (absPath segs) ts)"
  using assms(3,4)
proof (induction n arbitrary: segs ts)
  case (Suc n)
  show ?case
  proof (cases segs rule: rev_cases)
    case Nil
    with assms(2) show ?thesis by (simp add: Let_def)
  next
    case (snoc zs z)
    then have cl: "list_all cleanSeg zs" "cleanSeg z" using Suc.prems(1) by auto
    have db: "dirname (absPath segs) = absPath zs" "basename (absPath segs) = z"
      using dirname_absPath [OF cl] basename_absPath [OF cl(2)] snoc by simp_all
    show ?thesis
    proof (cases "realpathSync h (absPath zs)")
      case None
      with db Suc.IH [OF cl(1)] Suc.prems(2) cl(2) assms(2) show ?thesis by (simp add: Let_def)
    next
      case (Some r)
      then obtain rs where r: "r = absPath rs" "list_all cleanSeg rs"
        using assms(1) by (auto simp: hostOk_def isCanonical_def)
      then have "pathJoin (r # z # ts) = absPath (rs @ z # ts)"
        using pathJoin_absPath [of rs "z # ts"] cl(2) Suc.prems(2) by simp
      then have "isCanonical (pathJoin (r # z # ts))"
        unfolding isCanonical_def using r(2) cl(2) Suc.prems(2) by (intro exI [of _ "rs @ z # ts"]) simp
      with db Some assms(2) show ?thesis by (simp add: Let_def)
    qed
  qed
qed (simp add: assms(2))

lemma resolveRealPath_isCanonical:
  assumes "hostOk h"
  shows "isCanonical (resolveRealPath h p)"
proof -
  let ?a = "pathResolve (cwd h) [expandTilde h p]"
  have a: "isCanonical ?a" using assms by (intro pathResolve_canonical) (simp add: hostOk_def)
  then obtain segs where "list_all cleanSeg segs" "?a = absPath segs" by (auto simp: isCanonical_def)
  with walkUp_canonical [OF assms a, of segs "[]"] have "isCanonical (walkUp MAX_DEPTH h ?a ?a [])" by simp
  then show ?thesis
    using assms by (auto simp: resolveRealPath_def Let_def hostOk_def split: option.splits)
qed

lemma expandTilde_absolute: "expandTilde h (absPath segs) = absPath segs"
  by (simp add: expandTilde_def absPath_def)

lemma resolveRealPath_absPath:
  "list_all cleanSeg segs \<Longrightarrow> resolveRealPath h (absPath segs) =
     (case realpathSync h (absPath segs) of Some r \<Rightarrow> r
      | None \<Rightarrow> walkUp MAX_DEPTH h (absPath segs) (absPath segs) [])"
  by (simp add: resolveRealPath_def expandTilde_absolute pathResolve_absPath Let_def)

section \<open>Containment\<close>

text \<open>The contract that the policy engine and the approval whitelist use of the containment test:
  it is a preorder, so a path below a directory is below everything that directory is below.\<close>

locale containment =
  fixes inside :: "string \<Rightarrow> string \<Rightarrow> bool"
  assumes within_refl: "inside p p"
    and within_trans: "inside p d \<Longrightarrow> inside d e \<Longrightarrow> inside p e"
begin

lemma all_within_mono:
  "list_all (\<lambda>p. inside p d) ps \<Longrightarrow> inside d e \<Longrightarrow> list_all (\<lambda>p. inside p e) ps"
  by (auto simp: list_all_iff intro: within_trans)

lemma filter_within_mono:
  "inside d e \<Longrightarrow> set (filter (\<lambda>p. inside p d) ps) \<subseteq> set (filter (\<lambda>p. inside p e) ps)"
  by (auto intro: within_trans)

end

interpretation wd: containment "isWithinDirectory h" for h
proof
  show "isWithinDirectory h p p" for p by (simp add: isWithinDirectory_def)
  show "isWithinDirectory h p e" if "isWithinDirectory h p d" "isWithinDirectory h d e" for p d e
  proof -
    have "prefix (x @ z) y \<Longrightarrow> prefix (w @ z) x \<Longrightarrow> prefix (w @ z) y" for x y z w :: string
      by (metis append_prefixD prefix_order.order_trans)
    with that show ?thesis by (auto simp: isWithinDirectory_def Let_def)
  qed
qed

section \<open>Properties\<close>

text \<open>A small host for the witnesses: home and working directory, a sandbox \<open>/s\<close>, a link
  \<open>/s/l\<close> to \<open>/etc\<close>, and nothing else on disk.\<close>

definition demoHost :: host where
  "demoHost = \<lparr>homedir = ''/home/u'', cwd = ''/s'',
     realpathSync = map_of [(''/'', ''/''), (''/s'', ''/s''), (''/s/l'', ''/etc''), (''/etc'', ''/etc'')],
     parseUrl = (\<lambda>_. None), gitExec = (\<lambda>_ _. None)\<rparr>"

lemma demoHost_ok: "hostOk demoHost"
proof -
  have "isCanonical ''/''" by (simp add: isCanonical_def) (rule exI [of _ "[]"], simp add: absPath_def)
  moreover have "isCanonical ''/s''"
    by (simp add: isCanonical_def) (rule exI [of _ "[''s'']"], simp add: absPath_def cleanSeg_def)
  moreover have "isCanonical ''/etc''"
    by (simp add: isCanonical_def) (rule exI [of _ "[''etc'']"], simp add: absPath_def cleanSeg_def)
  ultimately show ?thesis
    by (auto simp: hostOk_def demoHost_def map_of_Cons_code simp del: map_of.simps split: if_splits)
qed

text \<open>Path resolution always ends with a normalised absolute path: no empty, dot or dot-dot
  component survives, whatever the agent sent and whichever branch (existing path, deepest
  existing ancestor, unresolved fallback) produced it.\<close>

theorem resolveRealPath_canonical: "hostOk h \<Longrightarrow> isCanonical (resolveRealPath h p)"
  by (rule resolveRealPath_isCanonical)

theorem resolveRealPath_canonical_witness:
  "hostOk demoHost \<and> isCanonical (resolveRealPath demoHost ''../s//./l/../l/x'')"
  using demoHost_ok resolveRealPath_canonical [of demoHost "''../s//./l/../l/x''"] by blast

text \<open>Containment is component-wise: with the resolved directory not the root, a target is
  within it exactly when the directory's components are a prefix of the target's components. A
  sibling such as \<open>/sandbox-evil\<close> is therefore not within \<open>/sandbox\<close>.\<close>

theorem isWithinDirectory_components:
  assumes "list_all cleanSeg xs" "list_all cleanSeg ys" "ys \<noteq> []"
    and "resolveRealPath h p = absPath xs" "resolveRealPath h d = absPath ys"
  shows "isWithinDirectory h p d \<longleftrightarrow> prefix ys xs"
  using absPath_below_iff [OF assms(1-3)] assms(4,5) by (simp add: isWithinDirectory_def)

theorem isWithinDirectory_components_witness:
  "isWithinDirectory demoHost ''/s/f'' ''/s'' \<longleftrightarrow> prefix [''s''] [''s'', ''f'']"
proof (rule isWithinDirectory_components)
  show "resolveRealPath demoHost ''/s/f'' = absPath [''s'', ''f'']" by code_simp
  show "resolveRealPath demoHost ''/s'' = absPath [''s'']" by code_simp
qed (simp_all add: cleanSeg_def)

text \<open>A directory condition that resolves to the file-system root matches only the root
  itself, because the test compares with the prefix \<open>//\<close>: no path is "within" \<open>/\<close>.\<close>

theorem isWithinDirectory_root:
  assumes "hostOk h" "resolveRealPath h d = ''/''"
  shows "isWithinDirectory h p d \<longleftrightarrow> resolveRealPath h p = ''/''"
proof -
  obtain xs where xs: "list_all cleanSeg xs" "resolveRealPath h p = absPath xs"
    using resolveRealPath_isCanonical [OF assms(1)] by (auto simp: isCanonical_def)
  have "\<not> prefix ''//'' (absPath xs)"
    using xs(1) by (cases xs) (auto simp: absPath_def cleanSeg_def neq_Nil_conv joinWith_hd
        simp del: joinWith.simps(2,3))
  with xs(2) assms(2) show ?thesis by (simp add: isWithinDirectory_def)
qed

theorem isWithinDirectory_root_witness:
  "isWithinDirectory demoHost ''/etc'' ''/'' \<longleftrightarrow> resolveRealPath demoHost ''/etc'' = ''/''"
  by (rule isWithinDirectory_root [OF demoHost_ok]) code_simp



text \<open>When the 64 levels above a missing path are all missing too, resolution returns the
  path unresolved: a symbolic link further up is not followed, so the containment test then sees
  the link's own location and not its target.\<close>

theorem resolveRealPath_depth_limit:
  assumes "list_all cleanSeg (xs @ ys)" "length ys = 64"
    and "\<And>zs ws. ys = zs @ ws \<Longrightarrow> realpathSync h (absPath (xs @ zs)) = None"
  shows "resolveRealPath h (absPath (xs @ ys)) = absPath (xs @ ys)"
proof -
  have "walkUp MAX_DEPTH h (absPath (xs @ ys)) (absPath (xs @ ys)) [] = absPath (xs @ ys)"
    by (rule walkUp_exhausted [OF assms(1)]) (use assms(2,3) in \<open>auto simp: MAX_DEPTH_def\<close>)
  with assms(1) assms(3) [of ys "[]"] show ?thesis by (simp add: resolveRealPath_absPath)
qed

theorem resolveRealPath_depth_limit_witness:
  "resolveRealPath demoHost (absPath ([''s'', ''l'', ''d''] @ replicate 64 ''d'')) =
     absPath ([''s'', ''l'', ''d''] @ replicate 64 ''d'')"
proof (rule resolveRealPath_depth_limit)
  show "list_all cleanSeg ([''s'', ''l'', ''d''] @ replicate 64 ''d'')"
    by (simp add: cleanSeg_def list_all_iff)
  show "realpathSync demoHost (absPath ([''s'', ''l'', ''d''] @ zs)) = None" for zs :: "string list"
    by (cases zs) (simp_all add: demoHost_def absPath_def)
qed simp

text \<open>Evaluating a conditional role specification against the arguments of a call only
  narrows the roles: when every conditional entry keeps to the default roles, each argument's
  resolved roles are among its default roles, and unconditional arguments keep theirs.\<close>

theorem resolveStoredAnnotation_narrows:
  assumes "\<forall>(k, spec) \<in> set (sa_args st). narrowing spec"
    and "(k, rs) \<in> set (ta_args (resolveStoredAnnotation st callArgs))"
  shows "\<exists>spec. (k, spec) \<in> set (sa_args st) \<and> set rs \<subseteq> set (extractDefaultRoles spec)"
proof -
  have sub: "set (resolveSpec callArgs spec) \<subseteq> set (extractDefaultRoles spec)" if "narrowing spec" for spec
  proof (cases spec)
    case (CondRoles c)
    have "list_all (\<lambda>(_, rs). set rs \<subseteq> set d) es \<Longrightarrow> set (firstWhen es d callArgs) \<subseteq> set d" for es d
      by (induction es d callArgs rule: firstWhen.induct) auto
    with CondRoles that show ?thesis by (simp add: narrowing_def evaluateConditionalRoles_def)
  qed simp
  from assms(2) obtain spec where "(k, spec) \<in> set (sa_args st)"
    and "rs = resolveSpec callArgs spec \<or> rs = extractDefaultRoles spec"
    by (auto simp: resolveStoredAnnotation_def Let_def split: if_splits)
  with sub assms(1) show ?thesis by blast
qed

theorem resolveStoredAnnotation_narrows_witness:
  "\<exists>spec. (''path'', spec) \<in> set (sa_args
       \<lparr>sa_toolName = ''git_branch'', sa_serverName = ''git'', sa_comment = [],
        sa_args = [(''path'', CondRoles \<lparr>cr_default = [ReadPath, DeleteHistory],
          cr_when = [(\<lparr>rc_arg = ''op'', rc_equals = Some (JStr ''list''), rc_in = None, rc_is = None\<rparr>, [ReadPath])]\<rparr>)],
        sa_inputSchema = JObj []\<rparr>) \<and> set [ReadPath] \<subseteq> set (extractDefaultRoles spec)"
  by (rule resolveStoredAnnotation_narrows [where callArgs = "[(''op'', JStr ''list'')]"])
    (simp_all add: narrowing_def resolveStoredAnnotation_def evaluateConditionalRoles_def
      evaluateCondition_def getProp_def)

end
