(* ===== verification/Domain_Utils.thy ===== *)
theory Domain_Utils
  imports Argument_Roles
begin

text \<open>
  Domain matching and extraction of \<open>src/trusted-process/domain-utils.ts\<close>, with the git remote
  resolution over the host's \<open>gitExec\<close>, and the matchers of \<open>src/trusted-process/list-matcher.ts\<close>.
  The properties: the wildcard never admits an IP address, suffix wildcards stop at a label
  boundary, matching is monotone in the allowlist, and the SSH and HTTPS forms of a repository
  yield the same domain.
\<close>

section \<open>Domain matching\<close>

definition allDigits :: "string \<Rightarrow> bool" where
  "allDigits s = (s \<noteq> [] \<and> list_all isDigit s)"

definition isIpAddress :: "string \<Rightarrow> bool" where
  "isIpAddress domain =
     ((let fs = splitOn CHR ''.'' domain in length fs = 4 \<and> list_all allDigits fs) \<or>
      strIncludes domain '':'')"

text \<open>The part of a domain before its first slash.\<close>

definition hostPart :: "string \<Rightarrow> string" where
  "hostPart domain = takeWhile (\<lambda>c. c \<noteq> CHR ''/'') domain"

definition domainPatternMatches :: "string \<Rightarrow> string \<Rightarrow> bool" where
  "domainPatternMatches domain pattern =
     (let hostname = hostPart domain
      in if pattern = ''*'' then \<not> isIpAddress hostname
         else if startsWith pattern ''*.'' then
           hostname = drop 2 pattern \<or> endsWith hostname (drop 1 pattern)
         else if strIncludes pattern ''/'' then domain = pattern
         else hostname = pattern)"

definition domainMatchesAllowlist :: "string \<Rightarrow> string list \<Rightarrow> bool" where
  "domainMatchesAllowlist domain allowedDomains =
     list_ex (domainPatternMatches domain) allowedDomains"

section \<open>Domain extraction\<close>

definition extractDomain :: "host \<Rightarrow> string \<Rightarrow> string" where
  "extractDomain h value = (case parseUrl h value of Some u \<Rightarrow> hostname u | None \<Rightarrow> value)"

definition normalizeGitRepoPath :: "string \<Rightarrow> string" where
  "normalizeGitRepoPath p =
     (let s1 = (if startsWith p ''/'' then drop 1 p else p);
          s2 = (if endsWith s1 ''/'' then dropEnd 1 s1 else s1);
          s3 = (if endsWith s2 ''.git'' then dropEnd 4 s2 else s2)
      in if endsWith s3 ''/'' then dropEnd 1 s3 else s3)"

definition hostAndRepo :: "string \<Rightarrow> string \<Rightarrow> string" where
  "hostAndRepo hst p =
     (let repoPath = normalizeGitRepoPath p
      in if repoPath \<noteq> [] then hst @ ''/'' @ repoPath else hst)"

definition extractGitDomain :: "host \<Rightarrow> string \<Rightarrow> string" where
  "extractGitDomain h value =
     (case (if strIncludes value ''://'' then None else sshMatch value) of
        Some (hst, p) \<Rightarrow> hostAndRepo hst p
      | None \<Rightarrow>
          (case parseUrl h value of
             Some u \<Rightarrow> hostAndRepo (hostname u) (pathname u)
           | None \<Rightarrow> value))"

definition extractDomainForRole :: "host \<Rightarrow> string \<Rightarrow> role \<Rightarrow> string" where
  "extractDomainForRole h value r =
     (if r = GitRemoteUrl then extractGitDomain h value else extractDomain h value)"

section \<open>Git remotes\<close>

text \<open>\<open>/^[\w.+-]+@[^:]+:/\<close>.\<close>

definition isSshRemote :: "string \<Rightarrow> bool" where
  "isSshRemote value =
     (let usr = takeWhile isSshUserChar value; rest = dropWhile isSshUserChar value
      in usr \<noteq> [] \<and> startsWith rest ''@'' \<and> matchHostColon (tl rest) \<noteq> None)"

definition resolveGitRemote :: "host \<Rightarrow> string \<Rightarrow> jsobj \<Rightarrow> string" where
  "resolveGitRemote h value allArgs =
     (if strIncludes value ''://'' \<or> isSshRemote value then value
      else let rawPath = (case getProp allArgs ''path'' of JStr p \<Rightarrow> p | _ \<Rightarrow> ''.'');
               repoPath = pathResolve (cwd h) [rawPath]
           in case gitExec h repoPath [''remote'', ''get-url'', value] of
                Some out \<Rightarrow> trim out
              | None \<Rightarrow> value)"

text \<open>\<open>x || undefined\<close> on a string.\<close>

definition orUndefined :: "string \<Rightarrow> string option" where
  "orUndefined s = (if s = [] then None else Some s)"

definition gitCurrentBranch :: "host \<Rightarrow> string \<Rightarrow> string option" where
  "gitCurrentBranch h dir =
     (case gitExec h dir [''rev-parse'', ''--abbrev-ref'', ''HEAD''] of
        Some out \<Rightarrow> (let branch = trim out in if branch \<noteq> ''HEAD'' then Some branch else None)
      | None \<Rightarrow> None)"

definition gitBranchRemote :: "host \<Rightarrow> string \<Rightarrow> string \<Rightarrow> string option" where
  "gitBranchRemote h branch dir =
     (case gitExec h dir [''config'', ''--get'', ''branch.'' @ branch @ ''.remote''] of
        Some out \<Rightarrow> orUndefined (trim out)
      | None \<Rightarrow> None)"

definition gitRemoteUrl :: "host \<Rightarrow> string \<Rightarrow> string \<Rightarrow> string option" where
  "gitRemoteUrl h remoteName dir =
     (case gitExec h dir [''remote'', ''get-url'', remoteName] of
        Some out \<Rightarrow> orUndefined (trim out)
      | None \<Rightarrow> None)"

definition resolveDefaultGitRemote :: "host \<Rightarrow> string \<Rightarrow> string option" where
  "resolveDefaultGitRemote h repoPath =
     (let dir = pathResolve (cwd h) [repoPath];
          tracked = (case gitCurrentBranch h dir of
                       Some branch \<Rightarrow>
                         (if branch = [] then None
                          else case gitBranchRemote h branch dir of
                                 Some remoteName \<Rightarrow> gitRemoteUrl h remoteName dir
                               | None \<Rightarrow> None)
                     | None \<Rightarrow> None)
      in case tracked of Some url \<Rightarrow> Some url | None \<Rightarrow> gitRemoteUrl h ''origin'' dir)"

section \<open>List matchers\<close>

datatype list_type = Domains | Emails | Identifiers

fun getListMatcher :: "list_type \<Rightarrow> string \<Rightarrow> string \<Rightarrow> bool" where
  "getListMatcher Domains v p = domainMatchesAllowlist v [p]"
| "getListMatcher Emails v p = (toLowerCase v = toLowerCase p)"
| "getListMatcher Identifiers v p = (v = p)"

section \<open>Lemmas\<close>

lemma domainMatchesAllowlist_iff:
  "domainMatchesAllowlist d ps \<longleftrightarrow> (\<exists>p \<in> set ps. domainPatternMatches d p)"
  by (simp add: domainMatchesAllowlist_def list_ex_iff)

lemma domainMatchesAllowlist_append [simp]:
  "domainMatchesAllowlist d (ps @ qs) \<longleftrightarrow> domainMatchesAllowlist d ps \<or> domainMatchesAllowlist d qs"
  by (simp add: domainMatchesAllowlist_def)

lemma hostPart_no_slash: "CHR ''/'' \<notin> set d \<Longrightarrow> hostPart d = d"
  by (induction d) (auto simp: hostPart_def)

lemma hostPart_append: "CHR ''/'' \<notin> set d \<Longrightarrow> hostPart (d @ CHR ''/'' # r) = d"
  by (induction d) (auto simp: hostPart_def)

lemma sublist_single_iff: "sublist [c] s \<longleftrightarrow> c \<in> set s"
  by (auto simp: sublist_def in_set_conv_decomp)

text \<open>A value with a user part matches as the part after the \<open>@\<close> does.\<close>

lemma sshMatch_git:
  assumes "hst \<noteq> []" "CHR '':'' \<notin> set hst" "\<forall>c \<in> set repo. \<not> isLineTerm c"
  shows "sshMatch (''git@'' @ hst @ '':'' @ repo) = Some (hst, repo)"
proof -
  have tw: "takeWhile (\<lambda>c. c \<noteq> CHR '':'') (hst @ CHR '':'' # repo) = hst"
    and dw: "dropWhile (\<lambda>c. c \<noteq> CHR '':'') (hst @ CHR '':'' # repo) = CHR '':'' # repo"
    using assms(2) by (auto simp: takeWhile_tail dropWhile_append3 intro!: takeWhile_append2 [THEN trans])
  have "takeWhile (\<lambda>c. \<not> isLineTerm c) repo = repo"
    using assms(3) by (simp add: takeWhile_eq_all_conv)
  with tw dw assms(1) have "matchHostColon (hst @ CHR '':'' # repo) = Some (hst, repo)"
    by (simp add: matchHostColon_def)
  moreover have "isSshUserChar CHR ''g''" "isSshUserChar CHR ''i''" "isSshUserChar CHR ''t''"
    "\<not> isSshUserChar CHR ''@''"
    by (simp_all add: isSshUserChar_def isWordChar_def isLetter_def isDigit_def)
  ultimately show ?thesis by (simp add: sshMatch_def)
qed

section \<open>Properties\<close>

text \<open>A host that is an IP address is admitted only by a pattern that spells digits of it
  out: the wildcard \<open>*\<close> alone never admits an address (the SSRF invariant).\<close>

theorem wildcard_excludes_ip:
  assumes "isIpAddress (hostPart d)" "domainMatchesAllowlist d ps"
  shows "\<exists>p \<in> set ps. p \<noteq> ''*'' \<and>
     (p = hostPart d \<or> p = d \<or> (startsWith p ''*.'' \<and> endsWith (CHR ''.'' # hostPart d) (drop 1 p)))"
proof -
  obtain p where p: "p \<in> set ps" "domainPatternMatches d p"
    using assms(2) by (auto simp: domainMatchesAllowlist_iff)
  with assms(1) have "p \<noteq> ''*''" by (auto simp: domainPatternMatches_def)
  moreover have "endsWith (CHR ''.'' # hostPart d) (drop 1 p)"
    if "startsWith p ''*.''" "hostPart d = drop 2 p \<or> endsWith (hostPart d) (drop 1 p)"
    using that by (auto simp: prefix_def suffix_Cons)
  ultimately show ?thesis
    using p by (intro bexI [of _ p]) (auto simp: domainPatternMatches_def Let_def split: if_splits)
qed

theorem wildcard_excludes_ip_witness:
  "\<exists>p \<in> set [''*'', ''10.0.0.1'']. p \<noteq> ''*'' \<and>
     (p = hostPart ''10.0.0.1'' \<or> p = ''10.0.0.1'' \<or>
      (startsWith p ''*.'' \<and> endsWith (CHR ''.'' # hostPart ''10.0.0.1'') (drop 1 p)))"
  by (rule wildcard_excludes_ip; code_simp)

text \<open>The pattern \<open>*.base\<close> admits exactly the host \<open>base\<close> and its sub-domains: the match
  stops at a label boundary.\<close>

theorem suffix_wildcard_label_boundary:
  assumes "base \<noteq> []"
  shows "domainMatchesAllowlist d [''*.'' @ base] \<longleftrightarrow>
     hostPart d = base \<or> (\<exists>sub. hostPart d = sub @ ''.'' @ base)"
  using assms by (auto simp: domainMatchesAllowlist_def domainPatternMatches_def suffix_def)

theorem suffix_wildcard_label_boundary_witness:
  "domainMatchesAllowlist ''evilgithub.com'' [''*.'' @ ''github.com''] \<longleftrightarrow>
     hostPart ''evilgithub.com'' = ''github.com'' \<or>
     (\<exists>sub. hostPart ''evilgithub.com'' = sub @ ''.'' @ ''github.com'')"
  by (rule suffix_wildcard_label_boundary) simp

text \<open>The SSH form and the URL form of a repository on the same host yield the same domain,
  so an allowlist entry covers both forms alike.\<close>

theorem git_url_forms_agree:
  assumes "parseUrl h v = Some u" "strIncludes v ''://''"
    and "hostname u \<noteq> []" "CHR '':'' \<notin> set (hostname u)"
    and "\<forall>c \<in> set (pathname u). \<not> isLineTerm c"
    and "\<not> strIncludes (''git@'' @ hostname u @ '':'' @ pathname u) ''://''"
  shows "extractGitDomain h (''git@'' @ hostname u @ '':'' @ pathname u) = extractGitDomain h v"
  using assms sshMatch_git [OF assms(3,4,5)] by (simp add: extractGitDomain_def)

definition githubHost :: host where
  "githubHost = demoHost\<lparr>parseUrl := map_of
     [(''https://github.com/o/r.git'',
       \<lparr>hostname = ''github.com'', pathname = ''/o/r.git'', href = ''https://github.com/o/r.git'',
        hrefRoot = ''https://github.com/''\<rparr>)]\<rparr>"

theorem git_url_forms_agree_witness:
  "extractGitDomain githubHost (''git@'' @ ''github.com'' @ '':'' @ ''/o/r.git'') =
     extractGitDomain githubHost ''https://github.com/o/r.git''"
  using git_url_forms_agree [of githubHost "''https://github.com/o/r.git''"
      "\<lparr>hostname = ''github.com'', pathname = ''/o/r.git'', href = ''https://github.com/o/r.git'',
        hrefRoot = ''https://github.com/''\<rparr>"]
  by (simp add: githubHost_def sublist_code isLineTerm_def)

end
