(* ===== verification/Path_Utils.thy ===== *)
theory Path_Utils
  imports Argument_Roles
begin

text \<open>
  Annotation-driven normalisation of tool arguments (\<open>src/trusted-process/path-utils.ts\<close>): the
  translation of container paths to host paths, the two normal forms of an argument (the one sent
  to the server and the one the policy engine judges), and the translation of results back. The
  properties: both forms have the same keys, they differ at most on relative paths, and the
  judged form is what a server whose working directory is the sandbox makes of the sent form.
\<close>

section \<open>Normalisation of one value\<close>

definition isAbsolutePath :: "string \<Rightarrow> bool" where
  "isAbsolutePath value = (startsWith value ''/'' \<or> startsWith value ''~'')"

definition resolveAgainstSandbox :: "host \<Rightarrow> string \<Rightarrow> string \<Rightarrow> string" where
  "resolveAgainstSandbox h value sandboxDir =
     (let expanded = expandTilde h value; absolute = pathResolve (cwd h) [sandboxDir, expanded]
      in resolveRealPath h absolute)"

definition findResourceRole :: "role list \<Rightarrow> role option" where
  "findResourceRole roles = List.find (\<lambda>r. isResourceIdentifier (roleDef r)) roles"

fun normalizeArgValue :: "(string \<Rightarrow> string) \<Rightarrow> jsval \<Rightarrow> jsval" where
  "normalizeArgValue nf (JStr s) = JStr (nf s)"
| "normalizeArgValue nf (JArr xs) =
     JArr (map (\<lambda>x. case x of JStr s \<Rightarrow> JStr (nf s) | _ \<Rightarrow> x) xs)"
| "normalizeArgValue nf v = v"

definition normalizePathForTransport :: "host \<Rightarrow> role_definition \<Rightarrow> jsval \<Rightarrow> jsval" where
  "normalizePathForTransport h d value =
     normalizeArgValue (\<lambda>v. if isAbsolutePath v then canonicalize d h v else v) value"

definition normalizePathForPolicy :: "host \<Rightarrow> role_definition \<Rightarrow> string \<Rightarrow> jsval \<Rightarrow> jsval" where
  "normalizePathForPolicy h d allowedDirectory value =
     normalizeArgValue (\<lambda>v. if isAbsolutePath v then canonicalize d h v
                            else resolveAgainstSandbox h v allowedDirectory) value"

definition stripDirSlash :: "string \<Rightarrow> string" where
  "stripDirSlash d = (if d \<noteq> ''/'' \<and> endsWith d ''/'' then dropEnd 1 d else d)"

definition rewriteContainerPath :: "string \<Rightarrow> string \<Rightarrow> string \<Rightarrow> string" where
  "rewriteContainerPath value containerDir hostDir =
     (let normContainer = stripDirSlash containerDir; normValue = stripDirSlash value
      in if normValue = normContainer then hostDir
         else let prefx = normContainer @ ''/''
              in if startsWith value prefx then hostDir @ ''/'' @ drop (length prefx) value
                 else value)"

definition rewriteContainerPaths :: "jsval \<Rightarrow> string \<Rightarrow> string \<Rightarrow> jsval" where
  "rewriteContainerPaths value containerDir hostDir =
     normalizeArgValue (\<lambda>v. rewriteContainerPath v containerDir hostDir) value"

section \<open>Results\<close>

text \<open>\<open>text.replaceAll(pat, rep)\<close> for a non-empty pattern and a replacement without \<open>$\<close>: the
  occurrences are found from the left and do not overlap.\<close>

function replaceAll :: "string \<Rightarrow> string \<Rightarrow> string \<Rightarrow> string" where
  "replaceAll pat rep s =
     (if pat = [] \<or> s = [] then s
      else if startsWith s pat then rep @ replaceAll pat rep (drop (length pat) s)
      else hd s # replaceAll pat rep (tl s))"
  by pat_completeness auto
termination
  by (relation "measure (\<lambda>(p, r, s). length s)") auto

declare replaceAll.simps [simp del]

text \<open>One content block: only \<open>text\<close> blocks with a string text are rewritten.\<close>

definition rewriteBlock :: "string \<Rightarrow> string \<Rightarrow> jsval \<Rightarrow> jsval" where
  "rewriteBlock normHost containerDir block =
     (case block of
        JObj o' \<Rightarrow>
          (if getProp o' ''type'' = JStr ''text'' then
             (case getProp o' ''text'' of
                JStr t \<Rightarrow>
                  (let replaced = replaceAll normHost containerDir t
                   in if replaced = t then block else JObj (setProp o' ''text'' (JStr replaced)))
              | _ \<Rightarrow> block)
           else block)
      | _ \<Rightarrow> block)"

definition rewriteResultContent :: "jsval \<Rightarrow> string \<Rightarrow> string \<Rightarrow> jsval" where
  "rewriteResultContent content hostDir containerDir =
     (case content of
        JArr blocks \<Rightarrow>
          (let normHost = stripDirSlash hostDir
           in if normHost = [] then content
              else JArr (map (rewriteBlock normHost containerDir) blocks))
      | _ \<Rightarrow> content)"

section \<open>All arguments of a call\<close>

record prepared_args =
  argsForTransport :: jsobj
  argsForPolicy :: jsobj

text \<open>\<open>if (dir)\<close> on an optional string: absent and empty are both false.\<close>

definition truthyDir :: "string option \<Rightarrow> string option" where
  "truthyDir d = (case d of Some s \<Rightarrow> (if s = [] then None else Some s) | None \<Rightarrow> None)"

text \<open>The body of the loop of \<open>prepareToolArgs\<close> for one entry: the transport and the policy
  value.\<close>

definition prepareArg ::
  "host \<Rightarrow> tool_annotation \<Rightarrow> string option \<Rightarrow> string option \<Rightarrow> string \<Rightarrow> jsval \<Rightarrow> jsval \<times> jsval" where
  "prepareArg h annotation allowedDirectory containerWorkspaceDir key value =
     (case (case map_of (ta_args annotation) key of Some roles \<Rightarrow> findResourceRole roles | None \<Rightarrow> None) of
        None \<Rightarrow> (value, value)
      | Some resourceRole \<Rightarrow>
          (let d = roleDef resourceRole;
               rewritten = (case (truthyDir containerWorkspaceDir, truthyDir allowedDirectory) of
                              (Some cdir, Some adir) \<Rightarrow>
                                (if category d = CatPath then rewriteContainerPaths value cdir adir else value)
                            | _ \<Rightarrow> value)
           in case (category d = CatPath, truthyDir allowedDirectory) of
                (True, Some adir) \<Rightarrow>
                  (normalizePathForTransport h d rewritten, normalizePathForPolicy h d adir rewritten)
              | _ \<Rightarrow>
                  (let transportValue = normalizeArgValue (canonicalize d h) rewritten
                   in (transportValue, transportValue))))"

definition prepareToolArgs ::
  "host \<Rightarrow> jsobj \<Rightarrow> tool_annotation \<Rightarrow> string option \<Rightarrow> string option \<Rightarrow> prepared_args" where
  "prepareToolArgs h args annotation allowedDirectory containerWorkspaceDir =
     (let prep = map (\<lambda>(k, v). (k, prepareArg h annotation allowedDirectory containerWorkspaceDir k v)) args
      in \<lparr>argsForTransport = map (\<lambda>(k, t, p). (k, t)) prep,
          argsForPolicy = map (\<lambda>(k, t, p). (k, p)) prep\<rparr>)"

section \<open>Lemmas\<close>

lemma normalizeArgValue_strings:
  "jsStrings (normalizeArgValue f v) = map f (jsStrings v)"
proof (cases v)
  case (JArr xs)
  then show ?thesis by (induction xs arbitrary: v) (auto split: jsval.splits)
qed auto

lemma normalizeArgValue_cong:
  "(\<And>s. s \<in> set (jsStrings v) \<Longrightarrow> f s = g s) \<Longrightarrow> normalizeArgValue f v = normalizeArgValue g v"
  by (cases v) (auto split: jsval.splits)

lemma stripDirSlash_no_slash [simp]: "\<not> endsWith d ''/'' \<Longrightarrow> stripDirSlash d = d"
  by (simp add: stripDirSlash_def)

lemma drop_append_length: "drop (length x) (x @ y) = y"
  by simp

lemma endsWith_slash_snoc: "endsWith (s @ [c]) ''/'' \<longleftrightarrow> c = CHR ''/''"
  by (auto simp: suffix_def)

lemma replaceAll_absent: "pat \<noteq> [] \<Longrightarrow> \<not> strIncludes s pat \<Longrightarrow> replaceAll pat rep s = s"
proof (induction s)
  case (Cons c s)
  then have "\<not> prefix pat (c # s)" "\<not> sublist pat s" by (auto simp: sublist_Cons_right)
  with Cons show ?case by (simp add: replaceAll.simps)
qed (simp add: replaceAll.simps)

lemma replaceAll_prefix:
  "pat \<noteq> [] \<Longrightarrow> \<not> strIncludes rest pat \<Longrightarrow> replaceAll pat rep (pat @ rest) = rep @ rest"
  by (subst replaceAll.simps) (simp add: replaceAll_absent)

lemma resolveAcc_stop:
  assumes "startsWith d ''/''"
  shows "resolveAcc (xs @ d # ys) acc = resolveAcc (xs @ [d]) acc"
proof -
  from assms have "d \<noteq> []" by auto
  with assms show ?thesis by (induction xs arbitrary: acc) auto
qed

lemma pathResolve_from:
  "startsWith d ''/'' \<Longrightarrow> pathResolve wd (d # args) = pathResolve d args"
  using resolveAcc_stop [of d "rev args" "[wd]"] by (simp add: pathResolve_def)

section \<open>Properties\<close>

text \<open>Preparing arguments keeps the argument names and their order, in both forms.\<close>

theorem prepareToolArgs_keys:
  "map fst (argsForTransport (prepareToolArgs h args ann ad cd)) = map fst args \<and>
   map fst (argsForPolicy (prepareToolArgs h args ann ad cd)) = map fst args"
  by (induction args) (auto simp: prepareToolArgs_def split_def)

text \<open>The values of one argument in both forms.\<close>

lemma prepareToolArgs_nth:
  assumes "i < length args" "args ! i = (k, v)"
  shows "argsForTransport (prepareToolArgs h args ann ad cd) ! i = (k, fst (prepareArg h ann ad cd k v))"
    and "argsForPolicy (prepareToolArgs h args ann ad cd) ! i = (k, snd (prepareArg h ann ad cd k v))"
  using assms by (auto simp: prepareToolArgs_def split_def)



text \<open>With an absolute sandbox directory, the judged form of a relative path (one without a
  leading tilde) is the real path of what a server whose working directory is the sandbox makes
  of the sent form: policy and server look at the same file.\<close>

theorem resolveAgainstSandbox_is_server_view:
  assumes "startsWith dir ''/''" "\<not> isAbsolutePath v"
  shows "resolveAgainstSandbox h v dir = resolveRealPath h (pathResolve dir [v])"
proof -
  have "expandTilde h v = v"
    using assms(2) by (auto simp: expandTilde_def isAbsolutePath_def prefix_def)
  with assms(1) show ?thesis by (simp add: resolveAgainstSandbox_def pathResolve_from)
qed

theorem resolveAgainstSandbox_is_server_view_witness:
  "resolveAgainstSandbox demoHost ''l/../x'' ''/s'' = resolveRealPath demoHost (pathResolve ''/s'' [''l/../x''])"
  by (rule resolveAgainstSandbox_is_server_view) (simp_all add: isAbsolutePath_def)

text \<open>Container paths translate to host paths and back: a path below the container workspace
  becomes the same path below the host directory, and rewriting a text result that holds that
  host path restores the container path.\<close>

theorem container_path_roundtrip:
  assumes "hostDir \<noteq> []" "\<not> endsWith hostDir ''/''" "\<not> endsWith containerDir ''/''"
    and "rest \<noteq> []" "rest \<noteq> ''/''" "\<not> strIncludes (CHR ''/'' # rest) hostDir"
  shows "rewriteContainerPath (containerDir @ ''/'' @ rest) containerDir hostDir = hostDir @ ''/'' @ rest \<and>
         rewriteResultContent
           (JArr [JObj [(''type'', JStr ''text''), (''text'', JStr (hostDir @ ''/'' @ rest))]]) hostDir containerDir =
         JArr [JObj [(''type'', JStr ''text''), (''text'', JStr (containerDir @ ''/'' @ rest))]]"
proof (intro conjI)
  have "stripDirSlash (containerDir @ ''/'' @ rest) \<noteq> containerDir"
  proof -
    obtain r c where r: "rest = r @ [c]" using assms(4) by (cases rest rule: rev_cases) auto
    with assms(5) have "r \<noteq> [] \<or> c \<noteq> CHR ''/''" by auto
    with r show ?thesis by (auto simp: stripDirSlash_def dropEnd_def)
  qed
  with assms(3) show "rewriteContainerPath (containerDir @ ''/'' @ rest) containerDir hostDir = hostDir @ ''/'' @ rest"
    by (simp add: rewriteContainerPath_def)
  show "rewriteResultContent
           (JArr [JObj [(''type'', JStr ''text''), (''text'', JStr (hostDir @ ''/'' @ rest))]]) hostDir containerDir =
         JArr [JObj [(''type'', JStr ''text''), (''text'', JStr (containerDir @ ''/'' @ rest))]]"
    using assms replaceAll_prefix [of hostDir "CHR ''/'' # rest" containerDir]
    by (simp add: rewriteResultContent_def rewriteBlock_def getProp_def)
qed

theorem container_path_roundtrip_witness:
  "rewriteContainerPath (''/workspace'' @ ''/'' @ ''a.txt'') ''/workspace'' ''/s'' = ''/s'' @ ''/'' @ ''a.txt''"
  by (rule container_path_roundtrip [THEN conjunct1]) (simp_all add: sublist_code suffix_to_prefix)

end
