(* ===== verification/Policy_Engine.thy ===== *)
theory Policy_Engine
  imports Domain_Utils Path_Utils
begin

text \<open>
  The policy engine (\<open>src/trusted-process/policy-engine.ts\<close>): compiled rules and dynamic lists
  (the records of \<open>src/pipeline/types.ts\<close>), the structural invariants, git enrichment, the rule
  scan per role and per path, and \<open>evaluate\<close>. A thrown error is \<open>Inl\<close>. The theory
  \<open>Policy_Engine_Props\<close> holds the lemmas and the properties.
\<close>

section \<open>Data\<close>

record path_condition =
  pc_roles :: "role list"
  pc_within :: string

record domain_condition =
  dc_roles :: "role list"
  dc_allowed :: "string list"

record list_condition =
  lc_roles :: "role list"
  lc_allowed :: "string list"
  lc_matchType :: list_type

record rule_condition =
  c_roles :: "role list option"
  c_server :: "string list option"
  c_tool :: "string list option"
  c_paths :: "path_condition option"
  c_domains :: "domain_condition option"
  c_lists :: "list_condition list option"

record compiled_rule =
  r_name :: string
  r_description :: string
  r_principle :: string
  r_if :: rule_condition
  r_then :: decision
  r_reason :: string

record resolved_list =
  rl_values :: "string list"
  rl_manualAdditions :: "string list"
  rl_manualRemovals :: "string list"

record dynamic_lists_file =
  dl_generatedAt :: string
  dl_lists :: "(string \<times> resolved_list) list"

record compiled_policy =
  cp_generatedAt :: string
  cp_constitutionHash :: string
  cp_inputHash :: string
  cp_rules :: "compiled_rule list"

record tool_call_request =
  requestId :: string
  serverName :: string
  toolName :: string
  arguments :: jsobj
  timestamp :: string

record evaluation_result =
  er_decision :: decision
  er_rule :: string
  er_reason :: string
  er_escalatedRoles :: "role list option"

record structural_result =
  sr_decision :: "evaluation_result option"
  sr_sandboxResolvedRoles :: "role list"

datatype engine_error = MissingAnnotation string string | Unreachable string

record policy_engine =
  annotationMap :: "(string \<times> stored_annotation) list"
  compiledPolicy :: compiled_policy
  protectedPaths :: "string list"
  protectedPathExclusions :: "string list"
  allowedDirectory :: "string option"
  serverDomainAllowlists :: "(string \<times> string list) list"
  trustedServers :: "string list"

section \<open>Extraction\<close>

definition extractAnnotatedPaths :: "jsobj \<Rightarrow> tool_annotation \<Rightarrow> role list \<Rightarrow> string list" where
  "extractAnnotatedPaths args annotation targetRoles =
     concat (map (\<lambda>(argName, roles).
       if list_ex (\<lambda>r. r \<in> set targetRoles) roles then jsStrings (getProp args argName) else [])
       (ta_args annotation))"

definition extractAnnotatedUrls :: "jsobj \<Rightarrow> tool_annotation \<Rightarrow> role list \<Rightarrow> (string \<times> role) list" where
  "extractAnnotatedUrls args annotation targetRoles =
     concat (map (\<lambda>(argName, roles).
       case List.find (\<lambda>r. r \<in> set targetRoles) roles of
         None \<Rightarrow> []
       | Some matchingRole \<Rightarrow> map (\<lambda>v. (v, matchingRole)) (jsStrings (getProp args argName)))
       (ta_args annotation))"

text \<open>Equality or containment of two resolved paths.\<close>

definition pathAtOrBelow :: "string \<Rightarrow> string \<Rightarrow> bool" where
  "pathAtOrBelow realPath dir = (realPath = dir \<or> startsWith realPath (dir @ ''/''))"

definition isProtectedPath :: "host \<Rightarrow> string \<Rightarrow> string list \<Rightarrow> string list \<Rightarrow> bool" where
  "isProtectedPath h resolvedPath protPaths exclusions =
     (let realPath = resolveRealPath h resolvedPath
      in list_ex (\<lambda>pp. pathAtOrBelow realPath (resolveRealPath h pp)) protPaths \<and>
         \<not> list_ex (\<lambda>ex. pathAtOrBelow realPath (resolveRealPath h ex)) exclusions)"

definition finalDecision :: "evaluation_result \<Rightarrow> structural_result" where
  "finalDecision d = \<lparr>sr_decision = Some d, sr_sandboxResolvedRoles = []\<rparr>"

abbreviation DECISION_SEVERITY :: "decision \<Rightarrow> nat" where
  "DECISION_SEVERITY \<equiv> severity"

definition STRUCTURAL_SANDBOX_ALLOW :: string where
  "STRUCTURAL_SANDBOX_ALLOW = ''structural-sandbox-allow''"

definition collectDistinctRoles :: "tool_annotation \<Rightarrow> role list" where
  "collectDistinctRoles annotation =
     uniq (filter (\<lambda>r. isResourceIdentifier (roleDef r)) (concat (map snd (ta_args annotation))))"

definition resolveUrlForDomainCheck :: "host \<Rightarrow> string \<Rightarrow> role \<Rightarrow> jsobj \<Rightarrow> string" where
  "resolveUrlForDomainCheck h value r allArgs =
     (let resolved = (if r = GitRemoteUrl then resolveGitRemote h value allArgs else value);
          normalized = canonicalize (roleDef r) h resolved
      in extractDomainForRole h normalized r)"

section \<open>Rules\<close>

definition hasRoleConditions :: "compiled_rule \<Rightarrow> bool" where
  "hasRoleConditions rule =
     (c_roles (r_if rule) \<noteq> None \<or> c_paths (r_if rule) \<noteq> None \<or> c_domains (r_if rule) \<noteq> None \<or>
      (case c_lists (r_if rule) of Some ls \<Rightarrow> ls \<noteq> [] | None \<Rightarrow> False))"

definition ruleRelevantToRole :: "compiled_rule \<Rightarrow> role \<Rightarrow> bool" where
  "ruleRelevantToRole rule r =
     (let cond = r_if rule in
      (case c_roles cond of Some rs \<Rightarrow> r \<in> set rs | None \<Rightarrow> True) \<and>
      (case c_paths cond of Some pc \<Rightarrow> r \<in> set (pc_roles pc) | None \<Rightarrow> True) \<and>
      (case c_domains cond of Some dc \<Rightarrow> r \<in> set (dc_roles dc) | None \<Rightarrow> True) \<and>
      (case c_lists cond of Some ls \<Rightarrow> list_ex (\<lambda>lc. r \<in> set (lc_roles lc)) ls | None \<Rightarrow> True))"

definition getEffectiveListValues :: "string \<Rightarrow> dynamic_lists_file \<Rightarrow> string list" where
  "getEffectiveListValues listName dyn =
     (case map_of (dl_lists dyn) listName of
        None \<Rightarrow> []
      | Some l \<Rightarrow> filter (\<lambda>v. v \<notin> set (rl_manualRemovals l)) (uniq (rl_values l @ rl_manualAdditions l)))"

definition expandAllowed :: "dynamic_lists_file \<Rightarrow> string list \<Rightarrow> string list" where
  "expandAllowed dyn allowed =
     concat (map (\<lambda>entry. if startsWith entry ''@'' then getEffectiveListValues (drop 1 entry) dyn
                          else [entry]) allowed)"

definition expandRule :: "dynamic_lists_file \<Rightarrow> compiled_rule \<Rightarrow> compiled_rule" where
  "expandRule dyn rule =
     (let cond = r_if rule;
          cond1 = (case c_domains cond of
                     Some dc \<Rightarrow>
                       (if list_ex (\<lambda>e. startsWith e ''@'') (dc_allowed dc)
                        then cond\<lparr>c_domains := Some (dc\<lparr>dc_allowed := expandAllowed dyn (dc_allowed dc)\<rparr>)\<rparr>
                        else cond)
                   | None \<Rightarrow> cond);
          cond2 = (case c_lists cond of
                     Some ls \<Rightarrow>
                       (if list_ex (\<lambda>lc. list_ex (\<lambda>e. startsWith e ''@'') (lc_allowed lc)) ls
                        then cond1\<lparr>c_lists := Some (map (\<lambda>lc.
                               if list_ex (\<lambda>e. startsWith e ''@'') (lc_allowed lc)
                               then lc\<lparr>lc_allowed := expandAllowed dyn (lc_allowed lc)\<rparr> else lc) ls)\<rparr>
                        else cond1)
                   | None \<Rightarrow> cond1)
      in rule\<lparr>r_if := cond2\<rparr>)"

definition expandListReferences :: "compiled_policy \<Rightarrow> dynamic_lists_file \<Rightarrow> compiled_policy" where
  "expandListReferences policy dyn = policy\<lparr>cp_rules := map (expandRule dyn) (cp_rules policy)\<rparr>"

definition DEFAULT_DENY_RESULT :: evaluation_result where
  "DEFAULT_DENY_RESULT =
     \<lparr>er_decision = Deny, er_rule = ''default-deny'',
      er_reason = ''No matching policy rule -- denied by default'', er_escalatedRoles = None\<rparr>"

definition ruleToResult :: "compiled_rule \<Rightarrow> evaluation_result" where
  "ruleToResult rule =
     \<lparr>er_decision = r_then rule, er_rule = r_name rule, er_reason = r_reason rule, er_escalatedRoles = None\<rparr>"

section \<open>Construction\<close>

definition annotationKey :: "string \<Rightarrow> string \<Rightarrow> string" where
  "annotationKey srv tool = srv @ ''__'' @ tool"

definition buildAnnotationMap :: "annotations_file \<Rightarrow> (string \<times> stored_annotation) list" where
  "buildAnnotationMap annotations =
     foldl (\<lambda>m (srv, serverData).
       foldl (\<lambda>m tool. setProp m (annotationKey srv (sa_toolName tool)) tool) m (srv_tools serverData))
       [] (af_servers annotations)"

definition newPolicyEngine ::
  "host \<Rightarrow> compiled_policy \<Rightarrow> annotations_file \<Rightarrow> string list \<Rightarrow> string option \<Rightarrow>
   (string \<times> string list) list option \<Rightarrow> dynamic_lists_file option \<Rightarrow> string list option \<Rightarrow> policy_engine" where
  "newPolicyEngine h policy annotations protPaths allowedDir domainAllowlists dynamicLists trusted =
     \<lparr>annotationMap = buildAnnotationMap annotations,
      compiledPolicy = (case dynamicLists of Some l \<Rightarrow> expandListReferences policy l | None \<Rightarrow> policy),
      protectedPaths = protPaths,
      protectedPathExclusions = (case truthyDir allowedDir of Some d \<Rightarrow> [resolveRealPath h d] | None \<Rightarrow> []),
      allowedDirectory = allowedDir,
      serverDomainAllowlists = (case domainAllowlists of Some m \<Rightarrow> m | None \<Rightarrow> []),
      trustedServers = (case trusted of Some s \<Rightarrow> s | None \<Rightarrow> [])\<rparr>"

definition getStoredAnnotation :: "policy_engine \<Rightarrow> string \<Rightarrow> string \<Rightarrow> stored_annotation option" where
  "getStoredAnnotation e srv tool = map_of (annotationMap e) (annotationKey srv tool)"

definition getAnnotation :: "policy_engine \<Rightarrow> string \<Rightarrow> string \<Rightarrow> jsobj \<Rightarrow> tool_annotation option" where
  "getAnnotation e srv tool callArgs =
     (case map_of (annotationMap e) (annotationKey srv tool) of
        None \<Rightarrow> None
      | Some st \<Rightarrow> Some (resolveStoredAnnotation st callArgs))"

definition isTrustedServer :: "policy_engine \<Rightarrow> string \<Rightarrow> bool" where
  "isTrustedServer e srv = (srv \<in> set (trustedServers e))"

section \<open>Rule matching\<close>

definition ruleMatchesNonPathConditions ::
  "compiled_rule \<Rightarrow> tool_call_request \<Rightarrow> tool_annotation \<Rightarrow> bool" where
  "ruleMatchesNonPathConditions rule request annotation =
     (let cond = r_if rule in
      (case c_roles cond of
         Some rs \<Rightarrow> list_ex (\<lambda>(_, argRoles). list_ex (\<lambda>r. r \<in> set rs) argRoles) (ta_args annotation)
       | None \<Rightarrow> True) \<and>
      (case c_server cond of Some ss \<Rightarrow> serverName request \<in> set ss | None \<Rightarrow> True) \<and>
      (case c_tool cond of Some ts \<Rightarrow> toolName request \<in> set ts | None \<Rightarrow> True))"

definition pathsConditionHolds ::
  "host \<Rightarrow> path_condition \<Rightarrow> tool_call_request \<Rightarrow> tool_annotation \<Rightarrow> role option \<Rightarrow> bool" where
  "pathsConditionHolds h condPaths request annotation evaluatingRole =
     (let extractRoles = (case evaluatingRole of Some r \<Rightarrow> [r] | None \<Rightarrow> pc_roles condPaths);
          extracted = extractAnnotatedPaths (arguments request) annotation extractRoles
      in extracted \<noteq> [] \<and> list_all (\<lambda>p. isWithinDirectory h p (pc_within condPaths)) extracted)"

definition domainsConditionHolds ::
  "host \<Rightarrow> domain_condition \<Rightarrow> tool_call_request \<Rightarrow> tool_annotation \<Rightarrow> role option \<Rightarrow> bool" where
  "domainsConditionHolds h condDomains request annotation evaluatingRole =
     (let extractRoles = (case evaluatingRole of Some r \<Rightarrow> [r] | None \<Rightarrow> dc_roles condDomains);
          urlArgs = extractAnnotatedUrls (arguments request) annotation extractRoles
      in urlArgs \<noteq> [] \<and>
         list_all (\<lambda>(value, r). domainMatchesAllowlist
             (resolveUrlForDomainCheck h value r (arguments request)) (dc_allowed condDomains)) urlArgs)"

definition listConditionHolds ::
  "list_condition \<Rightarrow> tool_call_request \<Rightarrow> tool_annotation \<Rightarrow> role option \<Rightarrow> bool" where
  "listConditionHolds listCond request annotation evaluatingRole =
     (let extractRoles = (case evaluatingRole of
                            Some r \<Rightarrow> (if r \<in> set (lc_roles listCond) then [r] else lc_roles listCond)
                          | None \<Rightarrow> lc_roles listCond);
          extractedValues = extractAnnotatedPaths (arguments request) annotation extractRoles
      in extractedValues \<noteq> [] \<and>
         list_all (\<lambda>v. list_ex (\<lambda>pattern. getListMatcher (lc_matchType listCond) v pattern)
             (lc_allowed listCond)) extractedValues)"

definition ruleMatches ::
  "host \<Rightarrow> compiled_rule \<Rightarrow> tool_call_request \<Rightarrow> tool_annotation \<Rightarrow> role option \<Rightarrow> bool" where
  "ruleMatches h rule request annotation evaluatingRole =
     (let cond = r_if rule in
      ruleMatchesNonPathConditions rule request annotation \<and>
      (case c_paths cond of
         Some pc \<Rightarrow> pathsConditionHolds h pc request annotation evaluatingRole | None \<Rightarrow> True) \<and>
      (case c_domains cond of
         Some dc \<Rightarrow> domainsConditionHolds h dc request annotation evaluatingRole | None \<Rightarrow> True) \<and>
      (case c_lists cond of
         Some ls \<Rightarrow> list_all (\<lambda>lc. listConditionHolds lc request annotation evaluatingRole) ls | None \<Rightarrow> True))"

section \<open>Compiled rule evaluation\<close>

fun evaluateRulesUnscoped ::
  "host \<Rightarrow> compiled_rule list \<Rightarrow> tool_call_request \<Rightarrow> tool_annotation \<Rightarrow> evaluation_result" where
  "evaluateRulesUnscoped h [] request annotation = DEFAULT_DENY_RESULT"
| "evaluateRulesUnscoped h (rule # rules) request annotation =
     (if ruleMatches h rule request annotation None then ruleToResult rule
      else evaluateRulesUnscoped h rules request annotation)"

fun scanRulesForRole ::
  "host \<Rightarrow> compiled_rule list \<Rightarrow> tool_call_request \<Rightarrow> tool_annotation \<Rightarrow> role \<Rightarrow> evaluation_result" where
  "scanRulesForRole h [] request annotation r = DEFAULT_DENY_RESULT"
| "scanRulesForRole h (rule # rules) request annotation r =
     (if hasRoleConditions rule \<and> \<not> ruleRelevantToRole rule r then scanRulesForRole h rules request annotation r
      else if ruleMatches h rule request annotation (Some r) then ruleToResult rule
      else scanRulesForRole h rules request annotation r)"

text \<open>The tests of the discharging loop that do not look at a path: relevance to the role, the
  non-path conditions, and the domain and list conditions with the path condition stripped.\<close>

definition ruleApplies ::
  "host \<Rightarrow> tool_call_request \<Rightarrow> tool_annotation \<Rightarrow> role \<Rightarrow> compiled_rule \<Rightarrow> bool" where
  "ruleApplies h request annotation r rule =
     (\<not> (hasRoleConditions rule \<and> \<not> ruleRelevantToRole rule r) \<and>
      ruleMatchesNonPathConditions rule request annotation \<and>
      (c_domains (r_if rule) \<noteq> None \<or> c_lists (r_if rule) \<noteq> None \<longrightarrow>
       ruleMatches h (rule\<lparr>r_if := (r_if rule)\<lparr>c_paths := None\<rparr>\<rparr>) request annotation (Some r)))"

text \<open>Which result the loop keeps when a rule discharged paths.\<close>

definition pickResult :: "evaluation_result option \<Rightarrow> evaluation_result \<Rightarrow> evaluation_result" where
  "pickResult mostRestrictive result =
     (case mostRestrictive of
        None \<Rightarrow> result
      | Some prev \<Rightarrow>
          (if DECISION_SEVERITY (er_decision result) > DECISION_SEVERITY (er_decision prev) \<or>
              (DECISION_SEVERITY (er_decision result) = DECISION_SEVERITY (er_decision prev) \<and>
               er_rule prev = STRUCTURAL_SANDBOX_ALLOW)
           then result else prev))"

fun dischargePaths ::
  "host \<Rightarrow> tool_call_request \<Rightarrow> tool_annotation \<Rightarrow> role \<Rightarrow> compiled_rule list \<Rightarrow>
   string list \<Rightarrow> evaluation_result option \<Rightarrow> string list \<times> evaluation_result option" where
  "dischargePaths h request annotation r [] remainingPaths mostRestrictive = (remainingPaths, mostRestrictive)"
| "dischargePaths h request annotation r (rule # rules) remainingPaths mostRestrictive =
     (if remainingPaths = [] then (remainingPaths, mostRestrictive)
      else if \<not> ruleApplies h request annotation r rule
        then dischargePaths h request annotation r rules remainingPaths mostRestrictive
      else let matched = (case c_paths (r_if rule) of
                            Some pc \<Rightarrow> filter (\<lambda>p. isWithinDirectory h p (pc_within pc)) remainingPaths
                          | None \<Rightarrow> remainingPaths)
           in if matched = [] then dischargePaths h request annotation r rules remainingPaths mostRestrictive
              else dischargePaths h request annotation r rules
                     (filter (\<lambda>p. p \<notin> set matched) remainingPaths)
                     (Some (pickResult mostRestrictive (ruleToResult rule))))"

text \<open>The structural discharge of sandbox-resident paths before the rules.\<close>

definition sandboxDischarges :: "policy_engine \<Rightarrow> host \<Rightarrow> tool_call_request \<Rightarrow> role \<Rightarrow> string \<Rightarrow> bool" where
  "sandboxDischarges e h request r p =
     (case truthyDir (allowedDirectory e) of
        Some sandboxDir \<Rightarrow>
          serverName request = ''filesystem'' \<and> r \<in> set SANDBOX_SAFE_PATH_ROLES \<and> isWithinDirectory h p sandboxDir
      | None \<Rightarrow> False)"

definition sandboxAllowResult :: "policy_engine \<Rightarrow> evaluation_result" where
  "sandboxAllowResult e =
     \<lparr>er_decision = Allow, er_rule = STRUCTURAL_SANDBOX_ALLOW,
      er_reason = ''Path(s) within the sandbox directory: '' @
        (case allowedDirectory e of Some d \<Rightarrow> d | None \<Rightarrow> []),
      er_escalatedRoles = None\<rparr>"

definition evaluateRulesForRolePaths ::
  "policy_engine \<Rightarrow> host \<Rightarrow> tool_call_request \<Rightarrow> tool_annotation \<Rightarrow> role \<Rightarrow> string list \<Rightarrow>
   engine_error + evaluation_result" where
  "evaluateRulesForRolePaths e h request annotation r paths =
     (let rules = cp_rules (compiledPolicy e)
      in if paths = [] then Inr (scanRulesForRole h rules request annotation r)
         else let all = uniq paths;
                  kept = filter (\<lambda>p. \<not> sandboxDischarges e h request r p) all;
                  initial = (if list_ex (sandboxDischarges e h request r) all
                             then Some (sandboxAllowResult e) else None);
                  (remainingPaths, mostRestrictive) = dischargePaths h request annotation r rules kept initial
              in if remainingPaths \<noteq> [] then Inr DEFAULT_DENY_RESULT
                 else case mostRestrictive of
                        Some res \<Rightarrow> Inr res
                      | None \<Rightarrow> Inl (Unreachable ''all paths discharged but no result was produced''))"

definition evaluateRulesForRole ::
  "policy_engine \<Rightarrow> host \<Rightarrow> tool_call_request \<Rightarrow> tool_annotation \<Rightarrow> role \<Rightarrow> engine_error + evaluation_result" where
  "evaluateRulesForRole e h request annotation r =
     evaluateRulesForRolePaths e h request annotation r
       (extractAnnotatedPaths (arguments request) annotation [r])"

text \<open>The loop over the roles, with \<open>mostRestrictive\<close> and \<open>escalatedRoles\<close> (in order).\<close>

fun combineRoles ::
  "policy_engine \<Rightarrow> host \<Rightarrow> tool_call_request \<Rightarrow> tool_annotation \<Rightarrow> role list \<Rightarrow>
   evaluation_result option \<Rightarrow> role list \<Rightarrow> engine_error + evaluation_result" where
  "combineRoles e h request annotation [] mostRestrictive escalatedRoles =
     (case mostRestrictive of
        None \<Rightarrow> Inl (Unreachable ''rolesToEvaluate was non-empty but no result was produced'')
      | Some res \<Rightarrow>
          Inr (if er_decision res = Escalate \<and> escalatedRoles \<noteq> []
               then res\<lparr>er_escalatedRoles := Some escalatedRoles\<rparr> else res))"
| "combineRoles e h request annotation (r # rs) mostRestrictive escalatedRoles =
     (case evaluateRulesForRole e h request annotation r of
        Inl err \<Rightarrow> Inl err
      | Inr result \<Rightarrow>
          (if er_decision result = Deny then Inr result
           else combineRoles e h request annotation rs
                  (case mostRestrictive of
                     None \<Rightarrow> Some result
                   | Some m \<Rightarrow>
                       (if DECISION_SEVERITY (er_decision result) > DECISION_SEVERITY (er_decision m)
                        then Some result else Some m))
                  (if er_decision result = Escalate then escalatedRoles @ [r] else escalatedRoles)))"

definition evaluateCompiledRules ::
  "policy_engine \<Rightarrow> host \<Rightarrow> tool_call_request \<Rightarrow> role list \<Rightarrow> tool_annotation option \<Rightarrow>
   engine_error + evaluation_result" where
  "evaluateCompiledRules e h request sandboxResolvedRoles annotation =
     (case annotation of
        None \<Rightarrow> Inl (MissingAnnotation (serverName request) (toolName request))
      | Some ann \<Rightarrow>
          (let allRoles = collectDistinctRoles ann;
               rolesToEvaluate = filter (\<lambda>r. r \<notin> set sandboxResolvedRoles) allRoles
           in if allRoles \<noteq> [] \<and> rolesToEvaluate = [] then
                Inr \<lparr>er_decision = Allow, er_rule = STRUCTURAL_SANDBOX_ALLOW,
                     er_reason = ''All path roles resolved by sandbox containment'', er_escalatedRoles = None\<rparr>
              else if rolesToEvaluate = [] then
                Inr (evaluateRulesUnscoped h (cp_rules (compiledPolicy e)) request ann)
              else combineRoles e h request ann rolesToEvaluate None []))"

section \<open>Structural invariants and the whole evaluation\<close>

fun firstProtected :: "policy_engine \<Rightarrow> host \<Rightarrow> string list \<Rightarrow> string option" where
  "firstProtected e h [] = None"
| "firstProtected e h (rp # rps) =
     (if isProtectedPath h rp (protectedPaths e) (protectedPathExclusions e) then Some rp
      else firstProtected e h rps)"

text \<open>The first URL argument whose domain the server's allowlist does not hold.\<close>

fun firstUntrustedDomain ::
  "host \<Rightarrow> jsobj \<Rightarrow> string list \<Rightarrow> (string \<times> role) list \<Rightarrow> (string \<times> role) option" where
  "firstUntrustedDomain h args allowlist [] = None"
| "firstUntrustedDomain h args allowlist ((value, r) # us) =
     (let domain = resolveUrlForDomainCheck h value r args
      in if \<not> domainMatchesAllowlist domain allowlist then Some (domain, r)
         else firstUntrustedDomain h args allowlist us)"

definition sandboxResolved :: "policy_engine \<Rightarrow> host \<Rightarrow> tool_call_request \<Rightarrow> tool_annotation option \<Rightarrow> role list" where
  "sandboxResolved e h request annotation =
     (case (truthyDir (allowedDirectory e), annotation) of
        (Some sandboxDir, Some ann) \<Rightarrow>
          (if extractAnnotatedPaths (arguments request) ann getPathRoles \<noteq> [] \<and>
              (serverName request = ''filesystem'' \<or> serverName request = ''git'')
           then filter (\<lambda>r. r \<in> set SANDBOX_SAFE_PATH_ROLES \<and>
                  (let pathsForRole = extractAnnotatedPaths (arguments request) ann [r]
                   in pathsForRole \<noteq> [] \<and> list_all (\<lambda>p. isWithinDirectory h p sandboxDir) pathsForRole))
                  getPathRoles
           else [])
      | _ \<Rightarrow> [])"

definition evaluateStructuralInvariants ::
  "policy_engine \<Rightarrow> host \<Rightarrow> tool_call_request \<Rightarrow> tool_annotation option \<Rightarrow> structural_result" where
  "evaluateStructuralInvariants e h request annotation =
     (let annotatedPaths = (case annotation of
            Some ann \<Rightarrow> extractAnnotatedPaths (arguments request) ann getPathRoles | None \<Rightarrow> []);
          resolvedPaths = map (resolveRealPath h) annotatedPaths
      in case firstProtected e h resolvedPaths of
           Some rp \<Rightarrow> finalDecision
             \<lparr>er_decision = Deny, er_rule = ''structural-protected-path'',
              er_reason = ''Access to protected path is forbidden: '' @ rp, er_escalatedRoles = None\<rparr>
         | None \<Rightarrow>
             (if toolName request = ''list_allowed_directories'' \<and> serverName request = ''filesystem'' \<and>
                 annotation \<noteq> None \<and> arguments request = []
              then finalDecision
                \<lparr>er_decision = Allow, er_rule = ''structural-introspection-allow'',
                 er_reason = ''Introspection tool is always allowed'', er_escalatedRoles = None\<rparr>
              else
                let urlArgs = (case annotation of
                      Some ann \<Rightarrow> extractAnnotatedUrls (arguments request) ann getUrlRoles | None \<Rightarrow> []);
                    gate = (case map_of (serverDomainAllowlists e) (serverName request) of
                              Some allowlist \<Rightarrow> firstUntrustedDomain h (arguments request) allowlist urlArgs
                            | None \<Rightarrow> None)
                in case gate of
                     Some (domain, r) \<Rightarrow> finalDecision
                       \<lparr>er_decision = Escalate, er_rule = ''structural-domain-escalate'',
                        er_reason = ''URL domain \"'' @ domain @ ''\" is not in the allowlist for server \"'' @
                          serverName request @ ''\"'',
                        er_escalatedRoles = Some [r]\<rparr>
                   | None \<Rightarrow>
                       (if annotation = None then finalDecision
                          \<lparr>er_decision = Deny, er_rule = ''structural-unknown-tool'',
                           er_reason = ''Unknown tool: '' @ serverName request @ ''/'' @ toolName request,
                           er_escalatedRoles = None\<rparr>
                        else \<lparr>sr_decision = None,
                              sr_sandboxResolvedRoles = sandboxResolved e h request annotation\<rparr>)))"

definition missingUrlArgNames :: "tool_call_request \<Rightarrow> tool_annotation \<Rightarrow> string list" where
  "missingUrlArgNames request annotation =
     map fst (filter (\<lambda>(argName, roles).
       GitRemoteUrl \<in> set roles \<and>
       (\<not> hasProp (arguments request) argName \<or>
        getProp (arguments request) argName \<in> {JNull, JUndefined, JStr []})) (ta_args annotation))"

definition enrichGitRequest ::
  "policy_engine \<Rightarrow> host \<Rightarrow> tool_call_request \<Rightarrow> tool_annotation option \<Rightarrow> tool_call_request" where
  "enrichGitRequest e h request annotation =
     (case annotation of
        None \<Rightarrow> request
      | Some ann \<Rightarrow>
          (if serverName request \<noteq> ''git'' then request
           else let missing = missingUrlArgNames request ann
                in if missing = [] then request
                   else case getProp (arguments request) ''path'' of
                          JStr p \<Rightarrow>
                            (case truthyDir (allowedDirectory e) of
                               Some d \<Rightarrow>
                                 (if \<not> isWithinDirectory h (resolveRealPath h p) d then request
                                  else case resolveDefaultGitRemote h p of
                                         None \<Rightarrow> request
                                       | Some url \<Rightarrow> request\<lparr>arguments :=
                                           foldl (\<lambda>a n. setProp a n (JStr url)) (arguments request) missing\<rparr>)
                             | None \<Rightarrow>
                                 (case resolveDefaultGitRemote h p of
                                    None \<Rightarrow> request
                                  | Some url \<Rightarrow> request\<lparr>arguments :=
                                      foldl (\<lambda>a n. setProp a n (JStr url)) (arguments request) missing\<rparr>))
                        | _ \<Rightarrow> request))"

definition evaluate :: "policy_engine \<Rightarrow> host \<Rightarrow> tool_call_request \<Rightarrow> engine_error + evaluation_result" where
  "evaluate e h request =
     (if serverName request \<in> set (trustedServers e) then
        Inr \<lparr>er_decision = Allow, er_rule = ''trusted-server'',
             er_reason = ''Server \"'' @ serverName request @ ''\" is trusted'', er_escalatedRoles = None\<rparr>
      else let annotation = getAnnotation e (serverName request) (toolName request) (arguments request);
               structural = evaluateStructuralInvariants e h request annotation
           in case sr_decision structural of
                Some d \<Rightarrow> Inr d
              | None \<Rightarrow>
                  (let effectiveRequest = enrichGitRequest e h request annotation
                   in evaluateCompiledRules e h effectiveRequest (sr_sandboxResolvedRoles structural) annotation))"

end
