(* ===== verification/Policy_Roots.thy ===== *)
theory Policy_Roots
  imports Policy_Engine
begin

text \<open>
  MCP roots derived from the compiled policy (\<open>src/trusted-process/policy-roots.ts\<close>): the initial
  roots, the servers a policy needs, and the root that an approved path adds.
\<close>

record policy_root =
  root_path :: string
  root_name :: string

record mcp_root =
  uri :: string
  rname :: string

text \<open>The loop of \<open>extractPolicyRoots\<close> with the set \<open>seen\<close>.\<close>

fun collectRoots :: "host \<Rightarrow> string list \<Rightarrow> compiled_rule list \<Rightarrow> policy_root list" where
  "collectRoots h seen [] = []"
| "collectRoots h seen (rule # rules) =
     (if r_then rule = Deny then collectRoots h seen rules
      else case c_paths (r_if rule) of
             None \<Rightarrow> collectRoots h seen rules
           | Some pc \<Rightarrow>
               (if pc_within pc = [] then collectRoots h seen rules
                else let dir = resolveRealPath h (pc_within pc)
                     in if dir \<in> set seen then collectRoots h seen rules
                        else \<lparr>root_path = dir, root_name = r_name rule\<rparr> # collectRoots h (dir # seen) rules))"

definition extractPolicyRoots :: "host \<Rightarrow> compiled_policy \<Rightarrow> string \<Rightarrow> policy_root list" where
  "extractPolicyRoots h policy allowedDir =
     (let resolvedSandbox = resolveRealPath h allowedDir
      in \<lparr>root_path = resolvedSandbox, root_name = ''sandbox''\<rparr> #
         collectRoots h [resolvedSandbox] (cp_rules policy))"

definition RESERVED_SERVER_NAMES :: "string list" where
  "RESERVED_SERVER_NAMES = [''proxy'']"

definition extractRequiredServers :: "compiled_policy \<Rightarrow> string list" where
  "extractRequiredServers policy =
     filter (\<lambda>s. s \<notin> set RESERVED_SERVER_NAMES)
       (uniq (concat (map (\<lambda>rule. case c_server (r_if rule) of Some ss \<Rightarrow> ss | None \<Rightarrow> []) (cp_rules policy))))"

definition toMcpRoots :: "policy_root list \<Rightarrow> mcp_root list" where
  "toMcpRoots roots = map (\<lambda>r. \<lparr>uri = ''file://'' @ root_path r, rname = root_name r\<rparr>) roots"

definition directoryForPath :: "host \<Rightarrow> string \<Rightarrow> string" where
  "directoryForPath h filePath =
     (if endsWith filePath ''/'' then resolveRealPath h filePath else dirname (resolveRealPath h filePath))"

section \<open>Lemmas\<close>

lemma collectRoots_fresh:
  "distinct (map root_path (collectRoots h seen rules)) \<and>
   set (map root_path (collectRoots h seen rules)) \<inter> set seen = {}"
  by (induction h seen rules rule: collectRoots.induct) (auto simp: Let_def split: option.splits)

lemma collectRoots_mem_iff:
  "d \<in> set (map root_path (collectRoots h seen rules)) \<longleftrightarrow> d \<notin> set seen \<and>
     (\<exists>rule \<in> set rules. \<exists>pc. r_then rule \<noteq> Deny \<and> c_paths (r_if rule) = Some pc \<and> pc_within pc \<noteq> [] \<and>
        d = resolveRealPath h (pc_within pc))"
  by (induction h seen rules rule: collectRoots.induct) (auto simp: Let_def split: option.splits)

section \<open>Properties\<close>

text \<open>The initial roots are the sandbox first and then exactly the directories that allow and
  escalate rules name in a path condition, each once; a directory that only deny rules name is
  never exposed as a root.\<close>

theorem extractPolicyRoots_exact:
  "distinct (map root_path (extractPolicyRoots h policy dir)) \<and>
   root_path (hd (extractPolicyRoots h policy dir)) = resolveRealPath h dir \<and>
   set (map root_path (extractPolicyRoots h policy dir)) = insert (resolveRealPath h dir)
     {resolveRealPath h (pc_within pc) | rule pc. rule \<in> set (cp_rules policy) \<and> r_then rule \<noteq> Deny \<and>
        c_paths (r_if rule) = Some pc \<and> pc_within pc \<noteq> []}"
proof -
  let ?s = "resolveRealPath h dir"
  have "set (map root_path (collectRoots h [?s] (cp_rules policy))) =
      {resolveRealPath h (pc_within pc) | rule pc. rule \<in> set (cp_rules policy) \<and> r_then rule \<noteq> Deny \<and>
        c_paths (r_if rule) = Some pc \<and> pc_within pc \<noteq> []} - {?s}"
    unfolding set_eq_iff collectRoots_mem_iff by auto
  with collectRoots_fresh [of h "[?s]" "cp_rules policy"] show ?thesis
    by (simp add: extractPolicyRoots_def Let_def)
qed

end
