(* ===== verification/Policy_Engine_Props.thy ===== *)
theory Policy_Engine_Props
  imports Policy_Engine
begin

text \<open>
  What the policy engine guarantees. A specification of the compiled-rule evaluation (a decision
  per path by the first rule that covers it, the strictest over the paths of a role, the strictest
  over the roles) and the refinement of the two loops to it; totality; the structural invariants
  (protected paths, unknown tools, the domain gate); and what an allow decision rests on.
\<close>

section \<open>Specification\<close>

definition ruleCovers :: "host \<Rightarrow> compiled_rule \<Rightarrow> string \<Rightarrow> bool" where
  "ruleCovers h rule p =
     (case c_paths (r_if rule) of Some pc \<Rightarrow> isWithinDirectory h p (pc_within pc) | None \<Rightarrow> True)"

definition firstRule ::
  "host \<Rightarrow> tool_call_request \<Rightarrow> tool_annotation \<Rightarrow> role \<Rightarrow> compiled_rule list \<Rightarrow> string \<Rightarrow> compiled_rule option" where
  "firstRule h request ann r rules p =
     List.find (\<lambda>rule. ruleApplies h request ann r rule \<and> ruleCovers h rule p) rules"

definition ruleDecision ::
  "host \<Rightarrow> tool_call_request \<Rightarrow> tool_annotation \<Rightarrow> role \<Rightarrow> compiled_rule list \<Rightarrow> string \<Rightarrow> decision" where
  "ruleDecision h request ann r rules p =
     (case firstRule h request ann r rules p of Some rule \<Rightarrow> r_then rule | None \<Rightarrow> Deny)"

definition pathDecision ::
  "policy_engine \<Rightarrow> host \<Rightarrow> tool_call_request \<Rightarrow> tool_annotation \<Rightarrow> role \<Rightarrow> string \<Rightarrow> decision" where
  "pathDecision e h request ann r p =
     (if sandboxDischarges e h request r p then Allow
      else ruleDecision h request ann r (cp_rules (compiledPolicy e)) p)"

definition roleDecision ::
  "policy_engine \<Rightarrow> host \<Rightarrow> tool_call_request \<Rightarrow> tool_annotation \<Rightarrow> role \<Rightarrow> decision" where
  "roleDecision e h request ann r =
     (let paths = extractAnnotatedPaths (arguments request) ann [r]
      in if paths = [] then er_decision (scanRulesForRole h (cp_rules (compiledPolicy e)) request ann r)
         else strictest (map (pathDecision e h request ann r) paths))"

section \<open>The discharging loop\<close>

fun resultDecision :: "evaluation_result option \<Rightarrow> decision" where
  "resultDecision None = Allow"
| "resultDecision (Some res) = er_decision res"

lemma ruleToResult_decision [simp]: "er_decision (ruleToResult rule) = r_then rule"
  by (simp add: ruleToResult_def)

lemma pickResult_decision [simp]: "er_decision (pickResult m res) = max (resultDecision m) (er_decision res)"
  by (cases m) (auto simp: pickResult_def max_def decision_order)

lemma ruleDecision_Nil [simp]: "ruleDecision h request ann r [] p = Deny"
  by (simp add: ruleDecision_def firstRule_def)

lemma ruleDecision_Cons:
  "ruleDecision h request ann r (rule # rules) p =
     (if ruleApplies h request ann r rule \<and> ruleCovers h rule p then r_then rule
      else ruleDecision h request ann r rules p)"
  by (simp add: ruleDecision_def firstRule_def)

lemma matched_eq:
  "(case c_paths (r_if rule) of Some pc \<Rightarrow> filter (\<lambda>p. isWithinDirectory h p (pc_within pc)) ps | None \<Rightarrow> ps) =
     filter (ruleCovers h rule) ps"
  by (auto simp: ruleCovers_def fun_eq_iff split: option.splits intro!: filter_cong)

lemma filter_not_matched:
  "filter (\<lambda>p. p \<notin> set (filter P ps)) ps = filter (\<lambda>p. \<not> P p) ps"
  by (rule filter_cong) auto

lemma filter_not_matched2:
  "filter (\<lambda>p. p \<in> set ps \<longrightarrow> \<not> P p) ps = filter (\<lambda>p. \<not> P p) ps"
  by (rule filter_cong) auto

definition outcome :: "string list \<times> evaluation_result option \<Rightarrow> decision" where
  "outcome st = (if fst st \<noteq> [] then Deny else resultDecision (snd st))"

lemma dischargePaths_outcome:
  "outcome (dischargePaths h request ann r rules ps m) =
     max (resultDecision m) (strictest (map (ruleDecision h request ann r rules) ps))"
proof (induction rules arbitrary: ps m)
  case Nil
  have "ps \<noteq> [] \<Longrightarrow> strictest (map (\<lambda>p. Deny) ps) = Deny"
    by (rule strictest_map_const) auto
  then show ?case by (cases "ps = []") (auto simp: outcome_def)
next
  case (Cons rule rules)
  let ?d = "ruleDecision h request ann r"
  let ?in = "filter (ruleCovers h rule) ps" and ?out = "filter (\<lambda>p. \<not> ruleCovers h rule p) ps"
  consider "ps = []" | "ps \<noteq> []" "\<not> ruleApplies h request ann r rule"
    | "ps \<noteq> []" "ruleApplies h request ann r rule" "?in = []"
    | "ps \<noteq> []" "ruleApplies h request ann r rule" "?in \<noteq> []" by blast
  then show ?case
  proof cases
    case 2
    then have "strictest (map (?d (rule # rules)) ps) = strictest (map (?d rules) ps)"
      by (auto simp: ruleDecision_Cons intro!: arg_cong [of _ _ strictest])
    with 2 Cons show ?thesis by simp
  next
    case 3
    then have "strictest (map (?d (rule # rules)) ps) = strictest (map (?d rules) ps)"
      by (auto simp: ruleDecision_Cons filter_empty_conv intro!: arg_cong [of _ _ strictest])
    with 3 Cons show ?thesis by (simp add: matched_eq)
  next
    case 4
    have "strictest (map (?d (rule # rules)) ?in) = r_then rule"
      using 4 by (intro strictest_map_const) (auto simp: ruleDecision_Cons)
    moreover have "strictest (map (?d (rule # rules)) ?out) = strictest (map (?d rules) ?out)"
      by (auto simp: ruleDecision_Cons intro!: arg_cong [of _ _ strictest])
    ultimately have "strictest (map (?d (rule # rules)) ps) = max (r_then rule) (strictest (map (?d rules) ?out))"
      using strictest_map_split [of "?d (rule # rules)" ps "ruleCovers h rule"] by simp
    moreover have "dischargePaths h request ann r (rule # rules) ps m =
        dischargePaths h request ann r rules ?out (Some (pickResult m (ruleToResult rule)))"
      using 4 by (simp add: matched_eq filter_not_matched2 Let_def)
    ultimately show ?thesis by (simp add: Cons max.assoc)
  qed (simp add: outcome_def)
qed

lemma dischargePaths_keeps_result:
  "snd (dischargePaths h request ann r rules ps (Some x)) \<noteq> None"
proof (induction rules arbitrary: ps x)
  case (Cons rule rules)
  then show ?case by (simp add: Let_def)
qed simp

lemma dischargePaths_some_result:
  assumes "ps \<noteq> [] \<or> m \<noteq> None" "fst (dischargePaths h request ann r rules ps m) = []"
  shows "snd (dischargePaths h request ann r rules ps m) \<noteq> None"
  using assms
proof (induction rules arbitrary: ps m)
  case (Cons rule rules)
  show ?case
  proof (cases "ps = [] \<or> \<not> ruleApplies h request ann r rule \<or> filter (ruleCovers h rule) ps = []")
    case True
    with Cons show ?thesis by (auto simp: matched_eq Let_def)
  next
    case False
    then show ?thesis using dischargePaths_keeps_result by (simp add: matched_eq Let_def)
  qed
qed auto

lemma evaluateRulesForRolePaths_spec:
  assumes "paths \<noteq> []"
  shows "\<exists>res. evaluateRulesForRolePaths e h request ann r paths = Inr res \<and>
     er_decision res = strictest (map (pathDecision e h request ann r) paths)"
proof -
  let ?S = "sandboxDischarges e h request r"
  let ?kept = "filter (\<lambda>p. \<not> ?S p) (uniq paths)"
  let ?init = "if list_ex ?S (uniq paths) then Some (sandboxAllowResult e) else None"
  let ?run = "dischargePaths h request ann r (cp_rules (compiledPolicy e)) ?kept ?init"
  have init: "resultDecision ?init = Allow" by (simp add: sandboxAllowResult_def)
  have "strictest (map (pathDecision e h request ann r) paths) =
      strictest (map (pathDecision e h request ann r) (uniq paths))"
    by (rule strictest_map_set) simp
  also have "\<dots> = max (strictest (map (pathDecision e h request ann r) (filter ?S (uniq paths))))
      (strictest (map (pathDecision e h request ann r) ?kept))"
    by (rule strictest_map_split)
  also have "strictest (map (pathDecision e h request ann r) (filter ?S (uniq paths))) = Allow"
    by (auto simp: strictest_Allow_iff pathDecision_def)
  also have "map (pathDecision e h request ann r) ?kept =
      map (ruleDecision h request ann r (cp_rules (compiledPolicy e))) ?kept"
    by (simp add: pathDecision_def)
  finally have out: "outcome ?run = strictest (map (pathDecision e h request ann r) paths)"
    using dischargePaths_outcome [of h request ann r "cp_rules (compiledPolicy e)" ?kept ?init] init by simp
  have some: "fst ?run = [] \<Longrightarrow> snd ?run \<noteq> None"
  proof (rule dischargePaths_some_result)
    obtain p where "p \<in> set (uniq paths)" using assms by (cases paths) auto
    then show "?kept \<noteq> [] \<or> ?init \<noteq> None" by (auto simp: filter_empty_conv list_ex_iff)
  qed
  obtain rem m where run: "?run = (rem, m)" by fastforce
  show ?thesis
  proof (cases "rem = []")
    case True
    with some run obtain res where m: "m = Some res" by auto
    with out run True have "er_decision res = strictest (map (pathDecision e h request ann r) paths)"
      by (simp add: outcome_def)
    with run True m assms show ?thesis
      by (simp add: evaluateRulesForRolePaths_def Let_def split del: if_split)
  next
    case False
    with out run have "strictest (map (pathDecision e h request ann r) paths) = Deny" by (simp add: outcome_def)
    with run False assms show ?thesis
      by (simp add: evaluateRulesForRolePaths_def Let_def DEFAULT_DENY_RESULT_def split del: if_split)
  qed
qed

lemma evaluateRulesForRole_spec:
  "\<exists>res. evaluateRulesForRole e h request ann r = Inr res \<and> er_decision res = roleDecision e h request ann r"
proof (cases "extractAnnotatedPaths (arguments request) ann [r] = []")
  case True
  then show ?thesis
    by (simp add: evaluateRulesForRole_def evaluateRulesForRolePaths_def roleDecision_def)
next
  case False
  then show ?thesis
    using evaluateRulesForRolePaths_spec [OF False, of e h request ann r]
    by (simp add: evaluateRulesForRole_def roleDecision_def)
qed

section \<open>The loop over the roles\<close>

lemma combineRoles_spec:
  assumes "rs \<noteq> [] \<or> m \<noteq> None" "resultDecision m \<noteq> Deny"
  shows "\<exists>res. combineRoles e h request ann rs m esc = Inr res \<and>
     er_decision res = max (resultDecision m) (strictest (map (roleDecision e h request ann) rs))"
  using assms
proof (induction rs arbitrary: m esc)
  case Nil
  then show ?case by auto
next
  case (Cons r rs)
  obtain res where res: "evaluateRulesForRole e h request ann r = Inr res"
    and dec: "er_decision res = roleDecision e h request ann r"
    using evaluateRulesForRole_spec by blast
  show ?case
  proof (cases "er_decision res = Deny")
    case True
    with res dec show ?thesis by simp
  next
    case False
    let ?m = "case m of None \<Rightarrow> Some res
      | Some m' \<Rightarrow> if severity (er_decision res) > severity (er_decision m') then Some res else Some m'"
    have m: "resultDecision ?m = max (resultDecision m) (er_decision res)"
      by (cases m) (auto simp: max_def decision_order)
    have "resultDecision ?m \<noteq> Deny"
      unfolding m using False Cons.prems(2) by (simp add: max_def)
    moreover have "?m \<noteq> None" by (cases m) auto
    ultimately obtain res' where
      "combineRoles e h request ann rs ?m (if er_decision res = Escalate then esc @ [r] else esc) = Inr res'"
      "er_decision res' = max (resultDecision ?m) (strictest (map (roleDecision e h request ann) rs))"
      using Cons.IH by blast
    with res False dec m show ?thesis by (simp add: max.assoc)
  qed
qed

lemma combineRoles_escalated:
  "combineRoles e h request ann rs m esc = Inr res \<Longrightarrow> er_decision res = Escalate \<Longrightarrow>
   (\<And>x. m = Some x \<Longrightarrow> er_decision x = Escalate \<Longrightarrow> esc \<noteq> []) \<Longrightarrow>
   er_escalatedRoles res = Some (esc @ filter (\<lambda>r. roleDecision e h request ann r = Escalate) rs)"
proof (induction rs arbitrary: m esc)
  case Nil
  then show ?case by (auto split: option.splits if_splits)
next
  case (Cons r rs)
  obtain x where x: "evaluateRulesForRole e h request ann r = Inr x"
    and dec: "er_decision x = roleDecision e h request ann r"
    using evaluateRulesForRole_spec by blast
  have nd: "er_decision x \<noteq> Deny" using Cons.prems(1,2) x by (auto split: if_splits)
  let ?m = "case m of None \<Rightarrow> Some x
      | Some m' \<Rightarrow> if severity (er_decision x) > severity (er_decision m') then Some x else Some m'"
  let ?esc = "if er_decision x = Escalate then esc @ [r] else esc"
  have "combineRoles e h request ann rs ?m ?esc = Inr res" using Cons.prems(1) x nd by simp
  then have "er_escalatedRoles res = Some (?esc @ filter (\<lambda>r. roleDecision e h request ann r = Escalate) rs)"
    using Cons.prems(2)
  proof (rule Cons.IH)
    show "?esc \<noteq> []" if "?m = Some y" "er_decision y = Escalate" for y
      using that Cons.prems(3) by (auto split: option.splits if_splits)
  qed
  with dec show ?case by simp
qed

lemma collectDistinctRoles_mem:
  "r \<in> set (collectDistinctRoles ann) \<longleftrightarrow>
     isResourceIdentifier (roleDef r) \<and> (\<exists>(k, roles) \<in> set (ta_args ann). r \<in> set roles)"
  by (auto simp: collectDistinctRoles_def) (metis snd_conv)

definition rolesToEvaluate :: "tool_annotation \<Rightarrow> role list \<Rightarrow> role list" where
  "rolesToEvaluate ann resolved = filter (\<lambda>r. r \<notin> set resolved) (collectDistinctRoles ann)"

lemma evaluateCompiledRules_total: "\<exists>res. evaluateCompiledRules e h request resolved (Some ann) = Inr res"
  using combineRoles_spec [of "rolesToEvaluate ann resolved" None e h request ann "[]"]
  by (auto simp: evaluateCompiledRules_def rolesToEvaluate_def Let_def)

lemma structural_no_annotation:
  "sr_decision (evaluateStructuralInvariants e h request ann) = None \<Longrightarrow> ann \<noteq> None"
  by (auto simp: evaluateStructuralInvariants_def finalDecision_def Let_def split: option.splits if_splits prod.splits)

lemma structural_resolved:
  "sr_decision (evaluateStructuralInvariants e h request ann) = None \<Longrightarrow>
     sr_sandboxResolvedRoles (evaluateStructuralInvariants e h request ann) = sandboxResolved e h request ann"
  by (auto simp: evaluateStructuralInvariants_def finalDecision_def Let_def split: option.splits if_splits prod.splits)

lemma firstProtected_None_iff:
  "firstProtected e h ps = None \<longleftrightarrow>
     (\<forall>p \<in> set ps. \<not> isProtectedPath h p (protectedPaths e) (protectedPathExclusions e))"
  by (induction ps) auto

lemma firstUntrustedDomain_None_iff:
  "firstUntrustedDomain h args al us = None \<longleftrightarrow>
     (\<forall>(v, r) \<in> set us. domainMatchesAllowlist (resolveUrlForDomainCheck h v r args) al)"
proof (induction us)
  case (Cons u us)
  then show ?case by (cases u) (simp add: Let_def)
qed simp

section \<open>An engine for the witnesses\<close>

definition demoTool :: "string \<Rightarrow> string \<Rightarrow> (string \<times> role_spec) list \<Rightarrow> stored_annotation" where
  "demoTool srv tool as = \<lparr>sa_toolName = tool, sa_serverName = srv, sa_comment = [], sa_args = as, sa_inputSchema = JObj []\<rparr>"

definition demoRule :: "string \<Rightarrow> string \<Rightarrow> path_condition option \<Rightarrow> decision \<Rightarrow> compiled_rule" where
  "demoRule n srv pc d = \<lparr>r_name = n, r_description = [], r_principle = [],
     r_if = \<lparr>c_roles = None, c_server = Some [srv], c_tool = None, c_paths = pc, c_domains = None, c_lists = None\<rparr>,
     r_then = d, r_reason = n\<rparr>"

definition demoPolicy :: compiled_policy where
  "demoPolicy = \<lparr>cp_generatedAt = [], cp_constitutionHash = [], cp_inputHash = [],
     cp_rules = [demoRule ''read-docs'' ''filesystem'' (Some \<lparr>pc_roles = [ReadPath], pc_within = ''/docs''\<rparr>) Allow,
                 demoRule ''ask'' ''filesystem'' (Some \<lparr>pc_roles = [ReadPath], pc_within = ''/home''\<rparr>) Escalate,
                 demoRule ''git-all'' ''git'' None Allow]\<rparr>"

definition demoAnnotations :: annotations_file where
  "demoAnnotations = \<lparr>af_generatedAt = [], af_servers =
     [(''filesystem'', \<lparr>srv_inputHash = [], srv_tools =
        [demoTool ''filesystem'' ''read_multiple_files'' [(''paths'', StaticRoles [ReadPath])]]\<rparr>),
      (''git'', \<lparr>srv_inputHash = [], srv_tools =
        [demoTool ''git'' ''git_push'' [(''path'', StaticRoles [ReadPath]), (''remote'', StaticRoles [GitRemoteUrl])],
         demoTool ''git'' ''git_reset'' [(''path'', StaticRoles [WriteHistory])]]\<rparr>)]\<rparr>"

text \<open>A host whose sandbox repository has the default remote \<open>https://evil.com/x\<close>.\<close>

definition gitHost :: host where
  "gitHost = demoHost\<lparr>parseUrl := map_of
     [(''https://evil.com/x'', \<lparr>hostname = ''evil.com'', pathname = ''/x'', href = ''https://evil.com/x'', hrefRoot = ''https://evil.com/''\<rparr>)],
     gitExec := (\<lambda>d a. if a = [''remote'', ''get-url'', ''origin''] then Some ''https://evil.com/x'' else None)\<rparr>"

definition demoEngine :: policy_engine where
  "demoEngine = newPolicyEngine gitHost demoPolicy demoAnnotations [''/etc''] (Some ''/s'')
     (Some [(''git'', [''github.com''])]) None None"

definition demoRequest :: "string \<Rightarrow> string \<Rightarrow> jsobj \<Rightarrow> tool_call_request" where
  "demoRequest srv tool as = \<lparr>requestId = [], serverName = srv, toolName = tool, arguments = as, timestamp = []\<rparr>"

lemma evaluate_returns: "\<exists>res. evaluate e h request = Inr res"
proof (cases "serverName request \<in> set (trustedServers e)")
  case False
  let ?ann = "getAnnotation e (serverName request) (toolName request) (arguments request)"
  show ?thesis
  proof (cases "sr_decision (evaluateStructuralInvariants e h request ?ann)")
    case None
    then obtain ann where "?ann = Some ann" using structural_no_annotation by blast
    with None False show ?thesis
      using evaluateCompiledRules_total by (simp add: evaluate_def Let_def)
  qed (use False in \<open>simp add: evaluate_def Let_def\<close>)
qed (simp add: evaluate_def)

section \<open>Properties\<close>

text \<open>\<open>evaluate\<close> never throws: every request gets a decision, so the throwing branches of
  the compiled-rule evaluation are unreachable.\<close>

theorem evaluate_total: "\<exists>res. evaluate e h request = Inr res"
  by (rule evaluate_returns)

text \<open>The per-path discharging loop computes first-match-wins per path and strictest-wins
  over the paths: its decision is the strictest over all paths of the role, where a path inside
  the sandbox is allowed (filesystem server), any other path gets the decision of the first rule
  that applies and covers it, and a path that no rule covers is denied.\<close>

theorem role_paths_decision:
  assumes "paths \<noteq> []"
  shows "\<exists>res. evaluateRulesForRolePaths e h request ann r paths = Inr res \<and>
     er_decision res = strictest (map (\<lambda>p. if sandboxDischarges e h request r p then Allow
       else case firstRule h request ann r (cp_rules (compiledPolicy e)) p of
              Some rule \<Rightarrow> r_then rule | None \<Rightarrow> Deny) paths)"
  using evaluateRulesForRolePaths_spec [OF assms, of e h request ann r]
  unfolding pathDecision_def ruleDecision_def .

theorem role_paths_decision_witness:
  "\<exists>res. evaluateRulesForRolePaths demoEngine gitHost (demoRequest ''filesystem'' ''read_multiple_files'' [])
       (resolveStoredAnnotation (demoTool ''filesystem'' ''read_multiple_files'' [(''paths'', StaticRoles [ReadPath])]) [])
       ReadPath [''/s/a'', ''/docs/b''] = Inr res \<and>
     er_decision res = strictest (map (\<lambda>p.
       if sandboxDischarges demoEngine gitHost (demoRequest ''filesystem'' ''read_multiple_files'' []) ReadPath p then Allow
       else case firstRule gitHost (demoRequest ''filesystem'' ''read_multiple_files'' [])
                (resolveStoredAnnotation (demoTool ''filesystem'' ''read_multiple_files'' [(''paths'', StaticRoles [ReadPath])]) [])
                ReadPath (cp_rules (compiledPolicy demoEngine)) p of
              Some rule \<Rightarrow> r_then rule | None \<Rightarrow> Deny) [''/s/a'', ''/docs/b''])"
  by (rule role_paths_decision) simp

text \<open>Over the roles that the sandbox did not resolve, the most restrictive role decides,
  and an escalation names exactly the roles that asked for it, in order.\<close>

theorem compiled_rules_strictest_role:
  assumes "rolesToEvaluate ann resolved \<noteq> []"
  shows "\<exists>res. evaluateCompiledRules e h request resolved (Some ann) = Inr res \<and>
     er_decision res = strictest (map (roleDecision e h request ann) (rolesToEvaluate ann resolved)) \<and>
     (er_decision res = Escalate \<longrightarrow> er_escalatedRoles res =
        Some (filter (\<lambda>r. roleDecision e h request ann r = Escalate) (rolesToEvaluate ann resolved)))"
proof -
  have eq: "evaluateCompiledRules e h request resolved (Some ann) =
      combineRoles e h request ann (rolesToEvaluate ann resolved) None []"
    using assms by (auto simp: evaluateCompiledRules_def rolesToEvaluate_def Let_def)
  obtain res where "combineRoles e h request ann (rolesToEvaluate ann resolved) None [] = Inr res"
    "er_decision res = strictest (map (roleDecision e h request ann) (rolesToEvaluate ann resolved))"
    using combineRoles_spec [of "rolesToEvaluate ann resolved" None e h request ann "[]"] assms by auto
  then show ?thesis unfolding eq using combineRoles_escalated [of e h request ann _ None "[]" res] by auto
qed

theorem compiled_rules_strictest_role_witness:
  "\<exists>ann res. evaluateCompiledRules demoEngine gitHost (demoRequest ''git'' ''git_push'' []) [ReadPath] (Some ann) = Inr res \<and>
     er_decision res = strictest (map (roleDecision demoEngine gitHost (demoRequest ''git'' ''git_push'' []) ann)
       (rolesToEvaluate ann [ReadPath]))"
proof -
  let ?ann = "resolveStoredAnnotation (demoTool ''git'' ''git_push'' [(''path'', StaticRoles [ReadPath]), (''remote'', StaticRoles [GitRemoteUrl])]) []"
  have "rolesToEvaluate ?ann [ReadPath] \<noteq> []" by code_simp
  from compiled_rules_strictest_role [OF this, of demoEngine gitHost "demoRequest ''git'' ''git_push'' []"]
  show ?thesis by blast
qed

text \<open>C6: no compiled rule can open a protected path: a call to an annotated tool of an untrusted
  server that names a protected path in any path argument is denied by the structural check,
  whatever the compiled policy, the domain allowlists and the sandbox say.\<close>

theorem protected_path_denied:
  assumes "serverName request \<notin> set (trustedServers e)"
    and "getAnnotation e (serverName request) (toolName request) (arguments request) = Some ann"
    and "p \<in> set (extractAnnotatedPaths (arguments request) ann getPathRoles)"
    and "isProtectedPath h (resolveRealPath h p) (protectedPaths e) (protectedPathExclusions e)"
  shows "\<exists>res. evaluate e h request = Inr res \<and> er_decision res = Deny \<and> er_rule res = ''structural-protected-path''"
proof -
  let ?rps = "map (resolveRealPath h) (extractAnnotatedPaths (arguments request) ann getPathRoles)"
  obtain rp where "firstProtected e h ?rps = Some rp"
    using assms(3,4) firstProtected_None_iff [of e h ?rps] by fastforce
  then show ?thesis
    using assms(1,2) by (simp add: evaluate_def evaluateStructuralInvariants_def finalDecision_def Let_def)
qed

theorem protected_path_denied_witness:
  "\<exists>res. evaluate demoEngine gitHost (demoRequest ''filesystem'' ''read_multiple_files'' [(''paths'', JArr [JStr ''/s/a'', JStr ''/s/l/passwd''])]) = Inr res \<and>
     er_decision res = Deny \<and> er_rule res = ''structural-protected-path''"
proof (rule protected_path_denied [where p = "''/s/l/passwd''"
      and ann = "resolveStoredAnnotation (demoTool ''filesystem'' ''read_multiple_files'' [(''paths'', StaticRoles [ReadPath])]) []"])
qed (code_simp)+

text \<open>The domain gate: on an untrusted server with a domain allowlist, a call whose URL
  argument resolves to a domain outside the allowlist never gets past the structural checks: it
  escalates (or is denied because it also names a protected path), whatever the compiled rules.\<close>

theorem domain_gate_not_allowed:
  assumes "serverName request \<notin> set (trustedServers e)"
    and "getAnnotation e (serverName request) (toolName request) (arguments request) = Some ann"
    and "map_of (serverDomainAllowlists e) (serverName request) = Some allowlist"
    and "(v, r) \<in> set (extractAnnotatedUrls (arguments request) ann getUrlRoles)"
    and "\<not> domainMatchesAllowlist (resolveUrlForDomainCheck h v r (arguments request)) allowlist"
  shows "\<exists>res. evaluate e h request = Inr res \<and> er_decision res \<noteq> Allow \<and>
     er_rule res \<in> {''structural-protected-path'', ''structural-domain-escalate''}"
proof -
  let ?us = "extractAnnotatedUrls (arguments request) ann getUrlRoles"
  obtain d r' where gate: "firstUntrustedDomain h (arguments request) allowlist ?us = Some (d, r')"
    using assms(4,5) firstUntrustedDomain_None_iff [of h "arguments request" allowlist ?us] by fastforce
  have "arguments request \<noteq> []"
    using assms(4) by (auto simp: extractAnnotatedUrls_def getProp_def split: option.splits)
  with assms(1-3) gate show ?thesis
    by (cases "firstProtected e h (map (resolveRealPath h) (extractAnnotatedPaths (arguments request) ann getPathRoles))")
      (simp_all add: evaluate_def evaluateStructuralInvariants_def finalDecision_def Let_def)
qed

theorem domain_gate_not_allowed_witness:
  "\<exists>res. evaluate demoEngine gitHost (demoRequest ''git'' ''git_push''
       [(''path'', JStr ''/s''), (''remote'', JStr ''https://evil.com/x'')]) = Inr res \<and>
     er_decision res \<noteq> Allow \<and> er_rule res \<in> {''structural-protected-path'', ''structural-domain-escalate''}"
  by (rule domain_gate_not_allowed [where v = "''https://evil.com/x''" and r = GitRemoteUrl and allowlist = "[''github.com'']"
        and ann = "resolveStoredAnnotation (demoTool ''git'' ''git_push'' [(''path'', StaticRoles [ReadPath]), (''remote'', StaticRoles [GitRemoteUrl])]) []"])
    code_simp+

lemma unannotated_denied:
  assumes "serverName request \<notin> set (trustedServers e)"
    and "getAnnotation e (serverName request) (toolName request) (arguments request) = None"
  shows "\<exists>res. evaluate e h request = Inr res \<and> er_decision res = Deny \<and> er_rule res = ''structural-unknown-tool''"
  using assms
  by (cases "map_of (serverDomainAllowlists e) (serverName request)")
    (simp_all add: evaluate_def evaluateStructuralInvariants_def finalDecision_def Let_def)

text \<open>A tool without an annotation is denied on every untrusted server.\<close>

theorem unknown_tool_denied:
  assumes "serverName request \<notin> set (trustedServers e)"
    and "getAnnotation e (serverName request) (toolName request) (arguments request) = None"
  shows "\<exists>res. evaluate e h request = Inr res \<and> er_decision res = Deny \<and> er_rule res = ''structural-unknown-tool''"
  by (rule unannotated_denied [OF assms])

theorem unknown_tool_denied_witness:
  "\<exists>res. evaluate demoEngine gitHost (demoRequest ''git'' ''git_gc'' []) = Inr res \<and>
     er_decision res = Deny \<and> er_rule res = ''structural-unknown-tool''"
  by (rule unknown_tool_denied) code_simp+

text \<open>What authorises one resource role of a call: an allow rule for the role, and for each of
  its values that the sandbox does not discharge an allow rule that covers that value.\<close>

definition roleAuthorised ::
  "policy_engine \<Rightarrow> host \<Rightarrow> tool_call_request \<Rightarrow> tool_annotation \<Rightarrow> role \<Rightarrow> bool" where
  "roleAuthorised e h request ann r =
     (let paths = extractAnnotatedPaths (arguments request) ann [r]; rules = cp_rules (compiledPolicy e)
      in if paths = [] then \<exists>rule \<in> set rules. r_then rule = Allow \<and> ruleMatches h rule request ann (Some r)
         else \<forall>p \<in> set paths. sandboxDischarges e h request r p \<or>
           (\<exists>rule \<in> set rules. r_then rule = Allow \<and> ruleApplies h request ann r rule \<and> ruleCovers h rule p))"

lemma ruleDecision_Allow:
  "ruleDecision h request ann r rules p = Allow \<Longrightarrow>
     \<exists>rule \<in> set rules. r_then rule = Allow \<and> ruleApplies h request ann r rule \<and> ruleCovers h rule p"
  by (auto simp: ruleDecision_def firstRule_def find_Some_iff split: option.splits)

lemma scanRulesForRole_Allow:
  "er_decision (scanRulesForRole h rules request ann r) = Allow \<Longrightarrow>
     \<exists>rule \<in> set rules. r_then rule = Allow \<and> ruleMatches h rule request ann (Some r)"
  by (induction rules) (auto simp: DEFAULT_DENY_RESULT_def split: if_splits)

lemma evaluateRulesUnscoped_Allow:
  "er_decision (evaluateRulesUnscoped h rules request ann) = Allow \<Longrightarrow>
     \<exists>rule \<in> set rules. r_then rule = Allow \<and> ruleMatches h rule request ann None"
  by (induction rules) (auto simp: DEFAULT_DENY_RESULT_def split: if_splits)

lemma roleDecision_Allow: "roleDecision e h request ann r = Allow \<Longrightarrow> roleAuthorised e h request ann r"
proof (cases "extractAnnotatedPaths (arguments request) ann [r] = []")
  case True
  then show "roleDecision e h request ann r = Allow \<Longrightarrow> ?thesis"
    by (simp add: roleDecision_def roleAuthorised_def scanRulesForRole_Allow)
next
  case False
  assume "roleDecision e h request ann r = Allow"
  with False have all: "\<forall>p \<in> set (extractAnnotatedPaths (arguments request) ann [r]). pathDecision e h request ann r p = Allow"
    by (simp add: roleDecision_def strictest_Allow_iff)
  have "sandboxDischarges e h request r p \<or> (\<exists>rule \<in> set (cp_rules (compiledPolicy e)).
      r_then rule = Allow \<and> ruleApplies h request ann r rule \<and> ruleCovers h rule p)"
    if "pathDecision e h request ann r p = Allow" for p
    using that ruleDecision_Allow [of h request ann r _ p] by (auto simp: pathDecision_def split: if_splits)
  with False all show ?thesis by (simp add: roleAuthorised_def Let_def)
qed

lemma structural_None_not_protected:
  assumes "sr_decision (evaluateStructuralInvariants e h request (Some ann)) = None"
    and "p \<in> set (extractAnnotatedPaths (arguments request) ann getPathRoles)"
  shows "\<not> isProtectedPath h (resolveRealPath h p) (protectedPaths e) (protectedPathExclusions e)"
proof -
  have "firstProtected e h (map (resolveRealPath h) (extractAnnotatedPaths (arguments request) ann getPathRoles)) = None"
    using assms(1) by (auto simp: evaluateStructuralInvariants_def finalDecision_def split: option.splits)
  with assms(2) show ?thesis by (simp add: firstProtected_None_iff)
qed

lemma evaluate_compiled_phase:
  assumes "evaluate e h request = Inr res" "er_decision res = Allow"
    and "serverName request \<notin> set (trustedServers e)" "toolName request \<noteq> ''list_allowed_directories''"
  obtains ann where "getAnnotation e (serverName request) (toolName request) (arguments request) = Some ann"
    and "sr_decision (evaluateStructuralInvariants e h request (Some ann)) = None"
    and "evaluateCompiledRules e h (enrichGitRequest e h request (Some ann))
           (sandboxResolved e h request (Some ann)) (Some ann) = Inr res"
proof -
  let ?ann = "getAnnotation e (serverName request) (toolName request) (arguments request)"
  have None: "sr_decision (evaluateStructuralInvariants e h request ?ann) = None"
  proof (rule ccontr)
    assume "sr_decision (evaluateStructuralInvariants e h request ?ann) \<noteq> None"
    with assms show False
      by (auto simp: evaluate_def evaluateStructuralInvariants_def finalDecision_def Let_def
          split: option.splits if_splits prod.splits)
  qed
  then obtain ann where ann: "?ann = Some ann" using structural_no_annotation by blast
  with None assms structural_resolved [OF None] show ?thesis
    by (intro that [of ann]) (simp_all add: evaluate_def Let_def)
qed



lemma extractAnnotatedPaths_mono:
  "set ts \<subseteq> set us \<Longrightarrow> set (extractAnnotatedPaths args ann ts) \<subseteq> set (extractAnnotatedPaths args ann us)"
  by (auto simp: extractAnnotatedPaths_def list_ex_iff split: if_splits) blast

lemma no_url_roles:
  assumes "\<forall>r \<in> set (collectDistinctRoles ann). r \<in> set getPathRoles"
  shows "extractAnnotatedUrls args ann getUrlRoles = []"
proof -
  have "List.find (\<lambda>r. r \<in> set getUrlRoles) roles = None" if "(k, roles) \<in> set (ta_args ann)" for k roles
  proof (rule ccontr)
    assume "List.find (\<lambda>r. r \<in> set getUrlRoles) roles \<noteq> None"
    then obtain r where r: "r \<in> set roles" "r \<in> set getUrlRoles" by (auto simp: find_None_iff)
    then have "isResourceIdentifier (roleDef r)" "r \<notin> set getPathRoles"
      by (auto simp: role_simps)
    moreover from this r that have "r \<in> set (collectDistinctRoles ann)"
      unfolding collectDistinctRoles_mem by blast
    ultimately show False using assms by blast
  qed
  then show ?thesis by (auto simp: extractAnnotatedUrls_def)
qed

text \<open>Sandbox containment: on the filesystem and git servers, a call whose resource roles are
  all path roles with every path inside the sandbox (and none protected) is allowed structurally,
  without consulting a compiled rule. This includes the history-rewriting roles.\<close>

theorem sandbox_contained_allowed:
  assumes "serverName request \<notin> set (trustedServers e)" "serverName request \<in> {''filesystem'', ''git''}"
    and ann: "getAnnotation e (serverName request) (toolName request) (arguments request) = Some ann"
    and dir: "allowedDirectory e = Some d" "d \<noteq> []"
    and roles: "collectDistinctRoles ann \<noteq> []"
      "\<forall>r \<in> set (collectDistinctRoles ann). r \<in> set getPathRoles \<and>
         extractAnnotatedPaths (arguments request) ann [r] \<noteq> [] \<and>
         list_all (\<lambda>p. isWithinDirectory h p d) (extractAnnotatedPaths (arguments request) ann [r])"
    and prot: "\<forall>p \<in> set (extractAnnotatedPaths (arguments request) ann getPathRoles).
         \<not> isProtectedPath h (resolveRealPath h p) (protectedPaths e) (protectedPathExclusions e)"
  shows "\<exists>res. evaluate e h request = Inr res \<and> er_decision res = Allow \<and> er_rule res = ''structural-sandbox-allow''"
proof -
  obtain r where r: "r \<in> set (collectDistinctRoles ann)" using roles(1) by (cases "collectDistinctRoles ann") auto
  have "set (extractAnnotatedPaths (arguments request) ann [r]) \<subseteq> set (extractAnnotatedPaths (arguments request) ann getPathRoles)"
    using r roles(2) by (intro extractAnnotatedPaths_mono) auto
  with r roles(2) have paths: "extractAnnotatedPaths (arguments request) ann getPathRoles \<noteq> []" by fastforce
  then have args: "arguments request \<noteq> []"
    by (auto simp: extractAnnotatedPaths_def getProp_def split: if_splits)
  have "set (collectDistinctRoles ann) \<subseteq> set (sandboxResolved e h request (Some ann))"
  proof
    fix r
    assume "r \<in> set (collectDistinctRoles ann)"
    with roles(2) have "r \<in> set getPathRoles" and "extractAnnotatedPaths (arguments request) ann [r] \<noteq> []"
      and "list_all (\<lambda>p. isWithinDirectory h p d) (extractAnnotatedPaths (arguments request) ann [r])" by blast+
    moreover from this(1) have "r \<in> set SANDBOX_SAFE_PATH_ROLES"
      by (simp add: SANDBOX_SAFE_PATH_ROLES_def getPathRoles_eq)
    ultimately show "r \<in> set (sandboxResolved e h request (Some ann))"
      using assms(2) dir paths by (simp add: sandboxResolved_def truthyDir_def)
  qed
  then have none: "filter (\<lambda>r. r \<notin> set (sandboxResolved e h request (Some ann))) (collectDistinctRoles ann) = []"
    by (auto simp: filter_empty_conv)
  have "firstProtected e h (map (resolveRealPath h) (extractAnnotatedPaths (arguments request) ann getPathRoles)) = None"
    using prot by (simp add: firstProtected_None_iff)
  with args no_url_roles [of ann "arguments request"] roles(2)
  have st: "evaluateStructuralInvariants e h request (Some ann) =
      \<lparr>sr_decision = None, sr_sandboxResolvedRoles = sandboxResolved e h request (Some ann)\<rparr>"
    by (cases "map_of (serverDomainAllowlists e) (serverName request)")
      (simp_all add: evaluateStructuralInvariants_def Let_def)
  then show ?thesis
    using assms(1) ann roles(1) none
    by (simp add: evaluate_def evaluateCompiledRules_def STRUCTURAL_SANDBOX_ALLOW_def Let_def)
qed

theorem sandbox_contained_allowed_witness:
  "\<exists>res. evaluate demoEngine gitHost (demoRequest ''git'' ''git_reset'' [(''path'', JStr ''/s'')]) = Inr res \<and>
     er_decision res = Allow \<and> er_rule res = ''structural-sandbox-allow''"
  by (rule sandbox_contained_allowed [where d = "''/s''" and
        ann = "resolveStoredAnnotation (demoTool ''git'' ''git_reset'' [(''path'', StaticRoles [WriteHistory])]) []"])
    code_simp+

text \<open>The domain gate sees the request as it was sent: when a git call names no URL, the call
  goes to the compiled rules even if the default remote, which enrichment then fills in, is
  outside the server's domain allowlist.\<close>

theorem omitted_remote_skips_domain_gate:
  assumes "serverName request \<notin> set (trustedServers e)" "toolName request \<noteq> ''list_allowed_directories''"
    and "getAnnotation e (serverName request) (toolName request) (arguments request) = Some ann"
    and "extractAnnotatedUrls (arguments request) ann getUrlRoles = []"
    and "\<forall>p \<in> set (extractAnnotatedPaths (arguments request) ann getPathRoles).
         \<not> isProtectedPath h (resolveRealPath h p) (protectedPaths e) (protectedPathExclusions e)"
  shows "evaluate e h request =
     evaluateCompiledRules e h (enrichGitRequest e h request (Some ann)) (sandboxResolved e h request (Some ann)) (Some ann)"
proof -
  have "firstProtected e h (map (resolveRealPath h) (extractAnnotatedPaths (arguments request) ann getPathRoles)) = None"
    using assms(5) by (simp add: firstProtected_None_iff)
  with assms(2,4) have "evaluateStructuralInvariants e h request (Some ann) =
      \<lparr>sr_decision = None, sr_sandboxResolvedRoles = sandboxResolved e h request (Some ann)\<rparr>"
    by (cases "map_of (serverDomainAllowlists e) (serverName request)")
      (simp_all add: evaluateStructuralInvariants_def Let_def)
  with assms(1,3) show ?thesis by (simp add: evaluate_def Let_def)
qed

theorem omitted_remote_skips_domain_gate_witness:
  "\<exists>res. evaluate demoEngine gitHost (demoRequest ''git'' ''git_push'' [(''path'', JStr ''/s'')]) = Inr res \<and>
     er_decision res = Allow \<and>
     \<not> domainMatchesAllowlist (resolveUrlForDomainCheck gitHost ''https://evil.com/x'' GitRemoteUrl []) [''github.com'']"
proof -
  let ?req = "demoRequest ''git'' ''git_push'' [(''path'', JStr ''/s'')]"
  let ?ann = "resolveStoredAnnotation (demoTool ''git'' ''git_push'' [(''path'', StaticRoles [ReadPath]), (''remote'', StaticRoles [GitRemoteUrl])]) []"
  have "evaluate demoEngine gitHost ?req = evaluateCompiledRules demoEngine gitHost
      (enrichGitRequest demoEngine gitHost ?req (Some ?ann)) (sandboxResolved demoEngine gitHost ?req (Some ?ann)) (Some ?ann)"
    by (rule omitted_remote_skips_domain_gate) code_simp+
  also have "\<dots> = Inr (ruleToResult (demoRule ''git-all'' ''git'' None Allow))" by code_simp
  finally have "evaluate demoEngine gitHost ?req = Inr (ruleToResult (demoRule ''git-all'' ''git'' None Allow))" .
  moreover have "\<not> domainMatchesAllowlist (resolveUrlForDomainCheck gitHost ''https://evil.com/x'' GitRemoteUrl []) [''github.com'']"
    by code_simp
  ultimately show ?thesis by (simp add: demoRule_def)
qed

section \<open>Dynamic lists\<close>

lemma getEffectiveListValues_mem:
  "v \<in> set (getEffectiveListValues n dyn) \<longleftrightarrow>
     (\<exists>l. map_of (dl_lists dyn) n = Some l \<and> (v \<in> set (rl_values l) \<or> v \<in> set (rl_manualAdditions l)) \<and>
          v \<notin> set (rl_manualRemovals l))"
  by (cases "map_of (dl_lists dyn) n") (auto simp: getEffectiveListValues_def)

text \<open>After load-time expansion, the entries of an allowlist are its literal entries together
  with, for each \<open>@name\<close> reference to an existing list, the list's values and manual additions
  less its manual removals. A removal always wins, and a reference to a missing list contributes
  nothing, so it fails closed.\<close>

theorem expandAllowed_values:
  "v \<in> set (expandAllowed dyn allowed) \<longleftrightarrow>
     (v \<in> set allowed \<and> \<not> startsWith v ''@'') \<or>
     (\<exists>n l. CHR ''@'' # n \<in> set allowed \<and> map_of (dl_lists dyn) n = Some l \<and>
        (v \<in> set (rl_values l) \<or> v \<in> set (rl_manualAdditions l)) \<and> v \<notin> set (rl_manualRemovals l))"
proof -
  let ?in = "\<lambda>x. v \<in> set (if startsWith x ''@'' then getEffectiveListValues (drop 1 x) dyn else [x])"
  have "v \<in> set (expandAllowed dyn allowed) \<longleftrightarrow> (\<exists>x \<in> set allowed. ?in x)"
    by (simp only: expandAllowed_def set_concat set_map UN_iff bex_simps image_image)
  also have "\<dots> \<longleftrightarrow> (\<exists>x \<in> set allowed. (x = v \<and> \<not> startsWith v ''@'') \<or>
      (\<exists>n. x = CHR ''@'' # n \<and> v \<in> set (getEffectiveListValues n dyn)))"
  proof (rule bex_cong [OF refl])
    show "?in x \<longleftrightarrow> (x = v \<and> \<not> startsWith v ''@'') \<or>
      (\<exists>n. x = CHR ''@'' # n \<and> v \<in> set (getEffectiveListValues n dyn))" for x
    proof (cases "startsWith x ''@''")
    case True
    then obtain n where "x = CHR ''@'' # n" by (auto simp: prefix_def)
    with True show ?thesis by auto
  next
    case False
    then have "x \<noteq> CHR ''@'' # n" for n by auto
    with False show ?thesis by auto
    qed
  qed
  also have "\<dots> \<longleftrightarrow> (v \<in> set allowed \<and> \<not> startsWith v ''@'') \<or>
      (\<exists>n. CHR ''@'' # n \<in> set allowed \<and> v \<in> set (getEffectiveListValues n dyn))"
    by blast
  finally show ?thesis by (simp only: getEffectiveListValues_mem ex_simps)
qed

end
