(* ===== verification/Approval_Whitelist.thy ===== *)
theory Approval_Whitelist
  imports Policy_Engine_Props
begin

text \<open>
  The session-scoped whitelist of approved escalations
  (\<open>src/trusted-process/approval-whitelist.ts\<close>): the constraints a pattern puts on argument roles,
  their extraction from an approved call, and the store with \<open>add\<close> and \<open>match\<close>. Identifiers and
  time stamps that the code draws are arguments; the store is its list of patterns.
\<close>

section \<open>Data\<close>

datatype WhitelistConstraint =
    DirectoryC (constraintRole: role) string
  | DomainC (constraintRole: role) string
  | ExactC (constraintRole: role) string

text \<open>\<open>Omit<WhitelistPattern, 'id'>\<close> and the pattern itself.\<close>

record pattern_data =
  wp_serverName :: string
  wp_toolName :: string
  wp_constraints :: "WhitelistConstraint list"
  wp_createdAt :: string
  wp_sourceEscalationId :: string
  wp_originalReason :: string
  wp_description :: string

record WhitelistPattern =
  wp_id :: string
  wp_data :: pattern_data

type_synonym ApprovalWhitelist = "WhitelistPattern list"

definition HISTORY_REWRITING_ROLES :: "role list" where
  "HISTORY_REWRITING_ROLES = [WriteHistory, DeleteHistory]"

section \<open>Matching a constraint\<close>

text \<open>The domain of a URL argument as both the extraction and the match compute it.\<close>

definition roleDomain :: "host \<Rightarrow> role \<Rightarrow> string \<Rightarrow> string" where
  "roleDomain h r v = extractDomainForRole h (canonicalize (roleDef r) h v) r"

definition constraintMatches ::
  "host \<Rightarrow> WhitelistConstraint \<Rightarrow> jsobj \<Rightarrow> tool_annotation \<Rightarrow> bool" where
  "constraintMatches h c args annotation =
     (let values = extractAnnotatedPaths args annotation [constraintRole c]
      in if values = [] then False
         else case c of
           DirectoryC r dir \<Rightarrow> list_all (\<lambda>v. isWithinDirectory h v dir) values
         | DomainC r domain \<Rightarrow> list_all (\<lambda>v. toLowerCase (roleDomain h r v) = toLowerCase domain) values
         | ExactC r val \<Rightarrow> list_all (\<lambda>v. toLowerCase v = toLowerCase val) values)"

section \<open>Extraction of candidates\<close>

definition buildConstraintForRole ::
  "host \<Rightarrow> role \<Rightarrow> role_category \<Rightarrow> string \<Rightarrow> WhitelistConstraint option" where
  "buildConstraintForRole h r cat value =
     (case cat of
        CatPath \<Rightarrow>
          (if r \<in> set HISTORY_REWRITING_ROLES then None
           else Some (DirectoryC r (dirname (resolveRealPath h value))))
      | CatUrl \<Rightarrow> Some (DomainC r (roleDomain h r value))
      | CatIdentifier \<Rightarrow> Some (ExactC r (toLowerCase value))
      | CatOpaque \<Rightarrow> None)"

fun constraintKey :: "WhitelistConstraint \<Rightarrow> string" where
  "constraintKey (DirectoryC r d) = ''dir:'' @ roleName r @ '':'' @ d"
| "constraintKey (DomainC r d) = ''dom:'' @ roleName r @ '':'' @ d"
| "constraintKey (ExactC r v) = ''exact:'' @ roleName r @ '':'' @ v"

text \<open>The body of the double loop, with the set \<open>seen\<close> of keys.\<close>

fun pushNew :: "WhitelistConstraint option list \<Rightarrow> string set \<Rightarrow> WhitelistConstraint list" where
  "pushNew [] seen = []"
| "pushNew (None # cs) seen = pushNew cs seen"
| "pushNew (Some c # cs) seen =
     (if constraintKey c \<in> seen then pushNew cs seen
      else c # pushNew cs (insert (constraintKey c) seen))"

definition buildConstraints ::
  "host \<Rightarrow> role list \<Rightarrow> jsobj \<Rightarrow> tool_annotation \<Rightarrow> WhitelistConstraint list" where
  "buildConstraints h roles args annotation =
     pushNew (concat (map (\<lambda>r. map (buildConstraintForRole h r (category (roleDef r)))
                                 (extractAnnotatedPaths args annotation [r])) roles)) {}"

fun describeConstraint :: "WhitelistConstraint \<Rightarrow> string" where
  "describeConstraint (DirectoryC r d) = roleName r @ '' within '' @ d"
| "describeConstraint (DomainC r d) = roleName r @ '' domain '' @ d"
| "describeConstraint (ExactC r v) = roleName r @ ''='' @ v"

definition buildDescription :: "string \<Rightarrow> string \<Rightarrow> WhitelistConstraint list \<Rightarrow> string" where
  "buildDescription srv tool constraints =
     ''Allow '' @ srv @ ''/'' @ tool @ '' '' @ joinWith '', '' (map describeConstraint constraints)"

text \<open>The patterns and the descriptions sent to the user.\<close>

definition extractWhitelistCandidates ::
  "host \<Rightarrow> string \<Rightarrow> string \<Rightarrow> string \<Rightarrow> jsobj \<Rightarrow> tool_annotation \<Rightarrow> role list option \<Rightarrow> string \<Rightarrow> string \<Rightarrow>
   pattern_data list \<times> string list" where
  "extractWhitelistCandidates h nowIso srv tool args annotation escalatedRoles escalationId escalationReason =
     (let rolesToExtract = (case escalatedRoles of Some rs \<Rightarrow> rs | None \<Rightarrow> collectDistinctRoles annotation);
          constraints = buildConstraints h rolesToExtract args annotation
      in if constraints = [] then ([], [])
         else let description = buildDescription srv tool constraints
              in ([\<lparr>wp_serverName = srv, wp_toolName = tool, wp_constraints = constraints,
                    wp_createdAt = nowIso, wp_sourceEscalationId = escalationId,
                    wp_originalReason = escalationReason, wp_description = description\<rparr>],
                  [description]))"

section \<open>The store\<close>

datatype whitelist_error = ZeroConstraints string string

definition createApprovalWhitelist :: ApprovalWhitelist where
  "createApprovalWhitelist = []"

text \<open>\<open>add\<close> with the identifier it draws; the error is the refusal of a pattern without constraints.\<close>

definition addPattern ::
  "ApprovalWhitelist \<Rightarrow> string \<Rightarrow> pattern_data \<Rightarrow> whitelist_error + (ApprovalWhitelist \<times> string)" where
  "addPattern wl newId d =
     (if wp_constraints d = [] then Inl (ZeroConstraints (wp_serverName d) (wp_toolName d))
      else Inr (wl @ [\<lparr>wp_id = newId, wp_data = d\<rparr>], newId))"

fun matchPattern ::
  "host \<Rightarrow> ApprovalWhitelist \<Rightarrow> string \<Rightarrow> string \<Rightarrow> jsobj \<Rightarrow> tool_annotation \<Rightarrow> WhitelistPattern option" where
  "matchPattern h [] srv tool args annotation = None"
| "matchPattern h (p # ps) srv tool args annotation =
     (if wp_serverName (wp_data p) \<noteq> srv then matchPattern h ps srv tool args annotation
      else if wp_toolName (wp_data p) \<noteq> tool then matchPattern h ps srv tool args annotation
      else if list_all (\<lambda>c. constraintMatches h c args annotation) (wp_constraints (wp_data p)) then Some p
      else matchPattern h ps srv tool args annotation)"

section \<open>Lemmas\<close>

lemma roleName_no_colon: "CHR '':'' \<notin> set (roleName r)"
  by (cases r) simp_all

lemma append_sep_inject:
  assumes "x @ c # y = x' @ c # y'" "c \<notin> set x" "c \<notin> set x'"
  shows "x = x' \<and> y = y'"
proof -
  have "takeWhile (\<lambda>a. a \<noteq> c) (x @ c # y) = x" "takeWhile (\<lambda>a. a \<noteq> c) (x' @ c # y') = x'"
    using assms(2,3) by (simp_all add: takeWhile_append)
  with assms(1) show ?thesis by simp
qed

lemma constraintKey_inject [simp]: "constraintKey c = constraintKey d \<longleftrightarrow> c = d"
proof
  have sep: "roleName r @ CHR '':'' # x = roleName r' @ CHR '':'' # x' \<Longrightarrow> r = r' \<and> x = x'" for r r' x x'
    using append_sep_inject [OF _ roleName_no_colon roleName_no_colon] by (metis roleName_inject)
  assume "constraintKey c = constraintKey d"
  then show "c = d" by (cases c; cases d) (simp_all, (drule sep, simp)+)
qed simp

lemma uniq_Cons: "uniq (x # xs) = x # filter (\<lambda>y. y \<noteq> x) (uniq xs)"
proof -
  have "remdups (ys @ [x]) = filter (\<lambda>y. y \<noteq> x) (remdups ys) @ [x]" for ys
    by (induction ys) auto
  then show ?thesis by (simp add: uniq_def rev_filter)
qed

lemma pushNew_uniq:
  "pushNew cs seen = filter (\<lambda>c. constraintKey c \<notin> seen) (uniq (List.map_filter id cs))"
proof (induction cs seen rule: pushNew.induct)
  case (3 c cs seen)
  have "filter (\<lambda>d. constraintKey d \<notin> insert (constraintKey c) seen) zs =
        filter (\<lambda>d. constraintKey d \<notin> seen) (filter (\<lambda>d. d \<noteq> c) zs)" for zs
    by (induction zs) auto
  moreover have "constraintKey c \<in> seen \<Longrightarrow>
      filter (\<lambda>d. constraintKey d \<notin> seen) (filter (\<lambda>d. d \<noteq> c) zs) = filter (\<lambda>d. constraintKey d \<notin> seen) zs" for zs
    by (induction zs) auto
  ultimately show ?case using 3 by (auto simp: uniq_Cons List.map_filter_simps)
qed (simp_all add: List.map_filter_simps uniq_def)

text \<open>Keys identify constraints, so the loop lists the distinct constraints in order.\<close>

lemma buildConstraints_uniq:
  "buildConstraints h roles args annotation =
   uniq (concat (map (\<lambda>r. List.map_filter (buildConstraintForRole h r (category (roleDef r)))
                           (extractAnnotatedPaths args annotation [r])) roles))"
proof -
  have "List.map_filter id (concat (map (\<lambda>r. map (f r) (g r)) rs)) =
        concat (map (\<lambda>r. List.map_filter (f r) (g r)) rs)" for f :: "role \<Rightarrow> string \<Rightarrow> WhitelistConstraint option" and g rs
    by (induction rs) (simp_all add: List.map_filter_def filter_map o_def)
  then show ?thesis by (simp add: buildConstraints_def pushNew_uniq)
qed

lemma buildConstraints_mem:
  "c \<in> set (buildConstraints h roles args annotation) \<longleftrightarrow>
   (\<exists>r \<in> set roles. \<exists>v \<in> set (extractAnnotatedPaths args annotation [r]).
      buildConstraintForRole h r (category (roleDef r)) v = Some c)"
  by (auto simp: buildConstraints_uniq List.map_filter_def image_iff) force+

lemma buildConstraintForRole_role:
  "buildConstraintForRole h r cat v = Some c \<Longrightarrow> constraintRole c = r"
  by (auto simp: buildConstraintForRole_def split: role_category.splits if_splits)

lemma constraintMatches_iff:
  "constraintMatches h c args annotation \<longleftrightarrow>
   (let vs = extractAnnotatedPaths args annotation [constraintRole c]
    in vs \<noteq> [] \<and> (\<forall>v \<in> set vs. case c of
         DirectoryC r dir \<Rightarrow> isWithinDirectory h v dir
       | DomainC r d \<Rightarrow> toLowerCase (roleDomain h r v) = toLowerCase d
       | ExactC r val \<Rightarrow> toLowerCase v = toLowerCase val))"
  by (cases c) (simp_all add: constraintMatches_def Let_def list_all_iff)

lemma matchPattern_SomeD:
  "matchPattern h wl srv tool args annotation = Some p \<Longrightarrow>
   p \<in> set wl \<and> wp_serverName (wp_data p) = srv \<and> wp_toolName (wp_data p) = tool \<and>
   (\<forall>c \<in> set (wp_constraints (wp_data p)). constraintMatches h c args annotation)"
  by (induction wl) (auto split: if_splits simp: list_all_iff)

lemma matchPattern_mem:
  "p \<in> set wl \<Longrightarrow> wp_serverName (wp_data p) = srv \<Longrightarrow> wp_toolName (wp_data p) = tool \<Longrightarrow>
   \<forall>c \<in> set (wp_constraints (wp_data p)). constraintMatches h c args annotation \<Longrightarrow>
   matchPattern h wl srv tool args annotation \<noteq> None"
  by (induction wl) (auto simp: list_all_iff)

text \<open>The store as a machine: a refused addition leaves it unchanged.\<close>

definition addStep :: "ApprovalWhitelist \<Rightarrow> string \<times> pattern_data \<Rightarrow> ApprovalWhitelist" where
  "addStep wl e = (case addPattern wl (fst e) (snd e) of Inl _ \<Rightarrow> wl | Inr (wl', _) \<Rightarrow> wl')"

definition constrained :: "ApprovalWhitelist \<Rightarrow> bool" where
  "constrained wl = list_all (\<lambda>p. wp_constraints (wp_data p) \<noteq> []) wl"

interpretation whitelist: invariant_machine addStep constrained createApprovalWhitelist
  by unfold_locales
    (auto simp: addStep_def constrained_def addPattern_def createApprovalWhitelist_def)

lemma addStep_mem:
  "p \<in> set (foldl addStep wl es) \<longleftrightarrow>
   p \<in> set wl \<or> (\<exists>(i, d) \<in> set es. wp_constraints d \<noteq> [] \<and> p = \<lparr>wp_id = i, wp_data = d\<rparr>)"
proof (induction es arbitrary: wl)
  case (Cons e es)
  then show ?case by (cases e) (auto simp: addStep_def addPattern_def)
qed simp

text \<open>The parent directory of a resolved path contains it, unless it is the root.\<close>

lemma within_dirname:
  assumes "hostOk h" "dirname (resolveRealPath h v) \<noteq> ''/''"
    and "resolveRealPath h (dirname (resolveRealPath h v)) = dirname (resolveRealPath h v)"
  shows "isWithinDirectory h v (dirname (resolveRealPath h v))"
proof -
  obtain segs where segs: "list_all cleanSeg segs" "resolveRealPath h v = absPath segs"
    using resolveRealPath_isCanonical [OF assms(1)] by (auto simp: isCanonical_def)
  show ?thesis
  proof (cases segs rule: rev_cases)
    case Nil
    then show ?thesis using assms(2) segs(2) by (simp add: dirname_def absPath_def)
  next
    case (snoc xs x)
    then have dir: "dirname (absPath segs) = absPath xs"
      using segs(1) by (simp add: dirname_absPath)
    then have "xs \<noteq> []" using assms(2) segs(2) by (auto simp: absPath_def)
    then have "absPath segs = absPath xs @ ''/'' @ x" using snoc by (simp add: absPath_snoc)
    then show ?thesis using assms(3) dir segs(2) by (simp add: isWithinDirectory_def)
  qed
qed

lemma built_constraint_matches:
  assumes "buildConstraintForRole h r (category (roleDef r)) v = Some c"
    and "extractAnnotatedPaths args annotation [r] \<noteq> []"
    and "set (extractAnnotatedPaths args annotation [r]) \<subseteq> {v}"
    and "r \<in> set getPathRoles \<Longrightarrow> isWithinDirectory h v (dirname (resolveRealPath h v))"
  shows "constraintMatches h c args annotation"
proof -
  have "\<forall>x \<in> set (extractAnnotatedPaths args annotation [r]). x = v" using assms(3) by auto
  moreover have "category (roleDef r) = CatPath \<Longrightarrow> r \<in> set getPathRoles"
    by (simp add: category_roleDef split: if_splits)
  ultimately show ?thesis
    using assms(1,2,4)
    by (auto simp: buildConstraintForRole_def constraintMatches_def Let_def list_all_iff toLowerCase_idem
        split: role_category.splits if_splits)
qed

lemma extracted_pattern:
  assumes "d \<in> set (fst (extractWhitelistCandidates h nowIso srv tool args annotation (Some roles) i rsn))"
  shows "wp_serverName d = srv" "wp_toolName d = tool" "wp_constraints d \<noteq> []"
    "wp_constraints d = buildConstraints h roles args annotation"
  using assms by (auto simp: extractWhitelistCandidates_def Let_def split: if_splits)

section \<open>Properties\<close>

text \<open>C10: soundness of a match. Whatever was added to the store in a session, a call matches only
  a pattern that was added for the same server and tool and has at least one constraint, and for
  every constraint of that pattern the call has values of its role, all of which satisfy it: they
  lie within the approved directory, have the approved domain, or equal the approved identifier up
  to case.\<close>

theorem whitelist_match_sound:
  assumes "matchPattern h (foldl addStep createApprovalWhitelist es) srv tool args annotation = Some p"
  shows "(wp_id p, wp_data p) \<in> set es \<and> wp_serverName (wp_data p) = srv \<and> wp_toolName (wp_data p) = tool \<and>
    wp_constraints (wp_data p) \<noteq> [] \<and>
    (\<forall>c \<in> set (wp_constraints (wp_data p)).
       let vs = extractAnnotatedPaths args annotation [constraintRole c]
       in vs \<noteq> [] \<and> (\<forall>v \<in> set vs. case c of
            DirectoryC r dir \<Rightarrow> isWithinDirectory h v dir
          | DomainC r d \<Rightarrow> toLowerCase (roleDomain h r v) = toLowerCase d
          | ExactC r val \<Rightarrow> toLowerCase v = toLowerCase val))"
proof -
  note m = matchPattern_SomeD [OF assms]
  have "constrained (foldl addStep createApprovalWhitelist es)" by (rule whitelist.inv_run)
  then have "wp_constraints (wp_data p) \<noteq> []" using m by (auto simp: constrained_def list_all_iff)
  moreover have "(wp_id p, wp_data p) \<in> set es"
    using m unfolding addStep_mem by (auto simp: createApprovalWhitelist_def)
  ultimately show ?thesis
    using m unfolding constraintMatches_iff by blast
qed

definition demoPattern :: "WhitelistConstraint list \<Rightarrow> pattern_data" where
  "demoPattern cs = \<lparr>wp_serverName = ''filesystem'', wp_toolName = ''write_file'', wp_constraints = cs,
     wp_createdAt = [], wp_sourceEscalationId = [], wp_originalReason = [], wp_description = []\<rparr>"

definition demoAnnotation :: "(string \<times> role list) list \<Rightarrow> tool_annotation" where
  "demoAnnotation as = \<lparr>ta_toolName = ''write_file'', ta_serverName = ''filesystem'', ta_comment = [], ta_args = as\<rparr>"

theorem whitelist_match_sound_witness:
  "\<exists>p :: WhitelistPattern. (wp_id p, wp_data p) \<in> set [(''w'', demoPattern [DirectoryC WritePath ''/etc''])] \<and>
     wp_constraints (wp_data p) \<noteq> [] \<and>
     (\<forall>v \<in> set (extractAnnotatedPaths [(''path'', JStr ''/s/l/x'')] (demoAnnotation [(''path'', [WritePath])]) [WritePath]).
        isWithinDirectory demoHost v ''/etc'')"
proof -
  let ?d = "demoPattern [DirectoryC WritePath ''/etc'']"
  have "matchPattern demoHost (foldl addStep createApprovalWhitelist [(''w'', ?d)]) ''filesystem'' ''write_file''
      [(''path'', JStr ''/s/l/x'')] (demoAnnotation [(''path'', [WritePath])]) = Some \<lparr>wp_id = ''w'', wp_data = ?d\<rparr>"
    by code_simp
  note sound = whitelist_match_sound [OF this, unfolded Let_def]
  have "DirectoryC WritePath ''/etc'' \<in> set (wp_constraints (wp_data \<lparr>wp_id = ''w'', wp_data = ?d\<rparr>))"
    by (simp add: demoPattern_def)
  with sound have "\<forall>v \<in> set (extractAnnotatedPaths [(''path'', JStr ''/s/l/x'')]
      (demoAnnotation [(''path'', [WritePath])]) [constraintRole (DirectoryC WritePath ''/etc'')]).
      isWithinDirectory demoHost v ''/etc''"
    by (metis WhitelistConstraint.simps(10))
  then show ?thesis
    using sound by (intro exI [of _ "\<lparr>wp_id = ''w'', wp_data = ?d\<rparr>"] conjI) (simp_all only: WhitelistConstraint.sel simp_thms)
qed

text \<open>An approval is usable. When every escalated role of an approved call has one value, the
  pattern extracted from the call, once added, matches the same call again. For a path this needs
  the parent directory of the resolved path to be its own real path and not the root.\<close>

theorem whitelist_self_match:
  assumes "hostOk h"
    and "d \<in> set (fst (extractWhitelistCandidates h nowIso srv tool args annotation (Some roles) i rsn))"
    and single: "\<And>r. r \<in> set roles \<Longrightarrow> \<exists>v. set (extractAnnotatedPaths args annotation [r]) \<subseteq> {v}"
    and parent: "\<And>r v. r \<in> set roles \<Longrightarrow> r \<in> set getPathRoles \<Longrightarrow> v \<in> set (extractAnnotatedPaths args annotation [r]) \<Longrightarrow>
        dirname (resolveRealPath h v) \<noteq> ''/'' \<and>
        resolveRealPath h (dirname (resolveRealPath h v)) = dirname (resolveRealPath h v)"
  shows "\<exists>wl'. addPattern wl newId d = Inr (wl', newId) \<and> matchPattern h wl' srv tool args annotation \<noteq> None"
proof -
  note d = extracted_pattern [OF assms(2)]
  have "constraintMatches h c args annotation" if c: "c \<in> set (wp_constraints d)" for c
  proof -
    obtain r v where rv: "r \<in> set roles" "v \<in> set (extractAnnotatedPaths args annotation [r])"
      "buildConstraintForRole h r (category (roleDef r)) v = Some c"
      using c unfolding d(4) buildConstraints_mem by blast
    have "set (extractAnnotatedPaths args annotation [r]) \<subseteq> {v}" using single [OF rv(1)] rv(2) by auto
    moreover have "isWithinDirectory h v (dirname (resolveRealPath h v))" if "r \<in> set getPathRoles"
      using parent [OF rv(1) that rv(2)] within_dirname [OF assms(1)] by blast
    ultimately show ?thesis using built_constraint_matches rv(2,3) by (metis empty_iff empty_set)
  qed
  then have "matchPattern h (wl @ [\<lparr>wp_id = newId, wp_data = d\<rparr>]) srv tool args annotation \<noteq> None"
    using d by (intro matchPattern_mem [of "\<lparr>wp_id = newId, wp_data = d\<rparr>"]) auto
  then show ?thesis using d(3) by (simp add: addPattern_def)
qed

theorem whitelist_self_match_witness:
  "\<exists>d wl'. addPattern [] ''w'' d = Inr (wl', ''w'') \<and>
     matchPattern demoHost wl' ''filesystem'' ''write_file'' [(''path'', JStr ''l/x'')]
       (demoAnnotation [(''path'', [WritePath])]) \<noteq> None"
proof -
  let ?ann = "demoAnnotation [(''path'', [WritePath])]" and ?args = "[(''path'', JStr ''l/x'')] :: jsobj"
  have vs: "extractAnnotatedPaths ?args ?ann [WritePath] = [''l/x'']" by code_simp
  let ?d = "hd (fst (extractWhitelistCandidates demoHost [] ''filesystem'' ''write_file'' ?args ?ann (Some [WritePath]) [] []))"
  have "fst (extractWhitelistCandidates demoHost [] ''filesystem'' ''write_file'' ?args ?ann (Some [WritePath]) [] []) \<noteq> []"
    by code_simp
  then have "?d \<in> set (fst (extractWhitelistCandidates demoHost [] ''filesystem'' ''write_file'' ?args ?ann (Some [WritePath]) [] []))"
    by (rule hd_in_set)
  moreover have "dirname (resolveRealPath demoHost ''l/x'') = ''/etc''" "resolveRealPath demoHost ''/etc'' = ''/etc''"
    by code_simp+
  ultimately have "\<exists>wl'. addPattern [] ''w'' ?d = Inr (wl', ''w'') \<and>
      matchPattern demoHost wl' ''filesystem'' ''write_file'' ?args ?ann \<noteq> None"
    using vs by (intro whitelist_self_match [OF demoHost_ok]) auto
  then show ?thesis by blast
qed

text \<open>An approved call with values of one role in two unrelated directories is never matched by
  the pattern extracted from it: each directory becomes a constraint and every value must satisfy
  every constraint.\<close>

theorem whitelist_two_directories_no_match:
  assumes "r \<in> set roles" "r \<in> set getPathRoles" "r \<notin> set HISTORY_REWRITING_ROLES"
    and "v \<in> set (extractAnnotatedPaths args annotation [r])" "v' \<in> set (extractAnnotatedPaths args annotation [r])"
    and "\<not> isWithinDirectory h v' (dirname (resolveRealPath h v))"
    and "d \<in> set (fst (extractWhitelistCandidates h nowIso srv tool args annotation (Some roles) i rsn))"
  shows "matchPattern h [\<lparr>wp_id = newId, wp_data = d\<rparr>] srv tool args annotation = None"
proof -
  let ?c = "DirectoryC r (dirname (resolveRealPath h v))"
  have "buildConstraintForRole h r (category (roleDef r)) v = Some ?c"
    using assms(2,3) by (simp add: buildConstraintForRole_def category_roleDef)
  then have "?c \<in> set (wp_constraints d)"
    using assms(1,4) unfolding extracted_pattern(4) [OF assms(7)] buildConstraints_mem by blast
  moreover have "\<not> constraintMatches h ?c args annotation"
    using assms(5,6) by (auto simp: constraintMatches_def Let_def list_all_iff)
  ultimately show ?thesis by (auto simp: list_all_iff)
qed

theorem whitelist_two_directories_no_match_witness:
  "\<exists>d. matchPattern demoHost [\<lparr>wp_id = ''w'', wp_data = d\<rparr>] ''filesystem'' ''write_file''
     [(''paths'', JArr [JStr ''/a/x'', JStr ''/b/y''])] (demoAnnotation [(''paths'', [WritePath])]) = None"
proof -
  let ?ann = "demoAnnotation [(''paths'', [WritePath])]"
  let ?args = "[(''paths'', JArr [JStr ''/a/x'', JStr ''/b/y''])] :: jsobj"
  let ?ps = "fst (extractWhitelistCandidates demoHost [] ''filesystem'' ''write_file'' ?args ?ann (Some [WritePath]) [] [])"
  have "?ps \<noteq> []" by code_simp
  then have d: "hd ?ps \<in> set ?ps" by (rule hd_in_set)
  have "matchPattern demoHost [\<lparr>wp_id = ''w'', wp_data = hd ?ps\<rparr>] ''filesystem'' ''write_file'' ?args ?ann = None"
  proof (rule whitelist_two_directories_no_match [OF _ _ _ _ _ _ d])
    show "WritePath \<in> set getPathRoles" "WritePath \<notin> set HISTORY_REWRITING_ROLES" by code_simp+
    show "''/a/x'' \<in> set (extractAnnotatedPaths ?args ?ann [WritePath])"
      "''/b/y'' \<in> set (extractAnnotatedPaths ?args ?ann [WritePath])" by code_simp+
    show "\<not> isWithinDirectory demoHost ''/b/y'' (dirname (resolveRealPath demoHost ''/a/x''))" by code_simp
  qed simp
  then show ?thesis by blast
qed

text \<open>A pattern constrains only the escalated roles that are not history-rewriting roles. Two
  calls that agree on the values of those roles are matched alike, whatever their other arguments
  are: after an approval of a call that escalated on a path and on a history role, the same path
  with any other repository to rewrite is whitelisted.\<close>

theorem whitelist_ignores_other_roles:
  assumes "d \<in> set (fst (extractWhitelistCandidates h nowIso srv tool args annotation (Some roles) i rsn))"
    and "\<forall>r \<in> set roles - set HISTORY_REWRITING_ROLES.
           extractAnnotatedPaths args' annotation [r] = extractAnnotatedPaths args annotation [r]"
  shows "matchPattern h [\<lparr>wp_id = newId, wp_data = d\<rparr>] srv tool args' annotation =
         matchPattern h [\<lparr>wp_id = newId, wp_data = d\<rparr>] srv tool args annotation"
proof -
  have "constraintMatches h c args' annotation = constraintMatches h c args annotation"
    if c: "c \<in> set (wp_constraints d)" for c
  proof -
    obtain r v where rv: "r \<in> set roles" "buildConstraintForRole h r (category (roleDef r)) v = Some c"
      using c unfolding extracted_pattern(4) [OF assms(1)] buildConstraints_mem by blast
    have "r \<notin> set HISTORY_REWRITING_ROLES"
      using rv(2) by (auto simp: buildConstraintForRole_def category_roleDef getPathRoles_eq HISTORY_REWRITING_ROLES_def)
    then show ?thesis
      using assms(2) rv(1) buildConstraintForRole_role [OF rv(2)] by (auto simp: constraintMatches_def Let_def)
  qed
  then have "list_all (\<lambda>c. constraintMatches h c args' annotation) (wp_constraints d) =
      list_all (\<lambda>c. constraintMatches h c args annotation) (wp_constraints d)"
    by (auto simp: list_all_iff)
  then show ?thesis by simp
qed

theorem whitelist_ignores_other_roles_witness:
  "\<exists>d. matchPattern demoHost [\<lparr>wp_id = ''w'', wp_data = d\<rparr>] ''git'' ''git_rm''
     [(''file'', JStr ''/b/x''), (''repo'', JStr ''/another/repo'')]
     (demoAnnotation [(''file'', [WritePath]), (''repo'', [WriteHistory])]) = Some \<lparr>wp_id = ''w'', wp_data = d\<rparr>"
proof -
  let ?ann = "demoAnnotation [(''file'', [WritePath]), (''repo'', [WriteHistory])]"
  let ?args = "\<lambda>repo. [(''file'', JStr ''/b/x''), (''repo'', JStr repo)] :: jsobj"
  let ?ps = "fst (extractWhitelistCandidates demoHost [] ''git'' ''git_rm'' (?args ''/b'') ?ann (Some [WritePath, WriteHistory]) [] [])"
  have "?ps \<noteq> []" by code_simp
  then have d: "hd ?ps \<in> set ?ps" by (rule hd_in_set)
  have "set [WritePath, WriteHistory] - set HISTORY_REWRITING_ROLES = {WritePath}" by code_simp
  moreover have "extractAnnotatedPaths (?args ''/another/repo'') ?ann [WritePath] = extractAnnotatedPaths (?args ''/b'') ?ann [WritePath]"
    by code_simp
  ultimately have "matchPattern demoHost [\<lparr>wp_id = ''w'', wp_data = hd ?ps\<rparr>] ''git'' ''git_rm'' (?args ''/another/repo'') ?ann =
    matchPattern demoHost [\<lparr>wp_id = ''w'', wp_data = hd ?ps\<rparr>] ''git'' ''git_rm'' (?args ''/b'') ?ann"
    by (intro whitelist_ignores_other_roles [OF d]) simp
  moreover have "matchPattern demoHost [\<lparr>wp_id = ''w'', wp_data = hd ?ps\<rparr>] ''git'' ''git_rm'' (?args ''/b'') ?ann = Some \<lparr>wp_id = ''w'', wp_data = hd ?ps\<rparr>"
    by code_simp
  ultimately have "matchPattern demoHost [\<lparr>wp_id = ''w'', wp_data = hd ?ps\<rparr>] ''git'' ''git_rm'' (?args ''/another/repo'') ?ann =
    Some \<lparr>wp_id = ''w'', wp_data = hd ?ps\<rparr>" by (rule trans)
  then show ?thesis by (rule exI [of _ "hd ?ps"])
qed

end
