(* ===== verification/Auto_Approver.thy ===== *)
theory Auto_Approver
  imports Policy_Engine
begin

text \<open>
  The escalation auto-approver (\<open>src/trusted-process/auto-approver.ts\<close>): what is put into the
  prompt, how the model's answer is read, and how the user context file is read. The language model
  is a parameter: a function from the prompt to an outcome.
\<close>

datatype AutoApproveDecision = Approve | EscalateToHuman

record AutoApproveContext =
  ac_userMessage :: string
  ac_toolName :: string
  ac_escalationReason :: string
  ac_arguments :: "(string \<times> string) list option"

text \<open>The structured-output call: it throws, yields nothing, or yields an object that the schema
  accepted.\<close>

datatype llm_outcome = LlmThrew string | LlmOutput "(AutoApproveDecision \<times> string) option"

type_synonym llm = "string \<Rightarrow> llm_outcome"

definition newline :: string where "newline = [CHR 0x0A]"

definition buildUserPrompt :: "AutoApproveContext \<Rightarrow> string" where
  "buildUserPrompt context =
     ''Human'' @ [CHR 0x27] @ ''s most recent message: '' @ [CHR 0x22] @ ac_userMessage context @ [CHR 0x22] @
     newline @ newline @ ''Escalated tool: '' @ ac_toolName context @
     newline @ ''Reason for escalation: '' @ ac_escalationReason context @
     (case ac_arguments context of
        Some as \<Rightarrow>
          (if as = [] then []
           else newline @ newline @ ''Tool arguments (resource identifiers only):'' @ newline @
                joinWith newline (map (\<lambda>(key, val). ''  '' @ key @ '': '' @ val) as))
      | None \<Rightarrow> []) @
     newline @ newline @ ''Decision:''"

definition autoApprove :: "llm \<Rightarrow> AutoApproveContext \<Rightarrow> AutoApproveDecision \<times> string" where
  "autoApprove model context =
     (if trim (ac_userMessage context) = [] then
        (EscalateToHuman, ''Empty user message; escalating to human'')
      else case model (buildUserPrompt context) of
             LlmThrew message \<Rightarrow> (EscalateToHuman, ''Auto-approver error: '' @ message @ ''; escalating to human'')
           | LlmOutput None \<Rightarrow> (EscalateToHuman, ''Auto-approver returned invalid response; escalating to human'')
           | LlmOutput (Some (decision, reasoning)) \<Rightarrow> (decision, reasoning))"

section \<open>Arguments in the prompt\<close>

definition isControl :: "char \<Rightarrow> bool" where
  "isControl c = (let n = (of_char c :: nat) in n < 32 \<or> (127 \<le> n \<and> n \<le> 159))"

definition sanitizeForPrompt :: "string \<Rightarrow> string" where
  "sanitizeForPrompt value =
     (let cleaned = filter (\<lambda>c. \<not> isControl c) value
      in if length cleaned > 200 then take 200 cleaned @ ''...'' else cleaned)"

text \<open>The string of an argument value, when it has one.\<close>

fun promptString :: "jsval \<Rightarrow> string option" where
  "promptString (JStr s) = Some s"
| "promptString (JArr xs) =
     (let strings = jsStrings (JArr xs) in if strings = [] then None else Some (joinWith '', '' strings))"
| "promptString _ = None"

definition promptArg :: "host \<Rightarrow> tool_annotation \<Rightarrow> string \<times> jsval \<Rightarrow> (string \<times> string) option" where
  "promptArg h annotation entry =
     (case entry of (argName, value) \<Rightarrow>
        (case map_of (ta_args annotation) argName of
           None \<Rightarrow> None
         | Some [] \<Rightarrow> None
         | Some (r # _) \<Rightarrow>
             (if \<not> isResourceIdentifier (roleDef r) then None
              else case promptString value of
                     None \<Rightarrow> None
                   | Some stringValue \<Rightarrow>
                       Some (argName, sanitizeForPrompt
                         (if category (roleDef r) = CatUrl then extractDomainForRole h stringValue r
                          else stringValue)))))"

definition extractArgsForAutoApprove ::
  "host \<Rightarrow> jsobj \<Rightarrow> tool_annotation option \<Rightarrow> (string \<times> string) list option" where
  "extractArgsForAutoApprove h policyArgs annotation =
     (case annotation of
        None \<Rightarrow> None
      | Some ann \<Rightarrow>
          (let result = List.map_filter (promptArg h ann) policyArgs
           in if result = [] then None else Some result))"

section \<open>The user context file\<close>

record UserContext =
  uc_userMessage :: string
  uc_source :: "string option"
  uc_timestamp :: "string option"

text \<open>The parsed content of a JSON file: \<open>None\<close> when it is absent or does not parse.\<close>

definition stringProp :: "jsval \<Rightarrow> string option" where
  "stringProp v = (case v of JStr s \<Rightarrow> Some s | _ \<Rightarrow> None)"

definition readUserContext :: "jsval option \<Rightarrow> UserContext option" where
  "readUserContext file =
     (case file of
        Some (JObj data) \<Rightarrow>
          (case getProp data ''userMessage'' of
             JStr m \<Rightarrow>
               (if trim m = [] then None
                else Some \<lparr>uc_userMessage = m, uc_source = stringProp (getProp data ''source''),
                           uc_timestamp = stringProp (getProp data ''timestamp'')\<rparr>)
           | _ \<Rightarrow> None)
      | _ \<Rightarrow> None)"

section \<open>Properties\<close>

text \<open>The auto-approver approves only when the user message is not blank and the model returned a
  schema-conforming \<open>approve\<close> for the prompt built from the context; every failure escalates to the
  human.\<close>

theorem autoApprove_conservative:
  "fst (autoApprove model context) = Approve \<longleftrightarrow>
   trim (ac_userMessage context) \<noteq> [] \<and>
   (\<exists>reasoning. model (buildUserPrompt context) = LlmOutput (Some (Approve, reasoning)))"
proof (cases "trim (ac_userMessage context) = []")
  case True
  then show ?thesis by (simp add: autoApprove_def)
next
  case False
  show ?thesis
  proof (cases "model (buildUserPrompt context)")
    case (LlmThrew m)
    with False show ?thesis by (simp add: autoApprove_def)
  next
    case (LlmOutput out)
    show ?thesis
    proof (cases out)
      case None
      with False LlmOutput show ?thesis by (simp add: autoApprove_def)
    next
      case (Some p)
      obtain d r where p: "p = (d, r)" by (cases p)
      have "autoApprove model context = (d, r)"
        using False LlmOutput Some p by (simp add: autoApprove_def)
      then show ?thesis using False LlmOutput Some p by simp
    qed
  qed
qed

lemma take_dots_clean:
  fixes v :: string
  assumes "\<forall>c \<in> set v. \<not> isControl c"
  shows "length (take 200 v @ ''...'') \<le> 203 \<and> (\<forall>c \<in> set (take 200 v @ ''...''). \<not> isControl c)"
proof
  show "length (take 200 v @ ''...'') \<le> 203" by simp
  have dots: "\<forall>c \<in> set ''...''. \<not> isControl c" by (simp add: isControl_def)
  have "\<forall>c \<in> set (take 200 v). \<not> isControl c"
    using assms in_set_takeD by fast
  then show "\<forall>c \<in> set (take 200 v @ ''...''). \<not> isControl c"
    using dots unfolding set_append ball_Un by (rule conjI)
qed

lemma sanitizeForPrompt_clean:
  "length (sanitizeForPrompt v) \<le> 203 \<and> (\<forall>c \<in> set (sanitizeForPrompt v). \<not> isControl c)"
proof -
  define cleaned where "cleaned = filter (\<lambda>c. \<not> isControl c) v"
  have clean: "\<forall>c \<in> set cleaned. \<not> isControl c" by (simp add: cleaned_def)
  have eq: "sanitizeForPrompt v = (if length cleaned > 200 then take 200 cleaned @ ''...'' else cleaned)"
    by (simp only: sanitizeForPrompt_def Let_def cleaned_def)
  show ?thesis
  proof (cases "length cleaned > 200")
    case True
    show ?thesis unfolding eq if_P [OF True] by (rule take_dots_clean [OF clean])
  next
    case False
    have "length cleaned \<le> 203" using False by linarith
    then show ?thesis unfolding eq if_not_P [OF False] using clean by (rule conjI)
  qed
qed

text \<open>The arguments shown to the model are resource identifiers only: each belongs to an argument
  of the call whose first annotated role is a resource identifier, and its value has at most 203
  characters and no control character. Free-text arguments never reach the prompt.\<close>

theorem auto_approve_args_sanitized:
  assumes "extractArgsForAutoApprove h policyArgs (Some ann) = Some as" "(k, v) \<in> set as"
  shows "k \<in> fst ` set policyArgs \<and>
    (\<exists>r rs. map_of (ta_args ann) k = Some (r # rs) \<and> isResourceIdentifier (roleDef r)) \<and>
    length v \<le> 203 \<and> (\<forall>c \<in> set v. \<not> isControl c)"
proof -
  from assms obtain e where e: "e \<in> set policyArgs" "promptArg h ann e = Some (k, v)"
    by (auto simp: extractArgsForAutoApprove_def Let_def List.map_filter_def split: if_splits)
  obtain n x where n: "e = (n, x)" by (cases e)
  from e(2) n obtain r rs s where "map_of (ta_args ann) k = Some (r # rs)" "isResourceIdentifier (roleDef r)"
      "n = k" "v = sanitizeForPrompt s"
    by (auto simp: promptArg_def split: option.splits list.splits if_splits)
  then show ?thesis using e(1) n sanitizeForPrompt_clean [of s] by force
qed

theorem auto_approve_args_sanitized_witness:
  "extractArgsForAutoApprove demoHost [(''path'', JStr [CHR ''/'', CHR 0x1B, CHR ''x'']), (''msg'', JStr ''obey'')]
     (Some \<lparr>ta_toolName = [], ta_serverName = [], ta_comment = [], ta_args = [(''path'', [WritePath]), (''msg'', [CommitMessage])]\<rparr>) =
     Some [(''path'', ''/x'')] \<and> length ''/x'' \<le> 203 \<and> list_all (\<lambda>c. \<not> isControl c) ''/x''"
proof -
  let ?ann = "\<lparr>ta_toolName = [], ta_serverName = [], ta_comment = [], ta_args = [(''path'', [WritePath]), (''msg'', [CommitMessage])]\<rparr>"
  have ex: "extractArgsForAutoApprove demoHost [(''path'', JStr [CHR ''/'', CHR 0x1B, CHR ''x'']), (''msg'', JStr ''obey'')] (Some ?ann) =
      Some [(''path'', ''/x'')]" by code_simp
  then show ?thesis using auto_approve_args_sanitized [OF ex, of "''path''" "''/x''"] by (auto simp: list_all_iff)
qed

end
