(* ===== verification/Hash.thy ===== *)
theory Hash
  imports IC_Prelude "HOL-Library.Multiset" "HOL-Library.Char_ord" "HOL-Library.List_Lexorder"
begin

text \<open>
  Deterministic serialisation and hashing (\<open>src/hash.ts\<close>), which the circuit breaker and the loop
  detector use as the identity of a call. The digest function and the decimal notation of a number
  are what the runtime provides and are parameters.
\<close>

record runtime =
  sha256 :: "string \<Rightarrow> string"
  showNum :: "rat \<Rightarrow> string"

section \<open>JSON.stringify on primitives\<close>

definition hexDigit :: "nat \<Rightarrow> char" where
  "hexDigit n = (if n < 10 then char_of (48 + n) else char_of (87 + n))"

definition jsonChar :: "char \<Rightarrow> string" where
  "jsonChar c =
     (let n = (of_char c :: nat)
      in if n = 34 then [CHR 0x5C, CHR 0x22]
         else if n = 92 then [CHR 0x5C, CHR 0x5C]
         else if n = 8 then [CHR 0x5C, CHR ''b'']
         else if n = 12 then [CHR 0x5C, CHR ''f'']
         else if n = 10 then [CHR 0x5C, CHR ''n'']
         else if n = 13 then [CHR 0x5C, CHR ''r'']
         else if n = 9 then [CHR 0x5C, CHR ''t'']
         else if n < 32 then CHR 0x5C # ''u00'' @ [hexDigit (n div 16), hexDigit (n mod 16)]
         else [c])"

definition jsonString :: "string \<Rightarrow> string" where
  "jsonString s = CHR 0x22 # concat (map jsonChar s) @ [CHR 0x22]"

definition orEmpty :: "string option \<Rightarrow> string" where
  "orEmpty x = (case x of Some s \<Rightarrow> s | None \<Rightarrow> [])"

text \<open>The keys of an object are distinct, so sorting the entries by key visits the values in the
  order of the sorted keys.\<close>

fun stableStringify :: "runtime \<Rightarrow> jsval \<Rightarrow> string option" where
  "stableStringify rt JUndefined = None"
| "stableStringify rt JNull = Some ''null''"
| "stableStringify rt (JBool b) = Some (if b then ''true'' else ''false'')"
| "stableStringify rt (JNum n) = Some (showNum rt n)"
| "stableStringify rt (JStr s) = Some (jsonString s)"
| "stableStringify rt (JArr xs) =
     Some (''['' @ joinWith '','' (map (\<lambda>x. orEmpty (stableStringify rt x)) xs) @ '']'')"
| "stableStringify rt (JObj ps) =
     Some (''{'' @ joinWith '',''
       (map (\<lambda>(k, s). jsonString k @ '':'' @ orEmpty s)
         (sort_key fst (map (\<lambda>(k, v). (k, stableStringify rt v)) ps))) @ ''}'')"

text \<open>\<open>JSON.stringify\<close>: an undefined property is left out, an undefined element is \<open>null\<close>.\<close>

fun jsonStringify :: "runtime \<Rightarrow> jsval \<Rightarrow> string option" where
  "jsonStringify rt JUndefined = None"
| "jsonStringify rt JNull = Some ''null''"
| "jsonStringify rt (JBool b) = Some (if b then ''true'' else ''false'')"
| "jsonStringify rt (JNum n) = Some (showNum rt n)"
| "jsonStringify rt (JStr s) = Some (jsonString s)"
| "jsonStringify rt (JArr xs) =
     Some (''['' @ joinWith '','' (map (\<lambda>x. case jsonStringify rt x of Some s \<Rightarrow> s | None \<Rightarrow> ''null'') xs) @ '']'')"
| "jsonStringify rt (JObj ps) =
     Some (''{'' @ joinWith '','' (concat (map (\<lambda>(k, v).
       case jsonStringify rt v of Some s \<Rightarrow> [jsonString k @ '':'' @ s] | None \<Rightarrow> []) ps)) @ ''}'')"

definition computeHash :: "runtime \<Rightarrow> jsval \<Rightarrow> string" where
  "computeHash rt value = sha256 rt (orEmpty (stableStringify rt value))"

section \<open>Lemmas\<close>

lemma sort_key_fst_mset:
  assumes "mset xs = mset ys" "distinct (map fst xs)"
  shows "sort_key fst xs = sort_key fst (ys :: ('a :: linorder \<times> 'b) list)"
proof (rule properties_for_sort_key [symmetric])
  show "mset (sort_key fst xs) = mset ys" using assms(1) by simp
  show "sorted (map fst (sort_key fst xs))" by simp
  show "filter (\<lambda>x. fst p = fst x) (sort_key fst xs) = filter (\<lambda>x. fst p = fst x) ys" if "p \<in> set (sort_key fst xs)" for p
  proof -
    have single: "filter (\<lambda>x. fst p = fst x) zs = [p]" if "distinct (map fst zs)" "p \<in> set zs" for zs
      using that by (induction zs) (auto simp: filter_empty_conv image_iff)
    have "distinct (map fst ys)"
      using assms by (metis mset_eq_imp_distinct_iff mset_map)
    moreover have "distinct (map fst (sort_key fst xs))"
      using assms(2) by (metis mset_eq_imp_distinct_iff mset_map mset_sort)
    moreover have "p \<in> set ys" using that assms(1) by (metis mset_eq_setD set_sort)
    ultimately show ?thesis using single that by metis
  qed
qed

section \<open>Properties\<close>

text \<open>The serialisation (and so the hash) of an object does not depend on the order of its
  keys: two objects with the same entries in any order are the same call.\<close>

theorem computeHash_key_order:
  assumes "mset ps = mset qs" "distinct (map fst ps)"
  shows "computeHash rt (JObj ps) = computeHash rt (JObj qs)"
proof -
  let ?f = "\<lambda>(k, v). (k, stableStringify rt v)"
  have "mset (map ?f ps) = mset (map ?f qs)" using assms(1) by simp
  moreover have "map fst (map ?f ps) = map fst ps" by (induction ps) auto
  then have "distinct (map fst (map ?f ps))" using assms(2) by (simp only:)
  ultimately have "sort_key fst (map ?f ps) = sort_key fst (map ?f qs)"
    by (rule sort_key_fst_mset)
  then show ?thesis by (simp add: computeHash_def)
qed

theorem computeHash_key_order_witness:
  "computeHash \<lparr>sha256 = id, showNum = (\<lambda>_. ''1'')\<rparr> (JObj [(''a'', JNum 1), (''b'', JNull)]) =
   computeHash \<lparr>sha256 = id, showNum = (\<lambda>_. ''1'')\<rparr> (JObj [(''b'', JNull), (''a'', JNum 1)])"
  by (rule computeHash_key_order) simp_all

end
