(* ===== verification/Call_Circuit_Breaker.thy ===== *)
theory Call_Circuit_Breaker
  imports Hash
begin

text \<open>
  The proxy-level rate limiter (\<open>src/trusted-process/call-circuit-breaker.ts\<close>): a sliding window of
  time stamps per pair of a tool and the hash of its arguments. The clock reading is an argument of
  \<open>check\<close>. The reference limiter below keeps the whole log of admitted calls and counts; the pruned
  windows of the code are shown to decide exactly as it does.
\<close>

section \<open>Error prefixes\<close>

definition ERROR_PREFIX_DENIED :: string where "ERROR_PREFIX_DENIED = ''DENIED:''"
definition ERROR_PREFIX_ESCALATION_REQUIRED :: string where
  "ERROR_PREFIX_ESCALATION_REQUIRED = ''ESCALATION REQUIRED:''"
definition ERROR_PREFIX_ESCALATION_DENIED :: string where
  "ERROR_PREFIX_ESCALATION_DENIED = ''ESCALATION DENIED:''"
definition ERROR_PREFIX_CIRCUIT_BREAKER :: string where
  "ERROR_PREFIX_CIRCUIT_BREAKER = ''CIRCUIT BREAKER:''"
definition ERROR_PREFIX_UNKNOWN_ARGS :: string where
  "ERROR_PREFIX_UNKNOWN_ARGS = ''Unknown argument(s):''"
definition ERROR_PREFIX_MISSING_ANNOTATION :: string where
  "ERROR_PREFIX_MISSING_ANNOTATION = ''Missing annotation for tool:''"

section \<open>State\<close>

text \<open>The configuration after the constructor has made the counts positive integers.\<close>

record CircuitBreakerConfig =
  windowMs :: rat
  threshold :: int
  workerCount :: int

text \<open>\<open>Partial<CircuitBreakerConfig>\<close>, the constructor's argument.\<close>

record breaker_options =
  optWindowMs :: "rat option"
  optThreshold :: "rat option"
  optWorkerCount :: "rat option"

datatype CircuitBreakerVerdict = BreakerAllowed | BreakerRefused (breakerReason: string)

record CallCircuitBreaker =
  breakerConfig :: CircuitBreakerConfig
  windows :: "string \<rightharpoonup> rat list"

definition newCallCircuitBreaker :: "breaker_options \<Rightarrow> CallCircuitBreaker" where
  "newCallCircuitBreaker o' =
     (let w = (case optWindowMs o' of Some x \<Rightarrow> x | None \<Rightarrow> 60000);
          t = (case optThreshold o' of Some x \<Rightarrow> x | None \<Rightarrow> 20);
          n = (case optWorkerCount o' of Some x \<Rightarrow> x | None \<Rightarrow> 1)
      in \<lparr>breakerConfig = \<lparr>windowMs = w, threshold = max 1 \<lfloor>t\<rfloor>, workerCount = max 1 \<lfloor>n\<rfloor>\<rparr>,
          windows = Map.empty\<rparr>)"

section \<open>Operations\<close>

definition effectiveThreshold :: "CallCircuitBreaker \<Rightarrow> int" where
  "effectiveThreshold b = threshold (breakerConfig b) * workerCount (breakerConfig b)"

text \<open>\<open>xs.findIndex(p)\<close>, with \<open>-1\<close> for no index.\<close>

fun findIndex :: "('a \<Rightarrow> bool) \<Rightarrow> 'a list \<Rightarrow> int" where
  "findIndex p [] = -1"
| "findIndex p (x # xs) =
     (if p x then 0 else (let i = findIndex p xs in if i = -1 then -1 else i + 1))"

definition pruneTimestamps :: "rat \<Rightarrow> rat list \<Rightarrow> rat list" where
  "pruneTimestamps cutoff timestamps =
     (let firstValid = findIndex (\<lambda>t. t > cutoff) timestamps
      in if firstValid > 0 then drop (nat firstValid) timestamps
         else if firstValid = -1 then []
         else timestamps)"

definition breakerKey :: "runtime \<Rightarrow> string \<Rightarrow> jsobj \<Rightarrow> string" where
  "breakerKey rt toolName args = toolName @ '':'' @ computeHash rt (JObj args)"

definition check ::
  "runtime \<Rightarrow> CallCircuitBreaker \<Rightarrow> rat \<Rightarrow> string \<Rightarrow> jsobj \<Rightarrow> CallCircuitBreaker \<times> CircuitBreakerVerdict" where
  "check rt b now toolName args =
     (let key = breakerKey rt toolName args;
          cutoff = now - windowMs (breakerConfig b);
          timestamps = pruneTimestamps cutoff (case windows b key of Some ts \<Rightarrow> ts | None \<Rightarrow> []);
          limit = effectiveThreshold b
      in if int (length timestamps) \<ge> limit
         then (b\<lparr>windows := (windows b)(key \<mapsto> timestamps)\<rparr>,
               BreakerRefused
                 (ERROR_PREFIX_CIRCUIT_BREAKER @ '' Tool '' @ [CHR 0x27] @ toolName @ [CHR 0x27] @
                  '' called '' @ showNum rt (of_int limit) @
                  '' times with identical arguments within '' @
                  showNum rt (windowMs (breakerConfig b) / 1000) @
                  ''s window. Try a different approach.''))
         else (b\<lparr>windows := (windows b)(key \<mapsto> timestamps @ [now])\<rparr>, BreakerAllowed))"

definition resetBreaker :: "CallCircuitBreaker \<Rightarrow> CallCircuitBreaker" where
  "resetBreaker b = b\<lparr>windows := Map.empty\<rparr>"

section \<open>Histories and the reference limiter\<close>

text \<open>A call is a clock reading, a tool and its arguments. \<open>runChecks\<close> lists the verdicts.\<close>

type_synonym timed_call = "rat \<times> string \<times> jsobj"

fun runChecks :: "runtime \<Rightarrow> CallCircuitBreaker \<Rightarrow> timed_call list \<Rightarrow> bool list" where
  "runChecks rt b [] = []"
| "runChecks rt b ((now, toolName, args) # cs) =
     (let (b', v) = check rt b now toolName args
      in (v = BreakerAllowed) # runChecks rt b' cs)"

text \<open>The calls admitted for a key in the half-open window that ends now.\<close>

definition recentCalls :: "(rat \<times> string) list \<Rightarrow> rat \<Rightarrow> rat \<Rightarrow> string \<Rightarrow> nat" where
  "recentCalls logged w now key =
     length (filter (\<lambda>(t, k). k = key \<and> now - w < t \<and> t \<le> now) logged)"

text \<open>The reference limiter: admit a call when fewer than \<open>limit\<close> calls of its key were admitted
  in the window, and log it.\<close>

fun referenceChecks ::
  "runtime \<Rightarrow> rat \<Rightarrow> int \<Rightarrow> (rat \<times> string) list \<Rightarrow> timed_call list \<Rightarrow> bool list" where
  "referenceChecks rt w limit logged [] = []"
| "referenceChecks rt w limit logged ((now, toolName, args) # cs) =
     (let key = breakerKey rt toolName args
      in if int (recentCalls logged w now key) < limit
         then True # referenceChecks rt w limit (logged @ [(now, key)]) cs
         else False # referenceChecks rt w limit logged cs)"

text \<open>The admitted calls of a history, given its verdicts.\<close>

definition admitted :: "runtime \<Rightarrow> timed_call list \<Rightarrow> bool list \<Rightarrow> (rat \<times> string) list" where
  "admitted rt cs vs =
     map (\<lambda>((now, toolName, args), _). (now, breakerKey rt toolName args)) (filter snd (zip cs vs))"

section \<open>Lemmas\<close>

lemma findIndex_ge: "findIndex p xs \<ge> -1"
  by (induction xs) (auto simp: Let_def)

lemma pruneTimestamps_dropWhile: "pruneTimestamps c ts = dropWhile (\<lambda>t. t \<le> c) ts"
proof (induction ts)
  case (Cons t ts)
  have "findIndex (\<lambda>t. t > c) ts \<ge> -1" by (rule findIndex_ge)
  with Cons show ?case
    by (auto simp: pruneTimestamps_def Let_def nat_add_distrib split: if_splits)
qed (simp add: pruneTimestamps_def)

lemma length_pruneTimestamps: "length (pruneTimestamps c ts) \<le> length ts"
  by (simp add: pruneTimestamps_dropWhile length_dropWhile_le)

lemma check_config [simp]:
  "breakerConfig (fst (check rt b now toolName args)) = breakerConfig b"
  by (simp add: check_def Let_def)

lemma check_effectiveThreshold [simp]:
  "effectiveThreshold (fst (check rt b now toolName args)) = effectiveThreshold b"
  by (simp add: effectiveThreshold_def)

lemma check_other_key:
  "k \<noteq> breakerKey rt toolName args \<Longrightarrow>
   windows (fst (check rt b now toolName args)) k = windows b k"
  by (simp add: check_def Let_def)

lemma effectiveThreshold_pos: "effectiveThreshold (newCallCircuitBreaker o') \<ge> 1"
proof -
  have "1 \<le> max 1 a * max 1 c" for a c :: int
    using mult_mono [of 1 "max 1 a" 1 "max 1 c"] by simp
  then show ?thesis by (simp add: effectiveThreshold_def newCallCircuitBreaker_def Let_def)
qed

text \<open>Every window holds at most \<open>effectiveThreshold\<close> time stamps: memory per key is bounded.\<close>

definition windowsBounded :: "CircuitBreakerConfig \<Rightarrow> CallCircuitBreaker \<Rightarrow> bool" where
  "windowsBounded cfg b \<longleftrightarrow> breakerConfig b = cfg \<and>
     (\<forall>ts \<in> ran (windows b). int (length ts) \<le> max 0 (effectiveThreshold b))"

lemma windowsBounded_check:
  assumes "windowsBounded cfg b"
  shows "windowsBounded cfg (fst (check rt b now toolName args))"
proof -
  let ?k = "breakerKey rt toolName args"
  have bound: "int (length ts) \<le> max 0 (effectiveThreshold b)" if "windows b k = Some ts" for k ts
    using assms that by (auto simp: windowsBounded_def ran_def)
  have "int (length ts) \<le> max 0 (effectiveThreshold b)"
    if "windows (fst (check rt b now toolName args)) k = Some ts" for k ts
  proof (cases "k = ?k")
    case True
    let ?ts = "case windows b ?k of Some ts \<Rightarrow> ts | None \<Rightarrow> []"
    let ?p = "pruneTimestamps (now - windowMs (breakerConfig b)) ?ts"
    have "int (length ?ts) \<le> max 0 (effectiveThreshold b)"
      using bound by (auto split: option.splits)
    moreover have "length ?p \<le> length ?ts" by (rule length_pruneTimestamps)
    ultimately have "int (length ?p) \<le> max 0 (effectiveThreshold b)" by linarith
    then show ?thesis using that True by (auto simp: check_def Let_def split: if_splits)
  next
    case False
    then show ?thesis using bound that by (simp add: check_other_key)
  qed
  then show ?thesis using assms by (auto simp: windowsBounded_def ran_def)
qed

text \<open>The breaker as a machine whose steps are checks.\<close>

definition breakerStep :: "runtime \<Rightarrow> CallCircuitBreaker \<Rightarrow> timed_call \<Rightarrow> CallCircuitBreaker" where
  "breakerStep rt b c = (case c of (now, toolName, args) \<Rightarrow> fst (check rt b now toolName args))"

interpretation breaker: invariant_machine
  "breakerStep rt" "windowsBounded (breakerConfig (newCallCircuitBreaker o'))" "newCallCircuitBreaker o'"
  for rt o'
proof unfold_locales
  show "windowsBounded (breakerConfig (newCallCircuitBreaker o')) (newCallCircuitBreaker o')"
    by (simp add: windowsBounded_def newCallCircuitBreaker_def Let_def)
  show "windowsBounded (breakerConfig (newCallCircuitBreaker o')) (breakerStep rt b c)"
    if "windowsBounded (breakerConfig (newCallCircuitBreaker o')) b" for b and c :: timed_call
    using windowsBounded_check [OF that]
    by (cases c) (simp add: breakerStep_def del: split_paired_All)
qed

text \<open>The relation between the code's windows and the reference log: each window is the part of
  the key's admitted time stamps after some cut-off that has already left the sliding window.\<close>

definition keyTimes :: "(rat \<times> string) list \<Rightarrow> string \<Rightarrow> rat list" where
  "keyTimes logged key = map fst (filter (\<lambda>(t, k). k = key) logged)"

definition logRel :: "(rat \<times> string) list \<Rightarrow> CallCircuitBreaker \<Rightarrow> rat \<Rightarrow> bool" where
  "logRel logged b now \<longleftrightarrow>
     (\<forall>(t, k) \<in> set logged. t \<le> now) \<and> sorted (map fst logged) \<and>
     (\<forall>key. \<exists>c \<le> now - windowMs (breakerConfig b).
        (case windows b key of Some ts \<Rightarrow> ts | None \<Rightarrow> []) =
        dropWhile (\<lambda>t. t \<le> c) (keyTimes logged key))"

lemma dropWhile_dropWhile_le:
  "c \<le> d \<Longrightarrow> dropWhile (\<lambda>t. t \<le> d) (dropWhile (\<lambda>t. t \<le> c) ts) = dropWhile (\<lambda>t. t \<le> (d :: rat)) ts"
  by (induction ts) auto

lemma dropWhile_le_filter: "sorted ts \<Longrightarrow> dropWhile (\<lambda>t. t \<le> c) ts = filter (\<lambda>t. c < t) (ts :: rat list)"
proof (induction ts)
  case (Cons t ts)
  show ?case
  proof (cases "t \<le> c")
    case True
    with Cons show ?thesis by simp
  next
    case False
    with Cons.prems have "\<forall>x \<in> set ts. c < x" by auto
    with False show ?thesis by (simp add: filter_id_conv)
  qed
qed simp

lemma sorted_keyTimes: "sorted (map fst logged) \<Longrightarrow> sorted (keyTimes logged key)"
  unfolding keyTimes_def by (rule sorted_filter)

lemma keyTimes_append [simp]:
  "keyTimes (logged @ [(t, k)]) key = keyTimes logged key @ (if k = key then [t] else [])"
  by (simp add: keyTimes_def)

lemma recentCalls_keyTimes:
  assumes "\<forall>(t, k) \<in> set logged. t \<le> now"
  shows "recentCalls logged w now key = length (filter (\<lambda>t. now - w < t) (keyTimes logged key))"
proof -
  have "filter (\<lambda>(t, k). k = key \<and> now - w < t \<and> t \<le> now) logged =
        filter (\<lambda>(t, k). now - w < t) (filter (\<lambda>(t, k). k = key) logged)"
    using assms by (auto intro!: filter_cong)
  then show ?thesis
    by (simp add: recentCalls_def keyTimes_def filter_map o_def case_prod_unfold del: filter_filter)
qed

lemma logRel_step:
  fixes rt toolName args
  assumes rel: "logRel logged b t0" and le: "t0 \<le> now" and w: "0 < windowMs (breakerConfig b)"
  defines "key \<equiv> breakerKey rt toolName args"
  defines "ok \<equiv> int (recentCalls logged (windowMs (breakerConfig b)) now key) < effectiveThreshold b"
  shows "(snd (check rt b now toolName args) = BreakerAllowed) = ok"
    and "logRel (if ok then logged @ [(now, key)] else logged) (fst (check rt b now toolName args)) now"
proof -
  let ?w = "windowMs (breakerConfig b)" and ?b' = "fst (check rt b now toolName args)"
  let ?at = "\<lambda>b key. case windows b key of Some ts \<Rightarrow> ts | None \<Rightarrow> []"
  have upto: "\<forall>(t, k) \<in> set logged. t \<le> now" and srt: "sorted (map fst logged)"
    using rel le by (auto simp: logRel_def)
  have win: "\<exists>c \<le> now - ?w. ?at b k = dropWhile (\<lambda>t. t \<le> c) (keyTimes logged k)" for k
    using rel le unfolding logRel_def by (meson diff_right_mono order_trans)
  have pruned: "pruneTimestamps (now - ?w) (?at b key) = dropWhile (\<lambda>t. t \<le> now - ?w) (keyTimes logged key)"
    using win [of key] by (auto simp: pruneTimestamps_dropWhile dropWhile_dropWhile_le)
  have count: "length (dropWhile (\<lambda>t. t \<le> now - ?w) (keyTimes logged key)) =
      recentCalls logged ?w now key"
    using upto srt by (simp add: recentCalls_keyTimes dropWhile_le_filter sorted_keyTimes)
  show 1: "(snd (check rt b now toolName args) = BreakerAllowed) = ok"
    using pruned count by (auto simp: check_def Let_def ok_def key_def)
  have at_key: "?at ?b' key = dropWhile (\<lambda>t. t \<le> now - ?w) (keyTimes (if ok then logged @ [(now, key)] else logged) key)"
    using pruned count w by (auto simp: check_def Let_def ok_def key_def dropWhile_append3)
  have "\<exists>c \<le> now - ?w. ?at ?b' k = dropWhile (\<lambda>t. t \<le> c) (keyTimes (if ok then logged @ [(now, key)] else logged) k)" for k
  proof (cases "k = key")
    case True
    then show ?thesis using at_key by blast
  next
    case False
    then show ?thesis using win [of k] by (auto simp: check_other_key key_def)
  qed
  then show "logRel (if ok then logged @ [(now, key)] else logged) ?b' now"
    using upto srt by (auto simp: logRel_def sorted_append)
qed

lemma runChecks_reference:
  assumes "logRel logged b t0" "0 < windowMs (breakerConfig b)"
    and "sorted (t0 # map fst cs)"
  shows "runChecks rt b cs =
         referenceChecks rt (windowMs (breakerConfig b)) (effectiveThreshold b) logged cs"
  using assms
proof (induction cs arbitrary: logged b t0)
  case (Cons c cs)
  obtain now toolName args where c: "c = (now, toolName, args)" by (cases c)
  obtain b' v where chk: "check rt b now toolName args = (b', v)" by fastforce
  have le: "t0 \<le> now" and srt: "sorted (now # map fst cs)" using Cons.prems(3) c by auto
  note step = logRel_step [OF Cons.prems(1) le Cons.prems(2), of rt toolName args, unfolded chk fst_conv snd_conv]
  have same: "breakerConfig b' = breakerConfig b" "effectiveThreshold b' = effectiveThreshold b"
    using chk check_config [of rt b now toolName args] check_effectiveThreshold [of rt b now toolName args]
    by simp_all
  show ?case
    using step Cons.IH [OF step(2) _ srt] Cons.prems(2) same chk c by (simp add: Let_def)
qed simp

lemma logRel_new: "logRel [] (newCallCircuitBreaker o') t"
  by (auto simp: logRel_def newCallCircuitBreaker_def Let_def keyTimes_def)

text \<open>The reference limiter keeps the bound by counting: an admitted call is the latest of its
  window, and windows that end earlier are unchanged.\<close>

lemma recentCalls_append:
  "recentCalls (logged @ [(t, k)]) w \<tau> key =
   recentCalls logged w \<tau> key + (if k = key \<and> \<tau> - w < t \<and> t \<le> \<tau> then 1 else 0)"
  by (simp add: recentCalls_def)

lemma recentCalls_mono:
  assumes "\<forall>(t, k) \<in> set logged. t \<le> now" "now \<le> \<tau>"
  shows "recentCalls logged w \<tau> key \<le> recentCalls logged w now key"
  using assms(1)
proof (induction logged)
  case (Cons p logged)
  then show ?case using assms(2) by (cases p) (auto simp: recentCalls_def)
qed (simp add: recentCalls_def)

lemma admitted_Cons:
  "admitted rt ((now, toolName, args) # cs) (v # vs) =
   (if v then [(now, breakerKey rt toolName args)] else []) @ admitted rt cs vs"
  by (simp add: admitted_def)

lemma reference_bound:
  assumes "\<forall>\<tau>. int (recentCalls logged w \<tau> key) \<le> limit"
    and "\<forall>(t, k) \<in> set logged. t \<le> t0" and "sorted (t0 # map fst cs)"
  shows "int (recentCalls (logged @ admitted rt cs (referenceChecks rt w limit logged cs)) w \<tau> key) \<le> limit"
  using assms
proof (induction cs arbitrary: logged t0)
  case Nil
  then show ?case by (simp add: admitted_def)
next
  case (Cons c cs)
  obtain now toolName args where c: "c = (now, toolName, args)" by (cases c)
  let ?k = "breakerKey rt toolName args"
  have le: "t0 \<le> now" and srt: "sorted (now # map fst cs)" using Cons.prems(3) c by auto
  have upto: "\<forall>(t, k) \<in> set logged. t \<le> now" using Cons.prems(2) le by auto
  show ?case
  proof (cases "int (recentCalls logged w now ?k) < limit")
    case True
    have "int (recentCalls (logged @ [(now, ?k)]) w \<tau> key) \<le> limit" for \<tau>
    proof (cases "?k = key \<and> now \<le> \<tau>")
      case new: True
      then have "recentCalls logged w \<tau> key \<le> recentCalls logged w now key"
        using recentCalls_mono [OF upto] by blast
      then show ?thesis using True new by (auto simp: recentCalls_append)
    next
      case False
      then show ?thesis using Cons.prems(1) by (auto simp: recentCalls_append)
    qed
    then show ?thesis
      using Cons.IH [OF _ _ srt, of "logged @ [(now, ?k)]"] upto True c
      by (auto simp: admitted_Cons Let_def)
  next
    case False
    then show ?thesis using Cons.IH [OF Cons.prems(1) upto srt] c by (simp add: admitted_Cons Let_def)
  qed
qed

section \<open>Properties\<close>

text \<open>C9: on every history of calls in clock order, the breaker with its pruned windows gives the
  same verdicts as the reference limiter that keeps the whole log of admitted calls and refuses a
  call exactly when its key already has the threshold number of admitted calls in the window.\<close>

theorem breaker_refines_reference:
  assumes "0 < windowMs (breakerConfig (newCallCircuitBreaker o'))"
    and "sorted (map fst cs)"
  shows "runChecks rt (newCallCircuitBreaker o') cs =
         referenceChecks rt (windowMs (breakerConfig (newCallCircuitBreaker o')))
           (effectiveThreshold (newCallCircuitBreaker o')) [] cs"
proof (cases cs)
  case (Cons c cs')
  then have "sorted (fst c # map fst cs)" using assms(2) by simp
  then show ?thesis by (rule runChecks_reference [OF logRel_new assms(1)])
qed simp

definition demoRuntime :: runtime where
  "demoRuntime = \<lparr>sha256 = id, showNum = (\<lambda>_. ''n'')\<rparr>"

definition demoBreaker :: breaker_options where
  "demoBreaker = \<lparr>optWindowMs = Some 10, optThreshold = Some 2, optWorkerCount = None\<rparr>"

definition demoCalls :: "timed_call list" where
  "demoCalls = [(0, ''t'', []), (1, ''t'', []), (2, ''t'', []), (3, ''u'', []), (11, ''t'', [])]"

theorem breaker_refines_reference_witness:
  "0 < windowMs (breakerConfig (newCallCircuitBreaker demoBreaker)) \<and> sorted (map fst demoCalls) \<and>
   runChecks demoRuntime (newCallCircuitBreaker demoBreaker) demoCalls = [True, True, False, True, True] \<and>
   runChecks demoRuntime (newCallCircuitBreaker demoBreaker) demoCalls =
     referenceChecks demoRuntime (windowMs (breakerConfig (newCallCircuitBreaker demoBreaker)))
       (effectiveThreshold (newCallCircuitBreaker demoBreaker)) [] demoCalls"
proof -
  have "0 < windowMs (breakerConfig (newCallCircuitBreaker demoBreaker))" "sorted (map fst demoCalls)"
    by code_simp+
  moreover have "runChecks demoRuntime (newCallCircuitBreaker demoBreaker) demoCalls =
      [True, True, False, True, True]" by code_simp
  ultimately show ?thesis using breaker_refines_reference [of demoBreaker demoCalls demoRuntime] by blast
qed

text \<open>On every history of calls in clock order, no window of the configured length, wherever it
  ends, contains more than \<open>threshold * workerCount\<close> admitted calls of one key.\<close>

theorem breaker_window_bound:
  assumes "0 < windowMs (breakerConfig (newCallCircuitBreaker o'))"
    and "sorted (map fst cs)"
  shows "int (recentCalls (admitted rt cs (runChecks rt (newCallCircuitBreaker o') cs))
           (windowMs (breakerConfig (newCallCircuitBreaker o'))) \<tau> key)
         \<le> effectiveThreshold (newCallCircuitBreaker o')"
proof (cases cs)
  case Nil
  then show ?thesis using effectiveThreshold_pos [of o'] by (simp add: admitted_def recentCalls_def)
next
  case (Cons c cs')
  then have srt: "sorted (fst c # map fst cs)" using assms(2) by simp
  have "\<forall>\<tau>. int (recentCalls [] w \<tau> key) \<le> effectiveThreshold (newCallCircuitBreaker o')" for w
    using effectiveThreshold_pos [of o'] by (simp add: recentCalls_def)
  from reference_bound [OF this _ srt] show ?thesis
    unfolding runChecks_reference [OF logRel_new assms(1) srt] by simp
qed

theorem breaker_window_bound_witness:
  "0 < windowMs (breakerConfig (newCallCircuitBreaker demoBreaker)) \<and> sorted (map fst demoCalls) \<and>
   int (recentCalls (admitted demoRuntime demoCalls (runChecks demoRuntime (newCallCircuitBreaker demoBreaker) demoCalls))
     (windowMs (breakerConfig (newCallCircuitBreaker demoBreaker))) 9 ''t:{}'')
   \<le> effectiveThreshold (newCallCircuitBreaker demoBreaker)"
proof -
  have "0 < windowMs (breakerConfig (newCallCircuitBreaker demoBreaker))" "sorted (map fst demoCalls)"
    by code_simp+
  then show ?thesis
    using breaker_window_bound [of demoBreaker demoCalls demoRuntime 9 "''t:{}''"] by blast
qed

text \<open>Whatever the clock does, no sequence of checks lets a window grow beyond
  \<open>threshold * workerCount\<close> time stamps, so the memory per key is bounded.\<close>

theorem breaker_windows_bounded:
  "windowsBounded (breakerConfig (newCallCircuitBreaker o'))
     (foldl (breakerStep rt) (newCallCircuitBreaker o') cs)"
  by (rule breaker.inv_run)

end
