(* ===== verification/Proxy_Tools.thy ===== *)
theory Proxy_Tools
  imports Policy_Engine_Props Hash
begin

text \<open>
  The virtual proxy server of Docker mode (\<open>src/docker/proxy-tools.ts\<close>): the validation of a domain,
  the hard-coded annotations and rules that are merged into every policy, and the handler that sends
  a call to the control API of the network proxy. The control API is a parameter; the requests sent
  to it are returned as a list.
\<close>

section \<open>Domain validation\<close>

datatype proxy_error =
    DomainTooLong string
  | BlockedHost string
  | InvalidDomainFormat string
  | IpNotAllowed string
  | BlockedDockerInternal string
  | MissingArgument string
  | ControlApiError string
  | UnknownVirtualTool string

definition quoted :: "string \<Rightarrow> string" where
  "quoted s = CHR 0x22 # s @ [CHR 0x22]"

text \<open>The \<open>message\<close> of the thrown \<open>Error\<close>.\<close>

fun proxyErrorMessage :: "runtime \<Rightarrow> proxy_error \<Rightarrow> string" where
  "proxyErrorMessage rt (DomainTooLong d) =
     ''Domain too long ('' @ showNum rt (of_nat (length d)) @ '' > 253)''"
| "proxyErrorMessage rt (BlockedHost d) = ''Blocked host: '' @ quoted d"
| "proxyErrorMessage rt (InvalidDomainFormat d) = ''Invalid domain format: '' @ quoted d"
| "proxyErrorMessage rt (IpNotAllowed d) = ''IP addresses are not allowed: '' @ quoted d"
| "proxyErrorMessage rt (BlockedDockerInternal d) =
     ''Blocked host: '' @ quoted d @ '' (*.docker.internal is not allowed)''"
| "proxyErrorMessage rt (MissingArgument n) = ''Missing or invalid required argument: '' @ n"
| "proxyErrorMessage rt (ControlApiError m) = m"
| "proxyErrorMessage rt (UnknownVirtualTool t) = ''Unknown virtual proxy tool: '' @ t"

definition isAlnum :: "char \<Rightarrow> bool" where
  "isAlnum c = (isLetter c \<or> isDigit c)"

text \<open>\<open>DOMAIN_RE\<close>: at least two labels, each of letters, digits and inner hyphens.\<close>

definition domainLabel :: "string \<Rightarrow> bool" where
  "domainLabel s = (s \<noteq> [] \<and> isAlnum (hd s) \<and> isAlnum (last s) \<and> list_all (\<lambda>c. isAlnum c \<or> c = CHR ''-'') s)"

definition DOMAIN_RE :: "string \<Rightarrow> bool" where
  "DOMAIN_RE d = (let ls = splitOn (CHR ''.'') d in length ls \<ge> 2 \<and> list_all domainLabel ls)"

definition IP_RE :: "string \<Rightarrow> bool" where
  "IP_RE d = (let ls = splitOn (CHR ''.'') d
              in length ls = 4 \<and> list_all (\<lambda>l. l \<noteq> [] \<and> length l \<le> 3 \<and> list_all isDigit l) ls)"

definition DOCKER_INTERNAL_SUFFIX :: string where
  "DOCKER_INTERNAL_SUFFIX = ''.docker.internal''"

definition validateDomain :: "string \<Rightarrow> proxy_error option" where
  "validateDomain domain =
     (if length domain > 253 then Some (DomainTooLong domain)
      else if toLowerCase domain = ''localhost'' then Some (BlockedHost domain)
      else if \<not> DOMAIN_RE domain then Some (InvalidDomainFormat domain)
      else if IP_RE domain then Some (IpNotAllowed domain)
      else if endsWith (toLowerCase domain) DOCKER_INTERNAL_SUFFIX then Some (BlockedDockerInternal domain)
      else None)"

section \<open>Annotations and rules\<close>

definition schemaProperty :: "string \<Rightarrow> string \<Rightarrow> string \<times> jsval" where
  "schemaProperty n d = (n, JObj [(''type'', JStr ''string''), (''description'', JStr d)])"

definition proxySchema :: "(string \<times> jsval) list \<Rightarrow> string list option \<Rightarrow> jsval" where
  "proxySchema props req =
     JObj ([(''type'', JStr ''object''), (''properties'', JObj props)] @
       (case req of Some ns \<Rightarrow> [(''required'', JArr (map JStr ns))] | None \<Rightarrow> []))"

definition addDomainSchema :: jsval where
  "addDomainSchema = proxySchema
     [schemaProperty ''domain'' (''The exact domain name to allow (e.g., '' @ quoted ''api.example.com'' @ ''). No wildcards.''),
      schemaProperty ''justification''
        ''Explanation of why this domain is needed for the current task. This text is shown to the human reviewer.'']
     (Some [''domain'', ''justification''])"

definition removeDomainSchema :: jsval where
  "removeDomainSchema = proxySchema
     [schemaProperty ''domain'' ''The domain name to remove.''] (Some [''domain''])"

definition listDomainsSchema :: jsval where
  "listDomainsSchema = proxySchema [] None"

definition proxyAnnotations :: "stored_annotation list" where
  "proxyAnnotations =
     [\<lparr>sa_toolName = ''add_proxy_domain'', sa_serverName = ''proxy'',
       sa_comment = ''Add a domain to the MITM proxy allowlist'',
       sa_args = [(''domain'', StaticRoles [ProxyDomain]), (''justification'', StaticRoles [NoneRole])],
       sa_inputSchema = addDomainSchema\<rparr>,
      \<lparr>sa_toolName = ''remove_proxy_domain'', sa_serverName = ''proxy'',
       sa_comment = ''Remove a domain from the MITM proxy allowlist'',
       sa_args = [(''domain'', StaticRoles [ProxyDomain])], sa_inputSchema = removeDomainSchema\<rparr>,
      \<lparr>sa_toolName = ''list_proxy_domains'', sa_serverName = ''proxy'',
       sa_comment = ''List currently allowed proxy domains'', sa_args = [],
       sa_inputSchema = listDomainsSchema\<rparr>]"

definition proxyRule :: "string \<Rightarrow> string \<Rightarrow> string \<Rightarrow> string \<Rightarrow> decision \<Rightarrow> string \<Rightarrow> compiled_rule" where
  "proxyRule n descr princ tool d reason =
     \<lparr>r_name = n, r_description = descr, r_principle = princ,
      r_if = \<lparr>c_roles = None, c_server = Some [''proxy''], c_tool = Some [tool],
             c_paths = None, c_domains = None, c_lists = None\<rparr>,
      r_then = d, r_reason = reason\<rparr>"

definition proxyPolicyRules :: "compiled_rule list" where
  "proxyPolicyRules =
     [proxyRule ''proxy-add-domain-escalate'' ''Adding network domains requires human review'' ''Human oversight''
        ''add_proxy_domain'' Escalate
        ''Adding network domains expands the container attack surface and requires human review'',
      proxyRule ''proxy-remove-domain-allow'' ''Removing domains reduces attack surface'' ''Least privilege''
        ''remove_proxy_domain'' Allow ''Removing domains reduces the attack surface'',
      proxyRule ''proxy-list-domains-allow'' ''Listing domains is a read-only operation'' ''Least privilege''
        ''list_proxy_domains'' Allow ''Read-only operation with no side effects'']"

text \<open>\<open>mergeProxyAnnotations\<close> of the coordinator: the \<open>proxy\<close> slot is overwritten.\<close>

definition mergeProxyAnnotations :: "annotations_file \<Rightarrow> annotations_file" where
  "mergeProxyAnnotations src =
     src\<lparr>af_servers := setProp (af_servers src) ''proxy''
       \<lparr>srv_inputHash = ''hardcoded'', srv_tools = proxyAnnotations\<rparr>\<rparr>"

section \<open>The handler\<close>

text \<open>The control API: each request fails with a message or answers.\<close>

record ControlApiClient =
  addDomain :: "string \<Rightarrow> string + bool"
  removeDomain :: "string \<Rightarrow> string + bool"
  listDomains :: "string + jsval"

datatype control_call = CallAdd string | CallRemove string | CallList

definition requireStringArg :: "jsobj \<Rightarrow> string \<Rightarrow> proxy_error + string" where
  "requireStringArg args name =
     (case getProp args name of
        JStr s \<Rightarrow> (if s = [] then Inl (MissingArgument name) else Inr s)
      | _ \<Rightarrow> Inl (MissingArgument name))"

definition handleVirtualProxyTool ::
  "ControlApiClient \<Rightarrow> string \<Rightarrow> jsobj \<Rightarrow> control_call list \<times> (proxy_error + jsval)" where
  "handleVirtualProxyTool client tool args =
     (if tool = ''add_proxy_domain'' then
        (case requireStringArg args ''domain'' of
           Inl e \<Rightarrow> ([], Inl e)
         | Inr domain \<Rightarrow>
             (case requireStringArg args ''justification'' of
                Inl e \<Rightarrow> ([], Inl e)
              | Inr _ \<Rightarrow>
                  (case validateDomain domain of
                     Some e \<Rightarrow> ([], Inl e)
                   | None \<Rightarrow>
                       ([CallAdd domain],
                        case addDomain client domain of
                          Inl m \<Rightarrow> Inl (ControlApiError m)
                        | Inr added \<Rightarrow> Inr (if \<not> added
                            then JObj [(''status'', JStr ''already_accessible''),
                                       (''message'', JStr ''Domain is already accessible (built-in provider)'')]
                            else JObj [(''status'', JStr ''added''), (''domain'', JStr domain)])))))
      else if tool = ''remove_proxy_domain'' then
        (case requireStringArg args ''domain'' of
           Inl e \<Rightarrow> ([], Inl e)
         | Inr domain \<Rightarrow>
             ([CallRemove domain],
              case removeDomain client domain of
                Inl m \<Rightarrow> Inl (ControlApiError m)
              | Inr removed \<Rightarrow> Inr (JObj [(''status'', JStr (if removed then ''removed'' else ''not_found'')),
                                          (''domain'', JStr domain)])))
      else if tool = ''list_proxy_domains'' then
        ([CallList], case listDomains client of Inl m \<Rightarrow> Inl (ControlApiError m) | Inr v \<Rightarrow> Inr v)
      else ([], Inl (UnknownVirtualTool tool)))"

section \<open>Lemmas\<close>

text \<open>The annotation, the rule and the role of \<open>add_proxy_domain\<close>.\<close>

abbreviation addAnnotation :: "jsobj \<Rightarrow> tool_annotation" where
  "addAnnotation \<equiv> resolveStoredAnnotation (hd proxyAnnotations)"

lemma addAnnotation_args:
  "ta_args (addAnnotation a) = [(''domain'', [ProxyDomain]), (''justification'', [NoneRole])]"
  by (simp add: resolveStoredAnnotation_def proxyAnnotations_def Let_def)

lemma addAnnotation_extraction:
  "extractAnnotatedPaths b (addAnnotation a) getPathRoles = []"
  "extractAnnotatedUrls b (addAnnotation a) getUrlRoles = []"
  "collectDistinctRoles (addAnnotation a) = [ProxyDomain]"
  by (simp_all add: extractAnnotatedPaths_def extractAnnotatedUrls_def collectDistinctRoles_def addAnnotation_args
      getPathRoles_eq getUrlRoles_eq roleDef_simps uniq_def)

lemma addRule_matches:
  assumes "serverName request = ''proxy''" "toolName request = ''add_proxy_domain''"
  shows "ruleMatches h (hd proxyPolicyRules) request ann x" "\<not> hasRoleConditions (hd proxyPolicyRules)"
    "ruleApplies h request ann r (hd proxyPolicyRules)" "c_paths (r_if (hd proxyPolicyRules)) = None"
  using assms
  by (simp_all add: ruleMatches_def ruleMatchesNonPathConditions_def hasRoleConditions_def ruleApplies_def
      proxyPolicyRules_def proxyRule_def Let_def)

lemma dischargePaths_done: "dischargePaths h request ann r rules [] m = ([], m)"
  by (cases rules) simp_all

text \<open>A first rule without path condition that applies decides every role.\<close>

lemma evaluateRulesForRole_first:
  assumes "cp_rules (compiledPolicy e) = rule # rules"
    and "ruleMatches h rule request ann (Some r)" "\<not> hasRoleConditions rule"
    and "ruleApplies h request ann r rule" "c_paths (r_if rule) = None"
    and "serverName request \<noteq> ''filesystem''"
  shows "evaluateRulesForRole e h request ann r = Inr (ruleToResult rule)"
proof -
  have none: "sandboxDischarges e h request r p = False" for p
    using assms(6) by (simp add: sandboxDischarges_def split: option.splits)
  show ?thesis
    using assms(1-5)
    by (simp add: evaluateRulesForRole_def evaluateRulesForRolePaths_def Let_def none list_ex_iff
        dischargePaths_done pickResult_def)
qed

section \<open>Properties\<close>

text \<open>Only a validated domain is ever sent to the proxy to be opened: it has at least two
  well-formed labels, is at most 253 characters long and is neither an IPv4 address, nor
  \<open>localhost\<close>, nor below \<open>.docker.internal\<close>.\<close>

theorem proxy_opens_only_valid_domains:
  assumes "CallAdd d \<in> set (fst (handleVirtualProxyTool client tool args))"
  shows "tool = ''add_proxy_domain'' \<and> getProp args ''domain'' = JStr d \<and> length d \<le> 253 \<and>
    length (splitOn (CHR ''.'') d) \<ge> 2 \<and> list_all domainLabel (splitOn (CHR ''.'') d) \<and> \<not> IP_RE d \<and>
    toLowerCase d \<noteq> ''localhost'' \<and> \<not> endsWith (toLowerCase d) ''.docker.internal''"
proof -
  have tool: "tool = ''add_proxy_domain''"
    using assms unfolding handleVirtualProxyTool_def
    by (cases "tool = ''add_proxy_domain''"; cases "tool = ''remove_proxy_domain''"; cases "tool = ''list_proxy_domains''")
      (simp_all only: if_True if_False simp_thms fst_conv list.set insert_iff empty_iff control_call.distinct
        split: sum.splits)
  have "requireStringArg args ''domain'' = Inr d \<and> validateDomain d = None"
    using assms unfolding handleVirtualProxyTool_def if_P [OF tool]
    by (cases "requireStringArg args ''domain''"; cases "requireStringArg args ''justification''";
        cases "validateDomain (projr (requireStringArg args ''domain''))") simp_all
  moreover have "validateDomain d = None \<Longrightarrow> length d \<le> 253 \<and> DOMAIN_RE d \<and> \<not> IP_RE d \<and>
      toLowerCase d \<noteq> ''localhost'' \<and> \<not> endsWith (toLowerCase d) ''.docker.internal''"
    unfolding validateDomain_def DOCKER_INTERNAL_SUFFIX_def
    by (cases "length d > 253"; cases "toLowerCase d = ''localhost''"; cases "DOMAIN_RE d"; cases "IP_RE d";
        cases "endsWith (toLowerCase d) ''.docker.internal''")
      (simp_all only: if_True if_False simp_thms option.distinct not_less)
  moreover have "requireStringArg args ''domain'' = Inr d \<Longrightarrow> getProp args ''domain'' = JStr d"
    unfolding requireStringArg_def by (cases "getProp args ''domain''") (simp_all split: if_splits)
  ultimately show ?thesis using tool by (simp add: DOMAIN_RE_def Let_def)
qed

definition demoControl :: ControlApiClient where
  "demoControl = \<lparr>addDomain = (\<lambda>_. Inr True), removeDomain = (\<lambda>_. Inr False), listDomains = Inr JNull\<rparr>"

theorem proxy_opens_only_valid_domains_witness:
  "\<not> IP_RE ''api.example.com'' \<and> CallAdd ''api.example.com'' \<in> set (fst (handleVirtualProxyTool demoControl ''add_proxy_domain''
     [(''domain'', JStr ''api.example.com''), (''justification'', JStr ''docs'')]))"
proof -
  have "CallAdd ''api.example.com'' \<in> set (fst (handleVirtualProxyTool demoControl ''add_proxy_domain''
     [(''domain'', JStr ''api.example.com''), (''justification'', JStr ''docs'')]))" by code_simp
  from this proxy_opens_only_valid_domains [OF this] show ?thesis by blast
qed

text \<open>Opening a domain always asks for review. In an engine that has the proxy annotations and
  whose rules start with the proxy rules, as the sandbox and every policy swap set it up, a call of
  \<open>add_proxy_domain\<close> escalates with the proxy rule, whatever its arguments and the other rules are.\<close>

theorem proxy_add_domain_escalates:
  assumes "''proxy'' \<notin> set (trustedServers e)"
    and "getStoredAnnotation e ''proxy'' ''add_proxy_domain'' = Some (hd proxyAnnotations)"
    and "cp_rules (compiledPolicy e) = proxyPolicyRules @ rs"
    and "serverName request = ''proxy''" "toolName request = ''add_proxy_domain''"
  shows "\<exists>res. evaluate e h request = Inr res \<and> er_decision res = Escalate \<and>
    er_rule res = ''proxy-add-domain-escalate'' \<and> er_escalatedRoles res = Some [ProxyDomain]"
proof -
  let ?ann = "addAnnotation (arguments request)"
  have ann: "getAnnotation e (serverName request) (toolName request) (arguments request) = Some ?ann"
    using assms(2,4,5) by (simp add: getAnnotation_def getStoredAnnotation_def)
  have struct: "evaluateStructuralInvariants e h request (Some ?ann) = \<lparr>sr_decision = None, sr_sandboxResolvedRoles = []\<rparr>"
    using assms(4,5)
    by (simp add: evaluateStructuralInvariants_def Let_def addAnnotation_extraction sandboxResolved_def split: option.splits)
  have enrich: "enrichGitRequest e h request (Some ?ann) = request"
    using assms(4) by (simp add: enrichGitRequest_def)
  let ?rule = "hd proxyPolicyRules"
  have rules: "cp_rules (compiledPolicy e) = ?rule # tl proxyPolicyRules @ rs"
    using assms(3) by (simp add: proxyPolicyRules_def)
  have role: "evaluateRulesForRole e h request ?ann ProxyDomain = Inr (ruleToResult ?rule)"
    using assms(4) addRule_matches [OF assms(4,5)] by (intro evaluateRulesForRole_first [OF rules]) simp_all
  have rule: "er_decision (ruleToResult ?rule) = Escalate" "er_rule (ruleToResult ?rule) = ''proxy-add-domain-escalate''"
    by (simp_all add: ruleToResult_def proxyPolicyRules_def proxyRule_def)
  have trusted: "serverName request \<notin> set (trustedServers e)" using assms(1,4) by simp
  have "evaluate e h request = Inr ((ruleToResult ?rule)\<lparr>er_escalatedRoles := Some [ProxyDomain]\<rparr>)"
    using trusted rule
    by (simp add: evaluate_def Let_def ann struct enrich evaluateCompiledRules_def addAnnotation_extraction role)
  then show ?thesis using rule by simp
qed

definition proxyEngine :: policy_engine where
  "proxyEngine = newPolicyEngine demoHost (demoPolicy\<lparr>cp_rules := proxyPolicyRules @ cp_rules demoPolicy\<rparr>)
     (mergeProxyAnnotations demoAnnotations) [] (Some ''/s'') None None None"

theorem proxy_add_domain_escalates_witness:
  "\<exists>res. evaluate proxyEngine demoHost (demoRequest ''proxy'' ''add_proxy_domain'' [(''domain'', JStr ''x.io'')]) = Inr res \<and>
     er_decision res = Escalate \<and> er_rule res = ''proxy-add-domain-escalate'' \<and> er_escalatedRoles res = Some [ProxyDomain]"
proof (rule proxy_add_domain_escalates)
  show "cp_rules (compiledPolicy proxyEngine) = proxyPolicyRules @ cp_rules demoPolicy"
    by (simp add: proxyEngine_def newPolicyEngine_def)
  show "''proxy'' \<notin> set (trustedServers proxyEngine)" by (simp add: proxyEngine_def newPolicyEngine_def)
  show "getStoredAnnotation proxyEngine ''proxy'' ''add_proxy_domain'' = Some (hd proxyAnnotations)" by code_simp
qed (simp_all add: demoRequest_def)

text \<open>The dotted-quad test misses the shorter numeric notations that resolvers accept for the same
  addresses.\<close>

theorem short_numeric_hosts_accepted:
  "validateDomain ''127.0.0.1'' = Some (IpNotAllowed ''127.0.0.1'') \<and>
   validateDomain ''127.1'' = None \<and> validateDomain ''0x7f.0.0.1'' = None"
proof (intro conjI)
qed code_simp+

end
