(* ===== verification/Server_Context.thy ===== *)
theory Server_Context
  imports IC_Prelude
begin

text \<open>
  Small components the call pipeline uses: the per-server context
  (\<open>src/trusted-process/server-context.ts\<close>), the extraction of a message from an MCP error
  (\<open>src/trusted-process/mcp-error-utils.ts\<close>) and the marking of sandbox violations
  (\<open>annotateSandboxViolation\<close> of \<open>src/trusted-process/sandbox-integration.ts\<close>).
\<close>

section \<open>Server context\<close>

text \<open>A context holds the working directory, when one is known.\<close>

type_synonym ServerContextMap = "(string \<times> string option) list"

definition WORKING_DIR_ARGS :: "(string \<times> string) list" where
  "WORKING_DIR_ARGS = [(''git_set_working_dir'', ''path''), (''git_clone'', ''localPath'')]"

definition updateServerContext :: "ServerContextMap \<Rightarrow> string \<Rightarrow> string \<Rightarrow> jsobj \<Rightarrow> ServerContextMap" where
  "updateServerContext m srv tool args =
     (case map_of WORKING_DIR_ARGS tool of
        None \<Rightarrow> m
      | Some argKey \<Rightarrow>
          (case getProp args argKey of
             JStr value \<Rightarrow> setProp m srv (Some value)
           | _ \<Rightarrow> m))"

definition formatServerContext :: "ServerContextMap \<Rightarrow> string \<Rightarrow> (string \<times> string) list option" where
  "formatServerContext m srv =
     (case map_of m srv of
        None \<Rightarrow> None
      | Some None \<Rightarrow> None
      | Some (Some wd) \<Rightarrow> (if wd = [] then None else Some [(''Working directory'', wd)]))"

text \<open>\<open>map.get(srv)?.workingDirectory\<close>.\<close>

definition workingDirectory :: "ServerContextMap \<Rightarrow> string \<Rightarrow> string option" where
  "workingDirectory m srv = (case map_of m srv of Some wd \<Rightarrow> wd | None \<Rightarrow> None)"

section \<open>MCP errors\<close>

text \<open>What a rejected promise carries: an \<open>McpError\<close> with its code, message and data, another
  \<open>Error\<close> with its message, or a value that prints as a string.\<close>

datatype thrown = McpError int string jsval | JsError string | OtherThrown string

definition INVALID_PARAMS_CODE :: int where
  "INVALID_PARAMS_CODE = -32602"

definition stripMcpPrefix :: "string \<Rightarrow> string" where
  "stripMcpPrefix message =
     (if startsWith message ''MCP error -'' then
        let rest = drop 11 message; after = dropWhile isDigit rest
        in if takeWhile isDigit rest \<noteq> [] \<and> startsWith after '': '' \<and> drop 2 after \<noteq> []
           then drop 2 after else message
      else message)"

text \<open>\<open>None\<close> is the \<open>TypeError\<close> of reading a property of \<open>null\<close> or \<open>undefined\<close>; \<open>Some None\<close> is
  \<open>undefined\<close>.\<close>

fun firstTextItem :: "jsval list \<Rightarrow> string option option" where
  "firstTextItem [] = Some None"
| "firstTextItem (JNull # items) = None"
| "firstTextItem (JUndefined # items) = None"
| "firstTextItem (JObj entry # items) =
     (case (getProp entry ''type'' = JStr ''text'', getProp entry ''text'') of
        (True, JStr t) \<Rightarrow> Some (Some t)
      | _ \<Rightarrow> firstTextItem items)"
| "firstTextItem (item # items) = firstTextItem items"

definition nonEmptyString :: "jsval \<Rightarrow> string option" where
  "nonEmptyString v = (case v of JStr s \<Rightarrow> (if s = [] then None else Some s) | _ \<Rightarrow> None)"

definition extractFromData :: "jsval \<Rightarrow> string option option" where
  "extractFromData data =
     (case data of
        JObj obj \<Rightarrow>
          (case nonEmptyString (getProp obj ''message'') of
             Some s \<Rightarrow> Some (Some s)
           | None \<Rightarrow>
               (case nonEmptyString (getProp obj ''error'') of
                  Some s \<Rightarrow> Some (Some s)
                | None \<Rightarrow>
                    (case getProp obj ''content'' of
                       JArr items \<Rightarrow> firstTextItem items
                     | _ \<Rightarrow> Some None)))
      | _ \<Rightarrow> Some (nonEmptyString data))"

definition extractMcpErrorMessage :: "thrown \<Rightarrow> string option" where
  "extractMcpErrorMessage err =
     (case err of
        JsError message \<Rightarrow> Some message
      | OtherThrown s \<Rightarrow> Some s
      | McpError code message data \<Rightarrow>
          (if code = INVALID_PARAMS_CODE \<and> data \<noteq> JNull \<and> data \<noteq> JUndefined then
             (case extractFromData data of
                None \<Rightarrow> None
              | Some (Some extracted) \<Rightarrow> Some (if extracted \<noteq> [] then extracted else stripMcpPrefix message)
              | Some None \<Rightarrow> Some (stripMcpPrefix message))
           else Some (stripMcpPrefix message)))"

section \<open>Sandbox violations\<close>

definition SANDBOX_BLOCK_PATTERNS :: "string list" where
  "SANDBOX_BLOCK_PATTERNS = [''eacces'', ''eperm'', ''operation not permitted'', ''permission denied'', ''read-only file system'']"

definition annotateSandboxViolation :: "string \<Rightarrow> bool \<Rightarrow> string" where
  "annotateSandboxViolation errorMessage serverSandboxed =
     (if \<not> serverSandboxed then errorMessage
      else if \<not> list_ex (strIncludes (toLowerCase errorMessage)) SANDBOX_BLOCK_PATTERNS then errorMessage
      else ''[SANDBOX BLOCKED] '' @ errorMessage)"

section \<open>Lemmas\<close>

lemma workingDirectory_update:
  "workingDirectory (updateServerContext m srv tool args) srv' =
   (if srv' = srv then
      (case map_of WORKING_DIR_ARGS tool of
         Some argKey \<Rightarrow> (case getProp args argKey of JStr v \<Rightarrow> Some v | _ \<Rightarrow> workingDirectory m srv)
       | None \<Rightarrow> workingDirectory m srv)
    else workingDirectory m srv')"
  by (auto simp: updateServerContext_def workingDirectory_def map_of_setProp split: option.splits jsval.splits)

text \<open>Reading the message of an error fails only on the data of an invalid-parameters error whose
  content list has a \<open>null\<close> (or \<open>undefined\<close>) entry before any text entry.\<close>

lemma firstTextItem_None_iff:
  "firstTextItem items = None \<longleftrightarrow>
   (\<exists>xs y ys. items = xs @ y # ys \<and> y \<in> {JNull, JUndefined} \<and> firstTextItem xs = Some None)"
proof
  show "firstTextItem items = None \<Longrightarrow>
    \<exists>xs y ys. items = xs @ y # ys \<and> y \<in> {JNull, JUndefined} \<and> firstTextItem xs = Some None"
  proof (induction items)
    case (Cons x items)
    show ?case
    proof (cases "x \<in> {JNull, JUndefined}")
      case True
      then show ?thesis by (intro exI [of _ "[]"]) auto
    next
      case False
      then have rec: "firstTextItem (x # zs) = Some None \<and> firstTextItem items = None" if "firstTextItem zs = Some None" for zs
        using Cons.prems that by (cases x) (auto split: bool.splits jsval.splits prod.splits)
      from False have "firstTextItem items = None"
        using Cons.prems by (cases x) (auto split: bool.splits jsval.splits)
      then obtain xs y ys where "items = xs @ y # ys" "y \<in> {JNull, JUndefined}" "firstTextItem xs = Some None"
        using Cons.IH by blast
      then show ?thesis using rec by (metis append_Cons)
    qed
  qed simp
  have "firstTextItem (xs @ y # ys) = None" if "y \<in> {JNull, JUndefined}" "firstTextItem xs = Some None" for xs y ys
    using that(2)
  proof (induction xs)
    case Nil
    then show ?case using that(1) by auto
  next
    case (Cons x xs)
    then show ?case by (cases x) (auto split: bool.splits jsval.splits)
  qed
  then show "\<exists>xs y ys. items = xs @ y # ys \<and> y \<in> {JNull, JUndefined} \<and> firstTextItem xs = Some None \<Longrightarrow>
    firstTextItem items = None" by (elim exE conjE) (simp only:)
qed

lemma stripMcpPrefix_digits:
  assumes "ds \<noteq> []" "list_all isDigit ds" "m \<noteq> []"
  shows "stripMcpPrefix (''MCP error -'' @ ds @ '': '' @ m) = m"
proof -
  have colon: "\<not> isDigit (CHR '':'')" by (simp add: isDigit_def)
  have "takeWhile isDigit (ds @ '': '' @ m) = ds" "dropWhile isDigit (ds @ '': '' @ m) = '': '' @ m"
    using assms(2) colon by (simp_all add: takeWhile_append2 dropWhile_append2 list_all_iff)
  moreover have "drop 11 (''MCP error -'' @ ds @ '': '' @ m) = ds @ '': '' @ m" by simp
  ultimately show ?thesis using assms(1,3) by (simp add: stripMcpPrefix_def Let_def)
qed

end
