(* ===== verification/Tool_Call_Pipeline.thy ===== *)
theory Tool_Call_Pipeline
  imports Approval_Whitelist Auto_Approver Call_Circuit_Breaker Policy_Roots Proxy_Tools Server_Context
begin

text \<open>
  The tool-call pipeline (\<open>src/trusted-process/tool-call-pipeline.ts\<close>). The handler is a function on
  the state that calls share (audit log, circuit breaker, whitelist, server contexts, client roots)
  and on a list of effects, the calls that left the process. It is split where the source awaits a
  decision: \<open>beginCall\<close> runs up to the wait, \<open>resumeCall\<close> from its result on, in whatever state other
  calls have left meanwhile. What the process observes during a call (fresh identifiers, clock
  readings, files, answers of servers) is the record \<open>call_world\<close>.
\<close>

section \<open>Data\<close>

record proxied_tool =
  pt_serverName :: string
  pt_name :: string
  pt_description :: "string option"
  pt_inputSchema :: jsobj

record policy_decision =
  pd_status :: decision
  pd_rule :: string
  pd_reason :: string

datatype result_status = ResultSuccess | ResultDenied | ResultError

datatype esc_result = EscApproved | EscDenied

record audit_entry =
  ae_timestamp :: string
  ae_requestId :: string
  ae_serverName :: string
  ae_toolName :: string
  ae_arguments :: jsobj
  ae_policyDecision :: policy_decision
  ae_escalationResult :: "esc_result option"
  ae_resultStatus :: result_status
  ae_resultError :: "string option"
  ae_durationMs :: rat
  ae_sandboxed :: bool
  ae_autoApproved :: bool
  ae_whitelistApproved :: bool
  ae_whitelistPatternId :: "string option"
  ae_persona :: "string option"

record tool_call_response =
  resp_content :: jsval
  resp_isError :: bool
  resp_policyDecision :: policy_decision

text \<open>A promise that resolves, rejects with a message, or never settles.\<close>

datatype call_outcome = Returned tool_call_response | Raised string | Unsettled

record escalation_response =
  es_approved :: bool
  es_selection :: "int option"

section \<open>Helpers\<close>

definition textBlock :: "string \<Rightarrow> jsval" where
  "textBlock t = JObj [(''type'', JStr ''text''), (''text'', JStr t)]"

text \<open>Blocks of a validated MCP result are objects.\<close>

definition blockText :: "jsval \<Rightarrow> string list" where
  "blockText c =
     (case c of
        JObj block \<Rightarrow>
          (case (getProp block ''type'' = JStr ''text'', getProp block ''text'') of
             (True, JStr t) \<Rightarrow> [t] | _ \<Rightarrow> [])
      | _ \<Rightarrow> [])"

definition extractTextFromContent :: "jsval \<Rightarrow> string option" where
  "extractTextFromContent content =
     (case content of
        JArr blocks \<Rightarrow>
          (let texts = concat (map blockText blocks)
           in if texts \<noteq> [] then Some (joinWith newline texts) else None)
      | _ \<Rightarrow> None)"

definition isRootsRaceError :: "jsobj \<Rightarrow> bool" where
  "isRootsRaceError result =
     (if \<not> (hasProp result ''isError'' \<and> truthy (getProp result ''isError'')) then False
      else case extractTextFromContent (getProp result ''content'') of
             None \<Rightarrow> False
           | Some t \<Rightarrow>
               t \<noteq> [] \<and>
               (strIncludes (toLowerCase t) ''access denied'' \<or>
                strIncludes (toLowerCase t) ''outside allowed directories''))"

definition ESCALATION_POLL_INTERVAL_MS :: rat where "ESCALATION_POLL_INTERVAL_MS = 500"
definition DEFAULT_ESCALATION_TIMEOUT_SECONDS :: rat where "DEFAULT_ESCALATION_TIMEOUT_SECONDS = 300"
definition TRUSTED_INPUT_STALENESS_MS :: rat where "TRUSTED_INPUT_STALENESS_MS = 120000"

text \<open>\<open>parseDate\<close> is \<open>new Date(s).getTime()\<close>, \<open>None\<close> for not-a-number.\<close>

definition isUserContextTrusted :: "(string \<Rightarrow> rat option) \<Rightarrow> UserContext \<Rightarrow> bool \<Rightarrow> rat \<Rightarrow> bool" where
  "isUserContextTrusted parseDate context isPtySession now =
     (let sourceValid = (\<not> isPtySession \<or> uc_source context = Some ''mux-trusted-input'')
      in if \<not> sourceValid then False
         else let stale = (case uc_timestamp context of
                             None \<Rightarrow> isPtySession
                           | Some ts \<Rightarrow>
                               (case parseDate ts of
                                  None \<Rightarrow> isPtySession
                                | Some tsMs \<Rightarrow>
                                    (let ageMs = now - tsMs
                                     in ageMs > TRUSTED_INPUT_STALENESS_MS \<or> ageMs < 0)))
              in \<not> stale)"

text \<open>\<open>parseNumber\<close> is \<open>Number(s)\<close>, \<open>None\<close> when it is not finite.\<close>

definition getEscalationTimeoutMs :: "(string \<Rightarrow> rat option) \<Rightarrow> string option \<Rightarrow> rat" where
  "getEscalationTimeoutMs parseNumber env =
     (case truthyDir env of
        Some s \<Rightarrow>
          (case parseNumber s of
             Some n \<Rightarrow> (if n > 0 then n * 1000 else DEFAULT_ESCALATION_TIMEOUT_SECONDS * 1000)
           | None \<Rightarrow> DEFAULT_ESCALATION_TIMEOUT_SECONDS * 1000)
      | None \<Rightarrow> DEFAULT_ESCALATION_TIMEOUT_SECONDS * 1000)"

section \<open>Waiting for the response file\<close>

text \<open>A read of the response file: absent, text that \<open>JSON.parse\<close> rejects with a message, or a
  value. Reading a property of \<open>null\<close> throws as well.\<close>

datatype file_read = FileAbsent | FileMalformed string | FileParsed jsval

definition deniedResponse :: escalation_response where
  "deniedResponse = \<lparr>es_approved = False, es_selection = None\<rparr>"

definition isIntegral :: "rat \<Rightarrow> bool" where
  "isIntegral n = (of_int \<lfloor>n\<rfloor> = n)"

definition readEscalationResponse :: "file_read \<Rightarrow> string + escalation_response option" where
  "readEscalationResponse file =
     (case file of
        FileAbsent \<Rightarrow> Inr None
      | FileMalformed m \<Rightarrow> Inl m
      | FileParsed JNull \<Rightarrow> Inl ''Cannot read properties of null''
      | FileParsed (JObj raw) \<Rightarrow>
          (let d = getProp raw ''decision''
           in if d \<noteq> JStr ''approved'' \<and> d \<noteq> JStr ''denied'' then Inr (Some deniedResponse)
              else Inr (Some \<lparr>es_approved = (d = JStr ''approved''),
                     es_selection = (case getProp raw ''whitelistSelection'' of
                       JNum n \<Rightarrow> (if isIntegral n then Some \<lfloor>n\<rfloor> else None) | _ \<Rightarrow> None)\<rparr>))
      | FileParsed _ \<Rightarrow> Inr (Some deniedResponse))"

datatype wait_outcome = WaitDone escalation_response | WaitThrew string | WaitPending

text \<open>The loop: \<open>clock i\<close> and \<open>file i\<close> are the readings of iteration \<open>i\<close>; the first argument bounds
  the iterations.\<close>

fun pollResponse :: "nat \<Rightarrow> (nat \<Rightarrow> rat) \<Rightarrow> (nat \<Rightarrow> file_read) \<Rightarrow> rat \<Rightarrow> nat \<Rightarrow> wait_outcome" where
  "pollResponse 0 clock file deadline i = WaitPending"
| "pollResponse (Suc n) clock file deadline i =
     (if clock i < deadline then
        (case readEscalationResponse (file i) of
           Inl m \<Rightarrow> WaitThrew m
         | Inr (Some r) \<Rightarrow> WaitDone r
         | Inr None \<Rightarrow> pollResponse n clock file deadline (Suc i))
      else
        (case readEscalationResponse (file i) of
           Inl m \<Rightarrow> WaitThrew m
         | Inr (Some r) \<Rightarrow> WaitDone r
         | Inr None \<Rightarrow> WaitDone deniedResponse))"

definition pollFuel :: "rat \<Rightarrow> nat" where
  "pollFuel timeout = nat \<lceil>timeout / ESCALATION_POLL_INTERVAL_MS\<rceil> + 2"

definition waitForEscalationDecision :: "rat \<Rightarrow> (nat \<Rightarrow> rat) \<Rightarrow> (nat \<Rightarrow> file_read) \<Rightarrow> wait_outcome" where
  "waitForEscalationDecision timeout clock file =
     (let deadline = clock 0 + timeout
      in pollResponse (pollFuel timeout) clock file deadline 1)"

section \<open>Argument validation\<close>

definition jsonSchemaTypeOf :: "jsval \<Rightarrow> string option" where
  "jsonSchemaTypeOf value =
     (case value of
        JNull \<Rightarrow> Some ''null''
      | JArr _ \<Rightarrow> Some ''array''
      | JStr _ \<Rightarrow> Some ''string''
      | JNum _ \<Rightarrow> Some ''number''
      | JBool _ \<Rightarrow> Some ''boolean''
      | JObj _ \<Rightarrow> Some ''object''
      | JUndefined \<Rightarrow> None)"

definition matchesJsonSchemaType :: "jsval \<Rightarrow> string \<Rightarrow> bool" where
  "matchesJsonSchemaType value expected =
     (if expected = ''integer'' then (case value of JNum n \<Rightarrow> isIntegral n | _ \<Rightarrow> False)
      else if expected = ''number'' then (case value of JNum n \<Rightarrow> True | _ \<Rightarrow> False)
      else if expected \<in> {''string'', ''boolean'', ''null'', ''array'', ''object''}
        then jsonSchemaTypeOf value = Some expected
      else True)"

text \<open>The own entries of a value of type \<open>object\<close>; an array has its indices as keys.\<close>

definition objectEntries :: "runtime \<Rightarrow> jsval \<Rightarrow> jsobj option" where
  "objectEntries rt v =
     (case v of
        JObj ps \<Rightarrow> Some ps
      | JArr xs \<Rightarrow> Some (zip (map (\<lambda>i. showNum rt (of_nat i)) [0..<length xs]) xs)
      | _ \<Rightarrow> None)"

text \<open>The declared \<open>type\<close> of a property, when the property schema is an object and names one.\<close>

definition declaredType :: "jsobj \<Rightarrow> string \<Rightarrow> string option" where
  "declaredType props key =
     (case getProp props key of
        JObj propSchema \<Rightarrow> (case getProp propSchema ''type'' of JStr t \<Rightarrow> Some t | _ \<Rightarrow> None)
      | _ \<Rightarrow> None)"

definition isVowelFirst :: "string \<Rightarrow> bool" where
  "isVowelFirst s = (case s of [] \<Rightarrow> False | c # _ \<Rightarrow> toLowerChar c \<in> set ''aeiou'')"

definition typeMismatch :: "jsobj \<Rightarrow> string \<times> jsval \<Rightarrow> string option" where
  "typeMismatch props entry =
     (case entry of (key, value) \<Rightarrow>
        (case declaredType props key of
           None \<Rightarrow> None
         | Some expected \<Rightarrow>
             (if matchesJsonSchemaType value expected then None
              else Some (''Argument '' @ quoted key @ '' must be '' @ (if isVowelFirst expected then ''an'' else ''a'') @
                     '' '' @ expected @ '' (got '' @
                     (case jsonSchemaTypeOf value of Some t \<Rightarrow> t | None \<Rightarrow> ''undefined'') @ '').''))))"

fun firstSome :: "('a \<Rightarrow> 'b option) \<Rightarrow> 'a list \<Rightarrow> 'b option" where
  "firstSome f [] = None"
| "firstSome f (x # xs) = (case f x of Some y \<Rightarrow> Some y | None \<Rightarrow> firstSome f xs)"

definition validateToolArguments :: "runtime \<Rightarrow> jsobj \<Rightarrow> jsobj \<Rightarrow> string option" where
  "validateToolArguments rt args inputSchema =
     (case objectEntries rt (getProp inputSchema ''properties'') of
        None \<Rightarrow> None
      | Some props \<Rightarrow>
          (if truthy (getProp inputSchema ''additionalProperties'') then None
           else let validKeys = uniq (map fst props);
                    unknownKeys = filter (\<lambda>k. k \<notin> set validKeys) (map fst args)
                in if unknownKeys \<noteq> [] then
                     Some (ERROR_PREFIX_UNKNOWN_ARGS @ '' '' @ joinWith '', '' (map quoted unknownKeys) @
                       ''. Valid parameters are: '' @ joinWith '', '' (map quoted (sort validKeys)))
                   else firstSome (typeMismatch props) args))"

section \<open>Tool keys and maps\<close>

fun cutAtDoubleUnderscore :: "string \<Rightarrow> (string \<times> string) option" where
  "cutAtDoubleUnderscore [] = None"
| "cutAtDoubleUnderscore (c # cs) =
     (if startsWith (c # cs) ''__'' then Some ([], drop 2 (c # cs))
      else map_option (\<lambda>(a, b). (c # a, b)) (cutAtDoubleUnderscore cs))"

definition splitToolKey :: "string \<Rightarrow> string \<times> string" where
  "splitToolKey key = (case cutAtDoubleUnderscore key of None \<Rightarrow> (''unknown'', key) | Some p \<Rightarrow> p)"

definition buildToolMap :: "proxied_tool list \<Rightarrow> (string \<times> proxied_tool) list" where
  "buildToolMap allTools = foldl (\<lambda>m tool. setProp m (pt_name tool) tool) [] allTools"

definition toolOwners :: "proxied_tool list \<Rightarrow> string \<Rightarrow> string list" where
  "toolOwners allTools name = map pt_serverName (filter (\<lambda>t. pt_name t = name) allTools)"

text \<open>\<open>None\<close> when the names are unique, otherwise the duplicates with their owners.\<close>

definition assertUniqueToolNames :: "proxied_tool list \<Rightarrow> (string \<times> string list) list option" where
  "assertUniqueToolNames allTools =
     (let byName = map (\<lambda>n. (n, toolOwners allTools n)) (uniq (map pt_name allTools));
          collisions = filter (\<lambda>(_, owners). length owners > 1) byName
      in if collisions = [] then None else Some collisions)"

section \<open>Dependencies, observations and state\<close>

definition CONTAINER_WORKSPACE_DIR :: string where "CONTAINER_WORKSPACE_DIR = ''/workspace''"

text \<open>\<open>CallToolDeps\<close> without the mutable members. An escalation callback throws a message or
  answers; \<open>runtime\<close>, the date and the number parser are what the language runtime provides.\<close>

record call_tool_deps =
  dp_toolMap :: "(string \<times> proxied_tool) list"
  dp_policyEngine :: policy_engine
  dp_sandboxed :: "(string \<times> bool) list"
  dp_allowedDirectory :: "string option"
  dp_escalationDir :: "string option"
  dp_autoApproveModel :: "llm option"
  dp_controlApiClient :: "ControlApiClient option"
  dp_onEscalation :: "(tool_call_request \<Rightarrow> string \<Rightarrow> (string \<times> string) list option \<Rightarrow> string list option \<Rightarrow>
                       string + escalation_response) option"
  dp_autoApproveUserMessage :: "string option"
  dp_persona :: "string option"
  dp_escalationTimeoutEnv :: "string option"
  dp_isPtySession :: bool
  dp_runtime :: runtime
  dp_parseDate :: "string \<Rightarrow> rat option"
  dp_parseNumber :: "string \<Rightarrow> rat option"

datatype root_outcome = RootAdded | RootTimeout | RootSendFailed string

record call_world =
  w_requestId :: string
  w_timestamp :: string
  w_escalationId :: string
  w_candidateTime :: string
  w_patternId :: string
  w_contextFile :: "jsval option"
  w_contextFileAgain :: "jsval option"
  w_contextNow :: rat
  w_pollClock :: "nat \<Rightarrow> rat"
  w_pollFile :: "nat \<Rightarrow> file_read"
  w_rootOutcome :: "mcp_root \<Rightarrow> root_outcome"
  w_breakerNow :: rat
  w_callTool :: "nat \<Rightarrow> thrown + jsobj"
  w_elapsed :: rat
  w_elapsedFirst :: rat

text \<open>What left the process: a call of a backend tool with its arguments, or a request to the
  control API.\<close>

datatype effect = Forwarded string string jsobj | Controlled control_call

record pipeline_state =
  ps_audit :: "audit_entry list"
  ps_breaker :: CallCircuitBreaker
  ps_whitelist :: ApprovalWhitelist
  ps_context :: ServerContextMap
  ps_roots :: "(string \<times> mcp_root list) list"
  ps_effects :: "effect list"

section \<open>Audit entries\<close>

text \<open>The mutable approval variables of the handler.\<close>

record approval =
  ap_decision :: policy_decision
  ap_escalation :: "esc_result option"
  ap_auto :: bool
  ap_whitelist :: bool
  ap_patternId :: "string option"
  ap_rootsExpanded :: bool

definition buildAuditEntry ::
  "tool_call_request \<Rightarrow> jsobj \<Rightarrow> approval \<Rightarrow> result_status \<Rightarrow> string option \<Rightarrow> rat \<Rightarrow>
   esc_result option \<Rightarrow> bool \<Rightarrow> string option \<Rightarrow> audit_entry" where
  "buildAuditEntry request transportArgs ap status err durationMs escalation sandboxed persona =
     \<lparr>ae_timestamp = timestamp request, ae_requestId = requestId request,
      ae_serverName = serverName request, ae_toolName = toolName request,
      ae_arguments = transportArgs, ae_policyDecision = ap_decision ap,
      ae_escalationResult = escalation, ae_resultStatus = status, ae_resultError = err,
      ae_durationMs = durationMs, ae_sandboxed = sandboxed, ae_autoApproved = ap_auto ap,
      ae_whitelistApproved = ap_whitelist ap, ae_whitelistPatternId = ap_patternId ap,
      ae_persona = persona\<rparr>"

definition noApproval :: "policy_decision \<Rightarrow> approval" where
  "noApproval d = \<lparr>ap_decision = d, ap_escalation = None, ap_auto = False, ap_whitelist = False,
     ap_patternId = None, ap_rootsExpanded = False\<rparr>"

text \<open>A call that passed the checks before the policy evaluation.\<close>

record call_info =
  ci_tool :: proxied_tool
  ci_annotation :: "tool_annotation option"
  ci_transport :: jsobj
  ci_request :: tool_call_request
  ci_sandboxed :: bool

definition pushAudit :: "audit_entry \<Rightarrow> pipeline_state \<Rightarrow> pipeline_state" where
  "pushAudit entry st = st\<lparr>ps_audit := ps_audit st @ [entry]\<rparr>"

text \<open>The closure \<open>logAudit\<close>.\<close>

definition logAudit ::
  "call_tool_deps \<Rightarrow> call_info \<Rightarrow> approval \<Rightarrow> result_status \<Rightarrow> string option \<Rightarrow> rat \<Rightarrow> esc_result option \<Rightarrow>
   pipeline_state \<Rightarrow> pipeline_state" where
  "logAudit deps info ap status err durationMs overrideEscalation st =
     pushAudit (buildAuditEntry (ci_request info) (ci_transport info) ap status err durationMs
       (case overrideEscalation of Some r \<Rightarrow> Some r | None \<Rightarrow> ap_escalation ap)
       (ci_sandboxed info) (dp_persona deps)) st"

definition errorResponse :: "string \<Rightarrow> policy_decision \<Rightarrow> call_outcome" where
  "errorResponse t d =
     Returned \<lparr>resp_content = JArr [textBlock t], resp_isError = True, resp_policyDecision = d\<rparr>"

section \<open>Checks before the policy evaluation\<close>

text \<open>A rejection: the server and tool to attribute it to, the rule, the reason and the text.\<close>

record rejection =
  rj_serverName :: string
  rj_toolName :: string
  rj_rule :: string
  rj_reason :: string
  rj_text :: string

definition rejectCall ::
  "call_tool_deps \<Rightarrow> call_world \<Rightarrow> jsobj \<Rightarrow> rejection \<Rightarrow> pipeline_state \<Rightarrow> pipeline_state \<times> call_outcome" where
  "rejectCall deps w rawArgs rj st =
     (let d = \<lparr>pd_status = Deny, pd_rule = rj_rule rj, pd_reason = rj_reason rj\<rparr>;
          request = \<lparr>requestId = w_requestId w, serverName = rj_serverName rj, toolName = rj_toolName rj,
                     arguments = rawArgs, timestamp = w_timestamp w\<rparr>
      in (pushAudit (buildAuditEntry request rawArgs (noApproval d) ResultDenied (Some (rj_reason rj)) 0 None False
            (dp_persona deps)) st,
          errorResponse (rj_text rj) d))"

definition rejectTool :: "proxied_tool \<Rightarrow> string \<Rightarrow> string \<Rightarrow> string \<Rightarrow> rejection" where
  "rejectTool tool rule reason t =
     \<lparr>rj_serverName = pt_serverName tool, rj_toolName = pt_name tool, rj_rule = rule, rj_reason = reason, rj_text = t\<rparr>"

definition GIT_NO_WORKDIR :: string where
  "GIT_NO_WORKDIR = ''Git server has no working directory set. Call git_set_working_dir first.''"

definition hasEffectivePath :: "jsobj \<Rightarrow> bool" where
  "hasEffectivePath rawArgs =
     (case getProp rawArgs ''path'' of JStr p \<Rightarrow> trim p \<noteq> [] | _ \<Rightarrow> False)"

text \<open>The arguments after the enrichment of git calls with the tracked working directory;
  \<open>None\<close> when none is known.\<close>

definition enrichGitArgs :: "proxied_tool \<Rightarrow> tool_annotation \<Rightarrow> ServerContextMap \<Rightarrow> jsobj \<Rightarrow> jsobj option" where
  "enrichGitArgs tool annotation ctx rawArgs =
     (if pt_serverName tool = ''git'' \<and> ''path'' \<in> fst ` set (ta_args annotation) \<and> \<not> hasEffectivePath rawArgs then
        (case truthyDir (workingDirectory ctx ''git'') of
           None \<Rightarrow> None
         | Some gitWorkDir \<Rightarrow> Some (setProp rawArgs ''path'' (JStr gitWorkDir)))
      else Some rawArgs)"

definition mkInfo :: "call_tool_deps \<Rightarrow> call_world \<Rightarrow> proxied_tool \<Rightarrow> tool_annotation option \<Rightarrow> prepared_args \<Rightarrow> call_info" where
  "mkInfo deps w tool annotation prep =
     \<lparr>ci_tool = tool, ci_annotation = annotation, ci_transport = argsForTransport prep,
      ci_request = \<lparr>requestId = w_requestId w, serverName = pt_serverName tool, toolName = pt_name tool,
                    arguments = argsForPolicy prep, timestamp = w_timestamp w\<rparr>,
      ci_sandboxed = (map_of (dp_sandboxed deps) (pt_serverName tool) = Some True)\<rparr>"

definition admitCall ::
  "host \<Rightarrow> call_tool_deps \<Rightarrow> call_world \<Rightarrow> pipeline_state \<Rightarrow> string \<Rightarrow> jsobj \<Rightarrow> rejection + call_info" where
  "admitCall h deps w st tool rawArgs =
     (case map_of (dp_toolMap deps) tool of
        None \<Rightarrow>
          (let reason = ''Unknown tool: '' @ tool; (srv, bare) = splitToolKey tool
           in Inl \<lparr>rj_serverName = srv, rj_toolName = bare, rj_rule = ''unknown-tool'', rj_reason = reason, rj_text = reason\<rparr>)
      | Some toolInfo \<Rightarrow>
          (let engine = dp_policyEngine deps;
               annotation = getAnnotation engine (pt_serverName toolInfo) (pt_name toolInfo) rawArgs;
               trustedServer = isTrustedServer engine (pt_serverName toolInfo);
               isTrusted = (annotation = None \<and> trustedServer);
               missing = ERROR_PREFIX_MISSING_ANNOTATION @ '' '' @ pt_serverName toolInfo @ ''__'' @ pt_name toolInfo @
                 ''. Re-run '' @ [CHR 0x27] @ ''ironcurtain annotate-tools'' @ [CHR 0x27] @ '' to update.''
           in if annotation = None \<and> \<not> isTrusted then
                Inl (rejectTool toolInfo ''missing-annotation'' missing missing)
              else case (if trustedServer then None
                         else validateToolArguments (dp_runtime deps) rawArgs (pt_inputSchema toolInfo)) of
                Some err \<Rightarrow> Inl (rejectTool toolInfo ''invalid-arguments'' err err)
              | None \<Rightarrow>
                  (case annotation of
                     None \<Rightarrow> Inr (mkInfo deps w toolInfo None \<lparr>argsForTransport = rawArgs, argsForPolicy = rawArgs\<rparr>)
                   | Some ann \<Rightarrow>
                       (case enrichGitArgs toolInfo ann (ps_context st) rawArgs of
                          None \<Rightarrow> Inl (rejectTool toolInfo ''git-path-enrichment-failed'' GIT_NO_WORKDIR
                                         (''Error: '' @ GIT_NO_WORKDIR))
                        | Some effectiveRawArgs \<Rightarrow>
                            Inr (mkInfo deps w toolInfo (Some ann)
                              (prepareToolArgs h effectiveRawArgs ann (dp_allowedDirectory deps)
                                 (Some CONTAINER_WORKSPACE_DIR)))))))"

section \<open>Dispatch\<close>

text \<open>The response and audit entry of an answered call.\<close>

definition finishCall ::
  "call_tool_deps \<Rightarrow> call_world \<Rightarrow> call_info \<Rightarrow> approval \<Rightarrow> jsobj \<Rightarrow> pipeline_state \<Rightarrow> pipeline_state \<times> call_outcome" where
  "finishCall deps w info ap result st =
     (let content = getProp result ''content'';
          rewrittenContent = (case truthyDir (dp_allowedDirectory deps) of
            Some d \<Rightarrow> rewriteResultContent content d CONTAINER_WORKSPACE_DIR | None \<Rightarrow> content)
      in if truthy (getProp result ''isError'') then
           (let errorText = (case extractTextFromContent rewrittenContent of
                               Some t \<Rightarrow> t | None \<Rightarrow> ''Unknown tool error'')
            in (logAudit deps info ap ResultError (Some (annotateSandboxViolation errorText (ci_sandboxed info)))
                  (w_elapsed w) None st,
                Returned \<lparr>resp_content = rewrittenContent, resp_isError = True, resp_policyDecision = ap_decision ap\<rparr>))
         else
           (logAudit deps info ap ResultSuccess None (w_elapsed w) None
              (st\<lparr>ps_context := updateServerContext (ps_context st) (pt_serverName (ci_tool info))
                   (pt_name (ci_tool info)) (ci_transport info)\<rparr>),
            Returned \<lparr>resp_content = rewrittenContent, resp_isError = False, resp_policyDecision = ap_decision ap\<rparr>))"

text \<open>The catch block of the dispatch. Extracting the message may itself throw.\<close>

definition failCall ::
  "call_tool_deps \<Rightarrow> call_world \<Rightarrow> call_info \<Rightarrow> approval \<Rightarrow> thrown \<Rightarrow> pipeline_state \<Rightarrow> pipeline_state \<times> call_outcome" where
  "failCall deps w info ap err st =
     (case extractMcpErrorMessage err of
        None \<Rightarrow> (st, Raised ''Cannot read properties of null'')
      | Some rawError \<Rightarrow>
          (let errorMessage = annotateSandboxViolation rawError (ci_sandboxed info);
               errorContent = JArr [textBlock (''Error: '' @ errorMessage)]
           in (logAudit deps info ap ResultError (Some errorMessage) (w_elapsed w) None st,
               Returned \<lparr>resp_content = (case truthyDir (dp_allowedDirectory deps) of
                   Some d \<Rightarrow> rewriteResultContent errorContent d CONTAINER_WORKSPACE_DIR | None \<Rightarrow> errorContent),
                 resp_isError = True, resp_policyDecision = ap_decision ap\<rparr>)))"

definition sendCall :: "call_info \<Rightarrow> pipeline_state \<Rightarrow> pipeline_state" where
  "sendCall info st =
     st\<lparr>ps_effects := ps_effects st @
       [Forwarded (pt_serverName (ci_tool info)) (pt_name (ci_tool info)) (ci_transport info)]\<rparr>"

text \<open>The mitigation of the race between the roots notification and the call: log and retry once.\<close>

definition raceMessage :: "jsobj \<Rightarrow> string" where
  "raceMessage result =
     ''Roots race detected, retrying: '' @
     (case extractTextFromContent (getProp result ''content'') of
        Some t \<Rightarrow> t | None \<Rightarrow> ''access denied (roots race)'')"

definition retryCall ::
  "call_tool_deps \<Rightarrow> call_world \<Rightarrow> call_info \<Rightarrow> approval \<Rightarrow> jsobj \<Rightarrow> pipeline_state \<Rightarrow> pipeline_state \<times> call_outcome" where
  "retryCall deps w info ap result st =
     (let st' = sendCall info (logAudit deps info ap ResultError (Some (raceMessage result)) (w_elapsedFirst w) None st)
      in case w_callTool w 1 of
           Inl err \<Rightarrow> failCall deps w info ap err st'
         | Inr result2 \<Rightarrow> finishCall deps w info ap result2 st')"

definition forwardCall ::
  "call_tool_deps \<Rightarrow> call_world \<Rightarrow> call_info \<Rightarrow> approval \<Rightarrow> pipeline_state \<Rightarrow> pipeline_state \<times> call_outcome" where
  "forwardCall deps w info ap st =
     (case map_of (ps_roots st) (pt_serverName (ci_tool info)) of
        None \<Rightarrow>
          (let err = ''Internal error: no client connection for server '' @ quoted (pt_serverName (ci_tool info))
           in (logAudit deps info ap ResultDenied (Some err) 0 None st,
               errorResponse err \<lparr>pd_status = Deny, pd_rule = ''no-client-connection'', pd_reason = err\<rparr>))
      | Some _ \<Rightarrow>
          (case w_callTool w 0 of
             Inl err \<Rightarrow> failCall deps w info ap err (sendCall info st)
           | Inr result \<Rightarrow>
               (if ap_rootsExpanded ap \<and> isRootsRaceError result
                then retryCall deps w info ap result (sendCall info st)
                else finishCall deps w info ap result (sendCall info st))))"

definition virtualCall ::
  "call_tool_deps \<Rightarrow> call_world \<Rightarrow> call_info \<Rightarrow> approval \<Rightarrow> ControlApiClient \<Rightarrow> pipeline_state \<Rightarrow>
   pipeline_state \<times> call_outcome" where
  "virtualCall deps w info ap client st =
     (let (calls, res) = handleVirtualProxyTool client (pt_name (ci_tool info)) (ci_transport info);
          st1 = st\<lparr>ps_effects := ps_effects st @ map Controlled calls\<rparr>
      in case res of
           Inr result \<Rightarrow>
             (logAudit deps info ap ResultSuccess None (w_elapsed w) None st1,
              Returned \<lparr>resp_content = JArr [textBlock (orEmpty (jsonStringify (dp_runtime deps) result))],
                resp_isError = False, resp_policyDecision = ap_decision ap\<rparr>)
         | Inl e \<Rightarrow>
             (let errorMessage = proxyErrorMessage (dp_runtime deps) e
              in (logAudit deps info ap ResultError (Some errorMessage) (w_elapsed w) None st1,
                  errorResponse (''Error: '' @ errorMessage) (ap_decision ap))))"

text \<open>From the circuit breaker on.\<close>

definition dispatchCall ::
  "call_tool_deps \<Rightarrow> call_world \<Rightarrow> call_info \<Rightarrow> approval \<Rightarrow> pipeline_state \<Rightarrow> pipeline_state \<times> call_outcome" where
  "dispatchCall deps w info ap st =
     (let circuitBreakerKey = pt_serverName (ci_tool info) @ ''__'' @ pt_name (ci_tool info);
          (b', verdict) = check (dp_runtime deps) (ps_breaker st) (w_breakerNow w) circuitBreakerKey (ci_transport info);
          st1 = st\<lparr>ps_breaker := b'\<rparr>
      in case verdict of
           BreakerRefused reason \<Rightarrow>
             (logAudit deps info ap ResultDenied (Some reason) 0 None st1,
              errorResponse reason \<lparr>pd_status = Deny, pd_rule = ''circuit-breaker'', pd_reason = reason\<rparr>)
         | BreakerAllowed \<Rightarrow>
             (case (pt_serverName (ci_tool info) = ''proxy'', dp_controlApiClient deps) of
                (True, Some client) \<Rightarrow> virtualCall deps w info ap client st1
              | _ \<Rightarrow> forwardCall deps w info ap st1))"

section \<open>Escalation\<close>

definition addRootToClient ::
  "(mcp_root \<Rightarrow> root_outcome) \<Rightarrow> mcp_root list \<Rightarrow> mcp_root \<Rightarrow> mcp_root list \<times> (string + bool)" where
  "addRootToClient notify roots newRoot =
     (if list_ex (\<lambda>r. uri r = uri newRoot) roots then (roots, Inr False)
      else (roots @ [newRoot],
            case notify newRoot of
              RootAdded \<Rightarrow> Inr True
            | RootTimeout \<Rightarrow> Inr False
            | RootSendFailed m \<Rightarrow> Inl m))"

text \<open>The loop over the approved paths; the flag is \<open>rootsExpanded\<close>.\<close>

fun expandRoots ::
  "host \<Rightarrow> (mcp_root \<Rightarrow> root_outcome) \<Rightarrow> string list \<Rightarrow> mcp_root list \<Rightarrow> bool \<Rightarrow> mcp_root list \<times> (string + bool)" where
  "expandRoots h notify [] roots expanded = (roots, Inr expanded)"
| "expandRoots h notify (p # ps) roots expanded =
     (case addRootToClient notify roots
             \<lparr>uri = ''file://'' @ directoryForPath h p, rname = ''escalation-approved''\<rparr> of
        (roots', Inl m) \<Rightarrow> (roots', Inl m)
      | (roots', Inr added) \<Rightarrow> expandRoots h notify ps roots' (expanded \<or> added))"

text \<open>An approved escalation: expand the roots, then dispatch.\<close>

definition approveAndDispatch ::
  "host \<Rightarrow> call_tool_deps \<Rightarrow> call_world \<Rightarrow> call_info \<Rightarrow> approval \<Rightarrow> pipeline_state \<Rightarrow> pipeline_state \<times> call_outcome" where
  "approveAndDispatch h deps w info ap st =
     (let srv = pt_serverName (ci_tool info)
      in case (map_of (ps_roots st) srv, ci_annotation info) of
           (Some roots, Some ann) \<Rightarrow>
             (let pathValues = extractAnnotatedPaths (ci_transport info) ann getPathRoles;
                  (roots', res) = expandRoots h (w_rootOutcome w) pathValues roots False;
                  st1 = st\<lparr>ps_roots := setProp (ps_roots st) srv roots'\<rparr>
              in case res of
                   Inl m \<Rightarrow> (st1, Raised m)
                 | Inr expanded \<Rightarrow> dispatchCall deps w info (ap\<lparr>ap_rootsExpanded := expanded\<rparr>) st1)
         | _ \<Rightarrow> dispatchCall deps w info ap st)"

text \<open>What is captured before the wait.\<close>

record pending_escalation =
  pe_patterns :: "pattern_data list"
  pe_ipcs :: "string list"
  pe_context :: "(string \<times> string) list option"

datatype decision_outcome = AutoApproved string | HumanDecision escalation_response | DecisionThrew string | DecisionPending

text \<open>The part of \<open>waitForDecision\<close> that asks the auto-approver: its reasoning when it approves.\<close>

definition tryAutoApprove :: "host \<Rightarrow> call_tool_deps \<Rightarrow> call_world \<Rightarrow> call_info \<Rightarrow> evaluation_result \<Rightarrow> string option" where
  "tryAutoApprove h deps w info ev =
     (case dp_autoApproveModel deps of
        None \<Rightarrow> None
      | Some model \<Rightarrow>
          (let useFile = (dp_autoApproveUserMessage deps = None \<and> truthyDir (dp_escalationDir deps) \<noteq> None);
               userMessage = (case dp_autoApproveUserMessage deps of
                   Some m \<Rightarrow> Some m
                 | None \<Rightarrow> (if useFile then map_option uc_userMessage (readUserContext (w_contextFile w)) else None))
           in case userMessage of
                None \<Rightarrow> None
              | Some m \<Rightarrow>
                  (if m = [] then None
                   else let trusted = (if useFile then
                          (case readUserContext (w_contextFileAgain w) of
                             None \<Rightarrow> False
                           | Some ctx \<Rightarrow> isUserContextTrusted (dp_parseDate deps) ctx (dp_isPtySession deps) (w_contextNow w))
                          else True)
                        in if \<not> trusted then None
                           else let autoResult = autoApprove model
                                  \<lparr>ac_userMessage = m,
                                   ac_toolName = pt_serverName (ci_tool info) @ ''/'' @ pt_name (ci_tool info),
                                   ac_escalationReason = er_reason ev,
                                   ac_arguments = extractArgsForAutoApprove h (arguments (ci_request info)) (ci_annotation info)\<rparr>
                                in if fst autoResult = Approve then Some (snd autoResult) else None)))"

definition waitForDecision ::
  "host \<Rightarrow> call_tool_deps \<Rightarrow> call_world \<Rightarrow> call_info \<Rightarrow> evaluation_result \<Rightarrow> pending_escalation \<Rightarrow> decision_outcome" where
  "waitForDecision h deps w info ev pe =
     (case tryAutoApprove h deps w info ev of
        Some reasoning \<Rightarrow> AutoApproved reasoning
      | None \<Rightarrow>
          (case dp_onEscalation deps of
             Some ask \<Rightarrow>
               (case ask ((ci_request info)\<lparr>arguments := ci_transport info\<rparr>) (er_reason ev) (pe_context pe)
                       (if pe_ipcs pe \<noteq> [] then Some (pe_ipcs pe) else None) of
                  Inl m \<Rightarrow> DecisionThrew m
                | Inr r \<Rightarrow> HumanDecision r)
           | None \<Rightarrow>
               (if dp_escalationDir deps = None then HumanDecision deniedResponse
                else case waitForEscalationDecision
                            (getEscalationTimeoutMs (dp_parseNumber deps) (dp_escalationTimeoutEnv deps))
                            (w_pollClock w) (w_pollFile w) of
                       WaitDone r \<Rightarrow> HumanDecision r
                     | WaitThrew m \<Rightarrow> DecisionThrew m
                     | WaitPending \<Rightarrow> DecisionPending)))"

definition decisionOf :: "evaluation_result \<Rightarrow> policy_decision" where
  "decisionOf ev = \<lparr>pd_status = er_decision ev, pd_rule = er_rule ev, pd_reason = er_reason ev\<rparr>"

definition denyWith :: "evaluation_result \<Rightarrow> string \<Rightarrow> policy_decision" where
  "denyWith ev reason = \<lparr>pd_status = Deny, pd_rule = er_rule ev, pd_reason = reason\<rparr>"

definition allowWith :: "evaluation_result \<Rightarrow> string \<Rightarrow> policy_decision" where
  "allowWith ev reason = \<lparr>pd_status = Allow, pd_rule = er_rule ev, pd_reason = reason\<rparr>"

definition addSelected :: "call_world \<Rightarrow> pattern_data list \<Rightarrow> int option \<Rightarrow> pipeline_state \<Rightarrow> pipeline_state" where
  "addSelected w patterns selection st =
     (case selection of
        None \<Rightarrow> st
      | Some i \<Rightarrow>
          (if 0 \<le> i \<and> i < int (length patterns) then
             (case addPattern (ps_whitelist st) (w_patternId w) (patterns ! nat i) of
                Inl _ \<Rightarrow> st
              | Inr (wl, _) \<Rightarrow> st\<lparr>ps_whitelist := wl\<rparr>)
           else st))"

text \<open>From the settled decision on. The candidate patterns have a constraint, so \<open>add\<close> does not
  throw (\<open>extracted_pattern\<close>).\<close>

definition settleEscalation ::
  "host \<Rightarrow> call_tool_deps \<Rightarrow> call_world \<Rightarrow> call_info \<Rightarrow> evaluation_result \<Rightarrow> pending_escalation \<Rightarrow> decision_outcome \<Rightarrow>
   pipeline_state \<Rightarrow> pipeline_state \<times> call_outcome" where
  "settleEscalation h deps w info ev pe settled st =
     (case settled of
        DecisionPending \<Rightarrow> (st, Unsettled)
      | DecisionThrew m \<Rightarrow>
          (let reason = ''Escalation wait failed: '' @ m
           in (logAudit deps info (noApproval (denyWith ev reason)) ResultDenied (Some reason) 0 (Some EscDenied) st, Raised m))
      | AutoApproved reasoning \<Rightarrow>
          approveAndDispatch h deps w info
            ((noApproval (allowWith ev (''Auto-approved: '' @ reasoning)))\<lparr>ap_auto := True, ap_escalation := Some EscApproved\<rparr>) st
      | HumanDecision response \<Rightarrow>
          (if \<not> es_approved response then
             (let d = denyWith ev ''Denied by human during escalation''
              in (logAudit deps info (noApproval d) ResultDenied (Some (pd_reason d)) 0 (Some EscDenied) st,
                  errorResponse (ERROR_PREFIX_ESCALATION_DENIED @ '' '' @ er_reason ev) d))
           else
             approveAndDispatch h deps w info
               ((noApproval (allowWith ev ''Approved by human during escalation''))\<lparr>ap_escalation := Some EscApproved\<rparr>)
               (addSelected w (pe_patterns pe) (es_selection response) st)))"

section \<open>The handler\<close>

text \<open>A call either finishes or waits for a decision.\<close>

datatype call_progress =
    Finished pipeline_state call_outcome
  | AwaitsDecision call_info evaluation_result pending_escalation

definition capturePending ::
  "host \<Rightarrow> call_world \<Rightarrow> call_info \<Rightarrow> evaluation_result \<Rightarrow> tool_annotation \<Rightarrow> pipeline_state \<Rightarrow> pending_escalation" where
  "capturePending h w info ev ann st =
     (let (patterns, ipcs) = extractWhitelistCandidates h (w_candidateTime w) (pt_serverName (ci_tool info))
            (pt_name (ci_tool info)) (arguments (ci_request info)) ann (er_escalatedRoles ev)
            (w_escalationId w) (er_reason ev)
      in \<lparr>pe_patterns = patterns, pe_ipcs = ipcs,
          pe_context = formatServerContext (ps_context st) (pt_serverName (ci_tool info))\<rparr>)"

text \<open>The whitelist match narrows the annotation with a cast: an escalated call has one
  (\<open>escalate_has_annotation\<close> in the theory of the properties).\<close>

definition reviewEscalation ::
  "host \<Rightarrow> call_tool_deps \<Rightarrow> call_world \<Rightarrow> call_info \<Rightarrow> evaluation_result \<Rightarrow> pipeline_state \<Rightarrow> call_progress" where
  "reviewEscalation h deps w info ev st =
     (let ann = the (ci_annotation info)
      in case matchPattern h (ps_whitelist st) (pt_serverName (ci_tool info)) (pt_name (ci_tool info))
                (arguments (ci_request info)) ann of
           Some p \<Rightarrow>
             (let (st', out) = approveAndDispatch h deps w info
                ((noApproval (allowWith ev (''Whitelist-approved: '' @ wp_description (wp_data p))))
                   \<lparr>ap_whitelist := True, ap_patternId := Some (wp_id p), ap_escalation := Some EscApproved\<rparr>) st
              in Finished st' out)
         | None \<Rightarrow>
             (if Option.is_none (dp_onEscalation deps) \<and> truthyDir (dp_escalationDir deps) = None then
                Finished
                  (logAudit deps info (noApproval (decisionOf ev)) ResultDenied (Some (er_reason ev)) 0 (Some EscDenied) st)
                  (errorResponse (ERROR_PREFIX_ESCALATION_REQUIRED @ '' '' @ er_reason ev @
                     ''. Action denied (no escalation handler).'') (denyWith ev (er_reason ev)))
              else AwaitsDecision info ev (capturePending h w info ev ann st)))"

definition beginCall ::
  "host \<Rightarrow> call_tool_deps \<Rightarrow> call_world \<Rightarrow> string \<Rightarrow> jsobj \<Rightarrow> pipeline_state \<Rightarrow> call_progress" where
  "beginCall h deps w tool rawArgs st =
     (case admitCall h deps w st tool rawArgs of
        Inl rj \<Rightarrow> (let (st', out) = rejectCall deps w rawArgs rj st in Finished st' out)
      | Inr info \<Rightarrow>
          (case evaluate (dp_policyEngine deps) h (ci_request info) of
             Inl _ \<Rightarrow> Finished st (Raised ''policy evaluation failed'')
           | Inr ev \<Rightarrow>
               (case er_decision ev of
                  Escalate \<Rightarrow> reviewEscalation h deps w info ev st
                | Deny \<Rightarrow>
                    Finished (logAudit deps info (noApproval (decisionOf ev)) ResultDenied (Some (er_reason ev)) 0 None st)
                      (errorResponse (ERROR_PREFIX_DENIED @ '' '' @ er_reason ev) (decisionOf ev))
                | Allow \<Rightarrow>
                    (let (st', out) = dispatchCall deps w info (noApproval (decisionOf ev)) st in Finished st' out))))"

definition resumeCall ::
  "host \<Rightarrow> call_tool_deps \<Rightarrow> call_world \<Rightarrow> call_info \<Rightarrow> evaluation_result \<Rightarrow> pending_escalation \<Rightarrow>
   pipeline_state \<Rightarrow> pipeline_state \<times> call_outcome" where
  "resumeCall h deps w info ev pe st =
     settleEscalation h deps w info ev pe (waitForDecision h deps w info ev pe) st"

text \<open>The handler when no other call runs during the wait.\<close>

definition handleCallTool ::
  "host \<Rightarrow> call_tool_deps \<Rightarrow> call_world \<Rightarrow> string \<Rightarrow> jsobj \<Rightarrow> pipeline_state \<Rightarrow> pipeline_state \<times> call_outcome" where
  "handleCallTool h deps w tool rawArgs st =
     (case beginCall h deps w tool rawArgs st of
        Finished st' out \<Rightarrow> (st', out)
      | AwaitsDecision info ev pe \<Rightarrow> resumeCall h deps w info ev pe st)"

end
