(* ===== verification/Pipeline_Props.thy ===== *)
theory Pipeline_Props
  imports Tool_Call_Pipeline
begin

text \<open>
  Lemmas and properties of the tool-call pipeline: which calls leave the process, what the audit log
  records, what a wait can decide, and what the argument checks establish.
\<close>

section \<open>Frame lemmas\<close>

named_theorems pipe_simps \<open>how the helpers of the handler change the state\<close>

lemma logAudit_fields [pipe_simps]:
  "ps_audit (logAudit deps info ap s e d o' st) = ps_audit st @
     [buildAuditEntry (ci_request info) (ci_transport info) ap s e d
       (case o' of Some r \<Rightarrow> Some r | None \<Rightarrow> ap_escalation ap) (ci_sandboxed info) (dp_persona deps)]"
  "ps_effects (logAudit deps info ap s e d o' st) = ps_effects st"
  "ps_whitelist (logAudit deps info ap s e d o' st) = ps_whitelist st"
  "ps_breaker (logAudit deps info ap s e d o' st) = ps_breaker st"
  "ps_roots (logAudit deps info ap s e d o' st) = ps_roots st"
  "ps_context (logAudit deps info ap s e d o' st) = ps_context st"
  by (simp_all add: logAudit_def pushAudit_def)

lemma sendCall_fields [pipe_simps]:
  "ps_audit (sendCall info st) = ps_audit st"
  "ps_effects (sendCall info st) =
     ps_effects st @ [Forwarded (pt_serverName (ci_tool info)) (pt_name (ci_tool info)) (ci_transport info)]"
  "ps_whitelist (sendCall info st) = ps_whitelist st"
  by (simp_all add: sendCall_def)

lemma addSelected_fields [pipe_simps]:
  "ps_audit (addSelected w ps i st) = ps_audit st"
  "ps_effects (addSelected w ps i st) = ps_effects st"
  "ps_breaker (addSelected w ps i st) = ps_breaker st"
  "ps_roots (addSelected w ps i st) = ps_roots st"
  "ps_context (addSelected w ps i st) = ps_context st"
  by (simp_all add: addSelected_def split: option.splits sum.splits prod.splits)

lemma buildAuditEntry_fields [pipe_simps]:
  "ae_requestId (buildAuditEntry request a ap s e d o' sb p) = requestId request"
  "ae_resultStatus (buildAuditEntry request a ap s e d o' sb p) = s"
  by (simp_all add: buildAuditEntry_def)

lemma errorResponse_Returned [pipe_simps]:
  "errorResponse t d = Returned \<lparr>resp_content = JArr [textBlock t], resp_isError = True, resp_policyDecision = d\<rparr>"
  by (simp add: errorResponse_def)

section \<open>What a call leaves in the log\<close>

text \<open>A returned call adds one or two entries of its own request, and the last one records a success
  exactly when the response is not an error.\<close>

definition auditedBy :: "string \<Rightarrow> pipeline_state \<Rightarrow> pipeline_state \<Rightarrow> bool \<Rightarrow> bool" where
  "auditedBy rid st st' failed \<longleftrightarrow>
     (\<exists>new. ps_audit st' = ps_audit st @ new \<and> new \<noteq> [] \<and> length new \<le> 2 \<and>
       (\<forall>a \<in> set new. ae_requestId a = rid) \<and>
       (ae_resultStatus (last new) \<noteq> ResultSuccess) = failed)"

lemma auditedBy_one:
  "ps_audit st' = ps_audit st @ [a] \<Longrightarrow> ae_requestId a = rid \<Longrightarrow>
   (ae_resultStatus a \<noteq> ResultSuccess) = failed \<Longrightarrow> auditedBy rid st st' failed"
  unfolding auditedBy_def by (rule exI [of _ "[a]"]) simp

lemma auditedBy_two:
  "ps_audit st' = ps_audit st @ [b, a] \<Longrightarrow> ae_requestId a = rid \<Longrightarrow> ae_requestId b = rid \<Longrightarrow>
   (ae_resultStatus a \<noteq> ResultSuccess) = failed \<Longrightarrow> auditedBy rid st st' failed"
  unfolding auditedBy_def by (rule exI [of _ "[b, a]"]) simp

lemma auditedBy_cong: "ps_audit st1 = ps_audit st \<Longrightarrow> auditedBy rid st1 st' failed \<Longrightarrow> auditedBy rid st st' failed"
  by (simp add: auditedBy_def)

text \<open>The last entry alone, for the two steps that end a dispatch.\<close>

definition endsWithEntry :: "call_info \<Rightarrow> pipeline_state \<Rightarrow> pipeline_state \<Rightarrow> bool \<Rightarrow> bool" where
  "endsWithEntry info st st' failed \<longleftrightarrow>
     (\<exists>a. ps_audit st' = ps_audit st @ [a] \<and> ae_requestId a = requestId (ci_request info) \<and>
        (ae_resultStatus a \<noteq> ResultSuccess) = failed)"

lemma finishCall_entry:
  "finishCall deps w info ap result st = (st', Returned r) \<Longrightarrow> endsWithEntry info st st' (resp_isError r)"
  by (auto simp: finishCall_def Let_def endsWithEntry_def pipe_simps split: if_splits)

lemma failCall_entry:
  "failCall deps w info ap err st = (st', Returned r) \<Longrightarrow> endsWithEntry info st st' (resp_isError r)"
  by (auto simp: failCall_def Let_def endsWithEntry_def pipe_simps split: option.splits)

lemma finishCall_effects: "ps_effects (fst (finishCall deps w info ap result st)) = ps_effects st"
  by (simp add: finishCall_def Let_def pipe_simps)

lemma failCall_effects: "ps_effects (fst (failCall deps w info ap err st)) = ps_effects st"
  by (simp add: failCall_def Let_def pipe_simps split: option.splits)

lemma finishCall_returns: "\<exists>st' r. finishCall deps w info ap result st = (st', Returned r)"
  by (simp add: finishCall_def Let_def)

lemma endsWithEntry_audited:
  "endsWithEntry info st st' failed \<Longrightarrow> auditedBy (requestId (ci_request info)) st st' failed"
  unfolding endsWithEntry_def by (elim exE conjE) (rule auditedBy_one)

lemma retryCall_audited:
  assumes "retryCall deps w info ap result st = (st', Returned r)"
  shows "\<exists>b a. ps_audit st' = ps_audit st @ [b, a] \<and> ae_requestId a = requestId (ci_request info) \<and>
    ae_requestId b = requestId (ci_request info) \<and> (ae_resultStatus a \<noteq> ResultSuccess) = resp_isError r"
proof -
  let ?st = "sendCall info (logAudit deps info ap ResultError (Some (raceMessage result)) (w_elapsedFirst w) None st)"
  have "endsWithEntry info ?st st' (resp_isError r)"
    using assms by (cases "w_callTool w 1") (simp_all add: retryCall_def Let_def failCall_entry finishCall_entry)
  then show ?thesis by (auto simp: endsWithEntry_def pipe_simps)
qed

text \<open>The first step of a forwarded call, over which the proofs split.\<close>

lemma forwardCall_cases:
  obtains (NoClient) "map_of (ps_roots st) (pt_serverName (ci_tool info)) = None"
    | (Failed) err where "forwardCall deps w info ap st = failCall deps w info ap err (sendCall info st)"
      "w_callTool w 0 = Inl err"
    | (Retried) result where "forwardCall deps w info ap st = retryCall deps w info ap result (sendCall info st)"
    | (Answered) result where "forwardCall deps w info ap st = finishCall deps w info ap result (sendCall info st)"
proof (cases "map_of (ps_roots st) (pt_serverName (ci_tool info))")
  case None
  then show ?thesis by (rule NoClient)
next
  case (Some roots)
  show ?thesis
  proof (cases "w_callTool w 0")
    case (Inl err)
    then show ?thesis using Some by (intro Failed) (simp_all add: forwardCall_def)
  next
    case (Inr result)
    then have eq: "forwardCall deps w info ap st = (if ap_rootsExpanded ap \<and> isRootsRaceError result
        then retryCall deps w info ap result (sendCall info st) else finishCall deps w info ap result (sendCall info st))"
      using Some by (simp only: forwardCall_def option.case sum.case)
    show ?thesis
      by (cases "ap_rootsExpanded ap \<and> isRootsRaceError result") (rule Retried Answered, simp only: eq if_True if_False simp_thms)+
  qed
qed

lemma forwardCall_audited:
  assumes "forwardCall deps w info ap st = (st', Returned r)"
  shows "auditedBy (requestId (ci_request info)) st st' (resp_isError r)"
proof -
  have one: "endsWithEntry info (sendCall info st) st' (resp_isError r) \<Longrightarrow> ?thesis"
    by (rule endsWithEntry_audited) (simp add: endsWithEntry_def pipe_simps)
  show ?thesis
  proof (cases rule: forwardCall_cases [where st = st and info = info and deps = deps and w = w and ap = ap])
    case NoClient
    then show ?thesis using assms
      by (intro endsWithEntry_audited) (auto simp: forwardCall_def Let_def endsWithEntry_def pipe_simps)
  next
    case (Failed err)
    then show ?thesis using assms failCall_entry by (intro one) simp
  next
    case (Retried result)
    then obtain b a where "ps_audit st' = ps_audit (sendCall info st) @ [b, a] \<and> ae_requestId a = requestId (ci_request info) \<and>
        ae_requestId b = requestId (ci_request info) \<and> (ae_resultStatus a \<noteq> ResultSuccess) = resp_isError r"
      using assms retryCall_audited by metis
    then show ?thesis by (intro auditedBy_two [of st' st b a]) (simp_all add: pipe_simps)
  next
    case (Answered result)
    then show ?thesis using assms finishCall_entry by (intro one) simp
  qed
qed

lemma virtualCall_audited:
  "virtualCall deps w info ap client st = (st', Returned r) \<Longrightarrow>
   auditedBy (requestId (ci_request info)) st st' (resp_isError r)"
  by (rule endsWithEntry_audited)
    (auto simp: virtualCall_def Let_def endsWithEntry_def pipe_simps split: prod.splits sum.splits)

lemma dispatchCall_audited:
  assumes "dispatchCall deps w info ap st = (st', Returned r)"
  shows "auditedBy (requestId (ci_request info)) st st' (resp_isError r)"
proof -
  obtain b' v where chk: "check (dp_runtime deps) (ps_breaker st) (w_breakerNow w)
      (pt_serverName (ci_tool info) @ ''__'' @ pt_name (ci_tool info)) (ci_transport info) = (b', v)" by fastforce
  show ?thesis
  proof (cases v)
    case (BreakerRefused m)
    then show ?thesis using assms chk
      by (intro endsWithEntry_audited) (auto simp: dispatchCall_def Let_def endsWithEntry_def pipe_simps)
  next
    case BreakerAllowed
    let ?st1 = "st\<lparr>ps_breaker := b'\<rparr>"
    have "auditedBy (requestId (ci_request info)) ?st1 st' (resp_isError r)"
      using assms chk BreakerAllowed
      by (auto simp: dispatchCall_def Let_def intro: forwardCall_audited virtualCall_audited
          split: bool.splits option.splits)
    then show ?thesis by (rule auditedBy_cong [rotated]) simp
  qed
qed

text \<open>An approved escalation either raises while the roots are expanded, or is dispatched; in between
  only the roots change.\<close>

lemma approveAndDispatch_cases:
  obtains (Raised) rs m roots ann where "approveAndDispatch h deps w info ap st = (st\<lparr>ps_roots := rs\<rparr>, Raised m)"
      "map_of (ps_roots st) (pt_serverName (ci_tool info)) = Some roots" "ci_annotation info = Some ann"
      "\<exists>roots'. expandRoots h (w_rootOutcome w) (extractAnnotatedPaths (ci_transport info) ann getPathRoles) roots False = (roots', Inl m)"
    | (Dispatched) rs x where
      "approveAndDispatch h deps w info ap st = dispatchCall deps w info (ap\<lparr>ap_rootsExpanded := x\<rparr>) (st\<lparr>ps_roots := rs\<rparr>)"
    | (Direct) "approveAndDispatch h deps w info ap st = dispatchCall deps w info ap st"
proof (cases "map_of (ps_roots st) (pt_serverName (ci_tool info))")
  case None
  then show ?thesis by (intro Direct) (simp add: approveAndDispatch_def Let_def)
next
  case (Some roots)
  show ?thesis
  proof (cases "ci_annotation info")
    case None
    then show ?thesis using Some by (intro Direct) (simp add: approveAndDispatch_def Let_def)
  next
    case ann: (Some ann)
    obtain roots' res where ex: "expandRoots h (w_rootOutcome w)
        (extractAnnotatedPaths (ci_transport info) ann getPathRoles) roots False = (roots', res)" by fastforce
    show ?thesis
    proof (cases res)
      case (Inl m)
      then show ?thesis using Some ann ex by (intro Raised) (auto simp: approveAndDispatch_def Let_def)
    next
      case (Inr x)
      then show ?thesis using Some ann ex by (intro Dispatched) (auto simp: approveAndDispatch_def Let_def)
    qed
  qed
qed

lemma approveAndDispatch_audited:
  assumes "approveAndDispatch h deps w info ap st = (st', Returned r)"
  shows "auditedBy (requestId (ci_request info)) st st' (resp_isError r)"
proof (cases rule: approveAndDispatch_cases [where h = h and st = st and info = info and deps = deps and w = w and ap = ap])
  case (Raised rs m)
  then show ?thesis using assms by simp
next
  case (Dispatched rs x)
  then have "auditedBy (requestId (ci_request info)) (st\<lparr>ps_roots := rs\<rparr>) st' (resp_isError r)"
    using assms dispatchCall_audited by simp
  then show ?thesis by (rule auditedBy_cong [rotated]) simp
next
  case Direct
  then show ?thesis using assms dispatchCall_audited by simp
qed

lemma settleEscalation_audited:
  assumes "settleEscalation h deps w info ev pe d st = (st', Returned r)"
  shows "auditedBy (requestId (ci_request info)) st st' (resp_isError r)"
proof (cases d)
  case (HumanDecision resp)
  show ?thesis
  proof (cases "es_approved resp")
    case True
    then have "approveAndDispatch h deps w info
        ((noApproval (allowWith ev ''Approved by human during escalation''))\<lparr>ap_escalation := Some EscApproved\<rparr>)
        (addSelected w (pe_patterns pe) (es_selection resp) st) = (st', Returned r)"
      using assms HumanDecision by (simp add: settleEscalation_def)
    then show ?thesis
      using approveAndDispatch_audited auditedBy_cong [OF addSelected_fields(1)] by blast
  next
    case False
    then show ?thesis using assms HumanDecision
      by (intro endsWithEntry_audited) (auto simp: settleEscalation_def Let_def endsWithEntry_def pipe_simps)
  qed
next
  case (AutoApproved m)
  then show ?thesis using assms approveAndDispatch_audited by (simp add: settleEscalation_def)
qed (use assms in \<open>auto simp: settleEscalation_def Let_def\<close>)

lemma handleCallTool_cases:
  obtains (Rejected) rj where "admitCall h deps w st tool rawArgs = Inl rj"
      "handleCallTool h deps w tool rawArgs st = rejectCall deps w rawArgs rj st"
    | (Denied) info ev where "admitCall h deps w st tool rawArgs = Inr info"
      "evaluate (dp_policyEngine deps) h (ci_request info) = Inr ev" "er_decision ev = Deny"
      "handleCallTool h deps w tool rawArgs st =
        (logAudit deps info (noApproval (decisionOf ev)) ResultDenied (Some (er_reason ev)) 0 None st,
         errorResponse (ERROR_PREFIX_DENIED @ '' '' @ er_reason ev) (decisionOf ev))"
    | (Allowed) info ev where "admitCall h deps w st tool rawArgs = Inr info"
      "evaluate (dp_policyEngine deps) h (ci_request info) = Inr ev" "er_decision ev = Allow"
      "handleCallTool h deps w tool rawArgs st = dispatchCall deps w info (noApproval (decisionOf ev)) st"
    | (Whitelisted) info ev p ap where "admitCall h deps w st tool rawArgs = Inr info"
      "evaluate (dp_policyEngine deps) h (ci_request info) = Inr ev" "er_decision ev = Escalate"
      "matchPattern h (ps_whitelist st) (pt_serverName (ci_tool info)) (pt_name (ci_tool info))
         (arguments (ci_request info)) (the (ci_annotation info)) = Some p"
      "handleCallTool h deps w tool rawArgs st = approveAndDispatch h deps w info ap st"
    | (NoHandler) info ev where "admitCall h deps w st tool rawArgs = Inr info"
      "evaluate (dp_policyEngine deps) h (ci_request info) = Inr ev" "er_decision ev = Escalate"
      "dp_onEscalation deps = None" "truthyDir (dp_escalationDir deps) = None"
      "handleCallTool h deps w tool rawArgs st =
        (logAudit deps info (noApproval (decisionOf ev)) ResultDenied (Some (er_reason ev)) 0 (Some EscDenied) st,
         errorResponse (ERROR_PREFIX_ESCALATION_REQUIRED @ '' '' @ er_reason ev @
           ''. Action denied (no escalation handler).'') (denyWith ev (er_reason ev)))"
    | (Reviewed) info ev pe where "admitCall h deps w st tool rawArgs = Inr info"
      "evaluate (dp_policyEngine deps) h (ci_request info) = Inr ev" "er_decision ev = Escalate"
      "pe = capturePending h w info ev (the (ci_annotation info)) st"
      "handleCallTool h deps w tool rawArgs st = resumeCall h deps w info ev pe st"
proof (cases "admitCall h deps w st tool rawArgs")
  case (Inl rj)
  then show ?thesis
    by (intro Rejected) (simp_all add: handleCallTool_def beginCall_def split_def Let_def)
next
  case (Inr info)
  obtain ev where ev: "evaluate (dp_policyEngine deps) h (ci_request info) = Inr ev"
    using evaluate_returns by blast
  show ?thesis
  proof (cases "er_decision ev")
    case Allow
    then show ?thesis using Inr ev
      by (intro Allowed) (simp_all add: handleCallTool_def beginCall_def split_def Let_def)
  next
    case Deny
    then show ?thesis using Inr ev
      by (intro Denied) (simp_all add: handleCallTool_def beginCall_def)
  next
    case Escalate
    note review = handleCallTool_def beginCall_def reviewEscalation_def
    show ?thesis
    proof (cases "matchPattern h (ps_whitelist st) (pt_serverName (ci_tool info)) (pt_name (ci_tool info))
        (arguments (ci_request info)) (the (ci_annotation info))")
      case (Some p)
      then show ?thesis using Inr ev Escalate
        by (intro Whitelisted) (simp_all add: review split_def Let_def)
    next
      case None
      show ?thesis
      proof (cases "dp_onEscalation deps = None \<and> truthyDir (dp_escalationDir deps) = None")
        case True
        then show ?thesis using Inr ev Escalate None by (intro NoHandler) (simp_all add: review Let_def Option.is_none_def)
      next
        case False
        then show ?thesis using Inr ev Escalate None
          by (intro Reviewed) (simp_all add: review Let_def Option.is_none_def if_not_P [OF False])
      qed
    qed
  qed
qed

lemma rejectCall_audited:
  "rejectCall deps w rawArgs rj st = (st', Returned r) \<Longrightarrow> auditedBy (w_requestId w) st st' (resp_isError r)"
  by (intro auditedBy_one) (auto simp: rejectCall_def Let_def pushAudit_def pipe_simps)

lemma admitCall_cong:
  assumes "w_requestId w' = w_requestId w" "w_timestamp w' = w_timestamp w" "ps_context st' = ps_context st"
  shows "admitCall h deps w' st' tool rawArgs = admitCall h deps w st tool rawArgs"
  unfolding admitCall_def mkInfo_def assms by (rule refl)

lemma admitCall_requestId:
  "admitCall h deps w st tool rawArgs = Inr info \<Longrightarrow>
   requestId (ci_request info) = w_requestId w \<and> timestamp (ci_request info) = w_timestamp w \<and>
   serverName (ci_request info) = pt_serverName (ci_tool info) \<and> toolName (ci_request info) = pt_name (ci_tool info)"
  by (auto simp: admitCall_def Let_def mkInfo_def split: option.splits prod.splits if_splits)

section \<open>What leaves the process\<close>

text \<open>The effects a call may have: its own tool with its transport arguments, or the control requests
  of a virtual proxy tool.\<close>

definition ownEffect :: "call_info \<Rightarrow> effect \<Rightarrow> bool" where
  "ownEffect info eff =
     (case eff of
        Forwarded srv tool args \<Rightarrow>
          srv = pt_serverName (ci_tool info) \<and> tool = pt_name (ci_tool info) \<and> args = ci_transport info
      | Controlled c \<Rightarrow>
          pt_serverName (ci_tool info) = ''proxy'' \<and>
          (\<exists>client. c \<in> set (fst (handleVirtualProxyTool client (pt_name (ci_tool info)) (ci_transport info)))))"

definition sentBy :: "call_info \<Rightarrow> pipeline_state \<Rightarrow> pipeline_state \<Rightarrow> bool" where
  "sentBy info st st' \<longleftrightarrow>
     (\<exists>new. ps_effects st' = ps_effects st @ new \<and> length new \<le> 2 \<and> list_all (ownEffect info) new)"

definition breakerAllows :: "call_tool_deps \<Rightarrow> call_world \<Rightarrow> call_info \<Rightarrow> pipeline_state \<Rightarrow> bool" where
  "breakerAllows deps w info st \<longleftrightarrow>
     snd (check (dp_runtime deps) (ps_breaker st) (w_breakerNow w)
       (pt_serverName (ci_tool info) @ ''__'' @ pt_name (ci_tool info)) (ci_transport info)) = BreakerAllowed"

definition approvedBy :: "decision_outcome \<Rightarrow> bool" where
  "approvedBy d = (case d of AutoApproved _ \<Rightarrow> True | HumanDecision r \<Rightarrow> es_approved r | _ \<Rightarrow> False)"

lemma sentBy_none: "ps_effects st' = ps_effects st \<Longrightarrow> sentBy info st st'"
  by (simp add: sentBy_def)

lemma sentBy_cong:
  "ps_effects st1 = ps_effects st \<Longrightarrow> sentBy info st1 st' \<Longrightarrow> sentBy info st st'"
  by (simp add: sentBy_def)

lemma handleVirtualProxyTool_calls: "length (fst (handleVirtualProxyTool client tool args)) \<le> 1"
proof -
  have "length (fst (if b then x else y)) \<le> 1 \<longleftrightarrow> (if b then length (fst x) \<le> 1 else length (fst y) \<le> 1)"
    for b and x y :: "control_call list \<times> (proxy_error + jsval)" by simp
  then show ?thesis
    by (cases "requireStringArg args ''domain''"; cases "requireStringArg args ''justification''";
        cases "validateDomain (projr (requireStringArg args ''domain''))")
      (simp_all add: handleVirtualProxyTool_def)
qed

lemma forwardCall_sent: "sentBy info st (fst (forwardCall deps w info ap st))"
proof -
  let ?eff = "Forwarded (pt_serverName (ci_tool info)) (pt_name (ci_tool info)) (ci_transport info)"
  have one: "ps_effects st' = ps_effects st @ [?eff] \<Longrightarrow> sentBy info st st'" for st'
    by (simp add: sentBy_def ownEffect_def)
  have two: "ps_effects st' = ps_effects st @ [?eff, ?eff] \<Longrightarrow> sentBy info st st'" for st'
    by (simp add: sentBy_def ownEffect_def)
  show ?thesis
  proof (cases rule: forwardCall_cases [where st = st and info = info and deps = deps and w = w and ap = ap])
    case NoClient
    then show ?thesis by (intro sentBy_none) (simp add: forwardCall_def Let_def pipe_simps)
  next
    case (Failed err)
    then show ?thesis by (intro one) (simp add: failCall_effects pipe_simps)
  next
    case (Retried result)
    then show ?thesis
      by (intro two) (simp add: retryCall_def Let_def failCall_effects finishCall_effects pipe_simps split: sum.splits)
  next
    case (Answered result)
    then show ?thesis by (intro one) (simp add: finishCall_effects pipe_simps)
  qed
qed

lemma virtualCall_sent:
  assumes "pt_serverName (ci_tool info) = ''proxy''"
  shows "sentBy info st (fst (virtualCall deps w info ap client st))"
proof -
  let ?calls = "fst (handleVirtualProxyTool client (pt_name (ci_tool info)) (ci_transport info))"
  have "ps_effects (fst (virtualCall deps w info ap client st)) = ps_effects st @ map Controlled ?calls"
    by (simp add: virtualCall_def Let_def pipe_simps split: prod.splits sum.splits)
  moreover have "list_all (ownEffect info) (map Controlled ?calls)"
    using assms by (auto simp: list_all_iff ownEffect_def)
  moreover have "length (map Controlled ?calls) \<le> 2"
    using handleVirtualProxyTool_calls [of client "pt_name (ci_tool info)" "ci_transport info"] by simp
  ultimately show ?thesis unfolding sentBy_def by blast
qed

lemma dispatchCall_sent:
  "sentBy info st (fst (dispatchCall deps w info ap st)) \<and>
   (ps_effects (fst (dispatchCall deps w info ap st)) \<noteq> ps_effects st \<longrightarrow> breakerAllows deps w info st)"
proof -
  obtain b' v where chk: "check (dp_runtime deps) (ps_breaker st) (w_breakerNow w)
      (pt_serverName (ci_tool info) @ ''__'' @ pt_name (ci_tool info)) (ci_transport info) = (b', v)" by fastforce
  show ?thesis
  proof (cases v)
    case (BreakerRefused m)
    then show ?thesis using chk by (simp add: dispatchCall_def Let_def sentBy_none pipe_simps)
  next
    case BreakerAllowed
    let ?st1 = "st\<lparr>ps_breaker := b'\<rparr>"
    have "sentBy info ?st1 (fst (dispatchCall deps w info ap st))"
    proof (cases "pt_serverName (ci_tool info) = ''proxy'' \<and> dp_controlApiClient deps \<noteq> None")
      case True
      then show ?thesis using chk BreakerAllowed
        by (auto simp: dispatchCall_def Let_def intro: virtualCall_sent)
    next
      case False
      then have "dispatchCall deps w info ap st = forwardCall deps w info ap ?st1"
        using chk BreakerAllowed by (auto simp: dispatchCall_def Let_def split: bool.splits option.splits)
      then show ?thesis using forwardCall_sent by simp
    qed
    then have "sentBy info st (fst (dispatchCall deps w info ap st))" by (rule sentBy_cong [rotated]) simp
    moreover have "breakerAllows deps w info st" using chk BreakerAllowed by (simp add: breakerAllows_def)
    ultimately show ?thesis by blast
  qed
qed

lemma breakerAllows_cong: "ps_breaker st1 = ps_breaker st \<Longrightarrow> breakerAllows deps w info st1 = breakerAllows deps w info st"
  by (simp add: breakerAllows_def)

lemma approveAndDispatch_sent:
  "sentBy info st (fst (approveAndDispatch h deps w info ap st)) \<and>
   (ps_effects (fst (approveAndDispatch h deps w info ap st)) \<noteq> ps_effects st \<longrightarrow> breakerAllows deps w info st)"
proof (cases rule: approveAndDispatch_cases [where h = h and st = st and info = info and deps = deps and w = w and ap = ap])
  case (Raised rs m)
  then show ?thesis by (simp add: sentBy_none)
next
  case (Dispatched rs x)
  then show ?thesis
    using dispatchCall_sent [of info "st\<lparr>ps_roots := rs\<rparr>" deps w "ap\<lparr>ap_rootsExpanded := x\<rparr>"]
    by (simp add: sentBy_def breakerAllows_def)
next
  case Direct
  then show ?thesis using dispatchCall_sent by simp
qed

lemma settleEscalation_sent:
  "sentBy info st (fst (settleEscalation h deps w info ev pe d st)) \<and>
   (ps_effects (fst (settleEscalation h deps w info ev pe d st)) \<noteq> ps_effects st \<longrightarrow>
      approvedBy d \<and> breakerAllows deps w info st)"
proof (cases d)
  case (AutoApproved m)
  then show ?thesis using approveAndDispatch_sent by (simp add: settleEscalation_def approvedBy_def)
next
  case (HumanDecision resp)
  show ?thesis
  proof (cases "es_approved resp")
    case True
    let ?ap = "(noApproval (allowWith ev ''Approved by human during escalation''))\<lparr>ap_escalation := Some EscApproved\<rparr>"
    show ?thesis
      using HumanDecision True
        approveAndDispatch_sent [of info "addSelected w (pe_patterns pe) (es_selection resp) st" h deps w ?ap]
      by (simp add: settleEscalation_def approvedBy_def sentBy_def breakerAllows_def addSelected_fields)
  next
    case False
    then show ?thesis using HumanDecision
      by (simp add: settleEscalation_def Let_def sentBy_none pipe_simps)
  qed
qed (simp_all add: settleEscalation_def Let_def sentBy_none pipe_simps)

section \<open>Properties\<close>

text \<open>C1: the policy gate. A call leaves the process only if it was admitted, the policy engine allowed
  it, or escalated it and a whitelist pattern, the auto-approver or the human approved it, and the
  circuit breaker let it pass; what leaves is at most two sends of that very tool with its prepared
  arguments (or the control request of a virtual proxy tool).\<close>

theorem forwarded_only_when_authorised:
  assumes "handleCallTool h deps w tool rawArgs st = (st', out)" "ps_effects st' \<noteq> ps_effects st"
  shows "\<exists>info ev new. admitCall h deps w st tool rawArgs = Inr info \<and>
    evaluate (dp_policyEngine deps) h (ci_request info) = Inr ev \<and>
    (er_decision ev = Allow \<or>
     (er_decision ev = Escalate \<and>
      (matchPattern h (ps_whitelist st) (pt_serverName (ci_tool info)) (pt_name (ci_tool info))
         (arguments (ci_request info)) (the (ci_annotation info)) \<noteq> None \<or>
       approvedBy (waitForDecision h deps w info ev (capturePending h w info ev (the (ci_annotation info)) st))))) \<and>
    breakerAllows deps w info st \<and>
    ps_effects st' = ps_effects st @ new \<and> length new \<le> 2 \<and> list_all (ownEffect info) new"
proof -
  have st': "st' = fst (handleCallTool h deps w tool rawArgs st)" using assms(1) by simp
  show ?thesis
  proof (cases rule: handleCallTool_cases [where h = h and deps = deps and w = w and st = st and tool = tool and rawArgs = rawArgs])
    case (Rejected rj)
    then show ?thesis using assms(2) st' by (simp add: rejectCall_def Let_def pushAudit_def)
  next
    case (Denied info ev)
    then show ?thesis using assms(2) st' by (simp add: pipe_simps)
  next
    case (Allowed info ev)
    then show ?thesis
      using assms(2) st' dispatchCall_sent [of info st deps w "noApproval (decisionOf ev)"] unfolding sentBy_def by auto
  next
    case (Whitelisted info ev p ap)
    then show ?thesis
      using assms(2) st' approveAndDispatch_sent [of info st h deps w ap] unfolding sentBy_def by auto
  next
    case (NoHandler info ev)
    then show ?thesis using assms(2) st' by (simp add: pipe_simps)
  next
    case (Reviewed info ev pe)
    then show ?thesis
      using assms(2) st' settleEscalation_sent [of info st h deps w ev pe "waitForDecision h deps w info ev pe"]
      unfolding sentBy_def resumeCall_def by auto
  qed
qed

definition demoProxied :: "string \<Rightarrow> string \<Rightarrow> (string \<times> jsval) list \<Rightarrow> proxied_tool" where
  "demoProxied srv tool props = \<lparr>pt_serverName = srv, pt_name = tool, pt_description = None,
     pt_inputSchema = [(''properties'', JObj props)]\<rparr>"

definition demoDeps :: call_tool_deps where
  "demoDeps = \<lparr>dp_toolMap =
       [(''filesystem__read_multiple_files'', demoProxied ''filesystem'' ''read_multiple_files'' [(''paths'', JObj [(''type'', JStr ''array'')])]),
        (''git__git_push'', demoProxied ''git'' ''git_push'' [(''path'', JObj []), (''remote'', JObj [])])],
     dp_policyEngine = demoEngine, dp_sandboxed = [], dp_allowedDirectory = Some ''/s'',
     dp_escalationDir = None, dp_autoApproveModel = None, dp_controlApiClient = None, dp_onEscalation = None,
     dp_autoApproveUserMessage = None, dp_persona = None, dp_escalationTimeoutEnv = None, dp_isPtySession = False,
     dp_runtime = demoRuntime, dp_parseDate = (\<lambda>_. None), dp_parseNumber = (\<lambda>_. None)\<rparr>"

definition demoWorld :: call_world where
  "demoWorld = \<lparr>w_requestId = ''r'', w_timestamp = ''t'', w_escalationId = ''e'', w_candidateTime = ''t'',
     w_patternId = ''p'', w_contextFile = None, w_contextFileAgain = None, w_contextNow = 0,
     w_pollClock = (\<lambda>i. 500 * of_nat i), w_pollFile = (\<lambda>_. FileAbsent),
     w_rootOutcome = (\<lambda>_. RootAdded), w_breakerNow = 0,
     w_callTool = (\<lambda>_. Inr [(''content'', JArr [textBlock ''ok''])]), w_elapsed = 1, w_elapsedFirst = 1\<rparr>"

definition demoState :: pipeline_state where
  "demoState = \<lparr>ps_audit = [], ps_breaker = newCallCircuitBreaker \<lparr>optWindowMs = None, optThreshold = None, optWorkerCount = None\<rparr>,
     ps_whitelist = [], ps_context = [], ps_roots = [(''filesystem'', []), (''git'', [])], ps_effects = []\<rparr>"

abbreviation demoRead :: jsobj where
  "demoRead \<equiv> [(''paths'', JArr [JStr ''/s/a''])]"

abbreviation demoPush :: jsobj where
  "demoPush \<equiv> [(''path'', JStr ''/s''), (''remote'', JStr ''https://evil.com/x'')]"

theorem forwarded_only_when_authorised_witness:
  "\<exists>info ev. admitCall gitHost demoDeps demoWorld demoState ''filesystem__read_multiple_files'' demoRead = Inr info \<and>
     evaluate demoEngine gitHost (ci_request info) = Inr ev \<and>
     ps_effects (fst (handleCallTool gitHost demoDeps demoWorld ''filesystem__read_multiple_files'' demoRead demoState)) =
       [Forwarded ''filesystem'' ''read_multiple_files'' demoRead]"
proof -
  let ?r = "handleCallTool gitHost demoDeps demoWorld ''filesystem__read_multiple_files'' demoRead demoState"
  have eff: "ps_effects (fst ?r) = [Forwarded ''filesystem'' ''read_multiple_files'' demoRead]" "ps_effects demoState = []"
    by code_simp+
  have "dp_policyEngine demoDeps = demoEngine" by (simp add: demoDeps_def)
  then show ?thesis
    using forwarded_only_when_authorised [of gitHost demoDeps demoWorld "''filesystem__read_multiple_files''" demoRead demoState "fst ?r" "snd ?r"] eff
    by auto
qed



text \<open>C4: every call that returns is audited: it adds one or two entries (two when the roots race made
  it retry), all with the request's identifier, and the last one says success exactly when the
  response is not an error. This covers the rejections before the policy evaluation.\<close>

theorem returned_calls_audited:
  assumes "handleCallTool h deps w tool rawArgs st = (st', Returned r)"
  shows "auditedBy (w_requestId w) st st' (resp_isError r)"
proof (cases rule: handleCallTool_cases [where h = h and deps = deps and w = w and st = st and tool = tool and rawArgs = rawArgs])
  case (Rejected rj)
  then show ?thesis using assms rejectCall_audited by simp
next
  case (Denied info ev)
  then show ?thesis using assms admitCall_requestId by (intro auditedBy_one) (auto simp: pipe_simps)
next
  case (Allowed info ev)
  then show ?thesis using assms dispatchCall_audited [of deps w info _ st st' r] admitCall_requestId by metis
next
  case (Whitelisted info ev p ap)
  then show ?thesis using assms approveAndDispatch_audited [of h deps w info ap st st' r] admitCall_requestId by metis
next
  case (NoHandler info ev)
  then show ?thesis using assms admitCall_requestId by (intro auditedBy_one) (auto simp: pipe_simps)
next
  case (Reviewed info ev pe)
  then show ?thesis
    using assms settleEscalation_audited [of h deps w info ev pe _ st st' r] admitCall_requestId
    unfolding resumeCall_def by metis
qed

theorem returned_calls_audited_witness:
  "\<exists>r. snd (handleCallTool gitHost demoDeps demoWorld ''nope'' [] demoState) = Returned r \<and>
     auditedBy ''r'' demoState (fst (handleCallTool gitHost demoDeps demoWorld ''nope'' [] demoState)) (resp_isError r)"
proof -
  let ?r = "handleCallTool gitHost demoDeps demoWorld ''nope'' [] demoState"
  have "\<exists>r. snd ?r = Returned r"
    by (simp add: handleCallTool_def beginCall_def admitCall_def demoDeps_def rejectCall_def errorResponse_def Let_def split_def)
  then obtain r where r: "snd ?r = Returned r" by blast
  then have "?r = (fst ?r, Returned r)" by (metis prod.collapse)
  from returned_calls_audited [OF this] r show ?thesis by (auto simp: demoWorld_def)
qed

text \<open>An escalation that nobody can answer is a denial: without a whitelist match, a callback and
  an escalation directory, the handler returns a deny, adds one denied audit entry and sends
  nothing.\<close>

theorem escalation_without_handler_denied:
  assumes "admitCall h deps w st tool rawArgs = Inr info"
    and "evaluate (dp_policyEngine deps) h (ci_request info) = Inr ev" "er_decision ev = Escalate"
    and "matchPattern h (ps_whitelist st) (pt_serverName (ci_tool info)) (pt_name (ci_tool info))
           (arguments (ci_request info)) (the (ci_annotation info)) = None"
    and "dp_onEscalation deps = None" "truthyDir (dp_escalationDir deps) = None"
  shows "\<exists>st' r. handleCallTool h deps w tool rawArgs st = (st', Returned r) \<and> resp_isError r \<and>
    pd_status (resp_policyDecision r) = Deny \<and> ps_effects st' = ps_effects st \<and> auditedBy (w_requestId w) st st' True"
proof (cases rule: handleCallTool_cases [where h = h and deps = deps and w = w and st = st and tool = tool and rawArgs = rawArgs])
  case (NoHandler info' ev')
  have "auditedBy (w_requestId w) st
      (logAudit deps info (noApproval (decisionOf ev)) ResultDenied (Some (er_reason ev)) 0 (Some EscDenied) st) True"
    using admitCall_requestId [OF assms(1)] by (intro auditedBy_one) (auto simp: pipe_simps)
  then show ?thesis using NoHandler assms(1,2) by (simp add: pipe_simps denyWith_def)
next
  case (Reviewed info' ev' pe)
  have "handleCallTool h deps w tool rawArgs st =
      (logAudit deps info (noApproval (decisionOf ev)) ResultDenied (Some (er_reason ev)) 0 (Some EscDenied) st,
         errorResponse (ERROR_PREFIX_ESCALATION_REQUIRED @ '' '' @ er_reason ev @
           ''. Action denied (no escalation handler).'') (denyWith ev (er_reason ev)))"
    using assms by (simp add: handleCallTool_def beginCall_def reviewEscalation_def Let_def)
  moreover have "auditedBy (w_requestId w) st
      (logAudit deps info (noApproval (decisionOf ev)) ResultDenied (Some (er_reason ev)) 0 (Some EscDenied) st) True"
    using admitCall_requestId [OF assms(1)] by (intro auditedBy_one) (auto simp: pipe_simps)
  ultimately show ?thesis by (simp add: pipe_simps denyWith_def)
qed (use assms in simp_all)

lemma projr_eq: "\<not> isl x \<Longrightarrow> x = Inr (projr x)"
  by (cases x) simp_all

text \<open>The escalated push of the demo: its admission, its evaluation.\<close>

definition demoPushInfo :: call_info where
  "demoPushInfo = projr (admitCall gitHost demoDeps demoWorld demoState ''git__git_push'' demoPush)"

definition demoPushEval :: evaluation_result where
  "demoPushEval = projr (evaluate demoEngine gitHost (ci_request demoPushInfo))"

lemma demoPush_admitted:
  "admitCall gitHost demoDeps demoWorld demoState ''git__git_push'' demoPush = Inr demoPushInfo"
  unfolding demoPushInfo_def by (rule projr_eq) code_simp

lemma demoPush_evaluated:
  "evaluate (dp_policyEngine demoDeps) gitHost (ci_request demoPushInfo) = Inr demoPushEval"
  "er_decision demoPushEval = Escalate"
proof -
  have "dp_policyEngine demoDeps = demoEngine" by (simp add: demoDeps_def)
  moreover have "\<not> isl (evaluate demoEngine gitHost (ci_request demoPushInfo))" by code_simp
  ultimately show "evaluate (dp_policyEngine demoDeps) gitHost (ci_request demoPushInfo) = Inr demoPushEval"
    using projr_eq unfolding demoPushEval_def by simp
  show "er_decision demoPushEval = Escalate" by code_simp
qed

theorem escalation_without_handler_denied_witness:
  "\<exists>st' r. handleCallTool gitHost demoDeps demoWorld ''git__git_push'' demoPush demoState = (st', Returned r) \<and>
     resp_isError r \<and> pd_status (resp_policyDecision r) = Deny \<and> ps_effects st' = []"
proof -
  have "matchPattern gitHost (ps_whitelist demoState) (pt_serverName (ci_tool demoPushInfo)) (pt_name (ci_tool demoPushInfo))
      (arguments (ci_request demoPushInfo)) (the (ci_annotation demoPushInfo)) = None"
    "dp_onEscalation demoDeps = None" "truthyDir (dp_escalationDir demoDeps) = None"
    by (simp_all add: demoState_def demoDeps_def truthyDir_def)
  from escalation_without_handler_denied [OF demoPush_admitted demoPush_evaluated this] show ?thesis
    by (auto simp: demoState_def)
qed

section \<open>Outcomes that bypass the log\<close>

text \<open>When notifying a server of a new root fails while an approved escalation expands the roots,
  the error leaves the handler without any audit entry for the approved call.\<close>

theorem root_notification_failure_unaudited:
  assumes "admitCall h deps w st tool rawArgs = Inr info" "ci_annotation info = Some ann"
    and "evaluate (dp_policyEngine deps) h (ci_request info) = Inr ev" "er_decision ev = Escalate"
    and "matchPattern h (ps_whitelist st) (pt_serverName (ci_tool info)) (pt_name (ci_tool info))
           (arguments (ci_request info)) ann = Some p"
    and "map_of (ps_roots st) (pt_serverName (ci_tool info)) = Some roots"
    and "expandRoots h (w_rootOutcome w) (extractAnnotatedPaths (ci_transport info) ann getPathRoles) roots False = (roots', Inl m)"
  shows "\<exists>st'. handleCallTool h deps w tool rawArgs st = (st', Raised m) \<and> ps_audit st' = ps_audit st"
proof -
  have "\<exists>st'. approveAndDispatch h deps w info ap st = (st', Raised m) \<and> ps_audit st' = ps_audit st" for ap
    using assms(2,6,7) by (simp add: approveAndDispatch_def Let_def)
  then show ?thesis
    using assms(1-5) by (auto simp: handleCallTool_def beginCall_def reviewEscalation_def Let_def split_def)
qed

definition demoWhitelisted :: pipeline_state where
  "demoWhitelisted = demoState\<lparr>ps_whitelist := [\<lparr>wp_id = ''w'', wp_data =
     (demoPattern [DomainC GitRemoteUrl ''evil.com/x''])\<lparr>wp_serverName := ''git'', wp_toolName := ''git_push''\<rparr>\<rparr>]\<rparr>"

theorem root_notification_failure_unaudited_witness:
  "\<exists>st'. handleCallTool gitHost demoDeps (demoWorld\<lparr>w_rootOutcome := (\<lambda>_. RootSendFailed ''closed'')\<rparr>)
      ''git__git_push'' demoPush demoWhitelisted = (st', Raised ''closed'') \<and> ps_audit st' = []"
proof -
  let ?w = "demoWorld\<lparr>w_rootOutcome := (\<lambda>_. RootSendFailed ''closed'')\<rparr>"
  have adm: "admitCall gitHost demoDeps ?w demoWhitelisted ''git__git_push'' demoPush = Inr demoPushInfo"
  proof -
    have "admitCall gitHost demoDeps ?w demoWhitelisted ''git__git_push'' demoPush =
        admitCall gitHost demoDeps demoWorld demoState ''git__git_push'' demoPush"
      by (rule admitCall_cong) (simp_all add: demoWhitelisted_def)
    then show ?thesis using demoPush_admitted by simp
  qed
  have "\<not> Option.is_none (ci_annotation demoPushInfo)" by code_simp
  then obtain ann where ann: "ci_annotation demoPushInfo = Some ann" by (cases "ci_annotation demoPushInfo") simp_all
  have "\<not> Option.is_none (matchPattern gitHost (ps_whitelist demoWhitelisted) (pt_serverName (ci_tool demoPushInfo))
      (pt_name (ci_tool demoPushInfo)) (arguments (ci_request demoPushInfo)) (the (ci_annotation demoPushInfo)))"
    by code_simp
  then obtain p where p: "matchPattern gitHost (ps_whitelist demoWhitelisted) (pt_serverName (ci_tool demoPushInfo))
      (pt_name (ci_tool demoPushInfo)) (arguments (ci_request demoPushInfo)) ann = Some p"
    using ann by (cases "matchPattern gitHost (ps_whitelist demoWhitelisted) (pt_serverName (ci_tool demoPushInfo))
      (pt_name (ci_tool demoPushInfo)) (arguments (ci_request demoPushInfo)) ann") simp_all
  have roots: "map_of (ps_roots demoWhitelisted) (pt_serverName (ci_tool demoPushInfo)) = Some []" by code_simp
  let ?x = "expandRoots gitHost (w_rootOutcome ?w)
      (extractAnnotatedPaths (ci_transport demoPushInfo) (the (ci_annotation demoPushInfo)) getPathRoles) [] False"
  have "isl (snd ?x)" "projl (snd ?x) = ''closed''" by code_simp+
  then have "snd ?x = Inl ''closed''" by (cases "snd ?x") simp_all
  then have "?x = (fst ?x, Inl ''closed'')" by (metis prod.collapse)
  then have "expandRoots gitHost (w_rootOutcome ?w)
      (extractAnnotatedPaths (ci_transport demoPushInfo) ann getPathRoles) [] False = (fst ?x, Inl ''closed'')"
    using ann by simp
  from root_notification_failure_unaudited [OF adm ann demoPush_evaluated p roots this] show ?thesis
    by (auto simp: demoWhitelisted_def demoState_def)
qed

text \<open>A server can keep a forwarded call out of the log: when it answers an allowed call with an
  invalid-parameters error whose data has a \<open>null\<close> content entry, extracting the message throws
  inside the catch block, so the call was sent but no audit entry is written.\<close>

theorem null_content_error_unaudited:
  assumes "admitCall h deps w st tool rawArgs = Inr info"
    and "evaluate (dp_policyEngine deps) h (ci_request info) = Inr ev" "er_decision ev = Allow"
    and "breakerAllows deps w info st" "dp_controlApiClient deps = None"
    and "map_of (ps_roots st) (pt_serverName (ci_tool info)) = Some roots"
    and "w_callTool w 0 = Inl (McpError INVALID_PARAMS_CODE message (JObj [(''content'', JArr (JNull # items))]))"
  shows "\<exists>st' m. handleCallTool h deps w tool rawArgs st = (st', Raised m) \<and> ps_audit st' = ps_audit st \<and>
    ps_effects st' = ps_effects st @
      [Forwarded (pt_serverName (ci_tool info)) (pt_name (ci_tool info)) (ci_transport info)]"
proof -
  let ?err = "McpError INVALID_PARAMS_CODE message (JObj [(''content'', JArr (JNull # items))])"
  have msg: "extractMcpErrorMessage ?err = None"
    by (simp add: extractMcpErrorMessage_def extractFromData_def nonEmptyString_def getProp_def)
  obtain b' where chk: "check (dp_runtime deps) (ps_breaker st) (w_breakerNow w)
      (pt_serverName (ci_tool info) @ ''__'' @ pt_name (ci_tool info)) (ci_transport info) = (b', BreakerAllowed)"
    using assms(4) unfolding breakerAllows_def by (metis prod.collapse)
  have "dispatchCall deps w info ap st = forwardCall deps w info ap (st\<lparr>ps_breaker := b'\<rparr>)" for ap
    using chk assms(5) by (simp add: dispatchCall_def Let_def split: bool.splits)
  moreover have "forwardCall deps w info ap (st\<lparr>ps_breaker := b'\<rparr>) =
      (sendCall info (st\<lparr>ps_breaker := b'\<rparr>), Raised ''Cannot read properties of null'')" for ap
    using assms(6,7) msg by (simp add: forwardCall_def failCall_def)
  ultimately have "handleCallTool h deps w tool rawArgs st =
      (sendCall info (st\<lparr>ps_breaker := b'\<rparr>), Raised ''Cannot read properties of null'')"
    using assms(1-3) by (simp add: handleCallTool_def beginCall_def)
  then show ?thesis by (simp add: pipe_simps)
qed

theorem null_content_error_unaudited_witness:
  "\<exists>st' m. handleCallTool gitHost demoDeps
       (demoWorld\<lparr>w_callTool := (\<lambda>_. Inl (McpError INVALID_PARAMS_CODE ''bad'' (JObj [(''content'', JArr [JNull])])))\<rparr>)
       ''filesystem__read_multiple_files'' demoRead demoState = (st', Raised m) \<and>
     ps_audit st' = [] \<and> ps_effects st' = [Forwarded ''filesystem'' ''read_multiple_files'' demoRead]"
proof -
  let ?w = "demoWorld\<lparr>w_callTool := (\<lambda>_. Inl (McpError INVALID_PARAMS_CODE ''bad'' (JObj [(''content'', JArr [JNull])])))\<rparr>"
  let ?a = "admitCall gitHost demoDeps ?w demoState ''filesystem__read_multiple_files'' demoRead"
  let ?info = "projr ?a"
  have adm: "?a = Inr ?info" by (rule projr_eq) code_simp
  let ?ev = "evaluate demoEngine gitHost (ci_request ?info)"
  have eng: "dp_policyEngine demoDeps = demoEngine" by (simp add: demoDeps_def)
  have "?ev = Inr (projr ?ev)" by (rule projr_eq) code_simp
  then have ev: "evaluate (dp_policyEngine demoDeps) gitHost (ci_request ?info) = Inr (projr ?ev)" using eng by simp
  have allow: "er_decision (projr ?ev) = Allow" by code_simp
  have br: "breakerAllows demoDeps ?w ?info demoState" unfolding breakerAllows_def by code_simp
  have ctl: "dp_controlApiClient demoDeps = None" by (simp add: demoDeps_def)
  have names: "pt_serverName (ci_tool ?info) = ''filesystem''" "pt_name (ci_tool ?info) = ''read_multiple_files''"
    "ci_transport ?info = demoRead" by code_simp+
  have roots: "map_of (ps_roots demoState) (pt_serverName (ci_tool ?info)) = Some []"
    unfolding names(1) by (simp add: demoState_def)
  have "w_callTool ?w 0 = Inl (McpError INVALID_PARAMS_CODE ''bad'' (JObj [(''content'', JArr (JNull # []))]))" by simp
  from null_content_error_unaudited [OF adm ev allow br ctl roots this] names
  show ?thesis by (simp add: demoState_def)
qed

section \<open>Waiting for a decision\<close>

lemma pollResponse_settles:
  assumes "\<forall>j\<ge>i. clock j + 500 \<le> clock (Suc j)" "deadline - clock i \<le> of_nat n * 500"
  shows "pollResponse (Suc n) clock file deadline i \<noteq> WaitPending"
  using assms
proof (induction n arbitrary: i)
  case 0
  then show ?case by (auto split: sum.splits option.splits)
next
  case (Suc n)
  have "clock i + 500 \<le> clock (Suc i)" using Suc.prems(1) by simp
  then have "deadline - clock (Suc i) \<le> of_nat n * 500" using Suc.prems(2) by (simp add: algebra_simps)
  then have "pollResponse (Suc n) clock file deadline (Suc i) \<noteq> WaitPending"
    using Suc.prems(1) by (intro Suc.IH) auto
  then show ?case
    by (simp only: pollResponse.simps(2) [of "Suc n"]) (auto split: sum.splits option.splits simp del: pollResponse.simps)
qed

lemma waitForEscalationDecision_settles:
  assumes "clock 0 \<le> clock 1" "\<forall>j\<ge>1. clock j + 500 \<le> clock (Suc j)"
  shows "waitForEscalationDecision timeout clock file \<noteq> WaitPending"
proof -
  define n where "n = nat \<lceil>timeout / 500\<rceil> + 1"
  have "timeout / 500 \<le> of_nat n" unfolding n_def by linarith
  then have "clock 0 + timeout - clock 1 \<le> of_nat n * 500" using assms(1) by (simp add: field_simps)
  from pollResponse_settles [OF assms(2) this] show ?thesis
    by (simp add: waitForEscalationDecision_def pollFuel_def ESCALATION_POLL_INTERVAL_MS_def n_def Let_def del: pollResponse.simps)
qed

lemma readEscalationResponse_approved:
  "readEscalationResponse f = Inr (Some r) \<Longrightarrow> es_approved r \<Longrightarrow>
   \<exists>raw. f = FileParsed (JObj raw) \<and> getProp raw ''decision'' = JStr ''approved''"
  by (auto simp: readEscalationResponse_def deniedResponse_def Let_def split: file_read.splits jsval.splits if_splits)

lemma pollResponse_approved:
  "pollResponse n clock file deadline i = WaitDone r \<Longrightarrow> es_approved r \<Longrightarrow>
   \<exists>j\<ge>i. \<exists>raw. file j = FileParsed (JObj raw) \<and> getProp raw ''decision'' = JStr ''approved''"
proof (induction n arbitrary: i)
  case (Suc n)
  show ?case
  proof (cases "readEscalationResponse (file i)")
    case (Inl m)
    then show ?thesis using Suc.prems by (simp split: if_splits)
  next
    case (Inr x)
    show ?thesis
    proof (cases x)
      case None
      show ?thesis
      proof (cases "clock i < deadline")
        case True
        then have "pollResponse n clock file deadline (Suc i) = WaitDone r" using Suc.prems Inr None by simp
        from Suc.IH [OF this Suc.prems(2)] show ?thesis by (meson Suc_leD)
      next
        case False
        then show ?thesis using Suc.prems Inr None by (auto simp: deniedResponse_def)
      qed
    next
      case (Some q)
      then have "q = r" using Suc.prems Inr by (simp split: if_splits)
      then show ?thesis using readEscalationResponse_approved Inr Some Suc.prems(2) by blast
    qed
  qed
qed simp

text \<open>The file protocol fails closed. The wait ends in an approval only if some read of the
  response file returned an object whose decision is the string \<open>approved\<close>: an absent file until
  the deadline, any other value and any other decision end in a denial, malformed text in an error.\<close>

theorem file_wait_fails_closed:
  assumes "waitForEscalationDecision timeout clock file = WaitDone r" "es_approved r"
  shows "\<exists>i raw. file i = FileParsed (JObj raw) \<and> getProp raw ''decision'' = JStr ''approved''"
  using assms pollResponse_approved unfolding waitForEscalationDecision_def Let_def by blast

theorem file_wait_fails_closed_witness:
  "\<exists>i raw. (\<lambda>i::nat. if i < 3 then FileAbsent else FileParsed (JObj [(''decision'', JStr ''approved'')])) i = FileParsed (JObj raw) \<and>
     getProp raw ''decision'' = JStr ''approved''"
proof (rule file_wait_fails_closed)
  show "waitForEscalationDecision 5000 (\<lambda>i. 500 * of_nat i)
      (\<lambda>i. if i < 3 then FileAbsent else FileParsed (JObj [(''decision'', JStr ''approved'')])) =
      WaitDone \<lparr>es_approved = True, es_selection = None\<rparr>" by code_simp
qed simp



section \<open>Argument checks\<close>

text \<open>In a session with a terminal multiplexer, a user message counts for auto-approval exactly when
  the multiplexer wrote it and its time stamp parses and is at most two minutes old and not in the
  future.\<close>

theorem pty_context_trusted_iff:
  "isUserContextTrusted parseDate ctx True now \<longleftrightarrow>
   uc_source ctx = Some ''mux-trusted-input'' \<and>
   (\<exists>ts ms. uc_timestamp ctx = Some ts \<and> parseDate ts = Some ms \<and> ms \<le> now \<and> now - ms \<le> 120000)"
  by (auto simp: isUserContextTrusted_def Let_def TRUSTED_INPUT_STALENESS_MS_def split: option.splits)

lemma firstSome_None_iff: "firstSome f xs = None \<longleftrightarrow> (\<forall>x \<in> set xs. f x = None)"
  by (induction xs) (auto split: option.splits)

text \<open>The arguments of an untrusted call are accepted exactly when the schema declares no
  properties, opts out with \<open>additionalProperties\<close>, or every argument is declared and has the
  declared primitive type.\<close>

theorem validateToolArguments_accepts_iff:
  "validateToolArguments rt args schema = None \<longleftrightarrow>
   (case objectEntries rt (getProp schema ''properties'') of
      None \<Rightarrow> True
    | Some props \<Rightarrow>
        truthy (getProp schema ''additionalProperties'') \<or>
        (\<forall>(k, v) \<in> set args. k \<in> fst ` set props \<and>
           (\<forall>t. declaredType props k = Some t \<longrightarrow> matchesJsonSchemaType v t)))"
proof (cases "objectEntries rt (getProp schema ''properties'')")
  case None
  then show ?thesis by (simp add: validateToolArguments_def)
next
  case (Some props)
  have mm: "typeMismatch props (k, v) = None \<longleftrightarrow> (\<forall>t. declaredType props k = Some t \<longrightarrow> matchesJsonSchemaType v t)" for k v
    by (cases "declaredType props k") (simp_all add: typeMismatch_def)
  have unk: "filter (\<lambda>k. k \<notin> set (uniq (map fst props))) (map fst args) = [] \<longleftrightarrow> (\<forall>(k, v) \<in> set args. k \<in> fst ` set props)"
    by (force simp: filter_empty_conv)
  have fs: "firstSome (typeMismatch props) args = None \<longleftrightarrow>
      (\<forall>(k, v) \<in> set args. \<forall>t. declaredType props k = Some t \<longrightarrow> matchesJsonSchemaType v t)"
    unfolding firstSome_None_iff using mm by auto
  let ?u = "filter (\<lambda>k. k \<notin> set (uniq (map fst props))) (map fst args) = []"
  have "validateToolArguments rt args schema = None \<longleftrightarrow>
      truthy (getProp schema ''additionalProperties'') \<or> (?u \<and> firstSome (typeMismatch props) args = None)"
    by (cases "truthy (getProp schema ''additionalProperties'')"; cases ?u)
      (simp_all only: validateToolArguments_def Some option.case Let_def if_True if_False simp_thms option.distinct)
  then show ?thesis unfolding unk fs using Some by auto
qed

theorem validateToolArguments_accepts_iff_witness:
  "validateToolArguments demoRuntime [(''path'', JObj [])] [(''properties'', JObj [(''path'', JObj [(''type'', JStr ''string'')])])] \<noteq> None"
  unfolding validateToolArguments_accepts_iff
  by (simp add: objectEntries_def getProp_def declaredType_def matchesJsonSchemaType_def jsonSchemaTypeOf_def)

lemma map_of_buildToolMap:
  "distinct (map pt_name ts) \<Longrightarrow> t \<in> set ts \<Longrightarrow> map_of (buildToolMap ts) (pt_name t) = Some t"
proof (induction ts rule: rev_induct)
  case (snoc x ts)
  have "buildToolMap (ts @ [x]) = setProp (buildToolMap ts) (pt_name x) x" by (simp add: buildToolMap_def)
  then show ?case using snoc by (auto simp: map_of_setProp image_iff)
qed simp

lemma distinct_iff_count_list: "distinct xs \<longleftrightarrow> (\<forall>x \<in> set xs. count_list xs x \<le> 1)"
proof (induction xs)
  case (Cons a xs)
  have "count_list xs a = 0 \<longleftrightarrow> a \<notin> set xs" by (simp add: count_list_0_iff)
  then show ?case using Cons by auto
qed simp

text \<open>The start-up check makes routing by bare name unambiguous: it passes exactly when no two
  registered tools share a name, and then the tool map sends every name to the tool that was
  registered under it.\<close>

theorem unique_names_route_to_owner:
  "(assertUniqueToolNames ts = None \<longleftrightarrow> distinct (map pt_name ts)) \<and>
   (assertUniqueToolNames ts = None \<longrightarrow> (\<forall>t \<in> set ts. map_of (buildToolMap ts) (pt_name t) = Some t))"
proof -
  have cnt: "length (toolOwners ts n) = count_list (map pt_name ts) n" for n
    by (induction ts) (auto simp: toolOwners_def)
  have "assertUniqueToolNames ts = None \<longleftrightarrow> (\<forall>n \<in> set (map pt_name ts). count_list (map pt_name ts) n \<le> 1)"
    by (auto simp: assertUniqueToolNames_def Let_def filter_empty_conv cnt not_less)
  also have "\<dots> \<longleftrightarrow> distinct (map pt_name ts)"
    unfolding distinct_iff_count_list by (rule refl)
  finally have iff: "assertUniqueToolNames ts = None \<longleftrightarrow> distinct (map pt_name ts)" .
  show ?thesis unfolding iff using map_of_buildToolMap by blast
qed

theorem unique_names_route_to_owner_witness:
  "map_of (buildToolMap [demoProxied ''a'' ''f'' [], demoProxied ''b'' ''g'' []]) ''g'' = Some (demoProxied ''b'' ''g'' [])"
proof -
  let ?ts = "[demoProxied ''a'' ''f'' [], demoProxied ''b'' ''g'' []]"
  have "distinct (map pt_name ?ts)" by (simp add: demoProxied_def)
  then have "map_of (buildToolMap ?ts) (pt_name (demoProxied ''b'' ''g'' [])) = Some (demoProxied ''b'' ''g'' [])"
    using unique_names_route_to_owner [of ?ts] by simp
  then show ?thesis by (simp add: demoProxied_def)
qed

end
