(* ===== verification/Tool_Call_Coordinator.thy ===== *)
theory Tool_Call_Coordinator
  imports Pipeline_Props
begin

text \<open>
  The coordinator (\<open>src/trusted-process/tool-call-coordinator.ts\<close>) with its first-in first-out mutex
  (\<open>src/trusted-process/async-mutex.ts\<close>) and the check of a policy directory
  (\<open>src/config/validate-policy-dir.ts\<close>). Concurrent calls, policy swaps and a close are threads; the
  code between two awaits at which another thread may run is one step. A critical section of the
  call mutex is one step of the thread at the head of the queue.
\<close>

section \<open>Policy directories\<close>

definition isEqualOrInside :: "string \<Rightarrow> string \<Rightarrow> bool" where
  "isEqualOrInside child parent =
     (if child = parent then True
      else let pfx = (if parent = ''/'' then ''/'' else parent @ ''/'') in startsWith child pfx)"

text \<open>The two trusted directories are arguments; \<open>None\<close> is the validation error.\<close>

definition validatePolicyDir :: "host \<Rightarrow> string \<Rightarrow> string \<Rightarrow> string \<Rightarrow> string option" where
  "validatePolicyDir h home packageConfigDir policyDir =
     (let resolvedPolicy = resolveRealPath h policyDir;
          trustedDirs = map (resolveRealPath h) [home, packageConfigDir]
      in if \<not> list_ex (isEqualOrInside resolvedPolicy) trustedDirs then None else Some resolvedPolicy)"

section \<open>The mutex\<close>

text \<open>The chain of promises as the queue of its holders: the head holds the lock, a release passes it
  to the next.\<close>

definition acquireLock :: "nat list \<Rightarrow> nat \<Rightarrow> nat list" where
  "acquireLock q i = q @ [i]"

definition holdsLock :: "nat list \<Rightarrow> nat \<Rightarrow> bool" where
  "holdsLock q i = (case q of [] \<Rightarrow> False | j # _ \<Rightarrow> j = i)"

definition releaseLock :: "nat list \<Rightarrow> nat list" where
  "releaseLock q = tl q"

section \<open>State\<close>

text \<open>A call of \<open>handleToolCall\<close>, or of \<open>handleStructuredToolCall\<close> when the flag is set (the request's own
  identifier and time stamp are then those of the world), with what the process observes while it
  runs. The synthetic entry is fixed when the call arrives.\<close>

record tool_call =
  tc_serverName :: string
  tc_toolName :: string
  tc_args :: jsobj
  tc_world :: call_world
  tc_structured :: bool
  tc_synthetic :: "proxied_tool option"

datatype phase =
    CallArriving tool_call
  | CallEntered tool_call
  | CallQueued tool_call
  | CallDeciding tool_call call_tool_deps call_info evaluation_result pending_escalation
  | CallResuming tool_call call_tool_deps call_info evaluation_result pending_escalation
  | CallLeaving call_outcome
  | CallDone call_outcome
  | LoadDraining string string
  | LoadQueued string string
  | LoadLeaving bool
  | LoadDone bool
  | CloseDraining
  | CloseQueued
  | CloseLeaving
  | CloseDone

text \<open>What stays fixed: the dependencies without the members the state holds, what a policy swap
  rebuilds the engine from, and the loader of a policy directory.\<close>

record coordinator_config =
  cc_deps :: call_tool_deps
  cc_toolAnnotations :: annotations_file
  cc_protectedPaths :: "string list"
  cc_serverDomainAllowlists :: "(string \<times> string list) list"
  cc_trustedServers :: "string list"
  cc_home :: string
  cc_packageConfigDir :: string
  cc_loadPersonaPolicyArtifacts :: "string \<Rightarrow> (compiled_policy \<times> dynamic_lists_file option) option"

record coordinator =
  co_policyEngine :: policy_engine
  co_currentPersona :: "string option"
  co_lastUserMessage :: "string option"
  co_toolMap :: "(string \<times> proxied_tool) list"
  co_resolvedSandboxConfigs :: "(string \<times> bool) list"
  co_pipeline :: pipeline_state
  co_activeToolCalls :: nat
  co_admissionOpen :: bool
  co_closed :: bool
  co_callMutex :: "nat list"
  co_threads :: "phase list"

section \<open>Operations\<close>

definition setClientState :: "string \<Rightarrow> mcp_root list \<Rightarrow> coordinator \<Rightarrow> coordinator" where
  "setClientState srv roots s =
     s\<lparr>co_pipeline := (co_pipeline s)\<lparr>ps_roots := setProp (ps_roots (co_pipeline s)) srv roots\<rparr>\<rparr>"

definition registerTools ::
  "string \<Rightarrow> proxied_tool list \<Rightarrow> mcp_root list option \<Rightarrow> coordinator \<Rightarrow> coordinator" where
  "registerTools srv tools clientState s =
     (let s1 = s\<lparr>co_toolMap := foldl (\<lambda>m t. setProp m (annotationKey srv (pt_name t)) t) (co_toolMap s) tools\<rparr>
      in case clientState of None \<Rightarrow> s1 | Some roots \<Rightarrow> setClientState srv roots s1)"

definition setResolvedSandboxConfig :: "string \<Rightarrow> bool \<Rightarrow> coordinator \<Rightarrow> coordinator" where
  "setResolvedSandboxConfig srv sandboxed s = s\<lparr>co_resolvedSandboxConfigs := setProp (co_resolvedSandboxConfigs s) srv sandboxed\<rparr>"

text \<open>What \<open>warnOnToolAnnotationDrift\<close> reports: the tools without an annotation and the annotations
  without a tool, sorted, none twice; \<open>None\<close> when the server has no annotations at all.\<close>

definition toolAnnotationDrift ::
  "string \<Rightarrow> proxied_tool list \<Rightarrow> annotations_file \<Rightarrow> (string list \<times> string list) option" where
  "toolAnnotationDrift srv liveTools toolAnnotations =
     (case map_of (af_servers toolAnnotations) srv of
        None \<Rightarrow> None
      | Some annotated \<Rightarrow>
          (let liveNames = remdups (map pt_name liveTools);
               annotatedNames = remdups (map sa_toolName (srv_tools annotated))
           in Some (sort (filter (\<lambda>n. n \<notin> set annotatedNames) liveNames),
                    sort (filter (\<lambda>n. n \<notin> set liveNames) annotatedNames))))"

definition setLastUserMessage :: "string option \<Rightarrow> coordinator \<Rightarrow> coordinator" where
  "setLastUserMessage m s = s\<lparr>co_lastUserMessage := m\<rparr>"

definition buildCallToolDeps :: "coordinator_config \<Rightarrow> coordinator \<Rightarrow> proxied_tool option \<Rightarrow> call_tool_deps" where
  "buildCallToolDeps cfg s syntheticTool =
     (cc_deps cfg)\<lparr>dp_toolMap := (case syntheticTool of
          None \<Rightarrow> co_toolMap s
        | Some t \<Rightarrow> setProp (co_toolMap s) (annotationKey (pt_serverName t) (pt_name t)) t),
       dp_policyEngine := co_policyEngine s,
       dp_sandboxed := co_resolvedSandboxConfigs s,
       dp_autoApproveUserMessage := co_lastUserMessage s,
       dp_persona := co_currentPersona s\<rparr>"

text \<open>The synthetic entry and the result of \<open>handleStructuredToolCall\<close>.\<close>

definition syntheticTool :: "coordinator \<Rightarrow> string \<Rightarrow> string \<Rightarrow> proxied_tool option" where
  "syntheticTool s srv tool =
     (if map_of (co_toolMap s) (annotationKey srv tool) \<noteq> None then None
      else Some \<lparr>pt_serverName = srv, pt_name = tool, pt_description = None, pt_inputSchema = []\<rparr>)"

definition structuredStatus :: "tool_call_response \<Rightarrow> result_status" where
  "structuredStatus response =
     (if resp_isError response
      then (if pd_status (resp_policyDecision response) = Deny then ResultDenied else ResultError)
      else ResultSuccess)"

definition leaveToolCall :: "coordinator \<Rightarrow> coordinator" where
  "leaveToolCall s = s\<lparr>co_activeToolCalls := co_activeToolCalls s - 1\<rparr>"

definition setThread :: "nat \<Rightarrow> phase \<Rightarrow> coordinator \<Rightarrow> coordinator" where
  "setThread i p s = s\<lparr>co_threads := (co_threads s)[i := p]\<rparr>"

definition lockCall :: "nat \<Rightarrow> coordinator \<Rightarrow> coordinator" where
  "lockCall i s = s\<lparr>co_callMutex := acquireLock (co_callMutex s) i\<rparr>"

definition unlockCall :: "coordinator \<Rightarrow> coordinator" where
  "unlockCall s = s\<lparr>co_callMutex := releaseLock (co_callMutex s)\<rparr>"

text \<open>The end of a critical section; the admission slot is given back by a later step.\<close>

definition finishThread :: "nat \<Rightarrow> pipeline_state \<Rightarrow> call_outcome \<Rightarrow> coordinator \<Rightarrow> coordinator" where
  "finishThread i st out s = setThread i (CallLeaving out) (unlockCall (s\<lparr>co_pipeline := st\<rparr>))"

text \<open>\<open>enterToolCall\<close>: a refusal, an admission, or a wait for the admission to open.\<close>

definition enterToolCall :: "nat \<Rightarrow> tool_call \<Rightarrow> coordinator \<Rightarrow> coordinator option" where
  "enterToolCall i c s =
     (if co_closed s then Some (setThread i (CallDone (Raised ''ToolCallCoordinator is closed'')) s)
      else if co_admissionOpen s
        then Some (setThread i (CallEntered c) (s\<lparr>co_activeToolCalls := co_activeToolCalls s + 1\<rparr>))
      else None)"

definition runBegin :: "host \<Rightarrow> coordinator_config \<Rightarrow> nat \<Rightarrow> tool_call \<Rightarrow> coordinator \<Rightarrow> coordinator" where
  "runBegin h cfg i c s =
     (let deps = buildCallToolDeps cfg s (tc_synthetic c)
      in case beginCall h deps (tc_world c) (annotationKey (tc_serverName c) (tc_toolName c)) (tc_args c) (co_pipeline s) of
           Finished st out \<Rightarrow> finishThread i st out s
         | AwaitsDecision info ev pe \<Rightarrow> setThread i (CallDeciding c deps info ev pe) (unlockCall s))"

definition runResume ::
  "host \<Rightarrow> nat \<Rightarrow> tool_call \<Rightarrow> call_tool_deps \<Rightarrow> call_info \<Rightarrow> evaluation_result \<Rightarrow> pending_escalation \<Rightarrow>
   coordinator \<Rightarrow> coordinator" where
  "runResume h i c deps info ev pe s =
     (let (st, out) = resumeCall h deps (tc_world c) info ev pe (co_pipeline s) in finishThread i st out s)"

text \<open>The \<open>finally\<close> block of \<open>withToolCallsQuiesced\<close>. The threads that wait for the admission or the
  drain test their condition again when it runs, so the waiter lists need no model.\<close>

definition endQuiesce :: "coordinator \<Rightarrow> coordinator" where
  "endQuiesce s = (if co_closed s then s else s\<lparr>co_admissionOpen := True\<rparr>)"

definition swapPolicy ::
  "host \<Rightarrow> coordinator_config \<Rightarrow> string \<Rightarrow> compiled_policy \<Rightarrow> dynamic_lists_file option \<Rightarrow> coordinator \<Rightarrow> coordinator" where
  "swapPolicy h cfg persona policy dynamicLists s =
     (let merged = mergeProxyAnnotations (cc_toolAnnotations cfg);
          policy' = policy\<lparr>cp_rules := proxyPolicyRules @ cp_rules policy\<rparr>
      in s\<lparr>co_policyEngine := newPolicyEngine h policy' merged (cc_protectedPaths cfg) (dp_allowedDirectory (cc_deps cfg))
             (Some (cc_serverDomainAllowlists cfg)) dynamicLists (Some (cc_trustedServers cfg)),
           co_currentPersona := Some persona\<rparr>)"

definition runLoad :: "host \<Rightarrow> coordinator_config \<Rightarrow> nat \<Rightarrow> string \<Rightarrow> string \<Rightarrow> coordinator \<Rightarrow> coordinator" where
  "runLoad h cfg i persona dir s =
     (case cc_loadPersonaPolicyArtifacts cfg dir of
        None \<Rightarrow> setThread i (LoadLeaving False) (unlockCall s)
      | Some (policy, dynamicLists) \<Rightarrow>
          setThread i (LoadLeaving True) (unlockCall (swapPolicy h cfg persona policy dynamicLists s)))"

definition runClose :: "nat \<Rightarrow> coordinator \<Rightarrow> coordinator" where
  "runClose i s = setThread i CloseLeaving (unlockCall s)"

text \<open>The flag of \<open>close\<close> is set after the lock has been given back.\<close>

definition endClose :: "nat \<Rightarrow> coordinator \<Rightarrow> coordinator" where
  "endClose i s = setThread i CloseDone (endQuiesce (s\<lparr>co_closed := True\<rparr>))"

section \<open>Steps\<close>

datatype event =
    ArriveCall tool_call
  | ArriveLoad string string
  | ArriveClose
  | Register string "proxied_tool list" "mcp_root list option"
  | ClientState string "mcp_root list"
  | SandboxConfig string bool
  | UserMessage "string option"
  | Advance nat

definition withSynthetic :: "coordinator \<Rightarrow> tool_call \<Rightarrow> tool_call" where
  "withSynthetic s c =
     c\<lparr>tc_synthetic := (if tc_structured c then syntheticTool s (tc_serverName c) (tc_toolName c) else None)\<rparr>"

definition spawn :: "phase \<Rightarrow> coordinator \<Rightarrow> coordinator" where
  "spawn p s = s\<lparr>co_threads := co_threads s @ [p]\<rparr>"

text \<open>The next step of a thread, \<open>None\<close> while it waits.\<close>

definition advance :: "host \<Rightarrow> coordinator_config \<Rightarrow> nat \<Rightarrow> coordinator \<Rightarrow> coordinator option" where
  "advance h cfg i s =
     (if \<not> i < length (co_threads s) then None
      else case co_threads s ! i of
        CallArriving c \<Rightarrow> enterToolCall i c s
      | CallEntered c \<Rightarrow> Some (setThread i (CallQueued c) (lockCall i s))
      | CallQueued c \<Rightarrow> (if holdsLock (co_callMutex s) i then Some (runBegin h cfg i c s) else None)
      | CallDeciding c deps info ev pe \<Rightarrow>
          (case waitForDecision h deps (tc_world c) info ev pe of
             DecisionPending \<Rightarrow> None
           | _ \<Rightarrow> Some (setThread i (CallResuming c deps info ev pe) (lockCall i s)))
      | CallResuming c deps info ev pe \<Rightarrow>
          (if holdsLock (co_callMutex s) i then Some (runResume h i c deps info ev pe s) else None)
      | CallLeaving out \<Rightarrow> Some (setThread i (CallDone out) (leaveToolCall s))
      | LoadDraining persona dir \<Rightarrow>
          (if co_activeToolCalls s > 0 then None
           else Some (setThread i (LoadQueued persona dir) (lockCall i s)))
      | LoadQueued persona dir \<Rightarrow>
          (if holdsLock (co_callMutex s) i then Some (runLoad h cfg i persona dir s) else None)
      | LoadLeaving loaded \<Rightarrow> Some (setThread i (LoadDone loaded) (endQuiesce s))
      | CloseDraining \<Rightarrow>
          (if co_activeToolCalls s > 0 then None else Some (setThread i CloseQueued (lockCall i s)))
      | CloseQueued \<Rightarrow> (if holdsLock (co_callMutex s) i then Some (runClose i s) else None)
      | CloseLeaving \<Rightarrow> Some (endClose i s)
      | _ \<Rightarrow> None)"

definition coordStep :: "host \<Rightarrow> coordinator_config \<Rightarrow> coordinator \<Rightarrow> event \<Rightarrow> coordinator option" where
  "coordStep h cfg s e =
     (case e of
        ArriveCall c \<Rightarrow> Some (spawn (CallArriving (withSynthetic s c)) s)
      | ArriveLoad persona dir \<Rightarrow>
          (case validatePolicyDir h (cc_home cfg) (cc_packageConfigDir cfg) dir of
             None \<Rightarrow> Some (spawn (LoadDone False) s)
           | Some canonical \<Rightarrow> Some (spawn (LoadDraining persona canonical) (s\<lparr>co_admissionOpen := False\<rparr>)))
      | ArriveClose \<Rightarrow> Some (spawn CloseDraining (s\<lparr>co_admissionOpen := False\<rparr>))
      | Register srv tools roots \<Rightarrow> Some (registerTools srv tools roots s)
      | ClientState srv roots \<Rightarrow> Some (setClientState srv roots s)
      | SandboxConfig srv sandboxed \<Rightarrow> Some (setResolvedSandboxConfig srv sandboxed s)
      | UserMessage m \<Rightarrow> Some (setLastUserMessage m s)
      | Advance i \<Rightarrow> advance h cfg i s)"

definition newCoordinator :: "coordinator_config \<Rightarrow> policy_engine \<Rightarrow> int \<Rightarrow> coordinator" where
  "newCoordinator cfg engine workers =
     \<lparr>co_policyEngine = engine, co_currentPersona = None, co_lastUserMessage = None, co_toolMap = [],
      co_resolvedSandboxConfigs = dp_sandboxed (cc_deps cfg), co_pipeline = \<lparr>ps_audit = [],
        ps_breaker = newCallCircuitBreaker
          \<lparr>optWindowMs = None, optThreshold = None, optWorkerCount = Some (of_int workers)\<rparr>,
        ps_whitelist = createApprovalWhitelist, ps_context = [], ps_roots = [], ps_effects = []\<rparr>,
      co_activeToolCalls = 0, co_admissionOpen = True, co_closed = False, co_callMutex = [], co_threads = []\<rparr>"

text \<open>The states the coordinator can reach, by the steps that are enabled.\<close>

inductive coordReach :: "host \<Rightarrow> coordinator_config \<Rightarrow> coordinator \<Rightarrow> coordinator \<Rightarrow> bool"
  for h cfg s0 where
  reach_init: "coordReach h cfg s0 s0"
| reach_step: "coordReach h cfg s0 s \<Longrightarrow> coordStep h cfg s e = Some s' \<Longrightarrow> coordReach h cfg s0 s'"

end
