(* ===== verification/Coordinator_Props.thy ===== *)
theory Coordinator_Props
  imports Tool_Call_Coordinator
begin

text \<open>
  Invariants and properties of the coordinator over every interleaving of calls, policy swaps and a
  close: the admission count, the queue of the mutex, and the policy under which a paused call was
  evaluated.
\<close>

section \<open>Phases\<close>

fun inflight :: "phase \<Rightarrow> bool" where
  "inflight (CallEntered _) = True"
| "inflight (CallQueued _) = True"
| "inflight (CallDeciding _ _ _ _ _) = True"
| "inflight (CallResuming _ _ _ _ _) = True"
| "inflight (CallLeaving _) = True"
| "inflight _ = False"

fun paused :: "phase \<Rightarrow> bool" where
  "paused (CallDeciding _ _ _ _ _) = True"
| "paused (CallResuming _ _ _ _ _) = True"
| "paused _ = False"

fun swapQueued :: "phase \<Rightarrow> bool" where
  "swapQueued (LoadQueued _ _) = True"
| "swapQueued CloseQueued = True"
| "swapQueued _ = False"

fun swapLive :: "phase \<Rightarrow> bool" where
  "swapLive (LoadDraining _ _) = True"
| "swapLive CloseDraining = True"
| "swapLive (LoadLeaving _) = True"
| "swapLive CloseLeaving = True"
| "swapLive p = swapQueued p"

fun waitsLock :: "phase \<Rightarrow> bool" where
  "waitsLock (CallQueued _) = True"
| "waitsLock (CallResuming _ _ _ _ _) = True"
| "waitsLock p = swapQueued p"

lemma phase_facts:
  "paused p \<Longrightarrow> inflight p" "swapQueued p \<Longrightarrow> \<not> inflight p" "swapQueued p \<Longrightarrow> waitsLock p"
  "waitsLock p \<Longrightarrow> \<not> swapQueued p \<Longrightarrow> inflight p" "swapQueued p \<Longrightarrow> swapLive p"
  by (cases p; simp)+

text \<open>A paused call keeps the engine and the persona it was evaluated under, its evaluation
  escalated, and a call that queues again has a settled decision.\<close>

fun pinned :: "host \<Rightarrow> policy_engine \<Rightarrow> string option \<Rightarrow> phase \<Rightarrow> bool" where
  "pinned h engine persona (CallDeciding c deps info ev pe) \<longleftrightarrow>
     dp_policyEngine deps = engine \<and> dp_persona deps = persona \<and>
     evaluate engine h (ci_request info) = Inr ev \<and> er_decision ev = Escalate"
| "pinned h engine persona (CallResuming c deps info ev pe) \<longleftrightarrow>
     dp_policyEngine deps = engine \<and> dp_persona deps = persona \<and>
     evaluate engine h (ci_request info) = Inr ev \<and> er_decision ev = Escalate \<and>
     waitForDecision h deps (tc_world c) info ev pe \<noteq> DecisionPending"
| "pinned h engine persona _ \<longleftrightarrow> True"

lemma pinned_not_paused: "\<not> paused p \<Longrightarrow> pinned h engine persona p"
  by (cases p) simp_all

section \<open>The invariant\<close>

text \<open>The queue: its members are the threads that wait for the lock, each once, and the swaps stand
  before the calls.\<close>

definition queueInv :: "phase list \<Rightarrow> nat list \<Rightarrow> bool" where
  "queueInv ts q \<longleftrightarrow> distinct q \<and> (\<forall>i. i \<in> set q \<longleftrightarrow> i < length ts \<and> waitsLock (ts ! i)) \<and>
     sorted (map (\<lambda>i. \<not> swapQueued (ts ! i)) q)"

definition coordInv :: "host \<Rightarrow> coordinator \<Rightarrow> bool" where
  "coordInv h s \<longleftrightarrow>
     co_activeToolCalls s = length (filter inflight (co_threads s)) \<and>
     queueInv (co_threads s) (co_callMutex s) \<and>
     ((\<exists>p \<in> set (co_threads s). swapQueued p) \<longrightarrow> (\<forall>p \<in> set (co_threads s). \<not> paused p)) \<and>
     (\<forall>p \<in> set (co_threads s). pinned h (co_policyEngine s) (co_currentPersona s) p) \<and>
     (\<not> co_admissionOpen s \<and> \<not> co_closed s \<longrightarrow> (\<exists>p \<in> set (co_threads s). swapLive p))"

lemma filter_update:
  "i < length xs \<Longrightarrow> length (filter P (xs[i := x])) + (if P (xs ! i) then 1 else 0) =
     length (filter P xs) + (if P x then 1 else 0)"
proof (induction xs arbitrary: i)
  case (Cons y xs)
  then show ?case by (cases i) auto
qed simp

lemma set_update_ball:
  "i < length xs \<Longrightarrow> (\<forall>p \<in> set (xs[i := x]). Q p) \<Longrightarrow> Q x"
  by (meson set_update_memI)

lemma ball_update: "\<forall>p \<in> set xs. Q p \<Longrightarrow> Q x \<Longrightarrow> \<forall>p \<in> set (xs[i := x]). Q p"
  using set_update_subset_insert [of xs i x] by blast

lemma bex_update:
  assumes "\<exists>p \<in> set xs. Q p" "i < length xs" "Q (xs ! i) \<Longrightarrow> Q x"
  shows "\<exists>p \<in> set (xs[i := x]). Q p"
proof -
  obtain j where j: "j < length xs" "Q (xs ! j)" using assms(1) by (auto simp: in_set_conv_nth)
  have "Q (xs[i := x] ! j)" using j assms(2,3) by (cases "j = i") auto
  then show ?thesis using j(1) nth_mem [of j "xs[i := x]"] by auto
qed

lemma bex_updateD: "\<exists>p \<in> set (xs[i := x]). Q p \<Longrightarrow> \<not> Q x \<Longrightarrow> \<exists>p \<in> set xs. Q p"
  using set_update_subset_insert [of xs i x] by blast

lemma kinds_update:
  "i \<notin> set q \<Longrightarrow> map (\<lambda>j. \<not> swapQueued (ts[i := p] ! j)) q = map (\<lambda>j. \<not> swapQueued (ts ! j)) q"
proof (rule map_cong [OF refl])
  fix j assume "i \<notin> set q" "j \<in> set q"
  then have "j \<noteq> i" by blast
  then show "(\<not> swapQueued (ts[i := p] ! j)) = (\<not> swapQueued (ts ! j))" by simp
qed

lemma queueInv_memD: "queueInv ts q \<Longrightarrow> i \<in> set q \<longleftrightarrow> i < length ts \<and> waitsLock (ts ! i)"
  by (simp add: queueInv_def)

lemma queueInv_distinct: "queueInv ts q \<Longrightarrow> distinct q"
  and queueInv_sorted: "queueInv ts q \<Longrightarrow> sorted (map (\<lambda>i. \<not> swapQueued (ts ! i)) q)"
  by (simp_all add: queueInv_def)

lemma queueInvI:
  "distinct q \<Longrightarrow> (\<And>i. i \<in> set q \<longleftrightarrow> i < length ts \<and> waitsLock (ts ! i)) \<Longrightarrow>
   sorted (map (\<lambda>i. \<not> swapQueued (ts ! i)) q) \<Longrightarrow> queueInv ts q"
  by (simp add: queueInv_def)

lemma queueInv_spawn:
  assumes "queueInv ts q" "\<not> waitsLock p"
  shows "queueInv (ts @ [p]) q"
proof -
  have "map (\<lambda>i. \<not> swapQueued ((ts @ [p]) ! i)) q = map (\<lambda>i. \<not> swapQueued (ts ! i)) q"
    using queueInv_memD [OF assms(1)] by (intro map_cong [OF refl]) (simp add: nth_append)
  moreover have "i \<in> set q \<longleftrightarrow> i < length (ts @ [p]) \<and> waitsLock ((ts @ [p]) ! i)" for i
    unfolding queueInv_memD [OF assms(1)] using assms(2)
    by (cases "i < length ts"; cases "i = length ts") (simp_all add: nth_append)
  ultimately show ?thesis
    using queueInv_distinct [OF assms(1)] queueInv_sorted [OF assms(1)] by (intro queueInvI) (simp_all only:)
qed

lemma queueInv_same:
  assumes "queueInv ts q" "i < length ts" "\<not> waitsLock (ts ! i)" "\<not> waitsLock p"
  shows "queueInv (ts[i := p]) q"
proof -
  have "i \<notin> set q" using assms by (auto simp: queueInv_def)
  note eq = kinds_update [OF this]
  show ?thesis
  proof (rule queueInvI)
    show "distinct q" by (rule queueInv_distinct [OF assms(1)])
    show "sorted (map (\<lambda>j. \<not> swapQueued (ts[i := p] ! j)) q)"
      unfolding eq by (rule queueInv_sorted [OF assms(1)])
    show "j \<in> set q \<longleftrightarrow> j < length (ts[i := p]) \<and> waitsLock (ts[i := p] ! j)" for j
      using assms(2-4) unfolding queueInv_memD [OF assms(1)] by (cases "j = i") simp_all
  qed
qed

lemma queueInv_lock:
  assumes "queueInv ts q" "i < length ts" "\<not> waitsLock (ts ! i)" "waitsLock p"
    and "swapQueued p \<Longrightarrow> \<forall>x \<in> set ts. \<not> inflight x"
  shows "queueInv (ts[i := p]) (acquireLock q i)"
proof -
  have i: "i \<notin> set q" using assms by (auto simp: queueInv_def)
  note eq = kinds_update [OF this]
  have "swapQueued (ts ! j)" if "swapQueued p" "j \<in> set q" for j
  proof -
    have "j < length ts" "waitsLock (ts ! j)" using that(2) unfolding queueInv_memD [OF assms(1)] by auto
    then show ?thesis using assms(5) [OF that(1)] phase_facts(4) [of "ts ! j"] nth_mem by blast
  qed
  then have "\<forall>j \<in> set q. (\<not> swapQueued (ts ! j)) \<le> (\<not> swapQueued p)" by auto
  then have "sorted (map (\<lambda>j. \<not> swapQueued (ts[i := p] ! j)) (q @ [i]))"
    unfolding map_append eq sorted_append using queueInv_sorted [OF assms(1)] assms(2) by simp
  moreover have "distinct (q @ [i])" using queueInv_distinct [OF assms(1)] i by simp
  moreover have "j \<in> set (q @ [i]) \<longleftrightarrow> j < length (ts[i := p]) \<and> waitsLock (ts[i := p] ! j)" for j
    using assms(2-4) queueInv_memD [OF assms(1), of j] by (cases "j = i") simp_all
  ultimately show ?thesis unfolding acquireLock_def by (intro queueInvI)
qed

lemma queueInv_unlock:
  assumes "queueInv ts q" "holdsLock q i" "\<not> waitsLock p"
  shows "queueInv (ts[i := p]) (releaseLock q)"
proof -
  obtain q' where q: "q = i # q'" using assms(2) by (auto simp: holdsLock_def split: list.splits)
  have "i \<notin> set q'" using assms(1) q by (simp add: queueInv_def)
  note eq = kinds_update [OF this]
  have "j \<in> set q' \<longleftrightarrow> j < length ts \<and> waitsLock (ts[i := p] ! j)" for j
  proof (cases "j = i")
    case True
    then show ?thesis using assms(3) \<open>i \<notin> set q'\<close> by auto
  next
    case False
    have "j \<in> set q \<longleftrightarrow> j < length ts \<and> waitsLock (ts ! j)" using assms(1) by (simp add: queueInv_def)
    then show ?thesis using False q by auto
  qed
  moreover have "distinct q'" using queueInv_distinct [OF assms(1)] q by simp
  moreover have "sorted (map (\<lambda>j. \<not> swapQueued (ts[i := p] ! j)) q')"
    unfolding eq using queueInv_sorted [OF assms(1)] q by simp
  ultimately show ?thesis unfolding releaseLock_def q list.sel by (intro queueInvI) simp_all
qed

lemma holdsLock_waits:
  assumes "queueInv ts q" "holdsLock q i"
  shows "i < length ts \<and> waitsLock (ts ! i)"
  using assms by (auto simp: queueInv_def holdsLock_def split: list.splits)

text \<open>When a call holds the lock, no swap is queued.\<close>

lemma call_at_head_no_swap:
  assumes "queueInv ts q" "holdsLock q i" "\<not> swapQueued (ts ! i)"
  shows "\<forall>p \<in> set ts. \<not> swapQueued p"
proof
  fix p assume "p \<in> set ts"
  then obtain j where j: "j < length ts" "p = ts ! j" by (auto simp: in_set_conv_nth)
  obtain q' where q: "q = i # q'" using assms(2) by (auto simp: holdsLock_def split: list.splits)
  show "\<not> swapQueued p"
  proof
    assume sw: "swapQueued p"
    then have "j \<in> set q" using j phase_facts(3) unfolding queueInv_memD [OF assms(1)] by blast
    moreover have "j \<noteq> i" using sw j(2) assms(3) by blast
    ultimately have "j \<in> set q'" using q by simp
    moreover have "sorted (map (\<lambda>i. \<not> swapQueued (ts ! i)) q)" using assms(1) by (simp add: queueInv_def)
    ultimately have "(\<not> swapQueued (ts ! i)) \<le> (\<not> swapQueued (ts ! j))" unfolding q by simp
    then show False using sw j(2) assms(3) by simp
  qed
qed

section \<open>Preservation\<close>

lemmas thread_ops = setThread_def lockCall_def unlockCall_def leaveToolCall_def finishThread_def
  endQuiesce_def swapPolicy_def spawn_def

lemmas state_ops = registerTools_def setClientState_def setResolvedSandboxConfig_def setLastUserMessage_def

lemma coordInv_spawn:
  assumes "coordInv h s" "\<not> inflight p" "\<not> waitsLock p" "\<not> paused p"
  shows "coordInv h (spawn p s)"
    and "swapLive p \<Longrightarrow> coordInv h (spawn p (s\<lparr>co_admissionOpen := False\<rparr>))"
proof -
  have "\<not> swapQueued p" using assms(3) phase_facts(3) by blast
  then show "coordInv h (spawn p s)" "swapLive p \<Longrightarrow> coordInv h (spawn p (s\<lparr>co_admissionOpen := False\<rparr>))"
    using assms pinned_not_paused queueInv_spawn by (auto simp: coordInv_def spawn_def)
qed

text \<open>A thread in flight means the count is positive, and an empty count means no such thread.\<close>

lemma no_inflight: "coordInv h s \<Longrightarrow> co_activeToolCalls s = 0 \<Longrightarrow> \<forall>p \<in> set (co_threads s). \<not> inflight p"
  by (simp add: coordInv_def filter_empty_conv)

lemma coordInv_same:
  assumes "coordInv h s" "i < length (co_threads s)" "\<not> waitsLock (co_threads s ! i)" "\<not> waitsLock p"
    and "\<not> paused p" "\<not> swapLive (co_threads s ! i)"
    and "a + (if inflight (co_threads s ! i) then 1 else 0) = co_activeToolCalls s + (if inflight p then 1 else 0)"
  shows "coordInv h (setThread i p (s\<lparr>co_activeToolCalls := a\<rparr>))"
proof -
  let ?ts = "(co_threads s)[i := p]"
  have nsw: "\<not> swapQueued p" using assms(4) phase_facts(3) by blast
  have "a = length (filter inflight ?ts)"
    using filter_update [OF assms(2), of inflight p] assms(1,7) by (simp add: coordInv_def)
  moreover have "queueInv ?ts (co_callMutex s)"
    using assms(1-4) queueInv_same by (simp add: coordInv_def)
  moreover have "(\<exists>p \<in> set ?ts. swapQueued p) \<longrightarrow> (\<forall>p \<in> set ?ts. \<not> paused p)"
  proof
    assume "\<exists>p \<in> set ?ts. swapQueued p"
    from bex_updateD [OF this nsw] have "\<forall>p \<in> set (co_threads s). \<not> paused p" using assms(1) by (simp add: coordInv_def)
    from ball_update [OF this assms(5)] show "\<forall>p \<in> set ?ts. \<not> paused p" .
  qed
  moreover have "\<forall>p \<in> set ?ts. pinned h (co_policyEngine s) (co_currentPersona s) p"
    using assms(1) by (intro ball_update pinned_not_paused [OF assms(5)]) (simp add: coordInv_def)
  moreover have "\<not> co_admissionOpen s \<and> \<not> co_closed s \<longrightarrow> (\<exists>p \<in> set ?ts. swapLive p)"
    using assms(1,2,6) bex_update [OF _ assms(2), of swapLive p] by (auto simp: coordInv_def)
  ultimately show ?thesis by (simp add: coordInv_def setThread_def)
qed

lemma coordInv_lock:
  assumes "coordInv h s" "i < length (co_threads s)" "\<not> waitsLock (co_threads s ! i)" "waitsLock p"
    and "inflight p = inflight (co_threads s ! i)"
    and "swapLive p = swapLive (co_threads s ! i)"
    and "pinned h (co_policyEngine s) (co_currentPersona s) p"
    and "paused p \<Longrightarrow> paused (co_threads s ! i)"
    and "swapQueued p \<Longrightarrow> co_activeToolCalls s = 0"
  shows "coordInv h (setThread i p (lockCall i s))"
proof -
  let ?ts = "(co_threads s)[i := p]"
  have free: "\<forall>x \<in> set (co_threads s). \<not> inflight x" if "swapQueued p"
    using no_inflight [OF assms(1) assms(9) [OF that]] .
  have "co_activeToolCalls s = length (filter inflight ?ts)"
    using filter_update [OF assms(2), of inflight p] assms(1,5) by (simp add: coordInv_def)
  moreover have "queueInv ?ts (acquireLock (co_callMutex s) i)"
    using assms(1) free by (intro queueInv_lock [OF _ assms(2-4)]) (simp_all add: coordInv_def)
  moreover have "(\<exists>p \<in> set ?ts. swapQueued p) \<longrightarrow> (\<forall>p \<in> set ?ts. \<not> paused p)"
  proof
    assume ex: "\<exists>p \<in> set ?ts. swapQueued p"
    have "\<forall>x \<in> set (co_threads s). \<not> paused x"
    proof (cases "swapQueued p")
      case True
      then show ?thesis using free phase_facts(1) by blast
    next
      case False
      from bex_updateD [OF ex this] show ?thesis using assms(1) by (simp add: coordInv_def)
    qed
    moreover from this have "\<not> paused p" using assms(2,8) nth_mem by blast
    ultimately show "\<forall>p \<in> set ?ts. \<not> paused p" by (rule ball_update)
  qed
  moreover have "\<forall>p \<in> set ?ts. pinned h (co_policyEngine s) (co_currentPersona s) p"
    using assms(1) by (intro ball_update assms(7)) (simp add: coordInv_def)
  moreover have "\<not> co_admissionOpen s \<and> \<not> co_closed s \<longrightarrow> (\<exists>p \<in> set ?ts. swapLive p)"
    using assms(1,2,6) bex_update [OF _ assms(2), of swapLive p] by (auto simp: coordInv_def)
  ultimately show ?thesis by (simp add: coordInv_def setThread_def lockCall_def)
qed

lemma reviewEscalation_awaits:
  "reviewEscalation h deps w info ev st = AwaitsDecision info' ev' pe \<Longrightarrow> info' = info \<and> ev' = ev"
  by (simp add: reviewEscalation_def Let_def split: option.splits if_splits prod.splits)

lemma beginCall_awaits:
  assumes "beginCall h deps w tool args st = AwaitsDecision info ev pe"
  shows "evaluate (dp_policyEngine deps) h (ci_request info) = Inr ev \<and> er_decision ev = Escalate"
  using assms reviewEscalation_awaits
  by (fastforce simp: beginCall_def Let_def split: sum.splits prod.splits decision.splits)

lemma buildCallToolDeps_fields:
  "dp_policyEngine (buildCallToolDeps cfg s t) = co_policyEngine s"
  "dp_persona (buildCallToolDeps cfg s t) = co_currentPersona s"
  by (simp_all add: buildCallToolDeps_def)

text \<open>A call that leaves the head of the queue: it is done with its critical section or pauses.\<close>

lemma coordInv_unlock_call:
  assumes "coordInv h s" "holdsLock (co_callMutex s) i" "\<not> swapQueued (co_threads s ! i)" "\<not> waitsLock p"
    and "pinned h (co_policyEngine s) (co_currentPersona s) p" "inflight p"
  shows "coordInv h (setThread i p (unlockCall (s\<lparr>co_pipeline := st\<rparr>)))"
proof -
  let ?ts = "(co_threads s)[i := p]"
  have q: "queueInv (co_threads s) (co_callMutex s)" using assms(1) by (simp add: coordInv_def)
  note i = holdsLock_waits [OF q assms(2)]
  have infl: "inflight (co_threads s ! i)" using i assms(3) phase_facts(4) by blast
  have nsw: "\<not> swapQueued p" using assms(4) phase_facts(3) by blast
  have "co_activeToolCalls s = length (filter inflight ?ts)"
    using filter_update [of i "co_threads s" inflight p] i assms(1,6) infl by (simp add: coordInv_def)
  moreover have "queueInv ?ts (releaseLock (co_callMutex s))" by (rule queueInv_unlock [OF q assms(2,4)])
  moreover have "\<not> (\<exists>p \<in> set ?ts. swapQueued p)"
  proof
    assume "\<exists>p \<in> set ?ts. swapQueued p"
    from bex_updateD [OF this nsw] show False using call_at_head_no_swap [OF q assms(2,3)] by blast
  qed
  moreover have "\<forall>p \<in> set ?ts. pinned h (co_policyEngine s) (co_currentPersona s) p"
    using assms(1) by (intro ball_update assms(5)) (simp add: coordInv_def)
  moreover have "\<not> co_admissionOpen s \<and> \<not> co_closed s \<longrightarrow> (\<exists>p \<in> set ?ts. swapLive p)"
  proof -
    have "\<not> swapLive (co_threads s ! i)" using infl by (cases "co_threads s ! i") simp_all
    then show ?thesis using assms(1) i bex_update [of "co_threads s" swapLive i p] by (auto simp: coordInv_def)
  qed
  ultimately show ?thesis by (simp add: coordInv_def setThread_def unlockCall_def)
qed

text \<open>A swap that leaves the head of the queue: nothing is paused, so the engine may change.\<close>

lemma coordInv_unlock_swap:
  assumes "coordInv h s" "holdsLock (co_callMutex s) i" "swapQueued (co_threads s ! i)"
    and "\<not> waitsLock p" "\<not> paused p" "\<not> inflight p" "swapLive p"
  shows "coordInv h (setThread i p (unlockCall (s\<lparr>co_policyEngine := e, co_currentPersona := n\<rparr>)))"
proof -
  let ?ts = "(co_threads s)[i := p]"
  have q: "queueInv (co_threads s) (co_callMutex s)" using assms(1) by (simp add: coordInv_def)
  note i = holdsLock_waits [OF q assms(2)]
  have ninfl: "\<not> inflight (co_threads s ! i)" using assms(3) phase_facts(2) by blast
  have "\<forall>x \<in> set (co_threads s). \<not> paused x"
    using assms(1,3) i nth_mem unfolding coordInv_def by blast
  then have np: "\<forall>x \<in> set ?ts. \<not> paused x" using assms(5) by (rule ball_update)
  have "co_activeToolCalls s = length (filter inflight ?ts)"
    using filter_update [of i "co_threads s" inflight p] i assms(1,6) ninfl by (simp add: coordInv_def)
  moreover have "queueInv ?ts (releaseLock (co_callMutex s))" by (rule queueInv_unlock [OF q assms(2,4)])
  moreover have "\<forall>p \<in> set ?ts. pinned h e n p" using np pinned_not_paused by blast
  moreover have "\<exists>p \<in> set ?ts. swapLive p" using i assms(7) set_update_memI by metis
  ultimately show ?thesis using np by (auto simp: coordInv_def setThread_def unlockCall_def)
qed

text \<open>The end of a swap: the admission is open again or the coordinator is closed.\<close>

lemma coordInv_swap_end:
  assumes "coordInv h s" "i < length (co_threads s)" "\<not> waitsLock (co_threads s ! i)" "\<not> waitsLock p"
    and "\<not> paused p" "\<not> inflight p" "\<not> inflight (co_threads s ! i)" "opn \<or> cls"
  shows "coordInv h (setThread i p (s\<lparr>co_admissionOpen := opn, co_closed := cls\<rparr>))"
proof -
  let ?ts = "(co_threads s)[i := p]"
  have nsw: "\<not> swapQueued p" using assms(4) phase_facts(3) by blast
  have "co_activeToolCalls s = length (filter inflight ?ts)"
    using filter_update [OF assms(2), of inflight p] assms(1,6,7) by (simp add: coordInv_def)
  moreover have "queueInv ?ts (co_callMutex s)"
    using assms(1-4) queueInv_same by (simp add: coordInv_def)
  moreover have "(\<exists>p \<in> set ?ts. swapQueued p) \<longrightarrow> (\<forall>p \<in> set ?ts. \<not> paused p)"
  proof
    assume "\<exists>p \<in> set ?ts. swapQueued p"
    from bex_updateD [OF this nsw] have "\<forall>p \<in> set (co_threads s). \<not> paused p" using assms(1) by (simp add: coordInv_def)
    from ball_update [OF this assms(5)] show "\<forall>p \<in> set ?ts. \<not> paused p" .
  qed
  moreover have "\<forall>p \<in> set ?ts. pinned h (co_policyEngine s) (co_currentPersona s) p"
    using assms(1) by (intro ball_update pinned_not_paused [OF assms(5)]) (simp add: coordInv_def)
  ultimately show ?thesis using assms(8) by (auto simp: coordInv_def setThread_def)
qed

lemma coordInv_runBegin:
  assumes "coordInv h s" "co_threads s ! i = CallQueued c" "holdsLock (co_callMutex s) i"
  shows "coordInv h (runBegin h cfg i c s)"
proof -
  let ?deps = "buildCallToolDeps cfg s (tc_synthetic c)"
  show ?thesis
  proof (cases "beginCall h ?deps (tc_world c) (annotationKey (tc_serverName c) (tc_toolName c)) (tc_args c) (co_pipeline s)")
    case (Finished st out)
    then show ?thesis
      using coordInv_unlock_call [OF assms(1,3), of "CallLeaving out" st] assms(2)
      by (simp add: runBegin_def Let_def finishThread_def)
  next
    case (AwaitsDecision info ev pe)
    then show ?thesis
      using coordInv_unlock_call [OF assms(1,3), of "CallDeciding c ?deps info ev pe" "co_pipeline s"]
        assms(2) beginCall_awaits [OF AwaitsDecision]
      by (simp add: runBegin_def Let_def buildCallToolDeps_fields)
  qed
qed

lemma coordInv_runResume:
  assumes "coordInv h s" "co_threads s ! i = CallResuming c deps info ev pe" "holdsLock (co_callMutex s) i"
  shows "coordInv h (runResume h i c deps info ev pe s)"
proof -
  obtain st out where r: "resumeCall h deps (tc_world c) info ev pe (co_pipeline s) = (st, out)" by fastforce
  show ?thesis
    using coordInv_unlock_call [OF assms(1,3), of "CallLeaving out" st] assms(2) r
    by (simp add: runResume_def finishThread_def)
qed

lemma coordInv_runLoad:
  assumes "coordInv h s" "co_threads s ! i = LoadQueued persona dir" "holdsLock (co_callMutex s) i"
  shows "coordInv h (runLoad h cfg i persona dir s)"
proof -
  have swapped: "coordInv h (setThread i (LoadLeaving b)
      (unlockCall (s\<lparr>co_policyEngine := e, co_currentPersona := n\<rparr>)))" for b e n
    using assms by (intro coordInv_unlock_swap) simp_all
  have "coordInv h (setThread i (LoadLeaving False) (unlockCall s))"
    using swapped [where b = False and e = "co_policyEngine s" and n = "co_currentPersona s"] by simp
  then show ?thesis
    using swapped by (auto simp: runLoad_def swapPolicy_def Let_def split: option.splits)
qed

lemma coordInv_runClose:
  assumes "coordInv h s" "co_threads s ! i = CloseQueued" "holdsLock (co_callMutex s) i"
  shows "coordInv h (runClose i s)"
  using coordInv_unlock_swap [OF assms(1,3), where p = CloseLeaving
      and e = "co_policyEngine s" and n = "co_currentPersona s"] assms(2)
  by (simp add: runClose_def)

lemma coordInv_leave:
  assumes "coordInv h s" "i < length (co_threads s)" "co_threads s ! i = CallLeaving out"
  shows "coordInv h (setThread i (CallDone out) (leaveToolCall s))"
proof -
  have "co_activeToolCalls s > 0" using assms no_inflight nth_mem by fastforce
  then show ?thesis
    using coordInv_same [OF assms(1,2), of "CallDone out" "co_activeToolCalls s - 1"] assms(3)
    by (simp add: leaveToolCall_def)
qed

lemma coordInv_endLoad:
  assumes "coordInv h s" "i < length (co_threads s)" "co_threads s ! i = LoadLeaving b"
  shows "coordInv h (setThread i (LoadDone b) (endQuiesce s))"
proof -
  have "endQuiesce s = s\<lparr>co_admissionOpen := (co_admissionOpen s \<or> \<not> co_closed s), co_closed := co_closed s\<rparr>"
    by (cases s) (simp add: endQuiesce_def)
  then show ?thesis
    using coordInv_swap_end [OF assms(1,2), of "LoadDone b" "co_admissionOpen s \<or> \<not> co_closed s" "co_closed s"] assms(3)
    by simp
qed

lemma coordInv_endClose:
  assumes "coordInv h s" "i < length (co_threads s)" "co_threads s ! i = CloseLeaving"
  shows "coordInv h (endClose i s)"
  using coordInv_swap_end [OF assms(1,2), of CloseDone "co_admissionOpen s" True] assms(3)
  by (simp add: endClose_def endQuiesce_def)

lemma coordInv_enter:
  assumes "coordInv h s" "i < length (co_threads s)" "co_threads s ! i = CallArriving c" "enterToolCall i c s = Some s'"
  shows "coordInv h s'"
  using assms(4) coordInv_same [OF assms(1,2), of "CallDone (Raised ''ToolCallCoordinator is closed'')" "co_activeToolCalls s"]
    coordInv_same [OF assms(1,2), of "CallEntered c" "co_activeToolCalls s + 1"] assms(3)
  by (auto simp: enterToolCall_def split: if_splits)

lemma coordInv_advance:
  assumes "coordInv h s" "advance h cfg i s = Some s'"
  shows "coordInv h s'"
proof -
  have i: "i < length (co_threads s)" using assms(2) by (simp add: advance_def split: if_splits)
  note lock = coordInv_lock [OF assms(1) i]
  have pin: "pinned h (co_policyEngine s) (co_currentPersona s) (co_threads s ! i)"
    using assms(1) i by (simp add: coordInv_def)
  show ?thesis
  proof (cases "co_threads s ! i")
    case (CallArriving c)
    then show ?thesis using assms i by (auto simp: advance_def coordInv_enter)
  next
    case (CallEntered c)
    then show ?thesis using assms i lock [of "CallQueued c"] by (simp add: advance_def)
  next
    case (CallQueued c)
    then show ?thesis using assms i by (auto simp: advance_def coordInv_runBegin split: if_splits)
  next
    case (CallLeaving out)
    then show ?thesis using assms i by (auto simp: advance_def coordInv_leave)
  next
    case (LoadLeaving b)
    then show ?thesis using assms i by (auto simp: advance_def coordInv_endLoad)
  next
    case CloseLeaving
    then show ?thesis using assms i by (auto simp: advance_def coordInv_endClose)
  next
    case (CallDeciding c deps info ev pe)
    then show ?thesis using assms i pin lock [of "CallResuming c deps info ev pe"]
      by (simp add: advance_def split: decision_outcome.splits)
  next
    case (CallResuming c deps info ev pe)
    then show ?thesis using assms i by (auto simp: advance_def coordInv_runResume split: if_splits)
  next
    case (LoadDraining persona dir)
    then show ?thesis using assms i lock [of "LoadQueued persona dir"] by (simp add: advance_def split: if_splits)
  next
    case (LoadQueued persona dir)
    then show ?thesis using assms i by (auto simp: advance_def coordInv_runLoad split: if_splits)
  next
    case CloseDraining
    then show ?thesis using assms i lock [of CloseQueued] by (simp add: advance_def split: if_splits)
  next
    case CloseQueued
    then show ?thesis using assms i by (auto simp: advance_def coordInv_runClose split: if_splits)
  qed (use assms i in \<open>simp_all add: advance_def\<close>)
qed

lemma coordInv_step:
  assumes "coordInv h s" "coordStep h cfg s e = Some s'"
  shows "coordInv h s'"
proof (cases e)
  case (ArriveCall c)
  then show ?thesis using assms coordInv_spawn(1) [OF assms(1), of "CallArriving (withSynthetic s c)"] by (simp add: coordStep_def)
next
  case (ArriveLoad persona dir)
  then show ?thesis
    using assms coordInv_spawn(1) [OF assms(1), of "LoadDone False"] coordInv_spawn(2) [OF assms(1)]
    by (auto simp: coordStep_def split: option.splits)
next
  case ArriveClose
  then show ?thesis using assms coordInv_spawn(2) [OF assms(1), of CloseDraining] by (simp add: coordStep_def)
next
  case (Register srv tools roots)
  then show ?thesis using assms
    by (auto simp: coordStep_def state_ops Let_def coordInv_def split: option.splits)
next
  case (Advance i)
  then show ?thesis using assms coordInv_advance by (simp add: coordStep_def)
qed (use assms in \<open>auto simp: coordStep_def state_ops coordInv_def\<close>)

lemma coordInv_init: "coordInv h (newCoordinator cfg engine workers)"
  by (simp add: coordInv_def newCoordinator_def queueInv_def)

interpretation coord: invariant_machine
  "\<lambda>s e. case coordStep h cfg s e of Some s' \<Rightarrow> s' | None \<Rightarrow> s" "coordInv h" "newCoordinator cfg engine workers"
  for h cfg engine workers
  by unfold_locales (auto simp: coordInv_init coordInv_step split: option.splits)

text \<open>Every reachable state is the end of a run of the machine.\<close>

lemma coordReach_run:
  assumes "coordReach h cfg s0 s"
  shows "\<exists>es. s = foldl (\<lambda>s e. case coordStep h cfg s e of Some s' \<Rightarrow> s' | None \<Rightarrow> s) s0 es"
  using assms
proof induction
  case reach_init
  show ?case by (rule exI [of _ "[]"]) simp
next
  case (reach_step s e s')
  then obtain es where "s = foldl (\<lambda>s e. case coordStep h cfg s e of Some s' \<Rightarrow> s' | None \<Rightarrow> s) s0 es" by blast
  with reach_step.hyps(2) show ?case by (intro exI [of _ "es @ [e]"]) simp
qed

lemma coordReach_inv: "coordReach h cfg (newCoordinator cfg engine workers) s \<Longrightarrow> coordInv h s"
  using coordReach_run coord.inv_run by blast

section \<open>Annotation drift\<close>

text \<open>The keys of the engine's annotation map are the pairs of the file.\<close>

lemma keys_foldl_setProp:
  "fst ` set (foldl (\<lambda>m x. setProp m (f x) (g x)) m xs) = fst ` set m \<union> f ` set xs"
  by (induction xs arbitrary: m) (auto simp: keys_setProp)

lemma keys_buildAnnotationMap:
  "fst ` set (buildAnnotationMap ann) =
   {annotationKey srv (sa_toolName t) | srv sv t. (srv, sv) \<in> set (af_servers ann) \<and> t \<in> set (srv_tools sv)}"
proof -
  have "fst ` set (foldl (\<lambda>m (srv, sv). foldl (\<lambda>m t. setProp m (annotationKey srv (sa_toolName t)) t) m (srv_tools sv)) m xs) =
      fst ` set m \<union> {annotationKey srv (sa_toolName t) | srv sv t. (srv, sv) \<in> set xs \<and> t \<in> set (srv_tools sv)}"
    for m xs
  proof (induction xs arbitrary: m)
    case (Cons x xs)
    obtain srv sv where x: "x = (srv, sv)" by fastforce
    show ?case unfolding x foldl_Cons prod.case Cons.IH keys_foldl_setProp by auto
  qed simp
  from this [of "[]" "af_servers ann"] show ?thesis by (simp add: buildAnnotationMap_def)
qed

text \<open>Keys are unambiguous for a server when no pair of another server has a key of this server's: the
  separator of two underscores does not exclude it by itself.\<close>

definition keysUnambiguous :: "annotations_file \<Rightarrow> string \<Rightarrow> bool" where
  "keysUnambiguous ann srv \<longleftrightarrow>
     (\<forall>(srv', sv) \<in> set (af_servers ann). srv' \<noteq> srv \<longrightarrow>
        (\<forall>t \<in> set (srv_tools sv). take (length srv + 2) (annotationKey srv' (sa_toolName t)) \<noteq> srv @ ''__''))"

lemma missing_not_annotated:
  assumes "map_of (af_servers ann) srv = Some sv" "distinct (map fst (af_servers ann))"
    and "keysUnambiguous ann srv" "n \<notin> sa_toolName ` set (srv_tools sv)"
  shows "map_of (buildAnnotationMap ann) (annotationKey srv n) = None"
  unfolding map_of_eq_None_iff keys_buildAnnotationMap
proof
  assume "annotationKey srv n \<in> {annotationKey srv (sa_toolName t) | srv sv t. (srv, sv) \<in> set (af_servers ann) \<and> t \<in> set (srv_tools sv)}"
  then obtain srv' sv' t where t: "annotationKey srv n = annotationKey srv' (sa_toolName t)"
    "(srv', sv') \<in> set (af_servers ann)" "t \<in> set (srv_tools sv')" by blast
  have "take (length srv + 2) (annotationKey srv n) = srv @ ''__''" by (simp add: annotationKey_def)
  then have "take (length srv + 2) (annotationKey srv' (sa_toolName t)) = srv @ ''__''" unfolding t(1) .
  then have same: "srv' = srv" using assms(3) t(2,3) unfolding keysUnambiguous_def by fastforce
  then have "sv' = sv" using assms(1) map_of_is_SomeI [OF assms(2) t(2)] by simp
  moreover have "sa_toolName t = n" using t(1) unfolding same annotationKey_def by simp
  ultimately show False using t(3) assms(4) by blast
qed

text \<open>The drift report is exact and its warning holds for the servers the engine does not trust: the
  missing list has, sorted and once each, the live tools without an annotation, and an engine built
  from those annotations denies each of them.\<close>

theorem missing_tools_denied:
  assumes "toolAnnotationDrift srv liveTools ann = Some (missing, stale)" "srv \<notin> set trusted"
    and "distinct (map fst (af_servers ann))" "keysUnambiguous ann srv"
    and "engine = newPolicyEngine h policy ann protected allowed allowlists dynLists (Some trusted)"
  shows "sorted missing \<and> distinct missing \<and>
    set missing = pt_name ` set liveTools - sa_toolName ` set (srv_tools (the (map_of (af_servers ann) srv))) \<and>
    (\<forall>n \<in> set missing. \<forall>request. serverName request = srv \<and> toolName request = n \<longrightarrow>
       (\<exists>res. evaluate engine h request = Inr res \<and> er_decision res = Deny))"
proof -
  obtain sv where sv: "map_of (af_servers ann) srv = Some sv"
    using assms(1) by (auto simp: toolAnnotationDrift_def split: option.splits)
  then have missing: "missing = sort (filter (\<lambda>n. n \<notin> set (remdups (map sa_toolName (srv_tools sv)))) (remdups (map pt_name liveTools)))"
    using assms(1) by (auto simp: toolAnnotationDrift_def Let_def)
  have members: "set missing = pt_name ` set liveTools - sa_toolName ` set (srv_tools sv)" unfolding missing by auto
  have denied: "\<exists>res. evaluate engine h request = Inr res \<and> er_decision res = Deny"
    if "n \<in> set missing" "serverName request = srv" "toolName request = n" for n request
  proof -
    have "map_of (buildAnnotationMap ann) (annotationKey srv n) = None"
      using that(1) members by (intro missing_not_annotated [OF sv assms(3,4)]) blast
    then have "getAnnotation engine (serverName request) (toolName request) (arguments request) = None"
      using that(2,3) by (simp add: getAnnotation_def assms(5) newPolicyEngine_def)
    moreover have "serverName request \<notin> set (trustedServers engine)"
      using assms(2,5) that(2) by (simp add: newPolicyEngine_def)
    ultimately show ?thesis using unannotated_denied by blast
  qed
  have "sorted missing \<and> distinct missing" unfolding missing by simp
  then show ?thesis using members denied sv by auto
qed

theorem missing_tools_denied_witness:
  "\<exists>res. evaluate (newPolicyEngine gitHost demoPolicy demoAnnotations [] None None None (Some [])) gitHost
     (demoRequest ''git'' ''git_gc'' []) = Inr res \<and> er_decision res = Deny"
proof -
  let ?live = "[demoProxied ''git'' ''git_gc'' []]"
  have d: "toolAnnotationDrift ''git'' ?live demoAnnotations = Some ([''git_gc''], [''git_push'', ''git_reset''])"
    by code_simp
  have "distinct (map fst (af_servers demoAnnotations))" "keysUnambiguous demoAnnotations ''git''" by code_simp+
  from missing_tools_denied [OF d _ this refl, of "[]" gitHost demoPolicy "[]" None None None] show ?thesis
    by (simp add: demoRequest_def)
qed

section \<open>Concrete runs\<close>

definition demoConfig :: coordinator_config where
  "demoConfig = \<lparr>cc_deps = demoDeps\<lparr>dp_onEscalation := Some (\<lambda>_ _ _ _. Inr \<lparr>es_approved = True, es_selection = None\<rparr>)\<rparr>,
     cc_toolAnnotations = demoAnnotations, cc_protectedPaths = [], cc_serverDomainAllowlists = [], cc_trustedServers = [],
     cc_home = ''/h'', cc_packageConfigDir = ''/p'', cc_loadPersonaPolicyArtifacts = (\<lambda>_. None)\<rparr>"

abbreviation demoCoordinator :: coordinator where
  "demoCoordinator \<equiv> newCoordinator demoConfig demoEngine 1"

definition demoCall :: "string \<Rightarrow> string \<Rightarrow> jsobj \<Rightarrow> tool_call" where
  "demoCall srv tool args = \<lparr>tc_serverName = srv, tc_toolName = tool, tc_args = args, tc_world = demoWorld,
     tc_structured = False, tc_synthetic = None\<rparr>"

text \<open>A push that waits for its decision, and a read that is about to run.\<close>

definition demoPaused :: "event list" where
  "demoPaused = [Register ''git'' [demoProxied ''git'' ''git_push'' [(''path'', JObj []), (''remote'', JObj [])]] (Some []),
     ArriveCall (demoCall ''git'' ''git_push'' demoPush), Advance 0, Advance 0, Advance 0]"

definition demoReady :: "event list" where
  "demoReady = [Register ''filesystem'' [demoProxied ''filesystem'' ''read_multiple_files''
       [(''paths'', JObj [(''type'', JStr ''array'')])]] (Some []),
     ArriveCall (demoCall ''filesystem'' ''read_multiple_files'' demoRead), Advance 0, Advance 0]"

text \<open>A run of events, each enabled when its turn comes.\<close>

fun runEvents :: "host \<Rightarrow> coordinator_config \<Rightarrow> coordinator \<Rightarrow> event list \<Rightarrow> coordinator option" where
  "runEvents h cfg s [] = Some s"
| "runEvents h cfg s (e # es) =
     (case coordStep h cfg s e of None \<Rightarrow> None | Some s' \<Rightarrow> runEvents h cfg s' es)"

lemma runEvents_reach:
  "coordReach h cfg s0 s \<Longrightarrow> runEvents h cfg s es = Some s' \<Longrightarrow> coordReach h cfg s0 s'"
  by (induction es arbitrary: s) (auto split: option.splits intro: coordReach.intros)

lemma runEvents_append:
  "runEvents h cfg s (es @ es') = (case runEvents h cfg s es of None \<Rightarrow> None | Some s' \<Rightarrow> runEvents h cfg s' es')"
  by (induction es arbitrary: s) (auto split: option.splits)

lemma demoPaused_run:
  "\<exists>s. runEvents gitHost demoConfig demoCoordinator demoPaused = Some s \<and>
    coordReach gitHost demoConfig demoCoordinator s \<and> (\<exists>p. co_threads s = [p] \<and> paused p)"
proof -
  have "map_option (\<lambda>s. map paused (co_threads s)) (runEvents gitHost demoConfig demoCoordinator demoPaused) = Some [True]"
    by code_simp
  then show ?thesis using runEvents_reach [OF reach_init, of gitHost demoConfig demoCoordinator demoPaused] by auto
qed

lemma demoReady_run:
  "\<exists>s s'. coordReach gitHost demoConfig demoCoordinator s \<and> coordStep gitHost demoConfig s (Advance 0) = Some s' \<and>
    ps_effects (co_pipeline s) = [] \<and> ps_effects (co_pipeline s') = [Forwarded ''filesystem'' ''read_multiple_files'' demoRead]"
proof -
  have "map_option (\<lambda>s. ps_effects (co_pipeline s)) (runEvents gitHost demoConfig demoCoordinator demoReady) = Some []"
    by code_simp
  then obtain s where s: "runEvents gitHost demoConfig demoCoordinator demoReady = Some s" "ps_effects (co_pipeline s) = []"
    by blast
  have "map_option (\<lambda>s. ps_effects (co_pipeline s))
      (runEvents gitHost demoConfig demoCoordinator (demoReady @ [Advance 0])) =
      Some [Forwarded ''filesystem'' ''read_multiple_files'' demoRead]"
    by code_simp
  then obtain s' where "runEvents gitHost demoConfig demoCoordinator (demoReady @ [Advance 0]) = Some s'"
    "ps_effects (co_pipeline s') = [Forwarded ''filesystem'' ''read_multiple_files'' demoRead]" by blast
  then have "coordStep gitHost demoConfig s (Advance 0) = Some s'"
    using s(1) by (simp add: runEvents_append split: option.splits)
  then show ?thesis
    using s runEvents_reach [OF reach_init s(1)]
      \<open>ps_effects (co_pipeline s') = [Forwarded ''filesystem'' ''read_multiple_files'' demoRead]\<close> by blast
qed

lemma demoConfig_handler: "dp_onEscalation (cc_deps demoConfig) \<noteq> None"
  by (simp add: demoConfig_def)

section \<open>Policy swaps\<close>

text \<open>C7: a policy swap never reaches a paused call. In every reachable state, whatever calls, swaps and
  closes have been interleaved, a call that waits for a decision, or waits for the lock after it, was
  escalated by the engine that is current now and runs under the current persona: a swap is in its
  critical section only when no call is between its evaluation and its end.\<close>

theorem policy_swap_isolated:
  assumes "coordReach h cfg (newCoordinator cfg engine workers) s" "i < length (co_threads s)"
    and "co_threads s ! i = CallDeciding c deps info ev pe \<or> co_threads s ! i = CallResuming c deps info ev pe"
  shows "dp_policyEngine deps = co_policyEngine s \<and> dp_persona deps = co_currentPersona s \<and>
    evaluate (co_policyEngine s) h (ci_request info) = Inr ev \<and> er_decision ev = Escalate"
proof -
  have "pinned h (co_policyEngine s) (co_currentPersona s) (co_threads s ! i)"
    using coordReach_inv [OF assms(1)] assms(2) by (simp add: coordInv_def)
  then show ?thesis using assms(3) by auto
qed

theorem policy_swap_isolated_witness:
  "\<exists>s c deps info ev pe. coordReach gitHost demoConfig demoCoordinator s \<and>
    (co_threads s ! 0 = CallDeciding c deps info ev pe \<or> co_threads s ! 0 = CallResuming c deps info ev pe) \<and>
    dp_policyEngine deps = co_policyEngine s \<and> er_decision ev = Escalate"
proof -
  obtain s p where s: "coordReach gitHost demoConfig demoCoordinator s" "co_threads s = [p]" "paused p"
    using demoPaused_run by blast
  have "\<exists>c deps info ev pe. p = CallDeciding c deps info ev pe \<or> p = CallResuming c deps info ev pe"
    using s(3) by (cases p) auto
  then obtain c deps info ev pe where
    p: "co_threads s ! 0 = CallDeciding c deps info ev pe \<or> co_threads s ! 0 = CallResuming c deps info ev pe"
    using s(2) by auto
  have "0 < length (co_threads s)" using s(2) by simp
  from policy_swap_isolated [OF s(1) this p] show ?thesis using s(1) p by blast
qed

text \<open>The admission count is exact and nothing runs beside a swap: the count is the number of calls
  between \<open>enterToolCall\<close> and \<open>leaveToolCall\<close>, a swap that has queued for the lock stands before every
  call in the queue, and then no call is paused.\<close>

theorem admission_count_exact:
  assumes "coordReach h cfg (newCoordinator cfg engine workers) s"
  shows "co_activeToolCalls s = length (filter inflight (co_threads s)) \<and>
    distinct (co_callMutex s) \<and>
    sorted (map (\<lambda>i. \<not> swapQueued (co_threads s ! i)) (co_callMutex s)) \<and>
    ((\<exists>p \<in> set (co_threads s). swapQueued p) \<longrightarrow> (\<forall>p \<in> set (co_threads s). \<not> paused p))"
  using coordReach_inv [OF assms] unfolding coordInv_def queueInv_def by auto

theorem admission_count_exact_witness:
  "\<exists>s. coordReach gitHost demoConfig demoCoordinator s \<and> co_activeToolCalls s = 1"
proof -
  obtain s p where s: "coordReach gitHost demoConfig demoCoordinator s" "co_threads s = [p]" "paused p"
    using demoPaused_run by blast
  then show ?thesis using admission_count_exact [OF s(1)] phase_facts(1) by auto
qed

section \<open>Effects of interleaved calls\<close>

lemma beginCall_finished_sent:
  assumes "beginCall h deps w tool args st = Finished st' out" "ps_effects st' \<noteq> ps_effects st"
  shows "\<exists>info ev. admitCall h deps w st tool args = Inr info \<and>
    evaluate (dp_policyEngine deps) h (ci_request info) = Inr ev \<and>
    (er_decision ev = Allow \<or> er_decision ev = Escalate \<and>
      matchPattern h (ps_whitelist st) (pt_serverName (ci_tool info)) (pt_name (ci_tool info))
        (arguments (ci_request info)) (the (ci_annotation info)) \<noteq> None) \<and>
    breakerAllows deps w info st \<and> sentBy info st st'"
proof (cases "admitCall h deps w st tool args")
  case (Inl rj)
  then show ?thesis using assms
    by (auto simp: beginCall_def rejectCall_def pushAudit_def Let_def split: prod.splits)
next
  case (Inr info)
  obtain ev where ev: "evaluate (dp_policyEngine deps) h (ci_request info) = Inr ev" using evaluate_returns by blast
  show ?thesis
  proof (cases "er_decision ev")
    case Allow
    then have "st' = fst (dispatchCall deps w info (noApproval (decisionOf ev)) st)"
      using assms(1) Inr ev by (simp add: beginCall_def split: prod.splits)
    then show ?thesis using assms(2) Inr ev Allow dispatchCall_sent by auto
  next
    case Deny
    then show ?thesis using assms Inr ev by (auto simp: beginCall_def pipe_simps)
  next
    case Escalate
    show ?thesis
    proof (cases "matchPattern h (ps_whitelist st) (pt_serverName (ci_tool info)) (pt_name (ci_tool info))
        (arguments (ci_request info)) (the (ci_annotation info))")
      case None
      then show ?thesis using assms Inr ev Escalate
        by (auto simp: beginCall_def reviewEscalation_def Let_def pipe_simps split: if_splits)
    next
      case (Some p)
      then have "\<exists>ap. approveAndDispatch h deps w info ap st = (st', out)"
        using assms(1) Inr ev Escalate by (auto simp: beginCall_def reviewEscalation_def Let_def split: prod.splits)
      then obtain ap where "st' = fst (approveAndDispatch h deps w info ap st)" by (metis fst_conv)
      with Some show ?thesis using assms(2) Inr ev Escalate Some approveAndDispatch_sent by auto
    qed
  qed
qed

text \<open>Only the two critical sections of a call change the pipeline state.\<close>

lemma runBegin_sent:
  assumes "ps_effects (co_pipeline (runBegin h cfg i c s)) \<noteq> ps_effects (co_pipeline s)"
    and "deps = buildCallToolDeps cfg s (tc_synthetic c)"
  shows "\<exists>info ev. admitCall h deps (tc_world c) (co_pipeline s) (annotationKey (tc_serverName c) (tc_toolName c)) (tc_args c) = Inr info \<and>
    evaluate (co_policyEngine s) h (ci_request info) = Inr ev \<and>
    (er_decision ev = Allow \<or> er_decision ev = Escalate \<and>
      matchPattern h (ps_whitelist (co_pipeline s)) (pt_serverName (ci_tool info)) (pt_name (ci_tool info))
        (arguments (ci_request info)) (the (ci_annotation info)) \<noteq> None) \<and>
    breakerAllows deps (tc_world c) info (co_pipeline s) \<and>
    sentBy info (co_pipeline s) (co_pipeline (runBegin h cfg i c s))"
proof (cases "beginCall h deps (tc_world c) (annotationKey (tc_serverName c) (tc_toolName c)) (tc_args c) (co_pipeline s)")
  case (Finished st out)
  then have st: "co_pipeline (runBegin h cfg i c s) = st"
    using assms(2) by (simp add: runBegin_def Let_def finishThread_def setThread_def unlockCall_def)
  show ?thesis
    using beginCall_finished_sent [OF Finished] assms(1) unfolding st
    by (simp add: assms(2) buildCallToolDeps_fields)
next
  case (AwaitsDecision info ev pe)
  then show ?thesis
    using assms by (simp add: runBegin_def Let_def setThread_def unlockCall_def)
qed

lemma runResume_sent:
  assumes "ps_effects (co_pipeline (runResume h i c deps info ev pe s)) \<noteq> ps_effects (co_pipeline s)"
  shows "approvedBy (waitForDecision h deps (tc_world c) info ev pe) \<and>
    breakerAllows deps (tc_world c) info (co_pipeline s) \<and>
    sentBy info (co_pipeline s) (co_pipeline (runResume h i c deps info ev pe s))"
proof -
  have "co_pipeline (runResume h i c deps info ev pe s) =
      fst (settleEscalation h deps (tc_world c) info ev pe (waitForDecision h deps (tc_world c) info ev pe) (co_pipeline s))"
    by (simp add: runResume_def resumeCall_def finishThread_def setThread_def unlockCall_def split: prod.splits)
  then show ?thesis using assms settleEscalation_sent by auto
qed

lemma coordStep_pipeline:
  assumes "coordStep h cfg s e = Some s'" "ps_effects (co_pipeline s') \<noteq> ps_effects (co_pipeline s)"
  obtains (Begin) i c where "e = Advance i" "i < length (co_threads s)" "holdsLock (co_callMutex s) i"
      "co_threads s ! i = CallQueued c" "s' = runBegin h cfg i c s"
    | (Resume) i c deps info ev pe where "e = Advance i" "i < length (co_threads s)" "holdsLock (co_callMutex s) i"
      "co_threads s ! i = CallResuming c deps info ev pe" "s' = runResume h i c deps info ev pe s"
proof (cases e)
  case (Advance i)
  then have adv: "advance h cfg i s = Some s'" using assms(1) by (simp add: coordStep_def)
  then have i: "i < length (co_threads s)" by (simp add: advance_def split: if_splits)
  note quiet = setThread_def lockCall_def unlockCall_def leaveToolCall_def endQuiesce_def endClose_def runClose_def
    runLoad_def swapPolicy_def enterToolCall_def Let_def
  show ?thesis
  proof (cases "co_threads s ! i")
    case (CallQueued c)
    then show ?thesis using Begin Advance adv i by (auto simp: advance_def split: if_splits)
  next
    case (CallResuming c deps info ev pe)
    then show ?thesis using Resume Advance adv i by (auto simp: advance_def split: if_splits)
  qed (use adv i assms(2) in \<open>auto simp: advance_def quiet split: if_splits option.splits decision_outcome.splits\<close>)
qed (use assms in \<open>auto simp: coordStep_def spawn_def state_ops Let_def split: option.splits\<close>)



section \<open>Progress\<close>

fun finished :: "phase \<Rightarrow> bool" where
  "finished (CallDone _) = True"
| "finished (LoadDone _) = True"
| "finished CloseDone = True"
| "finished _ = False"

text \<open>The awaited decision of a paused call has not come.\<close>

fun awaitsAnswer :: "host \<Rightarrow> phase \<Rightarrow> bool" where
  "awaitsAnswer h (CallDeciding c deps info ev pe) \<longleftrightarrow> waitForDecision h deps (tc_world c) info ev pe = DecisionPending"
| "awaitsAnswer h _ \<longleftrightarrow> False"

lemma lock_holder_advances:
  assumes "queueInv (co_threads s) (co_callMutex s)" "co_callMutex s = i # q"
  shows "\<exists>s'. advance h cfg i s = Some s'"
proof -
  have hold: "holdsLock (co_callMutex s) i" using assms(2) by (simp add: holdsLock_def)
  have "i < length (co_threads s)" "waitsLock (co_threads s ! i)" using holdsLock_waits [OF assms(1) hold] by auto
  then show ?thesis using hold by (cases "co_threads s ! i") (simp_all add: advance_def)
qed

lemma coord_progress:
  assumes inv: "coordInv h s" and ready: "\<forall>p \<in> set (co_threads s). \<not> awaitsAnswer h p"
    and todo: "\<exists>p \<in> set (co_threads s). \<not> finished p"
  shows "\<exists>i s'. advance h cfg i s = Some s'"
proof (cases "co_callMutex s")
  case (Cons i q)
  then show ?thesis using lock_holder_advances inv unfolding coordInv_def by blast
next
  case Nil
  then have free: "\<not> waitsLock (co_threads s ! i)" if "i < length (co_threads s)" for i
    using inv that by (simp add: coordInv_def queueInv_def)
  show ?thesis
  proof (cases "\<exists>i < length (co_threads s). inflight (co_threads s ! i)")
    case True
    then obtain i where i: "i < length (co_threads s)" "inflight (co_threads s ! i)" by blast
    have "\<not> awaitsAnswer h (co_threads s ! i)" using ready i by simp
    then have "\<exists>s'. advance h cfg i s = Some s'"
      using i free [OF i(1)] by (cases "co_threads s ! i") (simp_all add: advance_def split: decision_outcome.splits)
    then show ?thesis by blast
  next
    case False
    then have "\<forall>p \<in> set (co_threads s). \<not> inflight p" by (simp add: all_set_conv_all_nth)
    then have none: "co_activeToolCalls s = 0" using inv by (simp add: coordInv_def)
    show ?thesis
    proof (cases "\<exists>i < length (co_threads s). swapLive (co_threads s ! i)")
      case True
      then obtain i where i: "i < length (co_threads s)" "swapLive (co_threads s ! i)" by blast
      have "\<exists>s'. advance h cfg i s = Some s'"
        using i free [OF i(1)] none by (cases "co_threads s ! i") (simp_all add: advance_def)
      then show ?thesis by blast
    next
      case no_swap: False
      then have "co_closed s \<or> co_admissionOpen s"
        using inv unfolding coordInv_def by (metis in_set_conv_nth)
      moreover obtain i where i: "i < length (co_threads s)" "\<not> finished (co_threads s ! i)"
        using todo by (auto simp: in_set_conv_nth)
      moreover have "\<not> inflight (co_threads s ! i)" "\<not> swapLive (co_threads s ! i)"
        using False no_swap i(1) by blast+
      ultimately have "\<exists>s'. advance h cfg i s = Some s'"
        by (cases "co_threads s ! i") (auto simp: advance_def enterToolCall_def)
      then show ?thesis by blast
    qed
  qed
qed

text \<open>The coordinator has no deadlock: in a reachable state with work left, some call, swap or close
  can take its next step, unless one waits for a decision that has not come.\<close>

theorem coordinator_deadlock_free:
  assumes "coordReach h cfg (newCoordinator cfg engine workers) s"
    and "\<forall>p \<in> set (co_threads s). \<not> awaitsAnswer h p" "\<exists>p \<in> set (co_threads s). \<not> finished p"
  shows "\<exists>i s'. i < length (co_threads s) \<and> coordStep h cfg s (Advance i) = Some s'"
  using coord_progress [OF coordReach_inv [OF assms(1)] assms(2,3), of cfg]
  by (auto simp: coordStep_def advance_def split: if_splits)

section \<open>Draining\<close>

fun rank :: "phase \<Rightarrow> nat" where
  "rank (CallArriving _) = 6"
| "rank (CallEntered _) = 5"
| "rank (CallQueued _) = 4"
| "rank (CallDeciding _ _ _ _ _) = 3"
| "rank (CallResuming _ _ _ _ _) = 2"
| "rank (CallLeaving _) = 1"
| "rank (LoadDraining _ _) = 3"
| "rank (LoadQueued _ _) = 2"
| "rank (LoadLeaving _) = 1"
| "rank CloseDraining = 3"
| "rank CloseQueued = 2"
| "rank CloseLeaving = 1"
| "rank _ = 0"

definition totalRank :: "coordinator \<Rightarrow> nat" where
  "totalRank s = sum_list (map rank (co_threads s))"

lemma rank_le: "rank p \<le> 6"
  by (cases p) simp_all

lemma totalRank_le: "totalRank s \<le> 6 * length (co_threads s)"
  using sum_list_mono [of "co_threads s" rank "\<lambda>_. 6"] rank_le by (simp add: totalRank_def sum_list_triv mult.commute)

lemma sum_rank_update:
  "i < length ts \<Longrightarrow> rank p < rank (ts ! i) \<Longrightarrow> sum_list (map rank (ts[i := p])) < sum_list (map rank ts)"
proof (induction ts arbitrary: i)
  case (Cons t ts)
  then show ?case by (cases i) auto
qed simp

lemma advance_threads:
  assumes "advance h cfg i s = Some s'"
  shows "\<exists>p. co_threads s' = (co_threads s)[i := p] \<and> rank p < rank (co_threads s ! i)"
proof -
  note ops = setThread_def lockCall_def unlockCall_def leaveToolCall_def endQuiesce_def endClose_def runClose_def
    runLoad_def swapPolicy_def enterToolCall_def runBegin_def runResume_def finishThread_def Let_def
  show ?thesis using assms
    by (cases "co_threads s ! i")
      (auto simp: advance_def ops split: if_splits option.splits decision_outcome.splits call_progress.splits prod.splits)
qed

lemma advance_rank:
  assumes "advance h cfg i s = Some s'"
  shows "totalRank s' < totalRank s"
proof -
  have "i < length (co_threads s)" using assms by (simp add: advance_def split: if_splits)
  then show ?thesis using advance_threads [OF assms] sum_rank_update by (auto simp: totalRank_def)
qed

text \<open>With an in-process escalation handler no call waits without an answer.\<close>

fun asksHandler :: "phase \<Rightarrow> bool" where
  "asksHandler (CallDeciding c deps info ev pe) \<longleftrightarrow> dp_onEscalation deps \<noteq> None"
| "asksHandler _ \<longleftrightarrow> True"

lemma asksHandler_answers: "asksHandler p \<Longrightarrow> \<not> awaitsAnswer h p"
  by (cases p) (auto simp: waitForDecision_def split: option.splits sum.splits)

lemma asksHandler_advance:
  assumes "dp_onEscalation (cc_deps cfg) \<noteq> None" "\<forall>p \<in> set (co_threads s). asksHandler p"
    and "advance h cfg i s = Some s'"
  shows "\<forall>p \<in> set (co_threads s'). asksHandler p"
proof -
  note ops = setThread_def lockCall_def unlockCall_def leaveToolCall_def endQuiesce_def endClose_def runClose_def
    runLoad_def swapPolicy_def enterToolCall_def runBegin_def runResume_def finishThread_def Let_def
  have "\<exists>p. co_threads s' = (co_threads s)[i := p] \<and> asksHandler p"
    using assms(1,3)
    by (cases "co_threads s ! i")
      (auto simp: advance_def ops buildCallToolDeps_def
        split: if_splits option.splits decision_outcome.splits call_progress.splits prod.splits)
  then show ?thesis using ball_update [OF assms(2)] by metis
qed

lemma asksHandler_reach:
  assumes "coordReach h cfg (newCoordinator cfg engine workers) s" "dp_onEscalation (cc_deps cfg) \<noteq> None"
  shows "\<forall>p \<in> set (co_threads s). asksHandler p"
  using assms(1)
proof induction
  case reach_init
  show ?case by (simp add: newCoordinator_def)
next
  case (reach_step s e s')
  show ?case
  proof (cases e)
    case (Advance i)
    then show ?thesis using reach_step.hyps(2) asksHandler_advance [OF assms(2) reach_step.IH] by (simp add: coordStep_def)
  qed (use reach_step in \<open>auto simp: coordStep_def spawn_def state_ops Let_def split: option.splits\<close>)
qed

theorem coordinator_deadlock_free_witness:
  "\<exists>s s'. coordReach gitHost demoConfig demoCoordinator s \<and> coordStep gitHost demoConfig s (Advance 0) = Some s'"
proof -
  obtain s p where s: "coordReach gitHost demoConfig demoCoordinator s" "co_threads s = [p]" "paused p"
    using demoPaused_run by blast
  have "asksHandler p" using asksHandler_reach [OF s(1) demoConfig_handler] s(2) by simp
  then have "\<forall>p \<in> set (co_threads s). \<not> awaitsAnswer gitHost p" using asksHandler_answers s(2) by simp
  moreover have "\<exists>p \<in> set (co_threads s). \<not> finished p" using s(2,3) by (cases p) auto
  ultimately show ?thesis using coordinator_deadlock_free [OF s(1)] s(1,2) by fastforce
qed

lemma drains:
  assumes "dp_onEscalation (cc_deps cfg) \<noteq> None" "coordInv h s" "\<forall>p \<in> set (co_threads s). asksHandler p"
  shows "\<exists>is s'. length is \<le> totalRank s \<and> runEvents h cfg s (map Advance is) = Some s' \<and>
    (\<forall>p \<in> set (co_threads s'). finished p)"
  using assms(2,3)
proof (induction "totalRank s" arbitrary: s rule: less_induct)
  case less
  show ?case
  proof (cases "\<exists>p \<in> set (co_threads s). \<not> finished p")
    case False
    then show ?thesis by (intro exI [of _ "[]"] exI [of _ s]) simp
  next
    case True
    then obtain i s1 where adv: "advance h cfg i s = Some s1"
      using coord_progress [OF less.prems(1)] less.prems(2) asksHandler_answers by blast
    obtain ls s' where rest: "length ls \<le> totalRank s1" "runEvents h cfg s1 (map Advance ls) = Some s'"
        "\<forall>p \<in> set (co_threads s'). finished p"
      using less.hyps [OF advance_rank [OF adv] coordInv_advance [OF less.prems(1) adv]
          asksHandler_advance [OF assms(1) less.prems(2) adv]] by blast
    then show ?thesis using adv advance_rank [OF adv]
      by (intro exI [of _ "i # ls"] exI [of _ s']) (simp add: coordStep_def)
  qed
qed



text \<open>Every schedule ends: a run of steps of the threads alone is never longer than six steps for each
  thread.\<close>

theorem coordinator_schedules_end:
  assumes "runEvents h cfg s (map Advance is) = Some s'"
  shows "length is \<le> 6 * length (co_threads s)"
proof -
  have "length is + totalRank s' \<le> totalRank s" using assms
  proof (induction "is" arbitrary: s)
    case (Cons i ls)
    then obtain s1 where adv: "advance h cfg i s = Some s1" and rest: "runEvents h cfg s1 (map Advance ls) = Some s'"
      by (auto simp: coordStep_def split: option.splits)
    show ?case using Cons.IH [OF rest] advance_rank [OF adv] by simp
  qed simp
  then show ?thesis using totalRank_le [of s] by linarith
qed

theorem coordinator_schedules_end_witness:
  "\<exists>s s'. runEvents gitHost demoConfig s (map Advance [0]) = Some s' \<and> 1 \<le> 6 * length (co_threads s)"
proof -
  obtain s s' where "coordStep gitHost demoConfig s (Advance 0) = Some s'" using demoReady_run by blast
  then have run: "runEvents gitHost demoConfig s (map Advance [0]) = Some s'" by simp
  from coordinator_schedules_end [OF run] run show ?thesis by auto
qed

section \<open>Closing\<close>

text \<open>\<open>close\<close> does not drain every call. When a policy load that began before the close ends after the
  close has queued, it opens the admission again; a call that enters then queues behind the close, and
  is still to run when \<open>close\<close> has returned and the coordinator is closed.\<close>

theorem call_runs_after_close:
  assumes "validatePolicyDir h (cc_home cfg) (cc_packageConfigDir cfg) dir = Some canonical"
  shows "\<exists>s. coordReach h cfg (newCoordinator cfg engine workers) s \<and> co_closed s \<and>
    co_threads s ! 1 = CloseDone \<and> co_threads s ! 2 = CallQueued (withSynthetic s c) \<and> holdsLock (co_callMutex s) 2"
proof -
  let ?s0 = "newCoordinator cfg engine workers"
  let ?es = "[ArriveLoad persona dir, Advance 0, ArriveClose, Advance 1, Advance 0, Advance 0,
    ArriveCall c, Advance 2, Advance 2, Advance 1, Advance 1]"
  note ops = setThread_def lockCall_def unlockCall_def endQuiesce_def endClose_def runClose_def
    runLoad_def swapPolicy_def enterToolCall_def spawn_def acquireLock_def releaseLock_def holdsLock_def Let_def
    withSynthetic_def syntheticTool_def
  have "case runEvents h cfg ?s0 ?es of None \<Rightarrow> False | Some s \<Rightarrow> co_closed s \<and>
    co_threads s ! 1 = CloseDone \<and> co_threads s ! 2 = CallQueued (withSynthetic s c) \<and> holdsLock (co_callMutex s) 2"
    using assms by (cases "cc_loadPersonaPolicyArtifacts cfg canonical")
      (simp_all add: coordStep_def advance_def ops newCoordinator_def split: prod.split)
  then show ?thesis using runEvents_reach [OF reach_init, of h cfg ?s0 ?es] by (auto split: option.splits)
qed

theorem call_runs_after_close_witness:
  "\<exists>s. coordReach gitHost demoConfig demoCoordinator s \<and> co_closed s \<and> co_threads s ! 1 = CloseDone \<and>
    holdsLock (co_callMutex s) 2"
proof -
  have "validatePolicyDir gitHost (cc_home demoConfig) (cc_packageConfigDir demoConfig) ''/h/x'' = Some ''/h/x''"
    by code_simp
  from call_runs_after_close [OF this, of demoEngine 1 "demoCall ''git'' ''git_push'' demoPush"] show ?thesis by blast
qed

end
