(* ===== verification/Step_Loop_Detector.thy ===== *)
theory Step_Loop_Detector
  imports Hash
begin

text \<open>
  The loop detector of an agent session (\<open>src/session/step-loop-detector.ts\<close>): each executed step is
  classified by whether its code and its result have been seen before, two streaks count the steps
  without a new result, and thresholds on the streaks warn and block.
\<close>

section \<open>State and operations\<close>

datatype ProgressCategory = FullProgress | WorldChanged | StepStuck | FullStagnation

datatype StepVerdict = StepAllow | StepWarn string ProgressCategory | StepBlock string ProgressCategory

record streak_limits =
  warnAt :: rat
  blockAt :: rat

record StepLoopDetectorConfig =
  stagnationLimits :: streak_limits
  stuckLimits :: streak_limits

definition DEFAULT_CONFIG :: StepLoopDetectorConfig where
  "DEFAULT_CONFIG = \<lparr>stagnationLimits = \<lparr>warnAt = 3, blockAt = 5\<rparr>, stuckLimits = \<lparr>warnAt = 5, blockAt = 8\<rparr>\<rparr>"

record StepLoopDetector =
  ld_config :: StepLoopDetectorConfig
  approachHashes :: "string set"
  outcomeHashes :: "string set"
  stagnationStreak :: nat
  stuckStreak :: nat
  blockVerdict :: "(string \<times> ProgressCategory) option"

text \<open>The flag \<open>blocked\<close> is set exactly with the verdict, so the verdict stands for both. The
  constructor merges a partial configuration, limit by limit.\<close>

record partial_limits =
  warnOpt :: "rat option"
  blockOpt :: "rat option"

definition mergeLimits :: "streak_limits \<Rightarrow> partial_limits option \<Rightarrow> streak_limits" where
  "mergeLimits d p =
     (case p of
        None \<Rightarrow> d
      | Some q \<Rightarrow> \<lparr>warnAt = (case warnOpt q of Some w \<Rightarrow> w | None \<Rightarrow> warnAt d),
                   blockAt = (case blockOpt q of Some b \<Rightarrow> b | None \<Rightarrow> blockAt d)\<rparr>)"

definition newStepLoopDetector :: "partial_limits option \<Rightarrow> partial_limits option \<Rightarrow> StepLoopDetector" where
  "newStepLoopDetector stagnation stuck =
     \<lparr>ld_config = \<lparr>stagnationLimits = mergeLimits (stagnationLimits DEFAULT_CONFIG) stagnation,
                    stuckLimits = mergeLimits (stuckLimits DEFAULT_CONFIG) stuck\<rparr>,
      approachHashes = {}, outcomeHashes = {}, stagnationStreak = 0, stuckStreak = 0, blockVerdict = None\<rparr>"

definition isBlocked :: "StepLoopDetector \<Rightarrow> (string \<times> ProgressCategory) option" where
  "isBlocked d = blockVerdict d"

definition classify :: "bool \<Rightarrow> bool \<Rightarrow> ProgressCategory" where
  "classify isNewApproach isNewOutcome =
     (if isNewApproach \<and> isNewOutcome then FullProgress
      else if \<not> isNewApproach \<and> isNewOutcome then WorldChanged
      else if isNewApproach \<and> \<not> isNewOutcome then StepStuck
      else FullStagnation)"

definition updateStreaks :: "ProgressCategory \<Rightarrow> StepLoopDetector \<Rightarrow> StepLoopDetector" where
  "updateStreaks category d =
     (case category of
        FullProgress \<Rightarrow> d\<lparr>stagnationStreak := 0, stuckStreak := 0\<rparr>
      | WorldChanged \<Rightarrow> d\<lparr>stagnationStreak := 0, stuckStreak := 0\<rparr>
      | StepStuck \<Rightarrow> d\<lparr>stagnationStreak := 0, stuckStreak := stuckStreak d + 1\<rparr>
      | FullStagnation \<Rightarrow> d\<lparr>stagnationStreak := stagnationStreak d + 1, stuckStreak := 0\<rparr>)"

definition stagnationBlockMessage :: string where
  "stagnationBlockMessage =
     ''LOOP DETECTED: You have been repeating the same code with the same result. '' @
     ''Execution is now blocked. Summarize what you have accomplished and stop.''"

definition stuckBlockMessage :: string where
  "stuckBlockMessage =
     ''LOOP DETECTED: You keep trying different approaches but getting the same result. '' @
     ''Execution is now blocked. Summarize what you have accomplished and stop.''"

definition stagnationWarnMessage :: "runtime \<Rightarrow> StepLoopDetector \<Rightarrow> string" where
  "stagnationWarnMessage rt d =
     ''WARNING: You are repeating the same code with the same result. Try a fundamentally different approach. ('' @
     showNum rt (of_nat (stagnationStreak d)) @ ''/'' @ showNum rt (blockAt (stagnationLimits (ld_config d))) @ '' before block)''"

definition stuckWarnMessage :: "runtime \<Rightarrow> StepLoopDetector \<Rightarrow> string" where
  "stuckWarnMessage rt d =
     ''WARNING: Different approaches are producing the same result. Re-examine your assumptions. ('' @
     showNum rt (of_nat (stuckStreak d)) @ ''/'' @ showNum rt (blockAt (stuckLimits (ld_config d))) @ '' before block)''"

definition checkThresholds :: "runtime \<Rightarrow> StepLoopDetector \<Rightarrow> StepLoopDetector \<times> StepVerdict" where
  "checkThresholds rt d =
     (if of_nat (stagnationStreak d) \<ge> blockAt (stagnationLimits (ld_config d)) then
        (d\<lparr>blockVerdict := Some (stagnationBlockMessage, FullStagnation)\<rparr>,
         StepBlock stagnationBlockMessage FullStagnation)
      else if of_nat (stuckStreak d) \<ge> blockAt (stuckLimits (ld_config d)) then
        (d\<lparr>blockVerdict := Some (stuckBlockMessage, StepStuck)\<rparr>, StepBlock stuckBlockMessage StepStuck)
      else if of_nat (stagnationStreak d) \<ge> warnAt (stagnationLimits (ld_config d)) then
        (d, StepWarn (stagnationWarnMessage rt d) FullStagnation)
      else if of_nat (stuckStreak d) \<ge> warnAt (stuckLimits (ld_config d)) then
        (d, StepWarn (stuckWarnMessage rt d) StepStuck)
      else (d, StepAllow))"

definition analyzeStep :: "runtime \<Rightarrow> StepLoopDetector \<Rightarrow> string \<Rightarrow> jsval \<Rightarrow> StepLoopDetector \<times> StepVerdict" where
  "analyzeStep rt d code result =
     (let approachHash = computeHash rt (JStr code);
          outcomeHash = computeHash rt result;
          isNewApproach = (approachHash \<notin> approachHashes d);
          isNewOutcome = (outcomeHash \<notin> outcomeHashes d);
          d1 = d\<lparr>approachHashes := insert approachHash (approachHashes d),
                 outcomeHashes := insert outcomeHash (outcomeHashes d)\<rparr>
      in checkThresholds rt (updateStreaks (classify isNewApproach isNewOutcome) d1))"

definition resetDetector :: "StepLoopDetector \<Rightarrow> StepLoopDetector" where
  "resetDetector d = d\<lparr>approachHashes := {}, outcomeHashes := {}, stagnationStreak := 0, stuckStreak := 0,
     blockVerdict := None\<rparr>"

section \<open>Reference\<close>

text \<open>A history is the list of the steps, oldest first. The category of its last step compares with all
  before it; a streak is the number of steps at the end that have one category.\<close>

type_synonym step = "string \<times> jsval"

definition lastCategory :: "runtime \<Rightarrow> step list \<Rightarrow> step \<Rightarrow> ProgressCategory" where
  "lastCategory rt before s =
     classify (computeHash rt (JStr (fst s)) \<notin> (\<lambda>t. computeHash rt (JStr (fst t))) ` set before)
       (computeHash rt (snd s) \<notin> (\<lambda>t. computeHash rt (snd t)) ` set before)"

text \<open>The categories, latest first.\<close>

fun categoriesRev :: "runtime \<Rightarrow> step list \<Rightarrow> ProgressCategory list" where
  "categoriesRev rt [] = []"
| "categoriesRev rt (s # older) = lastCategory rt older s # categoriesRev rt older"

definition streak :: "runtime \<Rightarrow> ProgressCategory \<Rightarrow> step list \<Rightarrow> nat" where
  "streak rt k steps = length (takeWhile (\<lambda>c. c = k) (categoriesRev rt (rev steps)))"

definition referenceAction :: "StepLoopDetectorConfig \<Rightarrow> nat \<Rightarrow> nat \<Rightarrow> nat" where
  "referenceAction cfg stagnating stuck =
     (if of_nat stagnating \<ge> blockAt (stagnationLimits cfg) \<or> of_nat stuck \<ge> blockAt (stuckLimits cfg) then 2
      else if of_nat stagnating \<ge> warnAt (stagnationLimits cfg) \<or> of_nat stuck \<ge> warnAt (stuckLimits cfg) then 1
      else 0)"

fun verdictLevel :: "StepVerdict \<Rightarrow> nat" where
  "verdictLevel StepAllow = 0"
| "verdictLevel (StepWarn _ _) = 1"
| "verdictLevel (StepBlock _ _) = 2"

definition runSteps :: "runtime \<Rightarrow> StepLoopDetector \<Rightarrow> step list \<Rightarrow> StepLoopDetector" where
  "runSteps rt d steps = foldl (\<lambda>d (code, result). fst (analyzeStep rt d code result)) d steps"

lemma checkThresholds_fields [simp]:
  "ld_config (fst (checkThresholds rt d)) = ld_config d"
  "approachHashes (fst (checkThresholds rt d)) = approachHashes d"
  "outcomeHashes (fst (checkThresholds rt d)) = outcomeHashes d"
  "stagnationStreak (fst (checkThresholds rt d)) = stagnationStreak d"
  "stuckStreak (fst (checkThresholds rt d)) = stuckStreak d"
  by (simp_all add: checkThresholds_def)

lemma checkThresholds_level:
  "verdictLevel (snd (checkThresholds rt d)) = referenceAction (ld_config d) (stagnationStreak d) (stuckStreak d)"
  by (simp add: checkThresholds_def referenceAction_def)

text \<open>The state after a history, and the two streaks as counts over the history.\<close>

definition detects :: "runtime \<Rightarrow> StepLoopDetectorConfig \<Rightarrow> step list \<Rightarrow> StepLoopDetector \<Rightarrow> bool" where
  "detects rt cfg steps d \<longleftrightarrow>
     ld_config d = cfg \<and>
     approachHashes d = (\<lambda>t. computeHash rt (JStr (fst t))) ` set steps \<and>
     outcomeHashes d = (\<lambda>t. computeHash rt (snd t)) ` set steps \<and>
     stagnationStreak d = streak rt FullStagnation steps \<and> stuckStreak d = streak rt StepStuck steps"

lemma streak_snoc:
  "streak rt k (steps @ [s]) = (if lastCategory rt steps s = k then streak rt k steps + 1 else 0)"
proof -
  have "set (rev steps) = set steps" by simp
  then have "lastCategory rt (rev steps) s = lastCategory rt steps s" by (simp add: lastCategory_def)
  then show ?thesis by (simp add: streak_def)
qed

lemma updateStreaks_fields [simp]:
  "ld_config (updateStreaks c d) = ld_config d" "approachHashes (updateStreaks c d) = approachHashes d"
  "outcomeHashes (updateStreaks c d) = outcomeHashes d" "blockVerdict (updateStreaks c d) = blockVerdict d"
  "stagnationStreak (updateStreaks c d) = (if c = FullStagnation then stagnationStreak d + 1 else 0)"
  "stuckStreak (updateStreaks c d) = (if c = StepStuck then stuckStreak d + 1 else 0)"
  by (cases c; simp add: updateStreaks_def)+

lemma detects_step:
  assumes "detects rt cfg steps d"
  shows "detects rt cfg (steps @ [s]) (fst (analyzeStep rt d (fst s) (snd s)))"
    and "verdictLevel (snd (analyzeStep rt d (fst s) (snd s))) =
      referenceAction cfg (streak rt FullStagnation (steps @ [s])) (streak rt StepStuck (steps @ [s]))"
proof -
  have cat: "classify (computeHash rt (JStr (fst s)) \<notin> approachHashes d) (computeHash rt (snd s) \<notin> outcomeHashes d) =
      lastCategory rt steps s"
    using assms by (simp add: detects_def lastCategory_def)
  show "detects rt cfg (steps @ [s]) (fst (analyzeStep rt d (fst s) (snd s)))"
    using assms unfolding analyzeStep_def Let_def cat by (auto simp: detects_def streak_snoc)
  show "verdictLevel (snd (analyzeStep rt d (fst s) (snd s))) =
      referenceAction cfg (streak rt FullStagnation (steps @ [s])) (streak rt StepStuck (steps @ [s]))"
    using assms unfolding analyzeStep_def Let_def cat checkThresholds_level by (simp add: detects_def streak_snoc)
qed

lemma detects_new: "detects rt (ld_config (newStepLoopDetector a b)) [] (newStepLoopDetector a b)"
  by (simp add: detects_def newStepLoopDetector_def streak_def)

lemma detects_reset: "detects rt (ld_config d) [] (resetDetector d)"
  by (simp add: detects_def resetDetector_def streak_def)

lemma detects_run: "detects rt cfg before d \<Longrightarrow> detects rt cfg (before @ steps) (runSteps rt d steps)"
proof (induction steps arbitrary: before d)
  case (Cons s steps)
  obtain code result where s: "s = (code, result)" by fastforce
  show ?case using Cons.IH [OF detects_step(1) [OF Cons.prems, of s]] unfolding s by (simp add: runSteps_def)
qed (simp add: runSteps_def)

section \<open>Properties\<close>


text \<open>A streak of a category without a new result.\<close>

lemma streak_new_outcome:
  assumes "computeHash rt (snd s) \<notin> (\<lambda>t. computeHash rt (snd t)) ` set steps" "k = FullStagnation \<or> k = StepStuck"
  shows "streak rt k (steps @ [s]) = 0"
  using assms by (auto simp: streak_snoc lastCategory_def classify_def)

text \<open>Progress is never punished. With positive thresholds, a step whose result was not seen before in
  the session is allowed without a warning, whatever came before.\<close>

theorem new_outcome_allowed:
  assumes "cfg = ld_config (newStepLoopDetector a b)"
    and "0 < warnAt (stagnationLimits cfg)" "0 < blockAt (stagnationLimits cfg)"
    and "0 < warnAt (stuckLimits cfg)" "0 < blockAt (stuckLimits cfg)"
    and "computeHash rt result \<notin> (\<lambda>t. computeHash rt (snd t)) ` set steps"
  shows "snd (analyzeStep rt (runSteps rt (newStepLoopDetector a b) steps) code result) = StepAllow"
proof -
  let ?v = "snd (analyzeStep rt (runSteps rt (newStepLoopDetector a b) steps) code result)"
  have "streak rt k (steps @ [(code, result)]) = 0" if "k = FullStagnation \<or> k = StepStuck" for k
    using streak_new_outcome [of rt "(code, result)" steps k] that assms(6) by simp
  then have "verdictLevel ?v = 0"
    using detects_step(2) [OF detects_run [OF detects_new], where s = "(code, result)"] assms(1-5)
    by (simp add: referenceAction_def)
  then show ?thesis by (cases ?v) simp_all
qed

text \<open>The two streaks exclude each other, so an agent that keeps one result but alternates between new
  and repeated code never builds a streak longer than one.\<close>

theorem alternation_never_builds_streak:
  assumes "lastCategory rt steps s = StepStuck" "lastCategory rt (steps @ [s]) t = FullStagnation"
  shows "streak rt FullStagnation (steps @ [s, t]) = 1 \<and> streak rt StepStuck (steps @ [s, t]) = 0"
  using streak_snoc [of rt FullStagnation "steps @ [s]" t] streak_snoc [of rt StepStuck "steps @ [s]" t]
    streak_snoc [of rt FullStagnation steps s] assms
  by simp

section \<open>Witnesses\<close>

definition plainRuntime :: runtime where
  "plainRuntime = \<lparr>sha256 = (\<lambda>s. s), showNum = (\<lambda>_. ''n'')\<rparr>"

theorem new_outcome_allowed_witness:
  "snd (analyzeStep plainRuntime (runSteps plainRuntime (newStepLoopDetector None None)
     (replicate 4 (''f()'', JNull))) ''f()'' (JBool True)) = StepAllow"
  by (rule new_outcome_allowed [OF refl]; code_simp)

theorem alternation_never_builds_streak_witness:
  "streak plainRuntime FullStagnation ([(''a'', JNull)] @ [(''b'', JNull), (''a'', JNull)]) = 1"
proof -
  have "lastCategory plainRuntime [(''a'', JNull)] (''b'', JNull) = StepStuck"
    "lastCategory plainRuntime ([(''a'', JNull)] @ [(''b'', JNull)]) (''a'', JNull) = FullStagnation" by code_simp+
  from alternation_never_builds_streak [OF this] show ?thesis by blast
qed

end
