(* ===== verification/Truncate_Result.thy ===== *)
theory Truncate_Result
  imports Hash
begin

text \<open>
  Truncation of tool results before they reach the model (\<open>src/session/truncate-result.ts\<close>). Strings
  are ASCII, so a byte is a character. The environment variable is an argument; \<open>toFixed\<close> is a
  parameter.
\<close>

definition DEFAULT_RESULT_SIZE_LIMIT :: int where
  "DEFAULT_RESULT_SIZE_LIMIT = 100000"

text \<open>\<open>parseInt(s, 10)\<close>: white space, a sign, the longest run of digits; \<open>None\<close> is \<open>NaN\<close>.\<close>

fun digitsValue :: "int \<Rightarrow> string \<Rightarrow> int" where
  "digitsValue acc [] = acc"
| "digitsValue acc (c # cs) = digitsValue (10 * acc + (int (of_char c) - 48)) cs"

definition parseUnsigned :: "string \<Rightarrow> int option" where
  "parseUnsigned s = (let ds = takeWhile isDigit s in if ds = [] then None else Some (digitsValue 0 ds))"

definition parseInt10 :: "string \<Rightarrow> int option" where
  "parseInt10 s =
     (case dropWhile isSpace s of
        [] \<Rightarrow> None
      | c # cs \<Rightarrow> (if c = CHR ''-'' then map_option uminus (parseUnsigned cs)
                  else if c = CHR ''+'' then parseUnsigned cs
                  else parseUnsigned (c # cs)))"

definition getResultSizeLimit :: "string option \<Rightarrow> int" where
  "getResultSizeLimit envVal =
     (case envVal of
        None \<Rightarrow> DEFAULT_RESULT_SIZE_LIMIT
      | Some v \<Rightarrow>
          (case parseInt10 v of
             Some parsed \<Rightarrow> (if parsed > 0 then parsed else DEFAULT_RESULT_SIZE_LIMIT)
           | None \<Rightarrow> DEFAULT_RESULT_SIZE_LIMIT))"

record TruncationResult =
  tr_value :: jsval
  tr_truncated :: bool
  tr_originalSize :: int
  tr_finalSize :: int

definition truncationMarker :: "runtime \<Rightarrow> int \<Rightarrow> string" where
  "truncationMarker rt truncatedBytes =
     [CHR 0x0A] @ ''[... truncated '' @ showNum rt (of_int truncatedBytes) @ '' bytes ...]'' @ [CHR 0x0A]"

definition truncateString :: "runtime \<Rightarrow> string \<Rightarrow> int \<Rightarrow> string" where
  "truncateString rt s maxBytes =
     (if int (length s) \<le> maxBytes then s
      else let truncatedBytes = int (length s) - maxBytes;
               realMarker = truncationMarker rt truncatedBytes;
               available = maxBytes - int (length realMarker)
           in if available \<le> 0 then realMarker
              else let headBytes = nat ((available * 4) div 5);
                       tailBytes = nat available - headBytes;
                       head = take headBytes s;
                       tail = (if tailBytes > 0 then drop (length s - tailBytes) s else [])
                   in head @ realMarker @ tail)"

definition truncateResult :: "runtime \<Rightarrow> jsval \<Rightarrow> int \<Rightarrow> TruncationResult" where
  "truncateResult rt value limit =
     (case jsonStringify rt value of
        None \<Rightarrow> \<lparr>tr_value = value, tr_truncated = False, tr_originalSize = 0, tr_finalSize = 0\<rparr>
      | Some json \<Rightarrow>
          (let originalSize = int (length json)
           in if originalSize \<le> limit
              then \<lparr>tr_value = value, tr_truncated = False, tr_originalSize = originalSize, tr_finalSize = originalSize\<rparr>
              else let truncated = truncateString rt json limit
                   in \<lparr>tr_value = JStr truncated, tr_truncated = True, tr_originalSize = originalSize,
                       tr_finalSize = int (length truncated)\<rparr>))"

definition formatKB :: "(rat \<Rightarrow> string) \<Rightarrow> int \<Rightarrow> string" where
  "formatKB toFixed1 bytes = toFixed1 (of_int bytes / 1024) @ ''KB''"

section \<open>Properties\<close>

lemma getResultSizeLimit_pos: "getResultSizeLimit v > 0"
  by (simp add: getResultSizeLimit_def DEFAULT_RESULT_SIZE_LIMIT_def split: option.splits)

text \<open>The two parts and the marker fill the limit.\<close>

lemma truncateString_split:
  assumes "maxBytes < int (length s)" "length (truncationMarker rt (int (length s) - maxBytes)) < nat maxBytes"
  shows "\<exists>h t. h + t + length (truncationMarker rt (int (length s) - maxBytes)) = nat maxBytes \<and> h + t \<le> length s \<and>
    truncateString rt s maxBytes = take h s @ truncationMarker rt (int (length s) - maxBytes) @ drop (length s - t) s"
proof -
  let ?m = "truncationMarker rt (int (length s) - maxBytes)"
  let ?a = "maxBytes - int (length ?m)"
  let ?h = "nat ((?a * 4) div 5)"
  let ?t = "nat ?a - ?h"
  have a: "0 < ?a" "nat ?a \<le> length s" using assms by linarith+
  have "(x * 4) div 5 \<le> x" if "0 < x" for x :: int using that by presburger
  then have h: "?h \<le> nat ?a" using a(1) by (intro nat_mono) blast
  then have "?h + ?t = nat ?a" by simp
  then have "?h + ?t + length ?m = nat maxBytes \<and> ?h + ?t \<le> length s" using a by linarith
  moreover have "truncateString rt s maxBytes = take ?h s @ ?m @ drop (length s - ?t) s"
    using assms(1) a(1) by (auto simp: truncateString_def Let_def)
  ultimately show ?thesis by blast
qed

text \<open>The size bound of a truncated result. A result is passed on unchanged when its serialisation
  fits the limit; otherwise it becomes a string of exactly the limit, a prefix and a suffix of the
  serialisation around a marker, as long as the marker is shorter than the limit.\<close>

theorem truncate_result_bounded:
  assumes "jsonStringify rt value = Some json" "limit < int (length json)"
    and "int (length (truncationMarker rt (int (length json) - limit))) < limit"
  shows "\<exists>head tail. tr_value (truncateResult rt value limit) =
      JStr (head @ truncationMarker rt (int (length json) - limit) @ tail) \<and>
    prefix head json \<and> suffix tail json \<and> length head + length tail \<le> length json \<and>
    tr_finalSize (truncateResult rt value limit) = limit"
proof -
  let ?m = "truncationMarker rt (int (length json) - limit)"
  have "length ?m < nat limit" using assms(3) by linarith
  from truncateString_split [OF assms(2) this] obtain h t where
    ht: "h + t + length ?m = nat limit" "h + t \<le> length json" "truncateString rt json limit = take h json @ ?m @ drop (length json - t) json"
    by blast
  have r: "truncateResult rt value limit = \<lparr>tr_value = JStr (truncateString rt json limit), tr_truncated = True,
      tr_originalSize = int (length json), tr_finalSize = int (length (truncateString rt json limit))\<rparr>"
    using assms(1,2) by (simp add: truncateResult_def Let_def)
  have "length (truncateString rt json limit) = nat limit" using ht by simp
  then have "tr_finalSize (truncateResult rt value limit) = limit" using r assms(3) by simp
  moreover have "prefix (take h json) json" "suffix (drop (length json - t) json) json"
    by (simp_all add: take_is_prefix suffix_drop)
  moreover have "length (take h json) + length (drop (length json - t) json) \<le> length json" using ht(2) by simp
  ultimately show ?thesis using r ht(3) by (intro exI [of _ "take h json"] exI [of _ "drop (length json - t) json"]) simp
qed

text \<open>A limit below the size of the marker is not respected: the truncated result is the marker alone,
  longer than the limit.\<close>

theorem small_limit_exceeded:
  assumes "jsonStringify rt value = Some json" "limit < int (length json)"
    and "limit < int (length (truncationMarker rt (int (length json) - limit)))"
  shows "limit < tr_finalSize (truncateResult rt value limit)"
  using assms by (simp add: truncateResult_def truncateString_def Let_def)

definition demoShow :: runtime where
  "demoShow = \<lparr>sha256 = (\<lambda>s. s), showNum = (\<lambda>_. ''27'')\<rparr>"

theorem truncate_result_bounded_witness:
  "tr_finalSize (truncateResult demoShow (JStr (replicate 65 CHR ''x'')) 40) = 40"
proof -
  have j: "jsonStringify demoShow (JStr (replicate 65 CHR ''x'')) = Some (CHR 0x22 # replicate 65 CHR ''x'' @ [CHR 0x22])"
    by code_simp
  have m: "length (truncationMarker demoShow n) = 30" for n
    by (simp add: truncationMarker_def demoShow_def)
  have "40 < int (length (CHR 0x22 # replicate 65 CHR ''x'' @ [CHR 0x22]))" by simp
  from truncate_result_bounded [OF j this] show ?thesis unfolding m by auto
qed

theorem small_limit_exceeded_witness:
  "10 < tr_finalSize (truncateResult demoShow (JStr (replicate 65 CHR ''x'')) 10)"
proof -
  have j: "jsonStringify demoShow (JStr (replicate 65 CHR ''x'')) = Some (CHR 0x22 # replicate 65 CHR ''x'' @ [CHR 0x22])"
    by code_simp
  have m: "length (truncationMarker demoShow n) = 30" for n
    by (simp add: truncationMarker_def demoShow_def)
  show ?thesis by (rule small_limit_exceeded [OF j]) (simp_all add: m)
qed

end
