(* ===== verification/Resource_Budget.thy ===== *)
theory Resource_Budget
  imports IC_Prelude
begin

text \<open>
  The resource budget of a session (\<open>src/session/resource-budget-tracker.ts\<close>): tokens, steps, time and
  estimated cost are limited per turn, cumulative totals are kept for display. Numbers are exact. The
  clock reading is an argument of every operation that reads the clock; the readings within one
  operation agree. The notations that depend on the locale are parameters.
\<close>

section \<open>Pricing\<close>

record ModelPricing =
  inputPerMillion :: rat
  outputPerMillion :: rat
  cacheReadPerMillion :: rat

definition pricingEntry :: "string \<Rightarrow> rat \<Rightarrow> rat \<Rightarrow> rat \<Rightarrow> string \<times> ModelPricing" where
  "pricingEntry m i out c = (m, \<lparr>inputPerMillion = i, outputPerMillion = out, cacheReadPerMillion = c\<rparr>)"

definition MODEL_PRICING :: "(string \<times> ModelPricing) list" where
  "MODEL_PRICING = [
     pricingEntry ''claude-opus-4-5'' (5) (25) (1 / 2),
     pricingEntry ''claude-opus-4-6'' (5) (25) (1 / 2),
     pricingEntry ''claude-opus'' (15) (75) (3 / 2),
     pricingEntry ''claude-sonnet'' (3) (15) (3 / 10),
     pricingEntry ''claude-haiku-4-5'' (1) (5) (1 / 10),
     pricingEntry ''claude-haiku'' (4 / 5) (4) (2 / 25),
     pricingEntry ''gpt-5.2-pro'' (21) (168) (21),
     pricingEntry ''gpt-5.2'' (7 / 4) (14) (7 / 40),
     pricingEntry ''gpt-5-mini'' (1 / 4) (2) (1 / 40),
     pricingEntry ''gpt-4.1-nano'' (1 / 5) (4 / 5) (1 / 20),
     pricingEntry ''gpt-4.1-mini'' (4 / 5) (16 / 5) (1 / 5),
     pricingEntry ''gpt-4.1'' (3) (12) (3 / 4),
     pricingEntry ''o4-mini'' (4) (16) (1),
     pricingEntry ''gpt-4o-mini'' (3 / 20) (3 / 5) (3 / 40),
     pricingEntry ''gpt-4o'' (5 / 2) (10) (5 / 4),
     pricingEntry ''gemini-3.1-pro'' (2) (12) (1 / 5),
     pricingEntry ''gemini-3-flash'' (1 / 2) (3) (1 / 20),
     pricingEntry ''gemini-3-pro'' (2) (12) (1 / 5),
     pricingEntry ''gemini-2.5-pro'' (5 / 4) (10) (1 / 8),
     pricingEntry ''gemini-2.5-flash-lite'' (1 / 10) (2 / 5) (1 / 100),
     pricingEntry ''gemini-2.5-flash'' (3 / 10) (5 / 2) (3 / 100),
     pricingEntry ''gemini-2.0-flash-lite'' (3 / 40) (3 / 10) (3 / 400),
     pricingEntry ''gemini-2.0-flash'' (1 / 10) (2 / 5) (1 / 100),
     pricingEntry ''gemini-1.5-pro'' (5 / 4) (5) (1 / 8),
     pricingEntry ''glm-5.2'' (3 / 5) (11 / 5) (11 / 100),
     pricingEntry ''z-ai/'' (3 / 5) (11 / 5) (11 / 100)]"

definition FALLBACK_PRICING :: ModelPricing where
  "FALLBACK_PRICING = \<lparr>inputPerMillion = 3, outputPerMillion = 15, cacheReadPerMillion = 3 / 10\<rparr>"

definition resolvePricing :: "string \<Rightarrow> ModelPricing" where
  "resolvePricing modelId =
     (case find (\<lambda>(m, _). strIncludes (toLowerCase modelId) m) MODEL_PRICING of
        Some (_, pricing) \<Rightarrow> pricing
      | None \<Rightarrow> FALLBACK_PRICING)"

section \<open>State\<close>

datatype BudgetDimension = Tokens | Steps | WallClock | Cost

record CumulativeBudgetSnapshot =
  cs_totalInputTokens :: rat
  cs_totalOutputTokens :: rat
  cs_totalTokens :: rat
  cs_stepCount :: nat
  cs_activeSeconds :: rat
  cs_estimatedCostUsd :: rat

record BudgetSnapshot =
  bs_totalInputTokens :: rat
  bs_totalOutputTokens :: rat
  bs_totalTokens :: rat
  bs_stepCount :: nat
  bs_elapsedSeconds :: rat
  bs_estimatedCostUsd :: rat
  bs_cumulative :: CumulativeBudgetSnapshot

record BudgetExhaustedVerdict =
  ev_dimension :: BudgetDimension
  ev_message :: string
  ev_snapshot :: BudgetSnapshot

record BudgetWarningVerdict =
  wv_dimension :: BudgetDimension
  wv_message :: string
  wv_percentUsed :: int
  wv_snapshot :: BudgetSnapshot

text \<open>\<open>ResolvedResourceBudgetConfig\<close>: a limit that is \<open>null\<close> is \<open>None\<close>.\<close>

record budget_config =
  maxTotalTokens :: "rat option"
  maxSteps :: "rat option"
  maxSessionSeconds :: "rat option"
  maxEstimatedCostUsd :: "rat option"
  warnThresholdPercent :: rat

text \<open>\<open>LanguageModelUsage\<close>, the fields the tracker reads.\<close>

record step_usage =
  inputTokens :: "rat option"
  outputTokens :: "rat option"
  cacheReadTokens :: "rat option"

record ResourceBudgetTracker =
  bt_config :: budget_config
  bt_pricing :: ModelPricing
  turnStartMs :: "rat option"
  turnInputTokens :: rat
  turnOutputTokens :: rat
  turnCacheReadTokens :: rat
  turnStepCount :: nat
  cumulativeInputTokens :: rat
  cumulativeOutputTokens :: rat
  cumulativeCacheReadTokens :: rat
  cumulativeStepCount :: nat
  cumulativeActiveMs :: rat
  exhaustedVerdict :: "BudgetExhaustedVerdict option"
  warnedDimensions :: "BudgetDimension set"
  pendingWarnings :: "BudgetWarningVerdict list"

definition newResourceBudgetTracker :: "budget_config \<Rightarrow> string \<Rightarrow> ResourceBudgetTracker" where
  "newResourceBudgetTracker config modelId =
     \<lparr>bt_config = config, bt_pricing = resolvePricing modelId, turnStartMs = None,
      turnInputTokens = 0, turnOutputTokens = 0, turnCacheReadTokens = 0, turnStepCount = 0,
      cumulativeInputTokens = 0, cumulativeOutputTokens = 0, cumulativeCacheReadTokens = 0,
      cumulativeStepCount = 0, cumulativeActiveMs = 0,
      exhaustedVerdict = None, warnedDimensions = {}, pendingWarnings = []\<rparr>"

section \<open>Turns\<close>

definition resetTurnCounters :: "ResourceBudgetTracker \<Rightarrow> ResourceBudgetTracker" where
  "resetTurnCounters t = t\<lparr>turnInputTokens := 0, turnOutputTokens := 0, turnCacheReadTokens := 0, turnStepCount := 0\<rparr>"

definition endTurn :: "rat \<Rightarrow> ResourceBudgetTracker \<Rightarrow> ResourceBudgetTracker" where
  "endTurn now t =
     (case turnStartMs t of
        None \<Rightarrow> t
      | Some start \<Rightarrow> resetTurnCounters (t\<lparr>cumulativeActiveMs := cumulativeActiveMs t + (now - start),
          cumulativeInputTokens := cumulativeInputTokens t + turnInputTokens t,
          cumulativeOutputTokens := cumulativeOutputTokens t + turnOutputTokens t,
          cumulativeCacheReadTokens := cumulativeCacheReadTokens t + turnCacheReadTokens t,
          cumulativeStepCount := cumulativeStepCount t + turnStepCount t,
          turnStartMs := None\<rparr>))"

definition startTurn :: "rat \<Rightarrow> ResourceBudgetTracker \<Rightarrow> ResourceBudgetTracker" where
  "startTurn now t =
     (resetTurnCounters (if turnStartMs t \<noteq> None then endTurn now t else t))
       \<lparr>exhaustedVerdict := None, warnedDimensions := {}, pendingWarnings := [], turnStartMs := Some now\<rparr>"

section \<open>Snapshots\<close>

definition getTurnElapsedMs :: "rat \<Rightarrow> ResourceBudgetTracker \<Rightarrow> rat" where
  "getTurnElapsedMs now t = (case turnStartMs t of None \<Rightarrow> 0 | Some start \<Rightarrow> now - start)"

definition getTurnElapsedSeconds :: "rat \<Rightarrow> ResourceBudgetTracker \<Rightarrow> rat" where
  "getTurnElapsedSeconds now t = getTurnElapsedMs now t / 1000"

definition estimateCost :: "ModelPricing \<Rightarrow> rat \<Rightarrow> rat \<Rightarrow> rat \<Rightarrow> rat" where
  "estimateCost pricing input out cacheRead =
     (let nonCachedInput = input - cacheRead
      in nonCachedInput / 1000000 * inputPerMillion pricing +
         cacheRead / 1000000 * cacheReadPerMillion pricing +
         out / 1000000 * outputPerMillion pricing)"

definition getCumulativeSnapshot :: "rat \<Rightarrow> ResourceBudgetTracker \<Rightarrow> CumulativeBudgetSnapshot" where
  "getCumulativeSnapshot now t =
     (let totalInput = cumulativeInputTokens t + turnInputTokens t;
          totalOutput = cumulativeOutputTokens t + turnOutputTokens t;
          totalCacheRead = cumulativeCacheReadTokens t + turnCacheReadTokens t;
          totalActiveMs = cumulativeActiveMs t + getTurnElapsedMs now t
      in \<lparr>cs_totalInputTokens = totalInput, cs_totalOutputTokens = totalOutput,
          cs_totalTokens = totalInput + totalOutput, cs_stepCount = cumulativeStepCount t + turnStepCount t,
          cs_activeSeconds = totalActiveMs / 1000,
          cs_estimatedCostUsd = estimateCost (bt_pricing t) totalInput totalOutput totalCacheRead\<rparr>)"

definition getSnapshot :: "rat \<Rightarrow> ResourceBudgetTracker \<Rightarrow> BudgetSnapshot" where
  "getSnapshot now t =
     \<lparr>bs_totalInputTokens = turnInputTokens t, bs_totalOutputTokens = turnOutputTokens t,
      bs_totalTokens = turnInputTokens t + turnOutputTokens t, bs_stepCount = turnStepCount t,
      bs_elapsedSeconds = getTurnElapsedSeconds now t,
      bs_estimatedCostUsd = estimateCost (bt_pricing t) (turnInputTokens t) (turnOutputTokens t) (turnCacheReadTokens t),
      bs_cumulative = getCumulativeSnapshot now t\<rparr>"

section \<open>Exhaustion and warnings\<close>

text \<open>\<open>toLocaleString\<close>, \<open>toFixed(2)\<close> and the notation of a number.\<close>

record budget_text =
  toLocale :: "rat \<Rightarrow> string"
  toFixed2 :: "rat \<Rightarrow> string"
  showNumber :: "rat \<Rightarrow> string"

definition mathRound :: "rat \<Rightarrow> int" where
  "mathRound x = \<lfloor>x + 1 / 2\<rfloor>"

definition checkExhaustion ::
  "budget_text \<Rightarrow> budget_config \<Rightarrow> BudgetSnapshot \<Rightarrow> BudgetExhaustedVerdict option" where
  "checkExhaustion tx c snapshot =
     (if (case maxTotalTokens c of Some m \<Rightarrow> bs_totalTokens snapshot \<ge> m | None \<Rightarrow> False) then
        Some \<lparr>ev_dimension = Tokens, ev_message = ''Token budget exhausted: '' @ toLocale tx (bs_totalTokens snapshot) @
          '' / '' @ toLocale tx (the (maxTotalTokens c)) @ '' tokens used'', ev_snapshot = snapshot\<rparr>
      else if (case maxSteps c of Some m \<Rightarrow> of_nat (bs_stepCount snapshot) \<ge> m | None \<Rightarrow> False) then
        Some \<lparr>ev_dimension = Steps, ev_message = ''Step budget exhausted: '' @
          showNumber tx (of_nat (bs_stepCount snapshot)) @ '' / '' @ showNumber tx (the (maxSteps c)) @ '' steps used'',
          ev_snapshot = snapshot\<rparr>
      else if (case maxSessionSeconds c of Some m \<Rightarrow> bs_elapsedSeconds snapshot \<ge> m | None \<Rightarrow> False) then
        Some \<lparr>ev_dimension = WallClock, ev_message = ''Time budget exhausted: '' @
          showNumber tx (of_int (mathRound (bs_elapsedSeconds snapshot))) @ ''s / '' @
          showNumber tx (the (maxSessionSeconds c)) @ ''s elapsed'', ev_snapshot = snapshot\<rparr>
      else if (case maxEstimatedCostUsd c of Some m \<Rightarrow> bs_estimatedCostUsd snapshot \<ge> m | None \<Rightarrow> False) then
        Some \<lparr>ev_dimension = Cost, ev_message = ''Cost budget exhausted: $'' @
          toFixed2 tx (bs_estimatedCostUsd snapshot) @ '' / $'' @ toFixed2 tx (the (maxEstimatedCostUsd c)) @ '' estimated'',
          ev_snapshot = snapshot\<rparr>
      else None)"

definition maybeWarn ::
  "BudgetDimension \<Rightarrow> rat option \<Rightarrow> rat \<Rightarrow> BudgetSnapshot \<Rightarrow> (int \<Rightarrow> string) \<Rightarrow>
   ResourceBudgetTracker \<Rightarrow> ResourceBudgetTracker" where
  "maybeWarn dimension limit current snapshot messageFn t =
     (case limit of
        None \<Rightarrow> t
      | Some l \<Rightarrow>
          (if dimension \<in> warnedDimensions t then t
           else let ratio = current / l
                in if ratio \<ge> warnThresholdPercent (bt_config t) / 100 \<and> ratio < 1
                   then let percentUsed = mathRound (ratio * 100)
                        in t\<lparr>warnedDimensions := insert dimension (warnedDimensions t),
                             pendingWarnings := pendingWarnings t @
                               [\<lparr>wv_dimension = dimension, wv_message = messageFn percentUsed,
                                 wv_percentUsed = percentUsed, wv_snapshot = snapshot\<rparr>]\<rparr>
                   else t))"

definition orZero :: "rat option \<Rightarrow> rat" where
  "orZero x = (case x of Some v \<Rightarrow> v | None \<Rightarrow> 0)"

definition checkWarnings :: "budget_text \<Rightarrow> BudgetSnapshot \<Rightarrow> ResourceBudgetTracker \<Rightarrow> ResourceBudgetTracker" where
  "checkWarnings tx snapshot t =
     (let c = bt_config t;
          pct = (\<lambda>p. showNumber tx (of_int p) @ ''%: '');
          t1 = maybeWarn Tokens (maxTotalTokens c) (bs_totalTokens snapshot) snapshot
            (\<lambda>p. ''Token usage at '' @ pct p @ toLocale tx (bs_totalTokens snapshot) @ '' / '' @
               toLocale tx (orZero (maxTotalTokens c))) t;
          t2 = maybeWarn Steps (maxSteps c) (of_nat (bs_stepCount snapshot)) snapshot
            (\<lambda>p. ''Step usage at '' @ pct p @ showNumber tx (of_nat (bs_stepCount snapshot)) @ '' / '' @
               showNumber tx (orZero (maxSteps c))) t1;
          t3 = maybeWarn WallClock (maxSessionSeconds c) (bs_elapsedSeconds snapshot) snapshot
            (\<lambda>p. ''Time usage at '' @ pct p @ showNumber tx (of_int (mathRound (bs_elapsedSeconds snapshot))) @ ''s / '' @
               showNumber tx (orZero (maxSessionSeconds c)) @ ''s'') t2
      in maybeWarn Cost (maxEstimatedCostUsd c) (bs_estimatedCostUsd snapshot) snapshot
           (\<lambda>p. ''Cost at '' @ pct p @ ''$'' @ toFixed2 tx (bs_estimatedCostUsd snapshot) @ '' / $'' @
              toFixed2 tx (orZero (maxEstimatedCostUsd c))) t3)"

definition evaluateBudget ::
  "budget_text \<Rightarrow> rat \<Rightarrow> ResourceBudgetTracker \<Rightarrow> ResourceBudgetTracker \<times> BudgetExhaustedVerdict option" where
  "evaluateBudget tx now t =
     (let snapshot = getSnapshot now t
      in case checkExhaustion tx (bt_config t) snapshot of
           Some v \<Rightarrow> (t\<lparr>exhaustedVerdict := Some v\<rparr>, Some v)
         | None \<Rightarrow> (checkWarnings tx snapshot t, None))"

section \<open>Operations\<close>

definition isExhausted ::
  "budget_text \<Rightarrow> rat \<Rightarrow> ResourceBudgetTracker \<Rightarrow> ResourceBudgetTracker \<times> BudgetExhaustedVerdict option" where
  "isExhausted tx now t =
     (case exhaustedVerdict t of
        Some v \<Rightarrow> (t, Some v)
      | None \<Rightarrow>
          (case checkExhaustion tx (bt_config t) (getSnapshot now t) of
             Some v \<Rightarrow> (t\<lparr>exhaustedVerdict := Some v\<rparr>, Some v)
           | None \<Rightarrow> (t, None)))"

definition addUsage :: "step_usage \<Rightarrow> ResourceBudgetTracker \<Rightarrow> ResourceBudgetTracker" where
  "addUsage u t = t\<lparr>turnInputTokens := turnInputTokens t + orZero (inputTokens u),
     turnOutputTokens := turnOutputTokens t + orZero (outputTokens u),
     turnCacheReadTokens := turnCacheReadTokens t + orZero (cacheReadTokens u),
     turnStepCount := turnStepCount t + 1\<rparr>"

definition recordStep ::
  "budget_text \<Rightarrow> rat \<Rightarrow> step_usage \<Rightarrow> ResourceBudgetTracker \<Rightarrow> ResourceBudgetTracker \<times> BudgetExhaustedVerdict option" where
  "recordStep tx now u t =
     (case exhaustedVerdict t of
        Some v \<Rightarrow> (t, Some v)
      | None \<Rightarrow> evaluateBudget tx now (addUsage u t))"

definition getActiveWarnings :: "ResourceBudgetTracker \<Rightarrow> ResourceBudgetTracker \<times> BudgetWarningVerdict list" where
  "getActiveWarnings t = (t\<lparr>pendingWarnings := []\<rparr>, pendingWarnings t)"

definition getRemainingWallClockMs :: "rat \<Rightarrow> ResourceBudgetTracker \<Rightarrow> rat option" where
  "getRemainingWallClockMs now t =
     (case maxSessionSeconds (bt_config t) of
        None \<Rightarrow> None
      | Some m \<Rightarrow> Some (max 0 (m * 1000 - getTurnElapsedMs now t)))"

text \<open>The closure of \<open>createStopCondition\<close>: its counter of processed steps is passed along. The loop
  stops at the first exhausted verdict without moving the counter.\<close>

fun recordSteps ::
  "budget_text \<Rightarrow> rat \<Rightarrow> step_usage list \<Rightarrow> ResourceBudgetTracker \<Rightarrow> ResourceBudgetTracker \<times> bool" where
  "recordSteps tx now [] t = (t, False)"
| "recordSteps tx now (u # us) t =
     (case recordStep tx now u t of
        (t', Some _) \<Rightarrow> (t', True)
      | (t', None) \<Rightarrow> recordSteps tx now us t')"

definition stopCondition ::
  "budget_text \<Rightarrow> rat \<Rightarrow> step_usage list \<Rightarrow> nat \<times> ResourceBudgetTracker \<Rightarrow> (nat \<times> ResourceBudgetTracker) \<times> bool" where
  "stopCondition tx now steps st =
     (case st of (processedCount, t) \<Rightarrow>
        (case recordSteps tx now (drop processedCount steps) t of
           (t', True) \<Rightarrow> ((processedCount, t'), True)
         | (t', False) \<Rightarrow>
             (let (t'', v) = isExhausted tx now t' in ((length steps, t''), v \<noteq> None))))"

section \<open>Runs\<close>

datatype budget_event =
    EvStart rat
  | EvEnd rat
  | EvStep rat step_usage
  | EvCheck rat
  | EvDrain

definition budgetStep :: "budget_text \<Rightarrow> ResourceBudgetTracker \<Rightarrow> budget_event \<Rightarrow> ResourceBudgetTracker" where
  "budgetStep tx t e =
     (case e of
        EvStart now \<Rightarrow> startTurn now t
      | EvEnd now \<Rightarrow> endTurn now t
      | EvStep now u \<Rightarrow> fst (recordStep tx now u t)
      | EvCheck now \<Rightarrow> fst (isExhausted tx now t)
      | EvDrain \<Rightarrow> fst (getActiveWarnings t))"

lemma budgetStep_simps [simp]:
  "budgetStep tx t (EvStart now) = startTurn now t" "budgetStep tx t (EvEnd now) = endTurn now t"
  "budgetStep tx t (EvStep now u) = fst (recordStep tx now u t)"
  "budgetStep tx t (EvCheck now) = fst (isExhausted tx now t)" "budgetStep tx t EvDrain = fst (getActiveWarnings t)"
  by (simp_all add: budgetStep_def)

abbreviation runBudget :: "budget_text \<Rightarrow> ResourceBudgetTracker \<Rightarrow> budget_event list \<Rightarrow> ResourceBudgetTracker" where
  "runBudget tx \<equiv> foldl (budgetStep tx)"

text \<open>The steps whose usage is counted: those recorded while no verdict is latched.\<close>

fun countedUsage :: "budget_text \<Rightarrow> ResourceBudgetTracker \<Rightarrow> budget_event list \<Rightarrow> step_usage list" where
  "countedUsage tx t [] = []"
| "countedUsage tx t (e # es) =
     (case e of EvStep now u \<Rightarrow> (if exhaustedVerdict t = None then [u] else []) | _ \<Rightarrow> []) @
     countedUsage tx (budgetStep tx t e) es"

text \<open>The warnings handed out.\<close>

fun drainedWarnings :: "budget_text \<Rightarrow> ResourceBudgetTracker \<Rightarrow> budget_event list \<Rightarrow> BudgetWarningVerdict list" where
  "drainedWarnings tx t [] = []"
| "drainedWarnings tx t (e # es) =
     (if e = EvDrain then snd (getActiveWarnings t) else []) @ drainedWarnings tx (budgetStep tx t e) es"

definition isStart :: "budget_event \<Rightarrow> bool" where
  "isStart e = (case e of EvStart _ \<Rightarrow> True | _ \<Rightarrow> False)"

section \<open>Lemmas\<close>

named_theorems budget_simps \<open>what the operations leave as it is\<close>

lemma maybeWarn_fields [budget_simps]:
  "bt_config (maybeWarn d l c s f t) = bt_config t" "bt_pricing (maybeWarn d l c s f t) = bt_pricing t"
  "turnStartMs (maybeWarn d l c s f t) = turnStartMs t"
  "turnInputTokens (maybeWarn d l c s f t) = turnInputTokens t"
  "turnOutputTokens (maybeWarn d l c s f t) = turnOutputTokens t"
  "turnCacheReadTokens (maybeWarn d l c s f t) = turnCacheReadTokens t"
  "turnStepCount (maybeWarn d l c s f t) = turnStepCount t"
  "cumulativeInputTokens (maybeWarn d l c s f t) = cumulativeInputTokens t"
  "cumulativeOutputTokens (maybeWarn d l c s f t) = cumulativeOutputTokens t"
  "cumulativeCacheReadTokens (maybeWarn d l c s f t) = cumulativeCacheReadTokens t"
  "cumulativeStepCount (maybeWarn d l c s f t) = cumulativeStepCount t"
  "cumulativeActiveMs (maybeWarn d l c s f t) = cumulativeActiveMs t"
  "exhaustedVerdict (maybeWarn d l c s f t) = exhaustedVerdict t"
  by (simp_all add: maybeWarn_def Let_def split: option.splits)

lemma checkWarnings_fields [budget_simps]:
  "bt_config (checkWarnings tx s t) = bt_config t" "bt_pricing (checkWarnings tx s t) = bt_pricing t"
  "turnStartMs (checkWarnings tx s t) = turnStartMs t"
  "turnInputTokens (checkWarnings tx s t) = turnInputTokens t"
  "turnOutputTokens (checkWarnings tx s t) = turnOutputTokens t"
  "turnCacheReadTokens (checkWarnings tx s t) = turnCacheReadTokens t"
  "turnStepCount (checkWarnings tx s t) = turnStepCount t"
  "cumulativeInputTokens (checkWarnings tx s t) = cumulativeInputTokens t"
  "cumulativeOutputTokens (checkWarnings tx s t) = cumulativeOutputTokens t"
  "cumulativeCacheReadTokens (checkWarnings tx s t) = cumulativeCacheReadTokens t"
  "cumulativeStepCount (checkWarnings tx s t) = cumulativeStepCount t"
  "cumulativeActiveMs (checkWarnings tx s t) = cumulativeActiveMs t"
  "exhaustedVerdict (checkWarnings tx s t) = exhaustedVerdict t"
  by (simp_all add: checkWarnings_def Let_def budget_simps)

text \<open>Every limit that is set is above the value of its dimension.\<close>

definition withinLimits :: "budget_config \<Rightarrow> BudgetSnapshot \<Rightarrow> bool" where
  "withinLimits c s \<longleftrightarrow>
     (case maxTotalTokens c of Some m \<Rightarrow> bs_totalTokens s < m | None \<Rightarrow> True) \<and>
     (case maxSteps c of Some m \<Rightarrow> of_nat (bs_stepCount s) < m | None \<Rightarrow> True) \<and>
     (case maxSessionSeconds c of Some m \<Rightarrow> bs_elapsedSeconds s < m | None \<Rightarrow> True) \<and>
     (case maxEstimatedCostUsd c of Some m \<Rightarrow> bs_estimatedCostUsd s < m | None \<Rightarrow> True)"

lemma checkExhaustion_None_iff: "checkExhaustion tx c s = None \<longleftrightarrow> withinLimits c s"
  by (auto simp: checkExhaustion_def withinLimits_def not_le split: option.splits)

lemma getSnapshot_cong [budget_simps]:
  "getSnapshot now (checkWarnings tx s t) = getSnapshot now t"
  "getSnapshot now (t\<lparr>exhaustedVerdict := v\<rparr>) = getSnapshot now t"
  by (simp_all add: getSnapshot_def getCumulativeSnapshot_def getTurnElapsedSeconds_def getTurnElapsedMs_def budget_simps)

lemma recordStep_cases:
  obtains (Latched) v where "exhaustedVerdict t = Some v" "recordStep tx now u t = (t, Some v)"
    | (Exhausted) v where "exhaustedVerdict t = None" "checkExhaustion tx (bt_config t) (getSnapshot now (addUsage u t)) = Some v"
        "recordStep tx now u t = ((addUsage u t)\<lparr>exhaustedVerdict := Some v\<rparr>, Some v)"
    | (Within) "exhaustedVerdict t = None" "withinLimits (bt_config t) (getSnapshot now (addUsage u t))"
        "recordStep tx now u t = (checkWarnings tx (getSnapshot now (addUsage u t)) (addUsage u t), None)"
proof (cases "exhaustedVerdict t")
  case (Some v)
  then show ?thesis using Latched by (simp add: recordStep_def)
next
  case None
  have c: "bt_config (addUsage u t) = bt_config t" by (simp add: addUsage_def)
  show ?thesis
  proof (cases "checkExhaustion tx (bt_config t) (getSnapshot now (addUsage u t))")
    case (Some v)
    then show ?thesis using Exhausted None c by (simp add: recordStep_def evaluateBudget_def Let_def)
  next
    case within: None
    then have "withinLimits (bt_config t) (getSnapshot now (addUsage u t))" by (simp add: checkExhaustion_None_iff)
    then show ?thesis using Within None within c by (simp add: recordStep_def evaluateBudget_def Let_def)
  qed
qed

section \<open>Properties\<close>

text \<open>The pricing table is in an order that works: the name of every entry resolves to the price of that
  entry, so no entry is shadowed by a broader one before it.\<close>

theorem pricing_no_entry_shadowed:
  "map (\<lambda>(m, _). resolvePricing m) MODEL_PRICING = map snd MODEL_PRICING"
  by code_simp

text \<open>The entry meant for Haiku 3.5 does not match the identifiers of that model, which put the version
  first: they get the fallback price, nearly four times the input price of the entry.\<close>

theorem haiku_3_5_gets_fallback:
  "resolvePricing ''claude-3-5-haiku-20241022'' = FALLBACK_PRICING"
  by code_simp

text \<open>Enforcement. While no verdict is latched, recording a step reports exhaustion exactly when the
  usage including that step reaches a configured limit.\<close>

theorem record_step_enforces:
  assumes "exhaustedVerdict t = None"
  shows "snd (recordStep tx now u t) = None \<longleftrightarrow> withinLimits (bt_config t) (getSnapshot now (addUsage u t))"
  using assms
  by (cases rule: recordStep_cases [where t = t and tx = tx and now = now and u = u])
    (simp_all flip: checkExhaustion_None_iff [of tx])

lemma recordSteps_False:
  assumes "recordSteps tx now us t = (t', False)"
  shows "bt_config t' = bt_config t \<and>
    turnInputTokens t' = turnInputTokens t + sum_list (map (orZero \<circ> inputTokens) us) \<and>
    turnOutputTokens t' = turnOutputTokens t + sum_list (map (orZero \<circ> outputTokens) us) \<and>
    turnStepCount t' = turnStepCount t + length us"
  using assms
proof (induction us arbitrary: t)
  case (Cons u us)
  show ?case
  proof (cases rule: recordStep_cases [where t = t and tx = tx and now = now and u = u])
    case Within
    then have "recordSteps tx now us (checkWarnings tx (getSnapshot now (addUsage u t)) (addUsage u t)) = (t', False)"
      using Cons.prems by simp
    from Cons.IH [OF this] show ?thesis by (simp add: budget_simps addUsage_def)
  qed (use Cons.prems in simp_all)
qed simp

text \<open>C15: the loop of the agent goes on only within the budget. When the stop condition says to continue,
  it has processed every step, each exactly once, no verdict is latched, and every limit of the
  configuration, the clock included, is above the usage of the turn.\<close>

theorem stop_condition_enforces:
  assumes "stopCondition tx now steps (n, t) = ((n', t'), False)"
  shows "n' = length steps \<and> exhaustedVerdict t' = None \<and> withinLimits (bt_config t) (getSnapshot now t') \<and>
    turnInputTokens t' = turnInputTokens t + sum_list (map (orZero \<circ> inputTokens) (drop n steps)) \<and>
    turnOutputTokens t' = turnOutputTokens t + sum_list (map (orZero \<circ> outputTokens) (drop n steps)) \<and>
    turnStepCount t' = turnStepCount t + (length steps - n)"
proof -
  obtain t1 where t1: "recordSteps tx now (drop n steps) t = (t1, False)"
    "isExhausted tx now t1 = (t', None)" "n' = length steps"
    using assms by (auto simp: stopCondition_def Let_def split: prod.splits bool.splits)
  then have "t' = t1" "exhaustedVerdict t1 = None" "withinLimits (bt_config t1) (getSnapshot now t1)"
    by (auto simp: isExhausted_def checkExhaustion_None_iff split: option.splits)
  then show ?thesis using recordSteps_False [OF t1(1)] t1(3) by simp
qed

text \<open>What a session has used: the totals of the ended turns and of the current one.\<close>

definition sessionTotals :: "ResourceBudgetTracker \<Rightarrow> rat \<times> rat \<times> rat \<times> nat" where
  "sessionTotals t = (cumulativeInputTokens t + turnInputTokens t, cumulativeOutputTokens t + turnOutputTokens t,
     cumulativeCacheReadTokens t + turnCacheReadTokens t, cumulativeStepCount t + turnStepCount t)"

text \<open>Steps are recorded inside turns.\<close>

fun wellTimed :: "bool \<Rightarrow> budget_event list \<Rightarrow> bool" where
  "wellTimed active [] = True"
| "wellTimed active (e # es) =
     (case e of
        EvStart _ \<Rightarrow> wellTimed True es
      | EvEnd _ \<Rightarrow> wellTimed False es
      | EvStep _ _ \<Rightarrow> active \<and> wellTimed active es
      | _ \<Rightarrow> wellTimed active es)"

definition idleZero :: "bool \<Rightarrow> ResourceBudgetTracker \<Rightarrow> bool" where
  "idleZero active t \<longleftrightarrow> (turnStartMs t \<noteq> None \<longleftrightarrow> active) \<and>
     (\<not> active \<longrightarrow> turnInputTokens t = 0 \<and> turnOutputTokens t = 0 \<and> turnCacheReadTokens t = 0 \<and> turnStepCount t = 0)"

definition addTotals :: "rat \<times> rat \<times> rat \<times> nat \<Rightarrow> step_usage list \<Rightarrow> rat \<times> rat \<times> rat \<times> nat" where
  "addTotals x us = (case x of (i, out, c, n) \<Rightarrow>
     (i + sum_list (map (orZero \<circ> inputTokens) us), out + sum_list (map (orZero \<circ> outputTokens) us),
      c + sum_list (map (orZero \<circ> cacheReadTokens) us), n + length us))"

lemma startTurn_totals:
  assumes "idleZero active t"
  shows "sessionTotals (startTurn now t) = sessionTotals t \<and> idleZero True (startTurn now t)"
  using assms by (cases "turnStartMs t")
    (auto simp: idleZero_def sessionTotals_def startTurn_def endTurn_def resetTurnCounters_def)

lemma endTurn_totals:
  assumes "idleZero active t"
  shows "sessionTotals (endTurn now t) = sessionTotals t \<and> idleZero False (endTurn now t)"
  using assms by (cases "turnStartMs t")
    (auto simp: idleZero_def sessionTotals_def endTurn_def resetTurnCounters_def)

lemma recordStep_totals:
  "sessionTotals (fst (recordStep tx now u t)) =
     addTotals (sessionTotals t) (if exhaustedVerdict t = None then [u] else []) \<and>
   turnStartMs (fst (recordStep tx now u t)) = turnStartMs t"
  by (cases rule: recordStep_cases [where t = t and tx = tx and now = now and u = u])
    (simp_all add: addTotals_def sessionTotals_def budget_simps addUsage_def)

lemma check_drain_totals:
  "sessionTotals (fst (isExhausted tx now t)) = sessionTotals t"
  "sessionTotals (fst (getActiveWarnings t)) = sessionTotals t"
  "idleZero active (fst (isExhausted tx now t)) = idleZero active t"
  "idleZero active (fst (getActiveWarnings t)) = idleZero active t"
  by (simp_all add: sessionTotals_def idleZero_def isExhausted_def getActiveWarnings_def split: option.splits)

lemma addTotals_append: "addTotals (addTotals x us) vs = addTotals x (us @ vs)"
  by (simp add: addTotals_def add.assoc split: prod.splits)

lemma addTotals_Nil [simp]: "addTotals x [] = x"
  by (simp add: addTotals_def split: prod.splits)

lemma runBudget_totals:
  assumes "idleZero active t" "wellTimed active es"
  shows "sessionTotals (runBudget tx t es) = addTotals (sessionTotals t) (countedUsage tx t es)"
  using assms
proof (induction es arbitrary: active t)
  case (Cons e es)
  show ?case
  proof (cases e)
    case (EvStart now)
    then show ?thesis using Cons.IH [of True] Cons.prems startTurn_totals [OF Cons.prems(1)]
      by simp
  next
    case (EvEnd now)
    then show ?thesis using Cons.IH [of False] Cons.prems endTurn_totals [OF Cons.prems(1)]
      by simp
  next
    case (EvStep now u)
    have "idleZero active (fst (recordStep tx now u t))"
      using Cons.prems EvStep recordStep_totals [of tx now u t] by (simp add: idleZero_def)
    moreover have "wellTimed active es"
      using Cons.prems(2) unfolding EvStep wellTimed.simps budget_event.case by (rule conjunct2)
    ultimately have "sessionTotals (runBudget tx (fst (recordStep tx now u t)) es) =
        addTotals (sessionTotals (fst (recordStep tx now u t))) (countedUsage tx (fst (recordStep tx now u t)) es)"
      by (rule Cons.IH)
    then show ?thesis using EvStep recordStep_totals [of tx now u t]
      by (simp add: addTotals_append del: addTotals_Nil)
  qed (use Cons in \<open>simp_all add: check_drain_totals\<close>)
qed simp

text \<open>The totals of the session are conserved: over any sequence of turns, steps, checks and reads, the
  cumulative snapshot is the sum of the usages counted, each exactly once, whatever turns they fell in
  and however often a turn was started or ended.\<close>

theorem session_totals_conserved:
  assumes "wellTimed False es" "t = runBudget tx (newResourceBudgetTracker c model) es"
    and "us = countedUsage tx (newResourceBudgetTracker c model) es"
  shows "cs_totalInputTokens (getCumulativeSnapshot now t) = sum_list (map (orZero \<circ> inputTokens) us) \<and>
    cs_totalOutputTokens (getCumulativeSnapshot now t) = sum_list (map (orZero \<circ> outputTokens) us) \<and>
    cs_stepCount (getCumulativeSnapshot now t) = length us"
proof -
  let ?t0 = "newResourceBudgetTracker c model"
  have "idleZero False ?t0" by (simp add: idleZero_def newResourceBudgetTracker_def)
  from runBudget_totals [OF this assms(1)] have "sessionTotals t = addTotals (sessionTotals ?t0) us"
    unfolding assms(2,3) .
  then show ?thesis
    by (simp add: sessionTotals_def addTotals_def getCumulativeSnapshot_def Let_def newResourceBudgetTracker_def)
qed

text \<open>A verdict is latched for the rest of the turn, and with it the totals: later steps of the turn,
  whose tokens the model provider does charge, are not counted any more, neither in the turn nor in
  the session.\<close>

theorem latched_until_next_turn:
  assumes "exhaustedVerdict t = Some v" "list_all (\<lambda>e. \<not> isStart e) es" "idleZero active t" "wellTimed active es"
  shows "snd (isExhausted tx now (runBudget tx t es)) = Some v \<and> sessionTotals (runBudget tx t es) = sessionTotals t"
proof -
  have keep: "exhaustedVerdict (budgetStep tx t e) = Some v"
    if "exhaustedVerdict t = Some v" "\<not> isStart e" for t e
    using that by (cases e)
      (auto simp: isStart_def recordStep_def isExhausted_def getActiveWarnings_def endTurn_def
        resetTurnCounters_def split: option.splits)
  have run: "exhaustedVerdict (runBudget tx t es) = Some v \<and> countedUsage tx t es = []"
    using assms(1,2)
  proof (induction es arbitrary: t)
    case (Cons e es)
    then show ?case using keep by (auto split: budget_event.splits)
  qed simp
  then show ?thesis using runBudget_totals [OF assms(3,4), of tx] by (simp add: isExhausted_def)
qed

text \<open>Warnings: what is pending or was handed out in a turn names each dimension once.\<close>

lemma maybeWarn_warned:
  assumes "distinct (map wv_dimension (ws @ pendingWarnings t))"
    "wv_dimension ` set (ws @ pendingWarnings t) = warnedDimensions t"
  shows "distinct (map wv_dimension (ws @ pendingWarnings (maybeWarn d l c s f t))) \<and>
    wv_dimension ` set (ws @ pendingWarnings (maybeWarn d l c s f t)) = warnedDimensions (maybeWarn d l c s f t)"
proof (cases "\<exists>m. l = Some m \<and> d \<notin> warnedDimensions t \<and> c / m \<ge> warnThresholdPercent (bt_config t) / 100 \<and> c / m < 1")
  case True
  then obtain m where m: "l = Some m" "d \<notin> warnedDimensions t" "c / m \<ge> warnThresholdPercent (bt_config t) / 100" "c / m < 1"
    by blast
  have "d \<notin> wv_dimension ` set (ws @ pendingWarnings t)" using assms(2) m(2) by blast
  then show ?thesis using assms m by (auto simp: maybeWarn_def Let_def)
next
  case False
  then have "maybeWarn d l c s f t = t" by (auto simp: maybeWarn_def Let_def split: option.splits)
  then show ?thesis using assms by simp
qed

definition warnedOnce :: "BudgetWarningVerdict list \<Rightarrow> ResourceBudgetTracker \<Rightarrow> bool" where
  "warnedOnce ws t \<longleftrightarrow> distinct (map wv_dimension (ws @ pendingWarnings t)) \<and>
     wv_dimension ` set (ws @ pendingWarnings t) = warnedDimensions t"

lemma warnedOnce_maybeWarn: "warnedOnce ws t \<Longrightarrow> warnedOnce ws (maybeWarn d l c s f t)"
  using maybeWarn_warned [of ws t] by (simp add: warnedOnce_def)

lemma warnedOnce_cong:
  "pendingWarnings t' = pendingWarnings t \<Longrightarrow> warnedDimensions t' = warnedDimensions t \<Longrightarrow> warnedOnce ws t' = warnedOnce ws t"
  by (simp add: warnedOnce_def)

lemma warnedOnce_recordStep:
  assumes "warnedOnce ws t"
  shows "warnedOnce ws (fst (recordStep tx now u t))"
proof -
  have add: "warnedOnce ws (addUsage u t)" "warnedOnce ws ((addUsage u t)\<lparr>exhaustedVerdict := v\<rparr>)" for v
    using assms by (simp_all add: warnedOnce_def addUsage_def)
  show ?thesis
    by (cases rule: recordStep_cases [where t = t and tx = tx and now = now and u = u])
      (simp_all add: add assms checkWarnings_def Let_def warnedOnce_maybeWarn)
qed

lemma warnedOnce_step:
  assumes "warnedOnce ws t" "\<not> isStart e"
  shows "warnedOnce (ws @ (if e = EvDrain then snd (getActiveWarnings t) else [])) (budgetStep tx t e)"
  using assms warnedOnce_recordStep [of ws t]
  by (cases e)
    (auto simp: isStart_def isExhausted_def getActiveWarnings_def endTurn_def resetTurnCounters_def warnedOnce_def
      split: option.splits)

text \<open>Each dimension warns at most once per turn, however often the warnings are read and the usage is
  evaluated.\<close>

theorem one_warning_per_dimension:
  assumes "list_all (\<lambda>e. \<not> isStart e) es"
  shows "distinct (map wv_dimension
    (drainedWarnings tx (startTurn now t) es @ pendingWarnings (runBudget tx (startTurn now t) es)))"
proof -
  have "warnedOnce ws t \<Longrightarrow> warnedOnce (ws @ drainedWarnings tx t es) (runBudget tx t es)" for ws t
    using assms
  proof (induction es arbitrary: ws t)
    case (Cons e es)
    have "\<not> isStart e" "list_all (\<lambda>e. \<not> isStart e) es" using Cons.prems(2) by simp_all
    from Cons.IH [OF warnedOnce_step [OF Cons.prems(1) this(1)] this(2)] show ?case by simp
  qed simp
  moreover have "warnedOnce [] (startTurn now t)" by (simp add: warnedOnce_def startTurn_def)
  ultimately show ?thesis unfolding warnedOnce_def by fastforce
qed

section \<open>The step limit\<close>

definition stepsBounded :: "budget_config \<Rightarrow> ResourceBudgetTracker \<Rightarrow> bool" where
  "stepsBounded c t \<longleftrightarrow> bt_config t = c \<and>
     (\<forall>m. maxSteps c = Some m \<longrightarrow>
        (exhaustedVerdict t = None \<and> turnStepCount t > 0 \<longrightarrow> of_nat (turnStepCount t) < m) \<and>
        (turnStepCount t \<le> 1 \<or> of_nat (turnStepCount t) < m + 1))"

lemma stepsBounded_budgetStep:
  assumes "stepsBounded c t"
  shows "stepsBounded c (budgetStep tx t e)"
proof (cases e)
  case (EvStep now u)
  then show ?thesis
  proof (cases rule: recordStep_cases [where t = t and tx = tx and now = now and u = u])
    case (Latched v)
    then show ?thesis using assms EvStep by (simp)
  next
    case (Exhausted v)
    then show ?thesis using assms EvStep by (auto simp: stepsBounded_def addUsage_def)
  next
    case Within
    then show ?thesis using assms EvStep
      by (auto simp: stepsBounded_def budget_simps addUsage_def withinLimits_def getSnapshot_def)
  qed
qed (use assms in \<open>auto simp: stepsBounded_def startTurn_def endTurn_def resetTurnCounters_def isExhausted_def
  getActiveWarnings_def split: option.splits\<close>)

interpretation budget: invariant_machine "budgetStep tx" "stepsBounded c" "newResourceBudgetTracker c model" for tx c model
proof unfold_locales
  show "stepsBounded c (newResourceBudgetTracker c model)" by (simp add: stepsBounded_def newResourceBudgetTracker_def)
qed (rule stepsBounded_budgetStep)

text \<open>No turn takes more steps than its limit: in every state a session can reach, with a step limit of
  at least one, the steps of the current turn are fewer than the limit plus one, so for a whole number
  they never exceed it.\<close>

theorem turn_steps_bounded:
  assumes "maxSteps c = Some m" "1 \<le> m"
  shows "of_nat (turnStepCount (runBudget tx (newResourceBudgetTracker c model) es)) < m + 1"
proof -
  let ?n = "turnStepCount (runBudget tx (newResourceBudgetTracker c model) es)"
  have "stepsBounded c (runBudget tx (newResourceBudgetTracker c model) es)" by (rule budget.inv_run)
  then have "?n \<le> 1 \<or> of_nat ?n < m + 1" using assms(1) unfolding stepsBounded_def by blast
  moreover have "?n \<le> 1 \<Longrightarrow> (of_nat ?n :: rat) \<le> 1" by simp
  ultimately show ?thesis using assms(2) by linarith
qed

section \<open>Witnesses\<close>

definition demoText :: budget_text where
  "demoText = \<lparr>toLocale = (\<lambda>_. ''n''), toFixed2 = (\<lambda>_. ''c''), showNumber = (\<lambda>_. ''n'')\<rparr>"

definition demoBudget :: budget_config where
  "demoBudget = \<lparr>maxTotalTokens = Some 100, maxSteps = Some 3, maxSessionSeconds = Some 60, maxEstimatedCostUsd = None,
     warnThresholdPercent = 50\<rparr>"

abbreviation demoTracker :: ResourceBudgetTracker where
  "demoTracker \<equiv> newResourceBudgetTracker demoBudget ''gpt-4o''"

definition demoUsage :: step_usage where
  "demoUsage = \<lparr>inputTokens = Some 30, outputTokens = Some 5, cacheReadTokens = None\<rparr>"

theorem record_step_enforces_witness:
  "snd (recordStep demoText 1 demoUsage (startTurn 0 demoTracker)) = None"
proof -
  have "exhaustedVerdict (startTurn 0 demoTracker) = None" by (simp add: startTurn_def)
  moreover have "withinLimits (bt_config (startTurn 0 demoTracker)) (getSnapshot 1 (addUsage demoUsage (startTurn 0 demoTracker)))"
    by code_simp
  ultimately show ?thesis using record_step_enforces by blast
qed

theorem stop_condition_enforces_witness:
  "\<exists>t'. stopCondition demoText 1 [demoUsage, demoUsage] (1, startTurn 0 demoTracker) = ((2, t'), False) \<and>
     turnStepCount t' = 1 \<and> turnInputTokens t' = 30"
proof -
  let ?r = "stopCondition demoText 1 [demoUsage, demoUsage] (1, startTurn 0 demoTracker)"
  have split: "\<exists>n' t'. x = ((n', t'), False)" if "snd x = False" for x :: "(nat \<times> ResourceBudgetTracker) \<times> bool"
    using that by (cases x) auto
  have "snd ?r = False" by code_simp
  from split [OF this] obtain n' t' where r: "?r = ((n', t'), False)" by blast
  have "turnStepCount (startTurn 0 demoTracker) = 0" "turnInputTokens (startTurn 0 demoTracker) = 0"
    "sum_list (map (orZero \<circ> inputTokens) (drop 1 [demoUsage, demoUsage])) = 30" by code_simp+
  moreover have "length [demoUsage, demoUsage] = 2" by simp
  ultimately have "n' = 2 \<and> turnStepCount t' = 1 \<and> turnInputTokens t' = 30"
    using stop_condition_enforces [OF r] by (simp only:) (simp only: add_0 diff_Suc_1 numeral_2_eq_2 One_nat_def simp_thms)
  then show ?thesis using r by blast
qed

abbreviation demoEvents :: "budget_event list" where
  "demoEvents \<equiv> [EvStart 0, EvStep 1 demoUsage, EvEnd 2, EvStart 5, EvStep 6 demoUsage, EvDrain]"

theorem session_totals_conserved_witness:
  "cs_totalInputTokens (getCumulativeSnapshot 7 (runBudget demoText demoTracker demoEvents)) = 60"
proof -
  have us: "countedUsage demoText demoTracker demoEvents = [demoUsage, demoUsage]" by code_simp
  have "wellTimed False demoEvents" by simp
  from session_totals_conserved [OF this refl us [symmetric]] show ?thesis by (simp add: demoUsage_def orZero_def)
qed

theorem latched_until_next_turn_witness:
  "let t = runBudget demoText demoTracker [EvStart 0, EvCheck 60000] in
   sessionTotals (runBudget demoText t [EvStep 60001 demoUsage, EvEnd 60002]) = (0, 0, 0, 0)"
proof -
  let ?t = "runBudget demoText demoTracker [EvStart 0, EvCheck 60000]"
  have "Option.is_none (exhaustedVerdict ?t) = False" by code_simp
  then obtain v where v: "exhaustedVerdict ?t = Some v" by (auto simp: Option.is_none_def)
  have active: "idleZero True ?t" by code_simp
  have "list_all (\<lambda>e. \<not> isStart e) [EvStep 60001 demoUsage, EvEnd 60002]" by (simp add: isStart_def)
  from latched_until_next_turn [OF v this active] have
    "sessionTotals (runBudget demoText ?t [EvStep 60001 demoUsage, EvEnd 60002]) = sessionTotals ?t" by simp
  moreover have "sessionTotals ?t = (0, 0, 0, 0)" by code_simp
  ultimately show ?thesis by (simp only: Let_def)
qed

theorem one_warning_per_dimension_witness:
  "map wv_dimension (drainedWarnings demoText (startTurn 0 demoTracker) [EvStep 1 demoUsage, EvStep 2 demoUsage, EvDrain, EvDrain]) =
     [Tokens, Steps] \<and> distinct [Tokens, Steps]"
proof -
  let ?es = "[EvStep 1 demoUsage, EvStep 2 demoUsage, EvDrain, EvDrain]"
  have d: "map wv_dimension (drainedWarnings demoText (startTurn 0 demoTracker) ?es) = [Tokens, Steps]" by code_simp
  have "list_all (\<lambda>e. \<not> isStart e) ?es" by (simp add: isStart_def)
  from one_warning_per_dimension [OF this, of demoText 0 demoTracker] d show ?thesis by simp
qed

theorem turn_steps_bounded_witness:
  "(of_nat (turnStepCount (runBudget demoText demoTracker (EvStart 0 # replicate 9 (EvStep 1 demoUsage)))) :: rat) < 4"
  using turn_steps_bounded [of demoBudget 3 demoText "''gpt-4o''" "EvStart 0 # replicate 9 (EvStep 1 demoUsage)"]
  by (simp add: demoBudget_def)

end
