(* ===== verification/Agent_Session.thy ===== *)
theory Agent_Session
  imports Step_Loop_Detector Truncate_Result Resource_Budget
begin

text \<open>
  The built-in agent session (\<open>src/session/agent-session.ts\<close>) with its message compactor
  (\<open>src/session/message-compactor.ts\<close>): the life cycle of a session, a turn with its error path, and the
  \<open>execute_code\<close> tool with the budget, loop and truncation guards around the sandbox. The language
  model, the summariser and the sandbox are what the events report. Diagnostics are left out.
\<close>

section \<open>State\<close>

datatype session_status = SessInitializing | SessReady | SessProcessing | SessClosed

datatype chat_message = UserMessage string | ResponseMessage string | SummaryMessage string

record auto_compact_config =
  ac_enabled :: bool
  ac_thresholdTokens :: rat
  ac_keepRecentMessages :: nat

text \<open>The messages are a JavaScript array: a hole, which reads as undefined, is \<open>None\<close>.\<close>

record agent_session =
  as_status :: session_status
  as_messages :: "chat_message option list"
  as_turns :: nat
  as_sandbox :: bool
  as_detector :: StepLoopDetector
  as_tracker :: ResourceBudgetTracker
  as_lastStepInputTokens :: rat
  as_compactorTokens :: rat
  as_executed :: "string list"

text \<open>What stays fixed: the compaction settings, the size limit of a result, the text functions.\<close>

record session_config =
  sc_compact :: auto_compact_config
  sc_resultLimit :: int
  sc_runtime :: runtime
  sc_text :: budget_text
  sc_toFixed1 :: "rat \<Rightarrow> string"

definition newAgentSession :: "budget_config \<Rightarrow> string \<Rightarrow> agent_session" where
  "newAgentSession budget modelId =
     \<lparr>as_status = SessInitializing, as_messages = [], as_turns = 0, as_sandbox = False,
      as_detector = newStepLoopDetector None None, as_tracker = newResourceBudgetTracker budget modelId,
      as_lastStepInputTokens = 0, as_compactorTokens = 0, as_executed = []\<rparr>"

section \<open>The message compactor\<close>

definition MIN_MESSAGES_TO_COMPACT :: nat where
  "MIN_MESSAGES_TO_COMPACT = 4"

definition shouldCompact :: "auto_compact_config \<Rightarrow> rat \<Rightarrow> bool" where
  "shouldCompact c lastInputTokens =
     (if \<not> ac_enabled c then False else lastInputTokens > ac_thresholdTokens c)"

text \<open>The index at which \<open>compact\<close> splits the messages, \<open>None\<close> when there is nothing to compact.\<close>

definition compactSplit :: "auto_compact_config \<Rightarrow> 'a list \<Rightarrow> nat option" where
  "compactSplit c messages =
     (let keepCount = min (ac_keepRecentMessages c) (length messages);
          splitIndex = length messages - keepCount
      in if splitIndex < MIN_MESSAGES_TO_COMPACT then None else Some splitIndex)"

definition compactMessages :: "auto_compact_config \<Rightarrow> string \<Rightarrow> chat_message option list \<Rightarrow> chat_message option list option" where
  "compactMessages c summary messages =
     (case compactSplit c messages of
        None \<Rightarrow> None
      | Some splitIndex \<Rightarrow> Some (Some (SummaryMessage summary) # drop splitIndex messages))"

section \<open>Turns\<close>

datatype session_error = SessionClosedErr | SessionNotReadyErr session_status | BudgetExhaustedErr BudgetDimension string | OtherErr string

definition initializeSession :: "agent_session \<Rightarrow> agent_session" where
  "initializeSession s = s\<lparr>as_sandbox := True, as_status := SessReady\<rparr>"

definition requireReady :: "agent_session \<Rightarrow> session_error option" where
  "requireReady s =
     (if as_status s = SessClosed then Some SessionClosedErr
      else if as_status s \<noteq> SessReady then Some (SessionNotReadyErr (as_status s))
      else None)"

definition rotateAgentConversationId :: "agent_session \<Rightarrow> session_error + agent_session" where
  "rotateAgentConversationId s =
     (case requireReady s of
        Some e \<Rightarrow> Inl e
      | None \<Rightarrow> Inr (s\<lparr>as_messages := [], as_detector := resetDetector (as_detector s),
                       as_lastStepInputTokens := 0, as_compactorTokens := 0\<rparr>))"

text \<open>\<open>sendMessage\<close> up to the first await; the returned number is \<open>messageCountBefore\<close>.\<close>

definition beginTurn :: "rat \<Rightarrow> string \<Rightarrow> agent_session \<Rightarrow> session_error + (agent_session \<times> nat)" where
  "beginTurn now userMessage s =
     (case requireReady s of
        Some e \<Rightarrow> Inl e
      | None \<Rightarrow> Inr (s\<lparr>as_tracker := startTurn now (as_tracker s), as_status := SessProcessing,
                       as_messages := as_messages s @ [Some (UserMessage userMessage)]\<rparr>,
                     length (as_messages s)))"

text \<open>The compaction at the start of a turn, with the summary the model wrote.\<close>

definition compactTurn :: "session_config \<Rightarrow> string \<Rightarrow> agent_session \<Rightarrow> agent_session" where
  "compactTurn cfg summary s =
     (if \<not> shouldCompact (sc_compact cfg) (as_compactorTokens s) then s
      else (case compactMessages (sc_compact cfg) summary (as_messages s) of
              None \<Rightarrow> s
            | Some messages \<Rightarrow> s\<lparr>as_messages := messages, as_compactorTokens := 0\<rparr>))"

definition finishStep :: "step_usage option \<Rightarrow> agent_session \<Rightarrow> agent_session" where
  "finishStep usage s =
     s\<lparr>as_lastStepInputTokens := (case usage of Some u \<Rightarrow> orZero (inputTokens u) | None \<Rightarrow> 0),
       as_tracker := fst (getActiveWarnings (as_tracker s))\<rparr>"

definition finishTurn :: "session_config \<Rightarrow> rat \<Rightarrow> string list \<Rightarrow> agent_session \<Rightarrow> agent_session" where
  "finishTurn cfg now responses s =
     s\<lparr>as_messages := as_messages s @ map (\<lambda>r. Some (ResponseMessage r)) responses,
       as_compactorTokens := as_lastStepInputTokens s, as_turns := as_turns s + 1, as_status := SessReady,
       as_tracker := endTurn now (fst (isExhausted (sc_text cfg) now (as_tracker s)))\<rparr>"

text \<open>\<open>array.length = n\<close>: a longer array is cut, a shorter one is extended with holes.\<close>

definition setLength :: "nat \<Rightarrow> 'a option list \<Rightarrow> 'a option list" where
  "setLength n xs = (if n \<le> length xs then take n xs else xs @ replicate (n - length xs) None)"

text \<open>The error path of \<open>sendMessage\<close>; \<open>None\<close> stands for an \<open>AbortError\<close>.\<close>

definition failTurn ::
  "session_config \<Rightarrow> rat \<Rightarrow> nat \<Rightarrow> string option \<Rightarrow> agent_session \<Rightarrow> agent_session \<times> session_error" where
  "failTurn cfg now messageCountBefore err s =
     (let s1 = s\<lparr>as_messages := setLength messageCountBefore (as_messages s), as_status := SessReady\<rparr>
      in case err of
           Some m \<Rightarrow> (s1\<lparr>as_tracker := endTurn now (as_tracker s1)\<rparr>, OtherErr m)
         | None \<Rightarrow>
             (let (t, v) = isExhausted (sc_text cfg) now (as_tracker s1)
              in (s1\<lparr>as_tracker := endTurn now t\<rparr>,
                  case v of
                    Some v \<Rightarrow> BudgetExhaustedErr (ev_dimension v) (ev_message v)
                  | None \<Rightarrow> BudgetExhaustedErr WallClock ''Session aborted: wall-clock time budget exceeded'')))"

definition closeSession :: "agent_session \<Rightarrow> agent_session" where
  "closeSession s = (if as_status s = SessClosed then s else s\<lparr>as_status := SessClosed, as_sandbox := False\<rparr>)"

section \<open>The execute_code tool\<close>

definition applyLoopVerdict :: "runtime \<Rightarrow> string \<Rightarrow> jsobj \<Rightarrow> agent_session \<Rightarrow> agent_session \<times> jsobj" where
  "applyLoopVerdict rt code out s =
     (let (d, verdict) = analyzeStep rt (as_detector s) code (JObj out);
          attach = (\<lambda>m. setProp out ''warning'' (JStr (case getProp out ''warning'' of
              JStr existing \<Rightarrow> (if existing \<noteq> [] then existing @ '' | '' @ m else m)
            | _ \<Rightarrow> m)))
      in (s\<lparr>as_detector := d\<rparr>,
          case verdict of StepAllow \<Rightarrow> out | StepWarn m _ \<Rightarrow> attach m | StepBlock m _ \<Rightarrow> attach m))"

definition truncationWarning :: "(rat \<Rightarrow> string) \<Rightarrow> TruncationResult \<Rightarrow> string" where
  "truncationWarning toFixed1 tr =
     ''Tool result truncated from '' @ formatKB toFixed1 (tr_originalSize tr) @ '' to '' @ formatKB toFixed1 (tr_finalSize tr) @
     ''. Use targeted reads (head/tail parameters) for specific portions.''"

definition toolOutput :: "session_config \<Rightarrow> string + (jsval \<times> string list) \<Rightarrow> jsobj" where
  "toolOutput cfg executed =
     (case executed of
        Inl message \<Rightarrow> [(''error'', JStr message)]
      | Inr (result, logs) \<Rightarrow>
          (let truncation = truncateResult (sc_runtime cfg) result (sc_resultLimit cfg)
           in (if logs \<noteq> [] then [(''console'', JArr (map JStr logs))] else []) @
              [(''result'', tr_value truncation)] @
              (if tr_truncated truncation then [(''warning'', JStr (truncationWarning (sc_toFixed1 cfg) truncation))] else [])))"

text \<open>The log \<open>as_executed\<close> holds the code that reached the sandbox; the last argument is what the sandbox
  does with the code. \<open>Inl\<close> is the exception of a session without a sandbox.\<close>

definition executeCode ::
  "session_config \<Rightarrow> rat \<Rightarrow> string \<Rightarrow> string + (jsval \<times> string list) \<Rightarrow> agent_session \<Rightarrow> agent_session \<times> (string + jsobj)" where
  "executeCode cfg now code executed s =
     (if \<not> as_sandbox s then (s, Inl ''Sandbox not initialized'')
      else let (t, budgetBlock) = isExhausted (sc_text cfg) now (as_tracker s);
               s1 = s\<lparr>as_tracker := t\<rparr>
           in case budgetBlock of
                Some v \<Rightarrow> (s1, Inr [(''error'', JStr (ev_message v))])
              | None \<Rightarrow>
                  (case isBlocked (as_detector s1) of
                     Some (m, _) \<Rightarrow> (s1, Inr [(''error'', JStr m)])
                   | None \<Rightarrow>
                       (let (s2, out) = applyLoopVerdict (sc_runtime cfg) code (toolOutput cfg executed)
                                          (s1\<lparr>as_executed := as_executed s1 @ [code]\<rparr>)
                        in (s2, Inr out))))"

section \<open>Steps\<close>

text \<open>What happens to a session, in any order; a turn's events carry its \<open>messageCountBefore\<close>.\<close>

datatype session_event =
    SeInitialize
  | SeRotate
  | SeSend rat string
  | SeCompact string
  | SeExecute rat string "string + (jsval \<times> string list)"
  | SeStepFinish "step_usage option"
  | SeStop rat "step_usage list" nat
  | SeFinish rat "string list"
  | SeFail rat nat "string option"
  | SeClose

definition sessionStep :: "session_config \<Rightarrow> agent_session \<Rightarrow> session_event \<Rightarrow> agent_session" where
  "sessionStep cfg s e =
     (case e of
        SeInitialize \<Rightarrow> initializeSession s
      | SeRotate \<Rightarrow> (case rotateAgentConversationId s of Inl _ \<Rightarrow> s | Inr s' \<Rightarrow> s')
      | SeSend now m \<Rightarrow> (case beginTurn now m s of Inl _ \<Rightarrow> s | Inr (s', _) \<Rightarrow> s')
      | SeCompact summary \<Rightarrow> compactTurn cfg summary s
      | SeExecute now code r \<Rightarrow> fst (executeCode cfg now code r s)
      | SeStepFinish u \<Rightarrow> finishStep u s
      | SeStop now steps n \<Rightarrow> s\<lparr>as_tracker := snd (fst (stopCondition (sc_text cfg) now steps (n, as_tracker s)))\<rparr>
      | SeFinish now rs \<Rightarrow> finishTurn cfg now rs s
      | SeFail now n err \<Rightarrow> fst (failTurn cfg now n err s)
      | SeClose \<Rightarrow> closeSession s)"

section \<open>Properties\<close>

text \<open>No code reaches the sandbox past a guard: when a call of the tool runs its code, the session has a
  sandbox, no budget verdict is latched, every limit of the budget is above the usage at that moment,
  and the loop detector has not blocked; the call runs that code once.\<close>

theorem code_runs_within_guards:
  assumes "executeCode cfg now code r s = (s', out)" "as_executed s' \<noteq> as_executed s"
  shows "as_executed s' = as_executed s @ [code] \<and> as_sandbox s \<and> exhaustedVerdict (as_tracker s) = None \<and>
    withinLimits (bt_config (as_tracker s)) (getSnapshot now (as_tracker s)) \<and> isBlocked (as_detector s) = None"
  using assms
  by (auto simp: executeCode_def isExhausted_def applyLoopVerdict_def checkExhaustion_None_iff Let_def
      split: if_splits option.splits prod.splits)

lemma executeCode_blocked:
  assumes "isBlocked (as_detector s) \<noteq> None"
  shows "as_executed (fst (executeCode cfg now code r s)) = as_executed s"
    and "as_detector (fst (executeCode cfg now code r s)) = as_detector s"
  using assms by (auto simp: executeCode_def Let_def split: option.splits prod.splits)

lemma sessionStep_blocked:
  assumes "isBlocked (as_detector s) \<noteq> None" "e \<noteq> SeRotate"
  shows "as_executed (sessionStep cfg s e) = as_executed s \<and> as_detector (sessionStep cfg s e) = as_detector s"
  using assms executeCode_blocked [OF assms(1)]
  by (cases e)
    (auto simp: sessionStep_def initializeSession_def beginTurn_def compactTurn_def finishStep_def finishTurn_def
      failTurn_def closeSession_def Let_def split: sum.splits option.splits prod.splits)

text \<open>A block of the loop detector is final for the conversation: whatever happens to the session
  afterwards, further turns included, no code runs until the conversation is rotated.\<close>

theorem block_stops_execution:
  assumes "isBlocked (as_detector s) \<noteq> None" "SeRotate \<notin> set es"
  shows "as_executed (foldl (sessionStep cfg) s es) = as_executed s"
proof -
  have "isBlocked (as_detector s) \<noteq> None \<Longrightarrow> SeRotate \<notin> set es \<Longrightarrow>
      as_executed (foldl (sessionStep cfg) s es) = as_executed s \<and> as_detector (foldl (sessionStep cfg) s es) = as_detector s"
    for s
  proof (induction es arbitrary: s)
    case (Cons e es)
    have "as_executed (sessionStep cfg s e) = as_executed s" "as_detector (sessionStep cfg s e) = as_detector s"
      using sessionStep_blocked [of s e cfg] Cons.prems by auto
    then show ?case using Cons.IH [of "sessionStep cfg s e"] Cons.prems by simp
  qed simp
  then show ?thesis using assms by blast
qed

text \<open>The events inside a turn.\<close>

definition withinTurn :: "session_event \<Rightarrow> bool" where
  "withinTurn e = (case e of SeExecute _ _ _ \<Rightarrow> True | SeStepFinish _ \<Rightarrow> True | SeStop _ _ _ \<Rightarrow> True | _ \<Rightarrow> False)"

lemma withinTurn_messages:
  assumes "withinTurn e"
  shows "as_messages (sessionStep cfg s e) = as_messages s \<and> as_turns (sessionStep cfg s e) = as_turns s"
  using assms
  by (cases e) (auto simp: withinTurn_def sessionStep_def executeCode_def applyLoopVerdict_def finishStep_def Let_def
      split: option.splits prod.splits)

lemma withinTurn_run:
  "list_all withinTurn es \<Longrightarrow>
   as_messages (foldl (sessionStep cfg) s es) = as_messages s \<and> as_turns (foldl (sessionStep cfg) s es) = as_turns s"
proof (induction es arbitrary: s)
  case (Cons e es)
  then show ?case using withinTurn_messages [of e cfg s] by simp
qed simp

lemma failTurn_fields:
  "as_messages (fst (failTurn cfg now n err s)) = setLength n (as_messages s)"
  "as_status (fst (failTurn cfg now n err s)) = SessReady" "as_turns (fst (failTurn cfg now n err s)) = as_turns s"
  by (simp_all add: failTurn_def Let_def split: option.splits prod.splits)

text \<open>A failed turn leaves no trace in the conversation: when the turn did not compact, the error path
  restores the messages from before the turn and the turn counter, and the session is ready again.\<close>

theorem failed_turn_restores:
  assumes "beginTurn now m s = Inr (s1, n)" "list_all withinTurn es"
    and "s2 = fst (failTurn cfg now' n err (foldl (sessionStep cfg) s1 es))"
  shows "as_messages s2 = as_messages s \<and> as_turns s2 = as_turns s \<and> as_status s2 = SessReady"
proof -
  have s1: "as_messages s1 = as_messages s @ [Some (UserMessage m)]" "as_turns s1 = as_turns s" "n = length (as_messages s)"
    using assms(1) by (auto simp: beginTurn_def split: option.splits)
  then show ?thesis using withinTurn_run [OF assms(2), of cfg s1] unfolding assms(3) failTurn_fields
    by (simp add: setLength_def)
qed

text \<open>A turn that compacts and then fails corrupts the conversation: the error path sets the length of
  the compacted array to the count from before the turn, which is longer, so the user message it means
  to remove stays, and behind it the array gets as many holes as the compaction removed, less two.\<close>

theorem failed_turn_after_compaction:
  assumes "beginTurn now m s = Inr (s1, n)" "shouldCompact (sc_compact cfg) (as_compactorTokens s1)"
    and "compactSplit (sc_compact cfg) (as_messages s1) = Some k" "0 < ac_keepRecentMessages (sc_compact cfg)"
    and "list_all withinTurn es"
    and "s2 = fst (failTurn cfg now' n err (foldl (sessionStep cfg) (compactTurn cfg summary s1) es))"
  shows "\<exists>kept. as_messages s2 =
      Some (SummaryMessage summary) # kept @ [Some (UserMessage m)] @ replicate (k - 2) None \<and> 2 \<le> k - 2"
proof -
  have s1: "as_messages s1 = as_messages s @ [Some (UserMessage m)]" "n = length (as_messages s)"
    using assms(1) by (auto simp: beginTurn_def split: option.splits)
  have c: "as_messages (compactTurn cfg summary s1) = Some (SummaryMessage summary) # drop k (as_messages s1)"
    using assms(2,3) by (simp add: compactTurn_def compactMessages_def)
  have k: "4 \<le> k" "k \<le> n"
    using assms(3,4) s1 by (auto simp: compactSplit_def MIN_MESSAGES_TO_COMPACT_def Let_def split: if_splits)
  have "drop k (as_messages s1) = drop k (as_messages s) @ [Some (UserMessage m)]" using s1 k(2) by simp
  moreover have "as_messages s2 = setLength n (Some (SummaryMessage summary) # drop k (as_messages s1))"
    unfolding assms(6) failTurn_fields using withinTurn_run [OF assms(5)] c by simp
  moreover have "n - (length (drop k (as_messages s1)) + 1) = k - 2" using s1 k by simp
  moreover have "length (drop k (as_messages s1)) + 1 < n" using s1 k by simp
  ultimately have "as_messages s2 =
      Some (SummaryMessage summary) # (drop k (as_messages s) @ [Some (UserMessage m)]) @ replicate (k - 2) None"
    by (simp add: setLength_def)
  then show ?thesis using k(1) by auto
qed

text \<open>Closing is not final: when a session is closed while a turn is in progress, the end of that turn
  sets the status back, so the closed session accepts messages again, without a sandbox.\<close>

theorem closed_session_reopens:
  assumes "beginTurn now m s = Inr (s1, n)"
  shows "requireReady (finishTurn cfg now' rs (closeSession s1)) = None \<and>
    requireReady (fst (failTurn cfg now' n err (closeSession s1))) = None \<and>
    \<not> as_sandbox (finishTurn cfg now' rs (closeSession s1))"
proof -
  have "as_status s1 = SessProcessing" using assms by (auto simp: beginTurn_def split: option.splits)
  then show ?thesis by (simp add: requireReady_def failTurn_fields finishTurn_def closeSession_def)
qed

text \<open>Compaction keeps the recent messages word for word, and makes the conversation shorter.\<close>

theorem compaction_keeps_recent:
  assumes "compactMessages c summary messages = Some messages'"
  shows "\<exists>old. messages = old @ tl messages' \<and> length (tl messages') = min (ac_keepRecentMessages c) (length messages) \<and>
    hd messages' = Some (SummaryMessage summary) \<and> length messages' + 3 \<le> length messages"
proof -
  obtain k where k: "compactSplit c messages = Some k" "messages' = Some (SummaryMessage summary) # drop k messages"
    using assms by (auto simp: compactMessages_def split: option.splits)
  then have "k = length messages - min (ac_keepRecentMessages c) (length messages)" "4 \<le> k"
    by (auto simp: compactSplit_def MIN_MESSAGES_TO_COMPACT_def Let_def split: if_splits)
  then show ?thesis using k(2) by (intro exI [of _ "take k messages"]) (auto simp: min_def)
qed

section \<open>Witnesses\<close>

definition demoSessionConfig :: session_config where
  "demoSessionConfig = \<lparr>sc_compact = \<lparr>ac_enabled = True, ac_thresholdTokens = 10, ac_keepRecentMessages = 2\<rparr>,
     sc_resultLimit = 100, sc_runtime = plainRuntime, sc_text = demoText, sc_toFixed1 = (\<lambda>_. ''n'')\<rparr>"

abbreviation demoSession :: "session_event list \<Rightarrow> agent_session" where
  "demoSession es \<equiv> foldl (sessionStep demoSessionConfig) (newAgentSession demoBudget ''gpt-4o'') es"

definition demoTurn :: "session_event list" where
  "demoTurn = [SeInitialize, SeSend 0 ''hi'', SeStepFinish (Some demoUsage), SeFinish 1 [''a'', ''b'', ''c'', ''d'', ''e'', ''f'']]"

theorem code_runs_within_guards_witness:
  "as_executed (fst (executeCode demoSessionConfig 1 ''f()'' (Inr (JNull, [])) (demoSession [SeInitialize, SeSend 0 ''hi'']))) = [''f()'']"
proof -
  let ?s = "demoSession [SeInitialize, SeSend 0 ''hi'']"
  let ?r = "executeCode demoSessionConfig 1 ''f()'' (Inr (JNull, [])) ?s"
  have "as_executed ?s = []" "as_executed (fst ?r) = [''f()'']" by code_simp+
  then show ?thesis using code_runs_within_guards [of demoSessionConfig 1 "''f()''" "Inr (JNull, [])" ?s "fst ?r" "snd ?r"] by simp
qed

definition demoLoop :: "session_event list" where
  "demoLoop = [SeInitialize, SeSend 0 ''hi''] @ replicate 6 (SeExecute 1 ''f()'' (Inr (JNull, [])))"

theorem block_stops_execution_witness:
  "length (as_executed (foldl (sessionStep demoSessionConfig) (demoSession demoLoop)
     [SeFinish 2 [], SeSend 3 ''again'', SeExecute 4 ''g()'' (Inr (JNull, []))])) = 6"
proof -
  have "Option.is_none (isBlocked (as_detector (demoSession demoLoop))) = False" by code_simp
  then have b: "isBlocked (as_detector (demoSession demoLoop)) \<noteq> None" by (auto simp: Option.is_none_def)
  have "SeRotate \<notin> set [SeFinish 2 [], SeSend 3 ''again'', SeExecute 4 ''g()'' (Inr (JNull, []))]" by simp
  from block_stops_execution [OF b this, of demoSessionConfig]
  have "as_executed (foldl (sessionStep demoSessionConfig) (demoSession demoLoop)
     [SeFinish 2 [], SeSend 3 ''again'', SeExecute 4 ''g()'' (Inr (JNull, []))]) = as_executed (demoSession demoLoop)" .
  moreover have "length (as_executed (demoSession demoLoop)) = 6" by code_simp
  ultimately show ?thesis by (simp only:)
qed

lemma beginTurn_ready:
  "as_status s = SessReady \<Longrightarrow>
   beginTurn now m s = Inr (s\<lparr>as_tracker := startTurn now (as_tracker s), as_status := SessProcessing,
     as_messages := as_messages s @ [Some (UserMessage m)]\<rparr>, length (as_messages s))"
  by (simp add: beginTurn_def requireReady_def)

lemma demoTurn_state:
  "as_status (demoSession demoTurn) = SessReady" "as_compactorTokens (demoSession demoTurn) = 30"
  "as_messages (demoSession demoTurn) =
     Some (UserMessage ''hi'') # map (\<lambda>r. Some (ResponseMessage r)) [''a'', ''b'', ''c'', ''d'', ''e'', ''f'']"
  by code_simp+

theorem failed_turn_restores_witness:
  "\<exists>s1 n. beginTurn 5 ''next'' (demoSession demoTurn) = Inr (s1, n) \<and>
     as_messages (fst (failTurn demoSessionConfig 6 n (Some ''boom'') s1)) = as_messages (demoSession demoTurn)"
proof -
  from beginTurn_ready [OF demoTurn_state(1)] obtain s1 n where b: "beginTurn 5 ''next'' (demoSession demoTurn) = Inr (s1, n)"
    by blast
  from failed_turn_restores [OF b, of "[]", OF _ refl, of demoSessionConfig 6 "Some ''boom''"] b show ?thesis by auto
qed

theorem failed_turn_after_compaction_witness:
  "\<exists>s1 n kept. beginTurn 5 ''next'' (demoSession demoTurn) = Inr (s1, n) \<and>
     as_messages (fst (failTurn demoSessionConfig 6 n (Some ''boom'') (compactTurn demoSessionConfig ''sum'' s1))) =
       Some (SummaryMessage ''sum'') # kept @ [Some (UserMessage ''next''), None, None, None, None]"
proof -
  note b = beginTurn_ready [OF demoTurn_state(1), of 5 "''next''"]
  let ?s1 = "(demoSession demoTurn)\<lparr>as_tracker := startTurn 5 (as_tracker (demoSession demoTurn)),
     as_status := SessProcessing, as_messages := as_messages (demoSession demoTurn) @ [Some (UserMessage ''next'')]\<rparr>"
  have "shouldCompact (sc_compact demoSessionConfig) (as_compactorTokens ?s1)"
    using demoTurn_state(2) by (simp add: shouldCompact_def demoSessionConfig_def)
  moreover have "compactSplit (sc_compact demoSessionConfig) (as_messages ?s1) = Some 6"
    unfolding agent_session.simps demoTurn_state(3) by code_simp
  moreover have "0 < ac_keepRecentMessages (sc_compact demoSessionConfig)" by (simp add: demoSessionConfig_def)
  ultimately have "\<exists>kept. as_messages (fst (failTurn demoSessionConfig 6 (length (as_messages (demoSession demoTurn))) (Some ''boom'')
      (foldl (sessionStep demoSessionConfig) (compactTurn demoSessionConfig ''sum'' ?s1) []))) =
      Some (SummaryMessage ''sum'') # kept @ [Some (UserMessage ''next'')] @ replicate (6 - 2) None \<and> 2 \<le> (6 - 2 :: nat)"
    by (intro failed_turn_after_compaction [OF b _ _ _ _ refl]) simp_all
  then show ?thesis unfolding b by (auto simp: numeral_eq_Suc)
qed

theorem closed_session_reopens_witness:
  "\<exists>s1 n. beginTurn 5 ''next'' (demoSession demoTurn) = Inr (s1, n) \<and>
     requireReady (finishTurn demoSessionConfig 6 [] (closeSession s1)) = None"
proof -
  from beginTurn_ready [OF demoTurn_state(1)] obtain s1 n where b: "beginTurn 5 ''next'' (demoSession demoTurn) = Inr (s1, n)"
    by blast
  from closed_session_reopens [OF b] b show ?thesis by blast
qed

theorem compaction_keeps_recent_witness:
  "\<exists>messages'. compactMessages (sc_compact demoSessionConfig) ''sum'' (as_messages (demoSession demoTurn)) = Some messages' \<and>
     length messages' + 3 \<le> 7"
proof -
  have len: "length (as_messages (demoSession demoTurn)) = 7" unfolding demoTurn_state(3) by simp
  then have "compactSplit (sc_compact demoSessionConfig) (as_messages (demoSession demoTurn)) = Some 5"
    by (simp add: compactSplit_def demoSessionConfig_def MIN_MESSAGES_TO_COMPACT_def)
  then obtain ms where ms: "compactMessages (sc_compact demoSessionConfig) ''sum'' (as_messages (demoSession demoTurn)) = Some ms"
    by (simp add: compactMessages_def)
  from compaction_keeps_recent [OF ms] ms len show ?thesis by auto
qed

end
