(* ===== verification/Egress_Address.thy ===== *)
theory Egress_Address
  imports Hash "HOL-Library.Word"
begin

text \<open>
  The destination policy of the package egress (\<open>src/docker/package-egress-address-policy.ts\<close>): the host
  name and every resolved address of a destination are screened before a connection leaves the
  machine. Addresses are bytes and 32-bit words. The conversion \<open>domainToASCII\<close> is a parameter, and so
  is what the resolver and the inventory of host addresses return.
\<close>

unbundle bit_operations_syntax

section \<open>Addresses\<close>

type_synonym byte = "8 word"

datatype ip_family = Family4 | Family6

record resolved_address =
  ra_address :: string
  ra_family :: ip_family

record nat64_prefix =
  np_prefix :: string
  np_length :: nat

datatype address_key = Key4 "32 word" | Key6 "byte list"

text \<open>Decimal and hexadecimal notation.\<close>

definition decValue :: "string \<Rightarrow> nat" where
  "decValue s = foldl (\<lambda>a c. 10 * a + (of_char c - 48)) 0 s"

definition isHexDigit :: "char \<Rightarrow> bool" where
  "isHexDigit c = (isDigit c \<or> (97 \<le> (of_char c :: nat) \<and> (of_char c :: nat) \<le> 102))"

definition hexValue :: "char \<Rightarrow> nat" where
  "hexValue c = (if isDigit c then of_char c - 48 else of_char c - 87)"

definition parseHex :: "string \<Rightarrow> nat" where
  "parseHex s = foldl (\<lambda>a c. 16 * a + hexValue c) 0 s"

fun toHex :: "nat \<Rightarrow> string" where
  "toHex n = (if n < 16 then [hexDigit n] else toHex (n div 16) @ [hexDigit (n mod 16)])"

declare toHex.simps [simp del]

text \<open>\<open>net.isIP\<close>: the dotted form has four decimal numbers up to 255 without leading zeros; the colon
  form has eight groups of one to four hexadecimal digits, the last two possibly in dotted form, with
  at most one run of groups left out. A zone is not accepted here: the code refuses a percent sign
  wherever it asks.\<close>

definition isDecOctet :: "string \<Rightarrow> bool" where
  "isDecOctet s = (s \<noteq> [] \<and> length s \<le> 3 \<and> list_all isDigit s \<and> (length s = 1 \<or> hd s \<noteq> CHR ''0'') \<and> decValue s \<le> 255)"

definition isIPv4 :: "string \<Rightarrow> bool" where
  "isIPv4 s = (let parts = splitOn (CHR ''.'') s in length parts = 4 \<and> list_all isDecOctet parts)"

definition isHexGroup :: "string \<Rightarrow> bool" where
  "isHexGroup s = (s \<noteq> [] \<and> length s \<le> 4 \<and> list_all (\<lambda>c. isHexDigit (toLowerChar c)) s)"

text \<open>\<open>s.split('::')\<close>.\<close>

fun splitDoubleColon :: "string \<Rightarrow> string list" where
  "splitDoubleColon [] = [[]]"
| "splitDoubleColon [c] = [[c]]"
| "splitDoubleColon (c # d # cs) =
     (if c = CHR '':'' \<and> d = CHR '':'' then [] # splitDoubleColon cs
      else (case splitDoubleColon (d # cs) of [] \<Rightarrow> [[c]] | y # ys \<Rightarrow> (c # y) # ys))"

text \<open>\<open>h ? h.split(':') : []\<close>.\<close>

definition colonParts :: "string \<Rightarrow> string list" where
  "colonParts h = (if h \<noteq> [] then splitOn (CHR '':'') h else [])"

definition groupCount :: "bool \<Rightarrow> string list \<Rightarrow> nat option" where
  "groupCount dotted parts =
     (if list_all isHexGroup parts then Some (length parts)
      else if dotted \<and> parts \<noteq> [] \<and> list_all isHexGroup (butlast parts) \<and> isIPv4 (last parts)
        then Some (length parts + 1)
      else None)"

fun atMostSeven :: "nat option \<Rightarrow> nat option \<Rightarrow> bool" where
  "atMostSeven (Some m) (Some n) = (m + n \<le> 7)"
| "atMostSeven None _ = False"
| "atMostSeven (Some m) None = False"

fun isIPv6Halves :: "string list \<Rightarrow> bool" where
  "isIPv6Halves [] = False"
| "isIPv6Halves [whole] = (groupCount True (colonParts whole) = Some 8)"
| "isIPv6Halves [l, r] = atMostSeven (groupCount False (colonParts l)) (groupCount True (colonParts r))"
| "isIPv6Halves (a # b # c # rest) = False"

definition isIPv6 :: "string \<Rightarrow> bool" where
  "isIPv6 s = isIPv6Halves (splitDoubleColon s)"

definition isIP :: "string \<Rightarrow> ip_family option" where
  "isIP s = (if isIPv4 s then Some Family4 else if isIPv6 s then Some Family6 else None)"

section \<open>Parsing\<close>

definition parseIpv4 :: "string \<Rightarrow> (32 word) option" where
  "parseIpv4 input =
     (if isIP input \<noteq> Some Family4 then None
      else let parts = map (\<lambda>p. of_nat (decValue p) :: 32 word) (splitOn (CHR ''.'') input)
           in if length parts \<noteq> 4 then None
              else Some (push_bit 24 (parts ! 0) OR push_bit 16 (parts ! 1) OR push_bit 8 (parts ! 2) OR parts ! 3))"

text \<open>The text before and after the last colon; without one, \<open>slice(0, -1)\<close> and the whole.\<close>

definition lastColonSplit :: "string \<Rightarrow> string \<times> string" where
  "lastColonSplit s =
     (let tailPart = rev (takeWhile (\<lambda>c. c \<noteq> CHR '':'') (rev s))
      in if length tailPart = length s then (dropEnd 1 s, s)
         else (take (length s - length tailPart - 1) s, tailPart))"

definition isWordText :: "string \<Rightarrow> bool" where
  "isWordText w = (w \<noteq> [] \<and> length w \<le> 4 \<and> list_all isHexDigit w)"

definition wordBytes :: "nat \<Rightarrow> byte list" where
  "wordBytes n = [of_nat (n div 256), of_nat (n mod 256)]"

definition expandWords :: "string list \<Rightarrow> string list option" where
  "expandWords halves =
     (if length halves > 2 then None
      else let left = colonParts (hd halves);
               right = (if length halves = 2 then colonParts (halves ! 1) else [])
           in if length halves = 1 \<and> length left \<noteq> 8 then None
              else if length halves = 2 \<and> length left + length right \<ge> 8 then None
              else Some (left @ replicate (if length halves = 2 then 8 - length left - length right else 0) ''0'' @ right))"

definition wordsToBytes :: "string list \<Rightarrow> byte list option" where
  "wordsToBytes ws =
     (if length ws \<noteq> 8 \<or> \<not> list_all isWordText ws then None
      else Some (concat (map (\<lambda>w. wordBytes (parseHex w)) ws)))"

definition dottedTail :: "string \<Rightarrow> string option" where
  "dottedTail normalized =
     (let (before, possibleV4) = lastColonSplit normalized
      in if strIncludes possibleV4 ''.'' then
           (case parseIpv4 possibleV4 of
              None \<Rightarrow> None
            | Some v4 \<Rightarrow> Some (before @ '':'' @ toHex (unat (drop_bit 16 v4 AND 0xFFFF)) @ '':'' @ toHex (unat (v4 AND 0xFFFF))))
         else Some normalized)"

definition parseIpv6 :: "string \<Rightarrow> byte list option" where
  "parseIpv6 input =
     (if strIncludes input ''%'' then None
      else case dottedTail (toLowerCase input) of
             None \<Rightarrow> None
           | Some normalized \<Rightarrow>
               (case expandWords (splitDoubleColon normalized) of
                  None \<Rightarrow> None
                | Some ws \<Rightarrow> wordsToBytes ws))"

definition addressKey :: "string \<Rightarrow> address_key option" where
  "addressKey address =
     (case parseIpv4 address of
        Some v \<Rightarrow> Some (Key4 v)
      | None \<Rightarrow> map_option Key6 (parseIpv6 address))"

definition formatIpv6 :: "byte list \<Rightarrow> string" where
  "formatIpv6 bytes =
     joinWith '':'' (map (\<lambda>i. toHex (256 * unat (bytes ! (2 * i)) + unat (bytes ! (2 * i + 1)))) [0..<8])"

section \<open>Prefixes\<close>

definition inV4 :: "32 word \<Rightarrow> 32 word \<Rightarrow> nat \<Rightarrow> bool" where
  "inV4 value network n =
     (let mask = (if n = 0 then 0 else push_bit (32 - n) 0xFFFFFFFF)
      in value AND mask = network AND mask)"

definition isPublicIpv4 :: "32 word \<Rightarrow> bool" where
  "isPublicIpv4 value =
     (\<not> (inV4 value 0x00000000 8 \<or> inV4 value 0x0a000000 8 \<or> inV4 value 0x64400000 10 \<or> inV4 value 0x7f000000 8 \<or>
         inV4 value 0xa9fe0000 16 \<or> inV4 value 0xac100000 12 \<or> inV4 value 0xc0000000 24 \<or> inV4 value 0xc0000200 24 \<or>
         inV4 value 0xc0586300 24 \<or> inV4 value 0xc0a80000 16 \<or> inV4 value 0xc6120000 15 \<or> inV4 value 0xc6336400 24 \<or>
         inV4 value 0xcb007100 24 \<or> inV4 value 0xe0000000 4 \<or> inV4 value 0xf0000000 4))"

text \<open>\<open>bytes[i] ?? 0\<close>.\<close>

definition byteAt :: "byte list \<Rightarrow> nat \<Rightarrow> byte" where
  "byteAt bytes i = (if i < length bytes then bytes ! i else 0)"

definition prefixMatches :: "byte list \<Rightarrow> byte list \<Rightarrow> nat \<Rightarrow> bool" where
  "prefixMatches address pfx n =
     (let whole = n div 8; remainder = n mod 8
      in list_all (\<lambda>i. byteAt address i = byteAt pfx i) [0..<whole] \<and>
         (remainder = 0 \<or>
          (let mask = push_bit (8 - remainder) 0xFF
           in byteAt address whole AND mask = byteAt pfx whole AND mask)))"

definition prefixBitsAreZero :: "byte list \<Rightarrow> nat \<Rightarrow> bool" where
  "prefixBitsAreZero bytes n =
     (let whole = n div 8; remainder = n mod 8
      in (remainder = 0 \<or> byteAt bytes whole AND (push_bit (8 - remainder) 1 - 1) = 0) \<and>
         list_all (\<lambda>b. b = 0) (drop ((n + 7) div 8) bytes))"

definition copyPrefixBits :: "byte list \<Rightarrow> nat \<Rightarrow> byte list" where
  "copyPrefixBits source n =
     (let whole = n div 8; remainder = n mod 8
      in take whole source @
         (if remainder \<noteq> 0 then [byteAt source whole AND push_bit (8 - remainder) 0xFF] else []) @
         replicate (16 - whole - (if remainder \<noteq> 0 then 1 else 0)) 0)"

section \<open>Embedded addresses\<close>

definition ipv4BytesToNumber :: "byte list \<Rightarrow> 32 word" where
  "ipv4BytesToNumber b =
     push_bit 24 (ucast (b ! 0)) OR push_bit 16 (ucast (b ! 1)) OR push_bit 8 (ucast (b ! 2)) OR ucast (b ! 3)"

definition allZero :: "byte list \<Rightarrow> bool" where
  "allZero bs = list_all (\<lambda>b. b = 0) bs"

definition ipv4Mapped :: "byte list \<Rightarrow> byte list option" where
  "ipv4Mapped bytes =
     (if allZero (take 10 bytes) \<and> bytes ! 10 = 0xFF \<and> bytes ! 11 = 0xFF then Some (take 4 (drop 12 bytes)) else None)"

definition ipv4Compatible :: "byte list \<Rightarrow> byte list option" where
  "ipv4Compatible bytes = (if \<not> allZero (take 12 bytes) then None else Some (take 4 (drop 12 bytes)))"

definition decodeRfc6052 :: "byte list \<Rightarrow> nat \<Rightarrow> byte list option" where
  "decodeRfc6052 bytes n =
     (if n = 96 then Some (take 4 (drop 12 bytes))
      else if bytes ! 8 \<noteq> 0 then None
      else if n = 32 then Some (take 4 (drop 4 bytes))
      else if n = 40 then Some [bytes ! 5, bytes ! 6, bytes ! 7, bytes ! 9]
      else if n = 48 then Some [bytes ! 6, bytes ! 7, bytes ! 9, bytes ! 10]
      else if n = 56 then Some [bytes ! 7, bytes ! 9, bytes ! 10, bytes ! 11]
      else if n = 64 then Some (take 4 (drop 9 bytes))
      else None)"

definition isIpv4OnlyDiscoveryValue :: "byte list \<Rightarrow> bool" where
  "isIpv4OnlyDiscoveryValue b = (b ! 0 = 192 \<and> b ! 1 = 0 \<and> b ! 2 = 0 \<and> (b ! 3 = 170 \<or> b ! 3 = 171))"

definition rfc6052SuffixIsZero :: "byte list \<Rightarrow> nat \<Rightarrow> bool" where
  "rfc6052SuffixIsZero bytes n =
     (let suffixStart = (if n = 96 then 16 else 9 + (n - 32) div 8) in allZero (drop suffixStart bytes))"

definition NAT64_PREFIX_LENGTHS :: "nat list" where
  "NAT64_PREFIX_LENGTHS = [32, 40, 48, 56, 64, 96]"

definition WELL_KNOWN_NAT64_PREFIX :: "byte list" where
  "WELL_KNOWN_NAT64_PREFIX = [0x00, 0x64, 0xff, 0x9b, 0, 0, 0, 0, 0, 0, 0, 0, 0, 0, 0, 0]"

definition LOCAL_USE_NAT64_PREFIX :: "byte list" where
  "LOCAL_USE_NAT64_PREFIX = [0x00, 0x64, 0xff, 0x9b, 0, 1, 0, 0, 0, 0, 0, 0, 0, 0, 0, 0]"

definition DENIED_GLOBAL_IPV6_PREFIXES :: "(byte list \<times> nat) list" where
  "DENIED_GLOBAL_IPV6_PREFIXES =
     [([0x20, 0x01, 0, 0, 0, 0, 0, 0, 0, 0, 0, 0, 0, 0, 0, 0], 23),
      ([0x20, 0x01, 0x0d, 0xb8, 0, 0, 0, 0, 0, 0, 0, 0, 0, 0, 0, 0], 32),
      ([0x26, 0x20, 0x00, 0x4f, 0x80, 0x00, 0, 0, 0, 0, 0, 0, 0, 0, 0, 0], 48),
      ([0x3f, 0xff, 0, 0, 0, 0, 0, 0, 0, 0, 0, 0, 0, 0, 0, 0], 20)]"

section \<open>The screen\<close>

definition embeddedIpv4IsPublic :: "address_key set \<Rightarrow> byte list \<Rightarrow> bool" where
  "embeddedIpv4IsPublic hostIdentities bytes =
     (if length bytes \<noteq> 4 then False
      else let value = ipv4BytesToNumber bytes in Key4 value \<notin> hostIdentities \<and> isPublicIpv4 value)"

text \<open>The first discovered prefix that matches.\<close>

definition matchingPrefix :: "(byte list \<times> nat) list \<Rightarrow> byte list \<Rightarrow> (byte list \<times> nat) option" where
  "matchingPrefix nat64Prefixes bytes = find (\<lambda>(p, n). prefixMatches bytes p n) nat64Prefixes"

definition publicIpv6 :: "address_key set \<Rightarrow> (byte list \<times> nat) list \<Rightarrow> byte list \<Rightarrow> bool" where
  "publicIpv6 ids nat64Prefixes bytes =
     (case (case ipv4Mapped bytes of Some m \<Rightarrow> Some m | None \<Rightarrow> ipv4Compatible bytes) of
        Some mapped \<Rightarrow> embeddedIpv4IsPublic ids mapped
      | None \<Rightarrow>
          (if prefixMatches bytes WELL_KNOWN_NAT64_PREFIX 96 then embeddedIpv4IsPublic ids (take 4 (drop 12 bytes))
           else if prefixMatches bytes LOCAL_USE_NAT64_PREFIX 48 then False
           else case matchingPrefix nat64Prefixes bytes of
             Some (p, n) \<Rightarrow>
               (case decodeRfc6052 bytes n of
                  None \<Rightarrow> False
                | Some decoded \<Rightarrow> rfc6052SuffixIsZero bytes n \<and> embeddedIpv4IsPublic ids decoded)
           | None \<Rightarrow>
               (if bytes ! 0 = 0x20 \<and> bytes ! 1 = 0x02 then embeddedIpv4IsPublic ids (take 4 (drop 2 bytes))
                else if bytes ! 0 = 0x20 \<and> bytes ! 1 = 0x01 \<and> bytes ! 2 = 0 \<and> bytes ! 3 = 0 then
                  embeddedIpv4IsPublic ids (take 4 (drop 4 bytes)) \<and>
                  embeddedIpv4IsPublic ids (map (\<lambda>b. b XOR 0xFF) (take 4 (drop 12 bytes)))
                else if bytes ! 0 AND 0xE0 \<noteq> 0x20 then False
                else \<not> list_ex (\<lambda>(p, n). prefixMatches bytes p n) DENIED_GLOBAL_IPV6_PREFIXES)))"

definition isPublicImmediateAddress :: "string \<Rightarrow> address_key set \<Rightarrow> (byte list \<times> nat) list \<Rightarrow> bool" where
  "isPublicImmediateAddress address hostIdentities nat64Prefixes =
     (case addressKey address of
        None \<Rightarrow> False
      | Some key \<Rightarrow>
          (if key \<in> hostIdentities then False
           else if isIP address = Some Family4 then
             (case parseIpv4 address of None \<Rightarrow> False | Some v \<Rightarrow> isPublicIpv4 v)
           else case parseIpv6 address of
                  None \<Rightarrow> False
                | Some bytes \<Rightarrow> publicIpv6 hostIdentities nat64Prefixes bytes))"

datatype egress_error =
    HostnameRejected string
  | EmptyAnswers
  | MalformedAnswer
  | InvalidNat64Prefix string nat
  | RejectedAnswer string
  | NoLongerAllowed
  | DiscoveryFailed string

definition forbiddenAuthorityChar :: "char \<Rightarrow> bool" where
  "forbiddenAuthorityChar c = ((of_char c :: nat) \<le> 0x20 \<or> c \<in> set (''/:?#@[]'' @ [CHR 0x5C]))"

definition isLowerAlnum :: "char \<Rightarrow> bool" where
  "isLowerAlnum c = (isDigit c \<or> (97 \<le> (of_char c :: nat) \<and> (of_char c :: nat) \<le> 122))"

definition isDnsLabel :: "string \<Rightarrow> bool" where
  "isDnsLabel l =
     (l \<noteq> [] \<and> length l \<le> 63 \<and> isLowerAlnum (hd l) \<and> isLowerAlnum (last l) \<and> list_all (\<lambda>c. isLowerAlnum c \<or> c = CHR ''-'') l)"

definition DENIED_HOST_SUFFIXES :: "string list" where
  "DENIED_HOST_SUFFIXES = [''.localhost'', ''.local'', ''.internal'', ''.docker.internal'']"

definition DENIED_HOSTS :: "string list" where
  "DENIED_HOSTS = [''localhost'', ''metadata.google.internal'']"

definition canonicalizePackageEgressHostname :: "(string \<Rightarrow> string) \<Rightarrow> string \<Rightarrow> egress_error + string" where
  "canonicalizePackageEgressHostname domainToASCII input =
     (if input = [] \<or> length input > 253 \<or> endsWith input ''.'' \<or> list_ex forbiddenAuthorityChar input then
        Inl (HostnameRejected ''package egress requires a canonical DNS hostname'')
      else if isIP input \<noteq> None then Inl (HostnameRejected ''package egress rejects IP-literal authorities'')
      else let ascii = domainToASCII input; canonical = toLowerCase ascii
           in if ascii = [] \<or> canonical \<noteq> input \<or> length canonical > 253 \<or> \<not> strIncludes canonical ''.'' then
                Inl (HostnameRejected ''package egress requires one lowercase canonical multi-label DNS hostname'')
              else if \<not> list_all isDnsLabel (splitOn (CHR ''.'') canonical) then
                Inl (HostnameRejected ''package egress rejects a malformed DNS hostname'')
              else if canonical \<in> set DENIED_HOSTS \<or> list_ex (endsWith canonical) DENIED_HOST_SUFFIXES then
                Inl (HostnameRejected ''package egress rejects local or metadata hostnames'')
              else Inr canonical)"

definition normalizeResolvedAddress :: "resolved_address \<Rightarrow> egress_error + resolved_address" where
  "normalizeResolvedAddress answer =
     (if isIP (ra_address answer) = None \<or> isIP (ra_address answer) \<noteq> Some (ra_family answer) \<or>
         strIncludes (ra_address answer) ''%'' then Inl MalformedAnswer
      else Inr \<lparr>ra_address = toLowerCase (ra_address answer), ra_family = ra_family answer\<rparr>)"

fun parseNat64Prefixes :: "nat64_prefix list \<Rightarrow> egress_error + (byte list \<times> nat) list" where
  "parseNat64Prefixes [] = Inr []"
| "parseNat64Prefixes (p # ps) =
     (case parseIpv6 (np_prefix p) of
        None \<Rightarrow> Inl (InvalidNat64Prefix (np_prefix p) (np_length p))
      | Some bytes \<Rightarrow>
          (if \<not> prefixBitsAreZero bytes (np_length p) then Inl (InvalidNat64Prefix (np_prefix p) (np_length p))
           else case parseNat64Prefixes ps of
                  Inl e \<Rightarrow> Inl e
                | Inr rest \<Rightarrow> Inr ((bytes, np_length p) # rest)))"

fun normalizeAnswers :: "resolved_address list \<Rightarrow> egress_error + resolved_address list" where
  "normalizeAnswers [] = Inr []"
| "normalizeAnswers (a # as) =
     (case normalizeResolvedAddress a of
        Inl e \<Rightarrow> Inl e
      | Inr a' \<Rightarrow> (case normalizeAnswers as of Inl e \<Rightarrow> Inl e | Inr as' \<Rightarrow> Inr (a' # as')))"

definition hostKeys :: "string list \<Rightarrow> address_key set" where
  "hostKeys identities = set (List.map_filter addressKey identities)"

record screened_destination =
  sd_hostname :: string
  sd_answers :: "resolved_address list"
  sd_selected :: resolved_address

definition screenPackageEgressDestination ::
  "(string \<Rightarrow> string) \<Rightarrow> string \<Rightarrow> resolved_address list \<Rightarrow> string list \<Rightarrow> nat64_prefix list \<Rightarrow>
   egress_error + screened_destination" where
  "screenPackageEgressDestination domainToASCII hostname answers hostIdentities nat64 =
     (case canonicalizePackageEgressHostname domainToASCII hostname of
        Inl e \<Rightarrow> Inl e
      | Inr canonical \<Rightarrow>
          (if answers = [] then Inl EmptyAnswers
           else case parseNat64Prefixes nat64 of
             Inl e \<Rightarrow> Inl e
           | Inr nat64Prefixes \<Rightarrow>
               (case normalizeAnswers answers of
                  Inl e \<Rightarrow> Inl e
                | Inr normalized \<Rightarrow>
                    (case find (\<lambda>a. \<not> isPublicImmediateAddress (ra_address a) (hostKeys hostIdentities) nat64Prefixes) normalized of
                       Some a \<Rightarrow> Inl (RejectedAnswer (ra_address a))
                     | None \<Rightarrow> Inr \<lparr>sd_hostname = canonical, sd_answers = normalized, sd_selected = hd normalized\<rparr>))))"

definition assertPackageEgressAddressStillAllowed ::
  "resolved_address \<Rightarrow> string list \<Rightarrow> nat64_prefix list \<Rightarrow> egress_error option" where
  "assertPackageEgressAddressStillAllowed selected hostIdentities nat64 =
     (case parseNat64Prefixes nat64 of
        Inl e \<Rightarrow> Some e
      | Inr nat64Prefixes \<Rightarrow>
          (if isPublicImmediateAddress (ra_address selected) (hostKeys hostIdentities) nat64Prefixes then None
           else Some NoLongerAllowed))"

section \<open>Discovery of NAT64 prefixes\<close>

definition discoveryCandidates :: "byte list \<Rightarrow> nat64_prefix list" where
  "discoveryCandidates bytes =
     concat (map (\<lambda>n. case decodeRfc6052 bytes n of
         None \<Rightarrow> []
       | Some decoded \<Rightarrow>
           (if isIpv4OnlyDiscoveryValue decoded \<and> rfc6052SuffixIsZero bytes n
            then [\<lparr>np_prefix = formatIpv6 (copyPrefixBits bytes n), np_length = n\<rparr>] else []))
       NAT64_PREFIX_LENGTHS)"

text \<open>The map keyed by prefix and length holds each candidate once, at its first position.\<close>

fun discoverFrom :: "resolved_address list \<Rightarrow> nat64_prefix list \<Rightarrow> egress_error + nat64_prefix list" where
  "discoverFrom [] discovered = Inr discovered"
| "discoverFrom (a # as) discovered =
     (if ra_family a = Family4 then discoverFrom as discovered
      else case parseIpv6 (ra_address a) of
             None \<Rightarrow> Inl (DiscoveryFailed ''NAT64 discovery returned a malformed IPv6 answer'')
           | Some bytes \<Rightarrow>
               (case discoveryCandidates bytes of
                  [c] \<Rightarrow> discoverFrom as (if c \<in> set discovered then discovered else discovered @ [c])
                | _ \<Rightarrow> Inl (DiscoveryFailed ''NAT64 discovery answer has an ambiguous RFC 6052 layout'')))"

definition discoverNat64Prefixes :: "resolved_address list \<Rightarrow> egress_error + nat64_prefix list" where
  "discoverNat64Prefixes answers = discoverFrom answers []"

end
