(* ===== verification/Egress_Address_Props.thy ===== *)
theory Egress_Address_Props
  imports Egress_Address
begin

text \<open>
  Properties of the destination policy of the package egress: the ranges it excludes, prefix matching
  bit by bit, the notation of addresses, the forms of embedded addresses, and what a destination that
  passes the screen is known to be.
\<close>

section \<open>Words and bytes\<close>

lemma masked_eq_iff_drop_bit:
  fixes v w :: "'a::len word"
  shows "v AND push_bit k (- 1) = w AND push_bit k (- 1) \<longleftrightarrow> drop_bit k v = drop_bit k w"
proof
  assume eq: "v AND push_bit k (- 1) = w AND push_bit k (- 1)"
  show "drop_bit k v = drop_bit k w"
  proof (rule bit_word_eqI)
    fix n assume "n < LENGTH('a)"
    have "bit (v AND push_bit k (- 1)) (k + n) = bit (w AND push_bit k (- 1)) (k + n)" using eq by simp
    then show "bit (drop_bit k v) n = bit (drop_bit k w) n"
      by (auto simp: bit_simps dest: bit_imp_le_length)
  qed
next
  assume eq: "drop_bit k v = drop_bit k w"
  show "v AND push_bit k (- 1) = w AND push_bit k (- 1)"
  proof (rule bit_word_eqI)
    fix n assume n: "n < LENGTH('a)"
    have "k \<le> n \<Longrightarrow> bit v n = bit w n"
      using arg_cong [OF eq, of "\<lambda>x. bit x (n - k)"] by (simp add: bit_simps)
    then show "bit (v AND push_bit k (- 1)) n = bit (w AND push_bit k (- 1)) n" by (auto simp: bit_simps)
  qed
qed

lemma drop_bit_eq_iff_unat_div:
  fixes v w :: "'a::len word"
  shows "drop_bit k v = drop_bit k w \<longleftrightarrow> unat v div 2 ^ k = unat w div 2 ^ k"
  unfolding word_unat_eq_iff unat_drop_bit_eq unfolding drop_bit_eq_div ..

lemma inV4_iff:
  assumes "n \<le> 32" "0 < n"
  shows "inV4 v net n \<longleftrightarrow> unat v div 2 ^ (32 - n) = unat net div 2 ^ (32 - n)"
proof -
  have ones: "(0xFFFFFFFF :: 32 word) = - 1" by simp
  have "(if n = 0 then 0 else push_bit (32 - n) (0xFFFFFFFF :: 32 word)) = push_bit (32 - n) (- 1)"
    unfolding ones using assms(2) by simp
  then show ?thesis unfolding inV4_def Let_def masked_eq_iff_drop_bit drop_bit_eq_iff_unat_div
    by (simp only: masked_eq_iff_drop_bit drop_bit_eq_iff_unat_div)
qed

text \<open>The special-purpose blocks, first and last address.\<close>

definition nonPublicRanges :: "(nat \<times> nat) list" where
  "nonPublicRanges =
     [(0x00000000, 0x00FFFFFF), (0x0A000000, 0x0AFFFFFF), (0x64400000, 0x647FFFFF), (0x7F000000, 0x7FFFFFFF),
      (0xA9FE0000, 0xA9FEFFFF), (0xAC100000, 0xAC1FFFFF), (0xC0000000, 0xC00000FF), (0xC0000200, 0xC00002FF),
      (0xC0586300, 0xC05863FF), (0xC0A80000, 0xC0A8FFFF), (0xC6120000, 0xC613FFFF), (0xC6336400, 0xC63364FF),
      (0xCB007100, 0xCB0071FF), (0xE0000000, 0xEFFFFFFF), (0xF0000000, 0xFFFFFFFF)]"

lemma div_eq_range: "0 < d \<Longrightarrow> (x :: nat) div d = q \<longleftrightarrow> q * d \<le> x \<and> x \<le> q * d + (d - 1)"
proof -
  assume d: "0 < d"
  have "x div d = q \<longleftrightarrow> q * d \<le> x \<and> x < Suc q * d" using div_nat_eqI [of d q x] d
    by (metis div_less_iff_less_mult less_eq_div_iff_mult_less_eq less_Suc_eq_le order_antisym_conv order_refl)
  then show ?thesis using d by auto
qed

lemma isPublicIpv4_outside:
  "isPublicIpv4 v \<longleftrightarrow> list_all (\<lambda>(lo, hi). \<not> (lo \<le> unat v \<and> unat v \<le> hi)) nonPublicRanges"
  unfolding isPublicIpv4_def nonPublicRanges_def by (simp add: inV4_iff div_eq_range)

text \<open>The bit masks exclude exactly the special-purpose ranges: an IPv4 address counts as public if and
  only if it lies outside the fifteen blocks (this network, private, shared, loopback, link-local,
  protocol assignments, documentation, 6to4 relay, benchmarking, multicast, reserved).\<close>

theorem isPublicIpv4_ranges:
  "isPublicIpv4 v \<longleftrightarrow> list_all (\<lambda>(lo, hi). \<not> (lo \<le> unat v \<and> unat v \<le> hi)) nonPublicRanges"
  by (rule isPublicIpv4_outside)

section \<open>Prefixes, bit by bit\<close>

text \<open>The bits of an address, the most significant first.\<close>

definition bitsOf :: "byte list \<Rightarrow> bool list" where
  "bitsOf bytes = concat (map (\<lambda>b. map (\<lambda>k. bit b (7 - k)) [0..<8]) bytes)"

lemma length_bitsOf [simp]: "length (bitsOf bytes) = 8 * length bytes"
  by (induction bytes) (simp_all add: bitsOf_def)

lemma nth_bitsOf: "j < 8 * length bytes \<Longrightarrow> bitsOf bytes ! j = bit (bytes ! (j div 8)) (7 - j mod 8)"
proof (induction bytes arbitrary: j)
  case (Cons b bs)
  let ?h = "map (\<lambda>k. bit b (7 - k)) [0..<8]"
  have split: "bitsOf (b # bs) = ?h @ bitsOf bs" by (simp add: bitsOf_def)
  show ?case
  proof (cases "j < 8")
    case True
    then show ?thesis unfolding split by (simp add: nth_append)
  next
    case False
    then obtain i where i: "j = 8 + i" using le_Suc_ex [of 8 j] by auto
    then have "bitsOf bs ! i = bit (bs ! (i div 8)) (7 - i mod 8)" using Cons by simp
    then show ?thesis unfolding split i by (simp add: nth_append)
  qed
qed simp

lemma byte_eq_iff: "(a :: byte) = b \<longleftrightarrow> (\<forall>k < 8. bit a (7 - k) = bit b (7 - k))"
proof
  assume all: "\<forall>k < 8. bit a (7 - k) = bit b (7 - k)"
  show "a = b"
  proof (rule bit_word_eqI)
    fix n assume "n < LENGTH(8)"
    then have "n = 7 - (7 - n)" "7 - n < 8" by simp_all
    then show "bit a n = bit b n" using all by metis
  qed
qed simp

lemma byte_mask_iff:
  assumes "r < 8"
  shows "(a :: byte) AND push_bit (8 - r) 0xFF = b AND push_bit (8 - r) 0xFF \<longleftrightarrow> (\<forall>k < r. bit a (7 - k) = bit b (7 - k))"
proof -
  have "(0xFF :: byte) = - 1" by simp
  then have "a AND push_bit (8 - r) 0xFF = b AND push_bit (8 - r) 0xFF \<longleftrightarrow> drop_bit (8 - r) a = drop_bit (8 - r) b"
    by (simp only: masked_eq_iff_drop_bit)
  also have "\<dots> \<longleftrightarrow> (\<forall>k < r. bit a (7 - k) = bit b (7 - k))"
  proof
    assume eq: "drop_bit (8 - r) a = drop_bit (8 - r) b"
    show "\<forall>k < r. bit a (7 - k) = bit b (7 - k)"
    proof (intro allI impI)
      fix k assume k: "k < r"
      have "bit (drop_bit (8 - r) a) (r - 1 - k) = bit (drop_bit (8 - r) b) (r - 1 - k)" using eq by simp
      moreover have "8 - r + (r - 1 - k) = 7 - k" using k assms by simp
      ultimately show "bit a (7 - k) = bit b (7 - k)" by (simp add: bit_simps)
    qed
  next
    assume all: "\<forall>k < r. bit a (7 - k) = bit b (7 - k)"
    show "drop_bit (8 - r) a = drop_bit (8 - r) b"
    proof (rule bit_word_eqI)
      fix n assume "n < LENGTH(8)"
      show "bit (drop_bit (8 - r) a) n = bit (drop_bit (8 - r) b) n"
      proof (cases "n < r")
        case True
        then have "8 - r + n = 7 - (r - 1 - n)" "r - 1 - n < r" using assms by simp_all
        then have "bit a (8 - r + n) = bit b (8 - r + n)" using all by metis
        then show ?thesis by (simp add: bit_simps)
      next
        case False
        then have "\<not> 8 - r + n < LENGTH(8)" using assms by simp
        then show ?thesis by (auto simp: bit_simps dest: bit_imp_le_length)
      qed
    qed
  qed
  finally show ?thesis .
qed

text \<open>\<open>prefixMatches\<close> compares exactly the leading bits: two addresses of sixteen bytes match at a
  length if and only if their bit strings agree on that many leading bits.\<close>

theorem prefixMatches_leading_bits:
  assumes "length address = 16" "length pfx = 16" "n \<le> 128"
  shows "prefixMatches address pfx n \<longleftrightarrow> take n (bitsOf address) = take n (bitsOf pfx)"
proof -
  let ?same = "\<lambda>j. bit (address ! (j div 8)) (7 - j mod 8) = bit (pfx ! (j div 8)) (7 - j mod 8)"
  have whole: "byteAt address i = byteAt pfx i \<longleftrightarrow> (\<forall>k < 8. ?same (8 * i + k))" if "i < n div 8" for i
  proof -
    have "i < 16" using that assms(3) by presburger
    then show ?thesis using assms by (simp add: byteAt_def byte_eq_iff)
  qed
  have part: "byteAt address (n div 8) AND push_bit (8 - n mod 8) 0xFF = byteAt pfx (n div 8) AND push_bit (8 - n mod 8) 0xFF \<longleftrightarrow>
      (\<forall>k < n mod 8. ?same (8 * (n div 8) + k))" if "n mod 8 \<noteq> 0"
  proof -
    have "n div 8 < 16" using that assms(3) by presburger
    then show ?thesis using assms by (simp add: byteAt_def byte_mask_iff)
  qed
  have "prefixMatches address pfx n \<longleftrightarrow>
      (\<forall>i < n div 8. \<forall>k < 8. ?same (8 * i + k)) \<and> (\<forall>k < n mod 8. ?same (8 * (n div 8) + k))"
    using whole part by (auto simp: prefixMatches_def Let_def list_all_iff)
  also have "\<dots> \<longleftrightarrow> (\<forall>j < n. ?same j)"
  proof
    assume all: "(\<forall>i < n div 8. \<forall>k < 8. ?same (8 * i + k)) \<and> (\<forall>k < n mod 8. ?same (8 * (n div 8) + k))"
    have "?same j" if j: "j < n" for j
    proof -
      have split: "8 * (j div 8) + j mod 8 = j" by simp
      show ?thesis
      proof (cases "j div 8 < n div 8")
        case True
        have "j mod 8 < 8" by simp
        with all True have "?same (8 * (j div 8) + j mod 8)" by blast
        then show ?thesis unfolding split .
      next
        case False
        have "j div 8 \<le> n div 8" using j by (intro div_le_mono) simp
        with False have eq: "j div 8 = n div 8" by linarith
        have "8 * (n div 8) + n mod 8 = n" by simp
        with j split have r: "j mod 8 < n mod 8" unfolding eq by linarith
        from all r have "?same (8 * (n div 8) + j mod 8)" by blast
        then have "?same (8 * (j div 8) + j mod 8)" by (simp only: eq)
        then show ?thesis unfolding split .
      qed
    qed
    then show "\<forall>j < n. ?same j" by blast
  next
    assume all: "\<forall>j < n. ?same j"
    have "?same (8 * i + k)" if "i < n div 8" "k < 8" for i k
    proof -
      have "8 * i + k < n" using that by linarith
      then show ?thesis using all by blast
    qed
    moreover have "?same (8 * (n div 8) + k)" if "k < n mod 8" for k
    proof -
      have "8 * (n div 8) + n mod 8 = n" by simp
      with that have "8 * (n div 8) + k < n" by linarith
      then show ?thesis using all by blast
    qed
    ultimately show "(\<forall>i < n div 8. \<forall>k < 8. ?same (8 * i + k)) \<and> (\<forall>k < n mod 8. ?same (8 * (n div 8) + k))"
      by blast
  qed
  also have "\<dots> \<longleftrightarrow> take n (bitsOf address) = take n (bitsOf pfx)"
    using assms by (auto simp: list_eq_iff_nth_eq nth_bitsOf)
  finally show ?thesis .
qed

theorem prefixMatches_leading_bits_witness:
  "prefixMatches WELL_KNOWN_NAT64_PREFIX LOCAL_USE_NAT64_PREFIX 47 \<longleftrightarrow>
     take 47 (bitsOf WELL_KNOWN_NAT64_PREFIX) = take 47 (bitsOf LOCAL_USE_NAT64_PREFIX)"
  by (rule prefixMatches_leading_bits) (simp_all add: WELL_KNOWN_NAT64_PREFIX_def LOCAL_USE_NAT64_PREFIX_def)

section \<open>Notation\<close>

lemma hexValue_hexDigit [simp]: "n < 16 \<Longrightarrow> hexValue (hexDigit n) = n"
  by (auto simp: hexValue_def hexDigit_def isDigit_def)

lemma isHexDigit_hexDigit [simp]: "n < 16 \<Longrightarrow> isHexDigit (hexDigit n)"
  by (auto simp: isHexDigit_def hexDigit_def isDigit_def)

lemma parseHex_snoc [simp]: "parseHex (s @ [c]) = 16 * parseHex s + hexValue c"
  by (simp add: parseHex_def)

lemma parseHex_toHex [simp]: "parseHex (toHex n) = n"
proof (induction n rule: toHex.induct)
  case (1 n)
  show ?case
  proof (cases "n < 16")
    case True
    then show ?thesis using parseHex_snoc [of "[]" "hexDigit n"] by (simp add: toHex.simps [of n] parseHex_def)
  next
    case False
    then show ?thesis using 1 by (simp add: toHex.simps [of n])
  qed
qed

lemma toHex_digits: "list_all isHexDigit (toHex n)"
proof (induction n rule: toHex.induct)
  case (1 n)
  show ?case using 1 by (cases "n < 16") (simp_all add: toHex.simps [of n])
qed

lemma toHex_nonempty [simp]: "toHex n \<noteq> []"
  by (simp add: toHex.simps [of n])

lemma toHex_length: "0 < k \<Longrightarrow> n < 16 ^ k \<Longrightarrow> length (toHex n) \<le> k"
proof (induction k arbitrary: n)
  case (Suc k)
  show ?case
  proof (cases "n < 16")
    case False
    then have "0 < k" using Suc.prems by (cases k) simp_all
    moreover have "n div 16 < 16 ^ k" using Suc.prems by (simp add: less_mult_imp_div_less mult.commute)
    ultimately have "length (toHex (n div 16)) \<le> k" using Suc.IH by simp
    with False show ?thesis by (simp add: toHex.simps [of n])
  qed (simp add: toHex.simps [of n])
qed simp

lemma isHexDigit_not [simp]: "isHexDigit c \<Longrightarrow> c \<noteq> CHR '':'' \<and> c \<noteq> CHR ''.'' \<and> c \<noteq> CHR ''%''"
  by (auto simp: isHexDigit_def isDigit_def)

lemma toLowerChar_hex: "isHexDigit c \<Longrightarrow> toLowerChar c = c"
  by (auto simp: isHexDigit_def isDigit_def toLowerChar_def)

lemma toLowerChar_colon: "toLowerChar (CHR '':'') = CHR '':''"
  by (simp add: toLowerChar_def)

lemma splitDoubleColon_cons:
  "c \<noteq> CHR '':'' \<or> (s \<noteq> [] \<and> hd s \<noteq> CHR '':'') \<Longrightarrow> splitDoubleColon s = [s] \<Longrightarrow> splitDoubleColon (c # s) = [c # s]"
  by (cases s) auto

lemma splitDoubleColon_word:
  "CHR '':'' \<notin> set w \<Longrightarrow> splitDoubleColon s = [s] \<Longrightarrow> splitDoubleColon (w @ s) = [w @ s]"
proof (induction w)
  case (Cons c w)
  then have "splitDoubleColon (w @ s) = [w @ s]" "c \<noteq> CHR '':''" by auto
  then show ?case using splitDoubleColon_cons [of c "w @ s"] by simp
qed simp

lemma splitDoubleColon_joined:
  "\<forall>w \<in> set ws. w \<noteq> [] \<and> CHR '':'' \<notin> set w \<Longrightarrow> splitDoubleColon (joinWith '':'' ws) = [joinWith '':'' ws]"
proof (induction ws)
  case (Cons w ws)
  show ?case
  proof (cases ws)
    case Nil
    then show ?thesis using Cons.prems splitDoubleColon_word [of w "[]"] by simp
  next
    case (Cons v vs)
    let ?j = "joinWith '':'' ws"
    have j: "splitDoubleColon ?j = [?j]" using Cons.IH Cons.prems by simp
    obtain c v' where v: "v = c # v'" "c \<noteq> CHR '':''" using Cons.prems \<open>ws = v # vs\<close> by (cases v) auto
    then have "?j \<noteq> []" "hd ?j \<noteq> CHR '':''" using \<open>ws = v # vs\<close> by (cases vs; simp)+
    then have "splitDoubleColon (CHR '':'' # ?j) = [CHR '':'' # ?j]" using j splitDoubleColon_cons by blast
    then have "splitDoubleColon (w @ CHR '':'' # ?j) = [w @ CHR '':'' # ?j]"
      using splitDoubleColon_word Cons.prems by simp
    then show ?thesis using \<open>ws = v # vs\<close> by simp
  qed
qed simp

lemma set_joinWith: "set (joinWith [c] ws) \<subseteq> insert c (\<Union> (set ` set ws))"
proof (induction ws)
  case (Cons w ws)
  then show ?case by (cases ws) auto
qed simp

lemma strIncludes_single: "strIncludes s [c] \<longleftrightarrow> c \<in> set s"
  by (auto simp: sublist_def in_set_conv_decomp) 

lemma pairs_concat:
  "length b = 2 * n \<Longrightarrow> concat (map (\<lambda>i. [b ! (2 * i), b ! (2 * i + 1)]) [0..<n]) = b"
proof (induction n arbitrary: b)
  case (Suc n)
  let ?t = "take (2 * n) b" and ?f = "\<lambda>i. [b ! (2 * i), b ! (2 * i + 1)]"
  have taken: "concat (map (\<lambda>i. [?t ! (2 * i), ?t ! (2 * i + 1)]) [0..<n]) = ?t" using Suc by simp
  have agree: "map (\<lambda>i. [?t ! (2 * i), ?t ! (2 * i + 1)]) [0..<n] = map ?f [0..<n]"
    by (intro map_cong) auto
  have front: "concat (map ?f [0..<n]) = ?t" using taken unfolding agree .
  have whole: "?t @ ?f n = b"
    using Suc.prems by (intro nth_equalityI) (auto simp: nth_append less_Suc_eq)
  have "concat (map ?f [0..<Suc n]) = concat (map ?f [0..<n]) @ ?f n" by simp
  then show ?case by (simp only: front whole)
qed simp

definition hexWords :: "byte list \<Rightarrow> string list" where
  "hexWords b = map (\<lambda>i. toHex (256 * unat (b ! (2 * i)) + unat (b ! (2 * i + 1)))) [0..<8]"

lemma unat_byte [simp]: "unat (x :: byte) < 256"
  using unsigned_less [of x] by simp

lemma pair_bound: "256 * unat (x :: byte) + unat (y :: byte) < 65536"
  using unat_byte [of x] unat_byte [of y] by linarith

lemma hexWords_words: "w \<in> set (hexWords b) \<Longrightarrow> isWordText w"
  using toHex_length [of 4] pair_bound by (fastforce simp: hexWords_def isWordText_def toHex_digits)

lemma wordBytes_pair: "wordBytes (256 * unat (x :: byte) + unat (y :: byte)) = [x, y]"
proof -
  have "(256 * unat x + unat y) div 256 = unat x" "(256 * unat x + unat y) mod 256 = unat y"
    using unat_byte [of y] by (simp_all only: div_mult_self4 mod_mult_self4 div_less mod_less)
  then show ?thesis by (simp only: wordBytes_def of_nat_unat ucast_id) 
qed

lemma ipv6_format_parse_lemma:
  assumes "length b = 16"
  shows "parseIpv6 (formatIpv6 b) = Some b"
proof -
  let ?ws = "hexWords b" and ?s = "formatIpv6 b"
  have s: "?s = joinWith '':'' ?ws" by (simp add: formatIpv6_def hexWords_def)
  have word: "w \<noteq> [] \<and> list_all isHexDigit w" if "w \<in> set ?ws" for w
    using hexWords_words [OF that] by (simp add: isWordText_def)
  then have colon: "\<forall>w \<in> set ?ws. w \<noteq> [] \<and> CHR '':'' \<notin> set w" using isHexDigit_not by (fastforce simp: list_all_iff)
  have chars: "c = CHR '':'' \<or> isHexDigit c" if "c \<in> set ?s" for c
    using that set_joinWith [of "CHR '':''" ?ws] word unfolding s by (auto simp: list_all_iff)
  have "toLowerChar c = c" if "c \<in> set ?s" for c
    using chars [OF that] toLowerChar_hex [of c] toLowerChar_colon by blast
  then have lower: "toLowerCase ?s = ?s" unfolding toLowerCase_def by (intro map_idI)
  have clean: "CHR ''%'' \<notin> set ?s" "CHR ''.'' \<notin> set ?s" using chars isHexDigit_not by fastforce+
  have "set (snd (lastColonSplit ?s)) \<subseteq> set ?s"
    by (auto simp: lastColonSplit_def Let_def dest: set_takeWhileD)
  then have dotted: "dottedTail ?s = Some ?s"
    using clean unfolding dottedTail_def by (auto simp: strIncludes_single split: prod.splits)
  have len: "length ?ws = 8" by (simp add: hexWords_def)
  then have ne: "?ws \<noteq> []" by auto
  have "?s \<noteq> []" using ne colon unfolding s by (cases ?ws) (auto simp: neq_Nil_conv joinWith_hd)
  then have parts: "colonParts ?s = ?ws"
    using splitOn_joinWith [OF ne, of "CHR '':''"] colon unfolding s colonParts_def by auto
  have "splitDoubleColon ?s = [?s]" unfolding s by (rule splitDoubleColon_joined) (use colon in blast)
  then have expand: "expandWords (splitDoubleColon ?s) = Some ?ws"
    using parts len by (simp add: expandWords_def)
  have "concat (map (\<lambda>w. wordBytes (parseHex w)) ?ws) = concat (map (\<lambda>i. [b ! (2 * i), b ! (2 * i + 1)]) [0..<8])"
    by (simp add: hexWords_def comp_def wordBytes_pair del: upt_rec_numeral)
  also have "\<dots> = b" using assms by (intro pairs_concat) simp
  finally have "wordsToBytes ?ws = Some b"
    using len hexWords_words by (simp add: wordsToBytes_def list_all_iff)
  then show ?thesis using lower clean dotted expand by (simp add: parseIpv6_def strIncludes_single)
qed

text \<open>An address written out by \<open>formatIpv6\<close> is read back by \<open>parseIpv6\<close> as the same sixteen bytes.\<close>

theorem ipv6_format_parse:
  assumes "length b = 16"
  shows "parseIpv6 (formatIpv6 b) = Some b"
  using assms by (rule ipv6_format_parse_lemma)

theorem ipv6_format_parse_witness:
  "parseIpv6 (formatIpv6 WELL_KNOWN_NAT64_PREFIX) = Some WELL_KNOWN_NAT64_PREFIX"
  by (rule ipv6_format_parse) (simp add: WELL_KNOWN_NAT64_PREFIX_def)
section \<open>Embedded addresses\<close>

text \<open>The layouts of RFC 6052: the prefix, the address around the zero byte 8, a zero suffix.\<close>

definition embedRfc6052 :: "byte list \<Rightarrow> nat \<Rightarrow> byte list \<Rightarrow> byte list" where
  "embedRfc6052 p n v =
     (if n = 96 then take 12 p @ v
      else take (n div 8) p @ take (8 - n div 8) v @ [0] @ drop (8 - n div 8) v @ replicate (11 - n div 8) 0)"

lemma length_4_split: "length v = 4 \<Longrightarrow> \<exists>a b c d. v = [a, b, c, d]"
  by (auto simp: length_Suc_conv numeral_eq_Suc)

lemma nat64_lengths: "n \<in> set NAT64_PREFIX_LENGTHS \<longleftrightarrow> n = 32 \<or> n = 40 \<or> n = 48 \<or> n = 56 \<or> n = 64 \<or> n = 96"
  by (auto simp: NAT64_PREFIX_LENGTHS_def)

lemma length_embedRfc6052:
  "length p = 16 \<Longrightarrow> length v = 4 \<Longrightarrow> n \<in> set NAT64_PREFIX_LENGTHS \<Longrightarrow> length (embedRfc6052 p n v) = 16"
  by (auto simp: nat64_lengths embedRfc6052_def)

lemma prefixMatches_bytes:
  "n mod 8 = 0 \<Longrightarrow> length a = 16 \<Longrightarrow> length p = 16 \<Longrightarrow> n \<le> 128 \<Longrightarrow> prefixMatches a p n \<longleftrightarrow> take (n div 8) a = take (n div 8) p"
proof -
  assume as: "n mod 8 = 0" "length a = 16" "length p = 16" "n \<le> 128"
  have "n div 8 \<le> 16" using div_le_mono [OF as(4), of 8] by simp
  then show ?thesis using as by (auto simp: prefixMatches_def Let_def list_all_iff byteAt_def list_eq_iff_nth_eq)
qed

text \<open>An IPv4 address embedded under a prefix is decoded to itself at that prefix length, for each of
  the six lengths, and the result carries the prefix and a zero suffix.\<close>

theorem nat64_embed_decode:
  assumes "n \<in> set NAT64_PREFIX_LENGTHS" "length p = 16" "length v = 4"
  shows "decodeRfc6052 (embedRfc6052 p n v) n = Some v \<and>
    rfc6052SuffixIsZero (embedRfc6052 p n v) n \<and> prefixMatches (embedRfc6052 p n v) p n"
proof -
  obtain a b c d where v: "v = [a, b, c, d]" using length_4_split [OF assms(3)] by blast
  have match: "prefixMatches (embedRfc6052 p n v) p n"
    using assms length_embedRfc6052 [OF assms(2,3,1)]
    by (subst prefixMatches_bytes) (auto simp: nat64_lengths embedRfc6052_def)
  have "decodeRfc6052 (embedRfc6052 p n v) n = Some v \<and> rfc6052SuffixIsZero (embedRfc6052 p n v) n"
    using assms(1,2) unfolding nat64_lengths v
    by (elim disjE) (simp_all add: embedRfc6052_def decodeRfc6052_def rfc6052SuffixIsZero_def allZero_def nth_append list_all_iff)
  with match show ?thesis by blast
qed

theorem nat64_embed_decode_witness:
  "decodeRfc6052 (embedRfc6052 LOCAL_USE_NAT64_PREFIX 40 [192, 0, 2, 33]) 40 = Some [192, 0, 2, 33]"
  using nat64_embed_decode [of 40 LOCAL_USE_NAT64_PREFIX "[192, 0, 2, 33]"]
  by (simp add: nat64_lengths LOCAL_USE_NAT64_PREFIX_def)

text \<open>The address a packet to sixteen bytes is delivered to inside the IPv4 network: directly (mapped,
  compatible), through a translator (the well-known or a discovered prefix), or through a tunnel.\<close>

inductive carries :: "(byte list \<times> nat) list \<Rightarrow> byte list \<Rightarrow> byte list \<Rightarrow> bool" for ps where
  mapped: "length v = 4 \<Longrightarrow> carries ps (replicate 10 0 @ [0xFF, 0xFF] @ v) v"
| compatible: "length v = 4 \<Longrightarrow> carries ps (replicate 12 0 @ v) v"
| wellKnown: "length v = 4 \<Longrightarrow> carries ps (embedRfc6052 WELL_KNOWN_NAT64_PREFIX 96 v) v"
| discovered: "length v = 4 \<Longrightarrow> length p = 16 \<Longrightarrow> n \<in> set NAT64_PREFIX_LENGTHS \<Longrightarrow> hd p \<noteq> 0 \<Longrightarrow>
    matchingPrefix ps (embedRfc6052 p n v) = Some (p, n) \<Longrightarrow> carries ps (embedRfc6052 p n v) v"
| sixToFour: "length v = 4 \<Longrightarrow> length rest = 10 \<Longrightarrow> matchingPrefix ps ([0x20, 0x02] @ v @ rest) = None \<Longrightarrow>
    carries ps ([0x20, 0x02] @ v @ rest) v"
| teredoServer: "length v = 4 \<Longrightarrow> length flags = 4 \<Longrightarrow> length client = 4 \<Longrightarrow>
    matchingPrefix ps ([0x20, 0x01, 0, 0] @ v @ flags @ client) = None \<Longrightarrow>
    carries ps ([0x20, 0x01, 0, 0] @ v @ flags @ client) v"
| teredoClient: "length server = 4 \<Longrightarrow> length flags = 4 \<Longrightarrow> length v = 4 \<Longrightarrow>
    matchingPrefix ps ([0x20, 0x01, 0, 0] @ server @ flags @ map (\<lambda>b. b XOR 0xFF) v) = None \<Longrightarrow>
    carries ps ([0x20, 0x01, 0, 0] @ server @ flags @ map (\<lambda>b. b XOR 0xFF) v) v"

lemma not_low_block:
  "bytes ! 0 \<noteq> 0 \<Longrightarrow> length bytes = 16 \<Longrightarrow> ipv4Mapped bytes = None \<and> ipv4Compatible bytes = None \<and>
     \<not> prefixMatches bytes WELL_KNOWN_NAT64_PREFIX 96 \<and> \<not> prefixMatches bytes LOCAL_USE_NAT64_PREFIX 48"
  by (cases bytes) (auto simp: ipv4Mapped_def ipv4Compatible_def allZero_def prefixMatches_bytes
      WELL_KNOWN_NAT64_PREFIX_def LOCAL_USE_NAT64_PREFIX_def)

lemma xor_ff_ff [simp]: "(b XOR 0xFF) XOR 0xFF = (b :: byte)"
  by (simp add: xor.assoc)

lemma carried_screened:
  assumes "carries ps bytes v" "publicIpv6 ids ps bytes"
  shows "embeddedIpv4IsPublic ids v"
  using assms
proof (cases rule: carries.cases)
  case mapped
  then show ?thesis using assms(2) by (simp add: publicIpv6_def ipv4Mapped_def allZero_def nth_append list_all_iff)
next
  case compatible
  then show ?thesis using assms(2)
    by (simp add: publicIpv6_def ipv4Mapped_def ipv4Compatible_def allZero_def nth_append list_all_iff)
next
  case wellKnown
  have "prefixMatches bytes WELL_KNOWN_NAT64_PREFIX 96"
    using nat64_embed_decode [of 96 WELL_KNOWN_NAT64_PREFIX v] wellKnown
    by (simp add: nat64_lengths WELL_KNOWN_NAT64_PREFIX_def)
  moreover have "ipv4Mapped bytes = None" "ipv4Compatible bytes = None" "take 4 (drop 12 bytes) = v"
    using wellKnown
    by (simp_all add: ipv4Mapped_def ipv4Compatible_def embedRfc6052_def WELL_KNOWN_NAT64_PREFIX_def allZero_def)
  ultimately show ?thesis using assms(2) by (simp add: publicIpv6_def)
next
  case (discovered p n)
  have len: "length bytes = 16" using discovered length_embedRfc6052 by simp
  have "bytes ! 0 = p ! 0" using discovered by (auto simp: nat64_lengths embedRfc6052_def nth_append)
  then have "bytes ! 0 \<noteq> 0" using discovered by (cases p) auto
  note low = not_low_block [OF this len]
  have "decodeRfc6052 bytes n = Some v" using nat64_embed_decode discovered by blast
  then show ?thesis using assms(2) low discovered by (simp add: publicIpv6_def)
next
  case (sixToFour rest)
  then have low: "bytes ! 0 \<noteq> 0" "length bytes = 16" by simp_all
  show ?thesis using assms(2) not_low_block [OF low] sixToFour by (simp add: publicIpv6_def)
next
  case (teredoServer flags client)
  then have low: "bytes ! 0 \<noteq> 0" "length bytes = 16" by simp_all
  show ?thesis using assms(2) not_low_block [OF low] teredoServer by (simp add: publicIpv6_def)
next
  case (teredoClient server flags)
  then have low: "bytes ! 0 \<noteq> 0" "length bytes = 16" by simp_all
  have "map (\<lambda>b. b XOR 0xFF) (take 4 (drop 12 bytes)) = v" using teredoClient by (simp add: comp_def)
  then show ?thesis using assms(2) not_low_block [OF low] teredoClient by (simp add: publicIpv6_def)
qed

lemma carried_ipv4:
  assumes "carries ps bytes v" "publicIpv6 ids ps bytes"
  shows "Key4 (ipv4BytesToNumber v) \<notin> ids \<and>
    list_all (\<lambda>(lo, hi). \<not> (lo \<le> unat (ipv4BytesToNumber v) \<and> unat (ipv4BytesToNumber v) \<le> hi)) nonPublicRanges"
proof -
  have "Key4 (ipv4BytesToNumber v) \<notin> ids \<and> isPublicIpv4 (ipv4BytesToNumber v)"
    using carried_screened [OF assms] by (auto simp: embeddedIpv4IsPublic_def Let_def split: if_splits)
  then show ?thesis by (simp add: isPublicIpv4_outside)
qed

text \<open>What is left when no discovered prefix matches: the global unicast block or the low forms that
  carry an IPv4 address.\<close>

lemma admitted_blocks:
  assumes "length bytes = 16" "publicIpv6 ids ps bytes" "matchingPrefix ps bytes = None" "bytes ! 0 \<noteq> 0"
  shows "bytes ! 0 AND 0xE0 = 0x20"
  using not_low_block [OF assms(4,1)] assms(2,3) by (auto simp: publicIpv6_def split: if_splits)

section \<open>Discovery feeds the screen\<close>

lemma parseIpv6_length: "parseIpv6 s = Some b \<Longrightarrow> length b = 16"
proof -
  assume "parseIpv6 s = Some b"
  then obtain ws where "wordsToBytes ws = Some b" by (auto simp: parseIpv6_def split: if_splits option.splits)
  then have "length ws = 8" "b = concat (map (\<lambda>w. wordBytes (parseHex w)) ws)"
    by (auto simp: wordsToBytes_def split: if_splits)
  moreover have "length (concat (map (\<lambda>w. wordBytes (parseHex w)) ws)) = 2 * length ws"
    by (induction ws) (simp_all add: wordBytes_def)
  ultimately show ?thesis by simp
qed

lemmas notation_defs = isWordText_def wordBytes_def parseHex_def hexValue_def isHexDigit_def isDigit_def isHexGroup_def
  toLowerChar_def colonParts_def groupCount_def

lemma parseIpv6_steps:
  "CHR ''%'' \<notin> set s \<Longrightarrow> dottedTail (toLowerCase s) = Some t \<Longrightarrow> expandWords (splitDoubleColon t) = Some ws \<Longrightarrow>
   wordsToBytes ws = Some b \<Longrightarrow> parseIpv6 s = Some b"
  by (simp add: parseIpv6_def strIncludes_single)

lemma copyPrefixBits_whole:
  "n \<in> set NAT64_PREFIX_LENGTHS \<Longrightarrow> copyPrefixBits b n = take (n div 8) b @ replicate (16 - n div 8) 0"
  by (auto simp: nat64_lengths copyPrefixBits_def)

lemma copied_prefix:
  assumes "n \<in> set NAT64_PREFIX_LENGTHS" "length b = 16"
  shows "length (copyPrefixBits b n) = 16" "prefixBitsAreZero (copyPrefixBits b n) n"
  using assms unfolding copyPrefixBits_whole [OF assms(1)]
  by (auto simp: nat64_lengths prefixBitsAreZero_def list_all_iff)

definition validPrefix :: "nat64_prefix \<Rightarrow> bool" where
  "validPrefix p = (np_length p \<in> set NAT64_PREFIX_LENGTHS \<and>
     (case parseIpv6 (np_prefix p) of None \<Rightarrow> False | Some b \<Rightarrow> prefixBitsAreZero b (np_length p)))"

lemma candidates_valid:
  assumes "length b = 16" "c \<in> set (discoveryCandidates b)"
  shows "validPrefix c"
proof -
  obtain n where "n \<in> set NAT64_PREFIX_LENGTHS" "c = \<lparr>np_prefix = formatIpv6 (copyPrefixBits b n), np_length = n\<rparr>"
    using assms(2) by (auto simp: discoveryCandidates_def split: option.splits if_splits)
  then show ?thesis using copied_prefix [of n b] ipv6_format_parse_lemma [of "copyPrefixBits b n"] assms(1)
    by (simp add: validPrefix_def)
qed

lemma discoverFrom_valid:
  "list_all validPrefix found \<Longrightarrow> discoverFrom as found = Inr ps \<Longrightarrow> list_all validPrefix ps"
proof (induction as arbitrary: found)
  case (Cons a as)
  show ?case
  proof (cases "ra_family a = Family4")
    case False
    then obtain b c where b: "parseIpv6 (ra_address a) = Some b" and c: "discoveryCandidates b = [c]"
      using Cons.prems(2) by (auto split: option.splits list.splits)
    have "validPrefix c" using candidates_valid [OF parseIpv6_length [OF b]] c by simp
    then have "list_all validPrefix (if c \<in> set found then found else found @ [c])" using Cons.prems(1) by simp
    then show ?thesis using Cons.IH Cons.prems(2) False b c by simp
  qed (use Cons in simp)
qed simp

lemma valid_prefixes_parse:
  "list_all validPrefix ps \<Longrightarrow> \<exists>qs. parseNat64Prefixes ps = Inr qs \<and> map snd qs = map np_length ps"
proof (induction ps)
  case (Cons p ps)
  then obtain qs where "parseNat64Prefixes ps = Inr qs" "map snd qs = map np_length ps" by auto
  then show ?case using Cons.prems by (auto simp: validPrefix_def split: option.splits)
qed simp

text \<open>The prefixes that discovery returns are accepted by the screen: each has one of the six lengths,
  parses, and has no bits past its length, so the screen never fails on them.\<close>

theorem discovered_prefixes_accepted:
  assumes "discoverNat64Prefixes answers = Inr ps"
  shows "\<exists>qs. parseNat64Prefixes ps = Inr qs \<and> map snd qs = map np_length ps"
  using valid_prefixes_parse discoverFrom_valid [of "[]" answers ps] assms by (simp add: discoverNat64Prefixes_def)

abbreviation DISCOVERY_ANSWER :: resolved_address where
  "DISCOVERY_ANSWER \<equiv> \<lparr>ra_address = ''64:ff9b::c000:aa'', ra_family = Family6\<rparr>"

lemma four_zeros: "replicate 4 x = [x, x, x, x]"
  by (simp add: numeral_eq_Suc)

lemma discovery_answer:
  "discoverNat64Prefixes [DISCOVERY_ANSWER] =
     Inr [\<lparr>np_prefix = formatIpv6 WELL_KNOWN_NAT64_PREFIX, np_length = 96\<rparr>]"
proof -
  have "parseIpv6 ''64:ff9b::c000:aa'' = Some [0, 0x64, 0xff, 0x9b, 0, 0, 0, 0, 0, 0, 0, 0, 192, 0, 0, 170]"
  proof (rule parseIpv6_steps)
    show "dottedTail (toLowerCase ''64:ff9b::c000:aa'') = Some ''64:ff9b::c000:aa''" by code_simp
    show "expandWords (splitDoubleColon ''64:ff9b::c000:aa'') = Some [''64'', ''ff9b'', ''0'', ''0'', ''0'', ''0'', ''c000'', ''aa'']"
      by code_simp
    show "wordsToBytes [''64'', ''ff9b'', ''0'', ''0'', ''0'', ''0'', ''c000'', ''aa''] =
        Some [0, 0x64, 0xff, 0x9b, 0, 0, 0, 0, 0, 0, 0, 0, 192, 0, 0, 170]" by (simp add: notation_defs wordsToBytes_def)
  qed simp
  then have "parseIpv6 ''64:ff9b::c000:aa'' = Some (embedRfc6052 WELL_KNOWN_NAT64_PREFIX 96 [192, 0, 0, 170])"
    by (simp add: embedRfc6052_def WELL_KNOWN_NAT64_PREFIX_def)
  moreover have "discoveryCandidates (embedRfc6052 WELL_KNOWN_NAT64_PREFIX 96 [192, 0, 0, 170]) =
      [\<lparr>np_prefix = formatIpv6 WELL_KNOWN_NAT64_PREFIX, np_length = 96\<rparr>]"
    by (simp add: discoveryCandidates_def NAT64_PREFIX_LENGTHS_def decodeRfc6052_def embedRfc6052_def WELL_KNOWN_NAT64_PREFIX_def
        isIpv4OnlyDiscoveryValue_def rfc6052SuffixIsZero_def allZero_def copyPrefixBits_def four_zeros)
  ultimately show ?thesis by (simp add: discoverNat64Prefixes_def)
qed

theorem discovered_prefixes_accepted_witness:
  "\<exists>qs. parseNat64Prefixes [\<lparr>np_prefix = formatIpv6 WELL_KNOWN_NAT64_PREFIX, np_length = 96\<rparr>] = Inr qs \<and> map snd qs = [96]"
  using discovered_prefixes_accepted [OF discovery_answer] by simp

section \<open>The screen\<close>

lemma normalizeAnswers_props:
  "normalizeAnswers as = Inr bs \<Longrightarrow> map ra_family bs = map ra_family as \<and>
     map ra_address bs = map (toLowerCase \<circ> ra_address) as"
proof (induction as arbitrary: bs)
  case (Cons a as)
  then show ?case by (auto simp: normalizeResolvedAddress_def split: sum.splits if_splits)
qed simp

lemma screen_cases:
  assumes "screenPackageEgressDestination toAscii host answers ids nat64 = Inr d"
  obtains qs where "canonicalizePackageEgressHostname toAscii host = Inr (sd_hostname d)" "answers \<noteq> []"
    "parseNat64Prefixes nat64 = Inr qs" "normalizeAnswers answers = Inr (sd_answers d)" "sd_selected d = hd (sd_answers d)"
    "\<forall>a \<in> set (sd_answers d). isPublicImmediateAddress (ra_address a) (hostKeys ids) qs"
  using assms by (auto simp: screenPackageEgressDestination_def find_None_iff split: sum.splits if_splits option.splits)

lemma canonical_host:
  assumes "canonicalizePackageEgressHostname toAscii host = Inr h"
  shows "h = host \<and> isIP h = None \<and> length h \<le> 253 \<and> 2 \<le> length (splitOn (CHR ''.'') h) \<and>
     list_all isDnsLabel (splitOn (CHR ''.'') h) \<and> h \<notin> set DENIED_HOSTS \<and> \<not> list_ex (endsWith h) DENIED_HOST_SUFFIXES"
proof -
  have "2 \<le> length (splitOn (CHR ''.'') host)" if dot: "strIncludes host ''.''"
  proof -
    obtain x y where "host = x @ CHR ''.'' # y" using dot by (auto simp: sublist_def)
    moreover have "0 < length (splitOn (CHR ''.'') x)" "0 < length (splitOn (CHR ''.'') y)" by simp_all
    ultimately show ?thesis by (simp only: splitOn_append_sep length_append)
  qed
  then show ?thesis using assms
    by (auto simp: canonicalizePackageEgressHostname_def Let_def split: if_splits)
qed


lemma ipv4_chars: "isIPv4 t \<Longrightarrow> c \<in> set t \<Longrightarrow> isDigit c \<or> c = CHR ''.''"
proof -
  assume v4: "isIPv4 t" and c: "c \<in> set t"
  have "set t \<subseteq> insert (CHR ''.'') (\<Union> (set ` set (splitOn (CHR ''.'') t)))"
    using set_joinWith [of "CHR ''.''" "splitOn (CHR ''.'') t"] by simp
  then show ?thesis using v4 c by (auto simp: isIPv4_def Let_def isDecOctet_def list_all_iff)
qed

lemma toLowerChar_digit: "isDigit (toLowerChar c) \<or> toLowerChar c = CHR ''.'' \<Longrightarrow> toLowerChar c = c"
proof (cases "65 \<le> (of_char c :: nat) \<and> (of_char c :: nat) \<le> 90")
  case True
  assume a: "isDigit (toLowerChar c) \<or> toLowerChar c = CHR ''.''"
  from True have "(of_char (toLowerChar c) :: nat) = of_char c + 32" by (simp add: toLowerChar_def)
  moreover have "(of_char (toLowerChar c) :: nat) \<le> 57" using a by (auto simp: isDigit_def)
  ultimately show ?thesis using True by linarith
qed (simp only: toLowerChar_def if_False)

lemma isIPv4_lower: "isIPv4 (toLowerCase s) \<longleftrightarrow> isIPv4 s"
proof
  assume v4: "isIPv4 (toLowerCase s)"
  have "toLowerChar c = c" if "c \<in> set s" for c
    using ipv4_chars [OF v4, of "toLowerChar c"] that toLowerChar_digit by (simp add: toLowerCase_def)
  then have "toLowerCase s = s" unfolding toLowerCase_def by (intro map_idI)
  with v4 show "isIPv4 s" by simp
next
  assume v4: "isIPv4 s"
  have "toLowerChar c = c" if "c \<in> set s" for c
    using ipv4_chars [OF v4 that] by (auto simp: toLowerChar_def isDigit_def)
  then have "toLowerCase s = s" unfolding toLowerCase_def by (intro map_idI)
  with v4 show "isIPv4 (toLowerCase s)" by simp
qed

lemma normalized_family:
  "normalizeAnswers as = Inr bs \<Longrightarrow> b \<in> set bs \<Longrightarrow> ra_family b = Family6 \<Longrightarrow> \<not> isIPv4 (ra_address b)"
proof (induction as arbitrary: bs)
  case (Cons a as)
  then show ?case
    by (auto simp: normalizeResolvedAddress_def isIP_def isIPv4_lower split: sum.splits if_splits)
qed simp

lemma screened_v6_answer:
  assumes "screenPackageEgressDestination toAscii host answers ids nat64 = Inr d"
    "a \<in> set (sd_answers d)" "ra_family a = Family6"
  shows "\<exists>qs b. parseNat64Prefixes nat64 = Inr qs \<and> parseIpv6 (ra_address a) = Some b \<and> publicIpv6 (hostKeys ids) qs b"
proof -
  obtain qs where qs: "parseNat64Prefixes nat64 = Inr qs" and norm: "normalizeAnswers answers = Inr (sd_answers d)"
    and p: "isPublicImmediateAddress (ra_address a) (hostKeys ids) qs"
    using screen_cases [OF assms(1)] assms(2) by metis
  have "isIP (ra_address a) \<noteq> Some Family4" using normalized_family [OF norm assms(2,3)] by (simp add: isIP_def)
  then show ?thesis using p qs by (auto simp: isPublicImmediateAddress_def split: option.splits if_splits)
qed

text \<open>For an IPv6 answer that passes the screen, the IPv4 address it carries (mapped, compatible,
  translated by NAT64 under the well-known or a configured prefix, tunnelled by 6to4 or Teredo) is no
  host identity and lies outside the special-purpose ranges.\<close>

theorem screened_v6_carries_public:
  assumes "screenPackageEgressDestination toAscii host answers ids nat64 = Inr d"
    "a \<in> set (sd_answers d)" "ra_family a = Family6" "parseIpv6 (ra_address a) = Some b"
    "parseNat64Prefixes nat64 = Inr qs" "carries qs b v"
  shows "Key4 (ipv4BytesToNumber v) \<notin> hostKeys ids \<and>
    list_all (\<lambda>(lo, hi). \<not> (lo \<le> unat (ipv4BytesToNumber v) \<and> unat (ipv4BytesToNumber v) \<le> hi)) nonPublicRanges"
  using carried_ipv4 [OF assms(6)] screened_v6_answer [OF assms(1-3)] assms(4,5) by auto

definition NPM_HOST :: string where "NPM_HOST = ''registry.npmjs.org''"

lemma npm_canonical: "canonicalizePackageEgressHostname id NPM_HOST = Inr NPM_HOST" by code_simp

definition NPM_V4 :: resolved_address where
  "NPM_V4 = \<lparr>ra_address = ''104.16.0.35'', ra_family = Family4\<rparr>"

definition NPM_V6 :: resolved_address where
  "NPM_V6 = \<lparr>ra_address = ''64:ff9b::6810:23'', ra_family = Family6\<rparr>"

lemma npm_v4_screened:
  "screenPackageEgressDestination id NPM_HOST [NPM_V4] [''192.168.1.7''] [] =
     Inr \<lparr>sd_hostname = NPM_HOST, sd_answers = [NPM_V4], sd_selected = NPM_V4\<rparr>"
proof -
  have "normalizeAnswers [NPM_V4] = Inr [NPM_V4]" by code_simp
  moreover have "isPublicImmediateAddress (ra_address NPM_V4) (hostKeys [''192.168.1.7'']) []" by code_simp
  ultimately show ?thesis using npm_canonical by (simp add: screenPackageEgressDestination_def)
qed


abbreviation NPM_BYTES :: "byte list" where
  "NPM_BYTES \<equiv> [0, 0x64, 0xff, 0x9b, 0, 0, 0, 0, 0, 0, 0, 0, 104, 16, 0, 35]"

lemma npm_v6_bytes: "parseIpv6 (ra_address NPM_V6) = Some NPM_BYTES"
proof (rule parseIpv6_steps)
  show "dottedTail (toLowerCase (ra_address NPM_V6)) = Some ''64:ff9b::6810:23''" by code_simp
  show "expandWords (splitDoubleColon ''64:ff9b::6810:23'') = Some [''64'', ''ff9b'', ''0'', ''0'', ''0'', ''0'', ''6810'', ''23'']"
    by code_simp
  show "wordsToBytes [''64'', ''ff9b'', ''0'', ''0'', ''0'', ''0'', ''6810'', ''23''] = Some NPM_BYTES"
    by (simp add: notation_defs wordsToBytes_def)
qed (simp add: NPM_V6_def)

lemma npm_v6_screened:
  "screenPackageEgressDestination id NPM_HOST [NPM_V6] [''192.168.1.7''] [] =
     Inr \<lparr>sd_hostname = NPM_HOST, sd_answers = [NPM_V6], sd_selected = NPM_V6\<rparr>"
proof -
  have v4: "\<not> isIPv4 (ra_address NPM_V6)" by (simp add: isIPv4_def NPM_V6_def)
  have "isIPv6 (ra_address NPM_V6)" by (simp add: isIPv6_def notation_defs NPM_V6_def)
  with v4 have "isIP (ra_address NPM_V6) = Some Family6" by (simp add: isIP_def)
  moreover have "toLowerCase (ra_address NPM_V6) = ra_address NPM_V6" "ra_family NPM_V6 = Family6"
    by (simp_all add: NPM_V6_def toLowerCase_def toLowerChar_def)
  moreover have "CHR ''%'' \<notin> set (ra_address NPM_V6)" by (simp add: NPM_V6_def)
  ultimately have norm: "normalizeAnswers [NPM_V6] = Inr [NPM_V6]"
    by (simp add: normalizeResolvedAddress_def strIncludes_single)
  from v4 have key: "addressKey (ra_address NPM_V6) = Some (Key6 NPM_BYTES)"
    using npm_v6_bytes by (simp add: addressKey_def parseIpv4_def isIP_def)
  have ids: "hostKeys [''192.168.1.7''] = {Key4 0xC0A80107}" by code_simp
  have "publicIpv6 {Key4 0xC0A80107} [] NPM_BYTES"
    by (simp add: publicIpv6_def WELL_KNOWN_NAT64_PREFIX_def ipv4Mapped_def ipv4Compatible_def allZero_def
        prefixMatches_bytes embeddedIpv4IsPublic_def ipv4BytesToNumber_def isPublicIpv4_def inV4_def)
  then have "isPublicImmediateAddress (ra_address NPM_V6) (hostKeys [''192.168.1.7'']) []"
    using key npm_v6_bytes v4 unfolding isPublicImmediateAddress_def ids by (simp add: isIP_def)
  then show ?thesis using npm_canonical norm by (simp add: screenPackageEgressDestination_def)
qed

theorem screened_v6_carries_public_witness:
  "Key4 (ipv4BytesToNumber [104, 16, 0, 35]) \<notin> hostKeys [''192.168.1.7'']"
proof -
  have "carries [] NPM_BYTES [104, 16, 0, 35]"
    using carries.wellKnown [of "[104, 16, 0, 35]" "[]"] by (simp add: embedRfc6052_def WELL_KNOWN_NAT64_PREFIX_def)
  then show ?thesis using screened_v6_carries_public [OF npm_v6_screened, of NPM_V6 NPM_BYTES "[]"] npm_v6_bytes
    by (simp add: NPM_V6_def)
qed

end
