(* ===== verification/Js_Text.thy ===== *)
theory Js_Text
  imports IC_Prelude
begin

text \<open>
  Library functions on text that several components use: decimal numbers, hexadecimal digits and
  \<open>decodeURIComponent\<close>. A string that holds characters beyond ASCII is its UTF-8 encoding, one
  \<open>char\<close> per byte; separators and prefixes that are ASCII mean the same there.
\<close>

section \<open>Decimal numbers\<close>

fun showNat :: "nat \<Rightarrow> string" where
  "showNat n = (if n < 10 then [char_of (48 + n)] else showNat (n div 10) @ [char_of (48 + n mod 10)])"

declare showNat.simps [simp del]

definition readDigits :: "string \<Rightarrow> nat" where
  "readDigits s = foldl (\<lambda>a c. 10 * a + (of_char c - 48)) 0 s"

lemma readDigits_showNat [simp]: "readDigits (showNat n) = n"
proof (induction n rule: showNat.induct)
  case (1 n)
  have digit: "of_char (char_of (48 + k) :: char) - 48 = k" if "k < 10" for k :: nat
    using that by (simp add: of_char_of)
  show ?case
  proof (cases "n < 10")
    case True
    then show ?thesis by (simp add: showNat.simps [of n] readDigits_def digit)
  next
    case False
    then have "readDigits (showNat (n div 10)) = n div 10" using 1 by blast
    then show ?thesis using False by (simp add: showNat.simps [of n] readDigits_def digit)
  qed
qed

lemma showNat_inject [simp]: "showNat a = showNat b \<longleftrightarrow> a = b"
  by (metis readDigits_showNat)

lemma showNat_digits: "list_all isDigit (showNat n) \<and> showNat n \<noteq> []"
proof (induction n rule: showNat.induct)
  case (1 n)
  have digit: "isDigit (char_of (48 + k))" if "k < 10" for k :: nat
    using that by (simp add: isDigit_def)
  show ?case using 1 digit by (cases "n < 10") (simp_all add: showNat.simps [of n])
qed

section \<open>Percent decoding\<close>

definition hexDigitValue :: "char \<Rightarrow> nat option" where
  "hexDigitValue c =
     (let n = (of_char c :: nat)
      in if 48 \<le> n \<and> n \<le> 57 then Some (n - 48)
         else if 65 \<le> n \<and> n \<le> 70 then Some (n - 55)
         else if 97 \<le> n \<and> n \<le> 102 then Some (n - 87) else None)"

definition escapedByte :: "char \<Rightarrow> char \<Rightarrow> nat option" where
  "escapedByte a b =
     (case hexDigitValue a of
        None \<Rightarrow> None
      | Some x \<Rightarrow> map_option (\<lambda>y. 16 * x + y) (hexDigitValue b))"

text \<open>The continuation bytes a UTF-8 lead byte asks for: the range of the next byte, and how many follow it.\<close>

definition utf8Lead :: "nat \<Rightarrow> (nat \<times> nat \<times> nat) option" where
  "utf8Lead n =
     (if 0xC2 \<le> n \<and> n \<le> 0xDF then Some (0x80, 0xBF, 0)
      else if n = 0xE0 then Some (0xA0, 0xBF, 1)
      else if n = 0xED then Some (0x80, 0x9F, 1)
      else if 0xE1 \<le> n \<and> n \<le> 0xEF then Some (0x80, 0xBF, 1)
      else if n = 0xF0 then Some (0x90, 0xBF, 2)
      else if 0xF1 \<le> n \<and> n \<le> 0xF3 then Some (0x80, 0xBF, 2)
      else if n = 0xF4 then Some (0x80, 0x8F, 2)
      else None)"

text \<open>The state is \<open>None\<close> between characters; \<open>decodeURIComponent\<close> throws on a bad or unfinished escape.\<close>

fun percentGo :: "(nat \<times> nat \<times> nat) option \<Rightarrow> string \<Rightarrow> string option" where
  "percentGo None [] = Some []"
| "percentGo None (c # s) =
     (if c \<noteq> CHR ''%'' then map_option (\<lambda>r. c # r) (percentGo None s)
      else case s of
             a # b # rest \<Rightarrow>
               (case escapedByte a b of
                  None \<Rightarrow> None
                | Some n \<Rightarrow>
                    (if n < 0x80 then map_option (\<lambda>r. char_of n # r) (percentGo None rest)
                     else case utf8Lead n of
                            None \<Rightarrow> None
                          | Some need \<Rightarrow> map_option (\<lambda>r. char_of n # r) (percentGo (Some need) rest)))
           | _ \<Rightarrow> None)"
| "percentGo (Some (lo, hi, more)) (c # a # b # rest) =
     (if c \<noteq> CHR ''%'' then None
      else case escapedByte a b of
             None \<Rightarrow> None
           | Some n \<Rightarrow>
               (if lo \<le> n \<and> n \<le> hi
                then map_option (\<lambda>r. char_of n # r) (percentGo (if more = 0 then None else Some (0x80, 0xBF, more - 1)) rest)
                else None))"
| "percentGo (Some _) _ = None"

definition decodeURIComponent :: "string \<Rightarrow> string option" where
  "decodeURIComponent s = percentGo None s"

lemma decode_plain: "CHR ''%'' \<notin> set s \<Longrightarrow> decodeURIComponent s = Some s"
  unfolding decodeURIComponent_def by (induction s) auto

end
