(* ===== verification/Workflow_Types.thy ===== *)
theory Workflow_Types
  imports Path_Utils Js_Text "HOL-Library.AList"
begin

text \<open>
  The data of the workflow engine (\<open>src/workflow/types.ts\<close>, \<open>src/workflow/guards.ts\<close>) and the templating
  of lanes (\<open>src/workflow/lane-template.ts\<close>): workflow definitions as authors write them, the context
  and the events of a run, and the paths of the lanes a fan-out state runs side by side. Records of the
  source that are objects with dynamic keys are association lists in insertion order.
\<close>

section \<open>Constants\<close>

definition WORKFLOW_ARTIFACT_DIR :: string where "WORKFLOW_ARTIFACT_DIR = ''.workflow''"
definition GLOBAL_PERSONA :: string where "GLOBAL_PERSONA = ''global''"
definition SKILLS_NONE :: string where "SKILLS_NONE = ''none''"
definition DEFAULT_CONTAINER_SCOPE :: string where "DEFAULT_CONTAINER_SCOPE = ''primary''"
definition DETERMINISTIC_RESULT_ERROR_VERDICT :: string where
  "DETERMINISTIC_RESULT_ERROR_VERDICT = ''result_file_error''"

section \<open>Definitions of workflows\<close>

datatype human_gate_event = GateApprove | GateForceRevision | GateReplan | GateAbort

text \<open>The lists of state names that the \<open>resetVisitCounts\<close> actions of a transition name, in order.\<close>

type_synonym transition_actions = "string list list"

record agent_transition =
  at_to :: string
  at_guard :: "string option"
  at_when :: "jsobj option"
  at_actions :: transition_actions

record gate_transition =
  gt_to :: string
  gt_event :: human_gate_event
  gt_actions :: transition_actions

text \<open>The only join is the barrier, so a fan-out is its count.\<close>

datatype fan_out = FanOutWorkers | FanOutCount nat

datatype schedule_pool = PoolEval | PoolAgent

datatype skills_field = SkillsNone | SkillsOnly "string list"

record agent_state_def =
  sa_description :: string
  sa_persona :: string
  sa_prompt :: string
  sa_inputs :: "string list"
  sa_outputs :: "string list"
  sa_artifactHandoff :: "string list option"
  sa_transitions :: "agent_transition list"
  sa_fanOutMember :: "bool option"
  sa_fanOut :: "fan_out option"
  sa_segment :: "string list option"
  sa_schedule :: "schedule_pool option"
  sa_freshSession :: "bool option"
  sa_model :: "string option"
  sa_maxVisits :: "nat option"
  sa_containerScope :: "string option"
  sa_skills :: "skills_field option"

record gate_state_def =
  sg_description :: string
  sg_acceptedEvents :: "human_gate_event list"
  sg_present :: "string list option"
  sg_transitions :: "gate_transition list"

record deterministic_state_def =
  sd_description :: string
  sd_run :: "string list list"
  sd_container :: "bool option"
  sd_containerScope :: "string option"
  sd_timeoutMs :: "nat option"
  sd_resultFile :: "string option"
  sd_fanOut :: "fan_out option"
  sd_segment :: "string list option"
  sd_fanOutMember :: "bool option"
  sd_schedule :: "schedule_pool option"
  sd_transitions :: "agent_transition list"

record terminal_state_def =
  st_description :: string
  st_outputs :: "string list option"
  st_cleanup :: "string list list option"

datatype state_def =
    AgentState agent_state_def
  | HumanGateState gate_state_def
  | DeterministicState deterministic_state_def
  | TerminalState terminal_state_def

datatype workflow_mode = ModeDocker | ModeBuiltin

text \<open>Budget limits: the outer option is a missing field, the inner one \<open>null\<close>, which disables a limit.\<close>

record budget_fields =
  bf_maxTotalTokens :: "rat option option"
  bf_maxSteps :: "rat option option"
  bf_maxSessionSeconds :: "rat option option"
  bf_maxEstimatedCostUsd :: "rat option option"
  bf_warnThresholdPercent :: "rat option"

record workflow_settings =
  ws_mode :: "workflow_mode option"
  ws_maxRounds :: "nat option"
  ws_workers :: "nat option"
  ws_maxSessionSeconds :: "rat option option"
  ws_resourceBudget :: "budget_fields option"
  ws_unversionedArtifacts :: "string list option"
  ws_sharedContainer :: "bool option"

record workflow_definition =
  wd_name :: string
  wd_description :: string
  wd_initial :: string
  wd_states :: "(string \<times> state_def) list"
  wd_settings :: "workflow_settings option"

text \<open>\<open>definition.states[id]\<close>.\<close>

definition stateOf :: "workflow_definition \<Rightarrow> string \<Rightarrow> state_def option" where
  "stateOf d stateId = map_of (wd_states d) stateId"

definition stateNames :: "workflow_definition \<Rightarrow> string list" where
  "stateNames d = map fst (wd_states d)"

fun isTerminalState :: "state_def \<Rightarrow> bool" where
  "isTerminalState (TerminalState _) = True"
| "isTerminalState _ = False"

fun isGateState :: "state_def \<Rightarrow> bool" where
  "isGateState (HumanGateState _) = True"
| "isGateState _ = False"

fun isAgentState :: "state_def \<Rightarrow> bool" where
  "isAgentState (AgentState _) = True"
| "isAgentState _ = False"

text \<open>The states that run an ordered list of transitions.\<close>

fun isExecutableState :: "state_def \<Rightarrow> bool" where
  "isExecutableState (AgentState _) = True"
| "isExecutableState (DeterministicState _) = True"
| "isExecutableState _ = False"

fun execTransitions :: "state_def \<Rightarrow> agent_transition list" where
  "execTransitions (AgentState a) = sa_transitions a"
| "execTransitions (DeterministicState d) = sd_transitions d"
| "execTransitions _ = []"

fun stateFanOut :: "state_def \<Rightarrow> fan_out option" where
  "stateFanOut (AgentState a) = sa_fanOut a"
| "stateFanOut (DeterministicState d) = sd_fanOut d"
| "stateFanOut _ = None"

fun stateSegment :: "state_def \<Rightarrow> string list option" where
  "stateSegment (AgentState a) = sa_segment a"
| "stateSegment (DeterministicState d) = sd_segment d"
| "stateSegment _ = None"

fun stateFanOutMember :: "state_def \<Rightarrow> bool" where
  "stateFanOutMember (AgentState a) = (sa_fanOutMember a = Some True)"
| "stateFanOutMember (DeterministicState d) = (sd_fanOutMember d = Some True)"
| "stateFanOutMember _ = False"

fun stateSchedule :: "state_def \<Rightarrow> schedule_pool option" where
  "stateSchedule (AgentState a) = sa_schedule a"
| "stateSchedule (DeterministicState d) = sd_schedule d"
| "stateSchedule _ = None"

text \<open>\<open>settings?.f\<close>.\<close>

definition setting :: "(workflow_settings \<Rightarrow> 'a option) \<Rightarrow> workflow_definition \<Rightarrow> 'a option" where
  "setting f d = (case wd_settings d of None \<Rightarrow> None | Some s \<Rightarrow> f s)"

fun orElse :: "'a option \<Rightarrow> 'a \<Rightarrow> 'a" where
  "orElse None d = d"
| "orElse (Some x) _ = x"

section \<open>Skills of a state\<close>

record skills_options =
  so_skillsDir :: "string option"
  so_skillFilter :: "string list option"
  so_disableAllSkills :: bool

definition resolveWorkflowSkillsOptions :: "skills_field option \<Rightarrow> string option \<Rightarrow> skills_options" where
  "resolveWorkflowSkillsOptions skills skillsDir =
     (if skills = Some SkillsNone then \<lparr>so_skillsDir = None, so_skillFilter = None, so_disableAllSkills = True\<rparr>
      else \<lparr>so_skillsDir = skillsDir,
            so_skillFilter = (case skills of Some (SkillsOnly names) \<Rightarrow> Some (uniq names) | _ \<Rightarrow> None),
            so_disableAllSkills = False\<rparr>)"

section \<open>Context and events of a run\<close>

datatype confidence = High | Medium | Low

record agent_output =
  ao_completed :: bool
  ao_verdict :: string
  ao_confidence :: confidence
  ao_escalation :: "string option"
  ao_testCount :: "int option"
  ao_notes :: "string option"

definition AGENT_OUTPUT_FIELDS :: "string list" where
  "AGENT_OUTPUT_FIELDS = [''completed'', ''verdict'', ''confidence'', ''escalation'', ''testCount'', ''notes'']"

definition CONFIDENCE_VALUES :: "string list" where
  "CONFIDENCE_VALUES = [''high'', ''medium'', ''low'']"

fun confidenceText :: "confidence \<Rightarrow> string" where
  "confidenceText High = ''high''"
| "confidenceText Medium = ''medium''"
| "confidenceText Low = ''low''"

text \<open>The output as the object a \<open>when\<close> clause is matched against.\<close>

definition strOrNull :: "string option \<Rightarrow> jsval" where
  "strOrNull x = (case x of None \<Rightarrow> JNull | Some s \<Rightarrow> JStr s)"

definition outputObject :: "agent_output \<Rightarrow> jsobj" where
  "outputObject o' =
     [(''completed'', JBool (ao_completed o')), (''verdict'', JStr (ao_verdict o')),
      (''confidence'', JStr (confidenceText (ao_confidence o'))), (''escalation'', strOrNull (ao_escalation o')),
      (''testCount'', (case ao_testCount o' of None \<Rightarrow> JNull | Some n \<Rightarrow> JNum (of_int n))),
      (''notes'', strOrNull (ao_notes o'))]"

record lane_context =
  lc_id :: nat
  lc_dir :: string
  lc_relativeDir :: string

record workflow_context =
  cx_taskDescription :: string
  cx_lane :: "lane_context option"
  cx_artifacts :: "(string \<times> string) list"
  cx_round :: nat
  cx_maxRounds :: nat
  cx_previousOutputHashes :: "(string \<times> string) list"
  cx_previousTestCount :: "int option"
  cx_lastDeterministicResult :: "(string option \<times> jsobj option) option"
  cx_humanPrompt :: "string option"
  cx_reviewHistory :: "string list"
  cx_totalTokens :: nat
  cx_lastError :: "string option"
  cx_agentConversationsByState :: "(string \<times> string) list"
  cx_previousAgentOutput :: "string option"
  cx_previousAgentNotes :: "string option"
  cx_previousStateName :: "string option"
  cx_visitCounts :: "(string \<times> nat) list"

text \<open>\<open>counts[id] ?? 0\<close>.\<close>

definition visitsOf :: "workflow_context \<Rightarrow> string \<Rightarrow> nat" where
  "visitsOf cx stateId = (case map_of (cx_visitCounts cx) stateId of None \<Rightarrow> 0 | Some n \<Rightarrow> n)"

text \<open>The events guards see.\<close>

datatype workflow_event =
    AgentCompleted agent_output
  | ValidationPassed int
  | ValidationFailed string
  | HumanEvent human_gate_event "string option"

section \<open>Guards\<close>

definition isRoundLimitReached :: "workflow_context \<Rightarrow> workflow_event \<Rightarrow> bool" where
  "isRoundLimitReached cx ev =
     (let counts = map snd (cx_visitCounts cx)
      in if counts = [] then False else foldr max counts 0 \<ge> cx_maxRounds cx)"

definition isStalled :: "workflow_context \<Rightarrow> workflow_event \<Rightarrow> bool" where
  "isStalled cx ev = False"

definition isStateVisitLimitReached :: "workflow_context \<Rightarrow> workflow_event \<Rightarrow> bool" where
  "isStateVisitLimitReached cx ev = False"

definition isPassed :: "workflow_context \<Rightarrow> workflow_event \<Rightarrow> bool" where
  "isPassed cx ev = (case ev of ValidationPassed _ \<Rightarrow> True | _ \<Rightarrow> False)"

definition guardImplementations :: "(string \<times> (workflow_context \<Rightarrow> workflow_event \<Rightarrow> bool)) list" where
  "guardImplementations =
     [(''isRoundLimitReached'', isRoundLimitReached), (''isStalled'', isStalled),
      (''isStateVisitLimitReached'', isStateVisitLimitReached), (''isPassed'', isPassed)]"

definition REGISTERED_GUARDS :: "string list" where
  "REGISTERED_GUARDS = map fst guardImplementations"

section \<open>Lanes\<close>

definition resolveFanOutWorkers :: "fan_out \<Rightarrow> workflow_settings option \<Rightarrow> nat" where
  "resolveFanOutWorkers fo settings =
     (case fo of
        FanOutWorkers \<Rightarrow> orElse (case settings of None \<Rightarrow> None | Some s \<Rightarrow> ws_workers s) 1
      | FanOutCount n \<Rightarrow> n)"

definition DEFAULT_EVOLVE_LANE_DIR :: string where
  "DEFAULT_EVOLVE_LANE_DIR = ''/workspace/.evolve_runs/main/current''"

definition DEFAULT_EVOLVE_LANE_RELATIVE_DIR :: string where
  "DEFAULT_EVOLVE_LANE_RELATIVE_DIR = ''.evolve_runs/main/current''"

definition EVOLVE_RESULT_SCRIPT :: string where
  "EVOLVE_RESULT_SCRIPT = ''evolve_result.py''"

definition EVOLVE_LANE_AWARE_COMMANDS :: "string list" where
  "EVOLVE_LANE_AWARE_COMMANDS = [''sample'', ''evaluate'', ''record'', ''attach_analysis'']"

definition EVOLVE_STEP_INDEX_WIDTH :: nat where
  "EVOLVE_STEP_INDEX_WIDTH = 4"

definition padStart :: "nat \<Rightarrow> char \<Rightarrow> string \<Rightarrow> string" where
  "padStart w c s = replicate (w - length s) c @ s"

definition evolveStepName :: "nat \<Rightarrow> nat \<Rightarrow> string" where
  "evolveStepName batchIndex lane =
     ''step_'' @ padStart EVOLVE_STEP_INDEX_WIDTH (CHR ''0'') (showNat batchIndex) @ ''_lane_'' @ showNat lane"

definition laneId :: "workflow_context \<Rightarrow> string" where
  "laneId cx = showNat (case cx_lane cx of None \<Rightarrow> 0 | Some l \<Rightarrow> lc_id l)"

definition laneDir :: "workflow_context \<Rightarrow> string" where
  "laneDir cx = (case cx_lane cx of None \<Rightarrow> DEFAULT_EVOLVE_LANE_DIR | Some l \<Rightarrow> lc_dir l)"

definition laneRelativeDir :: "workflow_context \<Rightarrow> string" where
  "laneRelativeDir cx = (case cx_lane cx of None \<Rightarrow> DEFAULT_EVOLVE_LANE_RELATIVE_DIR | Some l \<Rightarrow> lc_relativeDir l)"

text \<open>\<open>replaceAll\<close> takes the values literally: lane directories and numbers, which hold no dollar sign.\<close>

definition applyLaneTemplate :: "string \<Rightarrow> workflow_context \<Rightarrow> string" where
  "applyLaneTemplate value cx =
     (let r1 = replaceAll ''{laneDir}'' (laneDir cx) value;
          r2 = replaceAll ''{laneRelativeDir}'' (laneRelativeDir cx) r1;
          r3 = replaceAll ''{laneRelDir}'' (laneRelativeDir cx) r2;
          r4 = replaceAll ''${laneId}'' (laneId cx) r3
      in replaceAll ''{laneId}'' (laneId cx) r4)"

text \<open>\<open>/^lane_\d+\//\<close>.\<close>

definition startsWithLane :: "string \<Rightarrow> bool" where
  "startsWithLane s =
     (startsWith s ''lane_'' \<and>
      (let rest = drop 5 s in takeWhile isDigit rest \<noteq> [] \<and> startsWith (dropWhile isDigit rest) ''/''))"

definition replaceCurrentPrefix :: "string \<Rightarrow> string \<Rightarrow> string \<Rightarrow> string" where
  "replaceCurrentPrefix value currentDir replacement =
     (if value = currentDir then replacement
      else let pfx = currentDir @ ''/''
           in if \<not> startsWith value pfx then value
              else let suf = drop (length pfx) value
                   in if startsWithLane suf then value else replacement @ ''/'' @ suf)"

definition laneScopeEvolveCurrentPath :: "string \<Rightarrow> workflow_context \<Rightarrow> string" where
  "laneScopeEvolveCurrentPath value cx =
     (case cx_lane cx of
        None \<Rightarrow> applyLaneTemplate value cx
      | Some lane \<Rightarrow>
          replaceCurrentPrefix
            (replaceCurrentPrefix (applyLaneTemplate value cx) DEFAULT_EVOLVE_LANE_DIR (lc_dir lane))
            DEFAULT_EVOLVE_LANE_RELATIVE_DIR (lc_relativeDir lane))"

text \<open>\<open>findIndex\<close> of the bridge script.\<close>

fun evolveResultScriptIndex :: "string list \<Rightarrow> nat option" where
  "evolveResultScriptIndex [] = None"
| "evolveResultScriptIndex (arg # rest) =
     (if arg = EVOLVE_RESULT_SCRIPT \<or> endsWith arg (''/'' @ EVOLVE_RESULT_SCRIPT) then Some 0
      else map_option Suc (evolveResultScriptIndex rest))"

definition injectEvolveLaneArg :: "string list \<Rightarrow> nat \<Rightarrow> string list" where
  "injectEvolveLaneArg command lane =
     (if ''--lane'' \<in> set command then command
      else case evolveResultScriptIndex command of
             None \<Rightarrow> command
           | Some scriptIndex \<Rightarrow>
               (let i = scriptIndex + 1
                in if \<not> (i < length command \<and> command ! i \<in> set EVOLVE_LANE_AWARE_COMMANDS) then command
                   else take (i + 1) command @ [''--lane'', showNat lane] @ drop (i + 1) command))"

definition templateLaneCommand :: "string list \<Rightarrow> workflow_context \<Rightarrow> string list" where
  "templateLaneCommand command cx =
     (let templated = map (\<lambda>arg. laneScopeEvolveCurrentPath arg cx) command
      in case cx_lane cx of None \<Rightarrow> templated | Some lane \<Rightarrow> injectEvolveLaneArg templated (lc_id lane))"

section \<open>Terminal phases\<close>

datatype terminal_phase = PhaseCompleted | PhaseFailed | PhaseAborted

definition terminalPhaseFromStateName :: "string \<Rightarrow> terminal_phase" where
  "terminalPhaseFromStateName name =
     (let normalized = toLowerCase name
      in if strIncludes normalized ''abort'' then PhaseAborted
         else if strIncludes normalized ''fail'' then PhaseFailed
         else PhaseCompleted)"

section \<open>Resource budgets of a run\<close>

datatype budget_source = FromWorkflow | FromGlobal | FromDefault

record resolved_budget =
  rb_maxTotalTokens :: "rat option"
  rb_maxSteps :: "rat option"
  rb_maxSessionSeconds :: "rat option"
  rb_maxEstimatedCostUsd :: "rat option"
  rb_warnThresholdPercent :: rat

definition BUDGET_DEFAULTS :: resolved_budget where
  "BUDGET_DEFAULTS = \<lparr>rb_maxTotalTokens = Some 1000000, rb_maxSteps = Some 200, rb_maxSessionSeconds = Some 1800,
     rb_maxEstimatedCostUsd = Some 5, rb_warnThresholdPercent = 80\<rparr>"

text \<open>One key of the loop: the value and where it comes from.\<close>

definition pickLimit :: "'a option \<Rightarrow> 'a option \<Rightarrow> 'a \<Rightarrow> 'a \<times> budget_source" where
  "pickLimit override global dflt =
     (case override of
        Some v \<Rightarrow> (v, FromWorkflow)
      | None \<Rightarrow> (case global of Some v \<Rightarrow> (v, FromGlobal) | None \<Rightarrow> (dflt, FromDefault)))"

definition emptyBudget :: budget_fields where
  "emptyBudget = \<lparr>bf_maxTotalTokens = None, bf_maxSteps = None, bf_maxSessionSeconds = None,
     bf_maxEstimatedCostUsd = None, bf_warnThresholdPercent = None\<rparr>"

definition budgetOverrides :: "workflow_settings option \<Rightarrow> budget_fields" where
  "budgetOverrides settings =
     (case settings of
        None \<Rightarrow> emptyBudget
      | Some s \<Rightarrow>
          (let overrides = orElse (ws_resourceBudget s) emptyBudget
           in case ws_maxSessionSeconds s of
                None \<Rightarrow> overrides
              | Some v \<Rightarrow> overrides\<lparr>bf_maxSessionSeconds := Some v\<rparr>))"

definition resolveWorkflowResourceBudget ::
  "workflow_settings option \<Rightarrow> budget_fields \<Rightarrow> resolved_budget \<times> budget_source list" where
  "resolveWorkflowResourceBudget settings global =
     (let o' = budgetOverrides settings; d = BUDGET_DEFAULTS;
          tokens = pickLimit (bf_maxTotalTokens o') (bf_maxTotalTokens global) (rb_maxTotalTokens d);
          steps = pickLimit (bf_maxSteps o') (bf_maxSteps global) (rb_maxSteps d);
          secs = pickLimit (bf_maxSessionSeconds o') (bf_maxSessionSeconds global) (rb_maxSessionSeconds d);
          cost = pickLimit (bf_maxEstimatedCostUsd o') (bf_maxEstimatedCostUsd global) (rb_maxEstimatedCostUsd d);
          warn = pickLimit (bf_warnThresholdPercent o') (bf_warnThresholdPercent global) (rb_warnThresholdPercent d)
      in (\<lparr>rb_maxTotalTokens = fst tokens, rb_maxSteps = fst steps, rb_maxSessionSeconds = fst secs,
           rb_maxEstimatedCostUsd = fst cost, rb_warnThresholdPercent = fst warn\<rparr>,
          [snd tokens, snd steps, snd secs, snd cost, snd warn]))"

end
