(* ===== verification/Workflow_Validate.thy ===== *)
theory Workflow_Validate
  imports Workflow_Types
begin

text \<open>
  Validation of workflow definitions (\<open>src/workflow/validate.ts\<close>): the checks on the raw input, the
  constraints of the schema, and the semantic checks with the search for reachable states. An issue is
  a value with the names its message mentions. The schema library is a parameter that turns the raw
  value into a definition or a list of messages; what its schema demands of a definition is
  \<open>schemaAccepts\<close>. Schema fields that no check reads are not part of the definition type.
\<close>

section \<open>Issues\<close>

datatype issue =
    RetiredMaxParallelism
  | BadStateId string
  | ResultFileOnWrongType string string
  | AgentOnlyField string string string
  | ContainerScopeOnWrongType string string
  | SchemaIssue string
  | InitialMissing string
  | NoTerminalState
  | UnknownTarget string string
  | UnregisteredGuard string string
  | ResetUnknownState string string string
  | GuardAndWhen string string
  | EmptyWhen string string
  | NonVerdictKey string string string
  | UnknownWhenKey string string string
  | WrongWhenType string string string
  | BadConfidence string string string
  | HandoffNeedsOneTransition string
  | HandoffBadTarget string string
  | HandoffBadFile string string
  | GateWithoutTransition string
  | GateEventNotAccepted string human_gate_event
  | Unreachable string
  | InputNotProduced string string
  | ScopeWithoutShared string string
  | ScopeWithoutDocker string string
  | ScopeWithoutContainer string
  | ResultWithoutContainer string
  | UnsafeResultFile string string
  | ContainerWithoutShared string
  | ContainerWithoutDocker string
  | FanOutEmptySegment string
  | FanOutUnknownMember string string
  | FanOutGateMember string string
  | FanOutMemberUnmarked string string
  | EvalPoolOutsideFanOut string
  | HardcodedLane string string nat
  | UnscopedResultFile string string nat
  | GreedyWithLanes nat
  | InvalidSkillName string string
  | UnknownSkill string string

section \<open>The schema\<close>

definition isScopeChar :: "char \<Rightarrow> bool" where
  "isScopeChar c = (isLetter c \<or> isDigit c \<or> c = CHR ''_'' \<or> c = CHR ''-'')"

text \<open>\<open>CONTAINER_SCOPE_PATTERN\<close>.\<close>

definition isScopeName :: "string \<Rightarrow> bool" where
  "isScopeName s = (s \<noteq> [] \<and> list_all isScopeChar s)"

definition optAll :: "('a \<Rightarrow> bool) \<Rightarrow> 'a option \<Rightarrow> bool" where
  "optAll P x = (case x of None \<Rightarrow> True | Some v \<Rightarrow> P v)"

definition fanOutAccepts :: "fan_out \<Rightarrow> bool" where
  "fanOutAccepts fo = (case fo of FanOutWorkers \<Rightarrow> True | FanOutCount n \<Rightarrow> 0 < n)"

definition actionsAccept :: "transition_actions \<Rightarrow> bool" where
  "actionsAccept as = list_all (\<lambda>ids. ids \<noteq> []) as"

text \<open>A \<open>when\<close> clause is an object: it has each key once.\<close>

definition transitionAccepts :: "agent_transition \<Rightarrow> bool" where
  "transitionAccepts t = (actionsAccept (at_actions t) \<and> optAll (\<lambda>w. distinct (map fst w)) (at_when t))"

fun stateAccepts :: "state_def \<Rightarrow> bool" where
  "stateAccepts (AgentState a) =
     (sa_description a \<noteq> [] \<and> sa_prompt a \<noteq> [] \<and> sa_transitions a \<noteq> [] \<and>
      list_all transitionAccepts (sa_transitions a) \<and>
      optAll (\<lambda>fs. fs \<noteq> [] \<and> list_all (\<lambda>f. f \<noteq> []) fs) (sa_artifactHandoff a) \<and>
      optAll fanOutAccepts (sa_fanOut a) \<and> optAll (\<lambda>seg. seg \<noteq> []) (sa_segment a) \<and>
      optAll (\<lambda>n. 0 < n) (sa_maxVisits a) \<and> optAll isScopeName (sa_containerScope a))"
| "stateAccepts (HumanGateState g) =
     (sg_description g \<noteq> [] \<and> list_all (\<lambda>t. actionsAccept (gt_actions t)) (sg_transitions g))"
| "stateAccepts (DeterministicState d) =
     (sd_description d \<noteq> [] \<and> sd_transitions d \<noteq> [] \<and> list_all transitionAccepts (sd_transitions d) \<and>
      optAll isScopeName (sd_containerScope d) \<and> optAll (\<lambda>n. 0 < n) (sd_timeoutMs d) \<and>
      optAll (\<lambda>f. f \<noteq> []) (sd_resultFile d) \<and> optAll fanOutAccepts (sd_fanOut d) \<and> optAll (\<lambda>seg. seg \<noteq> []) (sd_segment d))"
| "stateAccepts (TerminalState t) = (st_description t \<noteq> [])"

definition settingsAccept :: "workflow_settings \<Rightarrow> bool" where
  "settingsAccept s =
     (optAll (\<lambda>n. 0 < n) (ws_maxRounds s) \<and> optAll (\<lambda>n. 0 < n) (ws_workers s) \<and>
      optAll (optAll (\<lambda>x. 0 < x)) (ws_maxSessionSeconds s) \<and>
      optAll (\<lambda>b. optAll (optAll (\<lambda>x. 0 < x)) (bf_maxTotalTokens b) \<and> optAll (optAll (\<lambda>x. 0 < x)) (bf_maxSteps b) \<and>
        optAll (optAll (\<lambda>x. 0 < x)) (bf_maxSessionSeconds b) \<and> optAll (optAll (\<lambda>x. 0 < x)) (bf_maxEstimatedCostUsd b) \<and>
        optAll (\<lambda>x. 1 \<le> x \<and> x \<le> 99) (bf_warnThresholdPercent b)) (ws_resourceBudget s) \<and>
      (ws_maxSessionSeconds s = None \<or>
       (case ws_resourceBudget s of None \<Rightarrow> True | Some b \<Rightarrow> bf_maxSessionSeconds b = None \<or>
          ws_maxSessionSeconds s = bf_maxSessionSeconds b)))"

definition schemaAccepts :: "workflow_definition \<Rightarrow> bool" where
  "schemaAccepts d =
     (wd_name d \<noteq> [] \<and> distinct (stateNames d) \<and> list_all (\<lambda>(_, s). stateAccepts s) (wd_states d) \<and>
      optAll settingsAccept (wd_settings d))"

section \<open>Checks on the raw input\<close>

text \<open>\<open>STATE_ID_PATTERN\<close>.\<close>

definition isStateId :: "string \<Rightarrow> bool" where
  "isStateId s =
     (s \<noteq> [] \<and> (isLetter (hd s) \<or> hd s = CHR ''_'') \<and> list_all (\<lambda>c. isLetter c \<or> isDigit c \<or> c = CHR ''_'') (tl s))"

definition AGENT_ONLY_STATE_FIELDS :: "string list" where
  "AGENT_ONLY_STATE_FIELDS = [''maxVisits'', ''artifactHandoff'']"

definition rawStateIssues :: "string \<Rightarrow> jsval \<Rightarrow> issue list" where
  "rawStateIssues stateId stateValue =
     (if isStateId stateId then [] else [BadStateId stateId]) @
     (case stateValue of
        JObj st \<Rightarrow>
          (case getProp st ''type'' of
             JStr stateType \<Rightarrow>
               (if hasProp st ''resultFile'' \<and> stateType \<noteq> ''deterministic'' then [ResultFileOnWrongType stateId stateType] else []) @
               (if stateType = ''agent'' then []
                else map (AgentOnlyField stateId stateType) (filter (hasProp st) AGENT_ONLY_STATE_FIELDS) @
                     (if hasProp st ''containerScope'' \<and> stateType \<noteq> ''deterministic''
                      then [ContainerScopeOnWrongType stateId stateType] else []))
           | _ \<Rightarrow> [])
      | _ \<Rightarrow> [])"

definition validateRawInput :: "jsval \<Rightarrow> issue list" where
  "validateRawInput raw =
     (case raw of
        JObj r \<Rightarrow>
          (case getProp r ''settings'' of
             JObj s \<Rightarrow> (if hasProp s ''maxParallelism'' then [RetiredMaxParallelism] else [])
           | _ \<Rightarrow> []) @
          (case getProp r ''states'' of
             JObj states \<Rightarrow> concat (map (\<lambda>(k, v). rawStateIssues k v) states)
           | _ \<Rightarrow> [])
      | _ \<Rightarrow> [])"

section \<open>Helpers\<close>

fun collectTransitionTargets :: "state_def \<Rightarrow> string list" where
  "collectTransitionTargets (AgentState a) = map at_to (sa_transitions a)"
| "collectTransitionTargets (DeterministicState d) = map at_to (sd_transitions d)"
| "collectTransitionTargets (HumanGateState g) = map gt_to (sg_transitions g)"
| "collectTransitionTargets (TerminalState _) = []"

definition usesVerdictEdges :: "agent_transition list \<Rightarrow> bool" where
  "usesVerdictEdges ts = list_ex (\<lambda>t. case at_when t of None \<Rightarrow> False | Some w \<Rightarrow> hasProp w ''verdict'') ts"

definition parseArtifactRef :: "string \<Rightarrow> string \<times> bool" where
  "parseArtifactRef ref =
     (let isOptional = endsWith ref ''?'' in (if isOptional then dropEnd 1 ref else ref, isOptional))"

definition collectGuardNames :: "state_def \<Rightarrow> string list" where
  "collectGuardNames s = List.map_filter at_guard (execTransitions s)"

fun stateOutputs :: "state_def \<Rightarrow> string list" where
  "stateOutputs (AgentState a) = sa_outputs a"
| "stateOutputs (TerminalState t) = orElse (st_outputs t) []"
| "stateOutputs _ = []"

definition collectOutputArtifacts :: "(string \<times> state_def) list \<Rightarrow> string list" where
  "collectOutputArtifacts states = uniq (concat (map (stateOutputs \<circ> snd) states))"

text \<open>\<open>findReachableStates\<close>: a stack, here with its top in front; the targets are pushed in order, so the
  last one is on top. The visited states are returned in the order of the set, oldest first.\<close>

definition successors :: "(string \<times> state_def) list \<Rightarrow> string \<Rightarrow> string list" where
  "successors states current =
     (case map_of states current of
        None \<Rightarrow> []
      | Some s \<Rightarrow> collectTransitionTargets s @ (if isExecutableState s then orElse (stateSegment s) [] else []))"

lemma successors_none: "x \<notin> fst ` set states \<Longrightarrow> successors states x = []"
  by (simp add: successors_def flip: map_of_eq_None_iff)

function reachGo :: "(string \<times> state_def) list \<Rightarrow> string list \<Rightarrow> string list \<Rightarrow> string list" where
  "reachGo states [] reachable = reachable"
| "reachGo states (current # queue) reachable =
     (if current \<in> set reachable then reachGo states queue reachable
      else let reachable' = reachable @ [current]
           in reachGo states (rev (filter (\<lambda>t. t \<notin> set reachable') (successors states current)) @ queue) reachable')"
  by pat_completeness auto

termination
proof (relation "inv_image (finite_psubset <*lex*> less_than) (\<lambda>(states, q, r). (fst ` set states - set r, length q))")
  fix states :: "(string \<times> state_def) list" and current :: string and queue reachable reachable'
  assume new: "current \<notin> set reachable" and r': "reachable' = reachable @ [current]"
  show "((states, rev (filter (\<lambda>t. t \<notin> set reachable') (successors states current)) @ queue, reachable'),
         states, current # queue, reachable)
        \<in> inv_image (finite_psubset <*lex*> less_than) (\<lambda>(states, q, r). (fst ` set states - set r, length q))"
  proof (cases "current \<in> fst ` set states")
    case True
    then have "fst ` set states - set reachable' \<subset> fst ` set states - set reachable" using new r' by auto
    then show ?thesis by simp
  next
    case False
    then have "fst ` set states - set reachable' = fst ` set states - set reachable" using r' by auto
    then show ?thesis using successors_none [OF False] by simp
  qed
qed (auto intro: wf_finite_psubset)

definition findReachableStates :: "string \<Rightarrow> (string \<times> state_def) list \<Rightarrow> string list" where
  "findReachableStates initial states = reachGo states [initial] []"

definition isSafeWorkspaceRelativePath :: "string \<Rightarrow> bool" where
  "isSafeWorkspaceRelativePath path =
     (if path = [] then False
      else if CHR 0x00 \<in> set path then False
      else if startsWith path ''/'' then False
      else if path = ''.'' then False
      else if ''..'' \<in> set (splitOn (CHR ''/'') path) then False
      else pathNormalize path = path)"

section \<open>Transitions\<close>

fun collectTransitionsWithActions :: "state_def \<Rightarrow> (string \<times> transition_actions) list" where
  "collectTransitionsWithActions (HumanGateState g) = map (\<lambda>t. (gt_to t, gt_actions t)) (sg_transitions g)"
| "collectTransitionsWithActions s = map (\<lambda>t. (at_to t, at_actions t)) (execTransitions s)"

definition validateTransitionActions :: "string \<Rightarrow> state_def \<Rightarrow> string list \<Rightarrow> issue list" where
  "validateTransitionActions stateId s names =
     concat (map (\<lambda>(target, actions).
       map (ResetUnknownState stateId target) (filter (\<lambda>i. i \<notin> set names) (concat actions)))
       (collectTransitionsWithActions s))"

fun whenValueFits :: "string \<Rightarrow> jsval \<Rightarrow> bool" where
  "whenValueFits k v =
     (if k = ''completed'' then (case v of JBool _ \<Rightarrow> True | _ \<Rightarrow> False)
      else if k = ''verdict'' \<or> k = ''confidence'' then (case v of JStr _ \<Rightarrow> True | _ \<Rightarrow> False)
      else if k = ''testCount'' then (case v of JNum _ \<Rightarrow> True | JNull \<Rightarrow> True | _ \<Rightarrow> False)
      else (case v of JStr _ \<Rightarrow> True | JNull \<Rightarrow> True | _ \<Rightarrow> False))"

definition whenEntryIssues :: "string \<Rightarrow> string \<Rightarrow> string \<Rightarrow> jsval \<Rightarrow> issue list" where
  "whenEntryIssues stateId target k v =
     (if k \<notin> set AGENT_OUTPUT_FIELDS then [UnknownWhenKey stateId target k]
      else if \<not> whenValueFits k v then [WrongWhenType stateId target k]
      else (case v of
              JStr s \<Rightarrow> (if k = ''confidence'' \<and> s \<notin> set CONFIDENCE_VALUES then [BadConfidence stateId target s] else [])
            | _ \<Rightarrow> []))"

text \<open>An empty guard name is falsy.\<close>

definition hasGuard :: "agent_transition \<Rightarrow> bool" where
  "hasGuard t = (case at_guard t of None \<Rightarrow> False | Some g \<Rightarrow> g \<noteq> [])"

definition whenIssues :: "string \<Rightarrow> agent_transition \<Rightarrow> issue list" where
  "whenIssues stateId t =
     (case at_when t of
        None \<Rightarrow> []
      | Some w \<Rightarrow>
          (if hasGuard t then [GuardAndWhen stateId (at_to t)] else []) @
          (if w = [] then [EmptyWhen stateId (at_to t)] else []) @
          map (NonVerdictKey stateId (at_to t)) (filter (\<lambda>k. k \<noteq> ''verdict'') (map fst w)) @
          concat (map (\<lambda>(k, v). whenEntryIssues stateId (at_to t) k v) w))"

definition validateWhenClauses :: "string \<Rightarrow> state_def \<Rightarrow> issue list" where
  "validateWhenClauses stateId s = concat (map (whenIssues stateId) (execTransitions s))"

section \<open>Fan-out\<close>

definition computeEffectiveMaxWorkers :: "workflow_definition \<Rightarrow> nat" where
  "computeEffectiveMaxWorkers d =
     foldl (\<lambda>m (_, s). case stateFanOut s of None \<Rightarrow> m | Some fo \<Rightarrow> max m (resolveFanOutWorkers fo (wd_settings d)))
       (orElse (setting ws_workers d) 1) (wd_states d)"

definition segmentMemberIssues :: "workflow_definition \<Rightarrow> string \<Rightarrow> string \<Rightarrow> issue list" where
  "segmentMemberIssues d stateId memberId =
     (case stateOf d memberId of
        None \<Rightarrow> [FanOutUnknownMember stateId memberId]
      | Some member \<Rightarrow>
          (if isGateState member then [FanOutGateMember stateId memberId]
           else if \<not> stateFanOutMember member then [FanOutMemberUnmarked stateId memberId]
           else []))"

definition validateFanOutState :: "workflow_definition \<Rightarrow> string \<Rightarrow> state_def \<Rightarrow> issue list" where
  "validateFanOutState d stateId s =
     (let segment = orElse (stateSegment s) []
      in if segment = [] then [FanOutEmptySegment stateId]
         else concat (map (segmentMemberIssues d stateId) segment))"

datatype result_file_verdict = RfSafe | RfHardcodedLane | RfUnscoped

text \<open>A path segment \<open>lane_\<close> and digits, and the placeholder segment.\<close>

definition isHardcodedLane :: "string \<Rightarrow> bool" where
  "isHardcodedLane seg = (startsWith seg ''lane_'' \<and> drop 5 seg \<noteq> [] \<and> list_all isDigit (drop 5 seg))"

definition LANE_PLACEHOLDER :: string where
  "LANE_PLACEHOLDER = ''lane_${laneId}''"

definition isRootedUnderPumpCurrentDir :: "string \<Rightarrow> bool" where
  "isRootedUnderPumpCurrentDir normalized =
     list_ex (\<lambda>currentDir. startsWith normalized (pathNormalize currentDir @ ''/''))
       [DEFAULT_EVOLVE_LANE_RELATIVE_DIR, DEFAULT_EVOLVE_LANE_DIR]"

definition classifyFanOutResultFile :: "string \<Rightarrow> result_file_verdict" where
  "classifyFanOutResultFile resultFile =
     (let normalized = pathNormalize resultFile; segs = splitOn (CHR ''/'') normalized
      in if list_ex isHardcodedLane segs then RfHardcodedLane
         else if LANE_PLACEHOLDER \<in> set segs then RfSafe
         else if isRootedUnderPumpCurrentDir normalized then RfSafe
         else RfUnscoped)"

text \<open>The regular expressions of the greedy-sampler heuristic, matched at one position of the text.\<close>

definition afterWord :: "string \<Rightarrow> bool" where
  "afterWord rest = (case rest of [] \<Rightarrow> True | c # _ \<Rightarrow> \<not> isWordChar c)"

definition greedyHere :: "string \<Rightarrow> bool" where
  "greedyHere s =
     (let s' = (case s of c # cs \<Rightarrow> if c = CHR 0x22 \<or> c = CHR 0x27 then cs else s | [] \<Rightarrow> [])
      in startsWith (toLowerCase s') ''greedy'' \<and> afterWord (drop 6 s'))"

definition greedyFlagHere :: "string \<Rightarrow> bool" where
  "greedyFlagHere s =
     (startsWith (toLowerCase s) ''--sampling-algorithm'' \<and>
      (let r = drop 20 s
       in (startsWith r ''='' \<and> greedyHere (drop 1 r)) \<or>
          (takeWhile isSpace r \<noteq> [] \<and> greedyHere (dropWhile isSpace r))))"

definition greedyFieldHere :: "char option \<Rightarrow> string \<Rightarrow> bool" where
  "greedyFieldHere before s =
     ((case before of None \<Rightarrow> True | Some c \<Rightarrow> \<not> isWordChar c) \<and>
      startsWith (toLowerCase s) ''sampling'' \<and>
      (case drop 8 s of
         [] \<Rightarrow> False
       | sep # r \<Rightarrow>
           sep \<in> set ''_-. '' \<and> startsWith (toLowerCase r) ''algorithm'' \<and>
           (case dropWhile isSpace (drop 9 r) of
              [] \<Rightarrow> False
            | op # r' \<Rightarrow> (op = CHR '':'' \<or> op = CHR ''='') \<and> greedyHere (dropWhile isSpace r'))))"

fun greedyFrom :: "char option \<Rightarrow> string \<Rightarrow> bool" where
  "greedyFrom before [] = False"
| "greedyFrom before (c # cs) =
     (greedyFlagHere (c # cs) \<or> greedyFieldHere before (c # cs) \<or> greedyFrom (Some c) cs)"

definition declaresGreedySamplerText :: "string \<Rightarrow> bool" where
  "declaresGreedySamplerText text = greedyFrom None text"

fun declaresGreedySamplerArgv :: "string list \<Rightarrow> bool" where
  "declaresGreedySamplerArgv [] = False"
| "declaresGreedySamplerArgv (arg # rest) =
     (toLowerCase arg = ''--sampling-algorithm=greedy'' \<or>
      (arg = ''--sampling-algorithm'' \<and> (case rest of [] \<Rightarrow> False | n # _ \<Rightarrow> toLowerCase n = ''greedy'')) \<or>
      declaresGreedySamplerArgv rest)"

fun stateDeclaresGreedy :: "state_def \<Rightarrow> bool" where
  "stateDeclaresGreedy (AgentState a) = declaresGreedySamplerText (sa_prompt a)"
| "stateDeclaresGreedy (DeterministicState d) = list_ex declaresGreedySamplerArgv (sd_run d)"
| "stateDeclaresGreedy _ = False"

definition workflowDeclaresGreedySampler :: "workflow_definition \<Rightarrow> bool" where
  "workflowDeclaresGreedySampler d = list_ex (stateDeclaresGreedy \<circ> snd) (wd_states d)"

definition resultFileIssues :: "nat \<Rightarrow> string \<Rightarrow> state_def \<Rightarrow> issue list" where
  "resultFileIssues effectiveWorkers stateId s =
     (case s of
        DeterministicState det \<Rightarrow>
          (case sd_resultFile det of
             None \<Rightarrow> []
           | Some f \<Rightarrow>
               (if effectiveWorkers > 1 \<and> sd_fanOutMember det = Some True then
                  (case classifyFanOutResultFile f of
                     RfHardcodedLane \<Rightarrow> [HardcodedLane stateId f effectiveWorkers]
                   | RfUnscoped \<Rightarrow> [UnscopedResultFile stateId f effectiveWorkers]
                   | RfSafe \<Rightarrow> [])
                else []))
      | _ \<Rightarrow> [])"

definition validateFanOutScaffolding :: "workflow_definition \<Rightarrow> issue list" where
  "validateFanOutScaffolding d =
     (let effectiveWorkers = computeEffectiveMaxWorkers d
      in concat (map (\<lambda>(stateId, s).
           (if isExecutableState s \<and> stateFanOut s \<noteq> None then validateFanOutState d stateId s else []) @
           (if isExecutableState s \<and> stateSchedule s = Some PoolEval \<and> \<not> stateFanOutMember s
            then [EvalPoolOutsideFanOut stateId] else []) @
           resultFileIssues effectiveWorkers stateId s) (wd_states d)) @
         (if effectiveWorkers > 1 \<and> workflowDeclaresGreedySampler d then [GreedyWithLanes effectiveWorkers] else []))"

section \<open>Semantic validation\<close>

definition validateArtifactHandoff :: "workflow_definition \<Rightarrow> string \<Rightarrow> agent_state_def \<Rightarrow> issue list" where
  "validateArtifactHandoff d stateId a =
     (case sa_artifactHandoff a of
        None \<Rightarrow> []
      | Some requiredFiles \<Rightarrow>
          (case sa_transitions a of
             [t] \<Rightarrow>
               (if hasGuard t \<or> at_when t \<noteq> None then [HandoffNeedsOneTransition stateId]
                else (case stateOf d (at_to t) of
                        None \<Rightarrow> []
                      | Some target \<Rightarrow> (if isExecutableState target then [] else [HandoffBadTarget stateId (at_to t)])))
           | _ \<Rightarrow> [HandoffNeedsOneTransition stateId]) @
          map (HandoffBadFile stateId)
            (filter (\<lambda>f. \<not> isSafeWorkspaceRelativePath f \<or> \<not> list_ex (\<lambda>name. startsWith f (name @ ''/'')) (sa_outputs a))
               requiredFiles))"

definition validateHumanGate :: "string \<Rightarrow> gate_state_def \<Rightarrow> issue list" where
  "validateHumanGate stateId g =
     (if sg_transitions g = [] then [GateWithoutTransition stateId] else []) @
     map (\<lambda>t. GateEventNotAccepted stateId (gt_event t))
       (filter (\<lambda>t. gt_event t \<notin> set (sg_acceptedEvents g)) (sg_transitions g))"

definition scopeIssues :: "workflow_definition \<Rightarrow> string \<Rightarrow> state_def \<Rightarrow> issue list" where
  "scopeIssues d stateId s =
     (let shared = (setting ws_sharedContainer d = Some True);
          docker = (orElse (setting ws_mode d) ModeDocker = ModeDocker)
      in case s of
           AgentState a \<Rightarrow>
             (case sa_containerScope a of
                None \<Rightarrow> []
              | Some scope \<Rightarrow>
                  (if \<not> shared then [ScopeWithoutShared stateId scope] else []) @
                  (if \<not> docker then [ScopeWithoutDocker stateId scope] else []))
         | DeterministicState det \<Rightarrow>
             (if sd_containerScope det \<noteq> None \<and> sd_container det \<noteq> Some True then [ScopeWithoutContainer stateId] else []) @
             (if (sd_resultFile det \<noteq> None \<or> (sd_fanOut det = None \<and> usesVerdictEdges (sd_transitions det))) \<and>
                 sd_container det \<noteq> Some True then [ResultWithoutContainer stateId] else []) @
             (case sd_resultFile det of
                None \<Rightarrow> []
              | Some f \<Rightarrow> (if isSafeWorkspaceRelativePath f then [] else [UnsafeResultFile stateId f])) @
             (if sd_container det = Some True \<and> \<not> shared then [ContainerWithoutShared stateId] else []) @
             (if sd_container det = Some True \<and> \<not> docker then [ContainerWithoutDocker stateId] else [])
         | _ \<Rightarrow> [])"

definition validateContainerScopes :: "workflow_definition \<Rightarrow> issue list" where
  "validateContainerScopes d = concat (map (\<lambda>(stateId, s). scopeIssues d stateId s) (wd_states d))"

definition validateArtifactInputs :: "workflow_definition \<Rightarrow> issue list" where
  "validateArtifactInputs d =
     (let available = collectOutputArtifacts (wd_states d)
      in concat (map (\<lambda>(stateId, s). case s of
           AgentState a \<Rightarrow>
             concat (map (\<lambda>input. let (name, isOptional) = parseArtifactRef input
               in if \<not> isOptional \<and> name \<notin> set available then [InputNotProduced stateId name] else []) (sa_inputs a))
         | _ \<Rightarrow> []) (wd_states d)))"

definition stateIssues :: "workflow_definition \<Rightarrow> string \<Rightarrow> state_def \<Rightarrow> issue list" where
  "stateIssues d stateId s =
     map (UnknownTarget stateId) (filter (\<lambda>t. t \<notin> set (stateNames d)) (collectTransitionTargets s)) @
     map (UnregisteredGuard stateId) (filter (\<lambda>g. g \<notin> set REGISTERED_GUARDS) (collectGuardNames s)) @
     validateTransitionActions stateId s (stateNames d) @
     validateWhenClauses stateId s @
     (case s of
        AgentState a \<Rightarrow> validateArtifactHandoff d stateId a
      | HumanGateState g \<Rightarrow> validateHumanGate stateId g
      | _ \<Rightarrow> [])"

text \<open>The issues of a definition; the code throws them together when there are any.\<close>

definition validateSemantics :: "workflow_definition \<Rightarrow> issue list" where
  "validateSemantics d =
     (if wd_initial d \<in> set (stateNames d) then [] else [InitialMissing (wd_initial d)]) @
     (if list_ex (isTerminalState \<circ> snd) (wd_states d) then [] else [NoTerminalState]) @
     concat (map (\<lambda>(stateId, s). stateIssues d stateId s) (wd_states d)) @
     (let reachable = findReachableStates (wd_initial d) (wd_states d)
      in map Unreachable (filter (\<lambda>n. n \<notin> set reachable) (stateNames d))) @
     validateArtifactInputs d @
     validateContainerScopes d @
     validateFanOutScaffolding d"

definition validateDefinition ::
  "(jsval \<Rightarrow> string list + workflow_definition) \<Rightarrow> jsval \<Rightarrow> issue list + workflow_definition" where
  "validateDefinition schemaParse raw =
     (let rawIssues = validateRawInput raw
      in if rawIssues \<noteq> [] then Inl rawIssues
         else case schemaParse raw of
                Inl messages \<Rightarrow> Inl (map SchemaIssue messages)
              | Inr parsed \<Rightarrow>
                  (let issues = validateSemantics parsed in if issues \<noteq> [] then Inl issues else Inr parsed))"

section \<open>Skill references\<close>

definition validateSkillName :: "string \<Rightarrow> bool" where
  "validateSkillName name =
     (if name = [] then False
      else if name = ''.'' \<or> name = ''..'' then False
      else \<not> (CHR ''/'' \<in> set name \<or> CHR 0x5C \<in> set name))"

definition iterateSkillRefIssues :: "workflow_definition \<Rightarrow> string list \<Rightarrow> issue list" where
  "iterateSkillRefIssues d discoveredNames =
     concat (map (\<lambda>(stateId, s). case s of
         AgentState a \<Rightarrow>
           (case sa_skills a of
              Some (SkillsOnly names) \<Rightarrow>
                concat (map (\<lambda>name.
                  if \<not> validateSkillName name then [InvalidSkillName stateId name]
                  else if name \<notin> set discoveredNames then [UnknownSkill stateId name] else []) names)
            | _ \<Rightarrow> [])
       | _ \<Rightarrow> []) (wd_states d))"

end
