(* ===== verification/Workflow_Status.thy ===== *)
theory Workflow_Status
  imports Workflow_Types
begin

text \<open>
  The status block at the end of an agent's response (\<open>src/workflow/status-parser.ts\<close>): the scan for
  fenced blocks, the extraction and removal of the block, its parsing, and the verdicts a state can
  route on. The YAML parser is a parameter that returns an error text or a value. The prose of the
  instructions to the agent is left out.
\<close>

section \<open>Fenced blocks\<close>

record fenced_block =
  fb_raw :: string
  fb_start :: nat
  fb_end :: nat

text \<open>An open fence: its marker, where it starts, and the content read so far.\<close>

record open_fence =
  of_marker :: string
  of_start :: nat
  of_raw :: string

text \<open>The lines of a text with their terminators: what the loop reads from one \<open>start\<close> to the next.\<close>

fun linesOf :: "string \<Rightarrow> string list" where
  "linesOf [] = []"
| "linesOf (c # cs) =
     (if c = CHR 0x0A then [c] # linesOf cs
      else case linesOf cs of [] \<Rightarrow> [[c]] | l # ls \<Rightarrow> (c # l) # ls)"

text \<open>A line without its newline and one carriage return before it.\<close>

definition dropLast :: "char \<Rightarrow> string \<Rightarrow> string" where
  "dropLast c s = (if s \<noteq> [] \<and> last s = c then butlast s else s)"

definition lineContent :: "string \<Rightarrow> string" where
  "lineContent l = dropLast (CHR 0x0D) (dropLast (CHR 0x0A) l)"

text \<open>At most three spaces, then a run of at least three backticks or tildes: the run and the rest.\<close>

definition fenceRun :: "string \<Rightarrow> (string \<times> string) option" where
  "fenceRun content =
     (let n = length (takeWhile (\<lambda>c. c = CHR '' '') content); s = drop n content
      in if n > 3 then None
         else case s of
                [] \<Rightarrow> None
              | c # _ \<Rightarrow>
                  (if c = CHR 0x60 \<or> c = CHR ''~'' then
                     (let run = takeWhile (\<lambda>x. x = c) s
                      in if length run \<ge> 3 then Some (run, drop (length run) s) else None)
                   else None))"

definition openingFence :: "string \<Rightarrow> string option" where
  "openingFence content =
     (case fenceRun content of
        None \<Rightarrow> None
      | Some (run, rest) \<Rightarrow>
          (if list_ex isLineTerm rest then None
           else if hd run = CHR 0x60 \<and> CHR 0x60 \<in> set rest then None
           else Some run))"

definition closesFence :: "string \<Rightarrow> string \<Rightarrow> bool" where
  "closesFence marker content =
     (case fenceRun content of
        None \<Rightarrow> False
      | Some (run, rest) \<Rightarrow>
          list_all (\<lambda>c. c = CHR '' '' \<or> c = CHR 0x09) rest \<and> hd run = hd marker \<and> length run \<ge> length marker)"

fun scanFences :: "open_fence option \<Rightarrow> nat \<Rightarrow> string list \<Rightarrow> fenced_block list" where
  "scanFences opn start [] = []"
| "scanFences (Some f) start (l # ls) =
     (if closesFence (of_marker f) (lineContent l)
      then \<lparr>fb_raw = of_raw f, fb_start = of_start f, fb_end = start + length l\<rparr> # scanFences None (start + length l) ls
      else scanFences (Some (f\<lparr>of_raw := of_raw f @ l\<rparr>)) (start + length l) ls)"
| "scanFences None start (l # ls) =
     (case openingFence (lineContent l) of
        Some marker \<Rightarrow> scanFences (Some \<lparr>of_marker = marker, of_start = start, of_raw = []\<rparr>) (start + length l) ls
      | None \<Rightarrow> scanFences None (start + length l) ls)"

definition findFencedBlocks :: "string \<Rightarrow> fenced_block list" where
  "findFencedBlocks text = scanFences None 0 (linesOf text)"

definition isStatusRaw :: "string \<Rightarrow> bool" where
  "isStatusRaw raw =
     (startsWith raw ''agent_status:'' \<and>
      (let rest = drop 13 raw in rest = [] \<or> startsWith rest [CHR 0x0A] \<or> startsWith rest [CHR 0x0D, CHR 0x0A]))"

definition isStatusFence :: "fenced_block \<Rightarrow> bool" where
  "isStatusFence f = isStatusRaw (fb_raw f)"

definition extractFinalStatusFence :: "string \<Rightarrow> fenced_block option" where
  "extractFinalStatusFence responseText =
     (let blocks = findFencedBlocks responseText
      in if blocks = [] \<or> \<not> isStatusFence (last blocks) then None
         else if list_all isSpace (drop (fb_end (last blocks)) responseText) then Some (last blocks) else None)"

definition trimEnd :: "string \<Rightarrow> string" where
  "trimEnd s = rev (dropWhile isSpace (rev s))"

definition stripStatusBlock :: "string \<Rightarrow> string" where
  "stripStatusBlock responseText =
     (case extractFinalStatusFence responseText of
        None \<Rightarrow> responseText
      | Some fence \<Rightarrow> trimEnd (take (fb_start fence) responseText))"

text \<open>\<open>slice(a, b)\<close>.\<close>

definition sliceText :: "nat \<Rightarrow> nat \<Rightarrow> string \<Rightarrow> string" where
  "sliceText a b s = take (b - a) (drop a s)"

fun keptParts :: "string \<Rightarrow> nat \<Rightarrow> fenced_block list \<Rightarrow> string list" where
  "keptParts text cursor [] = [drop cursor text]"
| "keptParts text cursor (f # fs) = sliceText cursor (fb_start f) text # keptParts text (fb_end f) fs"

definition stripAgentStatusFences :: "string \<Rightarrow> string" where
  "stripAgentStatusFences responseText =
     (let statusFences = filter isStatusFence (findFencedBlocks responseText)
      in if statusFences = [] then responseText
         else trimEnd (concat (keptParts responseText 0 statusFences)))"

section \<open>Parsing\<close>

text \<open>A field of the schema with a default for a missing value; the outer option is a failure.\<close>

definition boolField :: "bool \<Rightarrow> jsval \<Rightarrow> bool option" where
  "boolField dflt v = (case v of JUndefined \<Rightarrow> Some dflt | JBool b \<Rightarrow> Some b | _ \<Rightarrow> None)"

definition confidenceField :: "jsval \<Rightarrow> confidence option" where
  "confidenceField v =
     (case v of
        JUndefined \<Rightarrow> Some High
      | JStr s \<Rightarrow> (if s = ''high'' then Some High else if s = ''medium'' then Some Medium
                  else if s = ''low'' then Some Low else None)
      | _ \<Rightarrow> None)"

definition nullableString :: "jsval \<Rightarrow> string option option" where
  "nullableString v =
     (case v of JUndefined \<Rightarrow> Some None | JNull \<Rightarrow> Some None | JStr s \<Rightarrow> Some (Some s) | _ \<Rightarrow> None)"

definition nullableInt :: "jsval \<Rightarrow> int option option" where
  "nullableInt v =
     (case v of
        JUndefined \<Rightarrow> Some None
      | JNull \<Rightarrow> Some None
      | JNum n \<Rightarrow> (if of_int \<lfloor>n\<rfloor> = n then Some (Some \<lfloor>n\<rfloor>) else None)
      | _ \<Rightarrow> None)"

definition agentOutputSchema :: "jsval \<Rightarrow> agent_output option" where
  "agentOutputSchema v =
     (case v of
        JObj obj \<Rightarrow>
          (case (boolField True (getProp obj ''completed''), getProp obj ''verdict'', confidenceField (getProp obj ''confidence''),
                 nullableString (getProp obj ''escalation''), nullableInt (getProp obj ''test_count''),
                 nullableString (getProp obj ''notes'')) of
             (Some completed, JStr verdict, Some conf, Some escalation, Some testCount, Some notes) \<Rightarrow>
               (if verdict = [] then None
                else Some \<lparr>ao_completed = completed, ao_verdict = verdict, ao_confidence = conf,
                           ao_escalation = escalation, ao_testCount = testCount, ao_notes = notes\<rparr>)
           | _ \<Rightarrow> None)
      | _ \<Rightarrow> None)"

text \<open>The value under \<open>agent_status\<close>, or the parent when that is empty and a verdict stands beside it.\<close>

definition unwrapStatus :: "jsval \<Rightarrow> jsval" where
  "unwrapStatus parsed =
     (case parsed of
        JObj obj \<Rightarrow>
          (if hasProp obj ''agent_status'' then
             (case getProp obj ''agent_status'' of
                JObj inner \<Rightarrow> JObj inner
              | JArr xs \<Rightarrow> JArr xs
              | nested \<Rightarrow> (if hasProp obj ''verdict'' then parsed else nested))
           else parsed)
      | _ \<Rightarrow> parsed)"

datatype status_error = YamlError string string | MalformedBlock string

text \<open>No block is \<open>Inr None\<close>; the error carries the raw block.\<close>

definition parseAgentStatus :: "(string \<Rightarrow> string + jsval) \<Rightarrow> string \<Rightarrow> status_error + agent_output option" where
  "parseAgentStatus yamlParse responseText =
     (case extractFinalStatusFence responseText of
        None \<Rightarrow> Inr None
      | Some fence \<Rightarrow>
          (case yamlParse (fb_raw fence) of
             Inl msg \<Rightarrow> Inl (YamlError msg (fb_raw fence))
           | Inr parsed \<Rightarrow>
               (case agentOutputSchema (unwrapStatus parsed) of
                  None \<Rightarrow> Inl (MalformedBlock (fb_raw fence))
                | Some out \<Rightarrow> Inr (Some out))))"

section \<open>Verdicts\<close>

definition whenVerdict :: "agent_transition \<Rightarrow> string option" where
  "whenVerdict t =
     (case at_when t of
        None \<Rightarrow> None
      | Some w \<Rightarrow> (case getProp w ''verdict'' of JStr v \<Rightarrow> Some v | _ \<Rightarrow> None))"

definition extractVerdictValues :: "agent_transition list \<Rightarrow> string list" where
  "extractVerdictValues ts = uniq (List.map_filter whenVerdict ts)"

definition isUnconditional :: "agent_transition \<Rightarrow> bool" where
  "isUnconditional t = ((case at_guard t of None \<Rightarrow> True | Some g \<Rightarrow> g = []) \<and> at_when t = None)"

definition getValidVerdicts :: "agent_transition list \<Rightarrow> string list option" where
  "getValidVerdicts ts =
     (if list_ex isUnconditional ts then None
      else let verdicts = extractVerdictValues ts in if verdicts = [] then None else Some verdicts)"

definition buildInvalidVerdictReprompt :: "string \<Rightarrow> agent_transition list \<Rightarrow> string" where
  "buildInvalidVerdictReprompt invalidVerdict ts =
     joinWith [CHR 0x0A]
       ([''Your verdict '' @ [CHR 0x22] @ invalidVerdict @ [CHR 0x22] @ '' is not a valid routing option for this state.'',
         [], ''Valid verdicts for this state:''] @
        List.map_filter (\<lambda>t. map_option (\<lambda>v. ''- '' @ v @ '': dispatches to '' @ at_to t) (whenVerdict t)) ts @
        [[], ''Please revise your response and use one of the valid verdicts above.'', [],
         ''Include the required '' @ [CHR 0x60] @ ''agent_status'' @ [CHR 0x60] @
         '' YAML block with your chosen verdict in your revised response.''])"

end
