(* ===== verification/Workflow_Machine.thy ===== *)
theory Workflow_Machine
  imports Workflow_Validate Workflow_Status
begin

text \<open>
  The state machine of a workflow (\<open>src/workflow/machine-builder.ts\<close>): the configuration built from a
  definition, the child machines of fan-out segments, the guards and the context updates. The
  statechart library that runs a configuration is not part of the repository: it is the parameter of
  the locale \<open>statechart\<close>, whose laws are what the library documents.
\<close>

section \<open>Results of services\<close>

record agent_result =
  ar_output :: agent_output
  ar_conversation :: string
  ar_artifacts :: "(string \<times> string) list"
  ar_outputHash :: string
  ar_responseText :: string
  ar_totalTokens :: nat

record deterministic_result =
  dr_passed :: bool
  dr_testCount :: "int option"
  dr_errors :: "string option"
  dr_verdict :: "string option"
  dr_payload :: "jsobj option"

text \<open>A rejection: its message and, for an agent invocation error, the state and the conversation.\<close>

record service_error =
  se_message :: string
  se_invocation :: "(string \<times> string) option"

text \<open>The events of a run; the done and error events carry the state whose service they come from.\<close>

datatype machine_event =
    DoneAgent string agent_result
  | DoneDeterministic string deterministic_result
  | DoneFanOut string deterministic_result workflow_context
  | ServiceError string service_error
  | GateEvent human_gate_event "string option"

section \<open>Truncation of agent output\<close>

definition MAX_AGENT_OUTPUT_BYTES :: nat where
  "MAX_AGENT_OUTPUT_BYTES = 32768"

definition TRUNCATION_NOTICE :: string where
  "TRUNCATION_NOTICE =
     [CHR 0x0A, CHR 0x0A] @ ''[Output truncated. Read the artifact directories for full details.]''"

text \<open>The loop keeps \<open>floor(0.9 * length)\<close> characters while the text is over the budget.\<close>

function shrinkTo :: "nat \<Rightarrow> string \<Rightarrow> string" where
  "shrinkTo budget truncated =
     (if length truncated > budget then shrinkTo budget (take (9 * length truncated div 10) truncated)
      else truncated)"
  by pat_completeness auto
termination
  by (relation "measure (\<lambda>(b, t). length t)") auto

declare shrinkTo.simps [simp del]

definition truncateAgentOutput :: "string \<Rightarrow> string" where
  "truncateAgentOutput text =
     (let sanitized = replaceAll [CHR 0x00] (CHR 0x5C # ''x00'') text
      in if length sanitized \<le> MAX_AGENT_OUTPUT_BYTES then sanitized
         else shrinkTo (MAX_AGENT_OUTPUT_BYTES - length TRUNCATION_NOTICE) sanitized @ TRUNCATION_NOTICE)"

section \<open>The configuration\<close>

datatype guard_ref = NamedGuard string | MatchesWhen jsobj

datatype machine_action =
    UpdateFromAgentResult
  | UpdateFromDeterministicResult
  | UpdateFromFanOutResult
  | StoreHumanPrompt
  | ClearError
  | StoreError
  | UpdateFromInvocationError
  | IncrementVisitCount string
  | ResetVisitCounts "string list"

record machine_transition =
  mt_target :: string
  mt_guard :: "guard_ref option"
  mt_actions :: "machine_action list"

datatype service = AgentService | DeterministicService | FanOutService

datatype machine_node =
    InvokeNode "machine_action list" service "machine_transition list" machine_transition
  | GateNode "(human_gate_event \<times> machine_transition) list"
  | FinalNode

record workflow_machine =
  wm_id :: string
  wm_initial :: string
  wm_states :: "(string \<times> machine_node) list"
  wm_maxVisits :: "(string \<times> nat) list"

text \<open>\<open>createInitialContext\<close> with the task description.\<close>

definition createInitialContext :: "workflow_definition \<Rightarrow> string \<Rightarrow> workflow_context" where
  "createInitialContext d task =
     \<lparr>cx_taskDescription = task, cx_lane = None, cx_artifacts = [], cx_round = 0,
      cx_maxRounds = orElse (setting ws_maxRounds d) 4, cx_previousOutputHashes = [], cx_previousTestCount = None,
      cx_lastDeterministicResult = None, cx_humanPrompt = None, cx_reviewHistory = [], cx_totalTokens = 0,
      cx_lastError = None, cx_agentConversationsByState = [], cx_previousAgentOutput = None,
      cx_previousAgentNotes = None, cx_previousStateName = None, cx_visitCounts = []\<rparr>"

text \<open>\<open>findErrorTarget\<close>; \<open>None\<close> is an exception. The first loop reads the type of every target it passes,
  so a target that is not a state throws.\<close>

fun gateTarget :: "workflow_definition \<Rightarrow> agent_transition list \<Rightarrow> string option option" where
  "gateTarget d [] = Some None"
| "gateTarget d (t # ts) =
     (case stateOf d (at_to t) of
        None \<Rightarrow> None
      | Some s \<Rightarrow> if isGateState s then Some (Some (at_to t)) else gateTarget d ts)"

definition findErrorTarget :: "agent_transition list \<Rightarrow> workflow_definition \<Rightarrow> string option" where
  "findErrorTarget transitions d =
     (case gateTarget d transitions of
        None \<Rightarrow> None
      | Some (Some gate) \<Rightarrow> Some gate
      | Some None \<Rightarrow>
          (case find (\<lambda>(i, s). isTerminalState s \<and> (i = ''aborted'' \<or> i = ''failed'')) (wd_states d) of
             Some (i, _) \<Rightarrow> Some i
           | None \<Rightarrow>
               (case find (\<lambda>(i, s). isTerminalState s) (wd_states d) of
                  Some (i, _) \<Rightarrow> Some i
                | None \<Rightarrow> (case transitions of [] \<Rightarrow> None | t # _ \<Rightarrow> Some (at_to t)))))"

definition collectTransitionActions :: "transition_actions \<Rightarrow> machine_action list \<Rightarrow> machine_action list" where
  "collectTransitionActions actions defaults = defaults @ map ResetVisitCounts actions"

definition buildGuard :: "agent_transition \<Rightarrow> guard_ref option" where
  "buildGuard t =
     (case at_when t of
        Some w \<Rightarrow> Some (MatchesWhen w)
      | None \<Rightarrow> (if hasGuard t then map_option NamedGuard (at_guard t) else None))"

definition buildOnDoneTransitions :: "machine_action \<Rightarrow> agent_transition list \<Rightarrow> machine_transition list" where
  "buildOnDoneTransitions updateAction transitions =
     map (\<lambda>t. \<lparr>mt_target = at_to t, mt_guard = buildGuard t,
               mt_actions = collectTransitionActions (at_actions t) [updateAction]\<rparr>) transitions"

definition errorTransition :: "string \<Rightarrow> machine_action list \<Rightarrow> machine_transition" where
  "errorTransition target actions = \<lparr>mt_target = target, mt_guard = None, mt_actions = actions\<rparr>"

text \<open>The nodes; the option is the forced error target of a child machine. \<open>None\<close> is an exception.\<close>

definition buildAgentState ::
  "string option \<Rightarrow> workflow_definition \<Rightarrow> string \<Rightarrow> agent_state_def \<Rightarrow> machine_node option" where
  "buildAgentState onErrorTarget d stateId a =
     map_option (\<lambda>target.
         InvokeNode [IncrementVisitCount stateId] AgentService
           (buildOnDoneTransitions UpdateFromAgentResult (sa_transitions a))
           (errorTransition target [StoreError, UpdateFromInvocationError]))
       (case onErrorTarget of Some t \<Rightarrow> Some t | None \<Rightarrow> findErrorTarget (sa_transitions a) d)"

definition buildDeterministicState ::
  "string option \<Rightarrow> workflow_definition \<Rightarrow> string \<Rightarrow> deterministic_state_def \<Rightarrow> machine_node option" where
  "buildDeterministicState onErrorTarget d stateId s =
     map_option (\<lambda>target.
         InvokeNode [] DeterministicService
           (buildOnDoneTransitions UpdateFromDeterministicResult (sd_transitions s))
           (errorTransition target [StoreError]))
       (case onErrorTarget of Some t \<Rightarrow> Some t | None \<Rightarrow> findErrorTarget (sd_transitions s) d)"

definition buildFanOutState :: "workflow_definition \<Rightarrow> agent_transition list \<Rightarrow> machine_node option" where
  "buildFanOutState d transitions =
     map_option (\<lambda>target.
         InvokeNode [] FanOutService (buildOnDoneTransitions UpdateFromFanOutResult transitions)
           (errorTransition target [StoreError]))
       (findErrorTarget transitions d)"

text \<open>The \<open>on\<close> object: a later transition on the same event replaces an earlier one.\<close>

definition buildHumanGateState :: "gate_state_def \<Rightarrow> machine_node" where
  "buildHumanGateState g =
     GateNode (foldl (\<lambda>on t. AList.update (gt_event t)
         \<lparr>mt_target = gt_to t, mt_guard = None,
          mt_actions = collectTransitionActions (gt_actions t) [StoreHumanPrompt, ClearError]\<rparr> on) []
       (sg_transitions g))"

definition buildNode :: "string option \<Rightarrow> workflow_definition \<Rightarrow> string \<Rightarrow> state_def \<Rightarrow> machine_node option" where
  "buildNode onErrorTarget d stateId s =
     (case s of
        AgentState a \<Rightarrow>
          (if sa_fanOut a \<noteq> None then buildFanOutState d (sa_transitions a)
           else buildAgentState onErrorTarget d stateId a)
      | DeterministicState det \<Rightarrow>
          (if sd_fanOut det \<noteq> None then buildFanOutState d (sd_transitions det)
           else buildDeterministicState onErrorTarget d stateId det)
      | HumanGateState g \<Rightarrow> Some (buildHumanGateState g)
      | TerminalState _ \<Rightarrow> Some FinalNode)"

definition maxVisitsByState :: "workflow_definition \<Rightarrow> (string \<times> nat) list" where
  "maxVisitsByState d =
     List.map_filter (\<lambda>(i, s). case s of AgentState a \<Rightarrow> map_option (\<lambda>n. (i, n)) (sa_maxVisits a) | _ \<Rightarrow> None) (wd_states d)"

fun buildNodes ::
  "string option \<Rightarrow> workflow_definition \<Rightarrow> (string \<times> state_def) list \<Rightarrow> (string \<times> machine_node) list option" where
  "buildNodes onErrorTarget d [] = Some []"
| "buildNodes onErrorTarget d ((i, s) # rest) =
     (case buildNode onErrorTarget d i s of
        None \<Rightarrow> None
      | Some node \<Rightarrow> map_option (\<lambda>nodes. (i, node) # nodes) (buildNodes onErrorTarget d rest))"

definition buildMachine :: "string option \<Rightarrow> workflow_definition \<Rightarrow> workflow_machine option" where
  "buildMachine onErrorTarget d =
     map_option (\<lambda>nodes. \<lparr>wm_id = wd_name d, wm_initial = wd_initial d, wm_states = nodes, wm_maxVisits = maxVisitsByState d\<rparr>)
       (buildNodes onErrorTarget d (wd_states d))"

section \<open>Child machines of a fan-out segment\<close>

definition ROUND_CHILD_RECORDED :: string where "ROUND_CHILD_RECORDED = ''recorded''"
definition ROUND_CHILD_BLOCKED :: string where "ROUND_CHILD_BLOCKED = ''blocked''"
definition ROUND_CHILD_ERRORED :: string where "ROUND_CHILD_ERRORED = ''errored''"

text \<open>\<open>None\<close>: the target of the transition is not a state, and reading its type throws.\<close>

definition mapRoundChildTarget :: "workflow_definition \<Rightarrow> string list \<Rightarrow> agent_transition \<Rightarrow> string option" where
  "mapRoundChildTarget d segment t =
     (if at_to t \<in> set segment then Some (at_to t)
      else case whenVerdict t of
             Some v \<Rightarrow> Some (if v = ''recorded'' then ROUND_CHILD_RECORDED
                           else if v = ''evaluator_blocked'' then ROUND_CHILD_BLOCKED
                           else ROUND_CHILD_ERRORED)
           | None \<Rightarrow>
               (case stateOf d (at_to t) of
                  None \<Rightarrow> None
                | Some s \<Rightarrow> Some (if isGateState s then ROUND_CHILD_BLOCKED else ROUND_CHILD_ERRORED)))"

fun mapRoundTransitions ::
  "workflow_definition \<Rightarrow> string list \<Rightarrow> agent_transition list \<Rightarrow> agent_transition list option" where
  "mapRoundTransitions d segment [] = Some []"
| "mapRoundTransitions d segment (t # ts) =
     (case mapRoundChildTarget d segment t of
        None \<Rightarrow> None
      | Some target \<Rightarrow> map_option (\<lambda>rest. t\<lparr>at_to := target\<rparr> # rest) (mapRoundTransitions d segment ts))"

definition roundMember :: "workflow_definition \<Rightarrow> string list \<Rightarrow> string \<Rightarrow> state_def option" where
  "roundMember d segment memberId =
     (case stateOf d memberId of
        Some (AgentState a) \<Rightarrow>
          map_option (\<lambda>ts. AgentState (a\<lparr>sa_transitions := ts, sa_fanOut := None, sa_segment := None\<rparr>))
            (mapRoundTransitions d segment (sa_transitions a))
      | Some (DeterministicState s) \<Rightarrow>
          map_option (\<lambda>ts. DeterministicState (s\<lparr>sd_transitions := ts, sd_fanOut := None, sd_segment := None\<rparr>))
            (mapRoundTransitions d segment (sd_transitions s))
      | _ \<Rightarrow> None)"

definition roundTerminal :: "string \<Rightarrow> state_def" where
  "roundTerminal description = TerminalState \<lparr>st_description = description, st_outputs = None, st_cleanup = None\<rparr>"

text \<open>\<open>states[memberId] = \<dots>\<close>, member by member.\<close>

fun addRoundMembers ::
  "workflow_definition \<Rightarrow> string list \<Rightarrow> string list \<Rightarrow> (string \<times> state_def) list \<Rightarrow> (string \<times> state_def) list option" where
  "addRoundMembers d segment [] states = Some states"
| "addRoundMembers d segment (m # ms) states =
     (case roundMember d segment m of
        None \<Rightarrow> None
      | Some s \<Rightarrow> addRoundMembers d segment ms (setProp states m s))"

text \<open>The synthetic terminals are written after the members.\<close>

definition addRoundTerminals :: "string \<Rightarrow> (string \<times> state_def) list \<Rightarrow> (string \<times> state_def) list" where
  "addRoundTerminals fanOutStateId states =
     setProp (setProp (setProp states
       ROUND_CHILD_RECORDED (roundTerminal (''Fan-out segment '' @ [CHR 0x22] @ fanOutStateId @ [CHR 0x22] @ '' recorded successfully.'')))
       ROUND_CHILD_BLOCKED (roundTerminal (''Fan-out segment '' @ [CHR 0x22] @ fanOutStateId @ [CHR 0x22] @ '' needs human review.'')))
       ROUND_CHILD_ERRORED (roundTerminal (''Fan-out segment '' @ [CHR 0x22] @ fanOutStateId @ [CHR 0x22] @ '' failed.''))"

definition buildRoundChildDefinition :: "workflow_definition \<Rightarrow> string \<Rightarrow> string list \<Rightarrow> workflow_definition option" where
  "buildRoundChildDefinition d fanOutStateId segment =
     map_option (\<lambda>states.
         \<lparr>wd_name = wd_name d @ ''-'' @ fanOutStateId @ ''-round'',
          wd_description = ''Child round machine for '' @ wd_name d @ ''.'' @ fanOutStateId,
          wd_initial = hd segment, wd_states = addRoundTerminals fanOutStateId states, wd_settings = wd_settings d\<rparr>)
       (addRoundMembers d segment segment [])"

definition buildRoundMachine :: "workflow_definition \<Rightarrow> string \<Rightarrow> string list \<Rightarrow> workflow_machine option" where
  "buildRoundMachine d fanOutStateId segment =
     (case buildRoundChildDefinition d fanOutStateId segment of
        None \<Rightarrow> None
      | Some child \<Rightarrow> buildMachine (Some ROUND_CHILD_ERRORED) child)"

record build_result =
  br_machine :: workflow_machine
  br_roundMachines :: "(string \<times> workflow_machine) list"
  br_gates :: "string list"
  br_terminals :: "string list"

fun buildRoundMachines ::
  "workflow_definition \<Rightarrow> (string \<times> state_def) list \<Rightarrow> (string \<times> workflow_machine) list option" where
  "buildRoundMachines d [] = Some []"
| "buildRoundMachines d ((i, s) # rest) =
     (if stateFanOut s = None \<or> orElse (stateSegment s) [] = [] then buildRoundMachines d rest
      else case buildRoundMachine d i (orElse (stateSegment s) []) of
             None \<Rightarrow> None
           | Some m \<Rightarrow> map_option (\<lambda>ms. (i, m) # ms) (buildRoundMachines d rest))"

definition buildWorkflowMachine :: "workflow_definition \<Rightarrow> build_result option" where
  "buildWorkflowMachine d =
     (case buildMachine None d of
        None \<Rightarrow> None
      | Some m \<Rightarrow>
          map_option (\<lambda>rounds.
              \<lparr>br_machine = m, br_roundMachines = rounds,
               br_gates = map fst (filter (isGateState \<circ> snd) (wd_states d)),
               br_terminals = map fst (filter (isTerminalState \<circ> snd) (wd_states d))\<rparr>)
            (buildRoundMachines d (wd_states d)))"

section \<open>Guards\<close>

text \<open>The workflow event a done event stands for.\<close>

definition validationEvent :: "deterministic_result \<Rightarrow> workflow_event" where
  "validationEvent r =
     (if dr_passed r then ValidationPassed (orElse (dr_testCount r) 0)
      else ValidationFailed (orElse (dr_errors r) ''unknown''))"

definition callGuard :: "string \<Rightarrow> workflow_context \<Rightarrow> workflow_event \<Rightarrow> bool" where
  "callGuard name cx ev = (case map_of guardImplementations name of None \<Rightarrow> False | Some g \<Rightarrow> g cx ev)"

definition evalNamedGuard :: "(string \<times> nat) list \<Rightarrow> string \<Rightarrow> workflow_context \<Rightarrow> machine_event \<Rightarrow> bool" where
  "evalNamedGuard maxVisits name cx ev =
     (case ev of
        DoneAgent stateId r \<Rightarrow>
          (if name = ''isStalled'' then
             (case map_of (cx_previousOutputHashes cx) stateId of
                None \<Rightarrow> False
              | Some prevHash \<Rightarrow> prevHash \<noteq> [] \<and> ar_outputHash r = prevHash)
           else if name = ''isStateVisitLimitReached'' then
             (case map_of maxVisits stateId of None \<Rightarrow> False | Some cap \<Rightarrow> visitsOf cx stateId \<ge> cap)
           else callGuard name cx (AgentCompleted (ar_output r)))
      | DoneDeterministic stateId r \<Rightarrow> callGuard name cx (validationEvent r)
      | DoneFanOut stateId r _ \<Rightarrow> callGuard name cx (validationEvent r)
      | GateEvent e prompt \<Rightarrow> callGuard name cx (HumanEvent e prompt)
      | ServiceError _ _ \<Rightarrow> False)"

definition matchSource :: "machine_event \<Rightarrow> jsobj option" where
  "matchSource ev =
     (case ev of
        DoneAgent _ r \<Rightarrow> Some (outputObject (ar_output r))
      | DoneDeterministic _ r \<Rightarrow> map_option (\<lambda>v. [(''verdict'', JStr v)]) (dr_verdict r)
      | DoneFanOut _ r _ \<Rightarrow> map_option (\<lambda>v. [(''verdict'', JStr v)]) (dr_verdict r)
      | _ \<Rightarrow> None)"

definition matchesWhen :: "jsobj \<Rightarrow> machine_event \<Rightarrow> bool" where
  "matchesWhen w ev =
     (case matchSource ev of
        None \<Rightarrow> False
      | Some source \<Rightarrow> (if w = [] then False else list_all (\<lambda>(k, expected). getProp source k = expected) w))"

definition evalGuard :: "workflow_machine \<Rightarrow> workflow_context \<Rightarrow> machine_event \<Rightarrow> guard_ref option \<Rightarrow> bool" where
  "evalGuard m cx ev g =
     (case g of
        None \<Rightarrow> True
      | Some (NamedGuard name) \<Rightarrow> evalNamedGuard (wm_maxVisits m) name cx ev
      | Some (MatchesWhen w) \<Rightarrow> matchesWhen w ev)"

section \<open>Context updates\<close>

definition updateFromAgentResult :: "string \<Rightarrow> agent_result \<Rightarrow> workflow_context \<Rightarrow> workflow_context" where
  "updateFromAgentResult stateId r cx =
     cx\<lparr>cx_artifacts := foldl (\<lambda>o' (k, v). setProp o' k v) (cx_artifacts cx) (ar_artifacts r),
        cx_previousOutputHashes := setProp (cx_previousOutputHashes cx) stateId (ar_outputHash r),
        cx_round := cx_round cx + 1,
        cx_reviewHistory := (if ao_verdict (ar_output r) = ''rejected''
                             then cx_reviewHistory cx @ [orElse (ao_notes (ar_output r)) []] else cx_reviewHistory cx),
        cx_agentConversationsByState := setProp (cx_agentConversationsByState cx) stateId (ar_conversation r),
        cx_totalTokens := ar_totalTokens r,
        cx_previousAgentOutput := Some (truncateAgentOutput (stripStatusBlock (ar_responseText r))),
        cx_previousAgentNotes := (case ao_notes (ar_output r) of
            Some n \<Rightarrow> (if n \<noteq> [] then Some (truncateAgentOutput n) else None) | None \<Rightarrow> None),
        cx_previousStateName := Some stateId,
        cx_humanPrompt := None\<rparr>"

definition updateFromDeterministicResult :: "string \<Rightarrow> deterministic_result \<Rightarrow> workflow_context \<Rightarrow> workflow_context" where
  "updateFromDeterministicResult stateId r cx =
     (let base = cx\<lparr>cx_previousTestCount := (case dr_testCount r of Some n \<Rightarrow> Some n | None \<Rightarrow> cx_previousTestCount cx),
                    cx_lastDeterministicResult := (if dr_verdict r \<noteq> None \<or> dr_payload r \<noteq> None
                      then Some (dr_verdict r, dr_payload r) else cx_lastDeterministicResult cx)\<rparr>
      in if dr_passed r then base
         else base\<lparr>cx_previousAgentOutput := Some (truncateAgentOutput (orElse (dr_errors r) [])),
                   cx_previousAgentNotes := None, cx_previousStateName := Some stateId\<rparr>)"

definition incrementVisitCount :: "string \<Rightarrow> workflow_context \<Rightarrow> workflow_context" where
  "incrementVisitCount stateId cx = cx\<lparr>cx_visitCounts := setProp (cx_visitCounts cx) stateId (visitsOf cx stateId + 1)\<rparr>"

definition resetVisitCounts :: "string list \<Rightarrow> workflow_context \<Rightarrow> workflow_context" where
  "resetVisitCounts stateIds cx = cx\<lparr>cx_visitCounts := foldl (\<lambda>o' i. setProp o' i 0) (cx_visitCounts cx) stateIds\<rparr>"

definition runAction :: "machine_event \<Rightarrow> workflow_context \<Rightarrow> machine_action \<Rightarrow> workflow_context" where
  "runAction ev cx a =
     (case a of
        UpdateFromAgentResult \<Rightarrow> (case ev of DoneAgent i r \<Rightarrow> updateFromAgentResult i r cx | _ \<Rightarrow> cx)
      | UpdateFromDeterministicResult \<Rightarrow> (case ev of DoneDeterministic i r \<Rightarrow> updateFromDeterministicResult i r cx | _ \<Rightarrow> cx)
      | UpdateFromFanOutResult \<Rightarrow> (case ev of DoneFanOut _ _ joined \<Rightarrow> joined | _ \<Rightarrow> cx)
      | StoreHumanPrompt \<Rightarrow> cx\<lparr>cx_humanPrompt := (case ev of GateEvent _ p \<Rightarrow> p | _ \<Rightarrow> None)\<rparr>
      | ClearError \<Rightarrow> cx\<lparr>cx_lastError := None\<rparr>
      | StoreError \<Rightarrow> (case ev of ServiceError _ e \<Rightarrow> cx\<lparr>cx_lastError := Some (se_message e)\<rparr> | _ \<Rightarrow> cx)
      | UpdateFromInvocationError \<Rightarrow>
          (case ev of
             ServiceError _ e \<Rightarrow>
               (case se_invocation e of
                  None \<Rightarrow> cx
                | Some (i, c) \<Rightarrow> cx\<lparr>cx_agentConversationsByState := setProp (cx_agentConversationsByState cx) i c\<rparr>)
           | _ \<Rightarrow> cx)
      | IncrementVisitCount i \<Rightarrow> incrementVisitCount i cx
      | ResetVisitCounts ids \<Rightarrow> resetVisitCounts ids cx)"

definition runActions :: "machine_event \<Rightarrow> machine_action list \<Rightarrow> workflow_context \<Rightarrow> workflow_context" where
  "runActions ev actions cx = foldl (runAction ev) cx actions"

end
