(* ===== verification/Workflow_Statechart.thy ===== *)
theory Workflow_Statechart
  imports Workflow_Machine Workflow_Validate_Props
begin

text \<open>
  The statechart library as the engine relies on it. The locale \<open>statechart\<close> states the documented
  behaviour: transitions are tried in order, the first whose guard holds is taken, its actions run
  before the entry actions of the target, entering a state starts its service, and a transition to the
  state itself does not enter it again. \<open>documentedStep\<close> is one function with these laws.
\<close>

section \<open>Configurations\<close>

text \<open>\<open>mc_running\<close>: the service of the current state has been started and has not settled.\<close>

record machine_config =
  mc_state :: string
  mc_running :: bool
  mc_context :: workflow_context

definition nodeOf :: "workflow_machine \<Rightarrow> string \<Rightarrow> machine_node option" where
  "nodeOf m i = map_of (wm_states m) i"

definition entryActions :: "workflow_machine \<Rightarrow> string \<Rightarrow> machine_action list" where
  "entryActions m i = (case nodeOf m i of Some (InvokeNode entry _ _ _) \<Rightarrow> entry | _ \<Rightarrow> [])"

definition startsService :: "workflow_machine \<Rightarrow> string \<Rightarrow> bool" where
  "startsService m i = (case nodeOf m i of Some (InvokeNode _ _ _ _) \<Rightarrow> True | _ \<Rightarrow> False)"

definition enterState :: "workflow_machine \<Rightarrow> machine_event \<Rightarrow> string \<Rightarrow> workflow_context \<Rightarrow> machine_config" where
  "enterState m ev i cx =
     \<lparr>mc_state = i, mc_running = startsService m i, mc_context = runActions ev (entryActions m i) cx\<rparr>"

text \<open>Taking a transition from the current state.\<close>

definition takeTransition ::
  "workflow_machine \<Rightarrow> machine_event \<Rightarrow> machine_transition \<Rightarrow> machine_config \<Rightarrow> machine_config" where
  "takeTransition m ev t c =
     (let cx = runActions ev (mt_actions t) (mc_context c)
      in if mt_target t = mc_state c then c\<lparr>mc_running := False, mc_context := cx\<rparr>
         else enterState m ev (mt_target t) cx)"

definition pickTransition ::
  "workflow_machine \<Rightarrow> workflow_context \<Rightarrow> machine_event \<Rightarrow> machine_transition list \<Rightarrow> machine_transition option" where
  "pickTransition m cx ev ts = find (\<lambda>t. evalGuard m cx ev (mt_guard t)) ts"

text \<open>The state whose service reports with a done event, when the event is of that service.\<close>

fun doneOf :: "service \<Rightarrow> machine_event \<Rightarrow> string option" where
  "doneOf AgentService (DoneAgent i _) = Some i"
| "doneOf DeterministicService (DoneDeterministic i _) = Some i"
| "doneOf FanOutService (DoneFanOut i _ _) = Some i"
| "doneOf _ _ = None"

section \<open>The laws\<close>

locale statechart =
  fixes step :: "workflow_machine \<Rightarrow> machine_config \<Rightarrow> machine_event \<Rightarrow> machine_config"
  assumes done_taken: "nodeOf m (mc_state c) = Some (InvokeNode entry svc onDone onError) \<Longrightarrow> mc_running c \<Longrightarrow>
      doneOf svc ev = Some (mc_state c) \<Longrightarrow> pickTransition m (mc_context c) ev onDone = Some t \<Longrightarrow>
      step m c ev = takeTransition m ev t c"
    and done_none: "nodeOf m (mc_state c) = Some (InvokeNode entry svc onDone onError) \<Longrightarrow> mc_running c \<Longrightarrow>
      doneOf svc ev = Some (mc_state c) \<Longrightarrow> pickTransition m (mc_context c) ev onDone = None \<Longrightarrow>
      step m c ev = c\<lparr>mc_running := False\<rparr>"
    and error_taken: "nodeOf m (mc_state c) = Some (InvokeNode entry svc onDone onError) \<Longrightarrow> mc_running c \<Longrightarrow>
      step m c (ServiceError (mc_state c) e) = takeTransition m (ServiceError (mc_state c) e) onError c"
    and gate_taken: "nodeOf m (mc_state c) = Some (GateNode on) \<Longrightarrow> map_of on g = Some t \<Longrightarrow>
      step m c (GateEvent g p) = takeTransition m (GateEvent g p) t c"
    and gate_none: "nodeOf m (mc_state c) = Some (GateNode on) \<Longrightarrow> map_of on g = None \<Longrightarrow> step m c (GateEvent g p) = c"
    and service_silent: "\<not> mc_running c \<Longrightarrow> \<forall>g p. ev \<noteq> GateEvent g p \<Longrightarrow> step m c ev = c"
    and service_other: "nodeOf m (mc_state c) = Some (InvokeNode entry svc onDone onError) \<Longrightarrow>
      doneOf svc ev \<noteq> Some (mc_state c) \<Longrightarrow> \<forall>e. ev \<noteq> ServiceError (mc_state c) e \<Longrightarrow> step m c ev = c"
    and no_gate: "\<forall>on. nodeOf m (mc_state c) \<noteq> Some (GateNode on) \<Longrightarrow> step m c (GateEvent g p) = c"
    and gate_silent: "nodeOf m (mc_state c) = Some (GateNode on) \<Longrightarrow> \<forall>g p. ev \<noteq> GateEvent g p \<Longrightarrow> step m c ev = c"
    and final_silent: "nodeOf m (mc_state c) = Some FinalNode \<Longrightarrow> step m c ev = c"
    and unknown_silent: "nodeOf m (mc_state c) = None \<Longrightarrow> step m c ev = c"
begin

text \<open>Every step stays, or takes a transition of the current state.\<close>

lemma step_cases:
  obtains (stay) "mc_state (step m c ev) = mc_state c" "mc_context (step m c ev) = mc_context c"
      "mc_running (step m c ev) \<longrightarrow> mc_running c"
  | (finish) entry svc onDone onError t where "nodeOf m (mc_state c) = Some (InvokeNode entry svc onDone onError)"
      "mc_running c" "doneOf svc ev = Some (mc_state c)" "pickTransition m (mc_context c) ev onDone = Some t"
      "step m c ev = takeTransition m ev t c"
  | (error) entry svc onDone onError e where "nodeOf m (mc_state c) = Some (InvokeNode entry svc onDone onError)"
      "mc_running c" "ev = ServiceError (mc_state c) e" "step m c ev = takeTransition m ev onError c"
  | (gate) on g p t where "nodeOf m (mc_state c) = Some (GateNode on)" "ev = GateEvent g p" "map_of on g = Some t"
      "step m c ev = takeTransition m ev t c"
proof (cases "nodeOf m (mc_state c)")
  case None
  then show ?thesis using unknown_silent stay by simp
next
  case (Some node)
  show ?thesis
  proof (cases node)
    case (InvokeNode entry svc onDone onError)
    note node = Some [unfolded InvokeNode]
    show ?thesis
    proof (cases "\<exists>g p. ev = GateEvent g p")
      case True
      then obtain g p where "ev = GateEvent g p" by blast
      then have "step m c ev = c" using no_gate node by simp
      then show ?thesis using stay by simp
    next
      case no_gate_event: False
      show ?thesis
      proof (cases "mc_running c")
        case False
        then have "step m c ev = c" using service_silent no_gate_event by blast
        then show ?thesis using stay by simp
      next
        case running: True
        show ?thesis
        proof (cases "doneOf svc ev = Some (mc_state c)")
          case True
          then show ?thesis
          proof (cases "pickTransition m (mc_context c) ev onDone")
            case None
            then show ?thesis using done_none [OF node running True None] running stay by simp
          next
            case (Some t)
            then show ?thesis using finish [OF node running True Some] done_taken [OF node running True Some] by blast
          qed
        next
          case no_done: False
          show ?thesis
          proof (cases "\<exists>e. ev = ServiceError (mc_state c) e")
            case True
            then obtain e where "ev = ServiceError (mc_state c) e" by blast
            then show ?thesis using error [OF node running] error_taken [OF node running] by blast
          next
            case False
            then have "step m c ev = c" using service_other [OF node no_done] by blast
            then show ?thesis using stay by simp
          qed
        qed
      qed
    qed
  next
    case (GateNode on)
    note node = Some [unfolded GateNode]
    show ?thesis
    proof (cases "\<exists>g p. ev = GateEvent g p")
      case True
      then obtain g p where ev: "ev = GateEvent g p" by blast
      show ?thesis
      proof (cases "map_of on g")
        case None
        then have "step m c ev = c" using gate_none [OF node None] ev by blast
        then show ?thesis using stay by simp
      next
        case (Some t)
        then show ?thesis using gate [OF node ev Some] gate_taken [OF node Some] ev by blast
      qed
    next
      case False
      then have "step m c ev = c" using gate_silent [OF node] by blast
      then show ?thesis using stay by simp
    qed
  next
    case FinalNode
    then show ?thesis using Some final_silent stay by simp
  qed
qed

end

section \<open>A step function with these laws\<close>

definition documentedStep :: "workflow_machine \<Rightarrow> machine_config \<Rightarrow> machine_event \<Rightarrow> machine_config" where
  "documentedStep m c ev =
     (case nodeOf m (mc_state c) of
        Some (InvokeNode entry svc onDone onError) \<Rightarrow>
          (if \<not> mc_running c then c
           else if doneOf svc ev = Some (mc_state c) then
             (case pickTransition m (mc_context c) ev onDone of
                None \<Rightarrow> c\<lparr>mc_running := False\<rparr>
              | Some t \<Rightarrow> takeTransition m ev t c)
           else (case ev of
                   ServiceError i e \<Rightarrow> (if i = mc_state c then takeTransition m ev onError c else c)
                 | _ \<Rightarrow> c))
      | Some (GateNode on) \<Rightarrow>
          (case ev of
             GateEvent g p \<Rightarrow> (case map_of on g of None \<Rightarrow> c | Some t \<Rightarrow> takeTransition m ev t c)
           | _ \<Rightarrow> c)
      | _ \<Rightarrow> c)"

lemma doneOf_not_error [simp]: "doneOf svc (ServiceError i e) = None" "doneOf svc (GateEvent g p) = None"
  by (cases svc; simp)+

interpretation documented: statechart documentedStep
proof
  fix m :: workflow_machine and c :: machine_config and ev :: machine_event
  assume "\<not> mc_running c" "\<forall>g p. ev \<noteq> GateEvent g p"
  then show "documentedStep m c ev = c"
    by (auto simp: documentedStep_def split: option.split machine_node.split machine_event.split)
next
  fix m :: workflow_machine and c :: machine_config and g p
  assume "\<forall>on. nodeOf m (mc_state c) \<noteq> Some (GateNode on)"
  then show "documentedStep m c (GateEvent g p) = c"
    by (auto simp: documentedStep_def split: option.split machine_node.split)
qed (auto simp: documentedStep_def split: machine_event.split)

text \<open>A run from the initial state, which the library enters on start.\<close>

definition startConfig :: "workflow_machine \<Rightarrow> workflow_context \<Rightarrow> machine_config" where
  "startConfig m cx = enterState m (GateEvent GateApprove None) (wm_initial m) cx"

end
