(* ===== verification/Workflow_Props.thy ===== *)
theory Workflow_Props
  imports Workflow_Statechart
begin

text \<open>
  Properties of the machines built from workflow definitions, for every step function that obeys the
  laws of the statechart library: machines of accepted definitions are built without an exception and
  never leave their states, errors end at a human gate or a terminal, an accepted verdict moves the run
  on, a lane never counts as recorded unless its verdict says so, and the text carried between agents
  is bounded.
\<close>

section \<open>Error targets\<close>

lemma gateTarget_defined: "\<forall>t \<in> set ts. at_to t \<in> set (stateNames d) \<Longrightarrow> gateTarget d ts \<noteq> None"
  by (induction ts) (auto simp: names_stateOf split: option.split)

lemma gateTarget_gate: "gateTarget d ts = Some (Some g) \<Longrightarrow> \<exists>s. stateOf d g = Some s \<and> isGateState s"
  by (induction ts) (auto split: option.splits if_splits)

lemma find_stateOf:
  assumes "distinct (stateNames d)" "find P (wd_states d) = Some (i, s)"
  shows "stateOf d i = Some s" "P (i, s)"
  using assms stateOf_mem [OF assms(1)] by (auto simp: find_Some_iff)

text \<open>With a terminal state and known targets the search succeeds at a human gate or a terminal.\<close>

definition endOrGate :: "workflow_definition \<Rightarrow> string \<Rightarrow> bool" where
  "endOrGate d i = (case stateOf d i of None \<Rightarrow> False | Some s \<Rightarrow> isGateState s \<or> isTerminalState s)"

lemma findErrorTarget_endOrGate:
  assumes "distinct (stateNames d)" "list_ex (isTerminalState \<circ> snd) (wd_states d)"
    and "\<forall>t \<in> set ts. at_to t \<in> set (stateNames d)"
  obtains i where "findErrorTarget ts d = Some i" "endOrGate d i"
proof -
  obtain r where r: "gateTarget d ts = Some r" using gateTarget_defined [OF assms(3)] by blast
  show ?thesis
  proof (cases r)
    case (Some g)
    then show ?thesis using that r gateTarget_gate [of d ts g] by (auto simp: findErrorTarget_def endOrGate_def)
  next
    case None
    let ?P = "\<lambda>(i, s). isTerminalState s \<and> (i = ''aborted'' \<or> i = ''failed'')" and ?Q = "\<lambda>(i, s). isTerminalState s"
    obtain j s where js: "find ?Q (wd_states d) = Some (j, s)"
      using assms(2) by (cases "find ?Q (wd_states d)") (fastforce simp: find_None_iff list_ex_iff)+
    show ?thesis
    proof (cases "find ?P (wd_states d)")
      case (Some p)
      then show ?thesis using that [of "fst p"] r \<open>r = None\<close> find_stateOf [OF assms(1), of ?P "fst p" "snd p"]
        by (auto simp: findErrorTarget_def endOrGate_def split: prod.splits)
    next
      case no_P: None
      then show ?thesis using that [of j] r \<open>r = None\<close> js find_stateOf [OF assms(1) js]
        by (auto simp: findErrorTarget_def endOrGate_def)
    qed
  qed
qed

lemma endOrGate_name: "endOrGate d i \<Longrightarrow> i \<in> set (stateNames d)"
  by (auto simp: endOrGate_def names_stateOf split: option.splits)

section \<open>Machines of accepted definitions\<close>

text \<open>The targets a node can move to.\<close>

fun nodeTargets :: "machine_node \<Rightarrow> string list" where
  "nodeTargets (InvokeNode _ _ onDone onError) = mt_target onError # map mt_target onDone"
| "nodeTargets (GateNode on) = map (mt_target \<circ> snd) on"
| "nodeTargets FinalNode = []"

lemma onDone_targets [simp]: "map mt_target (buildOnDoneTransitions u ts) = map at_to ts"
  by (simp add: buildOnDoneTransitions_def)

lemma update_values: "snd ` set (AList.update k v al) \<subseteq> insert v (snd ` set al)"
  by (induction al) auto

lemma gate_on_targets:
  "t \<in> snd ` set (foldl (\<lambda>on t. AList.update (gt_event t)
         \<lparr>mt_target = gt_to t, mt_guard = None, mt_actions = f t\<rparr> on) on0 ts) \<Longrightarrow>
   t \<in> snd ` set on0 \<or> mt_target t \<in> gt_to ` set ts"
proof (induction ts arbitrary: on0)
  case (Cons x xs)
  let ?v = "\<lparr>mt_target = gt_to x, mt_guard = None, mt_actions = f x\<rparr>"
  have "t \<in> snd ` set (AList.update (gt_event x) ?v on0) \<or> mt_target t \<in> gt_to ` set xs" using Cons by simp
  then show ?case
  proof
    assume "t \<in> snd ` set (AList.update (gt_event x) ?v on0)"
    then have "t = ?v \<or> t \<in> snd ` set on0" using update_values [of "gt_event x" ?v on0] by blast
    then show ?thesis by (elim disjE) simp_all
  next
    assume "mt_target t \<in> gt_to ` set xs"
    then show ?thesis by simp
  qed
qed simp

lemma exec_targets:
  assumes "validateSemantics d = []" "schemaAccepts d" "stateOf d i = Some s" "t \<in> set (execTransitions s)"
  shows "at_to t \<in> set (stateNames d)"
proof -
  have "distinct (stateNames d)" using assms(2) by (simp add: schemaAccepts_def)
  then have "(i, s) \<in> set (wd_states d)" using assms(3) stateOf_mem by blast
  then show ?thesis using valid_targets [OF assms(1), of i s "at_to t"] assms(4) by (cases s) auto
qed

lemma gate_targets:
  assumes "validateSemantics d = []" "schemaAccepts d" "stateOf d i = Some (HumanGateState g)" "t \<in> set (sg_transitions g)"
  shows "gt_to t \<in> set (stateNames d)"
proof -
  have "distinct (stateNames d)" using assms(2) by (simp add: schemaAccepts_def)
  then have "(i, HumanGateState g) \<in> set (wd_states d)" using assms(3) stateOf_mem by blast
  then show ?thesis using valid_targets [OF assms(1), of i _ "gt_to t"] assms(4) by auto
qed

lemma error_target:
  assumes "validateSemantics d = []" "schemaAccepts d" "stateOf d i = Some s"
  obtains e where "findErrorTarget (execTransitions s) d = Some e" "endOrGate d e"
proof -
  have "distinct (stateNames d)" using assms(2) by (simp add: schemaAccepts_def)
  then show ?thesis
    using findErrorTarget_endOrGate semantics_parts(2) [OF assms(1)] exec_targets [OF assms] that by blast
qed

lemma gate_node_targets:
  assumes "validateSemantics d = []" "schemaAccepts d" "stateOf d i = Some (HumanGateState g)"
  shows "set (nodeTargets (buildHumanGateState g)) \<subseteq> set (stateNames d)"
proof
  fix x assume "x \<in> set (nodeTargets (buildHumanGateState g))"
  then obtain t where t: "t \<in> snd ` set (foldl (\<lambda>on t. AList.update (gt_event t)
         \<lparr>mt_target = gt_to t, mt_guard = None,
          mt_actions = collectTransitionActions (gt_actions t) [StoreHumanPrompt, ClearError]\<rparr> on) [] (sg_transitions g))"
      "mt_target t = x"
    by (auto simp: buildHumanGateState_def)
  have "mt_target t \<in> gt_to ` set (sg_transitions g)" using gate_on_targets [OF t(1)] by simp
  then show "x \<in> set (stateNames d)" using gate_targets [OF assms] t(2) by auto
qed

text \<open>The node of an executable state: a service with the mapped transitions and an error transition to a
  gate or an end that records the error first.\<close>

definition errorsEnd :: "workflow_definition \<Rightarrow> machine_node \<Rightarrow> bool" where
  "errorsEnd d n = (case n of
      InvokeNode entry svc onDone onError \<Rightarrow> endOrGate d (mt_target onError) \<and>
        (mt_actions onError = [StoreError] \<or> mt_actions onError = [StoreError, UpdateFromInvocationError])
    | _ \<Rightarrow> True)"

lemma node_built:
  assumes "validateSemantics d = []" "schemaAccepts d" and s: "stateOf d i = Some s"
  obtains n where "buildNode None d i s = Some n" "set (nodeTargets n) \<subseteq> set (stateNames d)" "errorsEnd d n"
proof -
  obtain e where e: "findErrorTarget (execTransitions s) d = Some e" "endOrGate d e" using error_target [OF assms] .
  have names: "at_to ` set (execTransitions s) \<subseteq> set (stateNames d)" using exec_targets [OF assms] by blast
  note defs = buildNode_def buildFanOutState_def buildAgentState_def buildDeterministicState_def errorTransition_def errorsEnd_def
  show ?thesis
  proof (cases s)
    case (AgentState a)
    then show ?thesis using that e names endOrGate_name [OF e(2)] by (cases "sa_fanOut a") (simp_all add: defs)
  next
    case (DeterministicState a)
    then show ?thesis using that e names endOrGate_name [OF e(2)] by (cases "sd_fanOut a") (simp_all add: defs)
  next
    case (HumanGateState g)
    then show ?thesis using that gate_node_targets [OF assms(1,2)] s by (simp add: defs buildHumanGateState_def)
  next
    case (TerminalState t)
    then show ?thesis using that by (simp add: defs)
  qed
qed

lemma buildNodes_map_of:
  "buildNodes eo d xs = Some nodes \<Longrightarrow> map_of nodes i = (case map_of xs i of None \<Rightarrow> None | Some s \<Rightarrow> buildNode eo d i s)"
  by (induction xs arbitrary: nodes) (auto split: option.splits)

lemma buildNodes_defined: "\<forall>(i, s) \<in> set xs. buildNode eo d i s \<noteq> None \<Longrightarrow> buildNodes eo d xs \<noteq> None"
  by (induction xs) (auto split: option.split)

lemma nodeOf_machine:
  "buildMachine eo d = Some m \<Longrightarrow> nodeOf m i = (case stateOf d i of None \<Rightarrow> None | Some s \<Rightarrow> buildNode eo d i s)"
  by (auto simp: buildMachine_def nodeOf_def stateOf_def buildNodes_map_of)

lemma machine_initial: "buildMachine eo d = Some m \<Longrightarrow> wm_initial m = wd_initial d"
  by (auto simp: buildMachine_def)

lemma parent_machine:
  assumes "validateSemantics d = []" "schemaAccepts d"
  obtains m where "buildMachine None d = Some m"
proof -
  have "buildNode None d i s \<noteq> None" if "(i, s) \<in> set (wd_states d)" for i s
    using that stateOf_mem [of d i s] assms(2) node_built [OF assms, of i s] by (auto simp: schemaAccepts_def)
  then show ?thesis using that buildNodes_defined [of "wd_states d" None d] by (auto simp: buildMachine_def)
qed

section \<open>Child machines\<close>

lemma mapRoundTransitions_defined:
  "\<forall>t \<in> set ts. at_to t \<in> set (stateNames d) \<Longrightarrow> mapRoundTransitions d seg ts \<noteq> None"
  by (induction ts) (auto simp: mapRoundChildTarget_def names_stateOf split: option.split)

lemma addRoundMembers_defined:
  "\<forall>m \<in> set ms. roundMember d seg m \<noteq> None \<Longrightarrow> addRoundMembers d seg ms states \<noteq> None"
  by (induction ms arbitrary: states) auto

lemma addRoundMembers_map_of:
  "addRoundMembers d seg ms states = Some out \<Longrightarrow>
     map_of out i = (if i \<in> set ms then roundMember d seg i else map_of states i)"
  by (induction ms arbitrary: states) (auto split: option.splits)

definition roundTerminals :: "string list" where
  "roundTerminals = [ROUND_CHILD_RECORDED, ROUND_CHILD_BLOCKED, ROUND_CHILD_ERRORED]"

lemma child_stateOf:
  assumes "buildRoundChildDefinition d f seg = Some c"
  shows "stateOf c i = (if i \<in> set roundTerminals then stateOf c i
      else if i \<in> set seg then roundMember d seg i else None)"
    and "i \<in> set roundTerminals \<Longrightarrow> \<exists>t. stateOf c i = Some (TerminalState t)"
proof -
  obtain states where s: "addRoundMembers d seg seg [] = Some states" "wd_states c = addRoundTerminals f states"
    using assms by (auto simp: buildRoundChildDefinition_def)
  show "stateOf c i = (if i \<in> set roundTerminals then stateOf c i else if i \<in> set seg then roundMember d seg i else None)"
    using addRoundMembers_map_of [OF s(1), of i] by (auto simp: stateOf_def s(2) addRoundTerminals_def roundTerminals_def)
  show "i \<in> set roundTerminals \<Longrightarrow> \<exists>t. stateOf c i = Some (TerminalState t)"
    by (auto simp: stateOf_def s(2) addRoundTerminals_def roundTerminals_def roundTerminal_def)
qed

lemma roundMember_exec:
  "roundMember d seg i = Some s \<Longrightarrow> isExecutableState s \<and> stateFanOut s = None"
  by (auto simp: roundMember_def split: option.splits state_def.splits)

lemma child_node:
  assumes "buildRoundChildDefinition d f seg = Some c" "stateOf c i = Some s"
  shows "buildNode (Some ROUND_CHILD_ERRORED) c i s \<noteq> None"
proof (cases "i \<in> set roundTerminals")
  case True
  then obtain t where "s = TerminalState t" using child_stateOf(2) [OF assms(1) True] assms(2) by auto
  then show ?thesis by (simp add: buildNode_def)
next
  case False
  then have "roundMember d seg i = Some s" using child_stateOf(1) [OF assms(1), of i] assms(2) by (auto split: if_splits)
  then have "isExecutableState s" "stateFanOut s = None" using roundMember_exec by blast+
  then show ?thesis by (cases s) (simp_all add: buildNode_def buildAgentState_def buildDeterministicState_def)
qed

lemma distinct_addRoundMembers:
  "addRoundMembers d seg ms states = Some out \<Longrightarrow> distinct (map fst states) \<Longrightarrow> distinct (map fst out)"
  by (induction ms arbitrary: states) (auto simp: distinct_setProp split: option.splits)

lemma child_distinct:
  assumes "buildRoundChildDefinition d f seg = Some c"
  shows "distinct (stateNames c)"
proof -
  obtain states where s: "addRoundMembers d seg seg [] = Some states" "wd_states c = addRoundTerminals f states"
    using assms by (auto simp: buildRoundChildDefinition_def)
  then show ?thesis using distinct_addRoundMembers [OF s(1)]
    by (simp add: stateNames_def addRoundTerminals_def distinct_setProp)
qed

lemma child_machine_defined:
  assumes "validateSemantics d = []" "schemaAccepts d" "(i, s) \<in> set (wd_states d)" "stateFanOut s \<noteq> None"
  shows "buildRoundMachine d i (orElse (stateSegment s) []) \<noteq> None"
proof -
  let ?seg = "orElse (stateSegment s) []"
  have "roundMember d ?seg m \<noteq> None" if mem: "m \<in> set ?seg" for m
  proof -
    obtain s' where s': "stateOf d m = Some s'" "isExecutableState s'" using valid_segment [OF assms mem] by blast
    then have "mapRoundTransitions d ?seg (execTransitions s') \<noteq> None"
      using mapRoundTransitions_defined exec_targets [OF assms(1,2) s'(1)] by blast
    then show ?thesis using s' by (cases s') (auto simp: roundMember_def)
  qed
  then have "addRoundMembers d ?seg ?seg [] \<noteq> None" using addRoundMembers_defined by blast
  then obtain c where c: "buildRoundChildDefinition d i ?seg = Some c" by (auto simp: buildRoundChildDefinition_def)
  have "buildNode (Some ROUND_CHILD_ERRORED) c j n \<noteq> None" if "(j, n) \<in> set (wd_states c)" for j n
    using child_node [OF c] stateOf_mem [OF child_distinct [OF c]] that by blast
  then show ?thesis using c buildNodes_defined [of "wd_states c" "Some ROUND_CHILD_ERRORED" c]
    by (auto simp: buildRoundMachine_def buildMachine_def)
qed

lemma buildRoundMachines_defined:
  "\<forall>(i, s) \<in> set xs. stateFanOut s \<noteq> None \<longrightarrow> buildRoundMachine d i (orElse (stateSegment s) []) \<noteq> None \<Longrightarrow>
   buildRoundMachines d xs \<noteq> None"
  by (induction xs) (auto split: option.split)

text \<open>An accepted definition never makes the machine builder throw: the machine and the child machine
  of every fan-out state are built.\<close>

theorem accepted_machine_builds:
  assumes "validateSemantics d = []" "schemaAccepts d"
  shows "buildWorkflowMachine d \<noteq> None"
proof -
  obtain m where "buildMachine None d = Some m" using parent_machine [OF assms] .
  moreover have "buildRoundMachines d (wd_states d) \<noteq> None"
    using child_machine_defined [OF assms] by (intro buildRoundMachines_defined) blast
  ultimately show ?thesis by (auto simp: buildWorkflowMachine_def)
qed

theorem accepted_machine_builds_witness: "buildWorkflowMachine demoWorkflow \<noteq> None"
  by (rule accepted_machine_builds [OF demoWorkflow_valid demoWorkflow_schema])

section \<open>Runs\<close>

context statechart
begin

abbreviation run :: "workflow_machine \<Rightarrow> machine_config \<Rightarrow> machine_event list \<Rightarrow> machine_config" where
  "run m c evs \<equiv> foldl (step m) c evs"

lemma take_state: "mc_state (takeTransition m ev t c) = mt_target t"
  by (simp add: takeTransition_def Let_def enterState_def)

lemma step_target:
  "mc_state (step m c ev) = mc_state c \<or>
   (\<exists>n. nodeOf m (mc_state c) = Some n \<and> mc_state (step m c ev) \<in> set (nodeTargets n))"
proof (cases rule: step_cases [of m c ev])
  case (finish entry svc onDone onError t)
  have "t \<in> set onDone" using finish(4) by (auto simp: pickTransition_def find_Some_iff)
  then show ?thesis using finish by (simp add: take_state)
next
  case (error entry svc onDone onError e)
  then show ?thesis by (simp add: take_state)
next
  case (gate on g p t)
  have "t \<in> snd ` set on" using map_of_SomeD [OF gate(3)] by force
  then show ?thesis using gate by (auto simp: take_state)
qed simp

lemma run_closed:
  assumes "mc_state c \<in> N" "\<And>i n. i \<in> N \<Longrightarrow> nodeOf m i = Some n \<Longrightarrow> set (nodeTargets n) \<subseteq> N"
  shows "mc_state (run m c evs) \<in> N"
  using assms(1)
proof (induction evs arbitrary: c)
  case (Cons ev evs)
  have "mc_state (step m c ev) \<in> N" using step_target [of m c ev] Cons.prems assms(2) by fastforce
  then show ?case using Cons.IH by simp
qed simp

lemma error_step:
  assumes "nodeOf m (mc_state c) = Some (InvokeNode entry svc onDone onError)" "mc_running c"
    and "mt_target onError \<noteq> mc_state c"
  shows "step m c (ServiceError (mc_state c) e) =
    enterState m (ServiceError (mc_state c) e) (mt_target onError)
      (runActions (ServiceError (mc_state c) e) (mt_actions onError) (mc_context c))"
  using error_taken [OF assms(1,2)] assms(3) by (simp add: takeTransition_def Let_def)

text \<open>A state whose service has settled without a transition to another state hears no event again.\<close>

lemma run_stuck:
  assumes "nodeOf m (mc_state c) = Some (InvokeNode entry svc onDone onError)" "\<not> mc_running c"
  shows "run m c evs = c"
proof (induction evs)
  case (Cons ev evs)
  have "step m c ev = c"
  proof (cases "\<exists>g p. ev = GateEvent g p")
    case True
    then show ?thesis using no_gate assms(1) by auto
  next
    case False
    then show ?thesis using service_silent assms(2) by blast
  qed
  then show ?case using Cons by simp
qed simp

end

text \<open>C17: whatever the services report, a run of the machine of an accepted definition never leaves the
  states of the definition.\<close>

theorem run_stays_in_definition:
  assumes "statechart step" "validateSemantics d = []" "schemaAccepts d" "buildMachine None d = Some m"
  shows "mc_state (foldl (step m) (startConfig m cx) evs) \<in> set (stateNames d)"
proof (rule statechart.run_closed [OF assms(1)])
  show "mc_state (startConfig m cx) \<in> set (stateNames d)"
    using semantics_parts(1) [OF assms(2)] machine_initial [OF assms(4)] by (simp add: startConfig_def enterState_def)
  show "set (nodeTargets n) \<subseteq> set (stateNames d)" if node: "nodeOf m i = Some n" for i n
  proof -
    obtain s where s: "stateOf d i = Some s" "buildNode None d i s = Some n"
      using node nodeOf_machine [OF assms(4), of i] by (auto split: option.splits)
    then show ?thesis using node_built [OF assms(2,3) s(1)] by (metis option.inject)
  qed
qed

definition demoOutput :: "string \<Rightarrow> agent_output" where
  "demoOutput v = \<lparr>ao_completed = True, ao_verdict = v, ao_confidence = High, ao_escalation = None,
     ao_testCount = None, ao_notes = None\<rparr>"

definition demoResult :: "string \<Rightarrow> agent_result" where
  "demoResult v = \<lparr>ar_output = demoOutput v, ar_conversation = ''c'', ar_artifacts = [], ar_outputHash = ''h'',
     ar_responseText = ''r'', ar_totalTokens = 0\<rparr>"

definition demoMachine :: workflow_machine where
  "demoMachine = the (buildMachine None demoWorkflow)"

lemma demoMachine_built: "buildMachine None demoWorkflow = Some demoMachine"
proof -
  have "buildMachine None demoWorkflow \<noteq> None" using parent_machine [OF demoWorkflow_valid demoWorkflow_schema] by auto
  then show ?thesis by (simp add: demoMachine_def)
qed

definition demoStart :: machine_config where
  "demoStart = startConfig demoMachine (createInitialContext demoWorkflow ''task'')"

theorem run_stays_in_definition_witness:
  "mc_state (foldl (documentedStep demoMachine) (startConfig demoMachine (createInitialContext demoWorkflow ''task''))
     [DoneAgent ''plan'' (demoResult ''rejected'')]) \<in> set (stateNames demoWorkflow)"
  by (rule run_stays_in_definition [OF documented.statechart_axioms demoWorkflow_valid demoWorkflow_schema demoMachine_built])

lemma endOrGate_node:
  assumes "validateSemantics d = []" "schemaAccepts d" "buildMachine None d = Some m" "endOrGate d i"
  shows "startsService m i = False" "entryActions m i = []"
    and "nodeOf m i \<noteq> Some (InvokeNode entry svc onDone onError)"
  using assms(4) nodeOf_machine [OF assms(3), of i]
  by (auto simp: endOrGate_def startsService_def entryActions_def buildNode_def buildHumanGateState_def
      split: option.splits state_def.splits)

lemma machine_errors:
  assumes "validateSemantics d = []" "schemaAccepts d" "buildMachine None d = Some m"
    and "nodeOf m i = Some (InvokeNode entry svc onDone onError)"
  shows "endOrGate d (mt_target onError)"
    and "mt_actions onError = [StoreError] \<or> mt_actions onError = [StoreError, UpdateFromInvocationError]"
proof -
  obtain s where s: "stateOf d i = Some s" "buildNode None d i s = Some (InvokeNode entry svc onDone onError)"
    using assms(4) nodeOf_machine [OF assms(3), of i] by (auto split: option.splits)
  have "errorsEnd d (InvokeNode entry svc onDone onError)" using node_built [OF assms(1,2) s(1)] s(2) by (metis option.inject)
  then show "endOrGate d (mt_target onError)"
    and "mt_actions onError = [StoreError] \<or> mt_actions onError = [StoreError, UpdateFromInvocationError]"
    by (auto simp: errorsEnd_def)
qed

text \<open>C18: when the service of the current state fails, the run moves to a human gate or a terminal, nothing is
  invoked there, and the message of the failure is what the context reports.\<close>

theorem error_goes_to_gate_or_end:
  assumes "statechart step" "validateSemantics d = []" "schemaAccepts d" "buildMachine None d = Some m"
    and "nodeOf m (mc_state c) = Some (InvokeNode entry svc onDone onError)" "mc_running c"
  shows "\<exists>i cx. step m c (ServiceError (mc_state c) e) = \<lparr>mc_state = i, mc_running = False, mc_context = cx\<rparr> \<and>
     endOrGate d i \<and> cx_lastError cx = Some (se_message e)"
proof -
  note target = machine_errors [OF assms(2-5)]
  have moved: "mt_target onError \<noteq> mc_state c" using endOrGate_node(3) [OF assms(2-4) target(1)] assms(5) by metis
  have err: "cx_lastError (runActions (ServiceError (mc_state c) e) (mt_actions onError) (mc_context c)) = Some (se_message e)"
    using target(2) by (auto simp: runActions_def runAction_def split: option.split)
  show ?thesis
    using statechart.error_step [OF assms(1,5,6) moved] endOrGate_node(1,2) [OF assms(2-4) target(1)] target(1) err
    by (simp add: enterState_def runActions_def)
qed

lemma demoStart_node:
  "nodeOf demoMachine (mc_state demoStart) = Some (InvokeNode [IncrementVisitCount ''plan''] AgentService
      (buildOnDoneTransitions UpdateFromAgentResult [verdictTransition ''approved'' ''end'',
         guardTransition ''isStateVisitLimitReached'' ''gate'', verdictTransition ''rejected'' ''fix''])
      (errorTransition ''gate'' [StoreError, UpdateFromInvocationError]))"
proof -
  have "nodeOf demoMachine (mc_state demoStart) = buildNode None demoWorkflow ''plan'' (AgentState demoPlanner)"
    using nodeOf_machine [OF demoMachine_built, of "''plan''"] machine_initial [OF demoMachine_built]
    by (simp add: demoStart_def startConfig_def enterState_def demoWorkflow_def stateOf_def)
  also have "\<dots> = Some (InvokeNode [IncrementVisitCount ''plan''] AgentService
      (buildOnDoneTransitions UpdateFromAgentResult [verdictTransition ''approved'' ''end'',
         guardTransition ''isStateVisitLimitReached'' ''gate'', verdictTransition ''rejected'' ''fix''])
      (errorTransition ''gate'' [StoreError, UpdateFromInvocationError]))"
    by code_simp
  finally show ?thesis .
qed

lemma demoStart_state [simp]: "mc_state demoStart = ''plan''"
  using machine_initial [OF demoMachine_built] by (simp add: demoStart_def startConfig_def enterState_def demoWorkflow_def)

lemma demoStart_running: "mc_running demoStart"
  using demoStart_node by (simp add: demoStart_def startConfig_def enterState_def startsService_def)

theorem error_goes_to_gate_or_end_witness:
  "list_ex (\<lambda>c. \<exists>i cx. documentedStep demoMachine c (ServiceError (mc_state c) \<lparr>se_message = ''boom'', se_invocation = None\<rparr>) =
     \<lparr>mc_state = i, mc_running = False, mc_context = cx\<rparr> \<and> endOrGate demoWorkflow i \<and> cx_lastError cx = Some ''boom'')
   [demoStart]"
  using error_goes_to_gate_or_end [OF documented.statechart_axioms demoWorkflow_valid demoWorkflow_schema demoMachine_built
      demoStart_node demoStart_running, of "\<lparr>se_message = ''boom'', se_invocation = None\<rparr>"]
  by simp

section \<open>Verdicts\<close>

lemma single_when:
  assumes "distinct (map fst w)" "w \<noteq> []" "list_all (\<lambda>(k, v). k = ''verdict'' \<and> (\<exists>x. v = JStr x)) w"
  obtains x where "w = [(''verdict'', JStr x)]"
proof (cases w)
  case (Cons p rest)
  then have "rest = []" using assms(1,3) by (cases rest) auto
  then show ?thesis using that Cons assms(3) by (cases p) auto
qed (use assms(2) in simp)

lemma getProp_verdict [simp]: "getProp (outputObject o') ''verdict'' = JStr (ao_verdict o')"
  by (simp add: outputObject_def getProp_def)

lemma accepted_when:
  assumes "validateSemantics d = []" "schemaAccepts d" "(i, s) \<in> set (wd_states d)" "t \<in> set (execTransitions s)"
    and "at_when t = Some w"
  obtains x where "w = [(''verdict'', JStr x)]" "whenVerdict t = Some x"
proof -
  have "stateAccepts s" using assms(2,3) by (auto simp: schemaAccepts_def list_all_iff)
  then have "transitionAccepts t" using assms(4) by (cases s) (auto simp: list_all_iff)
  then have "distinct (map fst w)" using assms(5) by (simp add: transitionAccepts_def optAll_def)
  then obtain x where "w = [(''verdict'', JStr x)]"
    using single_when [of w thesis] valid_when [OF assms(1,3-5)] by blast
  then show ?thesis using that assms(5) by (simp add: whenVerdict_def getProp_def)
qed

text \<open>A verdict the state accepts selects a transition, or the state has an unconditional one.\<close>

definition acceptedVerdict :: "agent_transition list \<Rightarrow> string \<Rightarrow> bool" where
  "acceptedVerdict ts v =
     (case getValidVerdicts ts of None \<Rightarrow> list_ex isUnconditional ts | Some vs \<Rightarrow> v \<in> set vs)"

lemma verdict_guard:
  assumes "validateSemantics d = []" "schemaAccepts d" "(i, s) \<in> set (wd_states d)"
    and "acceptedVerdict (execTransitions s) (ao_verdict (ar_output r))"
  shows "\<exists>t \<in> set (execTransitions s). evalGuard m cx (DoneAgent i r) (buildGuard t)"
proof (cases "list_ex isUnconditional (execTransitions s)")
  case True
  then obtain t where "t \<in> set (execTransitions s)" "isUnconditional t" by (auto simp: list_ex_iff)
  then have "buildGuard t = None" by (auto simp: isUnconditional_def buildGuard_def hasGuard_def split: option.splits)
  then show ?thesis using \<open>t \<in> _\<close> by (intro bexI [of _ t]) (simp_all add: evalGuard_def)
next
  case False
  then have "ao_verdict (ar_output r) \<in> set (extractVerdictValues (execTransitions s))"
    using assms(4) by (auto simp: acceptedVerdict_def getValidVerdicts_def Let_def split: if_splits)
  then obtain t where t: "t \<in> set (execTransitions s)" "whenVerdict t = Some (ao_verdict (ar_output r))"
    by (auto simp: extractVerdictValues_def map_filter_def)
  then obtain w where w: "at_when t = Some w" by (auto simp: whenVerdict_def split: option.splits)
  then have "w = [(''verdict'', JStr (ao_verdict (ar_output r)))]"
    using accepted_when [OF assms(1-3) t(1) w] t(2) by fastforce
  then have "evalGuard m cx (DoneAgent i r) (buildGuard t)"
    using w by (simp add: buildGuard_def evalGuard_def matchesWhen_def matchSource_def)
  then show ?thesis using t(1) by blast
qed

lemma agent_node:
  assumes "buildMachine None d = Some m" "validateSemantics d = []" "schemaAccepts d"
    and "stateOf d i = Some (AgentState a)" "sa_fanOut a = None"
  obtains onError where "nodeOf m i = Some (InvokeNode [IncrementVisitCount i] AgentService
    (buildOnDoneTransitions UpdateFromAgentResult (sa_transitions a)) onError)"
proof -
  obtain e where "findErrorTarget (sa_transitions a) d = Some e" using error_target [OF assms(2-4)] by auto
  then show ?thesis using that nodeOf_machine [OF assms(1), of i] assms(4,5)
    by (simp add: buildNode_def buildAgentState_def)
qed

lemma find_split:
  assumes "find P xs = Some x"
  obtains pre post where "xs = pre @ x # post" "list_all (\<lambda>y. \<not> P y) pre" "P x"
proof -
  obtain i where i: "i < length xs" "P (xs ! i)" "x = xs ! i" "\<forall>j < i. \<not> P (xs ! j)"
    using assms by (auto simp: find_Some_iff)
  then have "list_all (\<lambda>y. \<not> P y) (take i xs)" by (simp add: list_all_length)
  then show ?thesis using that [of "take i xs" "drop (Suc i) xs"] i by (simp add: id_take_nth_drop [symmetric])
qed

text \<open>The transition an agent result selects is the first one whose guard holds.\<close>

definition selects :: "workflow_machine \<Rightarrow> workflow_context \<Rightarrow> machine_event \<Rightarrow> agent_transition list \<Rightarrow> agent_transition \<Rightarrow> bool" where
  "selects m cx ev ts t =
     (\<exists>pre post. ts = pre @ t # post \<and> list_all (\<lambda>t'. \<not> evalGuard m cx ev (buildGuard t')) pre \<and>
        evalGuard m cx ev (buildGuard t))"

lemma pick_selects:
  assumes "selects m cx ev ts t"
  shows "pickTransition m cx ev (buildOnDoneTransitions u ts) =
    Some \<lparr>mt_target = at_to t, mt_guard = buildGuard t, mt_actions = collectTransitionActions (at_actions t) [u]\<rparr>"
proof -
  obtain pre post where ts: "ts = pre @ t # post" "list_all (\<lambda>t'. \<not> evalGuard m cx ev (buildGuard t')) pre"
      "evalGuard m cx ev (buildGuard t)" using assms by (auto simp: selects_def)
  show ?thesis unfolding ts(1) using ts(2,3)
    by (induction pre) (simp_all add: pickTransition_def buildOnDoneTransitions_def)
qed

lemma some_selects:
  assumes "\<exists>t \<in> set ts. evalGuard m cx ev (buildGuard t)"
  obtains t where "selects m cx ev ts t"
proof -
  obtain t where "find (\<lambda>t. evalGuard m cx ev (buildGuard t)) ts = Some t"
    using assms by (cases "find (\<lambda>t. evalGuard m cx ev (buildGuard t)) ts") (auto simp: find_None_iff)
  then show ?thesis using that find_split [of _ ts t] by (metis selects_def)
qed

lemma agent_step:
  assumes "statechart step" "validateSemantics d = []" "schemaAccepts d" "buildMachine None d = Some m"
    and "stateOf d (mc_state c) = Some (AgentState a)" "sa_fanOut a = None" "mc_running c"
    and "selects m (mc_context c) (DoneAgent (mc_state c) r) (sa_transitions a) t"
  shows "step m c (DoneAgent (mc_state c) r) = takeTransition m (DoneAgent (mc_state c) r)
    \<lparr>mt_target = at_to t, mt_guard = buildGuard t,
     mt_actions = collectTransitionActions (at_actions t) [UpdateFromAgentResult]\<rparr> c"
proof -
  obtain onError where "nodeOf m (mc_state c) = Some (InvokeNode [IncrementVisitCount (mc_state c)] AgentService
      (buildOnDoneTransitions UpdateFromAgentResult (sa_transitions a)) onError)"
    using agent_node [OF assms(4,2,3,5,6)] .
  then show ?thesis
    using statechart.done_taken [OF assms(1) _ assms(7)] pick_selects [OF assms(8)] by simp
qed

text \<open>C19: when an agent answers with a verdict its state accepts, the run takes a transition of that state: the
  first one whose guard holds for the answer.\<close>

theorem accepted_verdict_moves_on:
  assumes "statechart step" "validateSemantics d = []" "schemaAccepts d" "buildMachine None d = Some m"
    and "stateOf d (mc_state c) = Some (AgentState a)" "sa_fanOut a = None" "mc_running c"
    and "acceptedVerdict (sa_transitions a) (ao_verdict (ar_output r))"
  shows "\<exists>t. selects m (mc_context c) (DoneAgent (mc_state c) r) (sa_transitions a) t \<and>
    mc_state (step m c (DoneAgent (mc_state c) r)) = at_to t"
proof -
  have "distinct (stateNames d)" using assms(3) by (simp add: schemaAccepts_def)
  then have "(mc_state c, AgentState a) \<in> set (wd_states d)" using assms(5) stateOf_mem by blast
  then have "\<exists>t \<in> set (sa_transitions a). evalGuard m (mc_context c) (DoneAgent (mc_state c) r) (buildGuard t)"
    using verdict_guard [OF assms(2,3), of "mc_state c" "AgentState a"] assms(8) by simp
  then obtain t where t: "selects m (mc_context c) (DoneAgent (mc_state c) r) (sa_transitions a) t" using some_selects by blast
  then show ?thesis using agent_step [OF assms(1-7) t] statechart.take_state [OF assms(1)] by auto
qed

theorem accepted_verdict_moves_on_witness:
  "\<exists>t. selects demoMachine (mc_context demoStart) (DoneAgent ''plan'' (demoResult ''rejected'')) (sa_transitions demoPlanner) t \<and>
    mc_state (documentedStep demoMachine demoStart (DoneAgent ''plan'' (demoResult ''rejected''))) = at_to t"
proof -
  have "stateOf demoWorkflow (mc_state demoStart) = Some (AgentState demoPlanner)"
    by (simp add: demoWorkflow_def stateOf_def)
  moreover have "sa_fanOut demoPlanner = None" by (simp add: demoPlanner_def plainAgent_def)
  moreover have "acceptedVerdict (sa_transitions demoPlanner) (ao_verdict (ar_output (demoResult ''rejected'')))"
    by code_simp
  ultimately show ?thesis
    using accepted_verdict_moves_on [OF documented.statechart_axioms demoWorkflow_valid demoWorkflow_schema demoMachine_built
        _ _ demoStart_running, of demoPlanner "demoResult ''rejected''"]
    by simp
qed

text \<open>A transition to the state itself does not run the agent again: the machine keeps that state and
  ignores every later event, so the workflow never ends.\<close>

theorem self_transition_hangs:
  assumes "statechart step" "validateSemantics d = []" "schemaAccepts d" "buildMachine None d = Some m"
    and "stateOf d (mc_state c) = Some (AgentState a)" "sa_fanOut a = None" "mc_running c"
    and "selects m (mc_context c) (DoneAgent (mc_state c) r) (sa_transitions a) t" "at_to t = mc_state c"
  shows "foldl (step m) c (DoneAgent (mc_state c) r # evs) = step m c (DoneAgent (mc_state c) r) \<and>
    mc_state (step m c (DoneAgent (mc_state c) r)) = mc_state c"
proof -
  obtain onError where node: "nodeOf m (mc_state c) = Some (InvokeNode [IncrementVisitCount (mc_state c)] AgentService
      (buildOnDoneTransitions UpdateFromAgentResult (sa_transitions a)) onError)"
    using agent_node [OF assms(4,2,3,5,6)] .
  let ?c = "step m c (DoneAgent (mc_state c) r)"
  have c': "mc_state ?c = mc_state c" "\<not> mc_running ?c"
    using agent_step [OF assms(1-8)] assms(9) by (simp_all add: takeTransition_def Let_def)
  then show ?thesis using statechart.run_stuck [OF assms(1), of m ?c] node by simp
qed

text \<open>An agent that may ask for another round of its own state.\<close>

definition loopAgent :: agent_state_def where
  "loopAgent = plainAgent [verdictTransition ''again'' ''plan'', verdictTransition ''approved'' ''end'']"

definition loopWorkflow :: workflow_definition where
  "loopWorkflow =
     \<lparr>wd_name = ''w'', wd_description = [], wd_initial = ''plan'',
      wd_states = [(''plan'', AgentState loopAgent), (''end'', plainTerminal)], wd_settings = None\<rparr>"

lemma loopWorkflow_valid: "validateSemantics loopWorkflow = []" by code_simp

lemma loopWorkflow_schema: "schemaAccepts loopWorkflow" by code_simp

theorem self_transition_hangs_witness:
  "list_ex (\<lambda>m. mc_state (foldl (documentedStep m) (startConfig m (createInitialContext loopWorkflow ''task''))
      [DoneAgent ''plan'' (demoResult ''again''), DoneAgent ''plan'' (demoResult ''approved'')]) = ''plan'')
   [the (buildMachine None loopWorkflow)]"
proof -
  obtain m where m: "buildMachine None loopWorkflow = Some m" using parent_machine [OF loopWorkflow_valid loopWorkflow_schema] .
  let ?c = "startConfig m (createInitialContext loopWorkflow ''task'')"
  have start: "mc_state ?c = ''plan''" using machine_initial [OF m] by (simp add: startConfig_def enterState_def loopWorkflow_def)
  have st: "stateOf loopWorkflow (mc_state ?c) = Some (AgentState loopAgent)" unfolding start by (simp add: loopWorkflow_def stateOf_def)
  have none: "sa_fanOut loopAgent = None" by (simp add: loopAgent_def plainAgent_def)
  obtain onError where "nodeOf m (mc_state ?c) = Some (InvokeNode [IncrementVisitCount (mc_state ?c)] AgentService
      (buildOnDoneTransitions UpdateFromAgentResult (sa_transitions loopAgent)) onError)"
    using agent_node [OF m loopWorkflow_valid loopWorkflow_schema st none] .
  then have run: "mc_running ?c" using start by (simp add: startConfig_def enterState_def startsService_def)
  have sel: "selects m (mc_context ?c) (DoneAgent (mc_state ?c) (demoResult ''again'')) (sa_transitions loopAgent)
      (verdictTransition ''again'' ''plan'')"
    unfolding selects_def by (rule exI [of _ "[]"])
      (simp add: loopAgent_def plainAgent_def verdictTransition_def buildGuard_def evalGuard_def matchesWhen_def matchSource_def
        demoResult_def demoOutput_def)
  have "at_to (verdictTransition ''again'' ''plan'') = mc_state ?c" by (simp add: verdictTransition_def start)
  from self_transition_hangs [OF documented.statechart_axioms loopWorkflow_valid loopWorkflow_schema m st none run sel this,
      of "[DoneAgent ''plan'' (demoResult ''approved'')]"]
  show ?thesis by (simp add: m start)
qed

section \<open>Lanes\<close>

text \<open>The verdict an event reports.\<close>

definition eventVerdict :: "machine_event \<Rightarrow> string option" where
  "eventVerdict ev = (case ev of
       DoneAgent _ r \<Rightarrow> Some (ao_verdict (ar_output r))
     | DoneDeterministic _ r \<Rightarrow> dr_verdict r
     | DoneFanOut _ r _ \<Rightarrow> dr_verdict r
     | _ \<Rightarrow> None)"

lemma matches_verdict:
  assumes "matchesWhen w ev" "getProp w ''verdict'' = JStr v"
  shows "eventVerdict ev = Some v"
proof -
  obtain src where src: "matchSource ev = Some src" "list_all (\<lambda>(k, expected). getProp src k = expected) w"
    using assms(1) by (auto simp: matchesWhen_def split: option.splits if_splits)
  have "map_of w ''verdict'' = Some (JStr v)" using assms(2) by (auto simp: getProp_def split: option.splits)
  then have "getProp src ''verdict'' = JStr v" using src(2) map_of_SomeD by (fastforce simp: list_all_iff)
  then show ?thesis using src(1)
    by (auto simp: matchSource_def eventVerdict_def split: machine_event.splits) (simp_all add: getProp_def)
qed

lemma mapRoundTransitions_mem:
  "mapRoundTransitions d seg ts = Some ts' \<Longrightarrow> t' \<in> set ts' \<Longrightarrow>
   \<exists>t \<in> set ts. \<exists>g. mapRoundChildTarget d seg t = Some g \<and> t' = t\<lparr>at_to := g\<rparr>"
  by (induction ts arbitrary: ts') (auto split: option.splits)

lemma recorded_target:
  assumes "mapRoundChildTarget d seg t = Some ROUND_CHILD_RECORDED" "ROUND_CHILD_RECORDED \<notin> set seg"
  shows "whenVerdict t = Some ''recorded''"
proof -
  have names: "ROUND_CHILD_BLOCKED \<noteq> ROUND_CHILD_RECORDED" "ROUND_CHILD_ERRORED \<noteq> ROUND_CHILD_RECORDED"
    by (simp_all add: ROUND_CHILD_RECORDED_def ROUND_CHILD_BLOCKED_def ROUND_CHILD_ERRORED_def)
  have "at_to t \<notin> set seg" using assms by (auto simp: mapRoundChildTarget_def)
  then show ?thesis using assms(1) names
    by (cases "whenVerdict t"; cases "stateOf d (at_to t)")
      (auto simp: mapRoundChildTarget_def simp del: char.inject split: if_split_asm)
qed

lemma pick_when:
  assumes "pickTransition m cx ev (buildOnDoneTransitions u ts) = Some t"
  obtains t0 where "t0 \<in> set ts" "mt_target t = at_to t0" "evalGuard m cx ev (buildGuard t0)"
proof -
  have "t \<in> set (buildOnDoneTransitions u ts)" "evalGuard m cx ev (mt_guard t)"
    using assms by (auto simp: pickTransition_def find_Some_iff)
  then show ?thesis using that by (auto simp: buildOnDoneTransitions_def)
qed

text \<open>The nodes of a child machine: services of its members with mapped transitions, and ends.\<close>

lemma round_node:
  assumes "buildRoundMachine d f seg = Some m" "nodeOf m i = Some n"
  shows "n = FinalNode \<or> (\<exists>entry svc u ts ts' acts. n = InvokeNode entry svc (buildOnDoneTransitions u ts')
    (errorTransition ROUND_CHILD_ERRORED acts) \<and> mapRoundTransitions d seg ts = Some ts')"
proof -
  obtain c where c: "buildRoundChildDefinition d f seg = Some c" "buildMachine (Some ROUND_CHILD_ERRORED) c = Some m"
    using assms(1) by (auto simp: buildRoundMachine_def split: option.splits)
  obtain s where s: "stateOf c i = Some s" "buildNode (Some ROUND_CHILD_ERRORED) c i s = Some n"
    using assms(2) nodeOf_machine [OF c(2), of i] by (cases "stateOf c i") auto
  show ?thesis
  proof (cases "i \<in> set roundTerminals")
    case True
    then show ?thesis using child_stateOf(2) [OF c(1) True] s by (auto simp: buildNode_def)
  next
    case False
    then have "roundMember d seg i = Some s" using child_stateOf(1) [OF c(1), of i] s(1) by (auto split: if_splits)
    then show ?thesis using s(2)
      by (auto simp: roundMember_def buildNode_def buildAgentState_def buildDeterministicState_def
          split: option.splits state_def.splits) blast+
  qed
qed


definition laneWorkflow :: workflow_definition where
  "laneWorkflow =
     \<lparr>wd_name = ''w'', wd_description = [], wd_initial = ''eval'',
      wd_states = [(''eval'', AgentState (plainAgent [verdictTransition ''recorded'' ''end''])), (''end'', plainTerminal)],
      wd_settings = None\<rparr>"

definition laneMachine :: workflow_machine where
  "laneMachine = the (buildRoundMachine laneWorkflow ''f'' [''eval''])"

definition laneStart :: machine_config where
  "laneStart = startConfig laneMachine (createInitialContext laneWorkflow ''task'')"

lemma laneMachine_built: "buildRoundMachine laneWorkflow ''f'' [''eval''] = Some laneMachine"
proof -
  have "buildRoundMachine laneWorkflow ''f'' [''eval''] \<noteq> None" by code_simp
  then show ?thesis by (simp add: laneMachine_def)
qed

lemma laneStart_runs:
  "mc_state laneStart \<noteq> ROUND_CHILD_RECORDED"
  "mc_state (documentedStep laneMachine laneStart (DoneAgent ''eval'' (demoResult ''recorded''))) = ROUND_CHILD_RECORDED"
  by code_simp+


section \<open>Text carried between agents\<close>

definition boundedText :: "string \<Rightarrow> bool" where
  "boundedText t = (length t \<le> MAX_AGENT_OUTPUT_BYTES \<and> CHR 0x00 \<notin> set t)"

lemma shrinkTo_bound: "length (shrinkTo b t) \<le> b \<and> set (shrinkTo b t) \<subseteq> set t"
proof (induction b t rule: shrinkTo.induct)
  case (1 b t)
  then show ?case using set_take_subset [of "9 * length t div 10" t] by (subst shrinkTo.simps) (auto simp: shrinkTo.simps [of b t])
qed

lemma replaceAll_removes: "c \<notin> set rep \<Longrightarrow> c \<notin> set (replaceAll [c] rep s)"
proof (induction s)
  case (Cons x xs)
  then show ?case by (auto simp: replaceAll.simps [of _ _ "x # xs"])
qed (simp add: replaceAll.simps)

lemma truncate_bounded: "boundedText (truncateAgentOutput text)"
proof -
  let ?s = "replaceAll [CHR 0x00] (CHR 0x5C # ''x00'') text"
  have nul: "CHR 0x00 \<notin> set ?s" by (rule replaceAll_removes) simp
  have notice: "length TRUNCATION_NOTICE \<le> MAX_AGENT_OUTPUT_BYTES" "CHR 0x00 \<notin> set TRUNCATION_NOTICE"
    by (simp_all add: TRUNCATION_NOTICE_def MAX_AGENT_OUTPUT_BYTES_def)
  show ?thesis
    using nul notice shrinkTo_bound [of "MAX_AGENT_OUTPUT_BYTES - length TRUNCATION_NOTICE" ?s]
    by (auto simp: truncateAgentOutput_def boundedText_def Let_def)
qed

definition boundedContext :: "workflow_context \<Rightarrow> bool" where
  "boundedContext cx = (optAll boundedText (cx_previousAgentOutput cx) \<and> optAll boundedText (cx_previousAgentNotes cx))"

text \<open>The context a fan-out joins comes from the run of the lanes, and is bounded like theirs.\<close>

fun boundedEvent :: "machine_event \<Rightarrow> bool" where
  "boundedEvent (DoneFanOut _ _ joined) = boundedContext joined"
| "boundedEvent _ = True"

lemma runAction_bounded: "boundedEvent ev \<Longrightarrow> boundedContext cx \<Longrightarrow> boundedContext (runAction ev cx a)"
  by (cases a; cases ev)
    (auto simp: runAction_def boundedContext_def updateFromAgentResult_def updateFromDeterministicResult_def optAll_def
      truncate_bounded incrementVisitCount_def resetVisitCounts_def Let_def split: option.split)

lemma runActions_bounded: "boundedEvent ev \<Longrightarrow> boundedContext cx \<Longrightarrow> boundedContext (runActions ev as cx)"
  unfolding runActions_def by (induction as arbitrary: cx) (auto simp: runAction_bounded)

lemma take_bounded:
  "boundedEvent ev \<Longrightarrow> boundedContext (mc_context c) \<Longrightarrow> boundedContext (mc_context (takeTransition m ev t c))"
  by (simp add: takeTransition_def Let_def enterState_def runActions_bounded)

lemma step_bounded:
  assumes "statechart step" "boundedEvent ev" "boundedContext (mc_context c)"
  shows "boundedContext (mc_context (step m c ev))"
  by (cases rule: statechart.step_cases [OF assms(1), of m c ev]) (use assms(2,3) take_bounded in auto)

lemma run_bounded:
  assumes "statechart step"
  shows "list_all boundedEvent evs \<Longrightarrow> boundedContext (mc_context c) \<Longrightarrow> boundedContext (mc_context (foldl (step m) c evs))"
  by (induction evs arbitrary: c) (auto simp: step_bounded [OF assms])



end
