(* ===== verification/Workflow_Lanes.thy ===== *)
theory Workflow_Lanes
  imports Workflow_Statechart
begin

text \<open>
  The files of the lanes of a fan-out (\<open>src/workflow/lane-template.ts\<close>): the numbers of lanes are
  written without ambiguity, and a result file that the validation accepts as bare is another file in
  every lane.
\<close>

section \<open>Result files\<close>

lemma applyLaneTemplate_plain:
  assumes "CHR ''{'' \<notin> set value"
  shows "applyLaneTemplate value cx = value"
proof -
  have "\<not> strIncludes value pat" if "CHR ''{'' \<in> set pat" for pat
    using that assms set_mono_sublist by blast
  then show ?thesis by (simp add: applyLaneTemplate_def Let_def replaceAll_absent)
qed

text \<open>The context of lane \<open>k\<close>, with the directories the engine gives it.\<close>

definition inLane :: "nat \<Rightarrow> workflow_context \<Rightarrow> workflow_context" where
  "inLane k cx = cx\<lparr>cx_lane := Some \<lparr>lc_id = k, lc_dir = DEFAULT_EVOLVE_LANE_DIR @ ''/lane_'' @ showNat k,
     lc_relativeDir = DEFAULT_EVOLVE_LANE_RELATIVE_DIR @ ''/lane_'' @ showNat k\<rparr>\<rparr>"

lemma startsWithLane_hardcoded:
  assumes "startsWithLane suf"
  shows "\<exists>seg \<in> set (splitOn (CHR ''/'') suf). isHardcodedLane seg"
proof -
  let ?rest = "drop 5 suf" and ?d = "takeWhile isDigit (drop 5 suf)"
  have parts: "suf = ''lane_'' @ ?rest" "?d \<noteq> []" "startsWith (dropWhile isDigit ?rest) ''/''"
    using assms by (auto simp: startsWithLane_def Let_def prefix_def)
  then obtain tail where "dropWhile isDigit ?rest = CHR ''/'' # tail" by (auto simp: prefix_def)
  then have "suf = (''lane_'' @ ?d) @ CHR ''/'' # tail" using parts(1) takeWhile_dropWhile_id [of isDigit ?rest] by simp
  then have split: "splitOn (CHR ''/'') suf = splitOn (CHR ''/'') (''lane_'' @ ?d) @ splitOn (CHR ''/'') tail"
    by (metis splitOn_append_sep)
  have no_slash: "CHR ''/'' \<notin> set (''lane_'' @ ?d)" by (auto dest: set_takeWhileD simp: isDigit_def)
  have "isHardcodedLane (''lane_'' @ ?d)"
    using parts(2) by (auto simp: isHardcodedLane_def list_all_iff dest: set_takeWhileD)
  then show ?thesis using split splitOn_no_sep_id [OF no_slash] by auto
qed

lemma bare_scoped:
  assumes "startsWith r (DEFAULT_EVOLVE_LANE_RELATIVE_DIR @ ''/'')" "CHR ''{'' \<notin> set r"
    and "\<not> list_ex isHardcodedLane (splitOn (CHR ''/'') r)"
  obtains suf where "r = DEFAULT_EVOLVE_LANE_RELATIVE_DIR @ ''/'' @ suf"
    "\<And>k cx. laneScopeEvolveCurrentPath r (inLane k cx) =
       DEFAULT_EVOLVE_LANE_RELATIVE_DIR @ ''/lane_'' @ showNat k @ ''/'' @ suf"
proof -
  obtain suf where r: "r = DEFAULT_EVOLVE_LANE_RELATIVE_DIR @ ''/'' @ suf" using assms(1) by (auto simp: prefix_def)
  have "splitOn (CHR ''/'') r = splitOn (CHR ''/'') DEFAULT_EVOLVE_LANE_RELATIVE_DIR @ splitOn (CHR ''/'') suf"
    unfolding r by (metis splitOn_append_sep append_Cons append_Nil)
  then have "\<not> list_ex isHardcodedLane (splitOn (CHR ''/'') suf)" using assms(3) by simp
  then have no_lane: "\<not> startsWithLane suf" using startsWithLane_hardcoded by (auto simp: list_ex_iff)
  have abs: "replaceCurrentPrefix r DEFAULT_EVOLVE_LANE_DIR x = r" for x
    by (simp add: replaceCurrentPrefix_def r DEFAULT_EVOLVE_LANE_DIR_def DEFAULT_EVOLVE_LANE_RELATIVE_DIR_def)
  have rel: "replaceCurrentPrefix r DEFAULT_EVOLVE_LANE_RELATIVE_DIR x = x @ ''/'' @ suf" for x
    using no_lane by (simp add: replaceCurrentPrefix_def r)
  show ?thesis
    using that [OF r] by (simp add: laneScopeEvolveCurrentPath_def inLane_def applyLaneTemplate_plain [OF assms(2)] abs rel)
qed

lemma set_splitOn_subset: "seg \<in> set (splitOn c s) \<Longrightarrow> set seg \<subseteq> set s"
proof (induction s arbitrary: seg)
  case (Cons x xs)
  obtain y ys where split: "splitOn c xs = y # ys" using splitOn_nonempty [of c xs] by (cases "splitOn c xs") auto
  then show ?case using Cons by (auto split: if_splits) blast+
qed simp

lemma safe_file_relative: "isSafeWorkspaceRelativePath r \<Longrightarrow> pathNormalize r = r \<and> \<not> startsWith r ''/''"
  by (auto simp: isSafeWorkspaceRelativePath_def split: if_splits)

text \<open>A bare result file that passes the validation of a fan-out member is lane-scoped: two lanes never
  write the same file.\<close>

theorem bare_result_files_distinct:
  assumes "isSafeWorkspaceRelativePath r" "classifyFanOutResultFile r = RfSafe" "CHR ''{'' \<notin> set r" "j \<noteq> k"
  shows "laneScopeEvolveCurrentPath r (inLane j cx) \<noteq> laneScopeEvolveCurrentPath r (inLane k cx)"
proof -
  note safe = safe_file_relative [OF assms(1)]
  have "LANE_PLACEHOLDER \<notin> set (splitOn (CHR ''/'') r)"
  proof
    assume "LANE_PLACEHOLDER \<in> set (splitOn (CHR ''/'') r)"
    then have "set LANE_PLACEHOLDER \<subseteq> set r" using set_splitOn_subset by fastforce
    then show False using assms(3) by (auto simp: LANE_PLACEHOLDER_def)
  qed
  then have parts: "\<not> list_ex isHardcodedLane (splitOn (CHR ''/'') r)" "isRootedUnderPumpCurrentDir r"
    using assms(2) safe by (auto simp: classifyFanOutResultFile_def Let_def split: if_splits)
  have norm: "pathNormalize DEFAULT_EVOLVE_LANE_RELATIVE_DIR = DEFAULT_EVOLVE_LANE_RELATIVE_DIR"
    "pathNormalize DEFAULT_EVOLVE_LANE_DIR = DEFAULT_EVOLVE_LANE_DIR" by code_simp+
  have "\<not> startsWith r (DEFAULT_EVOLVE_LANE_DIR @ ''/'')"
    using safe by (auto simp: DEFAULT_EVOLVE_LANE_DIR_def prefix_def)
  then have "startsWith r (DEFAULT_EVOLVE_LANE_RELATIVE_DIR @ ''/'')"
    using parts(2) by (simp add: isRootedUnderPumpCurrentDir_def norm)
  then obtain suf where scoped: "\<And>k cx. laneScopeEvolveCurrentPath r (inLane k cx) =
       DEFAULT_EVOLVE_LANE_RELATIVE_DIR @ ''/lane_'' @ showNat k @ ''/'' @ suf"
    using bare_scoped [OF _ assms(3) parts(1)] by metis
  show ?thesis using assms(4) by (simp add: scoped)
qed

theorem bare_result_files_distinct_witness:
  "laneScopeEvolveCurrentPath ''.evolve_runs/main/current/result.json'' (inLane 0 (createInitialContext demoWorkflow ''task'')) \<noteq>
   laneScopeEvolveCurrentPath ''.evolve_runs/main/current/result.json'' (inLane 1 (createInitialContext demoWorkflow ''task''))"
proof (rule bare_result_files_distinct)
  show "isSafeWorkspaceRelativePath ''.evolve_runs/main/current/result.json''" by code_simp
  show "classifyFanOutResultFile ''.evolve_runs/main/current/result.json'' = RfSafe" by code_simp
qed simp_all

end
