(* ===== verification/Workflow_Lint.thy ===== *)
theory Workflow_Lint
  imports Workflow_Validate
begin

text \<open>
  The semantic linter (\<open>src/workflow/lint.ts\<close>), which looks at definitions that passed validation. A
  diagnostic is a value with the names its message mentions; its code and severity are functions of it.
  What the linter asks of its surroundings (installed personas, the skills found beside the workflow
  file) is the record \<open>lint_context\<close>.
\<close>

section \<open>Diagnostics\<close>

datatype skill_reason = Unreadable | MalformedFrontmatter | MissingFields | MissingManifest | DuplicateName

datatype diagnostic =
    NoTerminalReachable string
  | UnversionedNotProduced string
  | TerminalOutputNotProduced string string
  | GatePresentNotProduced string string
  | RoundLimitUnused nat
  | PersonaMissing string string
  | VisitCapShadowed string nat nat
  | SkillManifest skill_reason string
  | SkillReference issue
  | ScopeNotPopulated string string
  | VerdictWithoutResultFile string
  | BatchBudget string nat nat
  | UnboundedMember string

datatype diagnostic_code = WF001 | WF002 | WF003 | WF004 | WF006 | WF007 | WF008 | WF010 | WF011 | WF012 | WF013 | WF014

fun diagnosticCode :: "diagnostic \<Rightarrow> diagnostic_code" where
  "diagnosticCode (NoTerminalReachable _) = WF001"
| "diagnosticCode (UnversionedNotProduced _) = WF002"
| "diagnosticCode (TerminalOutputNotProduced _ _) = WF003"
| "diagnosticCode (GatePresentNotProduced _ _) = WF004"
| "diagnosticCode (RoundLimitUnused _) = WF006"
| "diagnosticCode (PersonaMissing _ _) = WF007"
| "diagnosticCode (VisitCapShadowed _ _ _) = WF008"
| "diagnosticCode (SkillManifest _ _) = WF010"
| "diagnosticCode (SkillReference _) = WF010"
| "diagnosticCode (ScopeNotPopulated _ _) = WF011"
| "diagnosticCode (VerdictWithoutResultFile _) = WF012"
| "diagnosticCode (BatchBudget _ _ _) = WF013"
| "diagnosticCode (UnboundedMember _) = WF014"

text \<open>Errors; every other diagnostic is a warning.\<close>

definition isErrorDiagnostic :: "diagnostic \<Rightarrow> bool" where
  "isErrorDiagnostic x = (diagnosticCode x \<in> set [WF001, WF004, WF008, WF010])"

text \<open>\<open>lx_skills\<close>: \<open>None\<close> without a workflow file, else the names and the errors discovery reports.\<close>

record lint_context =
  lx_personaExists :: "string \<Rightarrow> bool"
  lx_skills :: "(string list \<times> (skill_reason \<times> string) list) option"

definition countBySeverity :: "diagnostic list \<Rightarrow> nat \<times> nat" where
  "countBySeverity ds = (length (filter isErrorDiagnostic ds), length (filter (\<lambda>x. \<not> isErrorDiagnostic x) ds))"

definition collectReachableAgentOutputs :: "workflow_definition \<Rightarrow> string list \<Rightarrow> string list" where
  "collectReachableAgentOutputs d reachable =
     uniq (concat (map (\<lambda>(i, s). case s of AgentState a \<Rightarrow> (if i \<in> set reachable then sa_outputs a else []) | _ \<Rightarrow> []) (wd_states d)))"

section \<open>The checks\<close>

text \<open>\<open>None\<close> is an exception: the loops read the type of every name the search returns, and a segment of a
  state without a fan-out may name a state that does not exist.\<close>

fun touchesTerminal :: "workflow_definition \<Rightarrow> string list \<Rightarrow> bool option" where
  "touchesTerminal d [] = Some False"
| "touchesTerminal d (target # cone) =
     (case stateOf d target of
        None \<Rightarrow> None
      | Some s \<Rightarrow> (if isTerminalState s then Some True else touchesTerminal d cone))"

definition deadEndIssues :: "workflow_definition \<Rightarrow> string \<Rightarrow> diagnostic list option" where
  "deadEndIssues d stateId =
     (case stateOf d stateId of
        None \<Rightarrow> None
      | Some s \<Rightarrow>
          (if isTerminalState s then Some []
           else map_option (\<lambda>found. if found then [] else [NoTerminalReachable stateId])
                  (touchesTerminal d (findReachableStates stateId (wd_states d)))))"

fun checkUnreachableTerminal :: "workflow_definition \<Rightarrow> string list \<Rightarrow> diagnostic list option" where
  "checkUnreachableTerminal d [] = Some []"
| "checkUnreachableTerminal d (stateId # reachable) =
     (case deadEndIssues d stateId of
        None \<Rightarrow> None
      | Some ds \<Rightarrow> map_option (\<lambda>rest. ds @ rest) (checkUnreachableTerminal d reachable))"

definition checkUnversionedArtifacts :: "workflow_definition \<Rightarrow> string list \<Rightarrow> diagnostic list" where
  "checkUnversionedArtifacts d produced =
     map UnversionedNotProduced (filter (\<lambda>name. name \<notin> set produced) (orElse (setting ws_unversionedArtifacts d) []))"

definition checkTerminalOutputs :: "workflow_definition \<Rightarrow> string list \<Rightarrow> string list \<Rightarrow> diagnostic list" where
  "checkTerminalOutputs d reachable produced =
     concat (map (\<lambda>(i, s). case s of
         TerminalState t \<Rightarrow>
           (if i \<in> set reachable
            then map (TerminalOutputNotProduced i) (filter (\<lambda>name. name \<notin> set produced) (orElse (st_outputs t) [])) else [])
       | _ \<Rightarrow> []) (wd_states d))"

definition checkHumanGatePresent :: "workflow_definition \<Rightarrow> string list \<Rightarrow> string list \<Rightarrow> diagnostic list" where
  "checkHumanGatePresent d reachable produced =
     concat (map (\<lambda>(i, s). case s of
         HumanGateState g \<Rightarrow>
           (if i \<in> set reachable
            then map (GatePresentNotProduced i)
                   (filter (\<lambda>name. name \<notin> set produced) (map (fst \<circ> parseArtifactRef) (orElse (sg_present g) []))) else [])
       | _ \<Rightarrow> []) (wd_states d))"

definition ROUND_LIMIT_GUARD :: string where "ROUND_LIMIT_GUARD = ''isRoundLimitReached''"

definition checkMaxRoundsHasGuard :: "workflow_definition \<Rightarrow> diagnostic list" where
  "checkMaxRoundsHasGuard d =
     (case setting ws_maxRounds d of
        None \<Rightarrow> []
      | Some n \<Rightarrow>
          (if list_ex (\<lambda>(_, s). isExecutableState s \<and> list_ex (\<lambda>t. at_guard t = Some ROUND_LIMIT_GUARD) (execTransitions s)) (wd_states d)
           then [] else [RoundLimitUnused n]))"

definition checkPersonaExists :: "workflow_definition \<Rightarrow> lint_context \<Rightarrow> diagnostic list" where
  "checkPersonaExists d cx =
     concat (map (\<lambda>(i, s). case s of
         AgentState a \<Rightarrow>
           (if sa_persona a = GLOBAL_PERSONA then []
            else if lx_personaExists cx (sa_persona a) then [] else [PersonaMissing i (sa_persona a)])
       | _ \<Rightarrow> []) (wd_states d))"

subsection \<open>Visit caps\<close>

definition VISIT_CAP_GUARD :: string where "VISIT_CAP_GUARD = ''isStateVisitLimitReached''"

definition APPROVAL_EXIT_VERDICTS :: "string list" where
  "APPROVAL_EXIT_VERDICTS = [''approved'', ''complete'', ''done'', ''success'', ''passed'']"

definition isApprovalExitTransition :: "agent_transition \<Rightarrow> bool" where
  "isApprovalExitTransition t =
     (case at_when t of
        Some [(k, v)] \<Rightarrow> k = ''verdict'' \<and> (case v of JStr verdict \<Rightarrow> verdict \<in> set APPROVAL_EXIT_VERDICTS | _ \<Rightarrow> False)
      | _ \<Rightarrow> False)"

text \<open>\<open>findIndex\<close>.\<close>

fun indexWhere :: "('a \<Rightarrow> bool) \<Rightarrow> 'a list \<Rightarrow> nat option" where
  "indexWhere P [] = None"
| "indexWhere P (x # xs) = (if P x then Some 0 else map_option Suc (indexWhere P xs))"

definition isCapTransition :: "agent_transition \<Rightarrow> bool" where
  "isCapTransition t = (at_guard t = Some VISIT_CAP_GUARD)"

definition visitCapIssues :: "string \<Rightarrow> agent_state_def \<Rightarrow> diagnostic list" where
  "visitCapIssues stateId a =
     (if sa_maxVisits a = None then []
      else case indexWhere isCapTransition (sa_transitions a) of
             None \<Rightarrow> []
           | Some capIndex \<Rightarrow>
               (case indexWhere (\<lambda>t. \<not> isApprovalExitTransition t) (take capIndex (sa_transitions a)) of
                  None \<Rightarrow> []
                | Some i \<Rightarrow> [VisitCapShadowed stateId (capIndex + 1) (i + 1)]))"

definition checkVisitCapTransitionOrder :: "workflow_definition \<Rightarrow> diagnostic list" where
  "checkVisitCapTransitionOrder d =
     concat (map (\<lambda>(i, s). case s of AgentState a \<Rightarrow> visitCapIssues i a | _ \<Rightarrow> []) (wd_states d))"

subsection \<open>Searches\<close>

text \<open>Both searches walk a graph given by an association list; a name without an entry has no successors.\<close>

definition adjacent :: "(string \<times> string list) list \<Rightarrow> string \<Rightarrow> string list" where
  "adjacent g x = (case map_of g x of None \<Rightarrow> [] | Some ys \<Rightarrow> ys)"

lemma adjacent_none: "x \<notin> fst ` set g \<Longrightarrow> adjacent g x = []"
  by (simp add: adjacent_def flip: map_of_eq_None_iff)

lemma unseen_decreases:
  "x \<notin> set seen \<Longrightarrow> x \<in> fst ` set g \<Longrightarrow> card (fst ` set g - set (x # seen)) < card (fst ` set g - set seen)"
  by (rule psubset_card_mono) auto

lemma unseen_same: "x \<notin> fst ` set g \<Longrightarrow> fst ` set g - set (x # seen) = fst ` set g - set seen"
  by auto

text \<open>The stack search of \<open>isReachableWithoutScopeAgent\<close>, the top in front.\<close>

function stackReaches :: "(string \<times> string list) list \<Rightarrow> string \<Rightarrow> string list \<Rightarrow> string list \<Rightarrow> bool" where
  "stackReaches g target [] seen = False"
| "stackReaches g target (x # queue) seen =
     (if x \<in> set seen then stackReaches g target queue seen
      else if x = target then True
      else stackReaches g target (rev (filter (\<lambda>y. y \<notin> set (x # seen)) (adjacent g x)) @ queue) (x # seen))"
  by pat_completeness auto
termination
proof (relation "measures [\<lambda>(g, t, q, seen). card (fst ` set g - set seen), \<lambda>(g, t, q, seen). length q]", goal_cases)
  case (3 g target x queue seen)
  then show ?case using unseen_decreases [of x seen g] unseen_same [of x g seen] adjacent_none [of x g]
    by (cases "x \<in> fst ` set g") simp_all
qed auto

text \<open>The queue search of \<open>isSelfLoopableWithinSegment\<close>.\<close>

function queueReaches :: "(string \<times> string list) list \<Rightarrow> string \<Rightarrow> string list \<Rightarrow> string list \<Rightarrow> bool" where
  "queueReaches g target [] seen = False"
| "queueReaches g target (x # queue) seen =
     (if x = target then True
      else if x \<in> set seen then queueReaches g target queue seen
      else queueReaches g target (queue @ adjacent g x) (x # seen))"
  by pat_completeness auto
termination
proof (relation "measures [\<lambda>(g, t, q, seen). card (fst ` set g - set seen), \<lambda>(g, t, q, seen). length q]", goal_cases)
  case (3 g target x queue seen)
  then show ?case using unseen_decreases [of x seen g] unseen_same [of x g seen] adjacent_none [of x g]
    by (cases "x \<in> fst ` set g") simp_all
qed auto

subsection \<open>Container scopes\<close>

definition scopeOf :: "string option \<Rightarrow> string" where
  "scopeOf sc = orElse sc DEFAULT_CONTAINER_SCOPE"

definition isScopeAgent :: "string \<Rightarrow> state_def \<Rightarrow> bool" where
  "isScopeAgent scope s = (case s of AgentState a \<Rightarrow> scopeOf (sa_containerScope a) = scope | _ \<Rightarrow> False)"

text \<open>The search does not go beyond an agent of the scope.\<close>

definition scopeGraph :: "workflow_definition \<Rightarrow> string \<Rightarrow> (string \<times> string list) list" where
  "scopeGraph d scope = map (\<lambda>(i, s). (i, if isScopeAgent scope s then [] else collectTransitionTargets s)) (wd_states d)"

definition isReachableWithoutScopeAgent :: "workflow_definition \<Rightarrow> string \<Rightarrow> string \<Rightarrow> bool" where
  "isReachableWithoutScopeAgent d target scope = stackReaches (scopeGraph d scope) target [wd_initial d] []"

definition checkContainerScopePopulatedByAgent :: "workflow_definition \<Rightarrow> diagnostic list" where
  "checkContainerScopePopulatedByAgent d =
     concat (map (\<lambda>(i, s). case s of
         DeterministicState det \<Rightarrow>
           (let scope = scopeOf (sd_containerScope det)
            in if sd_container det = Some True \<and> list_ex (isScopeAgent scope \<circ> snd) (wd_states d) \<and>
                  isReachableWithoutScopeAgent d i scope
               then [ScopeNotPopulated i scope] else [])
       | _ \<Rightarrow> []) (wd_states d))"

definition checkVerdictEdgesHaveResultFile :: "workflow_definition \<Rightarrow> diagnostic list" where
  "checkVerdictEdgesHaveResultFile d =
     concat (map (\<lambda>(i, s). case s of
         DeterministicState det \<Rightarrow>
           (if sd_fanOut det = None \<and> sd_resultFile det = None \<and> usesVerdictEdges (sd_transitions det)
            then [VerdictWithoutResultFile i] else [])
       | _ \<Rightarrow> []) (wd_states d))"

subsection \<open>Fan-out\<close>

definition lanesOf :: "workflow_definition \<Rightarrow> state_def \<Rightarrow> nat" where
  "lanesOf d s = (case stateFanOut s of None \<Rightarrow> 0 | Some fo \<Rightarrow> resolveFanOutWorkers fo (wd_settings d))"

definition checkFanOutBudget :: "workflow_definition \<Rightarrow> diagnostic list" where
  "checkFanOutBudget d =
     (case setting ws_maxRounds d of
        None \<Rightarrow> []
      | Some maxRounds \<Rightarrow>
          concat (map (\<lambda>(i, s).
            if lanesOf d s \<le> 1 then [] else [BatchBudget i (lanesOf d s) (maxRounds * lanesOf d s)]) (wd_states d)))"

text \<open>The transitions inside a segment.\<close>

definition segmentGraph :: "workflow_definition \<Rightarrow> string list \<Rightarrow> (string \<times> string list) list" where
  "segmentGraph d segment =
     map (\<lambda>(i, s). (i, filter (\<lambda>target. target \<in> set segment) (collectTransitionTargets s))) (wd_states d)"

definition isSelfLoopableWithinSegment :: "workflow_definition \<Rightarrow> string \<Rightarrow> string list \<Rightarrow> bool" where
  "isSelfLoopableWithinSegment d stateId segment =
     (let g = segmentGraph d segment in queueReaches g stateId (adjacent g stateId) [])"

definition memberBoundIssues :: "workflow_definition \<Rightarrow> string list \<Rightarrow> string \<Rightarrow> diagnostic list" where
  "memberBoundIssues d segment memberId =
     (case stateOf d memberId of
        None \<Rightarrow> []
      | Some member \<Rightarrow>
          (if \<not> isSelfLoopableWithinSegment d memberId segment then []
           else if (case member of AgentState a \<Rightarrow> sa_maxVisits a \<noteq> None | _ \<Rightarrow> False) then []
           else [UnboundedMember memberId]))"

definition checkFanOutChildBounds :: "workflow_definition \<Rightarrow> diagnostic list" where
  "checkFanOutChildBounds d =
     concat (map (\<lambda>(i, s).
       if lanesOf d s \<le> 1 then []
       else let segment = orElse (stateSegment s) [] in concat (map (memberBoundIssues d segment) segment)) (wd_states d))"

subsection \<open>Skills\<close>

definition ACTIONABLE_DISCOVERY_REASONS :: "skill_reason list" where
  "ACTIONABLE_DISCOVERY_REASONS = [Unreadable, MalformedFrontmatter, MissingFields, DuplicateName]"

definition checkSkillManifests :: "(skill_reason \<times> string) list \<Rightarrow> diagnostic list" where
  "checkSkillManifests errors =
     map (\<lambda>(reason, skillDir). SkillManifest reason skillDir)
       (filter (\<lambda>(reason, _). reason \<in> set ACTIONABLE_DISCOVERY_REASONS) errors)"

definition checkSkillReferencesAndManifests :: "workflow_definition \<Rightarrow> lint_context \<Rightarrow> diagnostic list" where
  "checkSkillReferencesAndManifests d cx =
     (case lx_skills cx of
        None \<Rightarrow> []
      | Some (names, errors) \<Rightarrow> checkSkillManifests errors @ map SkillReference (iterateSkillRefIssues d names))"

section \<open>The linter\<close>

definition lintWorkflow :: "workflow_definition \<Rightarrow> lint_context \<Rightarrow> diagnostic list option" where
  "lintWorkflow d cx =
     (let reachable = findReachableStates (wd_initial d) (wd_states d);
          outputs = collectReachableAgentOutputs d reachable
      in map_option (\<lambda>deadEnds. deadEnds @
         checkUnversionedArtifacts d outputs @
         checkTerminalOutputs d reachable outputs @
         checkHumanGatePresent d reachable outputs @
         checkMaxRoundsHasGuard d @
         checkPersonaExists d cx @
         checkVisitCapTransitionOrder d @
         checkContainerScopePopulatedByAgent d @
         checkVerdictEdgesHaveResultFile d @
         checkFanOutBudget d @
         checkFanOutChildBounds d @
         checkSkillReferencesAndManifests d cx)
       (checkUnreachableTerminal d reachable))"

end
