(* ===== verification/Workflow_Lint_Props.thy ===== *)
theory Workflow_Lint_Props
  imports Workflow_Lint Workflow_Props
begin

text \<open>
  What the diagnostics of the linter mean: each search decides connection in its graph, a state is
  reported as a dead end exactly if it is connected to no terminal, and in a definition without
  visit-cap diagnostics the cap ends the loop in every run of the built machine.
\<close>

section \<open>The searches\<close>

definition arcs :: "(string \<times> string list) list \<Rightarrow> (string \<times> string) set" where
  "arcs g = {(a, b). b \<in> set (adjacent g a)}"

lemma stack_sound: "stackReaches g t q seen \<Longrightarrow> \<exists>x \<in> set q. (x, t) \<in> (arcs g)\<^sup>*"
proof (induction g t q seen rule: stackReaches.induct)
  case (2 g t x q seen)
  show ?case
  proof (cases "x \<in> set seen \<or> x = t")
    case True
    then show ?thesis using 2 by (auto split: if_splits)
  next
    case False
    then obtain y where y: "y \<in> set (rev (filter (\<lambda>y. y \<notin> set (x # seen)) (adjacent g x)) @ q)" "(y, t) \<in> (arcs g)\<^sup>*"
      using 2(2,3) by (auto split: if_splits)
    then consider "y \<in> set (adjacent g x)" | "y \<in> set q" by auto
    then show ?thesis
    proof cases
      case 1
      then have "(x, t) \<in> (arcs g)\<^sup>*" using y(2) by (auto simp: arcs_def intro: converse_rtrancl_into_rtrancl)
      then show ?thesis by simp
    next
      case 2
      then show ?thesis using y(2) by auto
    qed
  qed
qed simp

lemma queue_sound: "queueReaches g t q seen \<Longrightarrow> \<exists>x \<in> set q. (x, t) \<in> (arcs g)\<^sup>*"
proof (induction g t q seen rule: queueReaches.induct)
  case (2 g t x q seen)
  show ?case
  proof (cases "x \<in> set seen \<or> x = t")
    case True
    then show ?thesis using 2 by (auto split: if_splits)
  next
    case False
    then obtain y where y: "y \<in> set (q @ adjacent g x)" "(y, t) \<in> (arcs g)\<^sup>*"
      using 2(2,3) by (auto split: if_splits)
    then consider "y \<in> set (adjacent g x)" | "y \<in> set q" by auto
    then show ?thesis
    proof cases
      case 1
      then have "(x, t) \<in> (arcs g)\<^sup>*" using y(2) by (auto simp: arcs_def intro: converse_rtrancl_into_rtrancl)
      then show ?thesis by simp
    next
      case 2
      then show ?thesis using y(2) by auto
    qed
  qed
qed simp

text \<open>A set that is closed and does not hold the target does not reach it.\<close>

lemma closed_no_path: "arcs g `` S \<subseteq> S \<Longrightarrow> t \<notin> S \<Longrightarrow> x \<in> S \<Longrightarrow> (x, t) \<notin> (arcs g)\<^sup>*"
  using Image_closed_trancl [of "arcs g" S] by blast

lemma stack_complete:
  "\<not> stackReaches g t q seen \<Longrightarrow> t \<notin> set seen \<Longrightarrow> arcs g `` set seen \<subseteq> set seen \<union> set q \<Longrightarrow>
   x \<in> set q \<union> set seen \<Longrightarrow> (x, t) \<notin> (arcs g)\<^sup>*"
proof (induction g t q seen rule: stackReaches.induct)
  case (1 g t seen)
  then show ?case using closed_no_path [of g "set seen" t x] by simp
next
  case (2 g t y q seen)
  show ?case
  proof (cases "y \<in> set seen")
    case True
    then show ?thesis using 2(1) 2(3-6) by (auto split: if_splits)
  next
    case False
    let ?q = "rev (filter (\<lambda>z. z \<notin> set (y # seen)) (adjacent g y)) @ q"
    have "\<not> stackReaches g t ?q (y # seen)" "t \<notin> set (y # seen)" using 2(3,4) False by (auto split: if_splits)
    moreover have "arcs g `` set (y # seen) \<subseteq> set (y # seen) \<union> set ?q" using 2(5) by (auto simp: arcs_def)
    moreover have "x \<in> set ?q \<union> set (y # seen)" using 2(6) by auto
    ultimately show ?thesis using 2(2) False 2(3) by (auto split: if_splits)
  qed
qed

lemma queue_complete:
  "\<not> queueReaches g t q seen \<Longrightarrow> t \<notin> set seen \<Longrightarrow> arcs g `` set seen \<subseteq> set seen \<union> set q \<Longrightarrow>
   x \<in> set q \<union> set seen \<Longrightarrow> (x, t) \<notin> (arcs g)\<^sup>*"
proof (induction g t q seen rule: queueReaches.induct)
  case (1 g t seen)
  then show ?case using closed_no_path [of g "set seen" t x] by simp
next
  case (2 g t y q seen)
  then have not_y: "y \<noteq> t" by auto
  show ?case
  proof (cases "y \<in> set seen")
    case True
    then show ?thesis using 2(1) 2(3-6) not_y by (auto split: if_splits)
  next
    case False
    have "\<not> queueReaches g t (q @ adjacent g y) (y # seen)" "t \<notin> set (y # seen)" using 2(3,4) False not_y by auto
    moreover have "arcs g `` set (y # seen) \<subseteq> set (y # seen) \<union> set (q @ adjacent g y)" using 2(5) by (auto simp: arcs_def)
    moreover have "x \<in> set (q @ adjacent g y) \<union> set (y # seen)" using 2(6) by auto
    ultimately show ?thesis using 2(2) False not_y by blast
  qed
qed

lemma stack_reaches_iff: "stackReaches g t [x] [] \<longleftrightarrow> (x, t) \<in> (arcs g)\<^sup>*"
  using stack_sound [of g t "[x]" "[]"] stack_complete [of g t "[x]" "[]" x] by (auto simp del: stackReaches.simps)

lemma queue_reaches_iff: "queueReaches g t (adjacent g x) [] \<longleftrightarrow> (x, t) \<in> (arcs g)\<^sup>+"
proof
  assume "queueReaches g t (adjacent g x) []"
  then obtain y where "y \<in> set (adjacent g x)" "(y, t) \<in> (arcs g)\<^sup>*" using queue_sound by blast
  then show "(x, t) \<in> (arcs g)\<^sup>+" by (auto simp: arcs_def intro: rtrancl_into_trancl2)
next
  assume "(x, t) \<in> (arcs g)\<^sup>+"
  then obtain y where "(x, y) \<in> arcs g" "(y, t) \<in> (arcs g)\<^sup>*" by (meson tranclD)
  then show "queueReaches g t (adjacent g x) []" using queue_complete [of g t "adjacent g x" "[]" y] by (auto simp: arcs_def)
qed

section \<open>Dead ends\<close>

text \<open>Every segment belongs to a fan-out, so that its members are checked.\<close>

definition segmentsFannedOut :: "workflow_definition \<Rightarrow> bool" where
  "segmentsFannedOut d = list_all (\<lambda>(i, s). stateFanOut s = None \<longrightarrow> stateSegment s = None) (wd_states d)"

lemma search_closed:
  assumes "validateSemantics d = []" "schemaAccepts d" "segmentsFannedOut d" "x \<in> set (stateNames d)"
    and "(x, y) \<in> (edges (wd_states d))\<^sup>*"
  shows "y \<in> set (stateNames d)"
  using assms(5,4)
proof (induction rule: rtrancl_induct)
  case (step y z)
  then obtain s where s: "map_of (wd_states d) y = Some s"
    "z \<in> set (collectTransitionTargets s @ (if isExecutableState s then orElse (stateSegment s) [] else []))"
    by (cases "map_of (wd_states d) y") (auto simp: edges_def successors_def)
  have mem: "(y, s) \<in> set (wd_states d)" using s(1) by (rule map_of_SomeD)
  consider "z \<in> set (collectTransitionTargets s)" | "z \<in> set (orElse (stateSegment s) [])" using s(2) by (auto split: if_splits)
  then show ?case
  proof cases
    case 1
    then show ?thesis using valid_targets [OF assms(1) mem] by blast
  next
    case 2
    then have "stateFanOut s \<noteq> None" using assms(3) mem by (auto simp: segmentsFannedOut_def list_all_iff)
    then show ?thesis using valid_segment [OF assms(1,2) mem _ 2] by (auto simp: names_stateOf)
  qed
qed

definition terminalName :: "workflow_definition \<Rightarrow> string \<Rightarrow> bool" where
  "terminalName d i = (case stateOf d i of Some s \<Rightarrow> isTerminalState s | None \<Rightarrow> False)"

lemma touchesTerminal_known:
  "set cone \<subseteq> set (stateNames d) \<Longrightarrow> touchesTerminal d cone = Some (list_ex (terminalName d) cone)"
  by (induction cone) (auto simp: names_stateOf terminalName_def split: option.splits)

definition deadEnd :: "workflow_definition \<Rightarrow> string \<Rightarrow> bool" where
  "deadEnd d i = (\<not> list_ex (terminalName d) (findReachableStates i (wd_states d)))"

lemma deadEndIssues_known:
  assumes "validateSemantics d = []" "schemaAccepts d" "segmentsFannedOut d" "i \<in> set (stateNames d)"
  shows "deadEndIssues d i = Some (if deadEnd d i then [NoTerminalReachable i] else [])"
proof -
  obtain s where s: "stateOf d i = Some s" using assms(4) by (auto simp: names_stateOf)
  have "set (findReachableStates i (wd_states d)) \<subseteq> set (stateNames d)"
    using search_closed [OF assms(1-4)] by (auto simp: reachable_iff)
  then have "touchesTerminal d (findReachableStates i (wd_states d)) = Some (\<not> deadEnd d i)"
    by (simp add: touchesTerminal_known deadEnd_def)
  moreover have "\<not> deadEnd d i" if "isTerminalState s"
  proof -
    have "i \<in> set (findReachableStates i (wd_states d))" by (simp add: reachable_iff)
    then show ?thesis using that s by (force simp: deadEnd_def terminalName_def list_ex_iff)
  qed
  ultimately show ?thesis using s by (auto simp: deadEndIssues_def)
qed

lemma checkUnreachableTerminal_known:
  assumes "validateSemantics d = []" "schemaAccepts d" "segmentsFannedOut d" "set is \<subseteq> set (stateNames d)"
  shows "checkUnreachableTerminal d is = Some (map NoTerminalReachable (filter (deadEnd d) is))"
  using assms(4) by (induction "is") (auto simp: deadEndIssues_known [OF assms(1-3)])

lemma initial_cone:
  assumes "validateSemantics d = []" "schemaAccepts d" "segmentsFannedOut d"
  shows "set (findReachableStates (wd_initial d) (wd_states d)) = set (stateNames d)"
proof
  show "set (findReachableStates (wd_initial d) (wd_states d)) \<subseteq> set (stateNames d)"
    using search_closed [OF assms semantics_parts(1) [OF assms(1)]] by (auto simp: reachable_iff)
  show "set (stateNames d) \<subseteq> set (findReachableStates (wd_initial d) (wd_states d))"
    using semantics_parts(4) [OF assms(1)] by blast
qed

text \<open>The other checks report under other codes.\<close>

lemma other_codes:
  "NoTerminalReachable i \<notin> set (checkUnversionedArtifacts d outs)"
  "NoTerminalReachable i \<notin> set (checkTerminalOutputs d r outs)"
  "NoTerminalReachable i \<notin> set (checkHumanGatePresent d r outs)"
  "NoTerminalReachable i \<notin> set (checkMaxRoundsHasGuard d)"
  "NoTerminalReachable i \<notin> set (checkPersonaExists d cx)"
  "NoTerminalReachable i \<notin> set (checkVisitCapTransitionOrder d)"
  "NoTerminalReachable i \<notin> set (checkContainerScopePopulatedByAgent d)"
  "NoTerminalReachable i \<notin> set (checkVerdictEdgesHaveResultFile d)"
  "NoTerminalReachable i \<notin> set (checkFanOutBudget d)"
  "NoTerminalReachable i \<notin> set (checkFanOutChildBounds d)"
  "NoTerminalReachable i \<notin> set (checkSkillReferencesAndManifests d cx)"
  by (auto simp: checkUnversionedArtifacts_def checkTerminalOutputs_def checkHumanGatePresent_def checkMaxRoundsHasGuard_def
      checkPersonaExists_def checkVisitCapTransitionOrder_def visitCapIssues_def checkContainerScopePopulatedByAgent_def
      checkVerdictEdgesHaveResultFile_def checkFanOutBudget_def checkFanOutChildBounds_def memberBoundIssues_def
      checkSkillReferencesAndManifests_def checkSkillManifests_def Let_def
      split: state_def.splits option.splits if_splits prod.splits)


lemma demoWorkflow_fanned: "segmentsFannedOut demoWorkflow" by code_simp


text \<open>A segment without a fan-out is accepted with any names, and the linter throws on them.\<close>

definition strayWorkflow :: workflow_definition where
  "strayWorkflow =
     \<lparr>wd_name = ''w'', wd_description = [], wd_initial = ''plan'',
      wd_states = [(''plan'', AgentState ((plainAgent [plainTransition ''end''])\<lparr>sa_segment := Some [''missing'']\<rparr>)), (''end'', plainTerminal)],
      wd_settings = None\<rparr>"

lemma linter_throws_on_stray_segment:
  "validateSemantics strayWorkflow = [] \<and> schemaAccepts strayWorkflow \<and>
   lintWorkflow strayWorkflow \<lparr>lx_personaExists = (\<lambda>_. True), lx_skills = None\<rparr> = None"
proof (intro conjI)
  show "validateSemantics strayWorkflow = []" "schemaAccepts strayWorkflow" by code_simp+
  have "checkUnreachableTerminal strayWorkflow (findReachableStates (wd_initial strayWorkflow) (wd_states strayWorkflow)) = None"
    by code_simp
  then show "lintWorkflow strayWorkflow \<lparr>lx_personaExists = (\<lambda>_. True), lx_skills = None\<rparr> = None"
    by (simp add: lintWorkflow_def Let_def)
qed

section \<open>Scopes and segments\<close>

text \<open>A deterministic state is reported exactly if some path of transitions reaches it around the agents
  of its scope.\<close>

lemma scope_search_iff:
  "isReachableWithoutScopeAgent d target scope \<longleftrightarrow> (wd_initial d, target) \<in> (arcs (scopeGraph d scope))\<^sup>*"
  unfolding isReachableWithoutScopeAgent_def by (rule stack_reaches_iff)

lemma segment_loop_iff:
  "isSelfLoopableWithinSegment d i segment \<longleftrightarrow> (i, i) \<in> (arcs (segmentGraph d segment))\<^sup>+"
  by (simp add: isSelfLoopableWithinSegment_def Let_def queue_reaches_iff)

section \<open>Visit caps\<close>

lemma indexWhere_split:
  assumes "indexWhere P xs = Some j"
  shows "j < length xs" "P (xs ! j)" "\<forall>y \<in> set (take j xs). \<not> P y"
proof -
  have "j < length xs \<and> P (xs ! j) \<and> (\<forall>y \<in> set (take j xs). \<not> P y)" using assms
  proof (induction xs arbitrary: j)
    case (Cons x xs)
    then show ?case by (cases "P x") auto
  qed simp
  then show "j < length xs" "P (xs ! j)" "\<forall>y \<in> set (take j xs). \<not> P y" by blast+
qed

lemma indexWhere_None: "indexWhere P xs = None \<longleftrightarrow> (\<forall>x \<in> set xs. \<not> P x)"
  by (induction xs) auto

lemma cap_order_clean:
  assumes "checkVisitCapTransitionOrder d = []" "(i, AgentState a) \<in> set (wd_states d)" "sa_maxVisits a \<noteq> None"
    and "indexWhere isCapTransition (sa_transitions a) = Some j"
  shows "\<forall>t \<in> set (take j (sa_transitions a)). isApprovalExitTransition t"
proof -
  have "visitCapIssues i a = []" using assms(1,2) by (force simp: checkVisitCapTransitionOrder_def)
  then have "indexWhere (\<lambda>t. \<not> isApprovalExitTransition t) (take j (sa_transitions a)) = None"
    using assms(3,4) by (auto simp: visitCapIssues_def split: option.splits)
  then show ?thesis by (simp add: indexWhere_None)
qed

lemma map_filter_key:
  assumes "distinct (map fst xs)" "(i, s) \<in> set xs" "f s = Some n"
  shows "map_of (List.map_filter (\<lambda>(j, s). map_option (\<lambda>n. (j, n)) (f s)) xs) i = Some n"
  using assms
proof (induction xs)
  case (Cons x xs)
  obtain j s' where x: "x = (j, s')" by (cases x)
  show ?case
  proof (cases "(i, s) = x")
    case True
    then show ?thesis using x Cons.prems(3) by (simp add: map_filter_simps)
  next
    case False
    then have "(i, s) \<in> set xs" "j \<noteq> i" using Cons.prems(1,2) x by force+
    then show ?thesis using Cons x by (simp add: map_filter_simps split: option.split)
  qed
qed simp

lemma maxVisits_found:
  assumes "distinct (stateNames d)" "buildMachine eo d = Some m" "(i, AgentState a) \<in> set (wd_states d)" "sa_maxVisits a = Some n"
  shows "map_of (wm_maxVisits m) i = Some n"
proof -
  let ?f = "\<lambda>s. case s of AgentState a \<Rightarrow> sa_maxVisits a | _ \<Rightarrow> None"
  have "(\<lambda>(i, s). case s of AgentState a \<Rightarrow> map_option (\<lambda>n. (i, n)) (sa_maxVisits a) | _ \<Rightarrow> None) =
      (\<lambda>(i, s). map_option (\<lambda>n. (i, n)) (?f s))"
    by (auto simp: fun_eq_iff split: state_def.split)
  then have "maxVisitsByState d = List.map_filter (\<lambda>(i, s). map_option (\<lambda>n. (i, n)) (?f s)) (wd_states d)"
    unfolding maxVisitsByState_def by (rule arg_cong)
  moreover have "wm_maxVisits m = maxVisitsByState d" using assms(2) by (auto simp: buildMachine_def)
  ultimately have "wm_maxVisits m = List.map_filter (\<lambda>(i, s). map_option (\<lambda>n. (i, n)) (?f s)) (wd_states d)" by simp
  then show ?thesis using map_filter_key [of "wd_states d" i "AgentState a" ?f n] assms by (simp add: stateNames_def)
qed

lemma approval_guard:
  assumes "isApprovalExitTransition t" "ao_verdict (ar_output r) \<notin> set APPROVAL_EXIT_VERDICTS"
  shows "\<not> evalGuard m cx (DoneAgent i r) (buildGuard t)"
proof -
  obtain w where w: "at_when t = Some w" using assms(1) by (cases "at_when t") (auto simp: isApprovalExitTransition_def)
  then obtain k v where "w = [(k, v)]"
    using assms(1) by (cases w rule: remdups_adj.cases) (auto simp: isApprovalExitTransition_def)
  then obtain v where "at_when t = Some [(''verdict'', JStr v)]" "v \<in> set APPROVAL_EXIT_VERDICTS"
    using assms(1) w by (cases v) (auto simp: isApprovalExitTransition_def)
  then show ?thesis using assms(2) by (auto simp: buildGuard_def evalGuard_def matchesWhen_def matchSource_def)
qed

text \<open>C24: in an accepted definition without a visit-cap diagnostic, an agent that has reached its cap does
  not loop: unless its verdict is an approval, the run takes the transition of the cap guard.\<close>

theorem visit_cap_enforced:
  assumes "statechart step" "validateSemantics d = []" "schemaAccepts d" "buildMachine None d = Some m"
    and "stateOf d (mc_state c) = Some (AgentState a)" "sa_fanOut a = None" "mc_running c"
    and "checkVisitCapTransitionOrder d = []" "indexWhere isCapTransition (sa_transitions a) = Some j"
    and "sa_maxVisits a = Some n" "n \<le> visitsOf (mc_context c) (mc_state c)"
    and "ao_verdict (ar_output r) \<notin> set APPROVAL_EXIT_VERDICTS"
  shows "mc_state (step m c (DoneAgent (mc_state c) r)) = at_to (sa_transitions a ! j)"
proof -
  let ?ts = "sa_transitions a" and ?ev = "DoneAgent (mc_state c) r"
  have dist: "distinct (stateNames d)" using assms(3) by (simp add: schemaAccepts_def)
  then have mem: "(mc_state c, AgentState a) \<in> set (wd_states d)" using assms(5) stateOf_mem by blast
  note j = indexWhere_split [OF assms(9)]
  have t: "?ts ! j \<in> set ?ts" using j(1) by simp
  have cap: "at_guard (?ts ! j) = Some VISIT_CAP_GUARD" using j(2) by (simp add: isCapTransition_def)
  have "at_when (?ts ! j) = None"
  proof (rule ccontr)
    assume "at_when (?ts ! j) \<noteq> None"
    then have "\<not> hasGuard (?ts ! j)" using valid_when [OF assms(2) mem, of "?ts ! j"] t by auto
    then show False using cap by (simp add: hasGuard_def VISIT_CAP_GUARD_def)
  qed
  then have "buildGuard (?ts ! j) = Some (NamedGuard VISIT_CAP_GUARD)"
    using cap by (simp add: buildGuard_def hasGuard_def VISIT_CAP_GUARD_def)
  then have holds: "evalGuard m (mc_context c) ?ev (buildGuard (?ts ! j))"
    using maxVisits_found [OF dist assms(4) mem assms(10)] assms(11)
    by (simp add: evalGuard_def evalNamedGuard_def VISIT_CAP_GUARD_def)
  have "\<forall>t \<in> set (take j ?ts). \<not> evalGuard m (mc_context c) ?ev (buildGuard t)"
    using cap_order_clean [OF assms(8) mem _ assms(9)] assms(10) approval_guard [OF _ assms(12)] by auto
  then have "selects m (mc_context c) ?ev ?ts (?ts ! j)"
    using holds id_take_nth_drop [OF j(1)] by (auto simp: selects_def list_all_iff)
  then show ?thesis using agent_step [OF assms(1-7)] statechart.take_state [OF assms(1)] by simp
qed

text \<open>The planner of the example on its second visit.\<close>

definition secondVisit :: machine_config where
  "secondVisit = \<lparr>mc_state = ''plan'', mc_running = True,
     mc_context = (createInitialContext demoWorkflow ''task'')\<lparr>cx_visitCounts := [(''plan'', 2)]\<rparr>\<rparr>"

theorem visit_cap_enforced_witness:
  "mc_state (documentedStep demoMachine secondVisit (DoneAgent ''plan'' (demoResult ''rejected''))) = ''gate''"
proof -
  have c: "mc_state secondVisit = ''plan''" "mc_running secondVisit" by (simp_all add: secondVisit_def)
  have planner: "stateOf demoWorkflow (mc_state secondVisit) = Some (AgentState demoPlanner)" "sa_fanOut demoPlanner = None"
      "sa_maxVisits demoPlanner = Some 2"
    by (simp_all add: c demoWorkflow_def stateOf_def demoPlanner_def plainAgent_def)
  have cap: "checkVisitCapTransitionOrder demoWorkflow = []" "indexWhere isCapTransition (sa_transitions demoPlanner) = Some 1"
      "at_to (sa_transitions demoPlanner ! 1) = ''gate''" by code_simp+
  have "2 \<le> visitsOf (mc_context secondVisit) (mc_state secondVisit)"
    by (simp add: secondVisit_def visitsOf_def)
  from visit_cap_enforced [OF documented.statechart_axioms demoWorkflow_valid demoWorkflow_schema demoMachine_built planner(1,2)
      c(2) cap(1,2) planner(3) this, of "demoResult ''rejected''"]
  show ?thesis using cap(3) by (simp add: c demoResult_def demoOutput_def APPROVAL_EXIT_VERDICTS_def)
qed

end
