(* ===== verification/Package_Registry.thy ===== *)
theory Package_Registry
  imports Js_Text
begin

text \<open>
  Packages of software registries: the validator with its deny list, allow list and age gate
  (\<open>src/docker/package-validator.ts\<close>, \<open>src/docker/package-types.ts\<close>) and the parsers that read a
  package out of a request path (\<open>src/docker/registry-proxy.ts\<close>). A date is its time in milliseconds,
  \<open>None\<close> for an invalid date; the glob matcher is a parameter.
\<close>

section \<open>Packages and decisions\<close>

datatype registry_type = Npm | Pypi | Debian | Cargo

record package_identity =
  pk_registry :: registry_type
  pk_name :: string
  pk_scope :: "string option"
  pk_version :: "string option"

type_synonym js_date = "int option"

text \<open>The publication date may be missing; then it is \<open>None\<close> outside.\<close>

record version_metadata =
  vm_publishedAt :: "js_date option"

datatype package_decision = AllowPackage string | DenyPackage string

fun allows :: "package_decision \<Rightarrow> bool" where
  "allows (AllowPackage _) = True"
| "allows (DenyPackage _) = False"

fun decisionReason :: "package_decision \<Rightarrow> string" where
  "decisionReason (AllowPackage r) = r"
| "decisionReason (DenyPackage r) = r"

type_synonym package_validator = "int \<Rightarrow> package_identity \<Rightarrow> version_metadata option \<Rightarrow> package_decision"

definition DENY_ALL_VALIDATOR :: package_validator where
  "DENY_ALL_VALIDATOR now pkg metadata = DenyPackage ''No validator configured''"

section \<open>The validator\<close>

definition DEFAULT_QUARANTINE_DAYS :: nat where
  "DEFAULT_QUARANTINE_DAYS = 2"

definition MS_PER_DAY :: int where
  "MS_PER_DAY = 24 * 60 * 60 * 1000"

record validator_config =
  vc_allowedPackages :: "string list option"
  vc_deniedPackages :: "string list option"
  vc_quarantineDays :: "nat option"

definition registryText :: "registry_type \<Rightarrow> string" where
  "registryText r = (case r of Npm \<Rightarrow> ''npm'' | Pypi \<Rightarrow> ''pypi'' | Debian \<Rightarrow> ''debian'' | Cargo \<Rightarrow> ''cargo'')"

text \<open>An empty scope is not truthy.\<close>

definition canonicalPackageName :: "package_identity \<Rightarrow> string" where
  "canonicalPackageName pkg =
     (case pk_scope pkg of
        Some sc \<Rightarrow> (if sc = [] then pk_name pkg else ''@'' @ sc @ ''/'' @ pk_name pkg)
      | None \<Rightarrow> pk_name pkg)"

definition packageCacheKey :: "package_identity \<Rightarrow> string" where
  "packageCacheKey pkg = registryText (pk_registry pkg) @ '':'' @ canonicalPackageName pkg"

text \<open>\<open>minimatch name pattern\<close>, without regard to case.\<close>

definition matchesPatternList :: "(string \<Rightarrow> string \<Rightarrow> bool) \<Rightarrow> string \<Rightarrow> string list \<Rightarrow> bool" where
  "matchesPatternList minimatch packageName patterns = list_ex (minimatch packageName) patterns"

text \<open>\<open>ageDays < quarantineDays\<close>, which is false for an invalid date.\<close>

definition ageMs :: "int \<Rightarrow> int \<Rightarrow> int" where
  "ageMs now published = max 0 (now - published)"

definition tooYoung :: "nat \<Rightarrow> int \<Rightarrow> js_date \<Rightarrow> bool" where
  "tooYoung days now published = (case published of None \<Rightarrow> False | Some t \<Rightarrow> ageMs now t < int days * MS_PER_DAY)"

definition createPackageValidator :: "(string \<Rightarrow> string \<Rightarrow> bool) \<Rightarrow> validator_config \<Rightarrow> package_validator" where
  "createPackageValidator minimatch config now pkg metadata =
     (let allowed = (case vc_allowedPackages config of None \<Rightarrow> [] | Some l \<Rightarrow> l);
          denied = (case vc_deniedPackages config of None \<Rightarrow> [] | Some l \<Rightarrow> l);
          quarantine = (case vc_quarantineDays config of None \<Rightarrow> DEFAULT_QUARANTINE_DAYS | Some n \<Rightarrow> n);
          name = canonicalPackageName pkg;
          quoted = [CHR 0x22] @ name @ [CHR 0x22]
      in if denied \<noteq> [] \<and> matchesPatternList minimatch name denied
         then DenyPackage (''Package '' @ quoted @ '' is on the deny list'')
         else if allowed \<noteq> [] \<and> matchesPatternList minimatch name allowed
         then AllowPackage (''Package '' @ quoted @ '' is on the allow list'')
         else if quarantine = 0 then AllowPackage ''Passed all validation checks''
         else case metadata of
                None \<Rightarrow> DenyPackage (''No metadata available for '' @ quoted @ '' (fail-closed)'')
              | Some md \<Rightarrow>
                  (case vm_publishedAt md of
                     None \<Rightarrow> DenyPackage (''No publish timestamp for '' @ quoted @ '' (fail-closed)'')
                   | Some published \<Rightarrow>
                       (if tooYoung quarantine now published
                        then DenyPackage (''Version '' @ [CHR 0x22] @ (case pk_version pkg of None \<Rightarrow> ''unknown'' | Some v \<Rightarrow> v) @
                               [CHR 0x22] @ '' of '' @ quoted @ '' is only '' @
                               showNat (nat (ageMs now (case published of Some t \<Rightarrow> t | None \<Rightarrow> 0) div MS_PER_DAY)) @
                               '' day(s) old (quarantine: '' @ showNat quarantine @ '' days)'')
                        else AllowPackage ''Passed all validation checks'')))"

section \<open>npm\<close>

text \<open>\<open>path.split('?')[0]\<close>.\<close>

definition cleanPath :: "string \<Rightarrow> string" where
  "cleanPath path = takeWhile (\<lambda>c. c \<noteq> CHR ''?'') path"

text \<open>\<open>indexOf\<close>, split at the first occurrence: what stands before it and what follows it.\<close>

fun splitAtFirst :: "string \<Rightarrow> string \<Rightarrow> (string \<times> string) option" where
  "splitAtFirst pat [] = (if pat = [] then Some ([], []) else None)"
| "splitAtFirst pat (c # s) =
     (if startsWith (c # s) pat then Some ([], drop (length pat) (c # s))
      else map_option (\<lambda>(a, b). (c # a, b)) (splitAtFirst pat s))"

definition parseNpmPackagePart :: "string \<Rightarrow> (string \<times> string option) option" where
  "parseNpmPackagePart packagePart =
     (if startsWith packagePart ''@'' then
        (case splitAtFirst ''/'' packagePart of
           None \<Rightarrow> None
         | Some (front, name) \<Rightarrow>
             (let sc = drop 1 front in if sc = [] \<or> name = [] then None else Some (name, Some sc)))
      else if CHR ''/'' \<in> set packagePart then None
      else if packagePart = [] then None
      else Some (packagePart, None))"

definition extractVersionFromNpmTarball :: "string \<Rightarrow> string \<Rightarrow> string option" where
  "extractVersionFromNpmTarball filename packagePart =
     (let name = (if CHR ''/'' \<in> set packagePart then last (splitOn (CHR ''/'') packagePart) else packagePart);
          pfx = name @ ''-''
      in if \<not> startsWith filename pfx \<or> \<not> endsWith filename ''.tgz'' then None
         else Some (dropEnd 4 (drop (length pfx) filename)))"

definition npmIdentity :: "string \<times> string option \<Rightarrow> string option \<Rightarrow> package_identity" where
  "npmIdentity parsed version = \<lparr>pk_registry = Npm, pk_name = fst parsed, pk_scope = snd parsed, pk_version = version\<rparr>"

definition parseNpmUrl :: "string \<Rightarrow> package_identity option" where
  "parseNpmUrl path =
     (case decodeURIComponent (cleanPath path) of
        None \<Rightarrow> None
      | Some decodedPath \<Rightarrow>
          (case splitAtFirst ''/-/'' decodedPath of
             Some (front, filename) \<Rightarrow>
               (let packagePart = drop 1 front;
                    version = extractVersionFromNpmTarball filename packagePart
                in map_option (\<lambda>parsed. npmIdentity parsed version) (parseNpmPackagePart packagePart))
           | None \<Rightarrow>
               (let packagePart = drop 1 decodedPath
                in if packagePart = [] \<or> packagePart = ''-'' then None
                   else map_option (\<lambda>parsed. npmIdentity parsed None) (parseNpmPackagePart packagePart))))"

definition isNpmMetadataRequest :: "string \<Rightarrow> bool" where
  "isNpmMetadataRequest path = (parseNpmUrl path \<noteq> None \<and> \<not> strIncludes path ''/-/'')"

definition isNpmTarballRequest :: "string \<Rightarrow> bool" where
  "isNpmTarballRequest path =
     (strIncludes path ''/-/'' \<and> (case parseNpmUrl path of None \<Rightarrow> False | Some pkg \<Rightarrow> pk_version pkg \<noteq> None))"

section \<open>PyPI\<close>

definition isPypiSeparator :: "char \<Rightarrow> bool" where
  "isPypiSeparator c = (c = CHR ''-'' \<or> c = CHR ''_'' \<or> c = CHR ''.'')"

definition isAsciiAlnum :: "char \<Rightarrow> bool" where
  "isAsciiAlnum c = (isLetter c \<or> isDigit c)"

text \<open>\<open>[a-zA-Z0-9]([a-zA-Z0-9._-]*[a-zA-Z0-9])?\<close>.\<close>

definition isPypiName :: "string \<Rightarrow> bool" where
  "isPypiName s = (s \<noteq> [] \<and> list_all (\<lambda>c. isAsciiAlnum c \<or> isPypiSeparator c) s \<and> isAsciiAlnum (hd s) \<and> isAsciiAlnum (last s))"

text \<open>\<open>replace(/[-_.]+/g, '-')\<close>; the flag says that the last character was a separator.\<close>

fun collapseSeparators :: "bool \<Rightarrow> string \<Rightarrow> string" where
  "collapseSeparators after [] = []"
| "collapseSeparators after (c # s) =
     (if isPypiSeparator c then (if after then collapseSeparators True s else CHR ''-'' # collapseSeparators True s)
      else c # collapseSeparators False s)"

definition normalizePypiName :: "string \<Rightarrow> string" where
  "normalizePypiName name = collapseSeparators False (toLowerCase name)"

definition pypiIdentity :: "string \<Rightarrow> string option \<Rightarrow> package_identity" where
  "pypiIdentity name version = \<lparr>pk_registry = Pypi, pk_name = normalizePypiName name, pk_scope = None, pk_version = version\<rparr>"

definition parsePypiSimpleUrl :: "string \<Rightarrow> package_identity option" where
  "parsePypiSimpleUrl path =
     (let p = cleanPath path
      in if \<not> startsWith p ''/simple/'' then None
         else let rest = drop 8 p; name = (if endsWith rest ''/'' then dropEnd 1 rest else rest)
              in if isPypiName name then Some (pypiIdentity name None) else None)"

definition PYPI_SIDECAR_SUFFIXES :: "string list" where
  "PYPI_SIDECAR_SUFFIXES = [''.metadata'', ''.provenance'']"

fun stripSuffixes :: "string list \<Rightarrow> string \<Rightarrow> string" where
  "stripSuffixes [] filename = filename"
| "stripSuffixes (s # ss) filename = (if endsWith filename s then dropEnd (length s) filename else stripSuffixes ss filename)"

definition stripPypiSidecarSuffix :: "string \<Rightarrow> string" where
  "stripPypiSidecarSuffix filename = stripSuffixes PYPI_SIDECAR_SUFFIXES filename"

text \<open>The tail \<open>(?:\.tar\.gz|\.zip|-[a-zA-Z].*\.whl)$\<close> after the version.\<close>

definition isDistTail :: "string \<Rightarrow> bool" where
  "isDistTail s =
     (s = ''.tar.gz'' \<or> s = ''.zip'' \<or>
      (case s of
         c # d # rest \<Rightarrow> c = CHR ''-'' \<and> isLetter d \<and> endsWith rest ''.whl'' \<and> list_all (\<lambda>x. \<not> isLineTerm x) rest
       | _ \<Rightarrow> False))"

text \<open>\<open>(\d[^-]*?)\<close>: the shortest version before a tail.\<close>

definition distVersion :: "string \<Rightarrow> string option" where
  "distVersion rest =
     (if rest = [] \<or> \<not> isDigit (hd rest) then None
      else map_option (\<lambda>j. take j rest)
             (find (\<lambda>j. CHR ''-'' \<notin> set (take j rest) \<and> isDistTail (drop j rest)) [1..<length rest + 1]))"

text \<open>The expression tries the longest name first: a name ends at a hyphen that a version follows.\<close>

definition distSplitAt :: "string \<Rightarrow> nat \<Rightarrow> (string \<times> string) option" where
  "distSplitAt s i =
     (if s ! i = CHR ''-'' \<and> isPypiName (take i s)
      then map_option (\<lambda>v. (take i s, v)) (distVersion (drop (i + 1) s)) else None)"

definition extractPypiPackageFromFilename :: "string \<Rightarrow> package_identity option" where
  "extractPypiPackageFromFilename filename =
     (let s = stripPypiSidecarSuffix filename
      in case find (\<lambda>i. distSplitAt s i \<noteq> None) (rev [0..<length s]) of
           None \<Rightarrow> None
         | Some i \<Rightarrow> map_option (\<lambda>(name, v). pypiIdentity name (Some v)) (distSplitAt s i))"

definition parsePypiTarballUrl :: "string \<Rightarrow> package_identity option" where
  "parsePypiTarballUrl path =
     (let filename = last (splitOn (CHR ''/'') (cleanPath path))
      in if filename = [] then None else extractPypiPackageFromFilename filename)"

definition isPypiSimpleRequest :: "string \<Rightarrow> bool" where
  "isPypiSimpleRequest path = (parsePypiSimpleUrl path \<noteq> None)"

section \<open>Debian\<close>

definition extractDebianPackageFromFilename :: "string \<Rightarrow> package_identity option" where
  "extractDebianPackageFromFilename filename =
     (if \<not> endsWith filename ''.deb'' then None
      else let base = dropEnd 4 filename; parts = splitOn (CHR ''_'') base
           in if length parts < 3 \<or> hd parts = [] then None
              else let name = hd parts;
                       raw = joinWith ''_'' (butlast (tl parts));
                       version = (case decodeURIComponent raw of None \<Rightarrow> raw | Some v \<Rightarrow> v)
                   in if version = [] then None
                      else Some \<lparr>pk_registry = Debian, pk_name = name, pk_scope = None, pk_version = Some version\<rparr>)"

definition lastSegment :: "string \<Rightarrow> string" where
  "lastSegment path = last (splitOn (CHR ''/'') (cleanPath path))"

definition parseDebianPackageUrl :: "string \<Rightarrow> package_identity option" where
  "parseDebianPackageUrl path =
     (let filename = lastSegment path
      in if filename = [] \<or> \<not> endsWith filename ''.deb'' then None else extractDebianPackageFromFilename filename)"

section \<open>Cargo\<close>

definition normalizeCargoName :: "string \<Rightarrow> string" where
  "normalizeCargoName name = toLowerCase name"

definition cargoSparseIndexPath :: "string \<Rightarrow> string" where
  "cargoSparseIndexPath name =
     (let lower = normalizeCargoName name
      in if length lower = 0 then lower
         else if length lower = 1 then ''1/'' @ lower
         else if length lower = 2 then ''2/'' @ lower
         else if length lower = 3 then ''3/'' @ [hd lower] @ ''/'' @ lower
         else take 2 lower @ ''/'' @ take 2 (drop 2 lower) @ ''/'' @ lower)"

definition isCargoName :: "string \<Rightarrow> bool" where
  "isCargoName s = (s \<noteq> [] \<and> list_all (\<lambda>c. isAsciiAlnum c \<or> c = CHR ''-'' \<or> c = CHR ''_'') s)"

definition cargoIdentity :: "string \<Rightarrow> string option \<Rightarrow> package_identity" where
  "cargoIdentity name version = \<lparr>pk_registry = Cargo, pk_name = normalizeCargoName name, pk_scope = None, pk_version = version\<rparr>"

definition parseCargoSparseIndexUrl :: "string \<Rightarrow> package_identity option" where
  "parseCargoSparseIndexUrl path =
     (let p = dropWhile (\<lambda>c. c = CHR ''/'') (cleanPath path)
      in if p = ''config.json'' \<or> p = [] then None
         else let name = last (splitOn (CHR ''/'') p)
              in if \<not> isCargoName name then None
                 else if cargoSparseIndexPath name \<noteq> toLowerCase p then None
                 else Some (cargoIdentity name None))"

text \<open>\<open>/crates/{name}/{name}-{version}.crate\<close>.\<close>

definition crateFile :: "string \<Rightarrow> string \<Rightarrow> package_identity option" where
  "crateFile name file =
     (if \<not> isCargoName name \<or> \<not> endsWith file ''.crate'' \<or> length file \<le> 6 then None
      else let filename = dropEnd 6 file; pfx = name @ ''-''
           in if \<not> startsWith (toLowerCase filename) (toLowerCase pfx) then None
              else let version = drop (length pfx) filename
                   in if version = [] then None else Some (cargoIdentity name (Some version)))"

definition crateDownload :: "string \<Rightarrow> string \<Rightarrow> package_identity option" where
  "crateDownload name version =
     (if isCargoName name \<and> version \<noteq> [] then Some (cargoIdentity name (Some version)) else None)"

text \<open>The two download forms have a segment more than the file form, so they do not overlap.\<close>

definition parseCargoDownloadUrl :: "string \<Rightarrow> package_identity option" where
  "parseCargoDownloadUrl path =
     (case splitOn (CHR ''/'') (cleanPath path) of
        [e, a, v, c, name, version, dl] \<Rightarrow>
          (if e = [] \<and> a = ''api'' \<and> v = ''v1'' \<and> c = ''crates'' \<and> dl = ''download'' then crateDownload name version else None)
      | [e, c, name, version, dl] \<Rightarrow>
          (if e = [] \<and> c = ''crates'' \<and> dl = ''download'' then crateDownload name version else None)
      | [e, c, name, file] \<Rightarrow> (if e = [] \<and> c = ''crates'' then crateFile name file else None)
      | _ \<Rightarrow> None)"

definition parseTarballUrl :: "registry_type \<Rightarrow> string \<Rightarrow> package_identity option" where
  "parseTarballUrl r path =
     (case r of
        Npm \<Rightarrow> parseNpmUrl path
      | Pypi \<Rightarrow> parsePypiTarballUrl path
      | Cargo \<Rightarrow> parseCargoDownloadUrl path
      | Debian \<Rightarrow> parseDebianPackageUrl path)"

end
