(* ===== verification/Registry_Proxy.thy ===== *)
theory Registry_Proxy
  imports Package_Registry
begin

text \<open>
  The registry proxy (\<open>src/docker/registry-proxy.ts\<close>): metadata of packages is filtered by the
  validator, downloads are checked against the versions the filter let through. A handler runs up to
  its fetch and goes on when the upstream has answered; in between other requests run. What the
  upstream answers, the parsers of dates and JSON lines and the clock are inputs of the model.
\<close>

section \<open>Configuration\<close>

record registry_config =
  rg_host :: string
  rg_displayName :: string
  rg_type :: registry_type
  rg_mirrorHosts :: "string list option"

definition npmRegistry :: registry_config where
  "npmRegistry = \<lparr>rg_host = ''registry.npmjs.org'', rg_displayName = ''npm'', rg_type = Npm, rg_mirrorHosts = None\<rparr>"

definition pypiRegistry :: registry_config where
  "pypiRegistry = \<lparr>rg_host = ''pypi.org'', rg_displayName = ''PyPI'', rg_type = Pypi,
     rg_mirrorHosts = Some [''files.pythonhosted.org'']\<rparr>"

definition debianRegistry :: registry_config where
  "debianRegistry = \<lparr>rg_host = ''deb.debian.org'', rg_displayName = ''Debian APT'', rg_type = Debian,
     rg_mirrorHosts = Some [''security.debian.org'']\<rparr>"

definition CARGO_INDEX_HOST :: string where "CARGO_INDEX_HOST = ''index.crates.io''"
definition CARGO_STATIC_HOST :: string where "CARGO_STATIC_HOST = ''static.crates.io''"
definition CARGO_API_HOST :: string where "CARGO_API_HOST = ''crates.io''"

definition cargoRegistry :: registry_config where
  "cargoRegistry = \<lparr>rg_host = CARGO_INDEX_HOST, rg_displayName = ''crates.io'', rg_type = Cargo,
     rg_mirrorHosts = Some [CARGO_API_HOST, CARGO_STATIC_HOST]\<rparr>"

section \<open>Filters\<close>

type_synonym denied_version = "string \<times> string"

text \<open>A line of the sparse index, with the declared fields that the filter reads.\<close>

record cargo_line =
  cl_vers :: string
  cl_pubtime :: "string option"

text \<open>Truthy text parsed as a date; an invalid date counts as missing.\<close>

definition validDate :: "(string \<Rightarrow> js_date) \<Rightarrow> string option \<Rightarrow> js_date option" where
  "validDate parseDate text =
     (case text of
        None \<Rightarrow> None
      | Some s \<Rightarrow> (if s = [] then None else case parseDate s of None \<Rightarrow> None | Some t \<Rightarrow> Some (Some t)))"

text \<open>A filter collects what is kept, what is denied and the allowed versions.\<close>

type_synonym 'a filtered = "'a list \<times> denied_version list \<times> string list"

definition pushFiltered :: "package_decision \<Rightarrow> string \<Rightarrow> 'a \<Rightarrow> 'a filtered \<Rightarrow> 'a filtered" where
  "pushFiltered decision version item acc =
     (case acc of (kept, denied, allowedVersions) \<Rightarrow>
        if allows decision then (kept @ [item], denied, allowedVersions @ [version])
        else (kept, denied @ [(version, decisionReason decision)], allowedVersions))"

definition filterCargoLine ::
  "(string \<Rightarrow> js_date) \<Rightarrow> (string \<Rightarrow> cargo_line option) \<Rightarrow> package_validator \<Rightarrow> int \<Rightarrow> string \<Rightarrow>
   string filtered \<Rightarrow> string \<Rightarrow> string filtered" where
  "filterCargoLine parseDate parseLine validate now packageName acc rawLine =
     (let line = trim rawLine
      in if line = [] then acc
         else case parseLine line of
                None \<Rightarrow> acc
              | Some entry \<Rightarrow>
                  (if cl_vers entry = [] then acc
                   else pushFiltered
                          (validate now \<lparr>pk_registry = Cargo, pk_name = packageName, pk_scope = None, pk_version = Some (cl_vers entry)\<rparr>
                             (map_option (\<lambda>p. \<lparr>vm_publishedAt = Some p\<rparr>) (validDate parseDate (cl_pubtime entry))))
                          (cl_vers entry) line acc))"

definition filterCargoSparseIndex ::
  "(string \<Rightarrow> js_date) \<Rightarrow> (string \<Rightarrow> cargo_line option) \<Rightarrow> package_validator \<Rightarrow> int \<Rightarrow> string \<Rightarrow> string \<Rightarrow>
   string \<times> denied_version list \<times> string list" where
  "filterCargoSparseIndex parseDate parseLine validate now ndjson packageName =
     (case foldl (filterCargoLine parseDate parseLine validate now packageName) ([], [], [])
             (splitOn (CHR 0x0A) ndjson) of
        (kept, denied, allowedVersions) \<Rightarrow>
          (joinWith [CHR 0x0A] kept @ [CHR 0x0A], denied, uniq allowedVersions))"

record npm_packument =
  np_versions :: "(string \<times> jsval) list"
  np_distTags :: "(string \<times> string) list option"
  np_time :: "(string \<times> string) list option"
  np_rest :: jsobj

definition timeOf :: "npm_packument \<Rightarrow> string \<Rightarrow> string option" where
  "timeOf p k = (case np_time p of None \<Rightarrow> None | Some t \<Rightarrow>
     (case map_of t k of Some s \<Rightarrow> (if s = [] then None else Some s) | None \<Rightarrow> None))"

definition keepTime :: "npm_packument \<Rightarrow> string \<Rightarrow> (string \<times> string) list \<Rightarrow> (string \<times> string) list" where
  "keepTime p k t = (case timeOf p k of None \<Rightarrow> t | Some s \<Rightarrow> setProp t k s)"

definition validateNpmVersion ::
  "(string \<Rightarrow> js_date) \<Rightarrow> package_validator \<Rightarrow> int \<Rightarrow> npm_packument \<Rightarrow> string \<Rightarrow> string option \<Rightarrow> string \<Rightarrow> package_decision" where
  "validateNpmVersion parseDate validate now p packageName sc version =
     validate now \<lparr>pk_registry = Npm, pk_name = packageName, pk_scope = sc, pk_version = Some version\<rparr>
       (Some \<lparr>vm_publishedAt = validDate parseDate (timeOf p version)\<rparr>)"

text \<open>The order of \<open>sort\<close> by descending time: stable, and an invalid date compares as equal.\<close>

definition laterThan :: "js_date \<Rightarrow> js_date \<Rightarrow> bool" where
  "laterThan a b = (case (a, b) of (Some x, Some y) \<Rightarrow> x > y | _ \<Rightarrow> False)"

fun insertByTime :: "('k \<Rightarrow> js_date) \<Rightarrow> 'k \<Rightarrow> 'k list \<Rightarrow> 'k list" where
  "insertByTime f x [] = [x]"
| "insertByTime f x (y # ys) = (if laterThan (f y) (f x) then y # insertByTime f x ys else x # y # ys)"

definition sortByTime :: "('k \<Rightarrow> js_date) \<Rightarrow> 'k list \<Rightarrow> 'k list" where
  "sortByTime f ks = foldr (insertByTime f) ks []"

definition filteredDistTags ::
  "(string \<Rightarrow> js_date) \<Rightarrow> npm_packument \<Rightarrow> (string \<times> jsval) list \<Rightarrow> (string \<times> string) list \<Rightarrow> (string \<times> string) list" where
  "filteredDistTags parseDate p versions time =
     (let tags = filter (\<lambda>(_, v). hasProp versions v) (case np_distTags p of None \<Rightarrow> [] | Some t \<Rightarrow> t);
          noLatest = (case map_of tags ''latest'' of None \<Rightarrow> True | Some v \<Rightarrow> v = [])
      in if noLatest \<and> versions \<noteq> [] then
           (case sortByTime (\<lambda>k. parseDate (the (map_of time k)))
                   (filter (\<lambda>k. k \<noteq> ''created'' \<and> k \<noteq> ''modified'') (map fst time)) of
              [] \<Rightarrow> tags
            | newest # _ \<Rightarrow> (if newest = [] then tags else setProp tags ''latest'' newest))
         else tags)"

definition filterNpmPackument ::
  "(string \<Rightarrow> js_date) \<Rightarrow> package_validator \<Rightarrow> int \<Rightarrow> npm_packument \<Rightarrow> string \<Rightarrow> string option \<Rightarrow>
   npm_packument \<times> denied_version list" where
  "filterNpmPackument parseDate validate now p packageName sc =
     (let decide = validateNpmVersion parseDate validate now p packageName sc;
          kept = filter (\<lambda>(v, _). allows (decide v)) (np_versions p);
          denied = map (\<lambda>(v, _). (v, decisionReason (decide v))) (filter (\<lambda>(v, _). \<not> allows (decide v)) (np_versions p));
          time0 = keepTime p ''modified'' (keepTime p ''created'' []);
          time = foldl (\<lambda>t (v, _). keepTime p v t) time0 kept
      in (p\<lparr>np_versions := kept, np_distTags := Some (filteredDistTags parseDate p kept time), np_time := Some time\<rparr>, denied))"

section \<open>The PyPI index\<close>

text \<open>The expression \<open><a\s+[^>]*href="[^"]*"[^>]*>[^<]*</a>\s*\<close> without regard to case. After the last
  \<open>href="\<close> that fits, every part is forced; \<open>tailOfAnchor\<close> takes the text after that quote.\<close>

definition QUOTE :: char where "QUOTE = CHR 0x22"

definition tailOfAnchor :: "string \<Rightarrow> string option" where
  "tailOfAnchor s =
     (let afterHref = dropWhile (\<lambda>c. c \<noteq> QUOTE) s
      in if afterHref = [] then None
         else let afterTag = dropWhile (\<lambda>c. c \<noteq> CHR ''>'') (tl afterHref)
              in if afterTag = [] then None
                 else let closing = dropWhile (\<lambda>c. c \<noteq> CHR ''<'') (tl afterTag)
                      in if startsWith (toLowerCase closing) ''</a>'' then Some (dropWhile isSpace (drop 4 closing)) else None)"

text \<open>The rest of the text after the anchor that starts here. The positions of \<open>href="\<close> lie in the run
  without \<open>>\<close>, the last one first.\<close>

definition afterAnchor :: "string \<Rightarrow> string option" where
  "afterAnchor s =
     (if \<not> startsWith (toLowerCase s) ''<a'' then None
      else let body = drop 2 s
           in if body = [] \<or> \<not> isSpace (hd body) then None
              else let run = tl body;
                       ends = filter (\<lambda>i. CHR ''>'' \<notin> set (take i run) \<and>
                                startsWith (toLowerCase (drop i run)) (''href='' @ [QUOTE])) (rev [0..<length run])
                   in case find (\<lambda>i. tailOfAnchor (drop (i + 6) run) \<noteq> None) ends of
                        None \<Rightarrow> None
                      | Some i \<Rightarrow> tailOfAnchor (drop (i + 6) run))"

text \<open>The first \<open>href="\<dots>"\<close> of an anchor, in this case only.\<close>

definition anchorHref :: "string \<Rightarrow> string option" where
  "anchorHref anchor =
     (case splitAtFirst (''href='' @ [QUOTE]) anchor of
        None \<Rightarrow> None
      | Some (_, rest) \<Rightarrow> (if QUOTE \<in> set rest then Some (takeWhile (\<lambda>c. c \<noteq> QUOTE) rest) else None))"

definition anchorFilename :: "string \<Rightarrow> string option" where
  "anchorFilename anchor =
     (case anchorHref anchor of
        None \<Rightarrow> None
      | Some href \<Rightarrow>
          (let filename = takeWhile (\<lambda>c. c \<noteq> CHR ''#'') (last (splitOn (CHR ''/'') href))
           in if filename = [] then None else Some filename))"

record pypi_acc =
  pa_out :: string
  pa_denied :: "denied_version list"
  pa_allowed :: "string list"

definition filterAnchor ::
  "package_validator \<Rightarrow> int \<Rightarrow> string \<Rightarrow> (string \<times> js_date) list \<Rightarrow> string \<Rightarrow> pypi_acc \<Rightarrow> pypi_acc" where
  "filterAnchor validate now packageName timestamps anchor acc =
     (let keep = acc\<lparr>pa_out := pa_out acc @ anchor\<rparr>
      in case anchorFilename anchor of
           None \<Rightarrow> keep
         | Some filename \<Rightarrow>
             (case extractPypiPackageFromFilename filename of
                None \<Rightarrow> keep
              | Some parsed \<Rightarrow>
                  (case pk_version parsed of
                     None \<Rightarrow> keep
                   | Some version \<Rightarrow>
                       (let decision = validate now
                              \<lparr>pk_registry = Pypi, pk_name = packageName, pk_scope = None, pk_version = Some version\<rparr>
                              (map_option (\<lambda>d. \<lparr>vm_publishedAt = Some d\<rparr>) (map_of timestamps version))
                        in if allows decision then keep\<lparr>pa_allowed := pa_allowed acc @ [version]\<rparr>
                           else if version \<in> fst ` set (pa_denied acc) then acc
                           else acc\<lparr>pa_denied := pa_denied acc @ [(version, decisionReason decision)]\<rparr>))))"

lemma dropWhile_length: "length (dropWhile P xs) \<le> length xs"
  by (induction xs) auto

lemma tailOfAnchor_length: "tailOfAnchor s = Some rest \<Longrightarrow> length rest \<le> length s"
proof -
  assume "tailOfAnchor s = Some rest"
  then have "rest = dropWhile isSpace (drop 4 (dropWhile (\<lambda>c. c \<noteq> CHR ''<'')
      (tl (dropWhile (\<lambda>c. c \<noteq> CHR ''>'') (tl (dropWhile (\<lambda>c. c \<noteq> QUOTE) s))))))"
    by (auto simp: tailOfAnchor_def Let_def split: if_splits)
  then show "length rest \<le> length s"
    by (metis (no_types, lifting) diff_le_self dropWhile_length le_trans length_drop length_tl)
qed

lemma afterAnchor_length: "afterAnchor s = Some rest \<Longrightarrow> length rest < length s"
proof -
  assume "afterAnchor s = Some rest"
  then obtain i where s: "startsWith (toLowerCase s) ''<a''" "tailOfAnchor (drop (i + 6) (tl (drop 2 s))) = Some rest"
    by (auto simp: afterAnchor_def Let_def find_Some_iff split: if_splits option.splits)
  have "length s \<ge> 2" using s(1) by (auto simp: prefix_def toLowerCase_def dest!: arg_cong [of _ _ length])
  then show "length rest < length s" using tailOfAnchor_length [OF s(2)] by simp
qed

function filterAnchors ::
  "package_validator \<Rightarrow> int \<Rightarrow> string \<Rightarrow> (string \<times> js_date) list \<Rightarrow> string \<Rightarrow> pypi_acc \<Rightarrow> pypi_acc" where
  "filterAnchors validate now packageName timestamps [] acc = acc"
| "filterAnchors validate now packageName timestamps (c # s) acc =
     (case afterAnchor (c # s) of
        None \<Rightarrow> filterAnchors validate now packageName timestamps s (acc\<lparr>pa_out := pa_out acc @ [c]\<rparr>)
      | Some rest \<Rightarrow>
          filterAnchors validate now packageName timestamps rest
            (filterAnchor validate now packageName timestamps (take (length (c # s) - length rest) (c # s)) acc))"
  by pat_completeness auto
termination
  by (relation "measure (\<lambda>(v, n, p, t, s, a). length s)") (auto dest: afterAnchor_length)

definition filterPypiIndex ::
  "package_validator \<Rightarrow> int \<Rightarrow> string \<Rightarrow> string \<Rightarrow> (string \<times> js_date) list \<Rightarrow>
   string \<times> denied_version list \<times> string list" where
  "filterPypiIndex validate now html packageName timestamps =
     (let acc = filterAnchors validate now packageName timestamps html \<lparr>pa_out = [], pa_denied = [], pa_allowed = []\<rparr>
      in (pa_out acc, pa_denied acc, uniq (pa_allowed acc)))"

section \<open>The cache of allowed versions\<close>

definition CACHE_TTL_MS :: int where
  "CACHE_TTL_MS = 60 * 60 * 1000"

record cache_entry =
  ce_allowedVersions :: "string list"
  ce_cachedAt :: int

datatype audit_source = MetadataFilter | TarballBackstop | DebBackstop

record package_audit =
  pu_registry :: registry_type
  pu_name :: string
  pu_scope :: "string option"
  pu_version :: "string option"
  pu_allowed :: bool
  pu_reason :: string
  pu_source :: audit_source
  pu_path :: string
  pu_timestamp :: int

record registry_state =
  rs_cache :: "(string \<times> cache_entry) list"
  rs_audit :: "package_audit list"

text \<open>An expired entry is deleted when it is looked up.\<close>

definition getCachedVersions :: "int \<Rightarrow> package_identity \<Rightarrow> registry_state \<Rightarrow> registry_state \<times> string list option" where
  "getCachedVersions now pkg st =
     (case map_of (rs_cache st) (packageCacheKey pkg) of
        None \<Rightarrow> (st, None)
      | Some entry \<Rightarrow>
          (if now - ce_cachedAt entry > CACHE_TTL_MS
           then (st\<lparr>rs_cache := filter (\<lambda>(k, _). k \<noteq> packageCacheKey pkg) (rs_cache st)\<rparr>, None)
           else (st, Some (ce_allowedVersions entry))))"

definition setCachedVersions :: "int \<Rightarrow> package_identity \<Rightarrow> string list \<Rightarrow> registry_state \<Rightarrow> registry_state" where
  "setCachedVersions now pkg versions st =
     st\<lparr>rs_cache := setProp (rs_cache st) (packageCacheKey pkg) \<lparr>ce_allowedVersions = versions, ce_cachedAt = now\<rparr>\<rparr>"

definition writeAudit :: "package_audit list \<Rightarrow> registry_state \<Rightarrow> registry_state" where
  "writeAudit entries st = st\<lparr>rs_audit := rs_audit st @ entries\<rparr>"

section \<open>Requests\<close>

record reg_request =
  rq_registry :: registry_config
  rq_path :: string
  rq_host :: string
  rq_port :: nat

text \<open>The bodies of refusals, by what they say.\<close>

datatype refusal_body =
    UnidentifiedPackage
  | FilteredVersion string string
  | RejectedVersion string string string
  | Unverifiable
  | UnidentifiedDeb
  | RejectedDeb string string string
  | UpstreamFailed
  | ProcessingFailed
  | CrateNotFound

datatype reg_response =
    PassThrough
  | ForwardGet string nat string
  | ServePackument npm_packument
  | ServeText string
  | Refuse nat refusal_body

text \<open>What a handler waits for, with the package it serves.\<close>

datatype awaiting =
    AwaitNpmMetadata package_identity
  | AwaitPypiIndex package_identity
  | AwaitCargoIndex package_identity
  | AwaitVersion package_identity

datatype started = Answered reg_response | Waiting awaiting

datatype 'a fetched = NotFetched | Malformed | Fetched 'a

text \<open>The answers of the upstream; each handler reads the ones it asked for. A release is a version with
  the upload times of its files.\<close>

record upstream_reply =
  ur_packument :: "npm_packument fetched"
  ur_text :: "string option"
  ur_releases :: "(string \<times> string option list) list fetched"

record proxy_env =
  pe_parseDate :: "string \<Rightarrow> js_date"
  pe_parseLine :: "string \<Rightarrow> cargo_line option"
  pe_validate :: package_validator

section \<open>Auditing\<close>

definition auditEntry ::
  "int \<Rightarrow> reg_request \<Rightarrow> package_identity \<Rightarrow> string option \<Rightarrow> bool \<Rightarrow> string \<Rightarrow> audit_source \<Rightarrow> package_audit" where
  "auditEntry now rq pkg version allowed reason src =
     \<lparr>pu_registry = pk_registry pkg, pu_name = pk_name pkg, pu_scope = pk_scope pkg, pu_version = version,
      pu_allowed = allowed, pu_reason = reason, pu_source = src, pu_path = rq_path rq, pu_timestamp = now\<rparr>"

text \<open>Each denied version, and a summary of the allowed ones.\<close>

definition auditFilter ::
  "int \<Rightarrow> reg_request \<Rightarrow> package_identity \<Rightarrow> denied_version list \<Rightarrow> string list \<Rightarrow> package_audit list" where
  "auditFilter now rq pkg denied allowedVersions =
     map (\<lambda>(v, reason). auditEntry now rq pkg (Some v) False reason MetadataFilter) denied @
     (if allowedVersions = [] then []
      else [auditEntry now rq pkg (Some (showNat (length allowedVersions) @ '' version(s)'')) True
              ''Passed all validation checks'' MetadataFilter])"

section \<open>Up to the fetch\<close>

definition beginTarballDownload ::
  "int \<Rightarrow> reg_request \<Rightarrow> registry_type \<Rightarrow> registry_state \<Rightarrow> registry_state \<times> started" where
  "beginTarballDownload now rq registryType st =
     (case parseTarballUrl registryType (rq_path rq) of
        None \<Rightarrow> (st, Answered (Refuse 403 UnidentifiedPackage))
      | Some pkg \<Rightarrow>
          (case pk_version pkg of
             None \<Rightarrow> (st, Answered (Refuse 403 UnidentifiedPackage))
           | Some version \<Rightarrow>
               (if version = [] then (st, Answered (Refuse 403 UnidentifiedPackage))
                else let (st1, cached) = getCachedVersions now pkg st
                     in case cached of
                          None \<Rightarrow> (st1, Waiting (AwaitVersion pkg))
                        | Some versions \<Rightarrow>
                            (if version \<in> set versions
                             then (writeAudit [auditEntry now rq pkg (Some version) True
                                     ''Version in allowed cache from metadata filtering'' TarballBackstop] st1,
                                   Answered (ForwardGet (rq_host rq) (rq_port rq) (rq_path rq)))
                             else (writeAudit [auditEntry now rq pkg (Some version) False
                                     ''Version not in allowed cache (filtered from metadata)'' TarballBackstop] st1,
                                   Answered (Refuse 403 (FilteredVersion (canonicalPackageName pkg) version)))))))"

definition handleDebianRequest ::
  "proxy_env \<Rightarrow> int \<Rightarrow> reg_request \<Rightarrow> registry_state \<Rightarrow> registry_state \<times> started" where
  "handleDebianRequest env now rq st =
     (case parseDebianPackageUrl (rq_path rq) of
        None \<Rightarrow>
          (st, Answered (if endsWith (lastSegment (rq_path rq)) ''.deb'' then Refuse 403 UnidentifiedDeb else PassThrough))
      | Some pkg \<Rightarrow>
          (let decision = pe_validate env now pkg (Some \<lparr>vm_publishedAt = Some (Some 0)\<rparr>);
               st1 = writeAudit [auditEntry now rq pkg (pk_version pkg) (allows decision) (decisionReason decision) DebBackstop] st
           in (st1, Answered (if allows decision then PassThrough
                              else Refuse 403 (RejectedDeb (pk_name pkg) (case pk_version pkg of None \<Rightarrow> [] | Some v \<Rightarrow> v)
                                                 (decisionReason decision))))))"

definition handleRegistryRequest ::
  "proxy_env \<Rightarrow> int \<Rightarrow> reg_request \<Rightarrow> registry_state \<Rightarrow> registry_state \<times> started" where
  "handleRegistryRequest env now rq st =
     (let path = rq_path rq
      in case rg_type (rq_registry rq) of
           Npm \<Rightarrow>
             (case (if isNpmMetadataRequest path then parseNpmUrl path else None) of
                Some pkg \<Rightarrow> (st, Waiting (AwaitNpmMetadata pkg))
              | None \<Rightarrow>
                  (if strIncludes path ''/-/'' \<and> \<not> startsWith path ''/-/'' then beginTarballDownload now rq Npm st
                   else (st, Answered PassThrough)))
         | Pypi \<Rightarrow>
             (case parsePypiSimpleUrl path of
                Some pkg \<Rightarrow> (st, Waiting (AwaitPypiIndex pkg))
              | None \<Rightarrow>
                  (if (case rg_mirrorHosts (rq_registry rq) of None \<Rightarrow> False | Some hs \<Rightarrow> rq_host rq \<in> set hs)
                   then beginTarballDownload now rq Pypi st
                   else (st, Answered PassThrough)))
         | Debian \<Rightarrow> handleDebianRequest env now rq st
         | Cargo \<Rightarrow>
             (if rq_host rq = CARGO_STATIC_HOST then beginTarballDownload now rq Cargo st
              else if rq_host rq = CARGO_API_HOST then
                (if parseCargoDownloadUrl path \<noteq> None then beginTarballDownload now rq Cargo st
                 else (st, Answered PassThrough))
              else (case parseCargoSparseIndexUrl path of
                      Some pkg \<Rightarrow> (st, Waiting (AwaitCargoIndex pkg))
                    | None \<Rightarrow> (st, Answered PassThrough))))"

section \<open>After the fetch\<close>

text \<open>\<open>fetchPypiVersionTimestamps\<close>: the earliest upload of each version; the comparison with an invalid
  date is false, so an invalid first time stays.\<close>

definition earlierThan :: "js_date \<Rightarrow> js_date \<Rightarrow> bool" where
  "earlierThan a b = (case (a, b) of (Some x, Some y) \<Rightarrow> x < y | _ \<Rightarrow> False)"

definition earliestUpload :: "(string \<Rightarrow> js_date) \<Rightarrow> string option list \<Rightarrow> js_date option" where
  "earliestUpload parseDate files =
     foldl (\<lambda>earliest file. case file of
         None \<Rightarrow> earliest
       | Some text \<Rightarrow>
           (if text = [] then earliest
            else let date = parseDate text
                 in case earliest of None \<Rightarrow> Some date | Some e \<Rightarrow> (if earlierThan date e then Some date else Some e)))
       None files"

definition fetchPypiVersionTimestamps ::
  "(string \<Rightarrow> js_date) \<Rightarrow> (string \<times> string option list) list fetched \<Rightarrow> (string \<times> js_date) list" where
  "fetchPypiVersionTimestamps parseDate releases =
     (case releases of
        Fetched rs \<Rightarrow> List.map_filter (\<lambda>(v, files). map_option (\<lambda>d. (v, d)) (earliestUpload parseDate files)) rs
      | _ \<Rightarrow> [])"

definition reasonFor :: "denied_version list \<Rightarrow> string \<Rightarrow> string \<Rightarrow> string" where
  "reasonFor denied version fallback = (case map_of denied version of None \<Rightarrow> fallback | Some r \<Rightarrow> r)"

text \<open>\<open>fetchAndValidateVersion\<close>; \<open>None\<close> is an exception, which the caller answers with a refusal.\<close>

definition fetchAndValidateVersion ::
  "proxy_env \<Rightarrow> int \<Rightarrow> registry_type \<Rightarrow> package_identity \<Rightarrow> upstream_reply \<Rightarrow> registry_state \<Rightarrow>
   registry_state \<times> package_decision option" where
  "fetchAndValidateVersion env now registryType pkg reply st =
     (let version = (case pk_version pkg of None \<Rightarrow> [] | Some v \<Rightarrow> v)
      in case registryType of
           Npm \<Rightarrow>
             (case ur_packument reply of
                NotFetched \<Rightarrow> (st, Some (DenyPackage ''Failed to fetch package metadata from upstream''))
              | Malformed \<Rightarrow> (st, None)
              | Fetched packument \<Rightarrow>
                  (let (filtered, denied) = filterNpmPackument (pe_parseDate env) (pe_validate env) now packument (pk_name pkg) (pk_scope pkg);
                       allowedVersions = map fst (np_versions filtered);
                       st1 = setCachedVersions now pkg allowedVersions st
                   in (st1, Some (if version \<in> set allowedVersions then AllowPackage ''Version passed validation''
                                  else DenyPackage (reasonFor denied version ''Version not found in package metadata'')))))
         | Cargo \<Rightarrow>
             (case ur_text reply of
                None \<Rightarrow> (st, Some (DenyPackage ''Failed to fetch crate index from upstream''))
              | Some ndjson \<Rightarrow>
                  (let (_, denied, allowedVersions) =
                         filterCargoSparseIndex (pe_parseDate env) (pe_parseLine env) (pe_validate env) now ndjson (pk_name pkg);
                       st1 = setCachedVersions now pkg allowedVersions st
                   in (st1, Some (if version \<in> set allowedVersions then AllowPackage ''Version passed validation''
                                  else DenyPackage (reasonFor denied version ''Version not found in crate index'')))))
         | _ \<Rightarrow>
             (if ur_releases reply = Malformed then (st, None)
              else let timestamps = fetchPypiVersionTimestamps (pe_parseDate env) (ur_releases reply);
                       decide = (\<lambda>(v, d). pe_validate env now
                           \<lparr>pk_registry = Pypi, pk_name = pk_name pkg, pk_scope = None, pk_version = Some v\<rparr>
                           (Some \<lparr>vm_publishedAt = Some d\<rparr>));
                       allowedVersions = map fst (filter (allows \<circ> decide) timestamps);
                       denied = map (\<lambda>e. (fst e, decisionReason (decide e))) (filter (Not \<circ> allows \<circ> decide) timestamps);
                       st1 = setCachedVersions now pkg allowedVersions st
                   in (st1, Some (if version \<in> set allowedVersions then AllowPackage ''Version passed validation''
                                  else DenyPackage (reasonFor denied version ''Version not found in package metadata'')))))"

definition finishTarballDownload ::
  "proxy_env \<Rightarrow> int \<Rightarrow> reg_request \<Rightarrow> package_identity \<Rightarrow> upstream_reply \<Rightarrow> registry_state \<Rightarrow>
   registry_state \<times> reg_response" where
  "finishTarballDownload env now rq pkg reply st =
     (let (st1, result) = fetchAndValidateVersion env now (rg_type (rq_registry rq)) pkg reply st;
          version = (case pk_version pkg of None \<Rightarrow> [] | Some v \<Rightarrow> v)
      in case result of
           None \<Rightarrow> (st1, Refuse 403 Unverifiable)
         | Some (AllowPackage _) \<Rightarrow>
             (writeAudit [auditEntry now rq pkg (pk_version pkg) True ''Version passed validation on cache miss'' TarballBackstop] st1,
              ForwardGet (rq_host rq) (rq_port rq) (rq_path rq))
         | Some (DenyPackage reason) \<Rightarrow>
             (writeAudit [auditEntry now rq pkg (pk_version pkg) False reason TarballBackstop] st1,
              Refuse 403 (RejectedVersion (canonicalPackageName pkg) version reason)))"

definition finishNpmMetadata ::
  "proxy_env \<Rightarrow> int \<Rightarrow> reg_request \<Rightarrow> package_identity \<Rightarrow> upstream_reply \<Rightarrow> registry_state \<Rightarrow>
   registry_state \<times> reg_response" where
  "finishNpmMetadata env now rq pkg reply st =
     (case ur_packument reply of
        NotFetched \<Rightarrow> (st, Refuse 502 UpstreamFailed)
      | Malformed \<Rightarrow> (st, Refuse 502 ProcessingFailed)
      | Fetched packument \<Rightarrow>
          (let (filtered, denied) = filterNpmPackument (pe_parseDate env) (pe_validate env) now packument (pk_name pkg) (pk_scope pkg);
               allowedVersions = map fst (np_versions filtered)
           in (writeAudit (auditFilter now rq pkg denied allowedVersions) (setCachedVersions now pkg allowedVersions st),
               ServePackument filtered)))"

definition finishPypiSimple ::
  "proxy_env \<Rightarrow> int \<Rightarrow> reg_request \<Rightarrow> package_identity \<Rightarrow> upstream_reply \<Rightarrow> registry_state \<Rightarrow>
   registry_state \<times> reg_response" where
  "finishPypiSimple env now rq pkg reply st =
     (if ur_releases reply = Malformed then (st, Refuse 502 ProcessingFailed)
      else case ur_text reply of
             None \<Rightarrow> (st, Refuse 502 UpstreamFailed)
           | Some html \<Rightarrow>
               (let (filtered, denied, allowedVersions) = filterPypiIndex (pe_validate env) now html (pk_name pkg)
                      (fetchPypiVersionTimestamps (pe_parseDate env) (ur_releases reply))
                in (writeAudit (auditFilter now rq pkg denied allowedVersions) (setCachedVersions now pkg allowedVersions st),
                    ServeText filtered)))"

definition finishCargoSparseIndex ::
  "proxy_env \<Rightarrow> int \<Rightarrow> reg_request \<Rightarrow> package_identity \<Rightarrow> upstream_reply \<Rightarrow> registry_state \<Rightarrow>
   registry_state \<times> reg_response" where
  "finishCargoSparseIndex env now rq pkg reply st =
     (case ur_text reply of
        None \<Rightarrow> (st, Refuse 404 CrateNotFound)
      | Some ndjson \<Rightarrow>
          (let (filtered, denied, allowedVersions) =
                 filterCargoSparseIndex (pe_parseDate env) (pe_parseLine env) (pe_validate env) now ndjson (pk_name pkg)
           in (writeAudit (auditFilter now rq pkg denied allowedVersions) (setCachedVersions now pkg allowedVersions st),
               ServeText filtered)))"

definition resumeRequest ::
  "proxy_env \<Rightarrow> int \<Rightarrow> reg_request \<Rightarrow> awaiting \<Rightarrow> upstream_reply \<Rightarrow> registry_state \<Rightarrow> registry_state \<times> reg_response" where
  "resumeRequest env now rq aw reply st =
     (case aw of
        AwaitNpmMetadata pkg \<Rightarrow> finishNpmMetadata env now rq pkg reply st
      | AwaitPypiIndex pkg \<Rightarrow> finishPypiSimple env now rq pkg reply st
      | AwaitCargoIndex pkg \<Rightarrow> finishCargoSparseIndex env now rq pkg reply st
      | AwaitVersion pkg \<Rightarrow> finishTarballDownload env now rq pkg reply st)"

section \<open>Interleaved requests\<close>

text \<open>The requests that wait, by number, and the responses given so far, the latest last.\<close>

record proxy_state =
  px_registry :: registry_state
  px_waiting :: "(nat \<times> reg_request \<times> awaiting) list"
  px_responses :: "(int \<times> reg_request \<times> reg_response) list"

datatype proxy_event = Arrive nat reg_request int | Reply nat upstream_reply int

definition newProxy :: proxy_state where
  "newProxy = \<lparr>px_registry = \<lparr>rs_cache = [], rs_audit = []\<rparr>, px_waiting = [], px_responses = []\<rparr>"

fun proxyStep :: "proxy_env \<Rightarrow> proxy_state \<Rightarrow> proxy_event \<Rightarrow> proxy_state" where
  "proxyStep env px (Arrive n rq now) =
     (let (st, started) = handleRegistryRequest env now rq (px_registry px)
      in case started of
           Answered resp \<Rightarrow> px\<lparr>px_registry := st, px_responses := px_responses px @ [(now, rq, resp)]\<rparr>
         | Waiting aw \<Rightarrow> px\<lparr>px_registry := st, px_waiting := px_waiting px @ [(n, rq, aw)]\<rparr>)"
| "proxyStep env px (Reply n reply now) =
     (case find (\<lambda>(k, _). k = n) (px_waiting px) of
        None \<Rightarrow> px
      | Some (_, rq, aw) \<Rightarrow>
          (let (st, resp) = resumeRequest env now rq aw reply (px_registry px)
           in px\<lparr>px_registry := st, px_waiting := filter (\<lambda>(k, _). k \<noteq> n) (px_waiting px),
                 px_responses := px_responses px @ [(now, rq, resp)]\<rparr>))"

end
