(* ===== verification/Registry_Proxy_Props.thy ===== *)
theory Registry_Proxy_Props
  imports Registry_Proxy
begin

text \<open>
  Properties of the registry proxy. Under every interleaving of requests and answers, a download is
  forwarded only if the validator let exactly that version through within the last hour; the filters
  keep only what the validator allows; deny list, age gate and invalid dates; the paths the proxy
  does not look at; and two packages the parser of PyPI file names confuses.
\<close>

section \<open>Parsed packages\<close>

lemma parseNpmUrl_fields: "parseNpmUrl path = Some pkg \<Longrightarrow> pk_registry pkg = Npm"
  by (auto simp: parseNpmUrl_def Let_def npmIdentity_def split: option.splits if_splits)

lemma extractPypi_fields: "extractPypiPackageFromFilename f = Some pkg \<Longrightarrow> pk_registry pkg = Pypi \<and> pk_scope pkg = None"
  by (auto simp: extractPypiPackageFromFilename_def Let_def pypiIdentity_def split: option.splits)

lemma parsePypi_fields:
  "parsePypiSimpleUrl path = Some pkg \<Longrightarrow> pk_registry pkg = Pypi \<and> pk_scope pkg = None"
  "parsePypiTarballUrl path = Some pkg \<Longrightarrow> pk_registry pkg = Pypi \<and> pk_scope pkg = None"
  using extractPypi_fields
  by (auto simp: parsePypiSimpleUrl_def parsePypiTarballUrl_def Let_def pypiIdentity_def split: if_splits)

lemma parseCargo_fields:
  "parseCargoSparseIndexUrl path = Some pkg \<Longrightarrow> pk_registry pkg = Cargo \<and> pk_scope pkg = None"
  "parseCargoDownloadUrl path = Some pkg \<Longrightarrow> pk_registry pkg = Cargo \<and> pk_scope pkg = None"
  by (auto simp: parseCargoSparseIndexUrl_def parseCargoDownloadUrl_def crateDownload_def crateFile_def cargoIdentity_def Let_def
      split: list.splits if_splits)

lemma parseTarball_fields:
  assumes "parseTarballUrl r path = Some pkg" "r \<noteq> Debian"
  shows "pk_registry pkg = r" "r \<noteq> Npm \<Longrightarrow> pk_scope pkg = None"
  using assms parseNpmUrl_fields parsePypi_fields(2) parseCargo_fields(2)
  by (auto simp: parseTarballUrl_def split: registry_type.splits)

section \<open>What the filters let through\<close>

text \<open>The validator allowed this version of this package at this time.\<close>

definition validated :: "package_validator \<Rightarrow> int \<Rightarrow> string \<Rightarrow> string \<Rightarrow> bool" where
  "validated validate t key version =
     (\<exists>pkg md. packageCacheKey pkg = key \<and> pk_version pkg = Some version \<and> allows (validate t pkg md))"

lemma validated_version:
  assumes "allows (validate t \<lparr>pk_registry = r, pk_name = pk_name pkg, pk_scope = sc, pk_version = Some v\<rparr> md)"
    and "r = pk_registry pkg" "sc = pk_scope pkg"
  shows "validated validate t (packageCacheKey pkg) v"
  unfolding validated_def
  by (rule exI [of _ "\<lparr>pk_registry = r, pk_name = pk_name pkg, pk_scope = sc, pk_version = Some v\<rparr>"], rule exI [of _ md])
    (use assms in \<open>simp add: packageCacheKey_def canonicalPackageName_def split: option.split\<close>)

lemma npm_filtered:
  assumes "v \<in> set (map fst (np_versions (fst (filterNpmPackument parseDate validate now p (pk_name pkg) (pk_scope pkg)))))"
    and "pk_registry pkg = Npm"
  shows "validated validate now (packageCacheKey pkg) v"
proof -
  have "allows (validateNpmVersion parseDate validate now p (pk_name pkg) (pk_scope pkg) v)"
    using assms(1) by (auto simp: filterNpmPackument_def Let_def)
  then show ?thesis using assms(2) validated_version unfolding validateNpmVersion_def by metis
qed

lemma cargo_filtered:
  assumes "filterCargoSparseIndex parseDate parseLine validate now ndjson (pk_name pkg) = (out, denied, allowedVersions)"
    and "v \<in> set allowedVersions" "pk_registry pkg = Cargo" "pk_scope pkg = None"
  shows "validated validate now (packageCacheKey pkg) v"
proof -
  let ?ok = "\<lambda>acc. \<forall>v \<in> set (snd (snd acc)). validated validate now (packageCacheKey pkg) v"
  have version: "validated validate now (packageCacheKey pkg) v'"
    if "allows (validate now \<lparr>pk_registry = Cargo, pk_name = pk_name pkg, pk_scope = None, pk_version = Some v'\<rparr> md)" for v' md
    using validated_version [where validate = validate and t = now and pkg = pkg, OF that] assms(3,4) by simp
  have push: "?ok (pushFiltered decision v' line acc)"
    if "?ok acc" "allows decision \<Longrightarrow> validated validate now (packageCacheKey pkg) v'" for decision v' line and acc :: "string filtered"
    using that by (cases acc) (auto simp: pushFiltered_def)
  have step: "?ok (filterCargoLine parseDate parseLine validate now (pk_name pkg) acc line)" if "?ok acc" for acc line
  proof (cases "trim line = [] \<or> parseLine (trim line) = None")
    case True
    then show ?thesis using that by (auto simp: filterCargoLine_def Let_def)
  next
    case False
    then obtain entry where entry: "trim line \<noteq> []" "parseLine (trim line) = Some entry" by auto
    show ?thesis
    proof (cases "cl_vers entry = []")
      case True
      then show ?thesis using that entry by (simp add: filterCargoLine_def Let_def)
    next
      case False
      then have "filterCargoLine parseDate parseLine validate now (pk_name pkg) acc line = pushFiltered
          (validate now \<lparr>pk_registry = Cargo, pk_name = pk_name pkg, pk_scope = None, pk_version = Some (cl_vers entry)\<rparr>
             (map_option (\<lambda>p. \<lparr>vm_publishedAt = Some p\<rparr>) (validDate parseDate (cl_pubtime entry))))
          (cl_vers entry) (trim line) acc"
        using entry by (simp add: filterCargoLine_def Let_def)
      then show ?thesis by (simp only:) (rule push [OF that], rule version)
    qed
  qed
  have "?ok (foldl (filterCargoLine parseDate parseLine validate now (pk_name pkg)) acc lines)" if "?ok acc" for acc lines
    using that
  proof (induction lines arbitrary: acc)
    case (Cons line lines)
    from Cons.IH [OF step [OF Cons.prems]] show ?case by (simp only: foldl.simps)
  qed (simp only: foldl.simps)
  from this [of "([], [], [])" "splitOn (CHR 0x0A) ndjson"]
  show ?thesis using assms(1,2) by (auto simp: filterCargoSparseIndex_def split: prod.splits)
qed

lemma pypi_filtered:
  assumes "filterPypiIndex validate now html (pk_name pkg) timestamps = (out, denied, allowedVersions)"
    and "v \<in> set allowedVersions" "pk_registry pkg = Pypi" "pk_scope pkg = None"
  shows "validated validate now (packageCacheKey pkg) v"
proof -
  let ?ok = "\<lambda>acc. \<forall>v \<in> set (pa_allowed acc). validated validate now (packageCacheKey pkg) v"
  have version: "validated validate now (packageCacheKey pkg) v'"
    if "allows (validate now \<lparr>pk_registry = Pypi, pk_name = pk_name pkg, pk_scope = None, pk_version = Some v'\<rparr> md)" for v' md
    using validated_version [where validate = validate and t = now and pkg = pkg, OF that] assms(3,4) by simp
  have step: "?ok (filterAnchor validate now (pk_name pkg) timestamps anchor acc)" if "?ok acc" for acc anchor
    using that version by (auto simp: filterAnchor_def Let_def split: option.split)
  have "?ok (filterAnchors validate now (pk_name pkg) timestamps html' acc)" if "?ok acc" for acc html'
    using that
  proof (induction "length html'" arbitrary: html' acc rule: less_induct)
    case less
    show ?case
    proof (cases html')
      case (Cons c s)
      show ?thesis
      proof (cases "afterAnchor (c # s)")
        case None
        then show ?thesis using less.hyps [of s "acc\<lparr>pa_out := pa_out acc @ [c]\<rparr>"] less.prems Cons by simp
      next
        case (Some rest)
        then have "length rest < length html'" using afterAnchor_length Cons by blast
        from less.hyps [OF this step [OF less.prems]]
        show ?thesis unfolding Cons filterAnchors.simps Some by simp
      qed
    qed (use less in simp)
  qed
  from this [of "\<lparr>pa_out = [], pa_denied = [], pa_allowed = []\<rparr>" html]
  show ?thesis using assms(1,2) by (auto simp: filterPypiIndex_def Let_def)
qed

lemma pypi_json_filtered:
  assumes "v \<in> set (map fst (filter (allows \<circ> (\<lambda>(v, d). validate now
      \<lparr>pk_registry = Pypi, pk_name = pk_name pkg, pk_scope = None, pk_version = Some v\<rparr> (Some \<lparr>vm_publishedAt = Some d\<rparr>))) timestamps))"
    and "pk_registry pkg = Pypi" "pk_scope pkg = None"
  shows "validated validate now (packageCacheKey pkg) v"
proof -
  obtain d where "allows (validate now \<lparr>pk_registry = Pypi, pk_name = pk_name pkg, pk_scope = None, pk_version = Some v\<rparr>
      (Some \<lparr>vm_publishedAt = Some d\<rparr>))" using assms(1) by auto
  then show ?thesis
    using validated_version [where validate = validate and t = now and pkg = pkg and md = "Some \<lparr>vm_publishedAt = Some d\<rparr>"] assms(2,3) by simp
qed

section \<open>The cache\<close>

text \<open>Every version in the cache was allowed when its entry was written.\<close>

definition cacheValid :: "package_validator \<Rightarrow> registry_state \<Rightarrow> bool" where
  "cacheValid validate st =
     (\<forall>key entry. map_of (rs_cache st) key = Some entry \<longrightarrow>
        (\<forall>v \<in> set (ce_allowedVersions entry). validated validate (ce_cachedAt entry) key v))"

lemma map_of_filter_key: "map_of (filter (\<lambda>(k, _). k \<noteq> key) xs) k = (if k = key then None else map_of xs k)"
  by (induction xs) auto

lemma getCachedVersions_valid:
  assumes "cacheValid validate st" "getCachedVersions now pkg st = (st', cached)"
  shows "cacheValid validate st'"
    and "cached = Some versions \<Longrightarrow> v \<in> set versions \<Longrightarrow>
      \<exists>t. now - t \<le> CACHE_TTL_MS \<and> validated validate t (packageCacheKey pkg) v"
proof -
  show "cacheValid validate st'"
    using assms by (auto simp: getCachedVersions_def cacheValid_def map_of_filter_key split: option.splits if_splits)
  assume v: "cached = Some versions" "v \<in> set versions"
  then obtain entry where "map_of (rs_cache st) (packageCacheKey pkg) = Some entry" "now - ce_cachedAt entry \<le> CACHE_TTL_MS"
      "versions = ce_allowedVersions entry"
    using assms(2) by (auto simp: getCachedVersions_def not_less split: option.splits if_splits)
  then show "\<exists>t. now - t \<le> CACHE_TTL_MS \<and> validated validate t (packageCacheKey pkg) v"
    using assms(1) v(2) by (auto simp: cacheValid_def)
qed

lemma setCachedVersions_valid:
  assumes "cacheValid validate st" "\<And>v. v \<in> set versions \<Longrightarrow> validated validate now (packageCacheKey pkg) v"
  shows "cacheValid validate (setCachedVersions now pkg versions st)"
  using assms by (auto simp: setCachedVersions_def cacheValid_def)

lemma writeAudit_valid [simp]: "cacheValid validate (writeAudit es st) = cacheValid validate st"
  by (simp add: writeAudit_def cacheValid_def)

section \<open>Requests\<close>

text \<open>What a request waits for belongs to its path.\<close>

definition awaitOk :: "reg_request \<Rightarrow> awaiting \<Rightarrow> bool" where
  "awaitOk rq aw = (case aw of
       AwaitNpmMetadata pkg \<Rightarrow> pk_registry pkg = Npm
     | AwaitPypiIndex pkg \<Rightarrow> pk_registry pkg = Pypi \<and> pk_scope pkg = None
     | AwaitCargoIndex pkg \<Rightarrow> pk_registry pkg = Cargo \<and> pk_scope pkg = None
     | AwaitVersion pkg \<Rightarrow> rg_type (rq_registry rq) \<noteq> Debian \<and>
         parseTarballUrl (rg_type (rq_registry rq)) (rq_path rq) = Some pkg \<and> pk_version pkg \<noteq> None)"

text \<open>A forwarded download names a package whose version was allowed within the lifetime of the cache.\<close>

definition freshlyValidated :: "package_validator \<Rightarrow> int \<Rightarrow> reg_request \<Rightarrow> bool" where
  "freshlyValidated validate now rq =
     (\<exists>pkg v t. parseTarballUrl (rg_type (rq_registry rq)) (rq_path rq) = Some pkg \<and> pk_version pkg = Some v \<and>
        now - t \<le> CACHE_TTL_MS \<and> validated validate t (packageCacheKey pkg) v)"

definition forwardOk :: "package_validator \<Rightarrow> int \<Rightarrow> reg_request \<Rightarrow> reg_response \<Rightarrow> bool" where
  "forwardOk validate now rq resp =
     (case resp of ForwardGet h p path \<Rightarrow> h = rq_host rq \<and> p = rq_port rq \<and> path = rq_path rq \<and> freshlyValidated validate now rq
      | _ \<Rightarrow> True)"

lemma beginTarball_ok:
  assumes "cacheValid validate st" "beginTarballDownload now rq r st = (st', started)" "r \<noteq> Debian" "rg_type (rq_registry rq) = r"
  shows "cacheValid validate st'"
    and "started = Answered resp \<Longrightarrow> forwardOk validate now rq resp"
    and "started = Waiting aw \<Longrightarrow> awaitOk rq aw"
proof -
  have "cacheValid validate st' \<and> (\<forall>resp. started = Answered resp \<longrightarrow> forwardOk validate now rq resp) \<and>
      (\<forall>aw. started = Waiting aw \<longrightarrow> awaitOk rq aw)"
  proof (cases "parseTarballUrl r (rq_path rq)")
    case None
    then show ?thesis using assms by (auto simp: beginTarballDownload_def forwardOk_def)
  next
    case (Some pkg)
    show ?thesis
    proof (cases "pk_version pkg = None \<or> pk_version pkg = Some []")
      case True
      then show ?thesis using assms Some by (auto simp: beginTarballDownload_def forwardOk_def)
    next
      case False
      then obtain version where v: "pk_version pkg = Some version" "version \<noteq> []" by auto
      obtain st1 cached where c: "getCachedVersions now pkg st = (st1, cached)" by (cases "getCachedVersions now pkg st")
      note valid = getCachedVersions_valid [OF assms(1) c]
      show ?thesis
      proof (cases cached)
        case None
        then show ?thesis using assms(2-4) Some v c valid(1) by (auto simp: beginTarballDownload_def awaitOk_def)
      next
        case (Some versions)
        have "freshlyValidated validate now rq" if "version \<in> set versions"
          using valid(2) [OF Some that] \<open>parseTarballUrl r (rq_path rq) = Some pkg\<close> v(1) assms(4)
          by (auto simp: freshlyValidated_def)
        then show ?thesis using assms(2) \<open>parseTarballUrl r (rq_path rq) = Some pkg\<close> v c valid(1) Some
          by (auto simp: beginTarballDownload_def forwardOk_def split: if_splits)
      qed
    qed
  qed
  then show "cacheValid validate st'" and "started = Answered resp \<Longrightarrow> forwardOk validate now rq resp"
    and "started = Waiting aw \<Longrightarrow> awaitOk rq aw" by blast+
qed

lemma handleRequest_ok:
  assumes "cacheValid validate st" "handleRegistryRequest env now rq st = (st', started)"
  shows "cacheValid validate st'"
    and "started = Answered resp \<Longrightarrow> forwardOk validate now rq resp"
    and "started = Waiting aw \<Longrightarrow> awaitOk rq aw"
proof -
  let ?ok = "cacheValid validate st' \<and> (\<forall>resp. started = Answered resp \<longrightarrow> forwardOk validate now rq resp) \<and>
      (\<forall>aw. started = Waiting aw \<longrightarrow> awaitOk rq aw)"
  have tarball: ?ok if "beginTarballDownload now rq r st = (st', started)" "r \<noteq> Debian" "rg_type (rq_registry rq) = r" for r
    using beginTarball_ok [OF assms(1) that] by blast
  have pass: ?ok if "st' = st" "started = Answered PassThrough" using that assms(1) by (simp add: forwardOk_def)
  have wait: ?ok if "st' = st" "started = Waiting aw" "awaitOk rq aw" for aw using that assms(1) by simp
  have ?ok
  proof (cases "rg_type (rq_registry rq)")
    case Npm
    define parsed where "parsed = (if isNpmMetadataRequest (rq_path rq) then parseNpmUrl (rq_path rq) else None)"
    define tar where "tar = (strIncludes (rq_path rq) ''/-/'' \<and> \<not> startsWith (rq_path rq) ''/-/'')"
    have "(case parsed of Some pkg \<Rightarrow> (st, Waiting (AwaitNpmMetadata pkg))
        | None \<Rightarrow> if tar then beginTarballDownload now rq Npm st else (st, Answered PassThrough)) = (st', started)"
      using assms(2) unfolding handleRegistryRequest_def Let_def Npm registry_type.case parsed_def tar_def .
    moreover have "parseNpmUrl (rq_path rq) = Some pkg" if "parsed = Some pkg" for pkg
      using that unfolding parsed_def by (cases "isNpmMetadataRequest (rq_path rq)") simp_all
    ultimately consider pkg where "parseNpmUrl (rq_path rq) = Some pkg" "st' = st" "started = Waiting (AwaitNpmMetadata pkg)"
      | "beginTarballDownload now rq Npm st = (st', started)" | "st' = st" "started = Answered PassThrough"
      by (cases parsed; cases tar) auto
    then show ?thesis
    proof cases
      case (1 pkg)
      show ?thesis by (rule wait [OF 1(2,3)]) (use parseNpmUrl_fields [OF 1(1)] in \<open>simp add: awaitOk_def\<close>)
    next
      case 2
      show ?thesis by (rule tarball [OF 2]) (simp_all add: Npm)
    next
      case 3
      show ?thesis by (rule pass [OF 3])
    qed
  next
    case Pypi
    define parsed where "parsed = parsePypiSimpleUrl (rq_path rq)"
    define mirror where "mirror = (case rg_mirrorHosts (rq_registry rq) of None \<Rightarrow> False | Some hs \<Rightarrow> rq_host rq \<in> set hs)"
    have "(case parsed of Some pkg \<Rightarrow> (st, Waiting (AwaitPypiIndex pkg))
        | None \<Rightarrow> if mirror then beginTarballDownload now rq Pypi st else (st, Answered PassThrough)) = (st', started)"
      using assms(2) unfolding handleRegistryRequest_def Let_def Pypi registry_type.case parsed_def mirror_def .
    then consider pkg where "parsePypiSimpleUrl (rq_path rq) = Some pkg" "st' = st" "started = Waiting (AwaitPypiIndex pkg)"
      | "beginTarballDownload now rq Pypi st = (st', started)" | "st' = st" "started = Answered PassThrough"
      unfolding parsed_def [symmetric] by (cases parsed; cases mirror) auto
    then show ?thesis
    proof cases
      case (1 pkg)
      show ?thesis by (rule wait [OF 1(2,3)]) (use parsePypi_fields(1) [OF 1(1)] in \<open>simp add: awaitOk_def\<close>)
    next
      case 2
      show ?thesis by (rule tarball [OF 2]) (simp_all add: Pypi)
    next
      case 3
      show ?thesis by (rule pass [OF 3])
    qed
  next
    case Debian
    then have "handleDebianRequest env now rq st = (st', started)"
      using assms(2) unfolding handleRegistryRequest_def Let_def Debian registry_type.case by simp
    then have "st' = st \<or> (\<exists>es. st' = writeAudit es st)" "\<exists>resp. started = Answered resp \<and> (\<forall>h p path. resp \<noteq> ForwardGet h p path)"
      by (cases "parseDebianPackageUrl (rq_path rq)"; auto simp: handleDebianRequest_def Let_def)+
    then show ?thesis using assms(1) by (auto simp: forwardOk_def split: reg_response.split)
  next
    case Cargo
    define parsed where "parsed = parseCargoSparseIndexUrl (rq_path rq)"
    define download where "download = (parseCargoDownloadUrl (rq_path rq) \<noteq> None)"
    define static where "static = (rq_host rq = CARGO_STATIC_HOST)"
    define api where "api = (rq_host rq = CARGO_API_HOST)"
    have "(if static then beginTarballDownload now rq Cargo st
        else if api then if download then beginTarballDownload now rq Cargo st else (st, Answered PassThrough)
        else case parsed of Some pkg \<Rightarrow> (st, Waiting (AwaitCargoIndex pkg)) | None \<Rightarrow> (st, Answered PassThrough)) = (st', started)"
      using assms(2) unfolding handleRegistryRequest_def Let_def Cargo registry_type.case parsed_def download_def static_def api_def .
    then consider pkg where "parseCargoSparseIndexUrl (rq_path rq) = Some pkg" "st' = st" "started = Waiting (AwaitCargoIndex pkg)"
      | "beginTarballDownload now rq Cargo st = (st', started)" | "st' = st" "started = Answered PassThrough"
      unfolding parsed_def [symmetric] by (cases parsed; cases static; cases api; cases download) auto
    then show ?thesis
    proof cases
      case (1 pkg)
      show ?thesis by (rule wait [OF 1(2,3)]) (use parseCargo_fields(1) [OF 1(1)] in \<open>simp add: awaitOk_def\<close>)
    next
      case 2
      show ?thesis by (rule tarball [OF 2]) (simp_all add: Cargo)
    next
      case 3
      show ?thesis by (rule pass [OF 3])
    qed
  qed
  then show "cacheValid validate st'" and "started = Answered resp \<Longrightarrow> forwardOk validate now rq resp"
    and "started = Waiting aw \<Longrightarrow> awaitOk rq aw" by blast+
qed

lemma fetchAndValidate_ok:
  assumes "cacheValid (pe_validate env) st" "parseTarballUrl r path = Some pkg" "r \<noteq> Debian"
    and "fetchAndValidateVersion env now r pkg reply st = (st', result)"
  shows "cacheValid (pe_validate env) st'"
    and "result = Some (AllowPackage reason) \<Longrightarrow> pk_version pkg = Some v \<Longrightarrow> validated (pe_validate env) now (packageCacheKey pkg) v"
proof -
  let ?v = "case pk_version pkg of None \<Rightarrow> [] | Some v \<Rightarrow> v"
  let ?good = "\<lambda>vs. \<forall>v \<in> set vs. validated (pe_validate env) now (packageCacheKey pkg) v"
  note fields = parseTarball_fields [OF assms(2,3)]
  consider "st' = st" "\<nexists>reason. result = Some (AllowPackage reason)"
    | vs denied t where "?good vs" "st' = setCachedVersions now pkg vs st"
        "result = Some (if ?v \<in> set vs then AllowPackage ''Version passed validation'' else DenyPackage (reasonFor denied ?v t))"
  proof (cases r)
    case Npm
    show ?thesis
    proof (cases "ur_packument reply")
      case (Fetched p)
      obtain filtered denied where f: "filterNpmPackument (pe_parseDate env) (pe_validate env) now p (pk_name pkg) (pk_scope pkg) = (filtered, denied)"
        by fastforce
      have good: "?good (map fst (np_versions filtered))" using npm_filtered f fields(1) Npm by (metis fst_conv)
      show ?thesis
        by (rule that(2) [where denied = denied and t = "''Version not found in package metadata''", OF good])
          (use assms(4) Npm Fetched f in \<open>auto simp: fetchAndValidateVersion_def Let_def\<close>)
    qed (rule that(1); use assms(4) Npm in \<open>auto simp: fetchAndValidateVersion_def Let_def\<close>)+
  next
    case Cargo
    show ?thesis
    proof (cases "ur_text reply")
      case (Some ndjson)
      obtain out denied vs where f: "filterCargoSparseIndex (pe_parseDate env) (pe_parseLine env) (pe_validate env) now ndjson (pk_name pkg) = (out, denied, vs)"
        by (metis prod_cases3)
      have good: "?good vs" using cargo_filtered [OF f] fields Cargo by simp
      show ?thesis
        by (rule that(2) [where denied = denied and t = "''Version not found in crate index''", OF good])
          (use assms(4) Cargo Some f in \<open>auto simp: fetchAndValidateVersion_def Let_def\<close>)
    qed (rule that(1); use assms(4) Cargo in \<open>auto simp: fetchAndValidateVersion_def Let_def\<close>)
  next
    case Pypi
    show ?thesis
    proof (cases "ur_releases reply = Malformed")
      case True
      show ?thesis by (rule that(1)) (use assms(4) Pypi True in \<open>simp_all add: fetchAndValidateVersion_def\<close>)
    next
      case False
      let ?ts = "fetchPypiVersionTimestamps (pe_parseDate env) (ur_releases reply)"
      let ?decide = "\<lambda>(v, d). pe_validate env now
          \<lparr>pk_registry = Pypi, pk_name = pk_name pkg, pk_scope = None, pk_version = Some v\<rparr> (Some \<lparr>vm_publishedAt = Some d\<rparr>)"
      have good: "?good (map fst (filter (allows \<circ> ?decide) ?ts))"
        by (rule ballI, rule pypi_json_filtered) (use fields Pypi in simp_all)
      show ?thesis
        by (rule that(2) [where t = "''Version not found in package metadata''" and
              denied = "map (\<lambda>e. (fst e, decisionReason (?decide e))) (filter (Not \<circ> allows \<circ> ?decide) ?ts)", OF good])
          (use assms(4) Pypi False in \<open>simp_all only: fetchAndValidateVersion_def Let_def registry_type.case if_False prod.inject\<close>)
    qed
  qed (use assms(3) in simp)
  then have both: "cacheValid (pe_validate env) st' \<and>
      (\<forall>reason v. result = Some (AllowPackage reason) \<longrightarrow> pk_version pkg = Some v \<longrightarrow> validated (pe_validate env) now (packageCacheKey pkg) v)"
    by cases (use assms(1) setCachedVersions_valid in \<open>auto split: if_splits\<close>)
  then show "cacheValid (pe_validate env) st'"
    and "result = Some (AllowPackage reason) \<Longrightarrow> pk_version pkg = Some v \<Longrightarrow> validated (pe_validate env) now (packageCacheKey pkg) v"
    by blast+
qed

lemma resumeRequest_ok:
  assumes "cacheValid (pe_validate env) st" "awaitOk rq aw" "resumeRequest env now rq aw reply st = (st', resp)"
  shows "cacheValid (pe_validate env) st'" "forwardOk (pe_validate env) now rq resp"
proof -
  have "cacheValid (pe_validate env) st' \<and> forwardOk (pe_validate env) now rq resp"
  proof (cases aw)
    case (AwaitNpmMetadata pkg)
    then have npm: "pk_registry pkg = Npm" using assms(2) by (simp add: awaitOk_def)
    have fin: "finishNpmMetadata env now rq pkg reply st = (st', resp)" using assms(3) AwaitNpmMetadata by (simp add: resumeRequest_def)
    show ?thesis
    proof (cases "ur_packument reply")
      case (Fetched p)
      have "cacheValid (pe_validate env) (setCachedVersions now pkg (map fst (np_versions
          (fst (filterNpmPackument (pe_parseDate env) (pe_validate env) now p (pk_name pkg) (pk_scope pkg))))) st)"
        by (rule setCachedVersions_valid [OF assms(1)]) (rule npm_filtered [OF _ npm])
      then show ?thesis using fin Fetched by (auto simp: finishNpmMetadata_def forwardOk_def Let_def split: prod.splits)
    qed (use fin assms(1) in \<open>auto simp: finishNpmMetadata_def forwardOk_def Let_def\<close>)
  next
    case (AwaitPypiIndex pkg)
    then have py: "pk_registry pkg = Pypi" "pk_scope pkg = None" using assms(2) by (simp_all add: awaitOk_def)
    have fin: "finishPypiSimple env now rq pkg reply st = (st', resp)" using assms(3) AwaitPypiIndex by (simp add: resumeRequest_def)
    show ?thesis
    proof (cases "ur_releases reply = Malformed \<or> ur_text reply = None")
      case False
      then obtain html where html: "ur_releases reply \<noteq> Malformed" "ur_text reply = Some html" by auto
      obtain out denied vs where f: "filterPypiIndex (pe_validate env) now html (pk_name pkg)
          (fetchPypiVersionTimestamps (pe_parseDate env) (ur_releases reply)) = (out, denied, vs)" by (metis prod_cases3)
      have "cacheValid (pe_validate env) (setCachedVersions now pkg vs st)"
        by (rule setCachedVersions_valid [OF assms(1)]) (rule pypi_filtered [OF f _ py])
      then show ?thesis using fin html f by (auto simp: finishPypiSimple_def forwardOk_def Let_def)
    qed (use fin assms(1) in \<open>auto simp: finishPypiSimple_def forwardOk_def Let_def split: if_splits\<close>)
  next
    case (AwaitCargoIndex pkg)
    then have cargo: "pk_registry pkg = Cargo" "pk_scope pkg = None" using assms(2) by (simp_all add: awaitOk_def)
    have fin: "finishCargoSparseIndex env now rq pkg reply st = (st', resp)" using assms(3) AwaitCargoIndex by (simp add: resumeRequest_def)
    show ?thesis
    proof (cases "ur_text reply")
      case (Some ndjson)
      obtain out denied vs where f: "filterCargoSparseIndex (pe_parseDate env) (pe_parseLine env) (pe_validate env) now ndjson (pk_name pkg) = (out, denied, vs)"
        by (metis prod_cases3)
      have "cacheValid (pe_validate env) (setCachedVersions now pkg vs st)"
        by (rule setCachedVersions_valid [OF assms(1)]) (rule cargo_filtered [OF f _ cargo])
      then show ?thesis using fin Some f by (auto simp: finishCargoSparseIndex_def forwardOk_def Let_def)
    qed (use fin assms(1) in \<open>auto simp: finishCargoSparseIndex_def forwardOk_def Let_def\<close>)
  next
    case (AwaitVersion pkg)
    then have aw: "rg_type (rq_registry rq) \<noteq> Debian" "parseTarballUrl (rg_type (rq_registry rq)) (rq_path rq) = Some pkg" "pk_version pkg \<noteq> None"
      using assms(2) by (simp_all add: awaitOk_def)
    have fin: "finishTarballDownload env now rq pkg reply st = (st', resp)" using assms(3) AwaitVersion by (simp add: resumeRequest_def)
    obtain st1 result where f: "fetchAndValidateVersion env now (rg_type (rq_registry rq)) pkg reply st = (st1, result)" by fastforce
    note ok = fetchAndValidate_ok [OF assms(1) aw(2,1) f]
    have fresh: "freshlyValidated (pe_validate env) now rq" if "result = Some (AllowPackage reason)" for reason
    proof -
      obtain v where v: "pk_version pkg = Some v" using aw(3) by auto
      show ?thesis unfolding freshlyValidated_def
        by (rule exI [of _ pkg], rule exI [of _ v], rule exI [of _ now]) (use aw(2) v ok(2) [OF that v] in \<open>simp add: CACHE_TTL_MS_def\<close>)
    qed
    show ?thesis using fin f ok(1) fresh
      by (auto simp: finishTarballDownload_def forwardOk_def Let_def split: option.splits package_decision.splits)
  qed
  then show "cacheValid (pe_validate env) st'" "forwardOk (pe_validate env) now rq resp" by blast+
qed

section \<open>The proxy\<close>

definition proxyInv :: "package_validator \<Rightarrow> proxy_state \<Rightarrow> bool" where
  "proxyInv validate px =
     (cacheValid validate (px_registry px) \<and> (\<forall>(n, rq, aw) \<in> set (px_waiting px). awaitOk rq aw) \<and>
      (\<forall>(now, rq, resp) \<in> set (px_responses px). forwardOk validate now rq resp))"

lemma proxyInv_new: "proxyInv validate newProxy"
  by (simp add: proxyInv_def newProxy_def cacheValid_def)

lemma proxyInv_step:
  assumes "proxyInv (pe_validate env) px"
  shows "proxyInv (pe_validate env) (proxyStep env px e)"
proof (cases e)
  case (Arrive n rq now)
  obtain st started where h: "handleRegistryRequest env now rq (px_registry px) = (st, started)" by fastforce
  have "cacheValid (pe_validate env) (px_registry px)" using assms by (simp add: proxyInv_def)
  note ok = handleRequest_ok [OF this h]
  show ?thesis using assms ok h Arrive by (cases started) (auto simp: proxyInv_def)
next
  case (Reply n reply now)
  show ?thesis
  proof (cases "find (\<lambda>(k, _). k = n) (px_waiting px)")
    case None
    then show ?thesis using assms Reply by simp
  next
    case (Some entry)
    obtain k rq aw where entry: "entry = (k, rq, aw)" by (cases entry)
    have "entry \<in> set (px_waiting px)" using Some by (metis find_Some_iff nth_mem)
    then have aw: "awaitOk rq aw" using assms entry by (auto simp: proxyInv_def)
    obtain st resp where r: "resumeRequest env now rq aw reply (px_registry px) = (st, resp)" by fastforce
    have "cacheValid (pe_validate env) (px_registry px)" using assms by (simp add: proxyInv_def)
    note ok = resumeRequest_ok [OF this aw r]
    show ?thesis using assms ok r Reply Some entry by (auto simp: proxyInv_def)
  qed
qed

lemma proxyInv_run: "proxyInv (pe_validate env) px \<Longrightarrow> proxyInv (pe_validate env) (foldl (proxyStep env) px es)"
  by (induction es arbitrary: px) (simp_all add: proxyInv_step)


section \<open>The deny list\<close>

lemma packageCacheKey_inj: "packageCacheKey p = packageCacheKey q \<Longrightarrow> canonicalPackageName p = canonicalPackageName q"
  by (cases "pk_registry p"; cases "pk_registry q") (simp_all add: packageCacheKey_def registryText_def)

lemma deny_list_final:
  assumes "vc_deniedPackages config = Some denied" "matchesPatternList minimatch (canonicalPackageName pkg) denied"
  shows "\<not> allows (createPackageValidator minimatch config now pkg md)"
proof -
  have "denied \<noteq> []" using assms(2) by (auto simp: matchesPatternList_def)
  then show ?thesis using assms by (simp add: createPackageValidator_def Let_def)
qed

text \<open>With the configured validator, no download of a package on the deny list is ever forwarded, in any interleaving of requests and answers.\<close>

theorem denied_package_not_forwarded:
  assumes "pe_validate env = createPackageValidator minimatch config" "vc_deniedPackages config = Some denied"
    and "(now, rq, ForwardGet h p path) \<in> set (px_responses (foldl (proxyStep env) newProxy events))"
  shows "\<exists>pkg v. parseTarballUrl (rg_type (rq_registry rq)) path = Some pkg \<and> pk_version pkg = Some v \<and>
    \<not> matchesPatternList minimatch (canonicalPackageName pkg) denied"
proof -
  have "forwardOk (pe_validate env) now rq (ForwardGet h p path)"
    using proxyInv_run [OF proxyInv_new, where env = env and es = events] assms(3) unfolding proxyInv_def by blast
  then obtain pkg v t where pkg: "path = rq_path rq" "parseTarballUrl (rg_type (rq_registry rq)) (rq_path rq) = Some pkg"
      "pk_version pkg = Some v" "validated (pe_validate env) t (packageCacheKey pkg) v"
    by (auto simp: forwardOk_def freshlyValidated_def)
  then obtain pkg' md where "packageCacheKey pkg' = packageCacheKey pkg" "allows (createPackageValidator minimatch config t pkg' md)"
    using assms(1) by (auto simp: validated_def)
  then have "\<not> matchesPatternList minimatch (canonicalPackageName pkg) denied"
    using deny_list_final assms(2) packageCacheKey_inj by metis
  then show ?thesis using pkg by auto
qed

section \<open>Age\<close>

lemma validDate_some: "validDate parseDate text = Some d \<Longrightarrow> \<exists>s t. text = Some s \<and> parseDate s = Some t \<and> d = Some t"
  by (auto simp: validDate_def split: option.splits if_splits)

text \<open>Without an allow list, every version the npm filter keeps has a publication time in the packument that parses and lies the quarantine back; missing and invalid times are dropped.\<close>

theorem npm_kept_versions_aged:
  assumes "vc_allowedPackages config = None" "days = (case vc_quarantineDays config of None \<Rightarrow> DEFAULT_QUARANTINE_DAYS | Some n \<Rightarrow> n)"
    and "days > 0"
    and "v \<in> fst ` set (np_versions (fst (filterNpmPackument parseDate (createPackageValidator minimatch config) now p name sc)))"
  shows "\<exists>s t. timeOf p v = Some s \<and> parseDate s = Some t \<and> now - t \<ge> int days * MS_PER_DAY"
proof -
  have "allows (validateNpmVersion parseDate (createPackageValidator minimatch config) now p name sc v)"
    using assms(4) by (auto simp: filterNpmPackument_def Let_def)
  then obtain d where d: "validDate parseDate (timeOf p v) = Some d" "\<not> tooYoung days now d"
    using assms(1-3) by (auto simp: validateNpmVersion_def createPackageValidator_def Let_def split: if_splits option.splits)
  obtain s t where "timeOf p v = Some s" "parseDate s = Some t" "d = Some t" using validDate_some [OF d(1)] by blast
  then show ?thesis using d(2) assms(3) by (auto simp: tooYoung_def ageMs_def MS_PER_DAY_def max_def split: if_splits)
qed

lemma invalid_date_passes_age_gate:
  "allows (createPackageValidator minimatch \<lparr>vc_allowedPackages = None, vc_deniedPackages = None, vc_quarantineDays = Some days\<rparr> now
     pkg (Some \<lparr>vm_publishedAt = Some None\<rparr>))"
  by (simp add: createPackageValidator_def tooYoung_def Let_def)

section \<open>dist-tags\<close>

lemma sortByTime_set: "set (sortByTime f ks) = set ks"
proof -
  have "set (insertByTime f x ys) = insert x (set ys)" for x ys by (induction ys) auto
  then show ?thesis by (induction ks) (simp_all add: sortByTime_def)
qed

lemma keepTime_keys: "fst ` set (keepTime p k t) \<subseteq> insert k (fst ` set t)"
  by (cases "timeOf p k") (auto simp: keepTime_def keys_setProp)

lemma set_setProp: "(k, v) \<in> set (setProp ps k' v') \<Longrightarrow> (k, v) = (k', v') \<or> (k, v) \<in> set ps"
  by (induction ps k' v' rule: setProp.induct) (auto split: if_splits)

lemma keepTimes_keys: "fst ` set (foldl (\<lambda>t (v, _). keepTime p v t) t0 kept) \<subseteq> fst ` set kept \<union> fst ` set t0"
proof (induction kept arbitrary: t0)
  case (Cons e kept)
  obtain v x where e: "e = (v, x)" by (cases e)
  show ?case using Cons.IH [of "keepTime p v t0"] keepTime_keys [of p v t0] unfolding e by auto
qed simp

lemma distTags_kept:
  assumes "(tag, v) \<in> set (filteredDistTags parseDate p kept time)" "fst ` set time \<subseteq> fst ` set kept \<union> {''created'', ''modified''}"
  shows "v \<in> fst ` set kept"
proof -
  let ?old = "filter (\<lambda>(_, v). hasProp kept v) (case np_distTags p of None \<Rightarrow> [] | Some t \<Rightarrow> t)"
  let ?sorted = "sortByTime (\<lambda>k. parseDate (the (map_of time k))) (filter (\<lambda>k. k \<noteq> ''created'' \<and> k \<noteq> ''modified'') (map fst time))"
  have old: "v \<in> fst ` set kept" if "(tag, v) \<in> set ?old" for tag v using that by (force simp: hasProp_def)
  have newest: "x \<in> fst ` set kept" if "?sorted = x # xs" for x xs
  proof -
    have "x \<in> set ?sorted" by (simp add: that)
    then show ?thesis using assms(2) by (auto simp: sortByTime_set)
  qed
  have "(tag, v) \<in> set ?old \<or> (\<exists>x xs. ?sorted = x # xs \<and> (tag, v) \<in> set (setProp ?old ''latest'' x))"
    using assms(1) by (auto simp: filteredDistTags_def Let_def split: if_splits list.splits)
  then show ?thesis
  proof (elim disjE exE conjE)
    fix x xs assume x: "?sorted = x # xs" "(tag, v) \<in> set (setProp ?old ''latest'' x)"
    from set_setProp [OF x(2)] show ?thesis
    proof
      assume "(tag, v) = (''latest'', x)"
      then show ?thesis using newest [OF x(1)] by simp
    qed (rule old)
  qed (rule old)
qed

text \<open>After the npm filter, every dist-tag, the repaired latest too, names a version that the validator allowed.\<close>

theorem npm_tags_name_kept_versions:
  assumes "q = fst (filterNpmPackument parseDate validate now p name sc)" "np_distTags q = Some tags" "(tag, v) \<in> set tags"
  shows "v \<in> fst ` set (np_versions q) \<and> allows (validateNpmVersion parseDate validate now p name sc v)"
proof -
  let ?kept = "filter (\<lambda>(v, _). allows (validateNpmVersion parseDate validate now p name sc v)) (np_versions p)"
  have "fst ` set (keepTime p ''modified'' (keepTime p ''created'' [])) \<subseteq> {''created'', ''modified''}"
    using keepTime_keys [of p "''modified''" "keepTime p ''created'' []"] keepTime_keys [of p "''created''" "[]"] by auto
  then have keys: "fst ` set (foldl (\<lambda>t (v, _). keepTime p v t) (keepTime p ''modified'' (keepTime p ''created'' [])) ?kept)
      \<subseteq> fst ` set ?kept \<union> {''created'', ''modified''}"
    using keepTimes_keys [of p "keepTime p ''modified'' (keepTime p ''created'' [])" ?kept] by blast
  have "tags = filteredDistTags parseDate p ?kept
      (foldl (\<lambda>t (v, _). keepTime p v t) (keepTime p ''modified'' (keepTime p ''created'' [])) ?kept)"
    using assms(1,2) by (simp add: filterNpmPackument_def Let_def)
  from distTags_kept [OF assms(3) [unfolded this] keys] show ?thesis
    using assms(1) by (auto simp: filterNpmPackument_def Let_def)
qed

section \<open>Fail closed\<close>

definition downloadHost :: "reg_request \<Rightarrow> bool" where
  "downloadHost rq =
     (rq_registry rq = cargoRegistry \<and> rq_host rq = CARGO_STATIC_HOST \<or>
      rq_registry rq = pypiRegistry \<and> rq_host rq = ''files.pythonhosted.org'')"

lemma resume_not_pass: "resumeRequest env now rq aw reply st \<noteq> (st', PassThrough)"
  by (auto simp: resumeRequest_def finishNpmMetadata_def finishPypiSimple_def finishCargoSparseIndex_def finishTarballDownload_def Let_def
      split: awaiting.splits fetched.splits prod.splits option.splits package_decision.splits if_splits)

lemma tarball_not_pass: "beginTarballDownload now rq r st \<noteq> (st', Answered PassThrough)"
  by (auto simp: beginTarballDownload_def Let_def split: prod.splits option.splits if_splits)

lemma handle_not_pass:
  assumes "downloadHost rq" shows "handleRegistryRequest env now rq st \<noteq> (st', Answered PassThrough)"
proof (cases "rq_registry rq = cargoRegistry")
  case True
  then have "rq_host rq = CARGO_STATIC_HOST" using assms by (auto simp: downloadHost_def cargoRegistry_def pypiRegistry_def)
  then show ?thesis using True tarball_not_pass by (simp add: handleRegistryRequest_def cargoRegistry_def Let_def)
next
  case False
  then have "rq_registry rq = pypiRegistry" "rq_host rq = ''files.pythonhosted.org''" using assms by (auto simp: downloadHost_def)
  then show ?thesis using tarball_not_pass
    by (cases "parsePypiSimpleUrl (rq_path rq)") (simp_all add: handleRegistryRequest_def pypiRegistry_def Let_def)
qed

text \<open>A request to a pure download host (static.crates.io, files.pythonhosted.org) is never passed through unchecked.\<close>

theorem download_hosts_fail_closed:
  assumes "(now, rq, resp) \<in> set (px_responses (foldl (proxyStep env) newProxy events))" "downloadHost rq"
  shows "resp \<noteq> PassThrough"
proof -
  have step: "\<forall>(now, rq, resp) \<in> set (px_responses (proxyStep env px e)). downloadHost rq \<longrightarrow> resp \<noteq> PassThrough"
    if "\<forall>(now, rq, resp) \<in> set (px_responses px). downloadHost rq \<longrightarrow> resp \<noteq> PassThrough" for px e
  proof (cases e)
    case (Arrive n rq now)
    obtain st started where h: "handleRegistryRequest env now rq (px_registry px) = (st, started)" by fastforce
    then show ?thesis using that Arrive handle_not_pass [of rq env now "px_registry px" st] by (cases started) auto
  next
    case (Reply n reply now)
    then show ?thesis using that resume_not_pass by (auto split: option.splits prod.splits)
  qed
  have "\<forall>(now, rq, resp) \<in> set (px_responses (foldl (proxyStep env) px events)). downloadHost rq \<longrightarrow> resp \<noteq> PassThrough"
    if "\<forall>(now, rq, resp) \<in> set (px_responses px). downloadHost rq \<longrightarrow> resp \<noteq> PassThrough" for px
    using that
  proof (induction events arbitrary: px)
    case (Cons e events)
    from Cons.IH [OF step [OF Cons.prems]] show ?case by simp
  qed simp
  from this [of newProxy] show ?thesis using assms by (auto simp: newProxy_def)
qed

section \<open>Paths of the sparse index\<close>

lemma isCargoName_lower: "isCargoName name \<Longrightarrow> isCargoName (toLowerCase name)"
  by (auto simp: isCargoName_def toLowerCase_def list_all_iff isAsciiAlnum_def toLowerChar_def isLetter_def isDigit_def)

lemma isCargoName_chars: "isCargoName s \<Longrightarrow> CHR ''/'' \<notin> set s \<and> CHR ''?'' \<notin> set s"
  by (auto simp: isCargoName_def list_all_iff isAsciiAlnum_def isLetter_def isDigit_def)

lemma sparse_prefix:
  assumes "isCargoName lower" "toLowerCase lower = lower"
  obtains pfx where "cargoSparseIndexPath lower = pfx @ CHR ''/'' # lower" "pfx \<noteq> []" "hd pfx \<noteq> CHR ''/''"
    "CHR ''?'' \<notin> set pfx" "toLowerCase pfx = pfx"
proof -
  note chars = isCargoName_chars [OF assms(1)]
  have "lower \<noteq> []" using assms(1) by (simp add: isCargoName_def)
  then consider a where "lower = [a]" | a b where "lower = [a, b]" | a b c where "lower = [a, b, c]" | a b c d s where "lower = a # b # c # d # s"
    by (metis neq_Nil_conv)
  then show thesis
  proof cases
    case 1
    show ?thesis by (rule that [of "''1''"]) (use assms(2) 1 in \<open>simp_all add: cargoSparseIndexPath_def normalizeCargoName_def, code_simp\<close>)
  next
    case 2
    show ?thesis by (rule that [of "''2''"]) (use assms(2) 2 in \<open>simp_all add: cargoSparseIndexPath_def normalizeCargoName_def, code_simp\<close>)
  next
    case (3 a b c)
    have "toLowerCase ''3/'' = ''3/''" by code_simp
    then show ?thesis using assms(2) chars 3
      by (intro that [of "''3/'' @ [a]"]) (auto simp: cargoSparseIndexPath_def normalizeCargoName_def toLowerCase_def)
  next
    case (4 a b c d s)
    have "toLowerChar (CHR ''/'') = CHR ''/''" by code_simp
    then show ?thesis using assms(2) chars 4
      by (intro that [of "[a, b] @ ''/'' @ [c, d]"]) (auto simp: cargoSparseIndexPath_def normalizeCargoName_def toLowerCase_def)
  qed
qed

text \<open>C26: The parser of sparse index paths inverts the path a crate name has in the index, up to case.\<close>

theorem cargo_index_path_parses:
  assumes "isCargoName name"
  shows "parseCargoSparseIndexUrl (CHR ''/'' # cargoSparseIndexPath name) = Some (cargoIdentity name None)"
proof -
  let ?l = "toLowerCase name"
  note l = isCargoName_lower [OF assms]
  have path: "cargoSparseIndexPath name = cargoSparseIndexPath ?l" by (simp add: cargoSparseIndexPath_def normalizeCargoName_def)
  obtain pfx where p: "cargoSparseIndexPath ?l = pfx @ CHR ''/'' # ?l" "pfx \<noteq> []" "hd pfx \<noteq> CHR ''/''"
      "CHR ''?'' \<notin> set pfx" "toLowerCase pfx = pfx" by (rule sparse_prefix [OF l]) simp
  let ?p = "pfx @ CHR ''/'' # ?l"
  have clean: "cleanPath (CHR ''/'' # ?p) = CHR ''/'' # ?p"
    unfolding cleanPath_def by (rule takeWhile_eq_all_conv [THEN iffD2]) (use p(4) isCargoName_chars [OF l] in auto)
  have "dropWhile (\<lambda>c. c = CHR ''/'') (CHR ''/'' # ?p) = ?p" using p(2,3) by (cases pfx) simp_all
  moreover have "last (splitOn (CHR ''/'') ?p) = ?l"
    using splitOn_append_sep splitOn_no_sep_id isCargoName_chars [OF l] by simp
  moreover have "toLowerCase ?p = ?p"
  proof -
    have "toLowerChar (CHR ''/'') = CHR ''/''" by code_simp
    then show ?thesis using p(5) by (simp add: toLowerCase_def)
  qed
  moreover have "?p \<noteq> ''config.json''"
  proof
    assume "?p = ''config.json''"
    then have "CHR ''/'' \<in> set ''config.json''" by (metis in_set_conv_decomp)
    then show False by simp
  qed
  moreover have "cargoIdentity ?l None = cargoIdentity name None" by (simp add: cargoIdentity_def normalizeCargoName_def)
  ultimately show ?thesis
    unfolding path p(1) parseCargoSparseIndexUrl_def clean Let_def using l p(1) by simp
qed

section \<open>A run\<close>

definition registryDemoConfig :: validator_config where
  "registryDemoConfig = \<lparr>vc_allowedPackages = None, vc_deniedPackages = Some [''b''], vc_quarantineDays = Some 0\<rparr>"

definition registryDemoEnv :: proxy_env where
  "registryDemoEnv = \<lparr>pe_parseDate = (\<lambda>_. None), pe_parseLine = (\<lambda>s. Some \<lparr>cl_vers = s, cl_pubtime = None\<rparr>),
     pe_validate = createPackageValidator (\<lambda>name pattern. name = pattern) registryDemoConfig\<rparr>"

definition registryDemoRequest :: reg_request where
  "registryDemoRequest = \<lparr>rq_registry = cargoRegistry, rq_path = ''/crates/a/1/download'', rq_host = CARGO_STATIC_HOST, rq_port = 443\<rparr>"

definition registryDemoEvents :: "proxy_event list" where
  "registryDemoEvents = [Arrive 0 registryDemoRequest 0,
     Reply 0 \<lparr>ur_packument = NotFetched, ur_text = Some ''1'', ur_releases = NotFetched\<rparr> 5]"

lemma demo_run:
  "px_responses (foldl (proxyStep registryDemoEnv) newProxy registryDemoEvents) =
     [(5, registryDemoRequest, ForwardGet CARGO_STATIC_HOST 443 ''/crates/a/1/download'')]"
  by code_simp


lemma denied_package_not_forwarded_witness:
  "\<exists>pkg v. parseTarballUrl Cargo ''/crates/a/1/download'' = Some pkg \<and> pk_version pkg = Some v \<and>
     \<not> matchesPatternList (\<lambda>name pattern. name = pattern) (canonicalPackageName pkg) [''b'']"
proof -
  have run: "(5, registryDemoRequest, ForwardGet CARGO_STATIC_HOST 443 ''/crates/a/1/download'')
      \<in> set (px_responses (foldl (proxyStep registryDemoEnv) newProxy registryDemoEvents))" by (simp only: demo_run list.set insert_iff simp_thms)
  have "pe_validate registryDemoEnv = createPackageValidator (\<lambda>name pattern. name = pattern) registryDemoConfig" by (simp add: registryDemoEnv_def)
  from denied_package_not_forwarded [OF this _ run] show ?thesis
    by (simp add: registryDemoConfig_def registryDemoRequest_def cargoRegistry_def)
qed

lemma download_hosts_fail_closed_witness:
  "ForwardGet CARGO_STATIC_HOST 443 ''/crates/a/1/download'' \<noteq> PassThrough"
proof -
  have "(5, registryDemoRequest, ForwardGet CARGO_STATIC_HOST 443 ''/crates/a/1/download'')
      \<in> set (px_responses (foldl (proxyStep registryDemoEnv) newProxy registryDemoEvents))" by (simp only: demo_run list.set insert_iff simp_thms)
  from download_hosts_fail_closed [OF this] show ?thesis by (simp add: downloadHost_def registryDemoRequest_def)
qed

definition demoPackument :: npm_packument where
  "demoPackument = \<lparr>np_versions = [(''1'', JNull), (''2'', JNull)], np_distTags = Some [(''latest'', ''2'')],
     np_time = Some [(''1'', ''old''), (''2'', ''new'')], np_rest = []\<rparr>"

definition demoDate :: "string \<Rightarrow> js_date" where
  "demoDate s = (if s = ''old'' then Some 0 else Some 900)"

definition agedConfig :: validator_config where
  "agedConfig = \<lparr>vc_allowedPackages = None, vc_deniedPackages = None, vc_quarantineDays = None\<rparr>"

lemma demo_filter:
  "np_versions (fst (filterNpmPackument demoDate (createPackageValidator (\<lambda>name pattern. name = pattern) agedConfig)
      172800000 demoPackument ''a'' None)) = [(''1'', JNull)]"
  "np_distTags (fst (filterNpmPackument demoDate (createPackageValidator (\<lambda>name pattern. name = pattern) agedConfig)
      172800000 demoPackument ''a'' None)) = Some [(''latest'', ''1'')]"
  by code_simp+

lemma npm_kept_versions_aged_witness:
  "\<exists>s t. timeOf demoPackument ''1'' = Some s \<and> demoDate s = Some t \<and> 172800000 - t \<ge> 2 * MS_PER_DAY"
proof -
  have "''1'' \<in> fst ` set (np_versions (fst (filterNpmPackument demoDate
      (createPackageValidator (\<lambda>name pattern. name = pattern) agedConfig) 172800000 demoPackument ''a'' None)))"
    by (simp add: demo_filter)
  from npm_kept_versions_aged [OF _ _ _ this] show ?thesis by (simp add: agedConfig_def DEFAULT_QUARANTINE_DAYS_def)
qed

lemma npm_tags_name_kept_versions_witness:
  "allows (validateNpmVersion demoDate (createPackageValidator (\<lambda>name pattern. name = pattern) agedConfig)
     172800000 demoPackument ''a'' None ''1'')"
proof -
  have "(''latest'', ''1'') \<in> set [(''latest'', ''1'')]" by simp
  from npm_tags_name_kept_versions [OF refl demo_filter(2) this] show ?thesis by blast
qed

lemma cargo_index_path_parses_witness:
  "parseCargoSparseIndexUrl (CHR ''/'' # cargoSparseIndexPath ''Serde'') = Some (cargoIdentity ''Serde'' None)"
proof -
  have "isCargoName ''Serde''" by code_simp
  from cargo_index_path_parses [OF this] show ?thesis .
qed

section \<open>File names and paths that escape the checks\<close>

text \<open>A wheel with a build tag is read as another package: the longest name wins.\<close>

lemma wheel_build_tag_read_as_version:
  "extractPypiPackageFromFilename ''foo-1.2.3-1-py3-none-any.whl'' =
     Some \<lparr>pk_registry = Pypi, pk_name = ''foo-1-2-3'', pk_scope = None, pk_version = Some ''1''\<rparr>"
  "extractPypiPackageFromFilename ''foo-1.2.3-py3-none-any.whl'' =
     Some \<lparr>pk_registry = Pypi, pk_name = ''foo'', pk_scope = None, pk_version = Some ''1.2.3''\<rparr>"
  by code_simp+

text \<open>A tarball path of npm that begins with \<open>/-/\<close> is not looked at.\<close>

lemma npm_internal_prefix_passes:
  assumes "rq_registry rq = npmRegistry" "startsWith (rq_path rq) ''/-/''" "\<not> isNpmMetadataRequest (rq_path rq)"
  shows "handleRegistryRequest env now rq st = (st, Answered PassThrough)"
  using assms by (simp add: handleRegistryRequest_def npmRegistry_def Let_def)

end
