(* ===== verification/Egress_Headers.thy ===== *)
theory Egress_Headers
  imports Js_Text Egress_Address
begin

text \<open>
  Names and headers at the edge of the egress proxies: the canonical forms of
  \<open>src/zod-helpers.ts\<close>, the hop-by-hop and credential headers of
  \<open>src/docker/hop-by-hop-headers.ts\<close> and \<open>src/docker/egress-header-policy.ts\<close>, and the shaping of
  requests and responses of \<open>src/docker/egress-forwarding.ts\<close>.
\<close>

section \<open>Canonical names\<close>

definition isLowerLetter :: "char \<Rightarrow> bool" where
  "isLowerLetter c = (97 \<le> (of_char c :: nat) \<and> (of_char c :: nat) \<le> 122)"

definition isAlphanumeric :: "char \<Rightarrow> bool" where
  "isAlphanumeric c = (isLetter c \<or> isDigit c)"

text \<open>\<open>[first][rest]{lo,hi}\<close>.\<close>

definition nameShape :: "(char \<Rightarrow> bool) \<Rightarrow> (char \<Rightarrow> bool) \<Rightarrow> nat \<Rightarrow> nat \<Rightarrow> string \<Rightarrow> bool" where
  "nameShape first rest lo hi s =
     (s \<noteq> [] \<and> first (hd s) \<and> list_all rest (tl s) \<and> lo \<le> length (tl s) \<and> length (tl s) \<le> hi)"

definition isHeaderName :: "string \<Rightarrow> bool" where
  "isHeaderName = nameShape isLowerAlnum (\<lambda>c. isLowerAlnum c \<or> c = CHR ''-'') 0 127"

definition isIdentifier :: "string \<Rightarrow> bool" where
  "isIdentifier = nameShape isLowerAlnum (\<lambda>c. isLowerAlnum c \<or> c \<in> set ''._-'') 2 127"

definition isLifecycleIdentifier :: "string \<Rightarrow> bool" where
  "isLifecycleIdentifier = nameShape isLowerAlnum (\<lambda>c. isLowerAlnum c \<or> c \<in> set ''._:-'') 2 127"

definition isRuntimeIdentity :: "string \<Rightarrow> bool" where
  "isRuntimeIdentity = nameShape isAlphanumeric (\<lambda>c. isAlphanumeric c \<or> c \<in> set ''._:@-'') 0 255"

definition isResourceName :: "string \<Rightarrow> bool" where
  "isResourceName = nameShape isAlphanumeric (\<lambda>c. isAlphanumeric c \<or> c \<in> set ''_.-'') 0 127"

definition isCanonicalHostname :: "string \<Rightarrow> bool" where
  "isCanonicalHostname s =
     (s \<noteq> [] \<and> length s \<le> 253 \<and> list_all (\<lambda>c. isLowerAlnum c \<or> c = CHR ''.'' \<or> c = CHR ''-'') s \<and>
      isLowerAlnum (hd s) \<and> isLowerAlnum (last s) \<and> toLowerCase s = s \<and> \<not> strIncludes s ''..'')"

text \<open>\<open>addDuplicateIssues\<close>: one issue for each value that was seen before.\<close>

fun duplicateIssues :: "string list \<Rightarrow> string list \<Rightarrow> string list" where
  "duplicateIssues seen [] = []"
| "duplicateIssues seen (v # vs) = (if v \<in> set seen then [v] else []) @ duplicateIssues (v # seen) vs"

section \<open>Header sets\<close>

definition HOP_BY_HOP_HEADERS :: "string list" where
  "HOP_BY_HOP_HEADERS = [''connection'', ''keep-alive'', ''proxy-authenticate'', ''proxy-authorization'', ''proxy-connection'',
     ''te'', ''trailer'', ''transfer-encoding'', ''upgrade'']"

definition HOP_BY_HOP_RESPONSE_HEADERS :: "string list" where
  "HOP_BY_HOP_RESPONSE_HEADERS = HOP_BY_HOP_HEADERS @ [''set-cookie'']"

definition EGRESS_FORBIDDEN_CREDENTIAL_HEADERS :: "string list" where
  "EGRESS_FORBIDDEN_CREDENTIAL_HEADERS = [''authorization'', ''proxy-authorization'', ''cookie'', ''set-cookie'', ''x-api-key'',
     ''x-goog-api-key'', ''anthropic-api-key'']"

definition EGRESS_DROPPED_REQUEST_HEADERS :: "string list" where
  "EGRESS_DROPPED_REQUEST_HEADERS = [''host'', ''baggage'', ''traceparent'', ''tracestate''] @ HOP_BY_HOP_HEADERS"

text \<open>A header occurs once or several times.\<close>

datatype header_value = One string | Many "string list"

fun headerValues :: "header_value \<Rightarrow> string list" where
  "headerValues (One v) = [v]"
| "headerValues (Many vs) = vs"

type_synonym request_headers = "(string \<times> header_value option) list"
type_synonym outgoing_headers = "(string \<times> header_value) list"

definition headerOf :: "request_headers \<Rightarrow> string \<Rightarrow> header_value option" where
  "headerOf hs name = (case map_of hs name of Some v \<Rightarrow> v | None \<Rightarrow> None)"

definition connectionNominatedHeaderNames :: "header_value option \<Rightarrow> string list" where
  "connectionNominatedHeaderNames value =
     (case value of
        None \<Rightarrow> []
      | Some v \<Rightarrow>
          uniq (filter (\<lambda>n. n \<noteq> []) (map (\<lambda>token. toLowerCase (trim token)) (concat (map (splitOn (CHR '','')) (headerValues v))))))"

section \<open>Shaping\<close>

record forward_target =
  ft_requestTarget :: string
  ft_scheme :: string
  ft_targetHost :: string
  ft_targetPort :: nat

definition formatAuthority :: "string \<Rightarrow> nat \<Rightarrow> string \<Rightarrow> string" where
  "formatAuthority hostname port scheme =
     (let host = (if CHR '':'' \<in> set hostname then ''['' @ hostname @ '']'' else hostname);
          standard = (scheme = ''https:'' \<and> port = 443 \<or> scheme = ''http:'' \<and> port = 80)
      in if standard then host else host @ '':'' @ showNat port)"

definition buildRequestUrl :: "forward_target \<Rightarrow> string" where
  "buildRequestUrl t =
     (let path = (if startsWith (ft_requestTarget t) ''/'' then ft_requestTarget t else ''/'' @ ft_requestTarget t)
      in ft_scheme t @ ''//'' @ formatAuthority (ft_targetHost t) (ft_targetPort t) (ft_scheme t) @ path)"

definition toOutgoingHeaders :: "outgoing_headers \<Rightarrow> outgoing_headers" where
  "toOutgoingHeaders headers = foldl (\<lambda>result (name, value). setProp result name value) [] headers"

definition sanitizeResponseHeaders :: "request_headers \<Rightarrow> outgoing_headers" where
  "sanitizeResponseHeaders headers =
     (let hopByHop = HOP_BY_HOP_RESPONSE_HEADERS @ connectionNominatedHeaderNames (headerOf headers ''connection'')
      in List.map_filter (\<lambda>(name, value).
           if toLowerCase name \<in> set hopByHop then None else map_option (\<lambda>v. (name, v)) value) headers)"

definition firstHeader :: "header_value option \<Rightarrow> string option" where
  "firstHeader value =
     (case value of
        None \<Rightarrow> None
      | Some (One v) \<Rightarrow> Some v
      | Some (Many vs) \<Rightarrow> (case vs of [] \<Rightarrow> None | v # _ \<Rightarrow> Some v))"

section \<open>Lemmas\<close>

lemma duplicateIssues_distinct: "duplicateIssues seen vs = [] \<longleftrightarrow> distinct vs \<and> set vs \<inter> set seen = {}"
  by (induction vs arbitrary: seen) auto

text \<open>No connection header, no nominated header and no cookie crosses back to the client.\<close>

lemma sanitized_response:
  "(name, value) \<in> set (sanitizeResponseHeaders headers) \<Longrightarrow>
     toLowerCase name \<notin> set HOP_BY_HOP_RESPONSE_HEADERS \<and>
     toLowerCase name \<notin> set (connectionNominatedHeaderNames (headerOf headers ''connection''))"
  by (auto simp: sanitizeResponseHeaders_def Let_def List.map_filter_def split: if_splits)

end
