(* ===== verification/Registry_Egress.thy ===== *)
theory Registry_Egress
  imports Egress_Headers
begin

text \<open>
  The policy of the registry egress (\<open>src/docker/registry-egress-policy.ts\<close>): a reviewed manifest of
  origins, one decision per request and one per redirect. The URL parser of the platform is a
  parameter: it takes a base, when there is one, and a text.
\<close>

section \<open>Manifests\<close>

datatype pull_operation = ApiVersion | TokenFetch | ManifestPull | BlobPull

datatype rejected_operation = Push | Delete | CatalogEnumeration | TagsEnumeration | UnknownOperation

definition CONTENT_OPERATIONS :: "pull_operation list" where
  "CONTENT_OPERATIONS = [ManifestPull, BlobPull]"

datatype token_path = ExactPath string | PrefixPath string

record registry_destination =
  ds_protocol :: string
  ds_hostname :: string
  ds_port :: int

record registry_origin =
  ro_id :: string
  ro_destination :: registry_destination
  ro_operations :: "pull_operation list"
  ro_tokenPaths :: "token_path list option"
  ro_maxBytes :: int
  ro_maxDurationMs :: int
  ro_maxRedirectHops :: int
  ro_allow :: "string list"

record session_limits =
  se_maxTotalBytes :: int
  se_maxConcurrentRequests :: int

datatype manifest_status = Draft | Frozen

record egress_manifest =
  em_schemaVersion :: int
  em_policyId :: string
  em_status :: manifest_status
  em_origins :: "registry_origin list"
  em_perSession :: session_limits
  em_rejectedOperations :: "rejected_operation list"

definition REGISTRY_EGRESS_MANIFEST_SCHEMA_VERSION :: int where
  "REGISTRY_EGRESS_MANIFEST_SCHEMA_VERSION = 1"

fun tokenPathText :: "token_path \<Rightarrow> string" where
  "tokenPathText (ExactPath v) = v"
| "tokenPathText (PrefixPath v) = v"

definition isOriginPath :: "string \<Rightarrow> bool" where
  "isOriginPath value =
     (value \<noteq> [] \<and> length value \<le> 4096 \<and> startsWith value ''/'' \<and> \<not> startsWith value ''//'' \<and>
      CHR ''?'' \<notin> set value \<and> CHR ''#'' \<notin> set value)"

definition between :: "int \<Rightarrow> int \<Rightarrow> int \<Rightarrow> bool" where
  "between lo hi n = (lo \<le> n \<and> n \<le> hi)"

definition destinationAccepts :: "registry_destination \<Rightarrow> bool" where
  "destinationAccepts ds = (ds_protocol ds = ''https:'' \<and> isCanonicalHostname (ds_hostname ds) \<and> between 1 65535 (ds_port ds))"

definition originAccepts :: "registry_origin \<Rightarrow> bool" where
  "originAccepts ro =
     (isIdentifier (ro_id ro) \<and> destinationAccepts (ro_destination ro) \<and>
      ro_operations ro \<noteq> [] \<and> length (ro_operations ro) \<le> 4 \<and> distinct (ro_operations ro) \<and>
      (case ro_tokenPaths ro of None \<Rightarrow> True | Some ps \<Rightarrow> length ps \<le> 16 \<and> list_all (isOriginPath \<circ> tokenPathText) ps) \<and>
      between 1 (8 * 1024 * 1024 * 1024) (ro_maxBytes ro) \<and> between 100 (30 * 60000) (ro_maxDurationMs ro) \<and>
      between 0 5 (ro_maxRedirectHops ro) \<and>
      length (ro_allow ro) \<le> 64 \<and> list_all isHeaderName (ro_allow ro) \<and> duplicateIssues [] (ro_allow ro) = [] \<and>
      list_all (\<lambda>name. name \<notin> set EGRESS_FORBIDDEN_CREDENTIAL_HEADERS) (ro_allow ro) \<and>
      (TokenFetch \<in> set (ro_operations ro) \<longrightarrow> (case ro_tokenPaths ro of None \<Rightarrow> False | Some ps \<Rightarrow> ps \<noteq> [])) \<and>
      (TokenFetch \<notin> set (ro_operations ro) \<longrightarrow> ro_tokenPaths ro = None))"

definition manifestAccepts :: "egress_manifest \<Rightarrow> bool" where
  "manifestAccepts em =
     (em_schemaVersion em = REGISTRY_EGRESS_MANIFEST_SCHEMA_VERSION \<and> isIdentifier (em_policyId em) \<and>
      em_origins em \<noteq> [] \<and> length (em_origins em) \<le> 64 \<and> list_all originAccepts (em_origins em) \<and>
      between 1 (64 * 1024 * 1024 * 1024) (se_maxTotalBytes (em_perSession em)) \<and>
      between 1 64 (se_maxConcurrentRequests (em_perSession em)) \<and>
      em_rejectedOperations em \<noteq> [] \<and> length (em_rejectedOperations em) \<le> 8 \<and> UnknownOperation \<notin> set (em_rejectedOperations em) \<and>
      duplicateIssues [] (map ro_id (em_origins em)) = [] \<and>
      distinct (map (\<lambda>ro. (ds_hostname (ro_destination ro), ds_port (ro_destination ro))) (em_origins em)))"

section \<open>Requests\<close>

text \<open>A parsed URL; an empty port is the default of the protocol.\<close>

record web_url =
  wu_protocol :: string
  wu_username :: string
  wu_password :: string
  wu_hostname :: string
  wu_port :: "int option"
  wu_pathname :: string
  wu_search :: string
  wu_hash :: string

type_synonym url_parser = "string option \<Rightarrow> string \<Rightarrow> web_url option"

record egress_request =
  eq_method :: string
  eq_url :: string
  eq_headers :: request_headers

record authorized_request =
  au_policyId :: string
  au_originId :: string
  au_operation :: pull_operation
  au_destination :: registry_destination
  au_method :: string
  au_path :: string
  au_headers :: outgoing_headers
  au_repository :: "string option"
  au_reference :: "string option"
  au_requestedDigest :: "string option"
  au_maxBytes :: int
  au_maxDurationMs :: int
  au_maxRedirectHops :: int
  au_redirectHop :: int

datatype registry_error =
    InvalidUrl
  | NotHttps
  | UrlHasCredentials
  | EncodedSeparator
  | UnlistedHost
  | NonCanonicalMethod
  | RefusedOperation rejected_operation
  | RefusedMethod string
  | QueryNotAllowed
  | BadRepository
  | BadReference
  | NotByDigest
  | BadEscape
  | OperationNotAuthorized string pull_operation
  | NonCanonicalHeader string
  | BadAuthorization
  | CredentialHeader string
  | HeaderLineBreak string
  | HeaderNotAllowed string string
  | RedirectOfOtherOperation
  | RedirectHopLimit string
  | RedirectToLiteral
  | RedirectPortInvalid
  | EgressDisabled

type_synonym 'a checked = "registry_error + 'a"

text \<open>An exception ends the handler.\<close>

definition andThen :: "'a checked \<Rightarrow> ('a \<Rightarrow> 'b checked) \<Rightarrow> 'b checked" where
  "andThen r f = (case r of Inl e \<Rightarrow> Inl e | Inr x \<Rightarrow> f x)"

definition require :: "bool \<Rightarrow> registry_error \<Rightarrow> 'a checked \<Rightarrow> 'a checked" where
  "require ok e r = (if ok then r else Inl e)"

section \<open>Classification\<close>

definition SHA256_PREFIX :: string where "SHA256_PREFIX = ''sha256:''"

definition isLowerHex :: "char \<Rightarrow> bool" where
  "isLowerHex c = (isDigit c \<or> (97 \<le> (of_char c :: nat) \<and> (of_char c :: nat) \<le> 102))"

definition parseOciDigest :: "string \<Rightarrow> string option" where
  "parseOciDigest reference =
     (let hex = drop 7 reference
      in if startsWith reference SHA256_PREFIX \<and> length hex = 64 \<and> list_all isLowerHex hex then Some hex else None)"

text \<open>The tag pattern \<open>[a-zA-Z0-9_][a-zA-Z0-9._-]{0,127}\<close>.\<close>

definition isOciTag :: "string \<Rightarrow> bool" where
  "isOciTag = nameShape (\<lambda>c. isAlphanumeric c \<or> c = CHR ''_'') (\<lambda>c. isAlphanumeric c \<or> c \<in> set ''._-'') 0 127"

text \<open>A separator inside a component of a name: a dot, one or two underscores, or hyphens.\<close>

definition isOciSeparator :: "string \<Rightarrow> bool" where
  "isOciSeparator sep = (sep = ''.'' \<or> sep = ''_'' \<or> sep = ''__'' \<or> (sep \<noteq> [] \<and> list_all (\<lambda>c. c = CHR ''-'') sep))"

text \<open>What follows the first character of a component: the separator read so far is \<open>sep\<close>.\<close>

fun ociComponentTail :: "string \<Rightarrow> string \<Rightarrow> bool" where
  "ociComponentTail sep [] = (sep = [])"
| "ociComponentTail sep (c # s) =
     (if isLowerAlnum c then (sep = [] \<or> isOciSeparator sep) \<and> ociComponentTail [] s
      else ociComponentTail (sep @ [c]) s)"

definition isOciComponent :: "string \<Rightarrow> bool" where
  "isOciComponent s = (s \<noteq> [] \<and> isLowerAlnum (hd s) \<and> ociComponentTail [] (tl s))"

definition isOciName :: "string \<Rightarrow> bool" where
  "isOciName name = list_all isOciComponent (splitOn (CHR ''/'') name)"

definition validateRepository :: "string \<Rightarrow> string checked" where
  "validateRepository name =
     (if length name > 255 \<or> CHR ''%'' \<in> set name \<or> \<not> isOciName name then Inl BadRepository else Inr name)"

record pull_classification =
  pc_operation :: pull_operation
  pc_repository :: "string option"
  pc_reference :: "string option"
  pc_digest :: "string option"

definition requireNoQuery :: "web_url \<Rightarrow> 'a checked \<Rightarrow> 'a checked" where
  "requireNoQuery url = require (wu_search url = []) QueryNotAllowed"

definition classifyTokenIfMatched :: "registry_origin \<Rightarrow> web_url \<Rightarrow> pull_classification option" where
  "classifyTokenIfMatched ro url =
     (if list_ex (\<lambda>p. case p of ExactPath v \<Rightarrow> wu_pathname url = v | PrefixPath v \<Rightarrow> startsWith (wu_pathname url) v)
           (case ro_tokenPaths ro of None \<Rightarrow> [] | Some ps \<Rightarrow> ps)
      then Some \<lparr>pc_operation = TokenFetch, pc_repository = None, pc_reference = None, pc_digest = None\<rparr> else None)"

definition classifyManifest :: "web_url \<Rightarrow> string \<Rightarrow> string \<Rightarrow> pull_classification checked" where
  "classifyManifest url rawName reference =
     requireNoQuery url (andThen (validateRepository rawName) (\<lambda>repository.
       case parseOciDigest reference of
         Some hex \<Rightarrow> Inr \<lparr>pc_operation = ManifestPull, pc_repository = Some repository, pc_reference = Some reference, pc_digest = Some hex\<rparr>
       | None \<Rightarrow> require (isOciTag reference) BadReference
           (Inr \<lparr>pc_operation = ManifestPull, pc_repository = Some repository, pc_reference = Some reference, pc_digest = None\<rparr>)))"

definition classifyBlob :: "web_url \<Rightarrow> string \<Rightarrow> string \<Rightarrow> pull_classification checked" where
  "classifyBlob url rawName reference =
     requireNoQuery url (andThen (validateRepository rawName) (\<lambda>repository.
       case parseOciDigest reference of
         Some hex \<Rightarrow> Inr \<lparr>pc_operation = BlobPull, pc_repository = Some repository, pc_reference = Some reference, pc_digest = Some hex\<rparr>
       | None \<Rightarrow> Inl NotByDigest))"

definition noLineBreak :: "string \<Rightarrow> bool" where
  "noLineBreak s = list_all (\<lambda>c. \<not> isLineTerm c) s"

text \<open>\<open>^\/v2\/(.+)MID$\<close>: what stands between the two.\<close>

definition v2Middle :: "string \<Rightarrow> string \<Rightarrow> string option" where
  "v2Middle ending pathname =
     (let mid = drop 4 (dropEnd (length ending) pathname)
      in if startsWith pathname ''/v2/'' \<and> endsWith pathname ending \<and> length pathname > 4 + length ending \<and> noLineBreak mid
         then Some mid else None)"

text \<open>\<open>^\/v2\/(.+)\/KIND\/([^/]+)$\<close>: the last segment is the reference.\<close>

definition v2Reference :: "string \<Rightarrow> string \<Rightarrow> (string \<times> string) option" where
  "v2Reference kind pathname =
     (let reference = last (splitOn (CHR ''/'') pathname)
      in if reference = [] then None
         else map_option (\<lambda>name. (name, reference)) (v2Middle (''/'' @ kind) (dropEnd (length reference + 1) pathname)))"

text \<open>\<open>^\/v2\/.+\/blobs\/uploads(?:\/.*)?$\<close>.\<close>

definition isUploadPath :: "string \<Rightarrow> bool" where
  "isUploadPath pathname =
     list_ex (\<lambda>i. v2Middle ''/blobs/uploads'' (take i pathname) \<noteq> None \<and>
                (i = length pathname \<or> (pathname ! i = CHR ''/'' \<and> noLineBreak (drop i pathname))))
       [0..<length pathname + 1]"

definition decodedReference :: "string \<Rightarrow> string checked" where
  "decodedReference reference = (case decodeURIComponent reference of None \<Rightarrow> Inl BadEscape | Some r \<Rightarrow> Inr r)"

definition classifyPull :: "registry_origin \<Rightarrow> web_url \<Rightarrow> pull_classification checked" where
  "classifyPull ro url =
     (case classifyTokenIfMatched ro url of
        Some t \<Rightarrow> Inr t
      | None \<Rightarrow>
          (let pathname = wu_pathname url
           in if pathname = ''/v2'' \<or> pathname = ''/v2/''
              then requireNoQuery url (Inr \<lparr>pc_operation = ApiVersion, pc_repository = None, pc_reference = None, pc_digest = None\<rparr>)
              else if pathname = ''/v2/_catalog'' then Inl (RefusedOperation CatalogEnumeration)
              else if v2Middle ''/tags/list'' pathname \<noteq> None then Inl (RefusedOperation TagsEnumeration)
              else if isUploadPath pathname then Inl (RefusedOperation Push)
              else case v2Reference ''manifests'' pathname of
                     Some (name, raw) \<Rightarrow> andThen (decodedReference raw) (classifyManifest url name)
                   | None \<Rightarrow>
                       (case v2Reference ''blobs'' pathname of
                          Some (name, raw) \<Rightarrow> andThen (decodedReference raw) (classifyBlob url name)
                        | None \<Rightarrow> Inl (RefusedOperation UnknownOperation))))"

definition toUpperChar :: "char \<Rightarrow> char" where
  "toUpperChar c = (if isLowerLetter c then char_of ((of_char c :: nat) - 32) else c)"

definition classifyRegistryRequest ::
  "registry_origin \<Rightarrow> string \<Rightarrow> web_url \<Rightarrow> (string \<times> pull_classification) checked" where
  "classifyRegistryRequest ro rawMethod url =
     (let meth = map toUpperChar rawMethod
      in if meth \<noteq> rawMethod then Inl NonCanonicalMethod
         else if meth = ''PUT'' \<or> meth = ''POST'' \<or> meth = ''PATCH'' then Inl (RefusedOperation Push)
         else if meth = ''DELETE'' then Inl (RefusedOperation Delete)
         else if meth \<noteq> ''GET'' \<and> meth \<noteq> ''HEAD'' then Inl (RefusedMethod meth)
         else andThen (classifyPull ro url) (\<lambda>pc. Inr (meth, pc)))"

section \<open>URLs and origins\<close>

definition hasEncodedSeparator :: "string \<Rightarrow> bool" where
  "hasEncodedSeparator pathname =
     (let p = toLowerCase pathname in strIncludes p ''%2f'' \<or> strIncludes p ''%5c'' \<or> strIncludes p ''%25'')"

definition hasCredentials :: "web_url \<Rightarrow> bool" where
  "hasCredentials url = (wu_username url \<noteq> [] \<or> wu_password url \<noteq> [] \<or> wu_hash url \<noteq> [])"

definition parseRegistryUrl :: "url_parser \<Rightarrow> string \<Rightarrow> web_url checked" where
  "parseRegistryUrl parse rawUrl =
     (case parse None rawUrl of
        None \<Rightarrow> Inl InvalidUrl
      | Some url \<Rightarrow>
          (if wu_protocol url \<noteq> ''https:'' then Inl NotHttps
           else if hasCredentials url then Inl UrlHasCredentials
           else if hasEncodedSeparator (wu_pathname url) then Inl EncodedSeparator
           else Inr url))"

definition defaultPort :: "web_url \<Rightarrow> int" where
  "defaultPort url =
     (case wu_port url of
        Some p \<Rightarrow> p
      | None \<Rightarrow> if wu_protocol url = ''https:'' then 443 else if wu_protocol url = ''http:'' then 80 else 0)"

definition matchOrigin :: "egress_manifest \<Rightarrow> web_url \<Rightarrow> registry_origin option" where
  "matchOrigin em url =
     find (\<lambda>ro. ds_protocol (ro_destination ro) = wu_protocol url \<and>
               ds_hostname (ro_destination ro) = toLowerCase (wu_hostname url) \<and>
               ds_port (ro_destination ro) = defaultPort url) (em_origins em)"

definition authority :: "registry_destination \<Rightarrow> string" where
  "authority ds =
     (let host = (if CHR '':'' \<in> set (ds_hostname ds) then ''['' @ ds_hostname ds @ '']'' else ds_hostname ds)
      in if ds_port ds = 443 then host else host @ '':'' @ showNat (nat (ds_port ds)))"

definition resolveRedirectUrl :: "url_parser \<Rightarrow> authorized_request \<Rightarrow> string \<Rightarrow> web_url checked" where
  "resolveRedirectUrl parse current location =
     (let base = ds_protocol (au_destination current) @ ''//'' @ authority (au_destination current) @ au_path current
      in case parse (Some base) location of
           None \<Rightarrow> Inl InvalidUrl
         | Some target \<Rightarrow>
             (if hasCredentials target then Inl UrlHasCredentials
              else if hasEncodedSeparator (wu_pathname target) then Inl EncodedSeparator
              else if wu_protocol target \<noteq> ''https:'' then Inl NotHttps
              else Inr target))"

section \<open>Headers\<close>

text \<open>\<open>^Bearer [A-Za-z0-9._~+/=-]+$\<close>.\<close>

definition isBearerToken :: "string \<Rightarrow> bool" where
  "isBearerToken value =
     (let token = drop 7 value
      in startsWith value ''Bearer '' \<and> token \<noteq> [] \<and> list_all (\<lambda>c. isAlphanumeric c \<or> c \<in> set ''._~+/=-'') token)"

fun admitBearerAuthorization :: "header_value \<Rightarrow> header_value checked" where
  "admitBearerAuthorization (One value) = (if isBearerToken value then Inr (One value) else Inl BadAuthorization)"
| "admitBearerAuthorization (Many values) = Inl BadAuthorization"

definition hasLineBreak :: "string \<Rightarrow> bool" where
  "hasLineBreak value = (CHR 0x0D \<in> set value \<or> CHR 0x0A \<in> set value)"

text \<open>One entry of the loop: nothing, or a header of the result.\<close>

definition sanitizeHeader ::
  "registry_origin \<Rightarrow> string list \<Rightarrow> string \<Rightarrow> header_value option \<Rightarrow> header_value option checked" where
  "sanitizeHeader ro dropped rawName rawValue =
     (let name = toLowerCase rawName
      in if name \<noteq> rawName \<or> \<not> isHeaderName name then Inl (NonCanonicalHeader rawName)
         else case rawValue of
                None \<Rightarrow> Inr None
              | Some value \<Rightarrow>
                  (if name = ''authorization'' then andThen (admitBearerAuthorization value) (\<lambda>v. Inr (Some v))
                   else if name \<in> set EGRESS_FORBIDDEN_CREDENTIAL_HEADERS then Inl (CredentialHeader name)
                   else if name \<in> set dropped then Inr None
                   else if list_ex hasLineBreak (headerValues value) then Inl (HeaderLineBreak name)
                   else if name \<notin> set (ro_allow ro) then Inl (HeaderNotAllowed (ro_id ro) name)
                   else Inr (Some value)))"

fun sanitizeEntries ::
  "registry_origin \<Rightarrow> string list \<Rightarrow> request_headers \<Rightarrow> outgoing_headers \<Rightarrow> outgoing_headers checked" where
  "sanitizeEntries ro dropped [] result = Inr result"
| "sanitizeEntries ro dropped ((rawName, rawValue) # hs) result =
     andThen (sanitizeHeader ro dropped rawName rawValue) (\<lambda>v.
       sanitizeEntries ro dropped hs (case v of None \<Rightarrow> result | Some value \<Rightarrow> setProp result (toLowerCase rawName) value))"

definition sanitizeHeaders :: "registry_origin \<Rightarrow> request_headers \<Rightarrow> outgoing_headers checked" where
  "sanitizeHeaders ro headers =
     sanitizeEntries ro (EGRESS_DROPPED_REQUEST_HEADERS @ connectionNominatedHeaderNames (headerOf headers ''connection'')) headers []"

section \<open>Authorization\<close>

definition authorizeValidatedRegistryEgressRequest ::
  "url_parser \<Rightarrow> egress_manifest \<Rightarrow> egress_request \<Rightarrow> authorized_request checked" where
  "authorizeValidatedRegistryEgressRequest parse em rq =
     andThen (parseRegistryUrl parse (eq_url rq)) (\<lambda>url.
       case matchOrigin em url of
         None \<Rightarrow> Inl UnlistedHost
       | Some ro \<Rightarrow>
           andThen (classifyRegistryRequest ro (eq_method rq) url) (\<lambda>(meth, pc).
             if pc_operation pc \<notin> set (ro_operations ro) then Inl (OperationNotAuthorized (ro_id ro) (pc_operation pc))
             else andThen (sanitizeHeaders ro (eq_headers rq)) (\<lambda>headers.
               Inr \<lparr>au_policyId = em_policyId em, au_originId = ro_id ro, au_operation = pc_operation pc,
                 au_destination = ro_destination ro, au_method = meth, au_path = wu_pathname url @ wu_search url,
                 au_headers = headers, au_repository = pc_repository pc, au_reference = pc_reference pc,
                 au_requestedDigest = pc_digest pc, au_maxBytes = ro_maxBytes ro, au_maxDurationMs = ro_maxDurationMs ro,
                 au_maxRedirectHops = ro_maxRedirectHops ro, au_redirectHop = 0\<rparr>)))"

text \<open>\<open>replace(/^\[|\]$/g, '')\<close>.\<close>

definition stripBrackets :: "string \<Rightarrow> string" where
  "stripBrackets s =
     (let s1 = (if startsWith s ''['' then drop 1 s else s) in if endsWith s1 '']'' then dropEnd 1 s1 else s1)"

definition MAX_SAFE_INTEGER :: int where
  "MAX_SAFE_INTEGER = 2 ^ 53 - 1"

definition redirectPort :: "web_url \<Rightarrow> int checked" where
  "redirectPort url = (let port = defaultPort url in require (0 < port \<and> port \<le> MAX_SAFE_INTEGER) RedirectPortInvalid (Inr port))"

definition authorizeValidatedRegistryRedirect ::
  "url_parser \<Rightarrow> egress_manifest \<Rightarrow> authorized_request \<Rightarrow> string \<Rightarrow> authorized_request checked" where
  "authorizeValidatedRegistryRedirect parse em current location =
     (if au_operation current \<notin> set CONTENT_OPERATIONS then Inl RedirectOfOtherOperation
      else let hop = au_redirectHop current + 1
      in if hop > au_maxRedirectHops current then Inl (RedirectHopLimit (au_originId current))
      else andThen (resolveRedirectUrl parse current location) (\<lambda>target.
        if isIPv4 (stripBrackets (wu_hostname target)) \<or> isIPv6 (stripBrackets (wu_hostname target)) then Inl RedirectToLiteral
        else case matchOrigin em target of
          Some ro \<Rightarrow>
            andThen (classifyRegistryRequest ro (au_method current) target) (\<lambda>(meth, pc).
              if pc_operation pc \<notin> set (ro_operations ro) then Inl (OperationNotAuthorized (ro_id ro) (pc_operation pc))
              else Inr (current\<lparr>au_originId := ro_id ro, au_operation := pc_operation pc, au_destination := ro_destination ro,
                au_path := wu_pathname target @ wu_search target, au_headers := [], au_repository := pc_repository pc,
                au_reference := pc_reference pc, au_requestedDigest := pc_digest pc, au_maxBytes := ro_maxBytes ro,
                au_maxDurationMs := ro_maxDurationMs ro, au_maxRedirectHops := ro_maxRedirectHops ro, au_redirectHop := hop\<rparr>))
        | None \<Rightarrow>
            andThen (redirectPort target) (\<lambda>port.
              Inr (current\<lparr>au_originId := au_originId current @ '':cdn'',
                au_destination := \<lparr>ds_protocol = ''https:'', ds_hostname = toLowerCase (wu_hostname target), ds_port = port\<rparr>,
                au_path := wu_pathname target @ wu_search target, au_headers := [], au_redirectHop := hop\<rparr>))))"

end
