(* ===== verification/Mediated_Egress.thy ===== *)
theory Mediated_Egress
  imports Registry_Egress
begin

text \<open>
  The forwarding of the registry egress (\<open>src/docker/mediated-egress.ts\<close>,
  \<open>src/docker/registry-egress-proxy.ts\<close>): the guard, the ledger of a session, and the life of one
  exchange, from the authorised request over redirects to the streamed body. The callbacks of the
  source are events; an exchange keeps what it waits for as a phase. The only caller passes a session
  and a redirect authoriser, so both are present here. The value of a number in a header is a parameter.
\<close>

section \<open>The ledger of a session\<close>

record egress_ledger =
  lg_maxTotalBytes :: int
  lg_maxConcurrentRequests :: int
  lg_attempts :: nat
  lg_totalBytes :: nat
  lg_activeRequests :: nat

definition createRegistryEgressSessionLedger :: "session_limits \<Rightarrow> egress_ledger" where
  "createRegistryEgressSessionLedger limits =
     \<lparr>lg_maxTotalBytes = se_maxTotalBytes limits, lg_maxConcurrentRequests = se_maxConcurrentRequests limits,
      lg_attempts = 0, lg_totalBytes = 0, lg_activeRequests = 0\<rparr>"

definition recordAttempt :: "egress_ledger \<Rightarrow> egress_ledger" where
  "recordAttempt lg = lg\<lparr>lg_attempts := lg_attempts lg + 1\<rparr>"

definition acquireSlot :: "egress_ledger \<Rightarrow> egress_ledger option" where
  "acquireSlot lg =
     (if int (lg_activeRequests lg) \<ge> lg_maxConcurrentRequests lg then None
      else Some (lg\<lparr>lg_activeRequests := lg_activeRequests lg + 1\<rparr>))"

definition releaseSlot :: "egress_ledger \<Rightarrow> egress_ledger" where
  "releaseSlot lg = lg\<lparr>lg_activeRequests := lg_activeRequests lg - 1\<rparr>"

definition wouldFit :: "nat \<Rightarrow> egress_ledger \<Rightarrow> bool" where
  "wouldFit additional lg = (int (lg_totalBytes lg + additional) \<le> lg_maxTotalBytes lg)"

definition addBytes :: "nat \<Rightarrow> egress_ledger \<Rightarrow> egress_ledger \<times> bool" where
  "addBytes k lg =
     (let lg' = lg\<lparr>lg_totalBytes := lg_totalBytes lg + k\<rparr> in (lg', int (lg_totalBytes lg') \<le> lg_maxTotalBytes lg'))"

section \<open>The guard\<close>

datatype egress_guard = DisabledGuard | PublicGuard egress_manifest

text \<open>\<open>None\<close>: the guard is not built. The manifest is what loading returns.\<close>

definition createRegistryEgressGuard :: "bool \<Rightarrow> egress_manifest option \<Rightarrow> bool \<Rightarrow> (egress_guard \<times> egress_ledger) option" where
  "createRegistryEgressGuard enabled loaded allowUnfrozen =
     (if \<not> enabled then Some (DisabledGuard, createRegistryEgressSessionLedger \<lparr>se_maxTotalBytes = 1, se_maxConcurrentRequests = 1\<rparr>)
      else case loaded of
             None \<Rightarrow> None
           | Some em \<Rightarrow>
               (if \<not> manifestAccepts em then None
                else if em_status em \<noteq> Frozen \<and> \<not> allowUnfrozen then None
                else Some (PublicGuard em, createRegistryEgressSessionLedger (em_perSession em))))"

fun guardAuthorize :: "url_parser \<Rightarrow> egress_guard \<Rightarrow> egress_request \<Rightarrow> authorized_request checked" where
  "guardAuthorize parse DisabledGuard rq = Inl EgressDisabled"
| "guardAuthorize parse (PublicGuard em) rq = authorizeValidatedRegistryEgressRequest parse em rq"

fun guardAuthorizeRedirect ::
  "url_parser \<Rightarrow> egress_guard \<Rightarrow> authorized_request \<Rightarrow> string \<Rightarrow> authorized_request checked" where
  "guardAuthorizeRedirect parse DisabledGuard current location = Inl EgressDisabled"
| "guardAuthorizeRedirect parse (PublicGuard em) current location = authorizeValidatedRegistryRedirect parse em current location"

section \<open>Exchanges\<close>

definition REDIRECT_STATUS_CODES :: "nat list" where
  "REDIRECT_STATUS_CODES = [301, 302, 303, 307, 308]"

definition MAX_REDIRECT_BODY_BYTES :: int where
  "MAX_REDIRECT_BODY_BYTES = 64 * 1024"

text \<open>What the upstream side of an exchange does: it waits for the head of a response, drains the body of
  a redirect (with the next request, the bytes so far and the cap), streams to the client, reads on
  without any use (\<open>resume()\<close>), or is gone.\<close>

datatype exchange_phase =
    AwaitResponse authorized_request
  | DrainRedirect authorized_request nat int
  | Streaming authorized_request nat
  | Discarding
  | NoUpstream

record exchange =
  ex_phase :: exchange_phase
  ex_consumed :: nat
  ex_settled :: bool
  ex_slot :: bool
  ex_status :: "nat option"
  ex_ended :: bool
  ex_responseHeaders :: outgoing_headers
  ex_delivered :: nat
  ex_received :: nat
  ex_requests :: "authorized_request list"
  ex_completed :: "(authorized_request \<times> nat) list"

datatype egress_event =
    ResponseHead nat request_headers
  | BodyChunk nat
  | BodyEnd
  | BodyError
  | UpstreamError
  | DeadlineFires
  | ClientCloses

record egress_env =
  ee_guard :: egress_guard
  ee_parse :: url_parser
  ee_number :: "string \<Rightarrow> rat option"

text \<open>A status while the response is open, else the connection is torn down.\<close>

definition rejectMediatedEgress :: "nat \<Rightarrow> exchange \<Rightarrow> exchange" where
  "rejectMediatedEgress status ex =
     (if ex_status ex = None then ex\<lparr>ex_status := Some status, ex_ended := True\<rparr> else ex\<lparr>ex_ended := True\<rparr>)"

definition fetchMediated :: "authorized_request \<Rightarrow> exchange \<Rightarrow> exchange" where
  "fetchMediated authorized ex = ex\<lparr>ex_phase := AwaitResponse authorized, ex_requests := ex_requests ex @ [authorized]\<rparr>"

definition startExchange :: "authorized_request \<Rightarrow> exchange" where
  "startExchange authorized =
     fetchMediated authorized
       \<lparr>ex_phase = NoUpstream, ex_consumed = 0, ex_settled = False, ex_slot = True, ex_status = None, ex_ended = False,
        ex_responseHeaders = [], ex_delivered = 0, ex_received = 0, ex_requests = [], ex_completed = []\<rparr>"

definition finalizeMediatedExchange :: "egress_ledger \<Rightarrow> exchange \<Rightarrow> egress_ledger \<times> exchange" where
  "finalizeMediatedExchange lg ex =
     (if ex_settled ex then (lg, ex)
      else (if ex_slot ex then releaseSlot lg else lg, ex\<lparr>ex_settled := True, ex_slot := False\<rparr>))"

definition declaredContentLength :: "(string \<Rightarrow> rat option) \<Rightarrow> request_headers \<Rightarrow> nat option" where
  "declaredContentLength number headers =
     (case firstHeader (headerOf headers ''content-length'') of
        None \<Rightarrow> None
      | Some raw \<Rightarrow>
          (case number raw of
             None \<Rightarrow> None
           | Some q \<Rightarrow> if q = of_int \<lfloor>q\<rfloor> \<and> 0 \<le> q \<and> \<lfloor>q\<rfloor> \<le> MAX_SAFE_INTEGER then Some (nat \<lfloor>q\<rfloor>) else None))"

definition followMediatedRedirect :: "egress_env \<Rightarrow> authorized_request \<Rightarrow> request_headers \<Rightarrow> exchange \<Rightarrow> exchange" where
  "followMediatedRedirect env authorized headers ex =
     (case firstHeader (headerOf headers ''location'') of
        None \<Rightarrow> rejectMediatedEgress 502 (ex\<lparr>ex_phase := NoUpstream\<rparr>)
      | Some location \<Rightarrow>
          (case guardAuthorizeRedirect (ee_parse env) (ee_guard env) authorized location of
             Inl e \<Rightarrow> rejectMediatedEgress 403 (ex\<lparr>ex_phase := NoUpstream\<rparr>)
           | Inr next_request \<Rightarrow>
               ex\<lparr>ex_phase := DrainRedirect next_request 0
                    (min MAX_REDIRECT_BODY_BYTES (au_maxBytes authorized - int (ex_consumed ex)))\<rparr>))"

definition streamMediatedToClient ::
  "egress_env \<Rightarrow> egress_ledger \<Rightarrow> authorized_request \<Rightarrow> nat \<Rightarrow> request_headers \<Rightarrow> exchange \<Rightarrow> exchange" where
  "streamMediatedToClient env lg authorized status headers ex =
     (if (case declaredContentLength (ee_number env) headers of
            None \<Rightarrow> False
          | Some declared \<Rightarrow> int (ex_consumed ex + declared) > au_maxBytes authorized \<or> \<not> wouldFit declared lg)
      then rejectMediatedEgress 502 (ex\<lparr>ex_phase := Discarding\<rparr>)
      else ex\<lparr>ex_status := Some status, ex_responseHeaders := sanitizeResponseHeaders headers, ex_phase := Streaming authorized 0\<rparr>)"

definition onMediatedResponse ::
  "egress_env \<Rightarrow> egress_ledger \<Rightarrow> authorized_request \<Rightarrow> nat \<Rightarrow> request_headers \<Rightarrow> exchange \<Rightarrow> exchange" where
  "onMediatedResponse env lg authorized status headers ex =
     (if ex_settled ex \<or> ex_ended ex then ex\<lparr>ex_phase := Discarding\<rparr>
      else if status \<in> set REDIRECT_STATUS_CODES then followMediatedRedirect env authorized headers ex
      else streamMediatedToClient env lg authorized status headers ex)"

text \<open>A chunk of a redirect body: it counts against the cap and the session.\<close>

definition drainChunk ::
  "authorized_request \<Rightarrow> nat \<Rightarrow> int \<Rightarrow> nat \<Rightarrow> egress_ledger \<Rightarrow> exchange \<Rightarrow> egress_ledger \<times> exchange" where
  "drainChunk next_request drained bodyCap n lg ex =
     (if int (drained + n) > bodyCap then (lg, rejectMediatedEgress 502 (ex\<lparr>ex_phase := NoUpstream\<rparr>))
      else case addBytes n lg of
             (lg', fits) \<Rightarrow>
               (lg', if fits then ex\<lparr>ex_phase := DrainRedirect next_request (drained + n) bodyCap\<rparr>
                     else rejectMediatedEgress 502 (ex\<lparr>ex_phase := NoUpstream\<rparr>)))"

text \<open>\<open>createMediatedByteCeiling\<close>; its error tears both sides down.\<close>

definition ceilingChunk ::
  "authorized_request \<Rightarrow> nat \<Rightarrow> nat \<Rightarrow> egress_ledger \<Rightarrow> exchange \<Rightarrow> egress_ledger \<times> exchange" where
  "ceilingChunk authorized sofar n lg ex =
     (if int (ex_consumed ex + (sofar + n)) > au_maxBytes authorized
      then (lg, ex\<lparr>ex_phase := NoUpstream, ex_ended := True\<rparr>)
      else case addBytes n lg of
             (lg', fits) \<Rightarrow>
               (lg', if fits then ex\<lparr>ex_phase := Streaming authorized (sofar + n), ex_delivered := ex_delivered ex + n\<rparr>
                     else ex\<lparr>ex_phase := NoUpstream, ex_ended := True\<rparr>))"

definition onChunk :: "nat \<Rightarrow> egress_ledger \<Rightarrow> exchange \<Rightarrow> egress_ledger \<times> exchange" where
  "onChunk n lg ex =
     (let ex' = ex\<lparr>ex_received := ex_received ex + n\<rparr>
      in case ex_phase ex of
           DrainRedirect next_request drained bodyCap \<Rightarrow> drainChunk next_request drained bodyCap n lg ex'
         | Streaming authorized sofar \<Rightarrow> ceilingChunk authorized sofar n lg ex'
         | Discarding \<Rightarrow> (lg, ex')
         | _ \<Rightarrow> (lg, ex))"

definition onBodyEnd :: "exchange \<Rightarrow> exchange" where
  "onBodyEnd ex =
     (case ex_phase ex of
        DrainRedirect next_request drained bodyCap \<Rightarrow>
          (if ex_settled ex then ex\<lparr>ex_phase := NoUpstream\<rparr>
           else fetchMediated next_request (ex\<lparr>ex_consumed := ex_consumed ex + drained\<rparr>))
      | Streaming authorized sofar \<Rightarrow>
          ex\<lparr>ex_phase := NoUpstream, ex_ended := True, ex_completed := ex_completed ex @ [(authorized, sofar)]\<rparr>
      | Discarding \<Rightarrow> ex\<lparr>ex_phase := NoUpstream\<rparr>
      | _ \<Rightarrow> ex)"

definition onBodyError :: "exchange \<Rightarrow> exchange" where
  "onBodyError ex =
     (case ex_phase ex of
        DrainRedirect next_request drained bodyCap \<Rightarrow> rejectMediatedEgress 502 (ex\<lparr>ex_phase := NoUpstream\<rparr>)
      | Streaming authorized sofar \<Rightarrow> ex\<lparr>ex_phase := NoUpstream, ex_ended := True\<rparr>
      | Discarding \<Rightarrow> ex\<lparr>ex_phase := NoUpstream\<rparr>
      | _ \<Rightarrow> ex)"

text \<open>The deadline is armed until the exchange is settled; it destroys the upstream request.\<close>

definition onDeadline :: "exchange \<Rightarrow> exchange" where
  "onDeadline ex = (if ex_settled ex then ex else rejectMediatedEgress 504 (ex\<lparr>ex_phase := NoUpstream\<rparr>))"

text \<open>The connection of the client closes: the pipeline of a stream is torn down, and the exchange settles.\<close>

definition onClientClose :: "egress_ledger \<Rightarrow> exchange \<Rightarrow> egress_ledger \<times> exchange" where
  "onClientClose lg ex =
     finalizeMediatedExchange lg
       (ex\<lparr>ex_ended := True, ex_phase := (case ex_phase ex of Streaming _ _ \<Rightarrow> NoUpstream | p \<Rightarrow> p)\<rparr>)"

fun exchangeStep :: "egress_env \<Rightarrow> egress_event \<Rightarrow> egress_ledger \<Rightarrow> exchange \<Rightarrow> egress_ledger \<times> exchange" where
  "exchangeStep env (ResponseHead status headers) lg ex =
     (case ex_phase ex of AwaitResponse authorized \<Rightarrow> (lg, onMediatedResponse env lg authorized status headers ex) | _ \<Rightarrow> (lg, ex))"
| "exchangeStep env (BodyChunk n) lg ex = onChunk n lg ex"
| "exchangeStep env BodyEnd lg ex = (lg, onBodyEnd ex)"
| "exchangeStep env BodyError lg ex = (lg, onBodyError ex)"
| "exchangeStep env UpstreamError lg ex =
     (case ex_phase ex of AwaitResponse _ \<Rightarrow> (lg, rejectMediatedEgress 502 (ex\<lparr>ex_phase := NoUpstream\<rparr>)) | _ \<Rightarrow> (lg, ex))"
| "exchangeStep env DeadlineFires lg ex = (lg, onDeadline ex)"
| "exchangeStep env ClientCloses lg ex = onClientClose lg ex"

section \<open>Sessions\<close>

text \<open>The exchanges by number, and the statuses of the requests that got none.\<close>

record egress_session =
  es_ledger :: egress_ledger
  es_exchanges :: "exchange list"
  es_refused :: "nat list"

text \<open>An inbound request, with whether the transport screens addresses locally.\<close>

datatype egress_session_event = Inbound egress_request bool | Upstream nat egress_event

definition handleRegistryEgressRequest :: "egress_env \<Rightarrow> egress_request \<Rightarrow> bool \<Rightarrow> egress_session \<Rightarrow> egress_session" where
  "handleRegistryEgressRequest env rq localResolver es =
     (let lg = recordAttempt (es_ledger es);
          refuse = (\<lambda>status. es\<lparr>es_ledger := lg, es_refused := es_refused es @ [status]\<rparr>)
      in case guardAuthorize (ee_parse env) (ee_guard env) rq of
           Inl e \<Rightarrow> refuse 403
         | Inr authorized \<Rightarrow>
             (if \<not> localResolver then refuse 502
              else case acquireSlot lg of
                     None \<Rightarrow> refuse 503
                   | Some lg' \<Rightarrow> es\<lparr>es_ledger := lg', es_exchanges := es_exchanges es @ [startExchange authorized]\<rparr>))"

fun egressSessionStep :: "egress_env \<Rightarrow> egress_session \<Rightarrow> egress_session_event \<Rightarrow> egress_session" where
  "egressSessionStep env es (Inbound rq localResolver) = handleRegistryEgressRequest env rq localResolver es"
| "egressSessionStep env es (Upstream i ev) =
     (if i < length (es_exchanges es)
      then case exchangeStep env ev (es_ledger es) (es_exchanges es ! i) of
             (lg, ex) \<Rightarrow> es\<lparr>es_ledger := lg, es_exchanges := (es_exchanges es)[i := ex]\<rparr>
      else es)"

definition newSession :: "session_limits \<Rightarrow> egress_session" where
  "newSession limits = \<lparr>es_ledger = createRegistryEgressSessionLedger limits, es_exchanges = [], es_refused = []\<rparr>"

end
