(* ===== verification/Registry_Egress_Props.thy ===== *)
theory Registry_Egress_Props
  imports Registry_Egress
begin

text \<open>
  Properties of the registry egress: an authorised request stays with one listed origin and one pull
  operation, only reviewed headers and one bearer token leave, a pull names the repository and the
  reference of its path, and a chain of redirects is short, over HTTPS, to names and without headers.
\<close>

lemma andThen_Inr [simp]: "andThen r f = Inr y \<longleftrightarrow> (\<exists>x. r = Inr x \<and> f x = Inr y)"
  by (cases r) (simp_all add: andThen_def)

lemma require_Inr [simp]: "require ok e r = Inr y \<longleftrightarrow> ok \<and> r = Inr y"
  by (simp add: require_def)

section \<open>Origins\<close>

lemma matchOrigin_some:
  assumes "matchOrigin em url = Some ro"
  shows "ro \<in> set (em_origins em)" "ds_protocol (ro_destination ro) = wu_protocol url"
    "ds_hostname (ro_destination ro) = toLowerCase (wu_hostname url)" "ds_port (ro_destination ro) = defaultPort url"
  using assms by (auto simp: matchOrigin_def find_Some_iff)

lemma parseRegistryUrl_some:
  "parseRegistryUrl parse raw = Inr url \<longleftrightarrow>
     parse None raw = Some url \<and> wu_protocol url = ''https:'' \<and> \<not> hasCredentials url \<and> \<not> hasEncodedSeparator (wu_pathname url)"
  by (auto simp: parseRegistryUrl_def split: option.split)

lemma resolveRedirectUrl_some:
  "resolveRedirectUrl parse current location = Inr url \<Longrightarrow>
     wu_protocol url = ''https:'' \<and> \<not> hasCredentials url \<and> \<not> hasEncodedSeparator (wu_pathname url)"
  by (auto simp: resolveRedirectUrl_def Let_def split: option.splits if_splits)

lemma classify_method:
  "classifyRegistryRequest ro m url = Inr (meth, pc) \<Longrightarrow>
     meth = m \<and> (m = ''GET'' \<or> m = ''HEAD'') \<and> classifyPull ro url = Inr pc"
  by (auto simp: classifyRegistryRequest_def Let_def split: if_splits)

text \<open>An authorised request, taken apart.\<close>

lemma authorize_parts:
  assumes "authorizeValidatedRegistryEgressRequest parse em rq = Inr a"
  obtains ro url pc where
    "parseRegistryUrl parse (eq_url rq) = Inr url" "matchOrigin em url = Some ro"
    "classifyRegistryRequest ro (eq_method rq) url = Inr (au_method a, pc)"
    "pc_operation pc \<in> set (ro_operations ro)" "sanitizeHeaders ro (eq_headers rq) = Inr (au_headers a)"
    "au_destination a = ro_destination ro" "au_operation a = pc_operation pc" "au_path a = wu_pathname url @ wu_search url"
    "au_repository a = pc_repository pc" "au_reference a = pc_reference pc" "au_requestedDigest a = pc_digest pc"
    "au_maxBytes a = ro_maxBytes ro" "au_maxRedirectHops a = ro_maxRedirectHops ro" "au_redirectHop a = 0"
  using assms
  by (auto simp: authorizeValidatedRegistryEgressRequest_def split: option.splits if_splits)

text \<open>A request the policy authorises goes to exactly one origin of the manifest, over HTTPS, with
  an operation the origin lists and a reading method; the path holds no encoded separator.\<close>

theorem authorised_request_confined:
  assumes "authorizeValidatedRegistryEgressRequest parse em rq = Inr a"
  shows "\<exists>ro url. ro \<in> set (em_origins em) \<and> parse None (eq_url rq) = Some url \<and> wu_protocol url = ''https:'' \<and>
    au_destination a = ro_destination ro \<and> ds_hostname (ro_destination ro) = toLowerCase (wu_hostname url) \<and>
    ds_port (ro_destination ro) = defaultPort url \<and> au_operation a \<in> set (ro_operations ro) \<and>
    (au_method a = ''GET'' \<or> au_method a = ''HEAD'') \<and> au_path a = wu_pathname url @ wu_search url \<and>
    \<not> hasEncodedSeparator (wu_pathname url)"
proof (rule authorize_parts [OF assms])
  fix ro url pc
  assume parts: "parseRegistryUrl parse (eq_url rq) = Inr url" "matchOrigin em url = Some ro"
    "classifyRegistryRequest ro (eq_method rq) url = Inr (au_method a, pc)" "pc_operation pc \<in> set (ro_operations ro)"
    "au_destination a = ro_destination ro" "au_operation a = pc_operation pc" "au_path a = wu_pathname url @ wu_search url"
  show ?thesis
    by (rule exI [of _ ro], rule exI [of _ url])
      (use parts matchOrigin_some [OF parts(2)] classify_method [OF parts(3)] in \<open>simp add: parseRegistryUrl_some\<close>)
qed

section \<open>Headers\<close>

text \<open>What may stand in the headers of a request to an origin.\<close>

definition headerAdmitted :: "registry_origin \<Rightarrow> string list \<Rightarrow> string \<times> header_value \<Rightarrow> bool" where
  "headerAdmitted ro dropped h =
     (case h of (name, value) \<Rightarrow>
        isHeaderName name \<and>
        (if name = ''authorization'' then (\<exists>t. value = One t \<and> isBearerToken t)
         else name \<in> set (ro_allow ro) \<and> name \<notin> set dropped \<and> name \<notin> set EGRESS_FORBIDDEN_CREDENTIAL_HEADERS \<and>
              \<not> list_ex hasLineBreak (headerValues value)))"

lemma admitBearer_some: "admitBearerAuthorization val = Inr v \<Longrightarrow> \<exists>t. v = One t \<and> isBearerToken t"
  by (cases val) (auto split: if_splits)

lemma sanitizeHeader_admitted:
  assumes "sanitizeHeader ro dropped rawName rawValue = Inr (Some v)"
  shows "headerAdmitted ro dropped (toLowerCase rawName, v)"
proof (cases rawValue)
  case None
  then show ?thesis using assms by (simp add: sanitizeHeader_def Let_def split: if_splits)
next
  case (Some val)
  note d = assms [unfolded sanitizeHeader_def Let_def Some option.case]
  show ?thesis
  proof (cases "toLowerCase rawName = ''authorization''")
    case True
    then show ?thesis using d admitBearer_some by (auto simp: headerAdmitted_def split: if_splits)
  next
    case False
    then show ?thesis using d by (auto simp: headerAdmitted_def split: if_splits)
  qed
qed

lemma set_setProp_cases: "x \<in> set (setProp ps k v) \<Longrightarrow> x = (k, v) \<or> x \<in> set ps"
  by (induction ps k v rule: setProp.induct) (auto split: if_splits)

lemma sanitizeEntries_admitted:
  "sanitizeEntries ro dropped hs result = Inr out \<Longrightarrow> list_all (headerAdmitted ro dropped) result \<Longrightarrow>
     list_all (headerAdmitted ro dropped) out"
proof (induction ro dropped hs result rule: sanitizeEntries.induct)
  case (2 ro dropped rawName rawValue hs result)
  from 2(2) obtain v where v: "sanitizeHeader ro dropped rawName rawValue = Inr v"
      "sanitizeEntries ro dropped hs (case v of None \<Rightarrow> result | Some value \<Rightarrow> setProp result (toLowerCase rawName) value) = Inr out"
    by auto
  have "list_all (headerAdmitted ro dropped) (case v of None \<Rightarrow> result | Some value \<Rightarrow> setProp result (toLowerCase rawName) value)"
    using 2(3) sanitizeHeader_admitted v(1) set_setProp_cases
    by (cases v) (fastforce simp: list_all_iff)+
  from 2(1) [OF v(2) this] show ?case .
qed simp

text \<open>The headers that leave with an authorised request are a bearer token or on the allow list of
  the origin; no other credential, no connection header and no line break leaves.\<close>

theorem outgoing_headers_admitted:
  assumes "authorizeValidatedRegistryEgressRequest parse em rq = Inr a" "h \<in> set (au_headers a)"
  shows "\<exists>ro \<in> set (em_origins em). au_destination a = ro_destination ro \<and>
    headerAdmitted ro (EGRESS_DROPPED_REQUEST_HEADERS @ connectionNominatedHeaderNames (headerOf (eq_headers rq) ''connection'')) h"
proof (rule authorize_parts [OF assms(1)])
  fix ro url pc
  assume parts: "matchOrigin em url = Some ro" "sanitizeHeaders ro (eq_headers rq) = Inr (au_headers a)"
    "au_destination a = ro_destination ro"
  have "list_all (headerAdmitted ro (EGRESS_DROPPED_REQUEST_HEADERS @
      connectionNominatedHeaderNames (headerOf (eq_headers rq) ''connection''))) (au_headers a)"
    using sanitizeEntries_admitted [OF parts(2) [unfolded sanitizeHeaders_def]] by simp
  then show ?thesis using matchOrigin_some(1) [OF parts(1)] parts(3) assms(2) by (auto simp: list_all_iff)
qed

section \<open>Pulls\<close>

lemma v2Middle_some:
  assumes "v2Middle ending pathname = Some mid"
  shows "pathname = ''/v2/'' @ mid @ ending"
proof -
  have s: "prefix ''/v2/'' pathname" "suffix ending pathname" "length pathname > 4 + length ending"
      "mid = drop 4 (take (length pathname - length ending) pathname)"
    using assms by (auto simp: v2Middle_def Let_def dropEnd_def split: if_splits)
  obtain front where f: "pathname = front @ ending" using s(2) by (auto simp: suffix_def)
  have len: "length ''/v2/'' \<le> length front" using s(3) f by simp
  have "prefix ''/v2/'' front" using s(1) f len prefix_length_prefix [of "''/v2/''" pathname front] by (auto simp: prefix_def)
  then obtain m where m: "front = ''/v2/'' @ m" by (auto simp: prefix_def)
  have "dropEnd (length ending) pathname = front" using f by (simp add: dropEnd_def)
  then show ?thesis using s(4) f m by (simp add: dropEnd_def)
qed

lemma joinWith_snoc: "xs \<noteq> [] \<Longrightarrow> joinWith sep (xs @ [y]) = joinWith sep xs @ sep @ y"
  by (induction sep xs rule: joinWith.induct) auto

lemma last_splitOn:
  "last (splitOn c s) = s \<or> s = dropEnd (length (last (splitOn c s)) + 1) s @ c # last (splitOn c s)"
proof -
  let ?l = "last (splitOn c s)"
  have s: "joinWith [c] (butlast (splitOn c s) @ [?l]) = s" by simp
  show ?thesis
  proof (cases "butlast (splitOn c s) = []")
    case True
    then show ?thesis using s by simp
  next
    case False
    then have s': "s = joinWith [c] (butlast (splitOn c s)) @ c # ?l" using joinWith_snoc [OF False, of "[c]" ?l] s by (metis append_Cons append_Nil)
    have "dropEnd (length ?l + 1) (front @ c # ?l) = front" for front by (simp add: dropEnd_def)
    from this [of "joinWith [c] (butlast (splitOn c s))", folded s'] show ?thesis using s' by simp
  qed
qed

lemma v2Reference_some:
  assumes "v2Reference kind pathname = Some (name, reference)" "CHR ''/'' \<notin> set kind"
  shows "pathname = ''/v2/'' @ name @ ''/'' @ kind @ ''/'' @ reference"
proof -
  let ?front = "dropEnd (length reference + 1) pathname"
  have r: "reference = last (splitOn (CHR ''/'') pathname)" "v2Middle (''/'' @ kind) ?front = Some name"
    using assms(1) by (auto simp: v2Reference_def Let_def split: if_splits)
  note front = v2Middle_some [OF r(2)]
  have "reference \<noteq> pathname"
  proof
    assume "reference = pathname"
    then have "?front = []" by (simp add: dropEnd_def)
    then show False using front by simp
  qed
  then have "pathname = ?front @ CHR ''/'' # reference" using last_splitOn [of "CHR ''/''" pathname] r(1) by metis
  then show ?thesis using front by (metis append_Cons append_assoc self_append_conv2)
qed

lemma parseOciDigest_some: "parseOciDigest reference = Some hex \<Longrightarrow> reference = SHA256_PREFIX @ hex \<and> length hex = 64"
  by (auto simp: parseOciDigest_def SHA256_PREFIX_def Let_def prefix_def split: if_splits)

definition operationText :: "pull_operation \<Rightarrow> string" where
  "operationText op = (case op of ManifestPull \<Rightarrow> ''manifests'' | BlobPull \<Rightarrow> ''blobs'' | _ \<Rightarrow> [])"

lemma classifyPull_names:
  assumes "classifyPull ro url = Inr pc" "pc_operation pc \<in> set CONTENT_OPERATIONS"
  obtains repository reference raw where
    "pc_repository pc = Some repository" "pc_reference pc = Some reference" "decodeURIComponent raw = Some reference"
    "wu_pathname url = ''/v2/'' @ repository @ ''/'' @ operationText (pc_operation pc) @ ''/'' @ raw" "wu_search url = []"
    "isOciName repository" "pc_digest pc = parseOciDigest reference"
    "pc_operation pc = BlobPull \<Longrightarrow> parseOciDigest reference \<noteq> None"
proof -
  have tok: "classifyTokenIfMatched ro url = None"
    using assms by (auto simp: classifyPull_def classifyTokenIfMatched_def CONTENT_OPERATIONS_def split: if_splits)
  define p where "p = wu_pathname url"
  note c = assms(1) [unfolded classifyPull_def tok option.case Let_def, folded p_def]
  have not_version: "\<not> (p = ''/v2'' \<or> p = ''/v2/'')"
    using c assms(2) by (auto simp: requireNoQuery_def CONTENT_OPERATIONS_def)
  have rest: "(case v2Reference ''manifests'' p of
                     Some (name, raw) \<Rightarrow> andThen (decodedReference raw) (classifyManifest url name)
                   | None \<Rightarrow>
                       (case v2Reference ''blobs'' p of
                          Some (name, raw) \<Rightarrow> andThen (decodedReference raw) (classifyBlob url name)
                        | None \<Rightarrow> Inl (RefusedOperation UnknownOperation))) = Inr pc"
    using c not_version by (simp only: if_False split: if_splits) simp_all
  show thesis
  proof (cases "v2Reference ''manifests'' p")
    case (Some nr)
    obtain name raw where nr: "nr = (name, raw)" by (cases nr)
    obtain reference where r: "decodeURIComponent raw = Some reference" "classifyManifest url name reference = Inr pc"
      using rest Some nr by (auto simp: decodedReference_def split: option.splits)
    have path: "p = ''/v2/'' @ name @ ''/'' @ ''manifests'' @ ''/'' @ raw" by (rule v2Reference_some) (use Some nr in simp_all)
    show thesis
      by (rule that [of name reference raw])
        (use r path in \<open>auto simp: classifyManifest_def requireNoQuery_def validateRepository_def operationText_def p_def split: option.splits if_splits\<close>)
  next
    case None
    then obtain name raw where nr: "v2Reference ''blobs'' p = Some (name, raw)" using rest by (auto split: option.splits)
    obtain reference where r: "decodeURIComponent raw = Some reference" "classifyBlob url name reference = Inr pc"
      using rest None nr by (auto simp: decodedReference_def split: option.splits)
    have path: "p = ''/v2/'' @ name @ ''/'' @ ''blobs'' @ ''/'' @ raw" by (rule v2Reference_some [OF nr]) simp
    show thesis
      by (rule that [of name reference raw])
        (use r path in \<open>auto simp: classifyBlob_def requireNoQuery_def validateRepository_def operationText_def p_def split: option.splits if_splits\<close>)
  qed
qed

text \<open>C28: The repository and the reference recorded for a content pull are the ones its path names, the
  path has no query, and a blob is named by a digest of 64 digits.\<close>

theorem pull_names_its_path:
  assumes "authorizeValidatedRegistryEgressRequest parse em rq = Inr a" "au_operation a \<in> set CONTENT_OPERATIONS"
  shows "\<exists>repository reference raw. au_repository a = Some repository \<and> au_reference a = Some reference \<and>
    decodeURIComponent raw = Some reference \<and> isOciName repository \<and>
    au_path a = ''/v2/'' @ repository @ ''/'' @ operationText (au_operation a) @ ''/'' @ raw \<and>
    (au_operation a = BlobPull \<longrightarrow> (\<exists>hex. reference = SHA256_PREFIX @ hex \<and> length hex = 64 \<and> au_requestedDigest a = Some hex))"
proof (rule authorize_parts [OF assms(1)])
  fix ro url pc
  assume parts: "classifyRegistryRequest ro (eq_method rq) url = Inr (au_method a, pc)"
    and fields: "au_operation a = pc_operation pc" "au_path a = wu_pathname url @ wu_search url" "au_repository a = pc_repository pc"
      "au_reference a = pc_reference pc" "au_requestedDigest a = pc_digest pc"
  obtain repository reference raw where n:
    "pc_repository pc = Some repository" "pc_reference pc = Some reference" "decodeURIComponent raw = Some reference"
    "wu_pathname url = ''/v2/'' @ repository @ ''/'' @ operationText (pc_operation pc) @ ''/'' @ raw" "wu_search url = []"
    "isOciName repository" "pc_digest pc = parseOciDigest reference"
    "pc_operation pc = BlobPull \<Longrightarrow> parseOciDigest reference \<noteq> None"
    using classifyPull_names classify_method [OF parts] assms(2) fields(1) by metis
  have "\<exists>hex. reference = SHA256_PREFIX @ hex \<and> length hex = 64 \<and> pc_digest pc = Some hex" if "pc_operation pc = BlobPull"
    using n(7) n(8) [OF that] parseOciDigest_some by auto
  then show ?thesis using n fields by auto
qed

section \<open>Redirects\<close>

text \<open>The requests a run may send for one client request: the authorised one and what redirects lead to.\<close>

inductive redirectChain :: "url_parser \<Rightarrow> egress_manifest \<Rightarrow> egress_request \<Rightarrow> authorized_request \<Rightarrow> bool"
  for parse :: url_parser and em :: egress_manifest and rq :: egress_request
where
  initial: "authorizeValidatedRegistryEgressRequest parse em rq = Inr a \<Longrightarrow> redirectChain parse em rq a"
| follow: "redirectChain parse em rq a \<Longrightarrow> authorizeValidatedRegistryRedirect parse em a location = Inr b \<Longrightarrow>
    redirectChain parse em rq b"

lemma redirect_parts:
  assumes "authorizeValidatedRegistryRedirect parse em a location = Inr b"
  obtains target where "au_operation a \<in> set CONTENT_OPERATIONS" "au_redirectHop a + 1 \<le> au_maxRedirectHops a"
    "resolveRedirectUrl parse a location = Inr target"
    "\<not> isIPv4 (stripBrackets (wu_hostname target))" "\<not> isIPv6 (stripBrackets (wu_hostname target))"
    "au_headers b = []" "au_redirectHop b = au_redirectHop a + 1" "au_method b = au_method a"
    "ds_hostname (au_destination b) = toLowerCase (wu_hostname target)" "ds_protocol (au_destination b) = ''https:''"
    "(\<exists>ro \<in> set (em_origins em). au_destination b = ro_destination ro \<and> au_operation b \<in> set (ro_operations ro) \<and>
        au_maxRedirectHops b = ro_maxRedirectHops ro \<and> au_maxBytes b = ro_maxBytes ro) \<or>
     (au_operation b = au_operation a \<and> au_maxRedirectHops b = au_maxRedirectHops a \<and> au_maxBytes b = au_maxBytes a)"
proof -
  from assms obtain target where t: "au_operation a \<in> set CONTENT_OPERATIONS" "au_redirectHop a + 1 \<le> au_maxRedirectHops a"
    "resolveRedirectUrl parse a location = Inr target"
    "\<not> isIPv4 (stripBrackets (wu_hostname target))" "\<not> isIPv6 (stripBrackets (wu_hostname target))"
    by (auto simp: authorizeValidatedRegistryRedirect_def Let_def split: if_splits)
  have https: "wu_protocol target = ''https:''" using resolveRedirectUrl_some [OF t(3)] by blast
  have r: "(case matchOrigin em target of
          Some ro \<Rightarrow>
            andThen (classifyRegistryRequest ro (au_method a) target) (\<lambda>(meth, pc).
              if pc_operation pc \<notin> set (ro_operations ro) then Inl (OperationNotAuthorized (ro_id ro) (pc_operation pc))
              else Inr (a\<lparr>au_originId := ro_id ro, au_operation := pc_operation pc, au_destination := ro_destination ro,
                au_path := wu_pathname target @ wu_search target, au_headers := [], au_repository := pc_repository pc,
                au_reference := pc_reference pc, au_requestedDigest := pc_digest pc, au_maxBytes := ro_maxBytes ro,
                au_maxDurationMs := ro_maxDurationMs ro, au_maxRedirectHops := ro_maxRedirectHops ro, au_redirectHop := au_redirectHop a + 1\<rparr>))
        | None \<Rightarrow>
            andThen (redirectPort target) (\<lambda>port.
              Inr (a\<lparr>au_originId := au_originId a @ '':cdn'',
                au_destination := \<lparr>ds_protocol = ''https:'', ds_hostname = toLowerCase (wu_hostname target), ds_port = port\<rparr>,
                au_path := wu_pathname target @ wu_search target, au_headers := [], au_redirectHop := au_redirectHop a + 1\<rparr>))) = Inr b"
    using assms t by (simp add: authorizeValidatedRegistryRedirect_def Let_def)
  show thesis
  proof (cases "matchOrigin em target")
    case None
    show thesis by (rule that [OF t]) (use r None in auto)
  next
    case (Some ro)
    note m = matchOrigin_some [OF Some]
    show thesis by (rule that [OF t]) (use r Some m https in \<open>auto split: if_splits\<close>)
  qed
qed

definition listedDestination :: "egress_manifest \<Rightarrow> authorized_request \<Rightarrow> bool" where
  "listedDestination em a = (\<exists>ro \<in> set (em_origins em). au_destination a = ro_destination ro \<and> au_operation a \<in> set (ro_operations ro))"

definition namedWithoutHeaders :: "authorized_request \<Rightarrow> bool" where
  "namedWithoutHeaders a = (au_headers a = [] \<and>
     (\<exists>h. ds_hostname (au_destination a) = toLowerCase h \<and> \<not> isIPv4 (stripBrackets h) \<and> \<not> isIPv6 (stripBrackets h)))"

lemma origin_limits:
  assumes "manifestAccepts em" "ro \<in> set (em_origins em)"
  shows "ro_maxRedirectHops ro \<le> 5" "ds_protocol (ro_destination ro) = ''https:''"
  using assms by (auto simp: manifestAccepts_def originAccepts_def destinationAccepts_def list_all_iff between_def)

lemma redirect_chain_invariant:
  assumes "redirectChain parse em rq a" "manifestAccepts em"
  shows "0 \<le> au_redirectHop a \<and> au_redirectHop a \<le> 5 \<and> ds_protocol (au_destination a) = ''https:'' \<and>
    (au_method a = ''GET'' \<or> au_method a = ''HEAD'') \<and> (au_redirectHop a = 0 \<or> namedWithoutHeaders a) \<and>
    (listedDestination em a \<or> 0 < au_redirectHop a \<and> au_operation a \<in> set CONTENT_OPERATIONS)"
proof -
  have "au_maxRedirectHops a \<le> 5 \<and> 0 \<le> au_redirectHop a \<and> au_redirectHop a \<le> 5 \<and> ds_protocol (au_destination a) = ''https:'' \<and>
    (au_method a = ''GET'' \<or> au_method a = ''HEAD'') \<and> (au_redirectHop a = 0 \<or> namedWithoutHeaders a) \<and>
    (listedDestination em a \<or> 0 < au_redirectHop a \<and> au_operation a \<in> set CONTENT_OPERATIONS)"
    using assms(1)
  proof (induction rule: redirectChain.induct)
    case (initial a)
    show ?case
    proof (rule authorize_parts [OF initial])
      fix ro url pc
      assume parts: "matchOrigin em url = Some ro" "classifyRegistryRequest ro (eq_method rq) url = Inr (au_method a, pc)"
        "pc_operation pc \<in> set (ro_operations ro)" "au_destination a = ro_destination ro" "au_operation a = pc_operation pc"
        "au_maxRedirectHops a = ro_maxRedirectHops ro" "au_redirectHop a = 0"
      show ?case using parts classify_method [OF parts(2)] matchOrigin_some(1) [OF parts(1)]
          origin_limits [OF assms(2) matchOrigin_some(1) [OF parts(1)]]
        by (auto simp: listedDestination_def)
    qed
  next
    case (follow a location b)
    show ?case
    proof (rule redirect_parts [OF follow.hyps(2)])
      fix target
      assume t: "au_operation a \<in> set CONTENT_OPERATIONS" "au_redirectHop a + 1 \<le> au_maxRedirectHops a"
        "\<not> isIPv4 (stripBrackets (wu_hostname target))" "\<not> isIPv6 (stripBrackets (wu_hostname target))"
        "au_headers b = []" "au_redirectHop b = au_redirectHop a + 1" "au_method b = au_method a"
        "ds_hostname (au_destination b) = toLowerCase (wu_hostname target)" "ds_protocol (au_destination b) = ''https:''"
        "(\<exists>ro \<in> set (em_origins em). au_destination b = ro_destination ro \<and> au_operation b \<in> set (ro_operations ro) \<and>
            au_maxRedirectHops b = ro_maxRedirectHops ro \<and> au_maxBytes b = ro_maxBytes ro) \<or>
         (au_operation b = au_operation a \<and> au_maxRedirectHops b = au_maxRedirectHops a \<and> au_maxBytes b = au_maxBytes a)"
      have named: "namedWithoutHeaders b" using t(3-5,8) by (auto simp: namedWithoutHeaders_def)
      have "au_maxRedirectHops b \<le> 5 \<and> (listedDestination em b \<or> au_operation b \<in> set CONTENT_OPERATIONS)"
        using t(1,10) follow.IH origin_limits(1) [OF assms(2)] by (auto simp: listedDestination_def)
      then show ?case using t(2,6,7,9) named follow.IH by simp
    qed
  qed
  then show ?thesis by blast
qed

text \<open>C27: Every request a chain of redirects sends is at most the fifth after the authorised one, over
  HTTPS and with a reading method; after the first redirect no header goes along and the host is a
  name, not an address; a host outside the manifest is only reached by a content pull.\<close>

theorem redirect_chain_confined:
  assumes "redirectChain parse em rq a" "manifestAccepts em"
  shows "0 \<le> au_redirectHop a \<and> au_redirectHop a \<le> 5 \<and> ds_protocol (au_destination a) = ''https:'' \<and>
    (au_method a = ''GET'' \<or> au_method a = ''HEAD'') \<and> (au_redirectHop a = 0 \<or> namedWithoutHeaders a) \<and>
    (listedDestination em a \<or> 0 < au_redirectHop a \<and> au_operation a \<in> set CONTENT_OPERATIONS)"
  by (rule redirect_chain_invariant [OF assms])

section \<open>An example\<close>

definition egressOrigin :: registry_origin where
  "egressOrigin = \<lparr>ro_id = ''reg'', ro_destination = \<lparr>ds_protocol = ''https:'', ds_hostname = ''r.io'', ds_port = 443\<rparr>,
     ro_operations = [ManifestPull], ro_tokenPaths = None, ro_maxBytes = 100, ro_maxDurationMs = 100, ro_maxRedirectHops = 2,
     ro_allow = [''accept'']\<rparr>"

definition egressDemo :: egress_manifest where
  "egressDemo = \<lparr>em_schemaVersion = 1, em_policyId = ''pol'', em_status = Frozen, em_origins = [egressOrigin],
     em_perSession = \<lparr>se_maxTotalBytes = 100, se_maxConcurrentRequests = 2\<rparr>, em_rejectedOperations = [Push]\<rparr>"

definition egressParse :: url_parser where
  "egressParse base text = Some \<lparr>wu_protocol = ''https:'', wu_username = [], wu_password = [],
     wu_hostname = (if base = None then ''r.io'' else ''cdn.io''), wu_port = None, wu_pathname = ''/v2/a/manifests/t'',
     wu_search = [], wu_hash = []\<rparr>"

definition egressRequest :: egress_request where
  "egressRequest = \<lparr>eq_method = ''GET'', eq_url = ''https://r.io/v2/a/manifests/t'', eq_headers = [(''accept'', Some (One ''x''))]\<rparr>"

definition egressAuthorized :: authorized_request where
  "egressAuthorized = \<lparr>au_policyId = ''pol'', au_originId = ''reg'', au_operation = ManifestPull,
     au_destination = \<lparr>ds_protocol = ''https:'', ds_hostname = ''r.io'', ds_port = 443\<rparr>, au_method = ''GET'',
     au_path = ''/v2/a/manifests/t'', au_headers = [(''accept'', One ''x'')], au_repository = Some ''a'', au_reference = Some ''t'',
     au_requestedDigest = None, au_maxBytes = 100, au_maxDurationMs = 100, au_maxRedirectHops = 2, au_redirectHop = 0\<rparr>"

lemma egress_demo: "authorizeValidatedRegistryEgressRequest egressParse egressDemo egressRequest = Inr egressAuthorized"
  by code_simp

lemma egress_demo_accepted: "manifestAccepts egressDemo"
  by code_simp

lemma authorised_request_confined_witness:
  "\<exists>ro url. ro \<in> set (em_origins egressDemo) \<and> egressParse None (eq_url egressRequest) = Some url \<and> wu_protocol url = ''https:'' \<and>
    au_destination egressAuthorized = ro_destination ro \<and> ds_hostname (ro_destination ro) = toLowerCase (wu_hostname url) \<and>
    ds_port (ro_destination ro) = defaultPort url \<and> au_operation egressAuthorized \<in> set (ro_operations ro) \<and>
    (au_method egressAuthorized = ''GET'' \<or> au_method egressAuthorized = ''HEAD'') \<and>
    au_path egressAuthorized = wu_pathname url @ wu_search url \<and> \<not> hasEncodedSeparator (wu_pathname url)"
  by (rule authorised_request_confined [OF egress_demo])

lemma outgoing_headers_admitted_witness:
  "\<exists>ro \<in> set (em_origins egressDemo). au_destination egressAuthorized = ro_destination ro \<and>
    headerAdmitted ro (EGRESS_DROPPED_REQUEST_HEADERS @ connectionNominatedHeaderNames (headerOf (eq_headers egressRequest) ''connection''))
      (''accept'', One ''x'')"
  by (rule outgoing_headers_admitted [OF egress_demo]) (simp add: egressAuthorized_def)

lemma pull_names_its_path_witness:
  "\<exists>repository reference raw. Some ''a'' = Some repository \<and> Some ''t'' = Some reference \<and>
    decodeURIComponent raw = Some reference \<and> isOciName repository \<and>
    ''/v2/a/manifests/t'' = ''/v2/'' @ repository @ ''/'' @ operationText ManifestPull @ ''/'' @ raw"
proof -
  have "au_operation egressAuthorized \<in> set CONTENT_OPERATIONS" by (simp add: egressAuthorized_def CONTENT_OPERATIONS_def)
  from pull_names_its_path [OF egress_demo this] show ?thesis by (auto simp: egressAuthorized_def)
qed

definition egressFollowed :: authorized_request where
  "egressFollowed = \<lparr>au_policyId = ''pol'', au_originId = ''reg:cdn'', au_operation = ManifestPull,
     au_destination = \<lparr>ds_protocol = ''https:'', ds_hostname = ''cdn.io'', ds_port = 443\<rparr>, au_method = ''GET'',
     au_path = ''/v2/a/manifests/t'', au_headers = [], au_repository = Some ''a'', au_reference = Some ''t'',
     au_requestedDigest = None, au_maxBytes = 100, au_maxDurationMs = 100, au_maxRedirectHops = 2, au_redirectHop = 1\<rparr>"

lemma egress_demo_redirect:
  "authorizeValidatedRegistryRedirect egressParse egressDemo egressAuthorized ''https://cdn.io/x'' = Inr egressFollowed"
  by code_simp

lemma redirect_chain_confined_witness:
  "namedWithoutHeaders egressFollowed"
proof -
  have "redirectChain egressParse egressDemo egressRequest egressFollowed"
    by (rule redirectChain.follow [OF redirectChain.initial [OF egress_demo] egress_demo_redirect])
  from redirect_chain_confined [OF this egress_demo_accepted] show ?thesis by (simp add: egressFollowed_def)
qed

end
