(* ===== verification/Mediated_Egress_Props.thy ===== *)
theory Mediated_Egress_Props
  imports Mediated_Egress Registry_Egress_Props
begin

text \<open>
  Properties of the registry egress proxy over all interleavings of its exchanges: the bytes delivered
  in a session, the bytes of one request over all its hops, the slots of the ledger, the requests the
  upstream sees; and what a refused response may still read.
\<close>

section \<open>One step of an exchange\<close>

text \<open>How a step moves the ledger and the exchange together: bytes delivered are counted before and fit,
  a slot given back is taken off the ledger.\<close>

definition slotOf :: "exchange \<Rightarrow> nat" where
  "slotOf ex = (if ex_slot ex then 1 else 0)"

definition accounted :: "egress_ledger \<Rightarrow> exchange \<Rightarrow> egress_ledger \<Rightarrow> exchange \<Rightarrow> bool" where
  "accounted lg ex lg' ex' =
     (lg_maxTotalBytes lg' = lg_maxTotalBytes lg \<and> lg_maxConcurrentRequests lg' = lg_maxConcurrentRequests lg \<and>
      (\<exists>n. ex_delivered ex' = ex_delivered ex + n \<and> lg_totalBytes lg + n \<le> lg_totalBytes lg' \<and>
           (n = 0 \<or> int (lg_totalBytes lg') \<le> lg_maxTotalBytes lg)) \<and>
      (slotOf ex' = slotOf ex \<and> lg_activeRequests lg' = lg_activeRequests lg \<or>
       slotOf ex = 1 \<and> slotOf ex' = 0 \<and> lg_activeRequests lg' = lg_activeRequests lg - 1))"

lemma accountedI:
  "lg_maxTotalBytes lg' = lg_maxTotalBytes lg \<Longrightarrow> lg_maxConcurrentRequests lg' = lg_maxConcurrentRequests lg \<Longrightarrow>
   ex_delivered ex' = ex_delivered ex \<Longrightarrow> lg_totalBytes lg \<le> lg_totalBytes lg' \<Longrightarrow>
   ex_slot ex' = ex_slot ex \<Longrightarrow> lg_activeRequests lg' = lg_activeRequests lg \<Longrightarrow> accounted lg ex lg' ex'"
  by (auto simp: accounted_def slotOf_def intro: exI [of _ 0])

lemma reject_fields [simp]:
  "ex_delivered (rejectMediatedEgress status ex) = ex_delivered ex" "ex_slot (rejectMediatedEgress status ex) = ex_slot ex"
  "ex_requests (rejectMediatedEgress status ex) = ex_requests ex" "ex_consumed (rejectMediatedEgress status ex) = ex_consumed ex"
  "ex_phase (rejectMediatedEgress status ex) = ex_phase ex" "ex_settled (rejectMediatedEgress status ex) = ex_settled ex"
  by (simp_all add: rejectMediatedEgress_def)

lemma onMediatedResponse_fields [simp]:
  "ex_delivered (onMediatedResponse env lg a status hs ex) = ex_delivered ex"
  "ex_slot (onMediatedResponse env lg a status hs ex) = ex_slot ex"
  "ex_requests (onMediatedResponse env lg a status hs ex) = ex_requests ex"
  "ex_consumed (onMediatedResponse env lg a status hs ex) = ex_consumed ex"
  by (simp_all add: onMediatedResponse_def followMediatedRedirect_def streamMediatedToClient_def split: option.split sum.split)

lemma onChunk_accounted: "onChunk n lg ex = (lg', ex') \<Longrightarrow> accounted lg ex lg' ex'"
  unfolding onChunk_def Let_def
proof (cases "ex_phase ex", goal_cases)
  case (2 next_request drained bodyCap)
  then show ?case
    by (intro accountedI) (auto simp: drainChunk_def addBytes_def Let_def split: if_splits)
next
  case (3 a sofar)
  then show ?case
    by (auto simp: ceilingChunk_def addBytes_def Let_def accounted_def slotOf_def split: if_splits)
qed (auto intro!: accountedI)

lemma exchangeStep_accounted:
  assumes "exchangeStep env ev lg ex = (lg', ex')" shows "accounted lg ex lg' ex'"
proof (cases ev)
  case (ResponseHead status headers)
  then show ?thesis using assms by (cases "ex_phase ex") (auto intro!: accountedI)
next
  case (BodyChunk n)
  then show ?thesis using assms onChunk_accounted by simp
next
  case ClientCloses
  then show ?thesis using assms
    by (auto simp: onClientClose_def finalizeMediatedExchange_def accounted_def slotOf_def releaseSlot_def split: if_splits)
qed (use assms in \<open>auto simp: onBodyEnd_def onBodyError_def onDeadline_def fetchMediated_def intro!: accountedI
       split: exchange_phase.splits if_splits\<close>)

section \<open>Sessions\<close>

definition deliveredTotal :: "egress_session \<Rightarrow> nat" where
  "deliveredTotal es = sum_list (map ex_delivered (es_exchanges es))"

definition slotTotal :: "egress_session \<Rightarrow> nat" where
  "slotTotal es = sum_list (map slotOf (es_exchanges es))"

definition sessionAccounted :: "session_limits \<Rightarrow> egress_session \<Rightarrow> bool" where
  "sessionAccounted limits es =
     (lg_maxTotalBytes (es_ledger es) = se_maxTotalBytes limits \<and>
      lg_maxConcurrentRequests (es_ledger es) = se_maxConcurrentRequests limits \<and>
      deliveredTotal es \<le> lg_totalBytes (es_ledger es) \<and>
      (deliveredTotal es = 0 \<or> int (deliveredTotal es) \<le> se_maxTotalBytes limits) \<and>
      slotTotal es = lg_activeRequests (es_ledger es) \<and>
      (slotTotal es = 0 \<or> int (slotTotal es) \<le> se_maxConcurrentRequests limits))"

lemma sum_list_replace:
  fixes f :: "'a \<Rightarrow> nat"
  assumes "i < length xs"
  shows "sum_list (map f (xs[i := x])) + f (xs ! i) = sum_list (map f xs) + f x"
  using assms by (induction xs arbitrary: i) (auto split: nat.split)

lemma sum_list_ge: "i < length xs \<Longrightarrow> (f (xs ! i) :: nat) \<le> sum_list (map f xs)"
  using elem_le_sum_list [of i "map f xs"] by simp

lemma sessionAccounted_step:
  assumes "sessionAccounted limits es"
  shows "sessionAccounted limits (egressSessionStep env es ev)"
proof (cases ev)
  case (Inbound rq localResolver)
  show ?thesis using assms Inbound
    by (auto simp: sessionAccounted_def deliveredTotal_def slotTotal_def handleRegistryEgressRequest_def Let_def recordAttempt_def
        acquireSlot_def startExchange_def fetchMediated_def slotOf_def split: sum.split option.splits if_splits)
next
  case (Upstream i e)
  show ?thesis
  proof (cases "i < length (es_exchanges es)")
    case True
    let ?ex = "es_exchanges es ! i"
    obtain lg ex where s: "exchangeStep env e (es_ledger es) ?ex = (lg, ex)" by fastforce
    let ?es = "es\<lparr>es_ledger := lg, es_exchanges := (es_exchanges es)[i := ex]\<rparr>"
    have step: "egressSessionStep env es ev = ?es" using Upstream True s by simp
    note acc = exchangeStep_accounted [OF s]
    obtain n where n: "ex_delivered ex = ex_delivered ?ex + n" "lg_totalBytes (es_ledger es) + n \<le> lg_totalBytes lg"
        "n = 0 \<or> int (lg_totalBytes lg) \<le> lg_maxTotalBytes (es_ledger es)"
      using acc by (auto simp: accounted_def)
    have d: "deliveredTotal ?es = deliveredTotal es + n"
      using sum_list_replace [OF True, of ex_delivered ex] n(1) by (simp add: deliveredTotal_def)
    have sl: "slotTotal ?es + slotOf ?ex = slotTotal es + slotOf ex"
      using sum_list_replace [OF True, of slotOf ex] by (simp add: slotTotal_def)
    have ge: "slotOf ?ex \<le> slotTotal es" using sum_list_ge [OF True, of slotOf] by (simp add: slotTotal_def)
    have slots: "slotTotal ?es = lg_activeRequests lg \<and> slotTotal ?es \<le> slotTotal es"
      using acc sl ge assms by (auto simp: accounted_def sessionAccounted_def)
    have bytes: "deliveredTotal ?es \<le> lg_totalBytes lg" using d n(2) assms by (simp add: sessionAccounted_def)
    have "deliveredTotal ?es = 0 \<or> int (deliveredTotal ?es) \<le> se_maxTotalBytes limits"
      using d n(3) bytes assms by (auto simp: sessionAccounted_def)
    then show ?thesis using slots bytes acc assms unfolding step by (auto simp: sessionAccounted_def accounted_def)
  next
    case False
    then show ?thesis using assms Upstream by simp
  qed
qed

lemma sessionAccounted_run: "sessionAccounted limits es \<Longrightarrow> sessionAccounted limits (foldl (egressSessionStep env) es evs)"
  by (induction evs arbitrary: es) (simp_all add: sessionAccounted_step)

lemma sessionAccounted_new: "sessionAccounted limits (newSession limits)"
  by (simp add: sessionAccounted_def newSession_def createRegistryEgressSessionLedger_def deliveredTotal_def slotTotal_def)


section \<open>One request\<close>

text \<open>The requests of an exchange are a chain of redirects, in order, and the bytes of all hops together
  stay within the limit of the last.\<close>

definition exchangeInv :: "(authorized_request \<Rightarrow> bool) \<Rightarrow> exchange \<Rightarrow> bool" where
  "exchangeInv chain ex =
     (ex_requests ex \<noteq> [] \<and> (\<forall>a \<in> set (ex_requests ex). chain a) \<and>
      map au_redirectHop (ex_requests ex) = map int [0..<length (ex_requests ex)] \<and>
      (ex_delivered ex = 0 \<or> int (ex_consumed ex + ex_delivered ex) \<le> au_maxBytes (last (ex_requests ex))) \<and>
      (case ex_phase ex of
         AwaitResponse a \<Rightarrow> a = last (ex_requests ex) \<and> ex_delivered ex = 0
       | DrainRedirect b drained bodyCap \<Rightarrow>
           ex_delivered ex = 0 \<and> chain b \<and> au_redirectHop b = au_redirectHop (last (ex_requests ex)) + 1
       | Streaming a sofar \<Rightarrow> a = last (ex_requests ex) \<and> ex_delivered ex = sofar
       | _ \<Rightarrow> True))"

lemma last_hop:
  assumes "map au_redirectHop rs = map int [0..<length rs]" "rs \<noteq> []"
  shows "au_redirectHop (last rs) = int (length rs) - 1"
proof -
  have "map au_redirectHop rs ! (length rs - 1) = map int [0..<length rs] ! (length rs - 1)" by (simp only: assms(1))
  moreover obtain k where "length rs = Suc k" using assms(2) by (cases rs) auto
  ultimately show ?thesis using assms(2) by (simp add: last_conv_nth del: upt_Suc)
qed

lemma exchangeInv_response:
  assumes "exchangeInv chain ex" "ex_phase ex = AwaitResponse a"
    and follow: "\<And>a location b. chain a \<Longrightarrow> guardAuthorizeRedirect (ee_parse env) (ee_guard env) a location = Inr b \<Longrightarrow>
      chain b \<and> au_redirectHop b = au_redirectHop a + 1"
  shows "exchangeInv chain (onMediatedResponse env lg a status headers ex)"
proof -
  have a: "chain a" "a = last (ex_requests ex)" "ex_delivered ex = 0" using assms(1,2) by (auto simp: exchangeInv_def)
  have redirect: "exchangeInv chain (followMediatedRedirect env a headers ex)"
    using assms(1,2) a follow [OF a(1)]
    by (auto simp: exchangeInv_def followMediatedRedirect_def split: option.split sum.split)
  have stream: "exchangeInv chain (streamMediatedToClient env lg a status headers ex)"
    using assms(1,2) a by (auto simp: exchangeInv_def streamMediatedToClient_def)
  have discard: "exchangeInv chain (ex\<lparr>ex_phase := Discarding\<rparr>)" using assms(1,2) by (auto simp: exchangeInv_def)
  show ?thesis using redirect stream discard by (simp add: onMediatedResponse_def)
qed

lemma exchangeInv_fetch:
  assumes "exchangeInv chain ex" "ex_phase ex = DrainRedirect b drained bodyCap"
  shows "exchangeInv chain (fetchMediated b (ex\<lparr>ex_consumed := ex_consumed ex + drained\<rparr>))"
proof -
  have rs: "ex_requests ex \<noteq> []" "map au_redirectHop (ex_requests ex) = map int [0..<length (ex_requests ex)]"
    using assms(1) by (simp_all add: exchangeInv_def)
  have "au_redirectHop b = int (length (ex_requests ex))"
    using last_hop [OF rs(2,1)] assms by (simp add: exchangeInv_def)
  then show ?thesis using assms by (simp add: exchangeInv_def fetchMediated_def)
qed

lemma exchangeInv_gone:
  "exchangeInv chain ex \<Longrightarrow> exchangeInv chain (ex\<lparr>ex_phase := NoUpstream\<rparr>)"
  "exchangeInv chain ex \<Longrightarrow> exchangeInv chain (ex\<lparr>ex_phase := NoUpstream, ex_ended := e\<rparr>)"
  "exchangeInv chain ex \<Longrightarrow> exchangeInv chain (ex\<lparr>ex_phase := NoUpstream, ex_ended := e, ex_completed := c\<rparr>)"
  "exchangeInv chain ex \<Longrightarrow> exchangeInv chain (ex\<lparr>ex_received := r\<rparr>)"
  "exchangeInv chain ex \<Longrightarrow> exchangeInv chain (rejectMediatedEgress status ex)"
  by (auto simp: exchangeInv_def split: exchange_phase.splits)

lemma exchangeInv_chunk:
  assumes "exchangeInv chain ex" "onChunk n lg ex = (lg', ex')"
  shows "exchangeInv chain ex'"
proof (cases "ex_phase ex")
  case (DrainRedirect b drained bodyCap)
  define e where "e = ex\<lparr>ex_received := ex_received ex + n\<rparr>"
  have e: "exchangeInv chain e" "ex_phase e = DrainRedirect b drained bodyCap"
    using assms(1) DrainRedirect by (simp_all add: e_def exchangeInv_gone)
  have s: "drainChunk b drained bodyCap n lg e = (lg', ex')" using assms(2) DrainRedirect by (simp add: onChunk_def e_def)
  have "exchangeInv chain (e\<lparr>ex_phase := DrainRedirect b (drained + n) bodyCap\<rparr>)" using e by (simp add: exchangeInv_def)
  then show ?thesis using s exchangeInv_gone [OF e(1)] exchangeInv_gone(5) [OF exchangeInv_gone(1) [OF e(1)]]
    by (auto simp: drainChunk_def split: if_splits prod.splits)
next
  case (Streaming a sofar)
  define e where "e = ex\<lparr>ex_received := ex_received ex + n\<rparr>"
  have e: "exchangeInv chain e" "ex_phase e = Streaming a sofar"
    using assms(1) Streaming by (simp_all add: e_def exchangeInv_gone)
  have s: "ceilingChunk a sofar n lg e = (lg', ex')" using assms(2) Streaming by (simp add: onChunk_def e_def)
  have "exchangeInv chain (e\<lparr>ex_phase := Streaming a (sofar + n), ex_delivered := ex_delivered e + n\<rparr>)"
    if "\<not> int (ex_consumed e + (sofar + n)) > au_maxBytes a"
    using e that by (simp add: exchangeInv_def)
  then show ?thesis using s exchangeInv_gone(2) [OF e(1)] by (auto simp: ceilingChunk_def split: if_splits prod.splits)
qed (use assms exchangeInv_gone(4) in \<open>auto simp: onChunk_def\<close>)

lemma exchangeInv_step:
  assumes "exchangeInv chain ex" "exchangeStep env ev lg ex = (lg', ex')"
    and follow: "\<And>a location b. chain a \<Longrightarrow> guardAuthorizeRedirect (ee_parse env) (ee_guard env) a location = Inr b \<Longrightarrow>
      chain b \<and> au_redirectHop b = au_redirectHop a + 1"
  shows "exchangeInv chain ex'"
proof (cases ev)
  case (ResponseHead status headers)
  show ?thesis
  proof (cases "ex_phase ex")
    case (AwaitResponse a)
    then show ?thesis using assms(2) ResponseHead exchangeInv_response [OF assms(1) AwaitResponse follow] by auto
  qed (use assms(1,2) ResponseHead in auto)
next
  case (BodyChunk n)
  then show ?thesis using exchangeInv_chunk [OF assms(1)] assms(2) by simp
next
  case BodyEnd
  then show ?thesis using assms(1,2) exchangeInv_fetch [OF assms(1)] exchangeInv_gone
    by (auto simp: onBodyEnd_def split: exchange_phase.splits if_splits)
next
  case ClientCloses
  have "exchangeInv chain (ex\<lparr>ex_ended := e, ex_phase := (case ex_phase ex of Streaming _ _ \<Rightarrow> NoUpstream | p \<Rightarrow> p), ex_settled := s, ex_slot := sl\<rparr>)"
    "exchangeInv chain (ex\<lparr>ex_ended := e, ex_phase := (case ex_phase ex of Streaming _ _ \<Rightarrow> NoUpstream | p \<Rightarrow> p)\<rparr>)" for e s sl
    using assms(1) by (auto simp: exchangeInv_def split: exchange_phase.splits)
  then show ?thesis using assms(2) ClientCloses
    by (auto simp: onClientClose_def finalizeMediatedExchange_def split: if_splits)
qed (use assms(1,2) exchangeInv_gone in \<open>auto simp: onBodyError_def onDeadline_def split: exchange_phase.splits if_splits\<close>)

text \<open>The chain of the client request an exchange belongs to.\<close>

definition someChain :: "egress_env \<Rightarrow> egress_manifest \<Rightarrow> authorized_request \<Rightarrow> bool" where
  "someChain env em a = (\<exists>rq. redirectChain (ee_parse env) em rq a)"

lemma exchanges_inv_run:
  assumes "ee_guard env = PublicGuard em"
  shows "\<forall>ex \<in> set (es_exchanges es). exchangeInv (someChain env em) ex \<Longrightarrow>
    \<forall>ex \<in> set (es_exchanges (foldl (egressSessionStep env) es evs)). exchangeInv (someChain env em) ex"
proof (induction evs arbitrary: es)
  case (Cons ev evs)
  have follow: "someChain env em b \<and> au_redirectHop b = au_redirectHop a + 1"
    if "someChain env em a" "guardAuthorizeRedirect (ee_parse env) (ee_guard env) a location = Inr b" for a location b
  proof -
    have r: "authorizeValidatedRegistryRedirect (ee_parse env) em a location = Inr b" using that(2) assms by simp
    have "au_redirectHop b = au_redirectHop a + 1" by (rule redirect_parts [OF r])
    then show ?thesis using that(1) redirectChain.follow [OF _ r] by (auto simp: someChain_def)
  qed
  have "\<forall>ex \<in> set (es_exchanges (egressSessionStep env es ev)). exchangeInv (someChain env em) ex"
  proof (cases ev)
    case (Inbound rq localResolver)
    have "exchangeInv (someChain env em) (startExchange a)" if "guardAuthorize (ee_parse env) (ee_guard env) rq = Inr a" for a
    proof -
      have r: "authorizeValidatedRegistryEgressRequest (ee_parse env) em rq = Inr a" using that assms by simp
      have "au_redirectHop a = 0" by (rule authorize_parts [OF r])
      then show ?thesis using redirectChain.initial [OF r] by (auto simp: exchangeInv_def startExchange_def fetchMediated_def someChain_def)
    qed
    then show ?thesis using Cons.prems Inbound
      by (auto simp: handleRegistryEgressRequest_def Let_def split: sum.splits option.splits if_splits)
  next
    case (Upstream i e)
    show ?thesis
    proof (cases "i < length (es_exchanges es)")
      case True
      obtain lg ex where s: "exchangeStep env e (es_ledger es) (es_exchanges es ! i) = (lg, ex)" by fastforce
      have "exchangeInv (someChain env em) ex"
        by (rule exchangeInv_step [OF _ s]) (use Cons.prems True follow in auto)
      then show ?thesis using Cons.prems Upstream True s set_update_subset_insert [of "es_exchanges es" i ex] by auto
    next
      case False
      then show ?thesis using Cons.prems Upstream by simp
    qed
  qed
  then show ?case using Cons.IH by simp
qed simp

text \<open>C30: For one client request the upstream side sends at most six requests, each of them authorised or
  a followed redirect, and the bytes delivered together with the redirect bodies stay within the
  limit of the last request.\<close>

theorem exchange_within_limits:
  assumes "ee_guard env = PublicGuard em" "manifestAccepts em"
    and "ex \<in> set (es_exchanges (foldl (egressSessionStep env) (newSession limits) evs))"
  shows "length (ex_requests ex) \<le> 6 \<and>
    (\<forall>a \<in> set (ex_requests ex). ds_protocol (au_destination a) = ''https:'' \<and>
       (listedDestination em a \<or> namedWithoutHeaders a \<and> au_operation a \<in> set CONTENT_OPERATIONS)) \<and>
    (ex_delivered ex = 0 \<or> int (ex_consumed ex + ex_delivered ex) \<le> au_maxBytes (last (ex_requests ex)))"
proof -
  have inv: "exchangeInv (someChain env em) ex"
    using exchanges_inv_run [OF assms(1), of "newSession limits" evs] assms(3) by (auto simp: newSession_def)
  have chain: "au_redirectHop a \<le> 5 \<and> ds_protocol (au_destination a) = ''https:'' \<and>
      (listedDestination em a \<or> namedWithoutHeaders a \<and> au_operation a \<in> set CONTENT_OPERATIONS)"
    if mem: "a \<in> set (ex_requests ex)" for a
  proof -
    obtain rq where "redirectChain (ee_parse env) em rq a" using inv mem by (auto simp: exchangeInv_def someChain_def)
    from redirect_chain_invariant [OF this assms(2)] show ?thesis by auto
  qed
  have "au_redirectHop (last (ex_requests ex)) = int (length (ex_requests ex)) - 1"
    using inv last_hop [of "ex_requests ex"] unfolding exchangeInv_def by blast
  moreover have "last (ex_requests ex) \<in> set (ex_requests ex)" using inv by (simp add: exchangeInv_def)
  ultimately have "length (ex_requests ex) \<le> 6" using chain [of "last (ex_requests ex)"] by linarith
  then show ?thesis using chain inv by (auto simp: exchangeInv_def)
qed

section \<open>The guard\<close>

text \<open>A guard without the override serves a manifest only if it is accepted and frozen.\<close>

lemma guard_needs_frozen_manifest:
  assumes "createRegistryEgressGuard enabled loaded False = Some (guard, lg)"
  shows "guard = DisabledGuard \<or> (\<exists>em. loaded = Some em \<and> guard = PublicGuard em \<and> manifestAccepts em \<and> em_status em = Frozen)"
  using assms by (auto simp: createRegistryEgressGuard_def split: if_splits option.splits)

lemma disabled_guard_refuses:
  "ee_guard env = DisabledGuard \<Longrightarrow> es_exchanges (handleRegistryEgressRequest env rq localResolver es) = es_exchanges es"
  by (simp add: handleRegistryEgressRequest_def Let_def)

section \<open>Responses that are refused\<close>

text \<open>A response whose declared length is over a limit is refused, but its body is read on; once the client
  is gone there is no deadline either, and nothing of it is counted.\<close>

lemma oversized_response_discarded:
  assumes "ex_phase ex = AwaitResponse a" "\<not> ex_settled ex" "\<not> ex_ended ex" "status \<notin> set REDIRECT_STATUS_CODES"
    and "declaredContentLength (ee_number env) headers = Some declared" "int (ex_consumed ex + declared) > au_maxBytes a"
  shows "exchangeStep env (ResponseHead status headers) lg ex = (lg, rejectMediatedEgress 502 (ex\<lparr>ex_phase := Discarding\<rparr>))"
  using assms by (simp add: onMediatedResponse_def streamMediatedToClient_def)

lemma client_gone_keeps_discarding:
  assumes "ex_phase ex = Discarding" "exchangeStep env ClientCloses lg ex = (lg', ex')"
  shows "ex_phase ex' = Discarding \<and> ex_settled ex' \<and> ex_received ex' = ex_received ex \<and> lg_totalBytes lg' = lg_totalBytes lg"
  using assms by (auto simp: onClientClose_def finalizeMediatedExchange_def releaseSlot_def split: if_splits)

lemma discarded_body_uncounted:
  assumes "ex_phase ex = Discarding" "ex_settled ex"
  shows "exchangeStep env (BodyChunk n) lg ex = (lg, ex\<lparr>ex_received := ex_received ex + n\<rparr>)"
    "exchangeStep env DeadlineFires lg ex = (lg, ex)"
  using assms by (simp_all add: onChunk_def onDeadline_def)

section \<open>A run\<close>

definition egressEnv :: egress_env where
  "egressEnv = \<lparr>ee_guard = PublicGuard egressDemo, ee_parse = egressParse, ee_number = (\<lambda>_. None)\<rparr>"

definition egressEvents :: "egress_session_event list" where
  "egressEvents = [Inbound egressRequest True, Upstream 0 (ResponseHead 302 [(''location'', Some (One ''https://cdn.io/x''))]),
     Upstream 0 (BodyChunk 10), Upstream 0 BodyEnd, Upstream 0 (ResponseHead 200 []), Upstream 0 (BodyChunk 60), Upstream 0 (BodyChunk 60)]"

definition egressRun :: egress_session where
  "egressRun = foldl (egressSessionStep egressEnv) (newSession \<lparr>se_maxTotalBytes = 100, se_maxConcurrentRequests = 2\<rparr>) egressEvents"

lemma egress_run: "map (\<lambda>ex. (length (ex_requests ex), ex_consumed ex, ex_delivered ex)) (es_exchanges egressRun) = [(2, 10, 60)]"
  by code_simp


lemma exchange_within_limits_witness: "length (ex_requests (hd (es_exchanges egressRun))) \<le> 6"
proof -
  have "es_exchanges egressRun \<noteq> []" using egress_run by auto
  then have "hd (es_exchanges egressRun) \<in> set (es_exchanges egressRun)" by simp
  moreover have "ee_guard egressEnv = PublicGuard egressDemo" by (simp add: egressEnv_def)
  ultimately show ?thesis using exchange_within_limits [OF _ egress_demo_accepted] unfolding egressRun_def by blast
qed

end
