(* ===== verification/Package_Ledger.thy ===== *)
theory Package_Ledger
  imports IC_Prelude
begin

text \<open>
  The ledger of the package egress (\<open>src/docker/package-egress-ledger.ts\<close>): a token bucket for attempts,
  ceilings for clients, direct and derived upstream work, and the bytes of a request and a session.
  Leases are numbers; a client and an upstream lease keep their own state. The clock is an argument of
  the operations that read it. A refused operation keeps what it has changed before it threw.
\<close>

section \<open>Limits\<close>

record package_limits =
  pl_maxAttempts :: rat
  pl_attemptBurst :: rat
  pl_attemptRefillPerSecond :: rat
  pl_maxConcurrentClients :: rat
  pl_maxDerivedPerClient :: rat
  pl_maxConcurrentDerived :: rat
  pl_maxConcurrentUpstreams :: rat
  pl_maxBytesPerRequest :: rat
  pl_maxSessionBytes :: rat
  pl_absoluteTimeoutMs :: rat
  pl_idleTimeoutMs :: rat
  pl_tlsHandshakeMaxBytes :: rat
  pl_tlsHandshakeTimeoutMs :: rat
  pl_dnsTimeoutMs :: rat
  pl_connectTimeoutMs :: rat
  pl_maxHeaderBytes :: rat
  pl_maxTargetBytes :: rat

definition DEFAULT_PACKAGE_EGRESS_LIMITS :: package_limits where
  "DEFAULT_PACKAGE_EGRESS_LIMITS =
     \<lparr>pl_maxAttempts = 4096, pl_attemptBurst = 120, pl_attemptRefillPerSecond = 2, pl_maxConcurrentClients = 16,
      pl_maxDerivedPerClient = 2, pl_maxConcurrentDerived = 8, pl_maxConcurrentUpstreams = 24,
      pl_maxBytesPerRequest = 2 * 1024 * 1024 * 1024, pl_maxSessionBytes = 16 * 1024 * 1024 * 1024,
      pl_absoluteTimeoutMs = 10 * 60000, pl_idleTimeoutMs = 60000, pl_tlsHandshakeMaxBytes = 64 * 1024,
      pl_tlsHandshakeTimeoutMs = 5000, pl_dnsTimeoutMs = 5000, pl_connectTimeoutMs = 10000,
      pl_maxHeaderBytes = 32 * 1024, pl_maxTargetBytes = 8 * 1024\<rparr>"

definition isSafeInteger :: "rat \<Rightarrow> bool" where
  "isSafeInteger q = (q = of_int \<lfloor>q\<rfloor> \<and> \<bar>q\<bar> \<le> 2 ^ 53 - 1)"

definition integerLimits :: "package_limits \<Rightarrow> rat list" where
  "integerLimits l =
     [pl_maxAttempts l, pl_attemptBurst l, pl_maxConcurrentClients l, pl_maxDerivedPerClient l, pl_maxConcurrentDerived l,
      pl_maxConcurrentUpstreams l, pl_maxBytesPerRequest l, pl_maxSessionBytes l, pl_absoluteTimeoutMs l, pl_idleTimeoutMs l,
      pl_tlsHandshakeMaxBytes l, pl_tlsHandshakeTimeoutMs l, pl_dnsTimeoutMs l, pl_connectTimeoutMs l, pl_maxHeaderBytes l,
      pl_maxTargetBytes l]"

text \<open>The limits are accepted.\<close>

definition validateLimits :: "package_limits \<Rightarrow> bool" where
  "validateLimits l =
     (list_all (\<lambda>v. v > 0) (pl_attemptRefillPerSecond l # integerLimits l) \<and> list_all isSafeInteger (integerLimits l) \<and>
      pl_maxBytesPerRequest l \<le> pl_maxSessionBytes l \<and>
      pl_maxConcurrentClients l + pl_maxConcurrentDerived l \<le> pl_maxConcurrentUpstreams l)"

section \<open>State\<close>

record client_state =
  cs_active :: bool
  cs_counted :: bool
  cs_activeUpstreams :: nat
  cs_derivedAttempts :: nat
  cs_bytes :: nat

datatype upstream_kind = Direct | Derived

record upstream_lease =
  ul_client :: nat
  ul_kind :: upstream_kind
  ul_released :: bool

record package_ledger =
  pg_attempts :: nat
  pg_clientAttempts :: nat
  pg_derivedAttempts :: nat
  pg_activeClients :: nat
  pg_activeDirect :: nat
  pg_activeDerived :: nat
  pg_transferredBytes :: nat
  pg_tokens :: rat
  pg_lastRefill :: rat
  pg_stopped :: bool
  pg_clients :: "client_state list"
  pg_upstreams :: "upstream_lease list"

definition createPackageEgressLedger :: "package_limits \<Rightarrow> rat \<Rightarrow> package_ledger option" where
  "createPackageEgressLedger limits now =
     (if \<not> validateLimits limits then None
      else Some \<lparr>pg_attempts = 0, pg_clientAttempts = 0, pg_derivedAttempts = 0, pg_activeClients = 0, pg_activeDirect = 0,
                 pg_activeDerived = 0, pg_transferredBytes = 0, pg_tokens = pl_attemptBurst limits, pg_lastRefill = now,
                 pg_stopped = False, pg_clients = [], pg_upstreams = []\<rparr>)"

datatype ledger_error =
    LedgerStopped
  | AttemptCeiling
  | AttemptRate
  | ClientConcurrency
  | ClientReleased
  | CombinedConcurrency
  | DirectConcurrency
  | DerivedPerClient
  | DerivedConcurrency
  | BadByteCount

datatype ledger_outcome = Refused ledger_error | Admitted nat | Charged bool | Done

section \<open>Operations\<close>

definition refill :: "package_limits \<Rightarrow> rat \<Rightarrow> package_ledger \<Rightarrow> package_ledger" where
  "refill limits now pg =
     pg\<lparr>pg_tokens := min (pl_attemptBurst limits)
          (pg_tokens pg + max 0 (now - pg_lastRefill pg) / 1000 * pl_attemptRefillPerSecond limits),
        pg_lastRefill := now\<rparr>"

definition consumeAttempt :: "package_limits \<Rightarrow> bool \<Rightarrow> rat \<Rightarrow> package_ledger \<Rightarrow> package_ledger \<times> ledger_error option" where
  "consumeAttempt limits derived now pg =
     (let pg1 = refill limits now
            (pg\<lparr>pg_attempts := pg_attempts pg + 1,
                pg_clientAttempts := pg_clientAttempts pg + (if derived then 0 else 1),
                pg_derivedAttempts := pg_derivedAttempts pg + (if derived then 1 else 0)\<rparr>)
      in if pg_stopped pg1 then (pg1, Some LedgerStopped)
         else if of_nat (pg_attempts pg1) > pl_maxAttempts limits then (pg1, Some AttemptCeiling)
         else if pg_tokens pg1 < 1 then (pg1, Some AttemptRate)
         else (pg1\<lparr>pg_tokens := pg_tokens pg1 - 1\<rparr>, None))"

definition admitClient :: "package_limits \<Rightarrow> rat \<Rightarrow> package_ledger \<Rightarrow> package_ledger \<times> ledger_outcome" where
  "admitClient limits now pg =
     (case consumeAttempt limits False now pg of
        (pg1, Some e) \<Rightarrow> (pg1, Refused e)
      | (pg1, None) \<Rightarrow>
          (if of_nat (pg_activeClients pg1) \<ge> pl_maxConcurrentClients limits then (pg1, Refused ClientConcurrency)
           else (pg1\<lparr>pg_activeClients := pg_activeClients pg1 + 1,
                     pg_clients := pg_clients pg1 @ [\<lparr>cs_active = True, cs_counted = True, cs_activeUpstreams = 0,
                                                      cs_derivedAttempts = 0, cs_bytes = 0\<rparr>]\<rparr>,
                 Admitted (length (pg_clients pg1)))))"

definition updateClient :: "nat \<Rightarrow> (client_state \<Rightarrow> client_state) \<Rightarrow> package_ledger \<Rightarrow> package_ledger" where
  "updateClient c f pg = pg\<lparr>pg_clients := (pg_clients pg)[c := f (pg_clients pg ! c)]\<rparr>"

text \<open>The lease of an admitted upstream, with its counters.\<close>

definition openUpstream :: "nat \<Rightarrow> upstream_kind \<Rightarrow> package_ledger \<Rightarrow> package_ledger" where
  "openUpstream c kind pg =
     (updateClient c (\<lambda>cl. cl\<lparr>cs_activeUpstreams := cs_activeUpstreams cl + 1,
          cs_derivedAttempts := cs_derivedAttempts cl + (if kind = Derived then 1 else 0)\<rparr>) pg)
     \<lparr>pg_activeDirect := pg_activeDirect pg + (if kind = Direct then 1 else 0),
      pg_activeDerived := pg_activeDerived pg + (if kind = Derived then 1 else 0),
      pg_upstreams := pg_upstreams pg @ [\<lparr>ul_client = c, ul_kind = kind, ul_released = False\<rparr>]\<rparr>"

definition upstreamCeilings :: "package_limits \<Rightarrow> nat \<Rightarrow> upstream_kind \<Rightarrow> package_ledger \<Rightarrow> ledger_error option" where
  "upstreamCeilings limits c kind pg =
     (if of_nat (pg_activeDirect pg + pg_activeDerived pg) \<ge> pl_maxConcurrentUpstreams limits then Some CombinedConcurrency
      else if kind = Direct then
        (if of_nat (pg_activeDirect pg) \<ge> pl_maxConcurrentClients limits then Some DirectConcurrency else None)
      else if of_nat (cs_derivedAttempts (pg_clients pg ! c)) \<ge> pl_maxDerivedPerClient limits then Some DerivedPerClient
      else if of_nat (pg_activeDerived pg) \<ge> pl_maxConcurrentDerived limits then Some DerivedConcurrency
      else None)"

definition admitUpstream ::
  "package_limits \<Rightarrow> nat \<Rightarrow> upstream_kind \<Rightarrow> rat \<Rightarrow> package_ledger \<Rightarrow> package_ledger \<times> ledger_outcome" where
  "admitUpstream limits c kind now pg =
     (if \<not> cs_active (pg_clients pg ! c) then (pg, Refused ClientReleased)
      else if pg_stopped pg then (pg, Refused LedgerStopped)
      else let (pg1, attempt) = (if kind = Derived then consumeAttempt limits True now pg else (pg, None))
           in case attempt of
                Some e \<Rightarrow> (pg1, Refused e)
              | None \<Rightarrow>
                  (case upstreamCeilings limits c kind pg1 of
                     Some e \<Rightarrow> (pg1, Refused e)
                   | None \<Rightarrow> (openUpstream c kind pg1, Admitted (length (pg_upstreams pg1)))))"

definition charge :: "package_limits \<Rightarrow> nat \<Rightarrow> rat \<Rightarrow> package_ledger \<Rightarrow> package_ledger \<times> ledger_outcome" where
  "charge limits c k pg =
     (if \<not> isSafeInteger k \<or> k < 0 then (pg, Refused BadByteCount)
      else let n = nat \<lfloor>k\<rfloor>;
               pg1 = (updateClient c (\<lambda>cl. cl\<lparr>cs_bytes := cs_bytes cl + n\<rparr>) pg)\<lparr>pg_transferredBytes := pg_transferredBytes pg + n\<rparr>
           in (pg1, Charged (of_nat (cs_bytes (pg_clients pg1 ! c)) \<le> pl_maxBytesPerRequest limits \<and>
                             of_nat (pg_transferredBytes pg1) \<le> pl_maxSessionBytes limits)))"

definition chargeUpstream :: "package_limits \<Rightarrow> nat \<Rightarrow> rat \<Rightarrow> package_ledger \<Rightarrow> package_ledger \<times> ledger_outcome" where
  "chargeUpstream limits u k pg =
     (if ul_released (pg_upstreams pg ! u) then (pg, Charged False) else charge limits (ul_client (pg_upstreams pg ! u)) k pg)"

text \<open>A released client is no longer counted when its last upstream is gone.\<close>

definition settleClient :: "nat \<Rightarrow> package_ledger \<Rightarrow> package_ledger" where
  "settleClient c pg =
     (let cl = pg_clients pg ! c
      in if \<not> cs_active cl \<and> cs_counted cl \<and> cs_activeUpstreams cl = 0
         then (updateClient c (\<lambda>cl. cl\<lparr>cs_counted := False\<rparr>) pg)\<lparr>pg_activeClients := pg_activeClients pg - 1\<rparr>
         else pg)"

definition releaseUpstream :: "nat \<Rightarrow> package_ledger \<Rightarrow> package_ledger" where
  "releaseUpstream u pg =
     (let lease = pg_upstreams pg ! u; c = ul_client lease
      in if ul_released lease then pg
         else settleClient c
                ((updateClient c (\<lambda>cl. cl\<lparr>cs_activeUpstreams := cs_activeUpstreams cl - 1\<rparr>) pg)
                 \<lparr>pg_upstreams := (pg_upstreams pg)[u := lease\<lparr>ul_released := True\<rparr>],
                  pg_activeDirect := pg_activeDirect pg - (if ul_kind lease = Direct then 1 else 0),
                  pg_activeDerived := pg_activeDerived pg - (if ul_kind lease = Derived then 1 else 0)\<rparr>))"

definition releaseClient :: "nat \<Rightarrow> package_ledger \<Rightarrow> package_ledger" where
  "releaseClient c pg =
     (if \<not> cs_active (pg_clients pg ! c) then pg
      else settleClient c (updateClient c (\<lambda>cl. cl\<lparr>cs_active := False\<rparr>) pg))"

definition stopLedger :: "package_ledger \<Rightarrow> package_ledger" where
  "stopLedger pg = pg\<lparr>pg_stopped := True\<rparr>"

section \<open>Runs\<close>

text \<open>The calls on the ledger and on the leases it has handed out; other lease numbers do not exist.\<close>

datatype ledger_call =
    AdmitClient rat
  | AdmitUpstream nat upstream_kind rat
  | ChargeClient nat rat
  | ChargeUpstream nat rat
  | ReleaseClient nat
  | ReleaseUpstream nat
  | StopLedger

fun ledgerStep :: "package_limits \<Rightarrow> package_ledger \<Rightarrow> ledger_call \<Rightarrow> package_ledger \<times> ledger_outcome" where
  "ledgerStep limits pg (AdmitClient now) = admitClient limits now pg"
| "ledgerStep limits pg (AdmitUpstream c kind now) =
     (if c < length (pg_clients pg) then admitUpstream limits c kind now pg else (pg, Done))"
| "ledgerStep limits pg (ChargeClient c k) = (if c < length (pg_clients pg) then charge limits c k pg else (pg, Done))"
| "ledgerStep limits pg (ChargeUpstream u k) = (if u < length (pg_upstreams pg) then chargeUpstream limits u k pg else (pg, Done))"
| "ledgerStep limits pg (ReleaseClient c) = (if c < length (pg_clients pg) then releaseClient c pg else pg, Done)"
| "ledgerStep limits pg (ReleaseUpstream u) = (if u < length (pg_upstreams pg) then releaseUpstream u pg else pg, Done)"
| "ledgerStep limits pg StopLedger = (stopLedger pg, Done)"

fun ledgerRun :: "package_limits \<Rightarrow> package_ledger \<Rightarrow> ledger_call list \<Rightarrow> package_ledger \<times> ledger_outcome list" where
  "ledgerRun limits pg [] = (pg, [])"
| "ledgerRun limits pg (c # cs) =
     (let (pg1, out) = ledgerStep limits pg c; (pg2, outs) = ledgerRun limits pg1 cs in (pg2, out # outs))"

end
