(* ===== verification/Package_Ledger_Props.thy ===== *)
theory Package_Ledger_Props
  imports Package_Ledger
begin

text \<open>
  Properties of the package egress ledger: its counters are the numbers of open leases and stay within
  the ceilings, the bytes of a session are the sum of the bytes of its clients, and the admitted
  attempts follow the token bucket as long as the clock does not run backwards.
\<close>

section \<open>Tallies\<close>

definition tally :: "('a \<Rightarrow> bool) \<Rightarrow> 'a list \<Rightarrow> nat" where
  "tally P xs = length (filter P xs)"

lemma tally_append [simp]: "tally P (xs @ [x]) = tally P xs + of_bool (P x)"
  by (simp add: tally_def)

lemma tally_Nil [simp]: "tally P [] = 0"
  by (simp add: tally_def)

lemma tally_update:
  "i < length xs \<Longrightarrow> tally P (xs[i := x]) + of_bool (P (xs ! i)) = tally P xs + of_bool (P x)"
proof (induction xs arbitrary: i)
  case (Cons y ys)
  show ?case
  proof (cases i)
    case (Suc j)
    then show ?thesis using Cons.IH [of j] Cons.prems by (auto simp: tally_def)
  qed (simp add: tally_def)
qed simp

lemma tally_pos: "i < length xs \<Longrightarrow> P (xs ! i) \<Longrightarrow> tally P xs > 0"
  by (auto simp: tally_def filter_empty_conv)

lemma tally_zero: "tally P xs = 0 \<Longrightarrow> x \<in> set xs \<Longrightarrow> \<not> P x"
  by (auto simp: tally_def filter_empty_conv)

lemma tally_cong: "(\<And>x. x \<in> set xs \<Longrightarrow> P x = Q x) \<Longrightarrow> tally P xs = tally Q xs"
  by (auto simp: tally_def cong: filter_cong)

lemma tally_indices: "tally P xs = length (filter (\<lambda>i. P (xs ! i)) [0..<length xs])"
proof -
  have "tally P (map (\<lambda>i. xs ! i) [0..<length xs]) = length (filter (\<lambda>i. P (xs ! i)) [0..<length xs])"
    by (simp add: tally_def filter_map comp_def)
  then show ?thesis by (simp only: map_nth)
qed

definition openOf :: "upstream_kind \<Rightarrow> upstream_lease \<Rightarrow> bool" where
  "openOf kind u = (\<not> ul_released u \<and> ul_kind u = kind)"

definition openFor :: "nat \<Rightarrow> upstream_lease \<Rightarrow> bool" where
  "openFor c u = (\<not> ul_released u \<and> ul_client u = c)"

section \<open>The invariant\<close>

text \<open>The client numbers in \<open>S\<close> may still be counted although nothing of them is open.\<close>

definition leasesInv :: "package_limits \<Rightarrow> nat set \<Rightarrow> package_ledger \<Rightarrow> bool" where
  "leasesInv l S pg =
     ((\<forall>c < length (pg_clients pg).
         cs_activeUpstreams (pg_clients pg ! c) = tally (openFor c) (pg_upstreams pg) \<and>
         (cs_active (pg_clients pg ! c) \<or> cs_activeUpstreams (pg_clients pg ! c) > 0 \<longrightarrow> cs_counted (pg_clients pg ! c)) \<and>
         (c \<in> S \<or> (cs_counted (pg_clients pg ! c) \<longrightarrow> cs_active (pg_clients pg ! c) \<or> cs_activeUpstreams (pg_clients pg ! c) > 0)) \<and>
         of_nat (cs_derivedAttempts (pg_clients pg ! c)) \<le> pl_maxDerivedPerClient l) \<and>
      (\<forall>u \<in> set (pg_upstreams pg). ul_client u < length (pg_clients pg)) \<and>
      pg_activeClients pg = tally cs_counted (pg_clients pg) \<and>
      pg_activeDirect pg = tally (openOf Direct) (pg_upstreams pg) \<and>
      pg_activeDerived pg = tally (openOf Derived) (pg_upstreams pg) \<and>
      of_nat (pg_activeClients pg) \<le> pl_maxConcurrentClients l \<and>
      of_nat (pg_activeDirect pg) \<le> pl_maxConcurrentClients l \<and>
      of_nat (pg_activeDerived pg) \<le> pl_maxConcurrentDerived l \<and>
      of_nat (pg_activeDirect pg + pg_activeDerived pg) \<le> pl_maxConcurrentUpstreams l \<and>
      pg_transferredBytes pg = sum_list (map cs_bytes (pg_clients pg)))"

lemma leasesInvD:
  assumes "leasesInv l S pg"
  shows "pg_activeClients pg = tally cs_counted (pg_clients pg)" "pg_activeDirect pg = tally (openOf Direct) (pg_upstreams pg)"
    "pg_activeDerived pg = tally (openOf Derived) (pg_upstreams pg)" "of_nat (pg_activeClients pg) \<le> pl_maxConcurrentClients l"
    "of_nat (pg_activeDirect pg) \<le> pl_maxConcurrentClients l" "of_nat (pg_activeDerived pg) \<le> pl_maxConcurrentDerived l"
    "of_nat (pg_activeDirect pg + pg_activeDerived pg) \<le> pl_maxConcurrentUpstreams l"
    "pg_transferredBytes pg = sum_list (map cs_bytes (pg_clients pg))"
    "u \<in> set (pg_upstreams pg) \<Longrightarrow> ul_client u < length (pg_clients pg)"
    "c < length (pg_clients pg) \<Longrightarrow> cs_activeUpstreams (pg_clients pg ! c) = tally (openFor c) (pg_upstreams pg)"
  using assms by (auto simp: leasesInv_def)

text \<open>Attempts and tokens are not part of it.\<close>

lemma consumeAttempt_same:
  assumes "consumeAttempt l d now pg = (pg', r)"
  shows "pg_clients pg' = pg_clients pg" "pg_upstreams pg' = pg_upstreams pg" "pg_activeClients pg' = pg_activeClients pg"
    "pg_activeDirect pg' = pg_activeDirect pg" "pg_activeDerived pg' = pg_activeDerived pg"
    "pg_transferredBytes pg' = pg_transferredBytes pg" "leasesInv l S pg' = leasesInv l S pg"
proof -
  show same: "pg_clients pg' = pg_clients pg" "pg_upstreams pg' = pg_upstreams pg" "pg_activeClients pg' = pg_activeClients pg"
    "pg_activeDirect pg' = pg_activeDirect pg" "pg_activeDerived pg' = pg_activeDerived pg"
    "pg_transferredBytes pg' = pg_transferredBytes pg"
    using assms by (auto simp: consumeAttempt_def refill_def Let_def split: if_splits)
  show "leasesInv l S pg' = leasesInv l S pg" by (simp only: leasesInv_def same)
qed

lemma lt_le_of_nat: "\<not> (of_nat n :: rat) \<ge> m \<Longrightarrow> m = of_int \<lfloor>m\<rfloor> \<Longrightarrow> of_nat (n + 1) \<le> m"
proof -
  assume a: "\<not> (of_nat n :: rat) \<ge> m" "m = of_int \<lfloor>m\<rfloor>"
  then have "(of_int (int n) :: rat) < of_int \<lfloor>m\<rfloor>" by simp
  then have "int n + 1 \<le> \<lfloor>m\<rfloor>" by linarith
  then have "(of_int (int n + 1) :: rat) \<le> of_int \<lfloor>m\<rfloor>" by (simp only: of_int_le_iff)
  then show ?thesis using a(2) by simp
qed

lemma limits_integral:
  assumes "validateLimits l"
  shows "pl_maxConcurrentClients l = of_int \<lfloor>pl_maxConcurrentClients l\<rfloor>" "pl_maxDerivedPerClient l = of_int \<lfloor>pl_maxDerivedPerClient l\<rfloor>"
    "pl_maxConcurrentDerived l = of_int \<lfloor>pl_maxConcurrentDerived l\<rfloor>" "pl_maxConcurrentUpstreams l = of_int \<lfloor>pl_maxConcurrentUpstreams l\<rfloor>"
    "pl_maxAttempts l = of_int \<lfloor>pl_maxAttempts l\<rfloor>" "0 < pl_maxConcurrentClients l" "0 < pl_maxConcurrentDerived l"
    "0 < pl_maxConcurrentUpstreams l" "0 < pl_maxDerivedPerClient l" "0 < pl_attemptBurst l" "0 < pl_attemptRefillPerSecond l"
    "0 < pl_maxAttempts l"
  using assms by (auto simp: validateLimits_def integerLimits_def isSafeInteger_def)

lemma leasesInv_admitClient:
  assumes "validateLimits l" "leasesInv l {} pg" "admitClient l now pg = (pg', out)"
  shows "leasesInv l {} pg'"
proof -
  obtain pg1 r where a: "consumeAttempt l False now pg = (pg1, r)" by fastforce
  have inv: "leasesInv l {} pg1" using consumeAttempt_same(7) [OF a] assms(2) by simp
  show ?thesis
  proof (cases "r = None \<and> \<not> of_nat (pg_activeClients pg1) \<ge> pl_maxConcurrentClients l")
    case False
    then show ?thesis using assms(3) a inv by (auto simp: admitClient_def split: option.splits if_splits)
  next
    case True
    let ?cl = "\<lparr>cs_active = True, cs_counted = True, cs_activeUpstreams = 0, cs_derivedAttempts = 0, cs_bytes = 0\<rparr>"
    have pg': "pg' = pg1\<lparr>pg_activeClients := pg_activeClients pg1 + 1, pg_clients := pg_clients pg1 @ [?cl]\<rparr>"
      using assms(3) a True by (auto simp: admitClient_def)
    have le: "of_nat (pg_activeClients pg1 + 1) \<le> pl_maxConcurrentClients l"
      using lt_le_of_nat limits_integral(1) [OF assms(1)] True by blast
    have "\<not> openFor (length (pg_clients pg1)) u" if "u \<in> set (pg_upstreams pg1)" for u
      using leasesInvD(9) [OF inv that] by (simp add: openFor_def)
    then have "tally (openFor (length (pg_clients pg1))) (pg_upstreams pg1) = 0" by (simp add: tally_def filter_empty_conv)
    then show ?thesis using inv le limits_integral(9) [OF assms(1)] unfolding pg'
      by (auto simp: leasesInv_def nth_append less_Suc_eq)
  qed
qed

lemma leasesInv_openUpstream:
  assumes "validateLimits l" "leasesInv l {} pg" "c < length (pg_clients pg)" "cs_active (pg_clients pg ! c)"
    and "upstreamCeilings l c kind pg = None"
  shows "leasesInv l {} (openUpstream c kind pg)"
proof -
  let ?pg = "openUpstream c kind pg" and ?u = "\<lparr>ul_client = c, ul_kind = kind, ul_released = False\<rparr>"
  let ?cl = "(pg_clients pg ! c)\<lparr>cs_activeUpstreams := cs_activeUpstreams (pg_clients pg ! c) + 1,
      cs_derivedAttempts := cs_derivedAttempts (pg_clients pg ! c) + (if kind = Derived then 1 else 0)\<rparr>"
  have fields: "pg_clients ?pg = (pg_clients pg)[c := ?cl]" "pg_upstreams ?pg = pg_upstreams pg @ [?u]"
      "pg_activeClients ?pg = pg_activeClients pg" "pg_transferredBytes ?pg = pg_transferredBytes pg"
      "pg_activeDirect ?pg = pg_activeDirect pg + (if kind = Direct then 1 else 0)"
      "pg_activeDerived ?pg = pg_activeDerived pg + (if kind = Derived then 1 else 0)"
    by (simp_all add: openUpstream_def updateClient_def)
  note lim = limits_integral [OF assms(1)]
  have ceilings: "\<not> of_nat (pg_activeDirect pg + pg_activeDerived pg) \<ge> pl_maxConcurrentUpstreams l"
      "kind = Direct \<Longrightarrow> \<not> of_nat (pg_activeDirect pg) \<ge> pl_maxConcurrentClients l"
      "kind = Derived \<Longrightarrow> \<not> of_nat (cs_derivedAttempts (pg_clients pg ! c)) \<ge> pl_maxDerivedPerClient l"
      "kind = Derived \<Longrightarrow> \<not> of_nat (pg_activeDerived pg) \<ge> pl_maxConcurrentDerived l"
    using assms(5) unfolding upstreamCeilings_def by (simp_all del: of_nat_add split: if_splits)
  have combined: "of_nat (pg_activeDirect pg + pg_activeDerived pg + 1) \<le> pl_maxConcurrentUpstreams l"
    by (rule lt_le_of_nat [OF ceilings(1) lim(4)])
  have direct: "of_nat (pg_activeDirect pg + 1) \<le> pl_maxConcurrentClients l" if "kind = Direct"
    by (rule lt_le_of_nat [OF ceilings(2) [OF that] lim(1)])
  have derived: "of_nat (pg_activeDerived pg + 1) \<le> pl_maxConcurrentDerived l"
      "of_nat (cs_derivedAttempts (pg_clients pg ! c) + 1) \<le> pl_maxDerivedPerClient l" if "kind = Derived"
    by (rule lt_le_of_nat [OF ceilings(4) [OF that] lim(3)]) (rule lt_le_of_nat [OF ceilings(3) [OF that] lim(2)])
  have counted: "cs_counted (pg_clients pg ! c)" using assms(2-4) by (auto simp: leasesInv_def)
  have clients: "tally cs_counted ((pg_clients pg)[c := ?cl]) = tally cs_counted (pg_clients pg)"
    using tally_update [OF assms(3), of cs_counted ?cl] counted by simp
  have bytes: "map cs_bytes ((pg_clients pg)[c := ?cl]) = map cs_bytes (pg_clients pg)"
    by (simp add: map_update list_update_same_conv assms(3))
  have kinds: "kind = Direct \<or> kind = Derived" by (cases kind) auto
  show ?thesis
    unfolding leasesInv_def fields
  proof (intro conjI allI impI)
    fix c' assume "c' < length ((pg_clients pg)[c := ?cl])"
    then have c': "c' < length (pg_clients pg)" by simp
    have old: "cs_activeUpstreams (pg_clients pg ! c') = tally (openFor c') (pg_upstreams pg)" using leasesInvD(10) [OF assms(2) c'] .
    have nth: "(pg_clients pg)[c := ?cl] ! c' = (if c' = c then ?cl else pg_clients pg ! c')" using c' by (simp add: nth_list_update)
    have rest: "of_nat (cs_derivedAttempts (pg_clients pg ! c')) \<le> pl_maxDerivedPerClient l"
      "cs_active (pg_clients pg ! c') \<or> cs_activeUpstreams (pg_clients pg ! c') > 0 \<longleftrightarrow> cs_counted (pg_clients pg ! c')"
      using assms(2) c' by (auto simp: leasesInv_def)
    show "cs_activeUpstreams ((pg_clients pg)[c := ?cl] ! c') = tally (openFor c') (pg_upstreams pg @ [?u])"
      unfolding nth using old by (auto simp: openFor_def)
    show "cs_counted ((pg_clients pg)[c := ?cl] ! c')"
      if "cs_active ((pg_clients pg)[c := ?cl] ! c') \<or> cs_activeUpstreams ((pg_clients pg)[c := ?cl] ! c') > 0"
      using that rest(2) counted unfolding nth by (auto split: if_splits)
    show "c' \<in> {} \<or> (cs_counted ((pg_clients pg)[c := ?cl] ! c') \<longrightarrow>
        cs_active ((pg_clients pg)[c := ?cl] ! c') \<or> cs_activeUpstreams ((pg_clients pg)[c := ?cl] ! c') > 0)"
      using rest(2) unfolding nth by auto
    show "of_nat (cs_derivedAttempts ((pg_clients pg)[c := ?cl] ! c')) \<le> pl_maxDerivedPerClient l"
      using rest(1) derived(2) unfolding nth by auto
  qed (use assms(2,3) clients bytes combined direct derived(1) leasesInvD [OF assms(2)] kinds in
      \<open>auto simp: openOf_def leasesInv_def\<close>)
qed

lemma leasesInv_admitUpstream:
  assumes "validateLimits l" "leasesInv l {} pg" "c < length (pg_clients pg)" "admitUpstream l c kind now pg = (pg', out)"
  shows "leasesInv l {} pg'"
proof (cases "cs_active (pg_clients pg ! c) \<and> \<not> pg_stopped pg")
  case True
  obtain pg1 r where a: "(if kind = Derived then consumeAttempt l True now pg else (pg, None)) = (pg1, r)" by fastforce
  have same: "leasesInv l {} pg1" "pg_clients pg1 = pg_clients pg"
    using a consumeAttempt_same(1,7) assms(2) by (auto split: if_splits)
  show ?thesis
  proof (cases "r = None \<and> upstreamCeilings l c kind pg1 = None")
    case t: True
    then have "pg' = openUpstream c kind pg1" using assms(4) a True by (auto simp: admitUpstream_def)
    then show ?thesis using leasesInv_openUpstream [OF assms(1) same(1)] same(2) assms(3) True t by simp
  next
    case False
    then have "pg' = pg1" using assms(4) a True by (auto simp: admitUpstream_def split: option.splits)
    then show ?thesis using same by simp
  qed
next
  case False
  then show ?thesis using assms(2,4) by (auto simp: admitUpstream_def split: if_splits)
qed

lemma sum_bytes_update:
  fixes f :: "'a \<Rightarrow> nat"
  shows "i < length xs \<Longrightarrow> sum_list (map f (xs[i := x])) + f (xs ! i) = sum_list (map f xs) + f x"
  by (induction xs arbitrary: i) (auto split: nat.split)

lemma leasesInv_charge:
  assumes "leasesInv l {} pg" "c < length (pg_clients pg)" "charge l c k pg = (pg', out)"
  shows "leasesInv l {} pg'"
proof (cases "isSafeInteger k \<and> k \<ge> 0")
  case True
  let ?n = "nat \<lfloor>k\<rfloor>"
  let ?cl = "(pg_clients pg ! c)\<lparr>cs_bytes := cs_bytes (pg_clients pg ! c) + ?n\<rparr>"
  have pg': "pg_clients pg' = (pg_clients pg)[c := ?cl]" "pg_upstreams pg' = pg_upstreams pg" "pg_activeClients pg' = pg_activeClients pg"
      "pg_activeDirect pg' = pg_activeDirect pg" "pg_activeDerived pg' = pg_activeDerived pg"
      "pg_transferredBytes pg' = pg_transferredBytes pg + ?n"
    using assms(3) True by (auto simp: charge_def updateClient_def Let_def)
  have bytes: "sum_list (map cs_bytes ((pg_clients pg)[c := ?cl])) = sum_list (map cs_bytes (pg_clients pg)) + ?n"
    using sum_bytes_update [OF assms(2), of cs_bytes ?cl] by simp
  have clients: "tally cs_counted ((pg_clients pg)[c := ?cl]) = tally cs_counted (pg_clients pg)"
    using tally_update [OF assms(2), of cs_counted ?cl] by simp
  show ?thesis using assms(1,2) unfolding leasesInv_def pg' bytes clients length_list_update by (auto simp: nth_list_update)
next
  case False
  then show ?thesis using assms by (auto simp: charge_def)
qed

lemma leasesInv_settle:
  assumes "leasesInv l {c} pg" "c < length (pg_clients pg)"
  shows "leasesInv l {} (settleClient c pg)"
proof (cases "\<not> cs_active (pg_clients pg ! c) \<and> cs_counted (pg_clients pg ! c) \<and> cs_activeUpstreams (pg_clients pg ! c) = 0")
  case True
  let ?pg = "settleClient c pg" and ?cl = "(pg_clients pg ! c)\<lparr>cs_counted := False\<rparr>"
  have fields: "pg_clients ?pg = (pg_clients pg)[c := ?cl]" "pg_upstreams ?pg = pg_upstreams pg"
      "pg_activeClients ?pg = pg_activeClients pg - 1" "pg_transferredBytes ?pg = pg_transferredBytes pg"
      "pg_activeDirect ?pg = pg_activeDirect pg" "pg_activeDerived ?pg = pg_activeDerived pg"
    using True by (simp_all add: settleClient_def updateClient_def Let_def)
  have clients: "tally cs_counted ((pg_clients pg)[c := ?cl]) = tally cs_counted (pg_clients pg) - 1"
    using tally_update [OF assms(2), of cs_counted ?cl] True by simp
  have bytes: "map cs_bytes ((pg_clients pg)[c := ?cl]) = map cs_bytes (pg_clients pg)"
    by (simp add: map_update list_update_same_conv assms(2))
  have less: "(of_nat (tally cs_counted (pg_clients pg) - 1) :: rat) \<le> of_nat (tally cs_counted (pg_clients pg))" by simp
  have "(of_nat (tally cs_counted (pg_clients pg) - 1) :: rat) \<le> pl_maxConcurrentClients l"
    using less leasesInvD(1,4) [OF assms(1)] by simp
  then show ?thesis using assms True unfolding leasesInv_def fields bytes clients length_list_update by (auto simp: nth_list_update)
next
  case False
  have same: "settleClient c pg = pg" unfolding settleClient_def Let_def by (rule if_not_P [OF False])
  have "cs_counted (pg_clients pg ! c) \<longrightarrow> cs_active (pg_clients pg ! c) \<or> cs_activeUpstreams (pg_clients pg ! c) > 0" using False by auto
  then show ?thesis using assms unfolding same leasesInv_def by auto
qed

lemma leasesInv_releaseClient:
  assumes "leasesInv l {} pg" "c < length (pg_clients pg)"
  shows "leasesInv l {} (releaseClient c pg)"
proof (cases "cs_active (pg_clients pg ! c)")
  case True
  let ?cl = "(pg_clients pg ! c)\<lparr>cs_active := False\<rparr>"
  let ?pg = "updateClient c (\<lambda>cl. cl\<lparr>cs_active := False\<rparr>) pg"
  have fields: "pg_clients ?pg = (pg_clients pg)[c := ?cl]" "pg_upstreams ?pg = pg_upstreams pg"
      "pg_activeClients ?pg = pg_activeClients pg" "pg_transferredBytes ?pg = pg_transferredBytes pg"
      "pg_activeDirect ?pg = pg_activeDirect pg" "pg_activeDerived ?pg = pg_activeDerived pg"
    by (simp_all add: updateClient_def)
  have clients: "tally cs_counted ((pg_clients pg)[c := ?cl]) = tally cs_counted (pg_clients pg)"
    using tally_update [OF assms(2), of cs_counted ?cl] by simp
  have bytes: "map cs_bytes ((pg_clients pg)[c := ?cl]) = map cs_bytes (pg_clients pg)"
    by (simp add: map_update list_update_same_conv assms(2))
  have "leasesInv l {c} ?pg" using assms unfolding leasesInv_def fields bytes clients length_list_update by (auto simp: nth_list_update)
  then show ?thesis using leasesInv_settle assms(2) True by (simp add: releaseClient_def fields)
next
  case False
  then show ?thesis using assms(1) by (simp add: releaseClient_def)
qed

lemma leasesInv_releaseUpstream:
  assumes "leasesInv l {} pg" "u < length (pg_upstreams pg)"
  shows "leasesInv l {} (releaseUpstream u pg)"
proof (cases "ul_released (pg_upstreams pg ! u)")
  case False
  define lease where "lease = pg_upstreams pg ! u"
  define c where "c = ul_client lease"
  have mem: "lease \<in> set (pg_upstreams pg)" using assms(2) by (simp add: lease_def)
  have c: "c < length (pg_clients pg)" using leasesInvD(9) [OF assms(1) mem] by (simp add: c_def)
  let ?cl = "(pg_clients pg ! c)\<lparr>cs_activeUpstreams := cs_activeUpstreams (pg_clients pg ! c) - 1\<rparr>"
  let ?l = "lease\<lparr>ul_released := True\<rparr>"
  define mid where "mid = (updateClient c (\<lambda>cl. cl\<lparr>cs_activeUpstreams := cs_activeUpstreams cl - 1\<rparr>) pg)
                 \<lparr>pg_upstreams := (pg_upstreams pg)[u := ?l],
                  pg_activeDirect := pg_activeDirect pg - (if ul_kind lease = Direct then 1 else 0),
                  pg_activeDerived := pg_activeDerived pg - (if ul_kind lease = Derived then 1 else 0)\<rparr>"
  have fields: "pg_clients mid = (pg_clients pg)[c := ?cl]" "pg_upstreams mid = (pg_upstreams pg)[u := ?l]"
      "pg_activeClients mid = pg_activeClients pg" "pg_transferredBytes mid = pg_transferredBytes pg"
      "pg_activeDirect mid = pg_activeDirect pg - (if ul_kind lease = Direct then 1 else 0)"
      "pg_activeDerived mid = pg_activeDerived pg - (if ul_kind lease = Derived then 1 else 0)"
    by (simp_all add: mid_def updateClient_def)
  have open_lease: "\<not> ul_released lease" using False by (simp add: lease_def)
  have kinds: "tally (openOf kd) ((pg_upstreams pg)[u := ?l]) = tally (openOf kd) (pg_upstreams pg) - (if ul_kind lease = kd then 1 else 0)" for kd
    using tally_update [OF assms(2), of "openOf kd" ?l] open_lease by (auto simp: openOf_def simp flip: lease_def)
  have fors: "tally (openFor c') ((pg_upstreams pg)[u := ?l]) = tally (openFor c') (pg_upstreams pg) - (if c = c' then 1 else 0)" for c'
    using tally_update [OF assms(2), of "openFor c'" ?l] open_lease by (auto simp: openFor_def c_def simp flip: lease_def)
  have "openFor c (pg_upstreams pg ! u)" using open_lease by (simp add: openFor_def c_def lease_def)
  then have "tally (openFor c) (pg_upstreams pg) > 0" by (rule tally_pos [OF assms(2)])
  then have counted: "cs_counted (pg_clients pg ! c)" using assms(1) c leasesInvD(10) [OF assms(1) c] by (auto simp: leasesInv_def)
  have clients: "tally cs_counted ((pg_clients pg)[c := ?cl]) = tally cs_counted (pg_clients pg)"
    using tally_update [OF c, of cs_counted ?cl] by simp
  have bytes: "map cs_bytes ((pg_clients pg)[c := ?cl]) = map cs_bytes (pg_clients pg)"
    by (simp add: map_update list_update_same_conv c)
  have nth: "\<forall>c' < length (pg_clients pg). (pg_clients pg)[c := ?cl] ! c' = (if c' = c then ?cl else pg_clients pg ! c')"
    by (simp add: nth_list_update)
  have owners: "\<forall>x \<in> set ((pg_upstreams pg)[u := ?l]). ul_client x < length (pg_clients pg)"
    using leasesInvD(9) [OF assms(1)] c set_update_subset_insert [of "pg_upstreams pg" u ?l] by (auto simp: c_def)
  have le: "(of_nat (a - b) :: rat) \<le> of_nat a" for a b :: nat by simp
  have ceilings: "of_nat (pg_activeDirect mid) \<le> pl_maxConcurrentClients l" "of_nat (pg_activeDerived mid) \<le> pl_maxConcurrentDerived l"
      "of_nat (pg_activeDirect mid + pg_activeDerived mid) \<le> pl_maxConcurrentUpstreams l"
  proof -
    show "of_nat (pg_activeDirect mid) \<le> pl_maxConcurrentClients l" unfolding fields using leasesInvD(5) [OF assms(1)] le by (rule order_trans [rotated])
    show "of_nat (pg_activeDerived mid) \<le> pl_maxConcurrentDerived l" unfolding fields using leasesInvD(6) [OF assms(1)] le by (rule order_trans [rotated])
    have "(of_nat (pg_activeDirect mid + pg_activeDerived mid) :: rat) \<le> of_nat (pg_activeDirect pg + pg_activeDerived pg)"
      unfolding fields of_nat_le_iff by simp
    then show "of_nat (pg_activeDirect mid + pg_activeDerived mid) \<le> pl_maxConcurrentUpstreams l" using leasesInvD(7) [OF assms(1)] by linarith
  qed
  have "leasesInv l {c} mid"
    unfolding leasesInv_def
  proof (intro conjI allI impI)
    fix c' assume "c' < length (pg_clients mid)"
    then have c': "c' < length (pg_clients pg)" by (simp add: fields)
    note n = nth [rule_format, OF c']
    have old: "cs_activeUpstreams (pg_clients pg ! c') = tally (openFor c') (pg_upstreams pg)"
        "cs_active (pg_clients pg ! c') \<or> cs_activeUpstreams (pg_clients pg ! c') > 0 \<longleftrightarrow> cs_counted (pg_clients pg ! c')"
        "of_nat (cs_derivedAttempts (pg_clients pg ! c')) \<le> pl_maxDerivedPerClient l"
      using assms(1) c' by (auto simp: leasesInv_def)
    show "cs_activeUpstreams (pg_clients mid ! c') = tally (openFor c') (pg_upstreams mid)"
      unfolding fields n fors using old(1) by auto
    show "cs_counted (pg_clients mid ! c')" if "cs_active (pg_clients mid ! c') \<or> cs_activeUpstreams (pg_clients mid ! c') > 0"
      using that old(2) counted unfolding fields n by (auto split: if_splits)
    show "c' \<in> {c} \<or> (cs_counted (pg_clients mid ! c') \<longrightarrow>
        cs_active (pg_clients mid ! c') \<or> cs_activeUpstreams (pg_clients mid ! c') > 0)"
      unfolding fields n using old(2) by auto
    show "of_nat (cs_derivedAttempts (pg_clients mid ! c')) \<le> pl_maxDerivedPerClient l"
      unfolding fields n using old(3) by auto
  qed (use ceilings owners leasesInvD [OF assms(1)] in \<open>simp_all add: fields kinds clients bytes del: One_nat_def\<close>)
  then show ?thesis using leasesInv_settle [of l c mid] c False
    by (simp add: releaseUpstream_def Let_def mid_def c_def lease_def updateClient_def)
next
  case True
  then show ?thesis using assms(1) by (simp add: releaseUpstream_def Let_def)
qed

lemma leasesInv_step:
  assumes "validateLimits l" "leasesInv l {} pg" "ledgerStep l pg e = (pg', out)"
  shows "leasesInv l {} pg'"
proof (cases e)
  case StopLedger
  then show ?thesis using assms by (auto simp: stopLedger_def leasesInv_def)
next
  case (ChargeUpstream u k)
  show ?thesis
  proof (cases "u < length (pg_upstreams pg) \<and> \<not> ul_released (pg_upstreams pg ! u)")
    case True
    then have "ul_client (pg_upstreams pg ! u) < length (pg_clients pg)" using leasesInvD(9) [OF assms(2)] by simp
    then show ?thesis using leasesInv_charge [OF assms(2)] assms(3) ChargeUpstream True by (auto simp: chargeUpstream_def)
  next
    case False
    then show ?thesis using assms ChargeUpstream by (auto simp: chargeUpstream_def split: if_splits)
  qed
next
  case (AdmitClient now)
  then show ?thesis using leasesInv_admitClient [OF assms(1,2)] assms(3) by simp
next
  case (AdmitUpstream c kind now)
  then show ?thesis using leasesInv_admitUpstream [OF assms(1,2)] assms(2,3) by (cases "c < length (pg_clients pg)") auto
next
  case (ChargeClient c k)
  then show ?thesis using leasesInv_charge [OF assms(2)] assms(2,3) by (cases "c < length (pg_clients pg)") auto
next
  case (ReleaseClient c)
  then show ?thesis using leasesInv_releaseClient [OF assms(2)] assms(2,3) by (cases "c < length (pg_clients pg)") auto
next
  case (ReleaseUpstream u)
  then show ?thesis using leasesInv_releaseUpstream [OF assms(2)] assms(2,3) by (cases "u < length (pg_upstreams pg)") auto
qed

lemma leasesInv_run:
  "validateLimits l \<Longrightarrow> leasesInv l {} pg \<Longrightarrow> ledgerRun l pg es = (pg', outs) \<Longrightarrow> leasesInv l {} pg'"
proof (induction es arbitrary: pg outs)
  case (Cons e es)
  obtain pg1 out where s: "ledgerStep l pg e = (pg1, out)" by fastforce
  obtain pg2 outs2 where r: "ledgerRun l pg1 es = (pg2, outs2)" by fastforce
  have "pg2 = pg'" using Cons.prems(3) s r by simp
  then show ?case using Cons.IH [OF Cons.prems(1) leasesInv_step [OF Cons.prems(1,2) s]] r by blast
qed simp

section \<open>Ceilings\<close>

lemma leasesInv_new: "createPackageEgressLedger l now = Some pg \<Longrightarrow> validateLimits l \<and> leasesInv l {} pg"
proof -
  assume a: "createPackageEgressLedger l now = Some pg"
  then have v: "validateLimits l" by (simp add: createPackageEgressLedger_def split: if_splits)
  show ?thesis using a v limits_integral(6-8) [OF v] by (auto simp: createPackageEgressLedger_def leasesInv_def)
qed

text \<open>C31: Whatever calls come in whatever order, the numbers of open direct and derived upstreams are those
  of the leases handed out and not released, a client is counted as long as it or one of its
  upstreams is open, all of them stay within their ceilings, and the session has transferred the sum
  of what its clients have.\<close>

theorem ledger_counts_leases:
  assumes "createPackageEgressLedger l now = Some pg" "ledgerRun l pg calls = (pg', outs)"
  shows "pg_activeDirect pg' = length (filter (openOf Direct) (pg_upstreams pg')) \<and>
    pg_activeDerived pg' = length (filter (openOf Derived) (pg_upstreams pg')) \<and>
    pg_activeClients pg' = length (filter (\<lambda>c. cs_active (pg_clients pg' ! c) \<or> (\<exists>u \<in> set (pg_upstreams pg'). openFor c u))
      [0..<length (pg_clients pg')]) \<and>
    of_nat (pg_activeClients pg') \<le> pl_maxConcurrentClients l \<and> of_nat (pg_activeDerived pg') \<le> pl_maxConcurrentDerived l \<and>
    of_nat (pg_activeDirect pg' + pg_activeDerived pg') \<le> pl_maxConcurrentUpstreams l \<and>
    pg_transferredBytes pg' = sum_list (map cs_bytes (pg_clients pg'))"
proof -
  have v: "validateLimits l" "leasesInv l {} pg" using leasesInv_new [OF assms(1)] by blast+
  have inv: "leasesInv l {} pg'" by (rule leasesInv_run [OF v assms(2)])
  have counted: "cs_counted (pg_clients pg' ! c) = (cs_active (pg_clients pg' ! c) \<or> (\<exists>u \<in> set (pg_upstreams pg'). openFor c u))"
    if "c < length (pg_clients pg')" for c
    using inv that by (auto simp: leasesInv_def tally_def filter_empty_conv)
  have "tally cs_counted (pg_clients pg') = length (filter (\<lambda>c. cs_counted (pg_clients pg' ! c)) [0..<length (pg_clients pg')])"
    by (rule tally_indices)
  also have "filter (\<lambda>c. cs_counted (pg_clients pg' ! c)) [0..<length (pg_clients pg')] =
      filter (\<lambda>c. cs_active (pg_clients pg' ! c) \<or> (\<exists>u \<in> set (pg_upstreams pg'). openFor c u)) [0..<length (pg_clients pg')]"
    by (rule filter_cong [OF refl]) (simp add: counted)
  finally show ?thesis using leasesInvD [OF inv] by (simp add: tally_def)
qed

section \<open>Attempts\<close>

text \<open>The calls that take a token, at their time; the admitted ones among them.\<close>

definition ratedTime :: "ledger_call \<Rightarrow> rat option" where
  "ratedTime e = (case e of AdmitClient now \<Rightarrow> Some now | AdmitUpstream c Derived now \<Rightarrow> Some now | _ \<Rightarrow> None)"

fun isAdmitted :: "ledger_outcome \<Rightarrow> bool" where
  "isAdmitted (Admitted _) = True"
| "isAdmitted _ = False"

definition admittedAttempts :: "ledger_call list \<Rightarrow> ledger_outcome list \<Rightarrow> nat" where
  "admittedAttempts calls outs = length (filter (\<lambda>(e, out). ratedTime e \<noteq> None \<and> isAdmitted out) (zip calls outs))"

text \<open>The clock does not run backwards.\<close>

fun clockForward :: "rat \<Rightarrow> ledger_call list \<Rightarrow> bool" where
  "clockForward t [] = True"
| "clockForward t (e # es) = (case ratedTime e of None \<Rightarrow> clockForward t es | Some now \<Rightarrow> t \<le> now \<and> clockForward now es)"

definition bucketStep :: "package_limits \<Rightarrow> nat \<Rightarrow> package_ledger \<Rightarrow> package_ledger \<Rightarrow> bool" where
  "bucketStep l n pg pg' =
     (0 \<le> pg_tokens pg' \<and> pg_lastRefill pg \<le> pg_lastRefill pg' \<and>
      pg_tokens pg' + of_nat n \<le> pg_tokens pg + (pg_lastRefill pg' - pg_lastRefill pg) / 1000 * pl_attemptRefillPerSecond l \<and>
      pg_attempts pg + n \<le> pg_attempts pg' \<and> (n = 0 \<or> of_nat (pg_attempts pg + n) \<le> pl_maxAttempts l))"

lemma bucketStep_refl: "0 \<le> pg_tokens pg \<Longrightarrow> pg_tokens pg' = pg_tokens pg \<Longrightarrow> pg_lastRefill pg' = pg_lastRefill pg \<Longrightarrow>
    pg_attempts pg' = pg_attempts pg \<Longrightarrow> bucketStep l 0 pg pg'"
  by (simp add: bucketStep_def)

lemma bucketStep_weaken: "bucketStep l 1 pg pg' \<Longrightarrow> bucketStep l 0 pg pg'"
  by (simp add: bucketStep_def)

lemma bucketStep_cong:
  "pg_tokens a = pg_tokens b \<Longrightarrow> pg_lastRefill a = pg_lastRefill b \<Longrightarrow> pg_attempts a = pg_attempts b \<Longrightarrow>
     bucketStep l n pg a = bucketStep l n pg b"
  by (simp add: bucketStep_def)

lemma consumeAttempt_bucket:
  assumes "validateLimits l" "0 \<le> pg_tokens pg" "pg_lastRefill pg \<le> now" "consumeAttempt l d now pg = (pg', r)"
  shows "bucketStep l (if r = None then 1 else 0) pg pg'" "pg_lastRefill pg' = now"
proof -
  note lim = limits_integral(10,11) [OF assms(1)]
  have gain: "0 \<le> (now - pg_lastRefill pg) / 1000 * pl_attemptRefillPerSecond l" using assms(3) lim by simp
  have clock: "max 0 (now - pg_lastRefill pg) = now - pg_lastRefill pg" using assms(3) by simp
  show "bucketStep l (if r = None then 1 else 0) pg pg'" "pg_lastRefill pg' = now"
    using assms(2-4) lim gain unfolding consumeAttempt_def refill_def Let_def
    by (auto simp: bucketStep_def clock min_def split: if_splits)
qed

lemma step_bucket:
  assumes "validateLimits l" "0 \<le> pg_tokens pg" "ledgerStep l pg e = (pg', out)"
    and "case ratedTime e of None \<Rightarrow> True | Some now \<Rightarrow> pg_lastRefill pg \<le> now"
  shows "bucketStep l (if ratedTime e \<noteq> None \<and> isAdmitted out then 1 else 0) pg pg'"
    and "case ratedTime e of None \<Rightarrow> pg_lastRefill pg' = pg_lastRefill pg | Some now \<Rightarrow> pg_lastRefill pg' \<le> now"
proof -
  have "bucketStep l (if ratedTime e \<noteq> None \<and> isAdmitted out then 1 else 0) pg pg' \<and>
      (case ratedTime e of None \<Rightarrow> pg_lastRefill pg' = pg_lastRefill pg | Some now \<Rightarrow> pg_lastRefill pg' \<le> now)"
  proof (cases e)
    case (AdmitClient now)
    obtain pg1 r where a: "consumeAttempt l False now pg = (pg1, r)" by fastforce
    note b = consumeAttempt_bucket [OF assms(1,2) _ a]
    show ?thesis using assms(3,4) AdmitClient a b bucketStep_weaken [of l pg pg1]
      by (auto simp: ratedTime_def admitClient_def split: option.splits if_splits
          intro: bucketStep_cong [THEN iffD1, rotated -1])
  next
    case (AdmitUpstream c kind now)
    show ?thesis
    proof (cases "c < length (pg_clients pg) \<and> cs_active (pg_clients pg ! c) \<and> \<not> pg_stopped pg")
      case False
      then show ?thesis using assms AdmitUpstream bucketStep_refl [of pg pg']
        by (auto simp: ratedTime_def admitUpstream_def split: upstream_kind.splits if_splits)
    next
      case t: True
      show ?thesis
      proof (cases kind)
        case Direct
        then show ?thesis using assms(2,3) AdmitUpstream t bucketStep_refl [of pg pg']
          by (auto simp: ratedTime_def admitUpstream_def openUpstream_def updateClient_def split: option.splits)
      next
        case Derived
        obtain pg1 r where a: "consumeAttempt l True now pg = (pg1, r)" by fastforce
        note b = consumeAttempt_bucket [OF assms(1,2) _ a]
        have o: "pg_tokens (openUpstream c kind pg1) = pg_tokens pg1" "pg_lastRefill (openUpstream c kind pg1) = pg_lastRefill pg1"
            "pg_attempts (openUpstream c kind pg1) = pg_attempts pg1" by (simp_all add: openUpstream_def updateClient_def)
        have s: "admitUpstream l c Derived now pg = (pg', out)" using assms(3) AdmitUpstream t Derived by simp
        show ?thesis using assms(4) AdmitUpstream Derived a b t s bucketStep_weaken [of l pg pg1] bucketStep_cong [OF o, of l 1 pg] o(2)
          by (auto simp: ratedTime_def admitUpstream_def split: option.splits if_splits)
      qed
    qed
  next
    case (ChargeClient c k)
    then show ?thesis using assms(2,3) bucketStep_refl [of pg pg']
      by (auto simp: ratedTime_def charge_def updateClient_def Let_def split: if_splits)
  next
    case (ChargeUpstream u k)
    then show ?thesis using assms(2,3) bucketStep_refl [of pg pg']
      by (auto simp: ratedTime_def chargeUpstream_def charge_def updateClient_def Let_def split: if_splits)
  next
    case (ReleaseClient c)
    then show ?thesis using assms(2,3) bucketStep_refl [of pg pg']
      by (auto simp: ratedTime_def releaseClient_def settleClient_def updateClient_def Let_def split: if_splits)
  next
    case (ReleaseUpstream u)
    then show ?thesis using assms(2,3) bucketStep_refl [of pg pg']
      by (auto simp: ratedTime_def releaseUpstream_def settleClient_def updateClient_def Let_def split: if_splits)
  next
    case StopLedger
    then show ?thesis using assms(2,3) bucketStep_refl [of pg pg'] by (auto simp: ratedTime_def stopLedger_def)
  qed
  then show "bucketStep l (if ratedTime e \<noteq> None \<and> isAdmitted out then 1 else 0) pg pg'"
    and "case ratedTime e of None \<Rightarrow> pg_lastRefill pg' = pg_lastRefill pg | Some now \<Rightarrow> pg_lastRefill pg' \<le> now" by blast+
qed

lemma bucketStep_trans:
  assumes "bucketStep l m a b" "bucketStep l n b c"
  shows "bucketStep l (m + n) a c"
proof -
  define X where "X = (pg_lastRefill b - pg_lastRefill a) / 1000 * pl_attemptRefillPerSecond l"
  define Y where "Y = (pg_lastRefill c - pg_lastRefill b) / 1000 * pl_attemptRefillPerSecond l"
  have sum: "(pg_lastRefill c - pg_lastRefill a) / 1000 * pl_attemptRefillPerSecond l = X + Y"
    by (simp add: X_def Y_def field_simps)
  have ab: "pg_tokens b + of_nat m \<le> pg_tokens a + X" "pg_lastRefill a \<le> pg_lastRefill b" "pg_attempts a + m \<le> pg_attempts b"
      "m = 0 \<or> of_nat (pg_attempts a + m) \<le> pl_maxAttempts l"
    using assms(1) unfolding bucketStep_def X_def by blast+
  have bc: "0 \<le> pg_tokens c" "pg_tokens c + of_nat n \<le> pg_tokens b + Y" "pg_lastRefill b \<le> pg_lastRefill c" "pg_attempts b + n \<le> pg_attempts c"
      "n = 0 \<or> of_nat (pg_attempts b + n) \<le> pl_maxAttempts l"
    using assms(2) unfolding bucketStep_def Y_def by blast+
  have "(of_nat (pg_attempts a + m + n) :: rat) \<le> of_nat (pg_attempts b + n)" unfolding of_nat_le_iff using ab(3) by simp
  then have ceiling: "m + n = 0 \<or> of_nat (pg_attempts a + (m + n)) \<le> pl_maxAttempts l"
    using ab(4) bc(5) by (cases "n = 0") (simp_all add: add.assoc)
  have "pg_tokens c + of_nat (m + n) \<le> pg_tokens a + (X + Y)" using ab(1) bc(2) by simp
  then show ?thesis unfolding bucketStep_def sum using ab bc ceiling by simp
qed

lemma clockForward_mono: "clockForward t es \<Longrightarrow> t' \<le> t \<Longrightarrow> clockForward t' es"
  by (induction es arbitrary: t t') (auto split: option.splits)

lemma run_bucket:
  assumes "validateLimits l"
  shows "0 \<le> pg_tokens pg \<Longrightarrow> clockForward (pg_lastRefill pg) calls \<Longrightarrow> ledgerRun l pg calls = (pg', outs) \<Longrightarrow>
    bucketStep l (admittedAttempts calls outs) pg pg'"
proof (induction calls arbitrary: pg outs)
  case Nil
  then show ?case by (simp add: admittedAttempts_def bucketStep_def)
next
  case (Cons e es)
  obtain pg1 out where s: "ledgerStep l pg e = (pg1, out)" by fastforce
  obtain outs1 where r: "ledgerRun l pg1 es = (pg', outs1)" "outs = out # outs1"
    using Cons.prems(3) s by (auto split: prod.splits)
  have "case ratedTime e of None \<Rightarrow> True | Some now \<Rightarrow> pg_lastRefill pg \<le> now"
    using Cons.prems(2) by (auto split: option.splits)
  note b = step_bucket [OF assms Cons.prems(1) s this]
  have "clockForward (pg_lastRefill pg1) es" using Cons.prems(2) b(2) clockForward_mono by (auto split: option.splits)
  moreover have "0 \<le> pg_tokens pg1" using b(1) by (simp add: bucketStep_def)
  ultimately have "bucketStep l (admittedAttempts es outs1) pg1 pg'" using Cons.IH r(1) by blast
  note t = bucketStep_trans [OF b(1) this]
  show ?case
  proof (cases "ratedTime e \<noteq> None \<and> isAdmitted out")
    case True
    have "admittedAttempts (e # es) outs = 1 + admittedAttempts es outs1"
      using True by (auto simp: admittedAttempts_def r(2))
    then show ?thesis using t unfolding if_P [OF True] by simp
  next
    case False
    have "admittedAttempts (e # es) outs = admittedAttempts es outs1"
      using False by (auto simp: admittedAttempts_def r(2))
    then show ?thesis using t unfolding if_not_P [OF False] by simp
  qed
qed

text \<open>C32: As long as the clock does not run backwards, the attempts a session admits are at most the burst
  and what the refill rate has added since the start, and never more than the attempt ceiling.\<close>

theorem attempts_rate_limited:
  assumes "createPackageEgressLedger l t0 = Some pg" "clockForward t0 calls" "ledgerRun l pg calls = (pg', outs)"
  shows "of_nat (admittedAttempts calls outs) \<le> pl_attemptBurst l + (pg_lastRefill pg' - t0) / 1000 * pl_attemptRefillPerSecond l \<and>
    of_nat (admittedAttempts calls outs) \<le> pl_maxAttempts l"
proof -
  have v: "validateLimits l" using leasesInv_new [OF assms(1)] by blast
  have pg: "pg_tokens pg = pl_attemptBurst l" "pg_lastRefill pg = t0" "pg_attempts pg = 0"
    using assms(1) by (auto simp: createPackageEgressLedger_def split: if_splits)
  have "bucketStep l (admittedAttempts calls outs) pg pg'"
    by (rule run_bucket [OF v _ _ assms(3)]) (use pg assms(2) limits_integral(10) [OF v] in simp_all)
  then show ?thesis using pg limits_integral(12) [OF v] by (auto simp: bucketStep_def)
qed

text \<open>A clock that is set back refills the same time twice.\<close>

lemma clock_set_back_refills_twice:
  "pg_tokens (refill l 1000 (refill l 0 (pg\<lparr>pg_tokens := 0, pg_lastRefill := 1000\<rparr>))) =
     min (pl_attemptBurst l) (min (pl_attemptBurst l) 0 + pl_attemptRefillPerSecond l)"
  by (simp add: refill_def)

text \<open>A stopped ledger admits nothing more.\<close>

lemma stopped_admits_nothing:
  "pg_stopped pg \<Longrightarrow> \<not> isAdmitted (snd (ledgerStep l pg e))"
  by (cases e) (auto simp: admitClient_def admitUpstream_def consumeAttempt_def refill_def charge_def chargeUpstream_def Let_def
      split: option.splits prod.splits if_splits)

section \<open>A run\<close>

definition ledgerCalls :: "ledger_call list" where
  "ledgerCalls = [AdmitClient 0, AdmitUpstream 0 Direct 0, ReleaseClient 0, AdmitClient 500, ChargeUpstream 0 7]"

definition ledgerLimits :: package_limits where
  "ledgerLimits = \<lparr>pl_maxAttempts = 9, pl_attemptBurst = 2, pl_attemptRefillPerSecond = 1, pl_maxConcurrentClients = 2,
      pl_maxDerivedPerClient = 1, pl_maxConcurrentDerived = 1, pl_maxConcurrentUpstreams = 3,
      pl_maxBytesPerRequest = 10, pl_maxSessionBytes = 20, pl_absoluteTimeoutMs = 1, pl_idleTimeoutMs = 1,
      pl_tlsHandshakeMaxBytes = 1, pl_tlsHandshakeTimeoutMs = 1, pl_dnsTimeoutMs = 1, pl_connectTimeoutMs = 1,
      pl_maxHeaderBytes = 1, pl_maxTargetBytes = 1\<rparr>"

lemma ledger_demo_valid: "validateLimits ledgerLimits"
  by (simp add: validateLimits_def integerLimits_def isSafeInteger_def ledgerLimits_def)

definition ledgerStart :: package_ledger where
  "ledgerStart = \<lparr>pg_attempts = 0, pg_clientAttempts = 0, pg_derivedAttempts = 0, pg_activeClients = 0, pg_activeDirect = 0,
     pg_activeDerived = 0, pg_transferredBytes = 0, pg_tokens = 2, pg_lastRefill = 0, pg_stopped = False, pg_clients = [], pg_upstreams = []\<rparr>"

lemma ledger_demo_start: "createPackageEgressLedger ledgerLimits 0 = Some ledgerStart"
  using ledger_demo_valid by (simp add: createPackageEgressLedger_def ledgerStart_def ledgerLimits_def)

lemma ledger_counts_leases_witness:
  "of_nat (pg_activeClients (fst (ledgerRun ledgerLimits ledgerStart ledgerCalls))) \<le> (2 :: rat)"
  using ledger_counts_leases [OF ledger_demo_start, of ledgerCalls "fst (ledgerRun ledgerLimits ledgerStart ledgerCalls)"
      "snd (ledgerRun ledgerLimits ledgerStart ledgerCalls)"]
  by (simp add: ledgerLimits_def)

lemma attempts_rate_limited_witness:
  "of_nat (admittedAttempts ledgerCalls (snd (ledgerRun ledgerLimits ledgerStart ledgerCalls))) \<le> (9 :: rat)"
proof -
  have clock: "clockForward 0 ledgerCalls" by (simp add: ledgerCalls_def ratedTime_def)
  from attempts_rate_limited [OF ledger_demo_start clock, of "fst (ledgerRun ledgerLimits ledgerStart ledgerCalls)"
      "snd (ledgerRun ledgerLimits ledgerStart ledgerCalls)"]
  show ?thesis by (simp add: ledgerLimits_def)
qed

end
