(* ===== verification/Sse_Framer.thy ===== *)
theory Sse_Framer
  imports IC_Prelude
begin

text \<open>
  The incremental framer of server-sent events (\<open>src/docker/llm-observation/sse-event-framer.ts\<close>), which
  cuts the stream of a model's answer into events while it passes. A string is its UTF-8 encoding, so the
  decoder of the platform only holds back the bytes of a character that is not complete; bytes that are
  not UTF-8 pass as they are. A sink gets the frames in order: they are a list of the result, also of a
  call that ends with an exception.
\<close>

section \<open>State\<close>

record sse_frame =
  fr_eventType :: string
  fr_dataUtf8 :: string

record framer_limits =
  fl_maxStreamBytes :: int
  fl_maxLineBytes :: int
  fl_maxEventBytes :: int
  fl_maxEvents :: int

definition DEFAULT_SSE_EVENT_FRAMER_LIMITS :: framer_limits where
  "DEFAULT_SSE_EVENT_FRAMER_LIMITS =
     \<lparr>fl_maxStreamBytes = 32 * 1024 * 1024, fl_maxLineBytes = 2 * 1024 * 1024, fl_maxEventBytes = 4 * 1024 * 1024,
      fl_maxEvents = 100000\<rparr>"

datatype framing_failure = StreamLimit | LineLimit | EventLimit | EventCountLimit | AlreadyEnded

record sse_framer =
  sf_limits :: framer_limits
  sf_decoder :: string
  sf_lineFragments :: "string list"
  sf_lineBytes :: nat
  sf_eventType :: string
  sf_dataLines :: "string list"
  sf_dataSeen :: bool
  sf_dataBytes :: nat
  sf_eventCount :: nat
  sf_streamBytes :: nat
  sf_skipLeadingLf :: bool
  sf_ended :: bool

text \<open>The limit is accepted.\<close>

definition limitAccepts :: "int \<Rightarrow> bool" where
  "limitAccepts n = (0 < n \<and> n \<le> 2 ^ 53 - 1)"

definition newFramer :: "framer_limits \<Rightarrow> sse_framer option" where
  "newFramer l =
     (if limitAccepts (fl_maxStreamBytes l) \<and> limitAccepts (fl_maxLineBytes l) \<and> limitAccepts (fl_maxEventBytes l) \<and>
         limitAccepts (fl_maxEvents l)
      then Some \<lparr>sf_limits = l, sf_decoder = [], sf_lineFragments = [], sf_lineBytes = 0, sf_eventType = [], sf_dataLines = [],
                 sf_dataSeen = False, sf_dataBytes = 0, sf_eventCount = 0, sf_streamBytes = 0, sf_skipLeadingLf = False,
                 sf_ended = False\<rparr>
      else None)"

section \<open>The decoder\<close>

definition isContinuation :: "char \<Rightarrow> bool" where
  "isContinuation c = (0x80 \<le> (of_char c :: nat) \<and> (of_char c :: nat) < 0xC0)"

text \<open>The bytes of the character that a byte starts.\<close>

definition utf8Need :: "char \<Rightarrow> nat" where
  "utf8Need c =
     (let n = (of_char c :: nat)
      in if 0xC0 \<le> n \<and> n < 0xE0 then 2 else if 0xE0 \<le> n \<and> n < 0xF0 then 3 else if 0xF0 \<le> n \<and> n < 0xF8 then 4 else 1)"

text \<open>How many bytes at the end belong to a character that is not complete.\<close>

definition heldBytes :: "string \<Rightarrow> nat" where
  "heldBytes s =
     (let n = length (takeWhile isContinuation (rev s))
      in if n < length s \<and> n + 1 < utf8Need (rev s ! n) then n + 1 else 0)"

text \<open>\<open>decoder.write\<close>: the text, and what is held back.\<close>

definition decoderWrite :: "string \<Rightarrow> string \<Rightarrow> string \<times> string" where
  "decoderWrite held chunk =
     (let all = held @ chunk; n = length all - heldBytes all in (take n all, drop n all))"

section \<open>Operations\<close>

text \<open>The state, the frames the sink got, and the exception.\<close>

type_synonym framed = "sse_framer \<times> sse_frame list \<times> framing_failure option"

definition framedThen :: "framed \<Rightarrow> (sse_framer \<Rightarrow> framed) \<Rightarrow> framed" where
  "framedThen r k =
     (case r of
        (f, fs, Some e) \<Rightarrow> (f, fs, Some e)
      | (f, fs, None) \<Rightarrow> (case k f of (f', fs', e) \<Rightarrow> (f', fs @ fs', e)))"

definition emitEvent :: "sse_framer \<Rightarrow> framed" where
  "emitEvent f =
     (if \<not> sf_dataSeen f then (f, [], None)
      else if int (sf_eventCount f) \<ge> fl_maxEvents (sf_limits f) then (f, [], Some EventCountLimit)
      else (f\<lparr>sf_eventCount := sf_eventCount f + 1\<rparr>,
            [\<lparr>fr_eventType = sf_eventType f, fr_dataUtf8 = joinWith [CHR 0x0A] (sf_dataLines f)\<rparr>], None))"

text \<open>The field and the value of a line; one space after the colon is dropped.\<close>

definition sseField :: "string \<Rightarrow> string \<times> string" where
  "sseField line =
     (if CHR '':'' \<in> set line
      then let raw = tl (dropWhile (\<lambda>c. c \<noteq> CHR '':'') line)
           in (takeWhile (\<lambda>c. c \<noteq> CHR '':'') line, if startsWith raw '' '' then drop 1 raw else raw)
      else (line, []))"

definition clearEvent :: "sse_framer \<Rightarrow> sse_framer" where
  "clearEvent f = f\<lparr>sf_eventType := [], sf_dataLines := [], sf_dataSeen := False, sf_dataBytes := 0\<rparr>"

definition addDataLine :: "string \<Rightarrow> sse_framer \<Rightarrow> framed" where
  "addDataLine v f =
     (let separatorBytes = (if sf_dataSeen f then 1 else 0)
      in if int (sf_dataBytes f + separatorBytes + length v) > fl_maxEventBytes (sf_limits f) then (f, [], Some EventLimit)
         else (f\<lparr>sf_dataLines := sf_dataLines f @ [v], sf_dataSeen := True,
                 sf_dataBytes := sf_dataBytes f + (separatorBytes + length v)\<rparr>, [], None))"

definition processLine :: "string \<Rightarrow> sse_framer \<Rightarrow> framed" where
  "processLine line f =
     (if line = [] then framedThen (if sf_dataSeen f then emitEvent f else (f, [], None)) (\<lambda>f. (clearEvent f, [], None))
      else if startsWith line '':'' then (f, [], None)
      else case sseField line of
             (field, v) \<Rightarrow>
               if field = ''event'' then (f\<lparr>sf_eventType := v\<rparr>, [], None)
               else if field \<noteq> ''data'' then (f, [], None)
               else addDataLine v f)"

definition finishLine :: "sse_framer \<Rightarrow> framed" where
  "finishLine f = processLine (concat (sf_lineFragments f)) (f\<lparr>sf_lineFragments := [], sf_lineBytes := 0\<rparr>)"

definition appendLine :: "string \<Rightarrow> sse_framer \<Rightarrow> framed" where
  "appendLine v f =
     (if v = [] then (f, [], None)
      else if int (sf_lineBytes f + length v) > fl_maxLineBytes (sf_limits f) then (f, [], Some LineLimit)
      else (f\<lparr>sf_lineFragments := sf_lineFragments f @ [v], sf_lineBytes := sf_lineBytes f + length v\<rparr>, [], None))"

definition isEol :: "char \<Rightarrow> bool" where
  "isEol c = (c = CHR 0x0A \<or> c = CHR 0x0D)"

text \<open>The loop over the lines of a text, from its position to its end.\<close>

function processFrom :: "string \<Rightarrow> sse_framer \<Rightarrow> framed" where
  "processFrom s f =
     (if s = [] then (f, [], None)
      else case dropWhile (\<lambda>c. \<not> isEol c) s of
             [] \<Rightarrow> appendLine s f
           | terminator # rest \<Rightarrow>
               framedThen (framedThen (appendLine (takeWhile (\<lambda>c. \<not> isEol c) s) f) finishLine) (\<lambda>f.
                 if terminator = CHR 0x0D
                 then case rest of
                        [] \<Rightarrow> (f\<lparr>sf_skipLeadingLf := True\<rparr>, [], None)
                      | c # rest' \<Rightarrow> processFrom (if c = CHR 0x0A then rest' else rest) f
                 else processFrom rest f))"
  by pat_completeness auto

termination
proof (relation "measure (length \<circ> fst)")
  show "wf (measure (length \<circ> fst))" by simp
next
  fix s :: string and t rest c rest' and f :: sse_framer
  assume s: "dropWhile (\<lambda>c. \<not> isEol c) s = t # rest"
  have "length (t # rest) \<le> length s" unfolding s [symmetric] by (rule length_dropWhile_le)
  then have r: "length rest < length s" by simp
  show "((rest, f), (s, f')) \<in> measure (length \<circ> fst)" for f' :: sse_framer using r by simp
  assume "rest = c # rest'"
  then show "((if c = CHR 0x0A then rest' else rest, f), (s, f')) \<in> measure (length \<circ> fst)" for f' :: sse_framer
    using r by simp
qed

definition processText :: "string \<Rightarrow> sse_framer \<Rightarrow> framed" where
  "processText s f =
     (if sf_skipLeadingLf f then processFrom (if startsWith s [CHR 0x0A] then tl s else s) (f\<lparr>sf_skipLeadingLf := False\<rparr>)
      else processFrom s f)"

definition feedFramer :: "string \<Rightarrow> sse_framer \<Rightarrow> framed" where
  "feedFramer chunk f =
     (if sf_ended f then (f, [], Some AlreadyEnded)
      else if int (sf_streamBytes f + length chunk) > fl_maxStreamBytes (sf_limits f) then (f, [], Some StreamLimit)
      else case decoderWrite (sf_decoder f) chunk of
             (tx, held) \<Rightarrow> processText tx (f\<lparr>sf_streamBytes := sf_streamBytes f + length chunk, sf_decoder := held\<rparr>))"

definition finishFramer :: "sse_framer \<Rightarrow> framed" where
  "finishFramer f =
     (if sf_ended f then (f, [], None)
      else framedThen (framedThen (framedThen (processText (sf_decoder f) (f\<lparr>sf_decoder := []\<rparr>))
             (\<lambda>f. if sf_lineFragments f \<noteq> [] then finishLine f else (f, [], None)))
             (\<lambda>f. if sf_dataSeen f then emitEvent f else (f, [], None)))
             (\<lambda>f. (f\<lparr>sf_ended := True\<rparr>, [], None)))"

text \<open>The chunks of a stream one after the other.\<close>

fun feedAll :: "string list \<Rightarrow> sse_framer \<Rightarrow> framed" where
  "feedAll [] f = (f, [], None)"
| "feedAll (c # cs) f = framedThen (feedFramer c f) (feedAll cs)"

text \<open>Any calls, also after an exception; the frames of all of them.\<close>

datatype framer_call = Feed string | Finish

fun framerCall :: "framer_call \<Rightarrow> sse_framer \<Rightarrow> framed" where
  "framerCall (Feed chunk) f = feedFramer chunk f"
| "framerCall Finish f = finishFramer f"

fun framerCalls :: "framer_call list \<Rightarrow> sse_framer \<Rightarrow> sse_framer \<times> sse_frame list" where
  "framerCalls [] f = (f, [])"
| "framerCalls (c # cs) f =
     (case framerCall c f of (f1, fs1, e) \<Rightarrow> case framerCalls cs f1 of (f2, fs2) \<Rightarrow> (f2, fs1 @ fs2))"

section \<open>Reference\<close>

text \<open>A stream as a whole: its line ends are made the same, a line is a field or a comment, empty lines
  separate blocks, and a block with data is an event.\<close>

fun unifyEol :: "string \<Rightarrow> string" where
  "unifyEol [] = []"
| "unifyEol (c # s) =
     (if c = CHR 0x0D then CHR 0x0A # (case s of [] \<Rightarrow> [] | d # s' \<Rightarrow> if d = CHR 0x0A then unifyEol s' else unifyEol s)
      else c # unifyEol s)"

definition sseLines :: "string \<Rightarrow> string list" where
  "sseLines s = splitOn (CHR 0x0A) (unifyEol s)"

fun blocksOf :: "string list \<Rightarrow> string list list" where
  "blocksOf [] = [[]]"
| "blocksOf (l # ls) = (if l = [] then [] # blocksOf ls else (l # hd (blocksOf ls)) # tl (blocksOf ls))"

definition fieldValues :: "string \<Rightarrow> string list \<Rightarrow> string list" where
  "fieldValues name block = map (snd \<circ> sseField) (filter (\<lambda>l. \<not> startsWith l '':'' \<and> fst (sseField l) = name) block)"

definition blockEvent :: "string list \<Rightarrow> string" where
  "blockEvent block = (let vs = fieldValues ''event'' block in if vs = [] then [] else last vs)"

definition blockData :: "string list \<Rightarrow> string" where
  "blockData block = joinWith [CHR 0x0A] (fieldValues ''data'' block)"

definition blockFrame :: "string list \<Rightarrow> sse_frame option" where
  "blockFrame block =
     (if fieldValues ''data'' block = [] then None
      else Some \<lparr>fr_eventType = blockEvent block, fr_dataUtf8 = blockData block\<rparr>)"

definition sseReference :: "string \<Rightarrow> sse_frame list" where
  "sseReference s = List.map_filter blockFrame (blocksOf (sseLines s))"

text \<open>The stream keeps within the limits.\<close>

definition sseWithin :: "framer_limits \<Rightarrow> string \<Rightarrow> bool" where
  "sseWithin l s =
     (int (length s) \<le> fl_maxStreamBytes l \<and>
      list_all (\<lambda>line. int (length line) \<le> fl_maxLineBytes l) (sseLines s) \<and>
      list_all (\<lambda>b. int (length (blockData b)) \<le> fl_maxEventBytes l) (blocksOf (sseLines s)) \<and>
      int (length (sseReference s)) \<le> fl_maxEvents l)"

end
