(* ===== verification/Sse_Framer_Props.thy ===== *)
theory Sse_Framer_Props
  imports Sse_Framer
begin

text \<open>
  Properties of the event framer: however a stream is cut into chunks, its frames are those of the
  reference, which reads the stream as a whole; a stream within the limits ends without an exception;
  and no sequence of calls delivers more than the limits allow.
\<close>

section \<open>Lines and blocks of a prefix\<close>

definition endsCr :: "string \<Rightarrow> bool" where
  "endsCr s = (s \<noteq> [] \<and> last s = CHR 0x0D)"

definition startsLf :: "string \<Rightarrow> bool" where
  "startsLf s = (s \<noteq> [] \<and> hd s = CHR 0x0A)"

lemma unifyEol_append:
  "unifyEol (p @ q) = unifyEol p @ unifyEol (if endsCr p \<and> startsLf q then tl q else q)"
proof (induction p rule: unifyEol.induct)
  case 1
  then show ?case by (simp add: endsCr_def)
next
  case (2 c s)
  show ?case
  proof (cases "c = CHR 0x0D")
    case False
    then have "endsCr (c # s) = endsCr s" by (simp add: endsCr_def)
    then show ?thesis using 2(3) [OF False] False by simp
  next
    case True
    show ?thesis
    proof (cases s)
      case Nil
      then show ?thesis using True by (cases q) (simp_all add: endsCr_def startsLf_def)
    next
      case (Cons d s')
      have e: "endsCr (c # s) = endsCr s" using Cons by (simp add: endsCr_def)
      show ?thesis
      proof (cases "d = CHR 0x0A")
        case lf: True
        have "endsCr s = endsCr s'" using Cons lf by (simp add: endsCr_def)
        then show ?thesis using 2(1) [OF True Cons lf] True Cons lf e by simp
      next
        case False
        then show ?thesis using 2(2) [OF True Cons False] True Cons e by simp
      qed
    qed
  qed
qed

lemma splitOn_append:
  "splitOn c (x @ y) = butlast (splitOn c x) @ (last (splitOn c x) @ hd (splitOn c y)) # tl (splitOn c y)"
proof (induction x)
  case (Cons a x)
  then show ?case using splitOn_nonempty [of c x] by (cases "splitOn c x") (auto split: list.splits)
qed (use splitOn_nonempty [of c y] in simp)

lemma blocksOf_nonempty [simp]: "blocksOf ls \<noteq> []"
  by (induction ls) auto

lemma blocksOf_append:
  "blocksOf (a @ b) = butlast (blocksOf a) @ (last (blocksOf a) @ hd (blocksOf b)) # tl (blocksOf b)"
proof (induction a)
  case (Cons l ls)
  then show ?case using blocksOf_nonempty [of ls] by (cases "blocksOf ls") auto
qed simp

lemma blocksOf_snoc:
  "blocksOf (a @ [l]) = (if l = [] then blocksOf a @ [[]] else butlast (blocksOf a) @ [last (blocksOf a) @ [l]])"
  by (simp add: blocksOf_append)

lemma sseLines_nonempty [simp]: "sseLines s \<noteq> []"
  by (simp add: sseLines_def)

lemma sseLines_append:
  "\<not> (endsCr p \<and> startsLf q) \<Longrightarrow>
     sseLines (p @ q) = butlast (sseLines p) @ (last (sseLines p) @ hd (sseLines q)) # tl (sseLines q)"
  by (auto simp: sseLines_def unifyEol_append splitOn_append)

lemma sseLines_crlf: "endsCr p \<Longrightarrow> sseLines (p @ [CHR 0x0A]) = sseLines p"
  by (simp add: sseLines_def unifyEol_append startsLf_def splitOn_append)

lemma unifyEol_plain: "list_all (\<lambda>c. \<not> isEol c) w \<Longrightarrow> unifyEol w = w"
  by (induction w) (auto simp: isEol_def)

lemma sseLines_plain: "list_all (\<lambda>c. \<not> isEol c) w \<Longrightarrow> sseLines w = [w]"
  unfolding sseLines_def by (subst unifyEol_plain) (auto intro!: splitOn_no_sep_id simp: list_all_iff isEol_def)

lemma sseLines_word:
  assumes "list_all (\<lambda>c. \<not> isEol c) w"
  shows "butlast (sseLines (p @ w)) = butlast (sseLines p)" "last (sseLines (p @ w)) = last (sseLines p) @ w"
proof -
  have "\<not> startsLf w" using assms by (cases w) (auto simp: startsLf_def isEol_def)
  then have "sseLines (p @ w) = butlast (sseLines p) @ [last (sseLines p) @ w]"
    using sseLines_append [of p w] sseLines_plain [OF assms] by simp
  then show "butlast (sseLines (p @ w)) = butlast (sseLines p)" "last (sseLines (p @ w)) = last (sseLines p) @ w" by simp_all
qed

lemma sseLines_eol:
  assumes "isEol t" "\<not> (endsCr p \<and> t = CHR 0x0A)"
  shows "sseLines (p @ [t]) = sseLines p @ [[]]"
proof -
  have "sseLines [t] = [[], []]" using assms(1) by (auto simp: isEol_def sseLines_def)
  moreover have "\<not> (endsCr p \<and> startsLf [t])" using assms(2) by (simp add: startsLf_def)
  ultimately show ?thesis using sseLines_append [of p "[t]"] by (simp add: append_butlast_last_id)
qed

text \<open>The complete lines of a prefix are the first lines of the stream, and its last line begins the next.\<close>

lemma sseLines_prefix: "\<exists>x rest. sseLines (p @ q) = butlast (sseLines p) @ (last (sseLines p) @ x) # rest"
proof (cases "endsCr p \<and> startsLf q")
  case False
  then show ?thesis using sseLines_append [OF False] by blast
next
  case True
  then obtain q' where q: "q = CHR 0x0A # q'" by (cases q) (auto simp: startsLf_def)
  have "sseLines (p @ q) = butlast (sseLines (p @ [CHR 0x0A])) @ (last (sseLines (p @ [CHR 0x0A])) @ hd (sseLines q')) # tl (sseLines q')"
    using sseLines_append [of "p @ [CHR 0x0A]" q'] q by (simp add: endsCr_def)
  then show ?thesis using True sseLines_crlf [of p] by auto
qed

section \<open>The state after a prefix\<close>

definition linesWithin :: "framer_limits \<Rightarrow> string list \<Rightarrow> bool" where
  "linesWithin l ls =
     (list_all (\<lambda>line. int (length line) \<le> fl_maxLineBytes l) ls \<and>
      list_all (\<lambda>b. int (length (blockData b)) \<le> fl_maxEventBytes l) (blocksOf ls) \<and>
      int (length (List.map_filter blockFrame (blocksOf ls))) \<le> fl_maxEvents l)"

text \<open>The state after the complete lines \<open>ls\<close> and the beginning \<open>cur\<close> of the next, with the frames so far.\<close>

definition framerAt :: "framer_limits \<Rightarrow> sse_framer \<Rightarrow> string list \<Rightarrow> string \<Rightarrow> sse_frame list \<Rightarrow> bool" where
  "framerAt l f ls cur fs =
     (sf_limits f = l \<and> \<not> sf_ended f \<and>
      concat (sf_lineFragments f) = cur \<and> (sf_lineFragments f = []) = (cur = []) \<and> sf_lineBytes f = length cur \<and>
      sf_eventType f = blockEvent (last (blocksOf ls)) \<and> sf_dataLines f = fieldValues ''data'' (last (blocksOf ls)) \<and>
      sf_dataSeen f = (sf_dataLines f \<noteq> []) \<and> sf_dataBytes f = length (blockData (last (blocksOf ls))) \<and>
      fs = List.map_filter blockFrame (butlast (blocksOf ls)) \<and> sf_eventCount f = length fs)"

text \<open>The rest of the state is not touched by the operations on lines.\<close>

definition sameInput :: "sse_framer \<Rightarrow> sse_framer \<Rightarrow> bool" where
  "sameInput f f' = (sf_decoder f' = sf_decoder f \<and> sf_streamBytes f' = sf_streamBytes f)"

lemma framedThen_ok [simp]: "framedThen (f, fs, None) k = (case k f of (f', fs', e) \<Rightarrow> (f', fs @ fs', e))"
  by (simp add: framedThen_def)

lemma map_filter_append: "List.map_filter g (a @ b) = List.map_filter g a @ List.map_filter g b"
  by (simp add: List.map_filter_def)

lemma map_filter_snoc: "List.map_filter g (a @ [x]) = List.map_filter g a @ (case g x of None \<Rightarrow> [] | Some y \<Rightarrow> [y])"
  by (simp add: List.map_filter_def split: option.splits)

lemma linesWithin_line: "linesWithin l (ls @ (cur @ x) # rest) \<Longrightarrow> int (length cur) \<le> fl_maxLineBytes l"
  by (simp add: linesWithin_def)

lemma fieldValues_append: "fieldValues n (a @ b) = fieldValues n a @ fieldValues n b"
  by (simp add: fieldValues_def)

lemma joinWith_append_length: "length (joinWith sep a) \<le> length (joinWith sep (a @ b))"
  by (induction sep a rule: joinWith.induct) (cases b; simp)+

lemma linesWithin_data:
  assumes "linesWithin l (ls @ rest)"
  shows "int (length (blockData (last (blocksOf ls)))) \<le> fl_maxEventBytes l"
proof -
  have "int (length (blockData (last (blocksOf ls) @ hd (blocksOf rest)))) \<le> fl_maxEventBytes l"
    using assms by (simp add: linesWithin_def blocksOf_append)
  moreover have "length (blockData (last (blocksOf ls))) \<le> length (blockData (last (blocksOf ls) @ hd (blocksOf rest)))"
    by (simp add: blockData_def fieldValues_append joinWith_append_length)
  ultimately show ?thesis by linarith
qed

lemma linesWithin_count:
  assumes "linesWithin l (ls @ [] # rest)"
  shows "int (length (List.map_filter blockFrame (blocksOf ls))) \<le> fl_maxEvents l"
proof -
  have "blocksOf (ls @ [] # rest) = blocksOf ls @ blocksOf rest" by (simp add: blocksOf_append)
  then show ?thesis using assms by (simp add: linesWithin_def map_filter_append)
qed

lemma appendLine_at:
  assumes "framerAt l f ls cur fs" "int (length (cur @ w)) \<le> fl_maxLineBytes l"
  shows "\<exists>f'. appendLine w f = (f', [], None) \<and> framerAt l f' ls (cur @ w) fs \<and> sameInput f f' \<and>
    sf_skipLeadingLf f' = sf_skipLeadingLf f"
  using assms by (auto simp: appendLine_def framerAt_def sameInput_def)

lemma joinWith_length_snoc: "length (joinWith [c] (xs @ [v])) = length (joinWith [c] xs) + (if xs = [] then 0 else 1) + length v"
  by (induction "[c]" xs rule: joinWith.induct) auto

lemma fieldValues_Nil [simp]: "fieldValues n [] = []"
  by (simp add: fieldValues_def)

lemma blockData_Nil [simp]: "blockData [] = []" and blockEvent_Nil [simp]: "blockEvent [] = []"
  by (simp_all add: blockData_def blockEvent_def)

lemma fieldValues_snoc:
  "fieldValues n (b @ [l]) = fieldValues n b @ (if \<not> startsWith l '':'' \<and> fst (sseField l) = n then [snd (sseField l)] else [])"
  by (simp add: fieldValues_def)

lemma processLine_empty:
  assumes at: "framerAt l f ls [] fs" and within: "linesWithin l (ls @ [] # rest)"
  shows "\<exists>f' fs'. processLine [] f = (f', fs', None) \<and> framerAt l f' (ls @ [[]]) [] (fs @ fs') \<and> sameInput f f' \<and>
    sf_skipLeadingLf f' = sf_skipLeadingLf f"
proof -
  obtain front b where bs: "blocksOf ls = front @ [b]" by (metis append_butlast_last_id blocksOf_nonempty)
  note at' = at [unfolded framerAt_def bs last_snoc butlast_snoc]
  have bs': "blocksOf (ls @ [[]]) = (front @ [b]) @ [[]]" by (simp add: blocksOf_snoc bs)
  show ?thesis
  proof (cases "sf_dataSeen f")
    case False
    then have "blockFrame b = None" using at' by (simp add: blockFrame_def)
    then show ?thesis using False at' unfolding framerAt_def bs' last_snoc butlast_snoc
      by (simp add: processLine_def clearEvent_def sameInput_def map_filter_snoc)
  next
    case True
    then have fr: "blockFrame b = Some \<lparr>fr_eventType = sf_eventType f, fr_dataUtf8 = joinWith [CHR 0x0A] (sf_dataLines f)\<rparr>"
      using at' by (simp add: blockFrame_def blockData_def)
    have "int (length fs + 1) \<le> fl_maxEvents l"
      using linesWithin_count [OF within] at' by (simp add: bs map_filter_snoc fr)
    then have "\<not> int (sf_eventCount f) \<ge> fl_maxEvents (sf_limits f)" using at' by simp
    then show ?thesis using True at' fr unfolding framerAt_def bs' last_snoc butlast_snoc
      by (simp add: processLine_def emitEvent_def clearEvent_def sameInput_def map_filter_snoc)
  qed
qed

lemma processLine_field:
  assumes at: "framerAt l f ls [] fs" and within: "linesWithin l (ls @ line # rest)" and line: "line \<noteq> []"
  shows "\<exists>f'. processLine line f = (f', [], None) \<and> framerAt l f' (ls @ [line]) [] fs \<and> sameInput f f' \<and>
    sf_skipLeadingLf f' = sf_skipLeadingLf f"
proof -
  obtain front b where bs: "blocksOf ls = front @ [b]" by (metis append_butlast_last_id blocksOf_nonempty)
  note at' = at [unfolded framerAt_def bs last_snoc butlast_snoc]
  have bs': "blocksOf (ls @ [line]) = front @ [b @ [line]]" using line by (simp add: blocksOf_snoc bs)
  obtain field v where fv: "sseField line = (field, v)" by fastforce
  consider "startsWith line '':''" | "\<not> startsWith line '':''" "field = ''event''" | "\<not> startsWith line '':''" "field = ''data''"
    | "\<not> startsWith line '':''" "field \<noteq> ''event''" "field \<noteq> ''data''" by blast
  then show ?thesis
  proof cases
    case 3
    have "int (length (blockData (b @ [line]))) \<le> fl_maxEventBytes l"
      using linesWithin_data [of l "ls @ [line]" rest] within bs' by simp
    moreover have len: "length (blockData (b @ [line])) = sf_dataBytes f + ((if sf_dataSeen f then 1 else 0) + length v)"
      using 3 at' by (simp add: blockData_def fieldValues_snoc fv joinWith_length_snoc)
    ultimately show ?thesis using 3 line at' unfolding framerAt_def bs' last_snoc butlast_snoc
      by (simp add: processLine_def addDataLine_def fv sameInput_def fieldValues_snoc Let_def blockEvent_def)
  next
    case 1
    then have "processLine line f = (f, [], None)" using line by (simp add: processLine_def)
    moreover have "blockEvent (b @ [line]) = blockEvent b" "fieldValues ''data'' (b @ [line]) = fieldValues ''data'' b"
      using 1 by (simp_all add: blockEvent_def fieldValues_snoc)
    ultimately show ?thesis using at' unfolding framerAt_def bs' last_snoc butlast_snoc by (simp add: sameInput_def blockData_def)
  next
    case 2
    then have "processLine line f = (f\<lparr>sf_eventType := v\<rparr>, [], None)" using line by (simp add: processLine_def fv)
    moreover have "blockEvent (b @ [line]) = v" "fieldValues ''data'' (b @ [line]) = fieldValues ''data'' b"
      using 2 by (simp_all add: blockEvent_def fieldValues_snoc fv)
    ultimately show ?thesis using at' unfolding framerAt_def bs' last_snoc butlast_snoc by (simp add: sameInput_def blockData_def)
  next
    case 4
    then have "processLine line f = (f, [], None)" using line by (simp add: processLine_def fv)
    moreover have "blockEvent (b @ [line]) = blockEvent b" "fieldValues ''data'' (b @ [line]) = fieldValues ''data'' b"
      using 4 by (simp_all add: blockEvent_def fieldValues_snoc fv)
    ultimately show ?thesis using at' unfolding framerAt_def bs' last_snoc butlast_snoc by (simp add: sameInput_def blockData_def)
  qed
qed

lemma processLine_at:
  assumes "framerAt l f ls [] fs" "linesWithin l (ls @ line # rest)"
  shows "\<exists>f' fs'. processLine line f = (f', fs', None) \<and> framerAt l f' (ls @ [line]) [] (fs @ fs') \<and> sameInput f f' \<and>
    sf_skipLeadingLf f' = sf_skipLeadingLf f"
proof (cases "line = []")
  case True
  then show ?thesis using processLine_empty [OF assms(1)] assms(2) by blast
next
  case False
  obtain f' where "processLine line f = (f', [], None)" "framerAt l f' (ls @ [line]) [] fs" "sameInput f f'"
      "sf_skipLeadingLf f' = sf_skipLeadingLf f"
    using processLine_field [OF assms False] by blast
  then have "processLine line f = (f', [], None) \<and> framerAt l f' (ls @ [line]) [] (fs @ []) \<and> sameInput f f' \<and>
      sf_skipLeadingLf f' = sf_skipLeadingLf f" by simp
  then show ?thesis by blast
qed

lemma finishLine_at:
  assumes at: "framerAt l f ls cur fs" and within: "linesWithin l (ls @ cur # rest)"
  shows "\<exists>f' fs'. finishLine f = (f', fs', None) \<and> framerAt l f' (ls @ [cur]) [] (fs @ fs') \<and> sameInput f f' \<and>
    sf_skipLeadingLf f' = sf_skipLeadingLf f"
proof -
  let ?g = "f\<lparr>sf_lineFragments := [], sf_lineBytes := 0\<rparr>"
  have "framerAt l ?g ls [] fs" using at by (simp add: framerAt_def)
  from processLine_at [OF this within] obtain f' fs' where
    "processLine cur ?g = (f', fs', None)" "framerAt l f' (ls @ [cur]) [] (fs @ fs')" "sameInput ?g f'"
      "sf_skipLeadingLf f' = sf_skipLeadingLf ?g" by blast
  moreover have "finishLine f = processLine cur ?g" using at by (simp add: finishLine_def framerAt_def)
  ultimately show ?thesis by (auto simp: sameInput_def)
qed

section \<open>Texts and chunks\<close>

abbreviation framerAfter :: "framer_limits \<Rightarrow> sse_framer \<Rightarrow> string \<Rightarrow> sse_frame list \<Rightarrow> bool" where
  "framerAfter l f p fs \<equiv> framerAt l f (butlast (sseLines p)) (last (sseLines p)) fs"

text \<open>What an operation on a text leads to: no exception, and the state after the longer prefix.\<close>

definition readsTo :: "framer_limits \<Rightarrow> sse_framer \<Rightarrow> sse_frame list \<Rightarrow> string \<Rightarrow> bool \<Rightarrow> framed \<Rightarrow> bool" where
  "readsTo l f fs p skip r =
     (case r of (f', fs', e) \<Rightarrow> e = None \<and> framerAfter l f' p (fs @ fs') \<and> sameInput f f' \<and> sf_skipLeadingLf f' = skip)"

lemma readsTo_cong:
  assumes "readsTo l g (fs @ fs1) p skip r" "sameInput f g"
  shows "readsTo l f fs p skip (framedThen (g, fs1, None) (\<lambda>_. r))"
  using assms by (auto simp: readsTo_def sameInput_def)

lemma appendLine_after:
  assumes at: "framerAfter l f p fs" and w: "list_all (\<lambda>c. \<not> isEol c) w" and within: "linesWithin l (sseLines (p @ w @ q))"
  shows "readsTo l f fs (p @ w) (sf_skipLeadingLf f) (appendLine w f)"
proof -
  obtain x rest where "sseLines ((p @ w) @ q) = butlast (sseLines (p @ w)) @ (last (sseLines (p @ w)) @ x) # rest"
    using sseLines_prefix by blast
  then have "int (length (last (sseLines p) @ w)) \<le> fl_maxLineBytes l"
    using linesWithin_line [of l "butlast (sseLines p)" "last (sseLines p) @ w" x rest] within by (simp add: sseLines_word [OF w])
  from appendLine_at [OF at this] show ?thesis by (auto simp: readsTo_def sseLines_word [OF w])
qed

lemma finishLine_after:
  assumes at: "framerAfter l f p fs" and t: "isEol t" "\<not> (endsCr p \<and> t = CHR 0x0A)"
    and within: "linesWithin l (sseLines (p @ t # q))"
  shows "readsTo l f fs (p @ [t]) (sf_skipLeadingLf f) (finishLine f)"
proof -
  note e = sseLines_eol [OF t]
  obtain x rest where x: "sseLines ((p @ [t]) @ q) = butlast (sseLines (p @ [t])) @ (last (sseLines (p @ [t])) @ x) # rest"
    using sseLines_prefix by blast
  have "sseLines (p @ t # q) = butlast (sseLines p) @ last (sseLines p) # x # rest" using x by (simp add: e)
  with within have "linesWithin l (butlast (sseLines p) @ last (sseLines p) # x # rest)" by simp
  from finishLine_at [OF at this] show ?thesis by (auto simp: readsTo_def e append_butlast_last_id)
qed

lemma dropWhile_split:
  assumes "dropWhile (\<lambda>c. \<not> isEol c) s = t # rest"
  shows "s = takeWhile (\<lambda>c. \<not> isEol c) s @ t # rest" "isEol t" "list_all (\<lambda>c. \<not> isEol c) (takeWhile (\<lambda>c. \<not> isEol c) s)"
proof -
  show "s = takeWhile (\<lambda>c. \<not> isEol c) s @ t # rest" using takeWhile_dropWhile_id [of "\<lambda>c. \<not> isEol c" s] assms by simp
  show "isEol t" using hd_dropWhile [of "\<lambda>c. \<not> isEol c" s] assms by simp
  show "list_all (\<lambda>c. \<not> isEol c) (takeWhile (\<lambda>c. \<not> isEol c) s)" by (auto simp: list_all_iff dest: set_takeWhileD)
qed

lemma endsCr_append: "endsCr (p @ q) = (if q = [] then endsCr p else endsCr q)"
  by (simp add: endsCr_def)

lemma readsTo_then:
  assumes "readsTo l f fs p skip r" "\<And>g gs. readsTo l f fs p skip (g, gs, None) \<Longrightarrow> framerAfter l g p (fs @ gs) \<Longrightarrow>
      sf_skipLeadingLf g = skip \<Longrightarrow> readsTo l g (fs @ gs) p' skip' (k g)"
  shows "readsTo l f fs p' skip' (framedThen r k)"
proof -
  obtain g gs e where r: "r = (g, gs, e)" by (cases r) auto
  have g: "e = None" "framerAfter l g p (fs @ gs)" "sameInput f g" "sf_skipLeadingLf g = skip"
    using assms(1) by (auto simp: readsTo_def r)
  have "readsTo l g (fs @ gs) p' skip' (k g)" using assms(2) [of g gs] assms(1) g r by simp
  then show ?thesis using g by (auto simp: r readsTo_def sameInput_def split: prod.splits)
qed

declare processFrom.simps [simp del]

lemma framerAt_input [simp]:
  "framerAt l (g\<lparr>sf_skipLeadingLf := b\<rparr>) ls cur fs = framerAt l g ls cur fs"
  "framerAt l (g\<lparr>sf_streamBytes := n\<rparr>) ls cur fs = framerAt l g ls cur fs"
  "framerAt l (g\<lparr>sf_decoder := held\<rparr>) ls cur fs = framerAt l g ls cur fs"
  by (simp_all add: framerAt_def)

lemma processFrom_after:
  "framerAfter l f p fs \<Longrightarrow> \<not> (endsCr p \<and> startsLf s) \<Longrightarrow> \<not> sf_skipLeadingLf f \<Longrightarrow> linesWithin l (sseLines (p @ s @ q)) \<Longrightarrow>
     readsTo l f fs (p @ s) (endsCr s) (processFrom s f)"
proof (induction s f arbitrary: p fs rule: processFrom.induct)
  case (1 s f)
  note at = 1(3) and crlf = 1(4) and skip = 1(5) and within = 1(6)
  show ?case
  proof (cases "s = []")
    case True
    then have "processFrom s f = (f, [], None)" by (simp add: processFrom.simps)
    then show ?thesis using at skip True by (simp add: readsTo_def sameInput_def endsCr_def)
  next
    case False
    show ?thesis
    proof (cases "dropWhile (\<lambda>c. \<not> isEol c) s")
      case Nil
      then have plain: "list_all (\<lambda>c. \<not> isEol c) s" by (simp add: list_all_iff)
      then have "\<not> endsCr s" using False by (auto simp: endsCr_def isEol_def list_all_iff)
      moreover have "processFrom s f = appendLine s f" by (subst processFrom.simps) (simp add: False Nil del: dropWhile_eq_Nil_conv)
      ultimately show ?thesis using appendLine_after [OF at plain within] skip by simp
    next
      case (Cons t rest)
      let ?w = "takeWhile (\<lambda>c. \<not> isEol c) s"
      note split = dropWhile_split [OF Cons]
      have within': "linesWithin l (sseLines (p @ ?w @ t # rest @ q))" using within split(1) by (metis append.assoc append_Cons)
      have a: "readsTo l f fs (p @ ?w) False (appendLine ?w f)" using appendLine_after [OF at split(3) within'] skip by simp
      have t: "\<not> (endsCr (p @ ?w) \<and> t = CHR 0x0A)"
      proof (cases "?w = []")
        case True
        then have "s = t # rest" using split(1) by (metis append_Nil)
        then show ?thesis using crlf True by (auto simp: startsLf_def)
      next
        case False
        then have "\<not> isEol (last ?w)" using split(3) by (simp add: list_all_iff)
        then show ?thesis using False by (auto simp: endsCr_def isEol_def)
      qed
      have b: "readsTo l f fs (p @ ?w @ [t]) False (framedThen (appendLine ?w f) finishLine)"
      proof (rule readsTo_then [OF a])
        fix g gs
        assume "framerAfter l g (p @ ?w) (fs @ gs)" "sf_skipLeadingLf g = False"
        then show "readsTo l g (fs @ gs) (p @ ?w @ [t]) False (finishLine g)"
          using finishLine_after [of l g "p @ ?w" "fs @ gs" t "rest @ q"] split(2) t within' by simp
      qed
      have unfold_step: "processFrom s f = framedThen (framedThen (appendLine ?w f) finishLine) (\<lambda>f.
           if t = CHR 0x0D
           then case rest of [] \<Rightarrow> (f\<lparr>sf_skipLeadingLf := True\<rparr>, [], None)
                | c # rest' \<Rightarrow> processFrom (if c = CHR 0x0A then rest' else rest) f
           else processFrom rest f)"
        by (subst processFrom.simps) (simp add: False Cons)
      show ?thesis unfolding unfold_step
      proof (rule readsTo_then [OF b])
        fix g gs
        assume g: "framerAfter l g (p @ ?w @ [t]) (fs @ gs)" "sf_skipLeadingLf g = False"
        have ps: "p @ s = (p @ ?w @ [t]) @ rest" using split(1) by (metis append.assoc append_Cons append_Nil)
        have last_s: "endsCr s = (if rest = [] then t = CHR 0x0D else endsCr rest)"
          by (subst split(1)) (simp add: endsCr_append, simp add: endsCr_def)
        show "readsTo l g (fs @ gs) (p @ s) (endsCr s)
          (if t = CHR 0x0D then case rest of [] \<Rightarrow> (g\<lparr>sf_skipLeadingLf := True\<rparr>, [], None)
             | c # rest' \<Rightarrow> processFrom (if c = CHR 0x0A then rest' else rest) g else processFrom rest g)"
        proof (cases "t = CHR 0x0D")
          case False
          then have t': "\<not> endsCr (p @ ?w @ [t])" by (simp add: endsCr_def)
          have "readsTo l g (fs @ gs) ((p @ ?w @ [t]) @ rest) (endsCr rest) (processFrom rest g)"
            by (rule 1(2) [OF \<open>s \<noteq> []\<close> Cons False g(1)]) (use t' g(2) within' in simp_all)
          moreover have "endsCr rest = endsCr s" using last_s False by (auto simp: endsCr_def)
          ultimately show ?thesis unfolding ps using False by simp
        next
          case cr: True
          show ?thesis
          proof (cases rest)
            case Nil
            then show ?thesis using g cr last_s unfolding ps by (simp add: readsTo_def sameInput_def)
          next
            case (Cons c rest')
            let ?r = "if c = CHR 0x0A then rest' else rest"
            let ?p = "if c = CHR 0x0A then (p @ ?w @ [t]) @ [c] else p @ ?w @ [t]"
            have cr_end: "endsCr (p @ ?w @ [t])" using cr by (simp add: endsCr_def)
            have lines: "sseLines ?p = sseLines (p @ ?w @ [t])" using sseLines_crlf [OF cr_end] by simp
            have pr: "?p @ ?r = p @ s" unfolding ps Cons by simp
            have at_p: "framerAfter l g ?p (fs @ gs)" unfolding lines by (rule g(1))
            have no_crlf: "\<not> (endsCr ?p \<and> startsLf ?r)" using Cons by (simp add: endsCr_def startsLf_def)
            have "?p @ ?r @ q = p @ s @ q" using pr by (metis append.assoc)
            then have within_p: "linesWithin l (sseLines (?p @ ?r @ q))" using within by (rule ssubst [where P = "\<lambda>v. linesWithin l (sseLines v)"])
            have "readsTo l g (fs @ gs) (?p @ ?r) (endsCr ?r) (processFrom ?r g)"
              by (rule 1(1) [OF \<open>s \<noteq> []\<close> \<open>dropWhile (\<lambda>c. \<not> isEol c) s = t # rest\<close> cr Cons at_p no_crlf _ within_p])
                (simp add: g(2))
            moreover have "endsCr ?r = endsCr s" using last_s Cons by (auto simp: endsCr_def)
            ultimately show ?thesis unfolding pr using cr Cons by simp
          qed
        qed
      qed
    qed
  qed
qed

section \<open>Streams\<close>

text \<open>What the decoder holds back begins with the first byte of a longer character.\<close>

lemma decoderWrite_parts: "decoderWrite held chunk = (tx, held') \<Longrightarrow> tx @ held' = held @ chunk"
  unfolding decoderWrite_def Let_def by (metis append_take_drop_id prod.inject)

lemma hd_of_suffix: "n < length a \<Longrightarrow> hd (drop (length a - (n + 1)) a) = rev a ! n"
  by (simp add: hd_drop_conv_nth rev_nth)

lemma decoderWrite_held:
  assumes "decoderWrite held chunk = (tx, held')" "held' \<noteq> []"
  shows "hd held' \<noteq> CHR 0x0A"
proof -
  let ?all = "held @ chunk"
  let ?n = "length (takeWhile isContinuation (rev ?all))"
  have held': "held' = drop (length ?all - heldBytes ?all) ?all" using assms(1) by (auto simp: decoderWrite_def Let_def)
  then have "heldBytes ?all \<noteq> 0" using assms(2) by auto
  then have n: "?n < length ?all" "?n + 1 < utf8Need (rev ?all ! ?n)" "heldBytes ?all = ?n + 1"
    by (auto simp: heldBytes_def Let_def split: if_splits)
  then have "hd held' = rev ?all ! ?n" unfolding held' n(3) by (intro hd_of_suffix)
  then show ?thesis using n(2) by (auto simp: utf8Need_def)
qed

text \<open>After all bytes \<open>c\<close>: the text read so far, the bytes held back, and whether the next text may begin with
  the second half of a line end.\<close>

definition streamAt :: "framer_limits \<Rightarrow> sse_framer \<Rightarrow> string \<Rightarrow> sse_frame list \<Rightarrow> bool" where
  "streamAt l f c fs =
     (\<exists>p. p @ sf_decoder f = c \<and> framerAfter l f p fs \<and> sf_streamBytes f = length c \<and>
        (sf_decoder f = [] \<or> hd (sf_decoder f) \<noteq> CHR 0x0A) \<and>
        (sf_skipLeadingLf f = endsCr p \<or> \<not> sf_skipLeadingLf f \<and> sf_decoder f \<noteq> []))"

lemma skip_same: "\<not> sf_skipLeadingLf f \<Longrightarrow> f\<lparr>sf_skipLeadingLf := False\<rparr> = f"
  by (cases f) simp

lemma processText_after:
  assumes at: "framerAfter l f p fs" and skip: "sf_skipLeadingLf f = endsCr p \<or> \<not> sf_skipLeadingLf f \<and> \<not> startsLf s"
    and within: "linesWithin l (sseLines (p @ s @ q))"
  shows "\<exists>skip'. readsTo l f fs (p @ s) skip' (processText s f) \<and> (s \<noteq> [] \<longrightarrow> skip' = endsCr (p @ s)) \<and> (s = [] \<longrightarrow> \<not> skip')"
proof (cases "sf_skipLeadingLf f \<and> startsLf s")
  case True
  then obtain s' where s': "s = CHR 0x0A # s'" by (cases s) (auto simp: startsLf_def)
  have cr: "endsCr p" using skip True by blast
  let ?p = "p @ [CHR 0x0A]" and ?f = "f\<lparr>sf_skipLeadingLf := False\<rparr>"
  have at': "framerAfter l ?f ?p fs" using at by (simp add: sseLines_crlf [OF cr])
  have within': "linesWithin l (sseLines (?p @ s' @ q))" using within s' by simp
  have "readsTo l ?f fs (?p @ s') (endsCr s') (processFrom s' ?f)"
    by (rule processFrom_after [OF at' _ _ within']) (simp_all add: endsCr_def)
  moreover have "processText s f = processFrom s' ?f" using True s' by (simp add: processText_def)
  moreover have "endsCr (p @ s) = endsCr s'" using s' by (auto simp: endsCr_def)
  ultimately show ?thesis using s' by (auto simp: readsTo_def sameInput_def)
next
  case False
  let ?f = "f\<lparr>sf_skipLeadingLf := False\<rparr>"
  have text_eq: "processText s f = processFrom s ?f"
  proof (cases "sf_skipLeadingLf f")
    case True
    then have "\<not> startsWith s [CHR 0x0A]" using False by (cases s) (auto simp: startsLf_def)
    then show ?thesis using True by (simp add: processText_def)
  qed (simp add: processText_def skip_same)
  have at': "framerAfter l ?f p fs" using at by simp
  have no_crlf: "\<not> (endsCr p \<and> startsLf s)" using skip False by blast
  have "readsTo l ?f fs (p @ s) (endsCr s) (processFrom s ?f)"
    by (rule processFrom_after [OF at' no_crlf _ within]) simp
  moreover have "s = [] \<Longrightarrow> \<not> endsCr s" by (simp add: endsCr_def)
  ultimately show ?thesis unfolding text_eq by (auto simp: readsTo_def sameInput_def endsCr_append)
qed

lemma feedFramer_at:
  assumes at: "streamAt l f c fs" and chunk: "chunk \<noteq> []" and within: "sseWithin l (c @ chunk @ q)"
  shows "\<exists>f' fs'. feedFramer chunk f = (f', fs', None) \<and> streamAt l f' (c @ chunk) (fs @ fs')"
proof -
  obtain p where p: "p @ sf_decoder f = c" "framerAfter l f p fs" "sf_streamBytes f = length c"
      "sf_decoder f = [] \<or> hd (sf_decoder f) \<noteq> CHR 0x0A"
      "sf_skipLeadingLf f = endsCr p \<or> \<not> sf_skipLeadingLf f \<and> sf_decoder f \<noteq> []"
    using at by (auto simp: streamAt_def)
  obtain tx held where d: "decoderWrite (sf_decoder f) chunk = (tx, held)" by fastforce
  note parts = decoderWrite_parts [OF d]
  let ?f = "f\<lparr>sf_streamBytes := sf_streamBytes f + length chunk, sf_decoder := held\<rparr>"
  have all: "c @ chunk = p @ tx @ held" using p(1) parts by (metis append.assoc)
  have lines: "linesWithin l (sseLines (p @ tx @ held @ q))"
  proof -
    have "p @ tx @ held @ q = c @ chunk @ q" using all by (metis append.assoc)
    then show ?thesis using within by (simp only: sseWithin_def linesWithin_def sseReference_def)
  qed
  have at': "framerAfter l ?f p fs" using p(2) by simp
  have not_lf: "sf_decoder f \<noteq> [] \<Longrightarrow> \<not> startsLf tx"
    using parts p(4) by (cases tx; cases "sf_decoder f") (auto simp: startsLf_def)
  have skip: "sf_skipLeadingLf ?f = endsCr p \<or> \<not> sf_skipLeadingLf ?f \<and> \<not> startsLf tx" using p(5) not_lf by auto
  obtain skip' f' fs' where r: "readsTo l ?f fs (p @ tx) skip' (processText tx ?f)"
      "tx \<noteq> [] \<longrightarrow> skip' = endsCr (p @ tx)" "tx = [] \<longrightarrow> \<not> skip'" "processText tx ?f = (f', fs', None)"
    using processText_after [OF at' skip lines] by (fastforce simp: readsTo_def)
  have f': "framerAfter l f' (p @ tx) (fs @ fs')" "sf_decoder f' = held" "sf_streamBytes f' = length (c @ chunk)"
      "sf_skipLeadingLf f' = skip'"
    using r(1,4) p(3) by (auto simp: readsTo_def sameInput_def)
  have "streamAt l f' (c @ chunk) (fs @ fs')"
    unfolding streamAt_def
  proof (intro exI [of _ "p @ tx"] conjI)
    show "(p @ tx) @ sf_decoder f' = c @ chunk" using all f'(2) by simp
    show "framerAfter l f' (p @ tx) (fs @ fs')" by (rule f'(1))
    show "sf_streamBytes f' = length (c @ chunk)" by (rule f'(3))
    show "sf_decoder f' = [] \<or> hd (sf_decoder f') \<noteq> CHR 0x0A" using decoderWrite_held [OF d] f'(2) by blast
    show "sf_skipLeadingLf f' = endsCr (p @ tx) \<or> \<not> sf_skipLeadingLf f' \<and> sf_decoder f' \<noteq> []"
    proof (cases "tx = []")
      case True
      then have "held \<noteq> []" using parts chunk by auto
      then show ?thesis using r(3) True f'(2,4) by blast
    qed (use r(2) f'(4) in blast)
  qed
  moreover have "int (sf_streamBytes f + length chunk) \<le> fl_maxStreamBytes l" "sf_limits f = l" "\<not> sf_ended f"
    using within p(2,3) by (auto simp: sseWithin_def framerAt_def)
  then have "feedFramer chunk f = processText tx ?f" by (simp add: feedFramer_def d)
  ultimately show ?thesis using r(4) by auto
qed

lemma feedAll_at:
  "streamAt l f c fs \<Longrightarrow> [] \<notin> set chunks \<Longrightarrow> sseWithin l (c @ concat chunks @ q) \<Longrightarrow>
     \<exists>f' fs'. feedAll chunks f = (f', fs', None) \<and> streamAt l f' (c @ concat chunks) (fs @ fs')"
proof (induction chunks arbitrary: f c fs)
  case (Cons chunk chunks)
  have chunk: "chunk \<noteq> []" using Cons.prems(2) by auto
  obtain f1 fs1 where f1: "feedFramer chunk f = (f1, fs1, None)" "streamAt l f1 (c @ chunk) (fs @ fs1)"
    using feedFramer_at [OF Cons.prems(1) chunk, of "concat chunks @ q"] Cons.prems(3) by auto
  obtain f2 fs2 where f2: "feedAll chunks f1 = (f2, fs2, None)" "streamAt l f2 ((c @ chunk) @ concat chunks) ((fs @ fs1) @ fs2)"
    using Cons.IH [OF f1(2)] Cons.prems(2,3) by auto
  show ?case using f1 f2 by simp
qed auto

lemma finishFramer_at:
  assumes at: "streamAt l f c fs" and within: "sseWithin l c"
  shows "\<exists>f' fs'. finishFramer f = (f', fs', None) \<and> fs @ fs' = sseReference c \<and> sf_ended f'"
proof -
  obtain p where p: "p @ sf_decoder f = c" "framerAfter l f p fs" "sf_decoder f = [] \<or> hd (sf_decoder f) \<noteq> CHR 0x0A"
      "sf_skipLeadingLf f = endsCr p \<or> \<not> sf_skipLeadingLf f \<and> sf_decoder f \<noteq> []"
    using at by (auto simp: streamAt_def)
  let ?f = "f\<lparr>sf_decoder := []\<rparr>"
  have lines: "linesWithin l (sseLines c)" using within by (simp add: sseWithin_def linesWithin_def sseReference_def)
  have skip: "sf_skipLeadingLf ?f = endsCr p \<or> \<not> sf_skipLeadingLf ?f \<and> \<not> startsLf (sf_decoder f)"
    using p(3,4) by (auto simp: startsLf_def)
  have "\<exists>skip'. readsTo l ?f fs (p @ sf_decoder f) skip' (processText (sf_decoder f) ?f)"
    using processText_after [of l ?f p fs "sf_decoder f" "[]"] p(2) skip lines p(1) by auto
  then obtain f1 fs1 where f1: "processText (sf_decoder f) ?f = (f1, fs1, None)" "framerAfter l f1 c (fs @ fs1)"
    unfolding p(1) by (fastforce simp: readsTo_def)
  let ?ls = "butlast (sseLines c)" and ?cur = "last (sseLines c)"
  have cl: "sseLines c = ?ls @ [?cur]" by simp
  obtain f2 fs2 where f2: "(if sf_lineFragments f1 \<noteq> [] then finishLine f1 else (f1, [], None)) = (f2, fs2, None)"
      "framerAt l f2 (if ?cur = [] then ?ls else ?ls @ [?cur]) [] (fs @ fs1 @ fs2)"
  proof (cases "sf_lineFragments f1 = []")
    case True
    then have "?cur = []" using f1(2) by (simp add: framerAt_def)
    then show ?thesis using that [of f1 "[]"] True f1(2) by simp
  next
    case False
    then have "?cur \<noteq> []" using f1(2) by (simp add: framerAt_def)
    moreover obtain f' fs' where "finishLine f1 = (f', fs', None)" "framerAt l f' (?ls @ [?cur]) [] ((fs @ fs1) @ fs')"
      using finishLine_at [OF f1(2), of "[]"] lines cl by auto
    ultimately show ?thesis using that [of f' fs'] False by simp
  qed
  let ?all = "if ?cur = [] then ?ls else ?ls @ [?cur]"
  have ref: "sseReference c = List.map_filter blockFrame (blocksOf ?all)"
    unfolding sseReference_def by (subst cl) (simp add: blocksOf_snoc map_filter_snoc blockFrame_def del: append_butlast_last_id)
  obtain front b where bs: "blocksOf ?all = front @ [b]" by (metis append_butlast_last_id blocksOf_nonempty)
  note at2 = f2(2) [unfolded framerAt_def bs last_snoc butlast_snoc]
  have e: "\<exists>f3 fs3. (if sf_dataSeen f2 then emitEvent f2 else (f2, [], None)) = (f3, fs3, None) \<and> fs @ fs1 @ fs2 @ fs3 = sseReference c"
  proof (cases "sf_dataSeen f2")
    case False
    then have "blockFrame b = None" using at2 by (simp add: blockFrame_def)
    then show ?thesis using False at2 unfolding ref bs by (simp add: map_filter_snoc)
  next
    case True
    then have fr: "blockFrame b = Some \<lparr>fr_eventType = sf_eventType f2, fr_dataUtf8 = joinWith [CHR 0x0A] (sf_dataLines f2)\<rparr>"
      using at2 by (simp add: blockFrame_def blockData_def)
    have "int (length (sseReference c)) \<le> fl_maxEvents l" using within by (simp add: sseWithin_def)
    then have "int (length (List.map_filter blockFrame front)) + 1 \<le> fl_maxEvents l" unfolding ref bs by (simp add: map_filter_snoc fr)
    moreover have "sf_eventCount f2 = length (fs @ fs1 @ fs2)" "fs @ fs1 @ fs2 = List.map_filter blockFrame front" "sf_limits f2 = l"
      using at2 by blast+
    ultimately have "\<not> int (sf_eventCount f2) \<ge> fl_maxEvents (sf_limits f2)" by simp
    then have "emitEvent f2 = (f2\<lparr>sf_eventCount := sf_eventCount f2 + 1\<rparr>, [the (blockFrame b)], None)"
      using True fr by (simp add: emitEvent_def)
    moreover have "fs @ fs1 @ fs2 @ [the (blockFrame b)] = sseReference c"
      using at2 unfolding ref bs by (simp add: map_filter_snoc fr)
    ultimately show ?thesis using True by simp
  qed
  then obtain f3 fs3 where f3: "(if sf_dataSeen f2 then emitEvent f2 else (f2, [], None)) = (f3, fs3, None)"
      "fs @ fs1 @ fs2 @ fs3 = sseReference c" by blast
  have "\<not> sf_ended f" using p(2) by (simp add: framerAt_def)
  then have "finishFramer f = (f3\<lparr>sf_ended := True\<rparr>, fs1 @ fs2 @ fs3, None)"
    unfolding finishFramer_def by (simp add: f1(1) f2(1) f3(1))
  then show ?thesis using f3(2) by simp
qed


section \<open>Limits\<close>

definition framerOk :: "framer_limits \<Rightarrow> sse_framer \<Rightarrow> sse_frame list \<Rightarrow> bool" where
  "framerOk l f fs =
     (sf_limits f = l \<and> sf_dataSeen f = (sf_dataLines f \<noteq> []) \<and>
      sf_dataBytes f = length (joinWith [CHR 0x0A] (sf_dataLines f)) \<and> int (sf_dataBytes f) \<le> fl_maxEventBytes l \<and>
      sf_lineBytes f = length (concat (sf_lineFragments f)) \<and> int (sf_lineBytes f) \<le> fl_maxLineBytes l \<and>
      sf_eventCount f = length fs \<and> int (sf_eventCount f) \<le> fl_maxEvents l \<and>
      list_all (\<lambda>fr. int (length (fr_dataUtf8 fr)) \<le> fl_maxEventBytes l) fs \<and>
      int (sf_streamBytes f) \<le> fl_maxStreamBytes l)"

definition keepsOk :: "framer_limits \<Rightarrow> sse_frame list \<Rightarrow> framed \<Rightarrow> bool" where
  "keepsOk l fs r = (case r of (f', fs', e) \<Rightarrow> framerOk l f' (fs @ fs'))"

lemma keepsOk_then:
  "keepsOk l fs r \<Longrightarrow> (\<And>g gs. framerOk l g (fs @ gs) \<Longrightarrow> keepsOk l (fs @ gs) (k g)) \<Longrightarrow> keepsOk l fs (framedThen r k)"
  by (cases r) (fastforce simp: keepsOk_def framedThen_def split: option.splits prod.splits)

lemma emitEvent_keeps: "framerOk l f fs \<Longrightarrow> keepsOk l fs (emitEvent f)"
  by (auto simp: keepsOk_def emitEvent_def framerOk_def)

lemma limits_positive: "framerOk l f fs \<Longrightarrow> 0 \<le> fl_maxEventBytes l \<and> 0 \<le> fl_maxLineBytes l"
  unfolding framerOk_def by linarith

lemma processLine_keeps:
  assumes "framerOk l f fs"
  shows "keepsOk l fs (processLine line f)"
proof -
  have clear: "keepsOk l (fs @ gs) (clearEvent g, [], None)" if "framerOk l g (fs @ gs)" for g gs
    using that limits_positive [OF that] by (simp add: keepsOk_def framerOk_def clearEvent_def)
  have dataLine: "keepsOk l fs (addDataLine v f)" for v
    using assms by (auto simp: keepsOk_def addDataLine_def framerOk_def joinWith_length_snoc)
  have same: "keepsOk l fs (f\<lparr>sf_eventType := v\<rparr>, [], None)" "keepsOk l fs (f, [], None)" for v
    using assms by (simp_all add: keepsOk_def framerOk_def)
  show ?thesis
  proof (cases "line = []")
    case True
    have "keepsOk l fs (if sf_dataSeen f then emitEvent f else (f, [], None))" using emitEvent_keeps [OF assms] same(2) by simp
    from keepsOk_then [OF this clear] show ?thesis using True by (simp add: processLine_def)
  next
    case False
    then show ?thesis using dataLine same by (simp add: processLine_def split: prod.split)
  qed
qed

lemma finishLine_keeps:
  assumes "framerOk l f fs"
  shows "keepsOk l fs (finishLine f)"
  unfolding finishLine_def
  by (rule processLine_keeps) (use assms limits_positive [OF assms] in \<open>simp add: framerOk_def\<close>)

lemma appendLine_keeps: "framerOk l f fs \<Longrightarrow> keepsOk l fs (appendLine v f)"
  by (auto simp: keepsOk_def appendLine_def framerOk_def)

lemma processFrom_keeps: "framerOk l f fs \<Longrightarrow> keepsOk l fs (processFrom s f)"
proof (induction s f arbitrary: fs rule: processFrom.induct)
  case (1 s f)
  show ?case
  proof (cases "s = []")
    case True
    then show ?thesis using 1(3) by (simp add: processFrom.simps keepsOk_def)
  next
    case False
    show ?thesis
    proof (cases "dropWhile (\<lambda>c. \<not> isEol c) s")
      case Nil
      have "processFrom s f = appendLine s f" by (subst processFrom.simps) (simp add: False Nil del: dropWhile_eq_Nil_conv)
      then show ?thesis using appendLine_keeps [OF 1(3)] by simp
    next
      case (Cons t rest)
      have b: "keepsOk l fs (framedThen (appendLine (takeWhile (\<lambda>c. \<not> isEol c) s) f) finishLine)"
        by (rule keepsOk_then [OF appendLine_keeps [OF 1(3)] finishLine_keeps])
      have rest: "keepsOk l (fs @ gs) (if t = CHR 0x0D then case rest of [] \<Rightarrow> (g\<lparr>sf_skipLeadingLf := True\<rparr>, [], None)
             | c # rest' \<Rightarrow> processFrom (if c = CHR 0x0A then rest' else rest) g else processFrom rest g)"
        if g: "framerOk l g (fs @ gs)" for g gs
      proof (cases "t = CHR 0x0D")
        case False
        then show ?thesis using 1(2) [OF \<open>s \<noteq> []\<close> Cons False g] by simp
      next
        case cr: True
        show ?thesis
        proof (cases rest)
          case Nil
          then show ?thesis using cr g by (simp add: keepsOk_def framerOk_def)
        next
          case rest: (Cons c rest')
          then show ?thesis using 1(1) [OF \<open>s \<noteq> []\<close> Cons cr rest g] cr by simp
        qed
      qed
      have "processFrom s f = framedThen (framedThen (appendLine (takeWhile (\<lambda>c. \<not> isEol c) s) f) finishLine) (\<lambda>g.
          if t = CHR 0x0D then case rest of [] \<Rightarrow> (g\<lparr>sf_skipLeadingLf := True\<rparr>, [], None)
             | c # rest' \<Rightarrow> processFrom (if c = CHR 0x0A then rest' else rest) g else processFrom rest g)"
        by (subst processFrom.simps) (simp add: False Cons)
      then show ?thesis using keepsOk_then [OF b rest] by simp
    qed
  qed
qed

lemma processText_keeps: "framerOk l f fs \<Longrightarrow> keepsOk l fs (processText s f)"
  by (auto simp: processText_def framerOk_def intro!: processFrom_keeps)

lemma framerCall_keeps:
  assumes ok: "framerOk l f fs"
  shows "keepsOk l fs (framerCall c f)"
proof (cases c)
  case (Feed chunk)
  have same: "keepsOk l fs (f, [], e)" for e using ok by (simp add: keepsOk_def)
  obtain tx held where d: "decoderWrite (sf_decoder f) chunk = (tx, held)" by fastforce
  have "keepsOk l fs (processText tx (f\<lparr>sf_streamBytes := sf_streamBytes f + length chunk, sf_decoder := held\<rparr>))"
    if "\<not> int (sf_streamBytes f + length chunk) > fl_maxStreamBytes (sf_limits f)"
    by (rule processText_keeps) (use ok that in \<open>simp add: framerOk_def\<close>)
  then show ?thesis using Feed same by (simp add: feedFramer_def d)
next
  case Finish
  have dec: "framerOk l (f\<lparr>sf_decoder := []\<rparr>) fs" using ok by (simp add: framerOk_def)
  have ended: "keepsOk l (fs @ gs) (g\<lparr>sf_ended := True\<rparr>, [], None)" if "framerOk l g (fs @ gs)" for g gs
    using that by (simp add: keepsOk_def framerOk_def)
  have line: "keepsOk l (fs @ gs) (if sf_lineFragments g \<noteq> [] then finishLine g else (g, [], None))"
    if "framerOk l g (fs @ gs)" for g gs
    using finishLine_keeps [OF that] that by (simp add: keepsOk_def)
  have event: "keepsOk l (fs @ gs) (if sf_dataSeen g then emitEvent g else (g, [], None))" if "framerOk l g (fs @ gs)" for g gs
    using emitEvent_keeps [OF that] that by (simp add: keepsOk_def)
  show ?thesis using keepsOk_then [OF keepsOk_then [OF keepsOk_then [OF processText_keeps [OF dec] line] event] ended] ok Finish
    by (simp add: finishFramer_def keepsOk_def)
qed

lemma framerCalls_keeps: "framerOk l f fs \<Longrightarrow> framerCalls cs f = (f', fs') \<Longrightarrow> framerOk l f' (fs @ fs')"
proof (induction cs arbitrary: f fs fs' f')
  case (Cons c cs)
  obtain f1 fs1 e where c: "framerCall c f = (f1, fs1, e)" by (cases "framerCall c f") auto
  obtain f2 fs2 where r: "framerCalls cs f1 = (f2, fs2)" by fastforce
  have "framerOk l f1 (fs @ fs1)" using framerCall_keeps [OF Cons.prems(1), of c] by (simp add: keepsOk_def c)
  from Cons.IH [OF this r] show ?case using Cons.prems(2) c r by simp
qed simp

text \<open>Whatever calls are made, also after an exception, the framer never delivers more events than its
  limit, no event is longer than its limit, and it never takes in or holds more bytes than its limits.\<close>

theorem framer_within_limits:
  assumes "newFramer l = Some f" "framerCalls cs f = (f', fs)"
  shows "int (length fs) \<le> fl_maxEvents l \<and> (\<forall>fr \<in> set fs. int (length (fr_dataUtf8 fr)) \<le> fl_maxEventBytes l) \<and>
    int (sf_streamBytes f') \<le> fl_maxStreamBytes l \<and>
    int (length (concat (sf_lineFragments f'))) \<le> fl_maxLineBytes l \<and>
    int (length (joinWith [CHR 0x0A] (sf_dataLines f'))) \<le> fl_maxEventBytes l"
proof -
  have "framerOk l f []" using assms(1) by (auto simp: newFramer_def framerOk_def limitAccepts_def split: if_splits)
  from framerCalls_keeps [OF this assms(2)] show ?thesis by (auto simp: framerOk_def list_all_iff)
qed

section \<open>Runs\<close>

definition framerDemoLimits :: framer_limits where
  "framerDemoLimits = \<lparr>fl_maxStreamBytes = 100, fl_maxLineBytes = 20, fl_maxEventBytes = 10, fl_maxEvents = 5\<rparr>"

definition framerDemo :: sse_framer where
  "framerDemo = the (newFramer framerDemoLimits)"

definition framerDemoChunks :: "string list" where
  "framerDemoChunks = [''event: x'' @ [CHR 0x0D], [CHR 0x0A] @ ''da'', ''ta: 1'' @ [CHR 0x0A, CHR 0x0A], ''data:2'']"

lemma framer_demo: "newFramer framerDemoLimits = Some framerDemo"
  by (simp add: framerDemo_def newFramer_def framerDemoLimits_def limitAccepts_def)

lemma framer_demo_reference:
  "sseReference (concat framerDemoChunks) =
     [\<lparr>fr_eventType = ''x'', fr_dataUtf8 = ''1''\<rparr>, \<lparr>fr_eventType = [], fr_dataUtf8 = ''2''\<rparr>]"
  by code_simp

lemma framer_demo_within: "sseWithin framerDemoLimits (concat framerDemoChunks)"
  by code_simp


lemma framer_within_limits_witness:
  "int (length (snd (framerCalls [Feed ''data: 1'', Finish, Finish] framerDemo))) \<le> 5"
  using framer_within_limits [OF framer_demo, of "[Feed ''data: 1'', Finish, Finish]"]
  by (cases "framerCalls [Feed ''data: 1'', Finish, Finish] framerDemo") (simp add: framerDemoLimits_def)

text \<open>A chunk without bytes between the two halves of a line end cuts an event in two: the theorem excludes it.\<close>

lemma empty_chunk_splits_event:
  "fst (snd (framedThen (feedAll [''data:1'' @ [CHR 0x0D], [], [CHR 0x0A] @ ''data:2''] framerDemo) finishFramer)) =
     [\<lparr>fr_eventType = [], fr_dataUtf8 = ''1''\<rparr>, \<lparr>fr_eventType = [], fr_dataUtf8 = ''2''\<rparr>]"
  "sseReference (''data:1'' @ [CHR 0x0D, CHR 0x0A] @ ''data:2'') =
     [\<lparr>fr_eventType = [], fr_dataUtf8 = ''1'' @ [CHR 0x0A] @ ''2''\<rparr>]"
  by code_simp+

end
