(* ===== verification/Compiled_Policy.thy ===== *)
theory Compiled_Policy
  imports Policy_Engine
begin

text \<open>
  Compiled policies between the compiler and the engine (\<open>src/pipeline/constitution-compiler.ts\<close>,
  \<open>pipeline-shared.ts\<close>, \<open>pipeline-runner.ts\<close>): patches of a rule list, the validation of compiled rules,
  the resolution of their paths, the merge of the policies of the servers, and the check that a
  persona's policy is not too broad (\<open>src/persona/broad-policy-validator.ts\<close>, \<open>rule-delta.ts\<close>). The locale
  order of names and the digest are parameters. Roles are typed, so the tests for invalid ones are not
  there.
\<close>

section \<open>Data\<close>

record list_definition =
  ld_name :: string
  ld_type :: list_type
  ld_principle :: string
  ld_generationPrompt :: string
  ld_requiresMcp :: bool
  ld_mcpServerHint :: "string option"

datatype rule_patch_op =
    UpdateRule string compiled_rule
  | AddRule "string option" compiled_rule
  | DeleteRule string

datatype patch_error =
    UpdateNotFound string
  | UpdateRenames string string
  | AddExists string
  | AfterNotFound string
  | DeleteNotFound string

section \<open>Patches\<close>

definition ruleIndex :: "string \<Rightarrow> compiled_rule list \<Rightarrow> nat option" where
  "ruleIndex name rules =
     (let i = length (takeWhile (\<lambda>r. r_name r \<noteq> name) rules) in if i < length rules then Some i else None)"

fun applyPatchOp :: "rule_patch_op \<Rightarrow> compiled_rule list \<Rightarrow> patch_error + compiled_rule list" where
  "applyPatchOp (UpdateRule ruleName rule) rules =
     (case ruleIndex ruleName rules of
        None \<Rightarrow> Inl (UpdateNotFound ruleName)
      | Some idx \<Rightarrow> if r_name rule \<noteq> ruleName then Inl (UpdateRenames ruleName (r_name rule)) else Inr (rules[idx := rule]))"
| "applyPatchOp (AddRule afterRule rule) rules =
     (if list_ex (\<lambda>r. r_name r = r_name rule) rules then Inl (AddExists (r_name rule))
      else case afterRule of
             None \<Rightarrow> Inr (rule # rules)
           | Some after \<Rightarrow>
               (case ruleIndex after rules of
                  None \<Rightarrow> Inl (AfterNotFound after)
                | Some idx \<Rightarrow> Inr (take (idx + 1) rules @ rule # drop (idx + 1) rules)))"
| "applyPatchOp (DeleteRule ruleName) rules =
     (case ruleIndex ruleName rules of
        None \<Rightarrow> Inl (DeleteNotFound ruleName)
      | Some idx \<Rightarrow> Inr (take idx rules @ drop (idx + 1) rules))"

fun applyRulePatch :: "compiled_rule list \<Rightarrow> rule_patch_op list \<Rightarrow> patch_error + compiled_rule list" where
  "applyRulePatch rules [] = Inr rules"
| "applyRulePatch rules (op # ops) =
     (case applyPatchOp op rules of Inl e \<Rightarrow> Inl e | Inr rules' \<Rightarrow> applyRulePatch rules' ops)"

definition mergeListDefinitions :: "list_definition list \<Rightarrow> list_definition list option \<Rightarrow> list_definition list" where
  "mergeListDefinitions existing patchLists =
     (case patchLists of
        None \<Rightarrow> existing
      | Some ps \<Rightarrow> existing @ filter (\<lambda>d. ld_name d \<notin> set (map ld_name existing)) ps)"

section \<open>Validation\<close>

datatype rule_issue =
    RelativeWithin string string
  | UnknownDomainList string string
  | NotADomainList string string list_type
  | UnknownList string string
  | DomainListInLists string string
  | MatchTypeDiffers string string list_type list_type
  | StructuralConcept string

datatype rule_warning = EmptyDomains string | OrphanList string

definition isListRef :: "string \<Rightarrow> bool" where
  "isListRef entry = startsWith entry ''@''"

text \<open>\<open>new Map(...)\<close>: of two definitions with one name the later counts.\<close>

definition listDefOf :: "list_definition list \<Rightarrow> string \<Rightarrow> list_definition option" where
  "listDefOf defs name = map_of (rev (map (\<lambda>d. (ld_name d, d)) defs)) name"

definition withinIsAbsolute :: "string \<Rightarrow> bool" where
  "withinIsAbsolute p = (startsWith p ''/'' \<or> startsWith p ''~/'' \<or> p = ''~'')"

definition pathIssues :: "compiled_rule \<Rightarrow> rule_issue list" where
  "pathIssues rule =
     (case c_paths (r_if rule) of
        None \<Rightarrow> []
      | Some pc \<Rightarrow> if withinIsAbsolute (pc_within pc) then [] else [RelativeWithin (r_name rule) (pc_within pc)])"

definition domainEntryIssues :: "list_definition list \<Rightarrow> compiled_rule \<Rightarrow> string \<Rightarrow> rule_issue list" where
  "domainEntryIssues defs rule entry =
     (if \<not> isListRef entry then []
      else let listName = drop 1 entry
           in case listDefOf defs listName of
                None \<Rightarrow> [UnknownDomainList (r_name rule) listName]
              | Some d \<Rightarrow> if ld_type d \<noteq> Domains then [NotADomainList (r_name rule) listName (ld_type d)] else [])"

definition listEntryIssues :: "list_definition list \<Rightarrow> compiled_rule \<Rightarrow> list_condition \<Rightarrow> string \<Rightarrow> rule_issue list" where
  "listEntryIssues defs rule lc entry =
     (if \<not> isListRef entry then []
      else let listName = drop 1 entry
           in case listDefOf defs listName of
                None \<Rightarrow> [UnknownList (r_name rule) listName]
              | Some d \<Rightarrow>
                  (if ld_type d = Domains then [DomainListInLists (r_name rule) listName] else []) @
                  (if lc_matchType lc \<noteq> ld_type d then [MatchTypeDiffers (r_name rule) listName (lc_matchType lc) (ld_type d)] else []))"

definition namesStructuralConcept :: "compiled_rule \<Rightarrow> bool" where
  "namesStructuralConcept rule =
     (let lowerName = toLowerCase (r_name rule); lowerDesc = toLowerCase (r_description rule)
      in strIncludes lowerName ''protected'' \<or> strIncludes lowerName ''structural'' \<or> strIncludes lowerName ''unknown-tool'' \<or>
         strIncludes lowerDesc ''protected path'' \<or> strIncludes lowerDesc ''unknown tool'')"

definition domainEntries :: "compiled_rule \<Rightarrow> string list" where
  "domainEntries rule = (case c_domains (r_if rule) of None \<Rightarrow> [] | Some dc \<Rightarrow> dc_allowed dc)"

definition listConditions :: "compiled_rule \<Rightarrow> list_condition list" where
  "listConditions rule = (case c_lists (r_if rule) of None \<Rightarrow> [] | Some ls \<Rightarrow> ls)"

definition ruleIssues :: "list_definition list \<Rightarrow> compiled_rule \<Rightarrow> rule_issue list" where
  "ruleIssues defs rule =
     pathIssues rule @ concat (map (domainEntryIssues defs rule) (domainEntries rule)) @
     concat (map (\<lambda>lc. concat (map (listEntryIssues defs rule lc) (lc_allowed lc))) (listConditions rule)) @
     (if namesStructuralConcept rule then [StructuralConcept (r_name rule)] else [])"

definition ruleWarnings :: "compiled_rule \<Rightarrow> rule_warning list" where
  "ruleWarnings rule =
     (case c_domains (r_if rule) of Some dc \<Rightarrow> if dc_allowed dc = [] then [EmptyDomains (r_name rule)] else [] | None \<Rightarrow> [])"

text \<open>The names of the lists that a rule refers to.\<close>

definition ruleListRefs :: "compiled_rule \<Rightarrow> string list" where
  "ruleListRefs rule =
     map (drop 1) (filter isListRef (domainEntries rule @ concat (map lc_allowed (listConditions rule))))"

definition validateCompiledRules :: "compiled_rule list \<Rightarrow> list_definition list \<Rightarrow> rule_issue list \<times> rule_warning list" where
  "validateCompiledRules rules defs =
     (let referenced = filter (\<lambda>n. listDefOf defs n \<noteq> None) (concat (map ruleListRefs rules))
      in (concat (map (ruleIssues defs) rules),
          concat (map ruleWarnings rules) @
          map (OrphanList \<circ> ld_name) (filter (\<lambda>d. ld_name d \<notin> set referenced) defs)))"

definition resolveRulePaths :: "host \<Rightarrow> compiled_rule list \<Rightarrow> compiled_rule list" where
  "resolveRulePaths h rules =
     map (\<lambda>rule. case c_paths (r_if rule) of
            None \<Rightarrow> rule
          | Some pc \<Rightarrow>
              (if pc_within pc = [] then rule
               else rule\<lparr>r_if := (r_if rule)\<lparr>c_paths := Some (pc\<lparr>pc_within := resolveRealPath h (pc_within pc)\<rparr>)\<rparr>\<rparr>)) rules"

definition validateServerScoping :: "string \<Rightarrow> compiled_rule list \<Rightarrow> bool" where
  "validateServerScoping srv rules = list_all (\<lambda>rule. c_server (r_if rule) = Some [srv]) rules"

text \<open>\<open>[...dirs].sort()\<close>.\<close>

fun insertSorted :: "string \<Rightarrow> string list \<Rightarrow> string list" where
  "insertSorted x [] = [x]"
| "insertSorted x (y # ys) =
     (if map (of_char :: char \<Rightarrow> nat) x = map of_char y \<or> (map (of_char :: char \<Rightarrow> nat) x, map of_char y) \<in> lexord {(a, b). a < b}
      then x # y # ys else y # insertSorted x ys)"

definition permittedWithin :: "compiled_rule \<Rightarrow> string list" where
  "permittedWithin rule = (case c_paths (r_if rule) of None \<Rightarrow> [] | Some pc \<Rightarrow> if pc_within pc = [] then [] else [pc_within pc])"

definition extractPermittedDirectories :: "compiled_rule list \<Rightarrow> string list" where
  "extractPermittedDirectories rules = foldr insertSorted (uniq (concat (map permittedWithin rules))) []"

section \<open>The merge\<close>

record server_result =
  sv_serverName :: string
  sv_rules :: "compiled_rule list"
  sv_listDefinitions :: "list_definition list"
  sv_inputHash :: string
  sv_resolvedLists :: "dynamic_lists_file option"

record merged_policy =
  mp_policy :: compiled_policy
  mp_listDefinitions :: "list_definition list"
  mp_skippedServers :: "(string \<times> string) list"

fun deduplicateFrom :: "string list \<Rightarrow> list_definition list \<Rightarrow> list_definition list" where
  "deduplicateFrom seen [] = []"
| "deduplicateFrom seen (d # ds) =
     (if ld_name d \<in> set seen then deduplicateFrom seen ds else d # deduplicateFrom (ld_name d # seen) ds)"

definition deduplicateListDefinitions :: "list_definition list \<Rightarrow> list_definition list" where
  "deduplicateListDefinitions = deduplicateFrom []"

text \<open>A stable sort by server name; \<open>leq\<close> is the order of \<open>localeCompare\<close>.\<close>

fun insertServer :: "(string \<Rightarrow> string \<Rightarrow> bool) \<Rightarrow> server_result \<Rightarrow> server_result list \<Rightarrow> server_result list" where
  "insertServer leq r [] = [r]"
| "insertServer leq r (s # ss) =
     (if leq (sv_serverName r) (sv_serverName s) then r # s # ss else s # insertServer leq r ss)"

definition sortServers :: "(string \<Rightarrow> string \<Rightarrow> bool) \<Rightarrow> server_result list \<Rightarrow> server_result list" where
  "sortServers leq rs = foldr (insertServer leq) rs []"

definition mergeServerResults ::
  "(string \<Rightarrow> string \<Rightarrow> bool) \<Rightarrow> (string \<Rightarrow> string) \<Rightarrow> string \<Rightarrow> server_result list \<Rightarrow> string \<Rightarrow> (string \<times> string) list \<Rightarrow> merged_policy" where
  "mergeServerResults leq digest now results constitutionHash skipped =
     (let sorted = sortServers leq results
      in \<lparr>mp_policy = \<lparr>cp_generatedAt = now, cp_constitutionHash = constitutionHash,
                       cp_inputHash = digest (concat (map sv_inputHash sorted)), cp_rules = concat (map sv_rules sorted)\<rparr>,
          mp_listDefinitions = deduplicateListDefinitions (concat (map sv_listDefinitions sorted)),
          mp_skippedServers = skipped\<rparr>)"

text \<open>The lists of the servers in the order of the results; the first of a name stays.\<close>

definition addResolvedLists :: "string list \<Rightarrow> (string \<times> resolved_list) list \<Rightarrow> server_result \<Rightarrow> (string \<times> resolved_list) list" where
  "addResolvedLists kept entries r =
     (case sv_resolvedLists r of
        None \<Rightarrow> entries
      | Some dyn \<Rightarrow>
          foldl (\<lambda>m (name, l). if name \<in> set kept \<and> \<not> name \<in> fst ` set m then setProp m name l else m) entries (dl_lists dyn))"

definition mergeDynamicLists :: "string \<Rightarrow> merged_policy \<Rightarrow> server_result list \<Rightarrow> dynamic_lists_file option" where
  "mergeDynamicLists now merged results =
     (if mp_listDefinitions merged = [] then None
      else Some \<lparr>dl_generatedAt = now,
                 dl_lists = foldl (addResolvedLists (map ld_name (mp_listDefinitions merged))) [] results\<rparr>)"

section \<open>Broad policies\<close>

definition isBroadDomainPattern :: "string \<Rightarrow> bool" where
  "isBroadDomainPattern pattern =
     (if pattern = ''*'' then True
      else if \<not> startsWith pattern ''*.'' then False
      else length (filter (\<lambda>l. l \<noteq> []) (splitOn (CHR ''.'') (drop 2 pattern))) \<le> 1)"

definition expandAllowedForBreadth :: "string list \<Rightarrow> dynamic_lists_file option \<Rightarrow> (string \<times> string option) list" where
  "expandAllowedForBreadth allowed dyn =
     concat (map (\<lambda>entry.
       if \<not> startsWith entry ''@'' then [(entry, None)]
       else case (case dyn of None \<Rightarrow> None | Some d \<Rightarrow> map_of (dl_lists d) (drop 1 entry)) of
              None \<Rightarrow> []
            | Some l \<Rightarrow> map (\<lambda>v. (v, Some entry)) (filter (\<lambda>v. v \<notin> set (rl_manualRemovals l)) (uniq (rl_values l @ rl_manualAdditions l)))) allowed)"

definition broadEntries :: "string list \<Rightarrow> dynamic_lists_file option \<Rightarrow> string list" where
  "broadEntries allowed dyn =
     map (\<lambda>(v, via). case via of None \<Rightarrow> v | Some l \<Rightarrow> v @ '' (via '' @ l @ '')'')
       (filter (\<lambda>(v, via). isBroadDomainPattern v) (expandAllowedForBreadth allowed dyn))"

record broad_findings =
  bf_broadenedDomains :: "string list"
  bf_outOfWorkspacePaths :: "string list"

definition outsideWorkspace :: "host \<Rightarrow> string \<Rightarrow> compiled_rule \<Rightarrow> string list" where
  "outsideWorkspace h workspaceDir rule =
     filter (\<lambda>p. \<not> pathAtOrBelow (resolveRealPath h p) (resolveRealPath h workspaceDir)) (permittedWithin rule)"

definition findBroadPolicy :: "host \<Rightarrow> compiled_policy \<Rightarrow> string \<Rightarrow> dynamic_lists_file option \<Rightarrow> broad_findings" where
  "findBroadPolicy h policy workspaceDir dyn =
     \<lparr>bf_broadenedDomains = uniq (concat (map (\<lambda>rule.
        broadEntries (domainEntries rule) dyn @ concat (map (\<lambda>lc. broadEntries (lc_allowed lc) dyn) (listConditions rule))) (cp_rules policy))),
      bf_outOfWorkspacePaths = uniq (concat (map (outsideWorkspace h workspaceDir) (cp_rules policy)))\<rparr>"

text \<open>\<open>Some\<close> findings are the rejection.\<close>

definition makeBroadPolicyValidator ::
  "host \<Rightarrow> string \<Rightarrow> bool \<Rightarrow> compiled_policy \<Rightarrow> dynamic_lists_file option \<Rightarrow> broad_findings option" where
  "makeBroadPolicyValidator h workspaceDir allowBroadPolicy policy dyn =
     (if allowBroadPolicy then None
      else let findings = findBroadPolicy h policy workspaceDir dyn
           in if bf_broadenedDomains findings = [] \<and> bf_outOfWorkspacePaths findings = [] then None else Some findings)"

section \<open>The difference of two policies\<close>

record rule_delta =
  rd_added :: nat
  rd_removed :: nat
  rd_loosened :: nat
  rd_broadenedDomains :: "string list"
  rd_outOfWorkspacePaths :: "string list"

definition hasWildcard :: "compiled_rule \<Rightarrow> bool" where
  "hasWildcard rule =
     (''*'' \<in> set (domainEntries rule) \<or> list_ex (\<lambda>lc. ''*'' \<in> set (lc_allowed lc)) (listConditions rule))"

definition isLoosened :: "compiled_rule \<Rightarrow> compiled_rule \<Rightarrow> bool" where
  "isLoosened oldRule newRule =
     (r_then oldRule \<noteq> Allow \<and> r_then newRule = Allow \<or> \<not> hasWildcard oldRule \<and> hasWildcard newRule)"

definition rulesByName :: "compiled_rule list \<Rightarrow> (string \<times> compiled_rule) list" where
  "rulesByName rules = foldl (\<lambda>m r. setProp m (r_name r) r) [] rules"

definition computeRuleDelta :: "host \<Rightarrow> compiled_policy option \<Rightarrow> compiled_policy \<Rightarrow> string \<Rightarrow> rule_delta" where
  "computeRuleDelta h oldPolicy newPolicy workspaceDir =
     (let oldByName = rulesByName (case oldPolicy of None \<Rightarrow> [] | Some p \<Rightarrow> cp_rules p);
          newByName = rulesByName (cp_rules newPolicy);
          findings = findBroadPolicy h newPolicy workspaceDir None
      in \<lparr>rd_added = length (filter (\<lambda>(n, r). map_of oldByName n = None) newByName),
          rd_removed = length (filter (\<lambda>(n, r). map_of newByName n = None) oldByName),
          rd_loosened = length (filter (\<lambda>(n, r). case map_of oldByName n of None \<Rightarrow> False | Some old \<Rightarrow> isLoosened old r) newByName),
          rd_broadenedDomains = bf_broadenedDomains findings,
          rd_outOfWorkspacePaths = bf_outOfWorkspacePaths findings\<rparr>)"

end
