(* ===== verification/Policy_Compile.thy ===== *)
theory Policy_Compile
  imports Compiled_Policy
begin

text \<open>
  The compilation of one server's policy (\<open>src/pipeline/pipeline-runner.ts\<close>, \<open>policy-verifier.ts\<close>,
  \<open>scenario-schema-validator.ts\<close>): test scenarios and their filters, the verification rounds, the
  corrections of scenarios, the repair loop, the artifacts of a server's directory and the cache, and the
  run over all servers. What the language model and the prompts answer is the record \<open>compile_world\<close>, one
  field per kind of call with the number of the call as argument; progress texts are left out.
\<close>

section \<open>Scenarios\<close>

datatype scenario_source = GeneratedScenario | HandwrittenScenario

datatype expected_decision = Expected decision | NotAllow

record scenario_request =
  sq_serverName :: string
  sq_toolName :: string
  sq_arguments :: jsobj

record test_scenario =
  ts_description :: string
  ts_request :: scenario_request
  ts_expected :: expected_decision
  ts_reasoning :: string
  ts_source :: scenario_source

record execution_result =
  xr_scenario :: test_scenario
  xr_actual :: decision
  xr_rule :: string
  xr_pass :: bool

datatype schema_issue = UnknownArgument string | MissingArgument string | InvalidEnum string jsval

datatype discard_rule = StructuralRule string | DefaultRoleFallback | InvalidSchema "schema_issue list"

record discarded_scenario =
  dz_scenario :: test_scenario
  dz_actual :: decision
  dz_rule :: discard_rule

text \<open>The identifier is random in the source; the engine does not read it.\<close>

definition requestOf :: "test_scenario \<Rightarrow> tool_call_request" where
  "requestOf s = \<lparr>requestId = ''verify'', serverName = sq_serverName (ts_request s), toolName = sq_toolName (ts_request s),
     arguments = sq_arguments (ts_request s), timestamp = []\<rparr>"

definition scenarioPasses :: "expected_decision \<Rightarrow> decision \<Rightarrow> bool" where
  "scenarioPasses expected actual = (case expected of NotAllow \<Rightarrow> actual \<noteq> Allow | Expected d \<Rightarrow> actual = d)"

fun executeScenarios :: "policy_engine \<Rightarrow> host \<Rightarrow> test_scenario list \<Rightarrow> engine_error + execution_result list" where
  "executeScenarios e h [] = Inr []"
| "executeScenarios e h (s # ss) =
     (case evaluate e h (requestOf s) of
        Inl err \<Rightarrow> Inl err
      | Inr res \<Rightarrow>
          (case executeScenarios e h ss of
             Inl err \<Rightarrow> Inl err
           | Inr rs \<Rightarrow> Inr (\<lparr>xr_scenario = s, xr_actual = er_decision res, xr_rule = er_rule res,
                xr_pass = scenarioPasses (ts_expected s) (er_decision res)\<rparr> # rs)))"

definition structuralConflict :: "execution_result \<Rightarrow> bool" where
  "structuralConflict r = (startsWith (xr_rule r) ''structural-'' \<and> \<not> xr_pass r)"

definition discardStructural :: "execution_result \<Rightarrow> discarded_scenario" where
  "discardStructural r = \<lparr>dz_scenario = xr_scenario r, dz_actual = xr_actual r, dz_rule = StructuralRule (xr_rule r)\<rparr>"

definition filterStructuralConflicts ::
  "policy_engine \<Rightarrow> host \<Rightarrow> test_scenario list \<Rightarrow> engine_error + test_scenario list \<times> discarded_scenario list" where
  "filterStructuralConflicts e h scenarios =
     (case executeScenarios e h scenarios of
        Inl err \<Rightarrow> Inl err
      | Inr results \<Rightarrow> Inr (map xr_scenario (filter (\<lambda>r. \<not> structuralConflict r) results),
                              map discardStructural (filter structuralConflict results)))"

section \<open>Scenarios that test the wrong thing\<close>

text \<open>The test of one \<open>when\<close> clause, which the source writes out a second time here.\<close>

definition whenClauseHolds :: "role_condition \<Rightarrow> jsobj \<Rightarrow> bool" where
  "whenClauseHolds c args =
     (let value = getProp args (rc_arg c)
      in case rc_equals c of
           Some v \<Rightarrow> value = v
         | None \<Rightarrow>
             (case rc_in c of
                Some vs \<Rightarrow> value \<in> set vs
              | None \<Rightarrow>
                  (case rc_is c of
                     None \<Rightarrow> False
                   | Some IsPresent \<Rightarrow> hasProp args (rc_arg c) \<and> value \<noteq> JNull \<and> value \<noteq> JUndefined
                   | Some IsAbsent \<Rightarrow> \<not> hasProp args (rc_arg c) \<or> value = JNull \<or> value = JUndefined
                   | Some IsTruthy \<Rightarrow> hasProp args (rc_arg c) \<and> truthy value
                   | Some IsFalsy \<Rightarrow> \<not> hasProp args (rc_arg c) \<or> \<not> truthy value)))"

definition matchesAnyClause :: "role_spec \<Rightarrow> jsobj \<Rightarrow> bool" where
  "matchesAnyClause spec args =
     (case spec of StaticRoles _ \<Rightarrow> False | CondRoles c \<Rightarrow> list_ex (\<lambda>(cond, _). whenClauseHolds cond args) (cr_when c))"

definition findStored :: "test_scenario \<Rightarrow> stored_annotation list \<Rightarrow> stored_annotation option" where
  "findStored s anns =
     List.find (\<lambda>a. sa_serverName a = sq_serverName (ts_request s) \<and> sa_toolName a = sq_toolName (ts_request s)) anns"

text \<open>The details of a warning are kept as the names of the arguments they are about.\<close>

definition detectDefaultRoleFallback :: "test_scenario \<Rightarrow> stored_annotation list \<Rightarrow> string list option" where
  "detectDefaultRoleFallback s anns =
     (case findStored s anns of
        None \<Rightarrow> None
      | Some a \<Rightarrow>
          (let conditionalArgs = filter (\<lambda>(_, spec). isConditionalRoles spec) (sa_args a);
               details = map fst (filter (\<lambda>(_, spec). \<not> matchesAnyClause spec (sq_arguments (ts_request s))) conditionalArgs)
           in if conditionalArgs = [] then None
              else if length details = length conditionalArgs then Some details else None))"

definition hasConditionalSpec :: "stored_annotation \<Rightarrow> bool" where
  "hasConditionalSpec a = list_ex (\<lambda>(_, spec). isConditionalRoles spec) (sa_args a)"

definition detectAllDefaultRoleFallbacks :: "test_scenario list \<Rightarrow> stored_annotation list \<Rightarrow> test_scenario list" where
  "detectAllDefaultRoleFallbacks scenarios anns =
     (let toolsWithConditionals = map (\<lambda>a. sa_serverName a @ ''/'' @ sa_toolName a) (filter hasConditionalSpec anns)
      in filter (\<lambda>s. sq_serverName (ts_request s) @ ''/'' @ sq_toolName (ts_request s) \<in> set toolsWithConditionals \<and>
            detectDefaultRoleFallback s anns \<noteq> None) scenarios)"

text \<open>\<open>includes\<close> on the values of an enumeration: objects and arrays are never the same value.\<close>

definition enumIncludes :: "jsval list \<Rightarrow> jsval \<Rightarrow> bool" where
  "enumIncludes vs v = (v \<in> set vs \<and> (case v of JArr _ \<Rightarrow> False | JObj _ \<Rightarrow> False | _ \<Rightarrow> True))"

definition schemaObject :: "stored_annotation \<Rightarrow> jsobj" where
  "schemaObject a = (case sa_inputSchema a of JObj ob \<Rightarrow> ob | _ \<Rightarrow> [])"

definition enumIssue :: "jsobj \<Rightarrow> string \<times> jsval \<Rightarrow> schema_issue list" where
  "enumIssue args = (\<lambda>(argName, propSchema).
     case (case propSchema of JObj ob \<Rightarrow> getProp ob ''enum'' | _ \<Rightarrow> JUndefined) of
       JArr vs \<Rightarrow> (if hasProp args argName \<and> \<not> enumIncludes vs (getProp args argName) then [InvalidEnum argName (getProp args argName)] else [])
     | _ \<Rightarrow> [])"

definition validateScenarioArgs :: "test_scenario \<Rightarrow> stored_annotation list \<Rightarrow> schema_issue list" where
  "validateScenarioArgs s anns =
     (case findStored s anns of
        None \<Rightarrow> []
      | Some a \<Rightarrow>
          (case getProp (schemaObject a) ''properties'' of
             JObj props \<Rightarrow>
               (let args = sq_arguments (ts_request s)
                in map UnknownArgument (filter (\<lambda>n. \<not> hasProp props n) (map fst args)) @
                   map MissingArgument (filter (\<lambda>n. \<not> hasProp args n) (jsStrings (getProp (schemaObject a) ''required''))) @
                   concat (map (enumIssue args) props))
           | _ \<Rightarrow> []))"

definition filterInvalidSchemaScenarios ::
  "test_scenario list \<Rightarrow> stored_annotation list \<Rightarrow> test_scenario list \<times> discarded_scenario list" where
  "filterInvalidSchemaScenarios scenarios anns =
     (filter (\<lambda>s. validateScenarioArgs s anns = []) scenarios,
      map (\<lambda>s. \<lparr>dz_scenario = s, dz_actual = Deny, dz_rule = InvalidSchema (validateScenarioArgs s anns)\<rparr>)
        (filter (\<lambda>s. validateScenarioArgs s anns \<noteq> []) scenarios))"

definition filterAndLogStructuralConflicts ::
  "policy_engine \<Rightarrow> host \<Rightarrow> test_scenario list \<Rightarrow> stored_annotation list \<Rightarrow> engine_error + test_scenario list \<times> discarded_scenario list" where
  "filterAndLogStructuralConflicts e h scenarios anns =
     (case filterStructuralConflicts e h scenarios of
        Inl err \<Rightarrow> Inl err
      | Inr (valid, discarded) \<Rightarrow>
          (if anns = [] then Inr (valid, discarded)
           else let fallback = map ts_description (detectAllDefaultRoleFallbacks valid anns);
                    kept = filter (\<lambda>s. ts_description s \<notin> set fallback) valid;
                    dropped = map (\<lambda>s. \<lparr>dz_scenario = s, dz_actual = Deny, dz_rule = DefaultRoleFallback\<rparr>)
                      (filter (\<lambda>s. ts_description s \<in> set fallback) valid);
                    (ok, invalid) = filterInvalidSchemaScenarios kept anns
                in Inr (ok, discarded @ dropped @ invalid)))"

section \<open>Verification\<close>

datatype failure_blame = BlameRule | BlameScenario decision string | BlameBoth decision string

record attributed_failure =
  af_description :: string
  af_blame :: failure_blame

record judge_output =
  jg_analysis :: string
  jg_pass :: bool
  jg_attributions :: "attributed_failure list"
  jg_additional :: "test_scenario list"

record verifier_round =
  vr_round :: nat
  vr_results :: "execution_result list"
  vr_analysis :: string
  vr_new :: "test_scenario list"
  vr_attributed :: "attributed_failure list"

record verification_result =
  vf_pass :: bool
  vf_rounds :: "verifier_round list"
  vf_summary :: string
  vf_failed :: "execution_result list"

datatype compile_error =
    EngineThrew engine_error
  | ModelThrew
  | InvalidRules "rule_issue list"
  | BadScope string
  | McpListsDisallowed "string list"
  | VerificationFailed string

definition filterProbes :: "test_scenario list \<Rightarrow> stored_annotation list \<Rightarrow> test_scenario list" where
  "filterProbes scenarios anns =
     (let new = fst (filterInvalidSchemaScenarios scenarios anns);
          fallback = map ts_description (detectAllDefaultRoleFallbacks new anns)
      in filter (\<lambda>s. ts_description s \<notin> set fallback) new)"

definition finalVerification :: "verifier_round list \<Rightarrow> execution_result list \<Rightarrow> verification_result" where
  "finalVerification rounds failed =
     \<lparr>vf_pass = (failed = [] \<and> rounds \<noteq> [] \<and> strIncludes (toLowerCase (vr_analysis (last rounds))) ''pass''),
      vf_rounds = rounds,
      vf_summary = (if rounds = [] then ''Verification did not complete'' else vr_analysis (last rounds)),
      vf_failed = failed\<rparr>"

text \<open>The rounds; the first number counts the rounds that are left.\<close>

fun verifyRounds ::
  "(nat \<Rightarrow> execution_result list \<Rightarrow> judge_output option) \<Rightarrow> policy_engine \<Rightarrow> host \<Rightarrow> stored_annotation list \<Rightarrow> nat \<Rightarrow> nat \<Rightarrow>
   test_scenario list \<Rightarrow> verifier_round list \<Rightarrow> execution_result list \<Rightarrow> compile_error + verification_result" where
  "verifyRounds judge e h anns 0 k scenarios rounds failed = Inr (finalVerification rounds failed)"
| "verifyRounds judge e h anns (Suc n) k scenarios rounds failed =
     (case executeScenarios e h scenarios of
        Inl err \<Rightarrow> Inl (EngineThrew err)
      | Inr results \<Rightarrow>
          (let failed' = failed @ filter (\<lambda>r. \<not> xr_pass r) results
           in case judge k results of
                None \<Rightarrow> Inl ModelThrew
              | Some j \<Rightarrow>
                  (let new = filterProbes (map (\<lambda>s. s\<lparr>ts_source := GeneratedScenario\<rparr>) (jg_additional j)) anns;
                       rounds' = rounds @ [\<lparr>vr_round = k, vr_results = results, vr_analysis = jg_analysis j, vr_new = new,
                                            vr_attributed = jg_attributions j\<rparr>]
                   in if jg_pass j \<and> new = [] then
                        Inr \<lparr>vf_pass = True, vf_rounds = rounds', vf_summary = jg_analysis j, vf_failed = failed'\<rparr>
                      else if new = [] then Inr (finalVerification rounds' failed')
                      else verifyRounds judge e h anns n (Suc k) new rounds' failed')))"

definition verifyPolicy ::
  "(nat \<Rightarrow> execution_result list \<Rightarrow> judge_output option) \<Rightarrow> policy_engine \<Rightarrow> host \<Rightarrow> stored_annotation list \<Rightarrow> nat \<Rightarrow>
   test_scenario list \<Rightarrow> compile_error + verification_result" where
  "verifyPolicy judge e h anns maxRounds scenarios = verifyRounds judge e h anns maxRounds 1 scenarios [] []"

section \<open>Corrections of scenarios\<close>

record scenario_correction =
  sc_description :: string
  sc_decision :: decision
  sc_reasoning :: string

definition handwrittenWarning :: "string \<Rightarrow> string" where
  "handwrittenWarning d = ''Judge blamed scenario \"'' @ d @ ''\" but it is handwritten '' @
     [CHR 0xE2, CHR 0x80, CHR 0x94] @ '' treating as rule issue''"

definition correctionOf :: "attributed_failure \<Rightarrow> scenario_correction option" where
  "correctionOf af =
     (case af_blame af of
        BlameRule \<Rightarrow> None
      | BlameScenario d r \<Rightarrow> Some \<lparr>sc_description = af_description af, sc_decision = d, sc_reasoning = r\<rparr>
      | BlameBoth d r \<Rightarrow> Some \<lparr>sc_description = af_description af, sc_decision = d, sc_reasoning = r\<rparr>)"

fun extractScenarioCorrections ::
  "attributed_failure list \<Rightarrow> test_scenario list \<Rightarrow> scenario_correction list \<times> string list" where
  "extractScenarioCorrections [] scenarios = ([], [])"
| "extractScenarioCorrections (af # afs) scenarios =
     (let (corrections, warnings) = extractScenarioCorrections afs scenarios
      in case correctionOf af of
           None \<Rightarrow> (corrections, warnings)
         | Some c \<Rightarrow>
             (case List.find (\<lambda>s. ts_description s = af_description af) scenarios of
                None \<Rightarrow> (corrections, warnings)
              | Some s \<Rightarrow>
                  (if ts_source s = HandwrittenScenario then (corrections, handwrittenWarning (af_description af) # warnings)
                   else (c # corrections, warnings))))"

definition applyScenarioCorrections :: "test_scenario list \<Rightarrow> scenario_correction list \<Rightarrow> test_scenario list" where
  "applyScenarioCorrections scenarios corrections =
     (let correctionMap = map_of (rev (map (\<lambda>c. (sc_description c, c)) corrections))
      in map (\<lambda>s. case correctionMap (ts_description s) of
                    None \<Rightarrow> s
                  | Some c \<Rightarrow> s\<lparr>ts_expected := Expected (sc_decision c), ts_reasoning := sc_reasoning c\<rparr>) scenarios)"

section \<open>One server\<close>

record rule_patch =
  rp_operations :: "rule_patch_op list"
  rp_listDefinitions :: "list_definition list option"

text \<open>The answers: \<open>None\<close> is a call that throws.\<close>

record compile_world =
  cw_compile :: "(compiled_rule list \<times> list_definition list) option"
  cw_firstPatch :: "nat \<Rightarrow> rule_patch option"
  cw_retryPatch :: "nat \<Rightarrow> rule_patch option"
  cw_recompile :: "nat \<Rightarrow> (compiled_rule list \<times> list_definition list) option"
  cw_resolveLists :: "nat \<Rightarrow> list_definition list \<Rightarrow> dynamic_lists_file option"
  cw_generate :: "string list \<Rightarrow> dynamic_lists_file option \<Rightarrow> test_scenario list option"
  cw_replace :: "discarded_scenario list \<Rightarrow> test_scenario list option"
  cw_judge :: "nat \<Rightarrow> nat \<Rightarrow> execution_result list \<Rightarrow> judge_output option"
  cw_inputHash :: string
  cw_scenarioHash :: "string list \<Rightarrow> dynamic_lists_file option \<Rightarrow> string"

record compile_unit =
  cu_serverName :: string
  cu_storedAnnotations :: "stored_annotation list"
  cu_allowedDirectory :: string
  cu_protectedPaths :: "string list"
  cu_domainAllowlists :: "(string \<times> string list) list option"
  cu_allowMcpLists :: bool

record server_policy_file =
  pf_inputHash :: string
  pf_rules :: "compiled_rule list"
  pf_listDefinitions :: "list_definition list"

text \<open>The three files of the server's directory.\<close>

record server_artifacts =
  ar_policy :: "server_policy_file option"
  ar_scenarios :: "(string \<times> test_scenario list) option"
  ar_lists :: "dynamic_lists_file option"

definition buildPolicyArtifact :: "compile_world \<Rightarrow> compiled_rule list \<Rightarrow> compiled_policy" where
  "buildPolicyArtifact w rules = \<lparr>cp_generatedAt = [], cp_constitutionHash = [], cp_inputHash = cw_inputHash w, cp_rules = rules\<rparr>"

definition annotationsFileOf :: "compile_world \<Rightarrow> compile_unit \<Rightarrow> annotations_file" where
  "annotationsFileOf w u = \<lparr>af_generatedAt = [], af_servers =
     [(cu_serverName u, \<lparr>srv_inputHash = cw_inputHash w, srv_tools = cu_storedAnnotations u\<rparr>)]\<rparr>"

definition verifyEngine :: "compile_world \<Rightarrow> compile_unit \<Rightarrow> host \<Rightarrow> compiled_rule list \<Rightarrow> dynamic_lists_file option \<Rightarrow> policy_engine" where
  "verifyEngine w u h rules dyn =
     newPolicyEngine h (buildPolicyArtifact w rules) (annotationsFileOf w u) (cu_protectedPaths u) (Some (cu_allowedDirectory u))
       (cu_domainAllowlists u) dyn None"

text \<open>The engine that filters scenarios gets no domain allowlists.\<close>

definition filterEngine :: "compile_world \<Rightarrow> compile_unit \<Rightarrow> host \<Rightarrow> compiled_rule list \<Rightarrow> dynamic_lists_file option \<Rightarrow> policy_engine" where
  "filterEngine w u h rules dyn =
     newPolicyEngine h (buildPolicyArtifact w rules) (annotationsFileOf w u) (cu_protectedPaths u) (Some (cu_allowedDirectory u))
       None dyn None"

definition checkedRules ::
  "host \<Rightarrow> compiled_rule list \<times> list_definition list \<Rightarrow> compile_error + compiled_rule list \<times> list_definition list" where
  "checkedRules h output =
     (let rules = resolveRulePaths h (fst output); issues = fst (validateCompiledRules rules (snd output))
      in if issues \<noteq> [] then Inl (InvalidRules issues) else Inr (rules, snd output))"

definition recompiled :: "compile_world \<Rightarrow> nat \<Rightarrow> compile_error + compiled_rule list \<times> list_definition list" where
  "recompiled w k = (case cw_recompile w k of None \<Rightarrow> Inl ModelThrew | Some output \<Rightarrow> Inr output)"

definition patched ::
  "compile_world \<Rightarrow> nat \<Rightarrow> compiled_rule list \<Rightarrow> list_definition list \<Rightarrow> rule_patch \<Rightarrow> compile_error + compiled_rule list \<times> list_definition list" where
  "patched w k rules defs p =
     (case applyRulePatch rules (rp_operations p) of
        Inr rules' \<Rightarrow> Inr (rules', mergeListDefinitions defs (rp_listDefinitions p))
      | Inl _ \<Rightarrow> recompiled w k)"

definition repairPointFix ::
  "compile_world \<Rightarrow> nat \<Rightarrow> compiled_rule list \<Rightarrow> list_definition list \<Rightarrow> compile_error + compiled_rule list \<times> list_definition list" where
  "repairPointFix w k rules defs =
     (if rules = [] then recompiled w k
      else case cw_firstPatch w k of
             Some p \<Rightarrow> patched w k rules defs p
           | None \<Rightarrow> (case cw_retryPatch w k of Some p \<Rightarrow> patched w k rules defs p | None \<Rightarrow> recompiled w k))"

definition resolveServerLists ::
  "compile_world \<Rightarrow> compile_unit \<Rightarrow> nat \<Rightarrow> list_definition list \<Rightarrow> server_artifacts \<Rightarrow> server_artifacts \<times> (compile_error + dynamic_lists_file)" where
  "resolveServerLists w u k defs art =
     (let mcpListNames = map ld_name (filter ld_requiresMcp defs)
      in if mcpListNames \<noteq> [] \<and> \<not> cu_allowMcpLists u then (art, Inl (McpListsDisallowed mcpListNames))
         else case cw_resolveLists w k defs of
                None \<Rightarrow> (art, Inl ModelThrew)
              | Some dyn \<Rightarrow> (art\<lparr>ar_lists := Some dyn\<rparr>, Inr dyn))"

text \<open>The lists of a rule set, when it defines any; otherwise those from before.\<close>

definition listsFor ::
  "compile_world \<Rightarrow> compile_unit \<Rightarrow> nat \<Rightarrow> list_definition list \<Rightarrow> dynamic_lists_file option \<Rightarrow> server_artifacts \<Rightarrow>
   server_artifacts \<times> (compile_error + dynamic_lists_file option)" where
  "listsFor w u k defs before art =
     (if defs = [] then (art, Inr before)
      else case resolveServerLists w u k defs art of
             (art', Inl err) \<Rightarrow> (art', Inl err)
           | (art', Inr dyn) \<Rightarrow> (art', Inr (Some dyn)))"

record compile_state =
  cs_rules :: "compiled_rule list"
  cs_listDefinitions :: "list_definition list"
  cs_dynamicLists :: "dynamic_lists_file option"
  cs_verification :: verification_result
  cs_probes :: "test_scenario list"
  cs_scenarios :: "test_scenario list"
  cs_repairAttempts :: nat

definition collectProbeScenarios :: "verification_result \<Rightarrow> test_scenario list" where
  "collectProbeScenarios v = concat (map vr_new (vf_rounds v))"

definition lastAttributions :: "verification_result \<Rightarrow> attributed_failure list" where
  "lastAttributions v = (if vf_rounds v = [] then [] else vr_attributed (last (vf_rounds v)))"

definition blamesRule :: "attributed_failure list \<Rightarrow> string list \<Rightarrow> execution_result \<Rightarrow> bool" where
  "blamesRule attributed warnings f =
     (let description = ts_description (xr_scenario f)
      in (case map_of (rev (map (\<lambda>a. (af_description a, af_blame a)) attributed)) description of
            None \<Rightarrow> True
          | Some BlameRule \<Rightarrow> True
          | Some (BlameBoth _ _) \<Rightarrow> True
          | Some (BlameScenario _ _) \<Rightarrow> False) \<or>
         list_ex (\<lambda>w. strIncludes w description) warnings)"

definition clearedNote :: "(nat \<Rightarrow> string) \<Rightarrow> nat \<Rightarrow> string" where
  "clearedNote showNat n = [CHR 0x0A, CHR 0x0A] @ ''[pipeline-runner: cleared '' @ showNat n @
     '' scenario expectation(s) via judge attribution; no rule-blamed failures remained.]''"

text \<open>The head of an iteration: the corrections of the last verification, and whether the loop ends.\<close>

definition consumeVerification :: "(nat \<Rightarrow> string) \<Rightarrow> compile_state \<Rightarrow> compile_state \<times> bool" where
  "consumeVerification showNat st =
     (let v = cs_verification st;
          (corrections, warnings) = extractScenarioCorrections (lastAttributions v) (cs_scenarios st @ cs_probes st);
          st' = (if corrections = [] then st
                 else st\<lparr>cs_scenarios := applyScenarioCorrections (cs_scenarios st) corrections,
                         cs_probes := applyScenarioCorrections (cs_probes st) corrections\<rparr>);
          ruleBlamed = filter (blamesRule (lastAttributions v) warnings) (vf_failed v)
      in if vf_pass v then (st', True)
         else if ruleBlamed = [] then
           (if corrections = [] then st'
            else st'\<lparr>cs_verification := v\<lparr>vf_pass := True, vf_failed := [],
                     vf_summary := vf_summary v @ clearedNote showNat (length corrections)\<rparr>\<rparr>, True)
         else (st', False))"

text \<open>The rest of an iteration. \<open>written\<close> is what \<open>writeServerPolicy\<close> writes during the loop: it closes over
  the rules of the first compilation.\<close>

definition repairStep ::
  "compile_world \<Rightarrow> compile_unit \<Rightarrow> host \<Rightarrow> policy_engine \<Rightarrow> server_policy_file \<Rightarrow> nat \<Rightarrow> compile_state \<Rightarrow> server_artifacts \<Rightarrow>
   server_artifacts \<times> (compile_error + compile_state)" where
  "repairStep w u h filter_e written k st art =
     (case filterAndLogStructuralConflicts filter_e h (cs_scenarios st) (cu_storedAnnotations u) of
        Inl err \<Rightarrow> (art, Inl (EngineThrew err))
      | Inr (current, _) \<Rightarrow>
     (case repairPointFix w k (cs_rules st) (cs_listDefinitions st) of
        Inl err \<Rightarrow> (art, Inl err)
      | Inr output \<Rightarrow>
     (case checkedRules h output of
        Inl err \<Rightarrow> (art, Inl err)
      | Inr (rules, defs) \<Rightarrow>
          (if \<not> validateServerScoping (cu_serverName u) rules then (art, Inl (BadScope (cu_serverName u)))
           else case listsFor w u k defs (cs_dynamicLists st) art of
                  (art1, Inl err) \<Rightarrow> (art1, Inl err)
                | (art1, Inr dyn) \<Rightarrow>
                    (let art2 = art1\<lparr>ar_policy := Some written\<rparr>
                     in case verifyPolicy (cw_judge w k) (verifyEngine w u h rules dyn) h (cu_storedAnnotations u) 1 (current @ cs_probes st) of
                          Inl err \<Rightarrow> (art2, Inl err)
                        | Inr v \<Rightarrow>
                            (case filterAndLogStructuralConflicts filter_e h (collectProbeScenarios v) (cu_storedAnnotations u) of
                               Inl err \<Rightarrow> (art2, Inl (EngineThrew err))
                             | Inr (probes, _) \<Rightarrow>
                                 (art2, Inr (st\<lparr>cs_rules := rules, cs_listDefinitions := defs, cs_dynamicLists := dyn,
                                    cs_verification := v, cs_probes := cs_probes st @ probes, cs_repairAttempts := k\<rparr>))))))))"

definition MAX_REPAIRS :: nat where
  "MAX_REPAIRS = 3"

text \<open>The first number counts the repairs that are left.\<close>

fun runRepairLoop ::
  "(nat \<Rightarrow> string) \<Rightarrow> compile_world \<Rightarrow> compile_unit \<Rightarrow> host \<Rightarrow> policy_engine \<Rightarrow> server_policy_file \<Rightarrow> nat \<Rightarrow> compile_state \<Rightarrow>
   server_artifacts \<Rightarrow> server_artifacts \<times> (compile_error + compile_state)" where
  "runRepairLoop showNat w u h filter_e written left st art =
     (case consumeVerification showNat st of
        (st', True) \<Rightarrow> (art, Inr st')
      | (st', False) \<Rightarrow>
          (case left of
             0 \<Rightarrow> (art, Inr st')
           | Suc n \<Rightarrow>
               (case repairStep w u h filter_e written (MAX_REPAIRS - n) st' art of
                  (art', Inl err) \<Rightarrow> (art', Inl err)
                | (art', Inr st'') \<Rightarrow> runRepairLoop showNat w u h filter_e written n st'' art')))"

text \<open>The scenarios to verify with and those to keep.\<close>

definition filterAndRepairDiscardedScenarios ::
  "compile_world \<Rightarrow> compile_unit \<Rightarrow> host \<Rightarrow> policy_engine \<Rightarrow> test_scenario list \<Rightarrow> compile_error + test_scenario list \<times> test_scenario list" where
  "filterAndRepairDiscardedScenarios w u h filter_e scenarios =
     (case filterAndLogStructuralConflicts filter_e h scenarios (cu_storedAnnotations u) of
        Inl err \<Rightarrow> Inl (EngineThrew err)
      | Inr (valid, discarded) \<Rightarrow>
          (if discarded = [] then Inr (valid, scenarios)
           else case cw_replace w discarded of
                  None \<Rightarrow> Inl ModelThrew
                | Some replacements \<Rightarrow>
                    (if replacements = [] then Inr (valid, scenarios)
                     else case filterAndLogStructuralConflicts filter_e h replacements (cu_storedAnnotations u) of
                            Inl err \<Rightarrow> Inl (EngineThrew err)
                          | Inr (ok, _) \<Rightarrow> Inr (valid @ ok, scenarios @ ok))))"

definition verifyAndRepairServer ::
  "(nat \<Rightarrow> string) \<Rightarrow> compile_world \<Rightarrow> compile_unit \<Rightarrow> host \<Rightarrow> compiled_rule list \<Rightarrow> list_definition list \<Rightarrow> dynamic_lists_file option \<Rightarrow>
   server_policy_file \<Rightarrow> test_scenario list \<Rightarrow> server_artifacts \<Rightarrow> server_artifacts \<times> (compile_error + compile_state)" where
  "verifyAndRepairServer showNat w u h rules defs dyn written scenarios art =
     (let filter_e = filterEngine w u h rules dyn
      in case filterAndRepairDiscardedScenarios w u h filter_e scenarios of
           Inl err \<Rightarrow> (art, Inl err)
         | Inr (filtered, scenarios') \<Rightarrow>
             (case verifyPolicy (cw_judge w 0) (verifyEngine w u h rules dyn) h (cu_storedAnnotations u) 3 filtered of
                Inl err \<Rightarrow> (art, Inl err)
              | Inr v \<Rightarrow>
                  (case filterAndLogStructuralConflicts filter_e h (collectProbeScenarios v) (cu_storedAnnotations u) of
                     Inl err \<Rightarrow> (art, Inl (EngineThrew err))
                   | Inr (probes, _) \<Rightarrow>
                       (let st = \<lparr>cs_rules = rules, cs_listDefinitions = defs, cs_dynamicLists = dyn, cs_verification = v,
                                  cs_probes = probes, cs_scenarios = scenarios', cs_repairAttempts = 0\<rparr>
                        in if vf_pass v then (art, Inr st) else runRepairLoop showNat w u h filter_e written MAX_REPAIRS st art))))"

definition cachedResult :: "compile_world \<Rightarrow> compile_unit \<Rightarrow> host \<Rightarrow> server_artifacts \<Rightarrow> server_result option" where
  "cachedResult w u h art =
     (case (ar_policy art, ar_scenarios art) of
        (Some pf, Some (scenarioHash, _)) \<Rightarrow>
          (let rules = resolveRulePaths h (pf_rules pf)
           in if pf_inputHash pf = cw_inputHash w \<and> scenarioHash = cw_scenarioHash w (extractPermittedDirectories rules) (ar_lists art)
              then Some \<lparr>sv_serverName = cu_serverName u, sv_rules = rules, sv_listDefinitions = pf_listDefinitions pf,
                         sv_inputHash = cw_inputHash w, sv_resolvedLists = ar_lists art\<rparr>
              else None)
      | _ \<Rightarrow> None)"

definition generateTestScenarios ::
  "compile_world \<Rightarrow> string list \<Rightarrow> dynamic_lists_file option \<Rightarrow> (string \<times> test_scenario list) option \<Rightarrow> compile_error + test_scenario list" where
  "generateTestScenarios w dirs dyn existing =
     (case existing of
        Some (hash, scenarios) \<Rightarrow>
          (if hash = cw_scenarioHash w dirs dyn then Inr scenarios
           else (case cw_generate w dirs dyn of None \<Rightarrow> Inl ModelThrew | Some ss \<Rightarrow> Inr ss))
      | None \<Rightarrow> (case cw_generate w dirs dyn of None \<Rightarrow> Inl ModelThrew | Some ss \<Rightarrow> Inr ss))"

definition policyFileOf :: "compile_world \<Rightarrow> compiled_rule list \<Rightarrow> list_definition list \<Rightarrow> server_policy_file" where
  "policyFileOf w rules defs = \<lparr>pf_inputHash = cw_inputHash w, pf_rules = rules, pf_listDefinitions = defs\<rparr>"

definition compileServer ::
  "(nat \<Rightarrow> string) \<Rightarrow> compile_world \<Rightarrow> compile_unit \<Rightarrow> host \<Rightarrow> server_artifacts \<Rightarrow> server_artifacts \<times> (compile_error + server_result)" where
  "compileServer showNat w u h art =
     (case cachedResult w u h art of
        Some r \<Rightarrow> (art, Inr r)
      | None \<Rightarrow>
     (case cw_compile w of
        None \<Rightarrow> (art, Inl ModelThrew)
      | Some output \<Rightarrow>
     (case checkedRules h output of
        Inl err \<Rightarrow> (art, Inl err)
      | Inr (rules, defs) \<Rightarrow>
          (if \<not> validateServerScoping (cu_serverName u) rules then (art, Inl (BadScope (cu_serverName u)))
           else case listsFor w u 0 defs None art of
                  (art1, Inl err) \<Rightarrow> (art1, Inl err)
                | (art1, Inr dyn) \<Rightarrow>
                    (let written = policyFileOf w rules defs;
                         art2 = art1\<lparr>ar_policy := Some written\<rparr>;
                         dirs = extractPermittedDirectories rules
                     in case generateTestScenarios w dirs dyn (ar_scenarios art) of
                          Inl err \<Rightarrow> (art2, Inl err)
                        | Inr scenarios \<Rightarrow>
                            (case verifyAndRepairServer showNat w u h rules defs dyn written scenarios art2 of
                               (art3, Inl err) \<Rightarrow> (art3, Inl err)
                             | (art3, Inr st) \<Rightarrow>
                                 (let art4 = art3\<lparr>ar_policy := Some (policyFileOf w (cs_rules st) (cs_listDefinitions st)),
                                                  ar_scenarios := Some (cw_scenarioHash w dirs dyn, cs_scenarios st @ cs_probes st)\<rparr>
                                  in if \<not> vf_pass (cs_verification st) then (art4, Inl (VerificationFailed (cu_serverName u)))
                                     else (art4, Inr \<lparr>sv_serverName = cu_serverName u, sv_rules = cs_rules st,
                                             sv_listDefinitions = cs_listDefinitions st, sv_inputHash = cw_inputHash w,
                                             sv_resolvedLists = cs_dynamicLists st\<rparr>))))))))"

section \<open>All servers\<close>

type_synonym server_entry = "compile_unit \<times> compile_world \<times> server_artifacts"

record run_config =
  rn_serverFilter :: "string list option"
  rn_prefilterText :: "string option"
  rn_prefilterDecisions :: "(string \<times> string) list"

datatype run_error =
    NoMatchingServers "string list"
  | ListsDisallowed "string list"
  | AllServersFailed "string list"
  | BroadPolicyRejected broad_findings

datatype artifact_write =
    WriteLists dynamic_lists_file
  | RemoveLists
  | WriteScenarios
  | WritePolicy merged_policy

text \<open>The servers to compile and those the prefilter skips; its decisions are the names it skips, with the reason.\<close>

definition selectServers :: "run_config \<Rightarrow> server_entry list \<Rightarrow> run_error + server_entry list \<times> (string \<times> string) list" where
  "selectServers cfg entries =
     (let filtered = (case rn_serverFilter cfg of None \<Rightarrow> entries | Some names \<Rightarrow> filter (\<lambda>(u, _). cu_serverName u \<in> set names) entries)
      in case rn_serverFilter cfg of
           Some names \<Rightarrow> (if filtered = [] then Inl (NoMatchingServers names) else Inr (filtered, []))
         | None \<Rightarrow>
             (case rn_prefilterText cfg of
                None \<Rightarrow> Inr (filtered, [])
              | Some t \<Rightarrow>
                  (if trim t = [] then
                     Inr ([], map (\<lambda>(u, _). (cu_serverName u, ''No input text provided '' @ [CHR 0xE2, CHR 0x80, CHR 0x94] @
                       '' all servers skipped by default'')) filtered)
                   else let skip = map_of (rev (rn_prefilterDecisions cfg))
                        in Inr (filter (\<lambda>(u, _). skip (cu_serverName u) = None) filtered,
                                List.map_filter (\<lambda>(u, _). map_option (Pair (cu_serverName u)) (skip (cu_serverName u))) filtered))))"

definition outcomeError :: "compile_error + server_result \<Rightarrow> string list option" where
  "outcomeError x = (case x of Inl (McpListsDisallowed names) \<Rightarrow> Some names | _ \<Rightarrow> None)"

definition succeeded :: "compile_error + server_result \<Rightarrow> server_result option" where
  "succeeded x = (case x of Inr r \<Rightarrow> Some r | Inl _ \<Rightarrow> None)"

definition compileAllServers ::
  "(nat \<Rightarrow> string) \<Rightarrow> host \<Rightarrow> server_entry list \<Rightarrow> run_error + server_result list" where
  "compileAllServers showNat h entries =
     (if entries = [] then Inr []
      else let outcomes = map (\<lambda>(u, w, art). snd (compileServer showNat w u h art)) entries;
               results = List.map_filter succeeded outcomes
           in case List.map_filter outcomeError outcomes of
                names # _ \<Rightarrow> Inl (ListsDisallowed names)
              | [] \<Rightarrow> (if results = [] then Inl (AllServersFailed (map (\<lambda>(u, _). cu_serverName u) entries)) else Inr results))"

record run_result =
  rr_policy :: merged_policy
  rr_lists :: "dynamic_lists_file option"
  rr_servers :: "server_result list"
  rr_writes :: "artifact_write list"

definition runPerServer ::
  "(nat \<Rightarrow> string) \<Rightarrow> host \<Rightarrow> (string \<Rightarrow> string \<Rightarrow> bool) \<Rightarrow> (string \<Rightarrow> string) \<Rightarrow> string \<Rightarrow> string \<Rightarrow>
   (compiled_policy \<Rightarrow> dynamic_lists_file option \<Rightarrow> broad_findings option) \<Rightarrow> run_config \<Rightarrow> server_entry list \<Rightarrow> run_error + run_result" where
  "runPerServer showNat h leq digest now constitutionHash validateCompiled cfg entries =
     (case selectServers cfg entries of
        Inl err \<Rightarrow> Inl err
      | Inr (selected, skipped) \<Rightarrow>
     (case compileAllServers showNat h selected of
        Inl err \<Rightarrow> Inl err
      | Inr results \<Rightarrow>
          (let merged = mergeServerResults leq digest now results constitutionHash skipped;
               dyn = mergeDynamicLists now merged results
           in case validateCompiled (mp_policy merged) dyn of
                Some findings \<Rightarrow> Inl (BroadPolicyRejected findings)
              | None \<Rightarrow>
                  Inr \<lparr>rr_policy = merged, rr_lists = dyn, rr_servers = results,
                       rr_writes = [case dyn of None \<Rightarrow> RemoveLists | Some d \<Rightarrow> WriteLists d, WriteScenarios, WritePolicy merged]\<rparr>)))"

end
