(* ===== verification/Compiled_Policy_Props.thy ===== *)
theory Compiled_Policy_Props
  imports Compiled_Policy Policy_Engine_Props
begin

text \<open>
  What the compilation pipeline may rely on. The rules of other servers do not matter to a request, so
  the merged policy decides a request as the policy of its server alone does; a policy that the
  breadth check accepts confines its rules; patches keep the names of rules distinct.
\<close>

section \<open>Rules of other servers\<close>

definition admitsServer :: "string \<Rightarrow> compiled_rule \<Rightarrow> bool" where
  "admitsServer srv rule = (case c_server (r_if rule) of None \<Rightarrow> True | Some ss \<Rightarrow> srv \<in> set ss)"

lemma not_admitted:
  assumes "\<not> admitsServer (serverName rq) rule"
  shows "\<not> ruleMatchesNonPathConditions rule rq ann" "\<not> ruleMatches h rule rq ann r" "\<not> ruleApplies h rq ann r' rule"
  using assms by (auto simp: admitsServer_def ruleMatchesNonPathConditions_def ruleMatches_def ruleApplies_def Let_def split: option.splits)

lemma unscoped_filter:
  "evaluateRulesUnscoped h (filter (admitsServer (serverName rq)) rules) rq ann = evaluateRulesUnscoped h rules rq ann"
  by (induction rules) (simp_all add: not_admitted)

lemma scan_filter:
  "scanRulesForRole h (filter (admitsServer (serverName rq)) rules) rq ann r = scanRulesForRole h rules rq ann r"
  by (induction rules) (simp_all add: not_admitted)

lemma discharge_filter:
  "dischargePaths h rq ann r (filter (admitsServer (serverName rq)) rules) ps m = dischargePaths h rq ann r rules ps m"
proof (induction rules arbitrary: ps m)
  case (Cons rule rules)
  show ?case
  proof (cases "ps = [] \<or> \<not> admitsServer (serverName rq) rule")
    case True
    then have "ps = [] \<or> \<not> ruleApplies h rq ann r rule" using not_admitted(3) by blast
    moreover have "dischargePaths h rq ann r rs [] m = ([], m)" for rs by (cases rs) simp_all
    ultimately show ?thesis using True Cons by auto
  next
    case False
    then show ?thesis using Cons by (simp add: Let_def)
  qed
qed simp

lemma rolePaths_filter:
  assumes "filter (admitsServer (serverName rq)) (cp_rules p) = filter (admitsServer (serverName rq)) (cp_rules q)"
  shows "evaluateRulesForRolePaths (e\<lparr>compiledPolicy := p\<rparr>) h rq ann r ps = evaluateRulesForRolePaths (e\<lparr>compiledPolicy := q\<rparr>) h rq ann r ps"
proof -
  have "scanRulesForRole h (cp_rules p) rq ann r = scanRulesForRole h (cp_rules q) rq ann r" using assms scan_filter by metis
  moreover have "dischargePaths h rq ann r (cp_rules p) xs m = dischargePaths h rq ann r (cp_rules q) xs m" for xs m
    using assms discharge_filter by metis
  moreover have "sandboxDischarges (e\<lparr>compiledPolicy := p\<rparr>) = sandboxDischarges e" for p
    by (simp add: sandboxDischarges_def fun_eq_iff)
  ultimately show ?thesis
    by (simp add: evaluateRulesForRolePaths_def sandboxAllowResult_def Let_def)
qed

lemma combineRoles_filter:
  assumes "filter (admitsServer (serverName rq)) (cp_rules p) = filter (admitsServer (serverName rq)) (cp_rules q)"
  shows "combineRoles (e\<lparr>compiledPolicy := p\<rparr>) h rq ann rs m esc = combineRoles (e\<lparr>compiledPolicy := q\<rparr>) h rq ann rs m esc"
proof (induction rs arbitrary: m esc)
  case (Cons r rs)
  have "evaluateRulesForRole (e\<lparr>compiledPolicy := p\<rparr>) h rq ann r = evaluateRulesForRole (e\<lparr>compiledPolicy := q\<rparr>) h rq ann r"
    by (simp add: evaluateRulesForRole_def rolePaths_filter [OF assms])
  then show ?case by (simp only: combineRoles.simps Cons.IH)
qed simp

lemma compiledRules_filter:
  assumes "filter (admitsServer (serverName rq)) (cp_rules p) = filter (admitsServer (serverName rq)) (cp_rules q)"
  shows "evaluateCompiledRules (e\<lparr>compiledPolicy := p\<rparr>) h rq rs ann = evaluateCompiledRules (e\<lparr>compiledPolicy := q\<rparr>) h rq rs ann"
proof -
  have "evaluateRulesUnscoped h (cp_rules p) rq a = evaluateRulesUnscoped h (cp_rules q) rq a" for a
    using assms unscoped_filter by metis
  then show ?thesis by (simp add: evaluateCompiledRules_def combineRoles_filter [OF assms] Let_def split: option.split)
qed

lemma enrich_serverName [simp]: "serverName (enrichGitRequest e h rq ann) = serverName rq"
  by (simp add: enrichGitRequest_def Let_def split: option.split jsval.split)

lemma phases_policy [simp]:
  "getAnnotation (e\<lparr>compiledPolicy := p\<rparr>) = getAnnotation e"
  "enrichGitRequest (e\<lparr>compiledPolicy := p\<rparr>) = enrichGitRequest e"
  "evaluateStructuralInvariants (e\<lparr>compiledPolicy := p\<rparr>) = evaluateStructuralInvariants e"
proof -
  have fp: "firstProtected (e\<lparr>compiledPolicy := p\<rparr>) h ps = firstProtected e h ps" for h ps by (induction ps) auto
  have sb: "sandboxResolved (e\<lparr>compiledPolicy := p\<rparr>) = sandboxResolved e"
    by (simp add: sandboxResolved_def fun_eq_iff Let_def)
  have al: "serverDomainAllowlists (e\<lparr>compiledPolicy := p\<rparr>) = serverDomainAllowlists e" by simp
  show "evaluateStructuralInvariants (e\<lparr>compiledPolicy := p\<rparr>) = evaluateStructuralInvariants e"
    by (intro ext) (simp only: evaluateStructuralInvariants_def fp sb al)
  have "allowedDirectory (e\<lparr>compiledPolicy := p\<rparr>) = allowedDirectory e" by simp
  then show "enrichGitRequest (e\<lparr>compiledPolicy := p\<rparr>) = enrichGitRequest e"
    by (intro ext) (simp only: enrichGitRequest_def)
qed (simp add: getAnnotation_def fun_eq_iff)

lemma evaluate_filter:
  assumes "filter (admitsServer (serverName rq)) (cp_rules p) = filter (admitsServer (serverName rq)) (cp_rules q)"
  shows "evaluate (e\<lparr>compiledPolicy := p\<rparr>) h rq = evaluate (e\<lparr>compiledPolicy := q\<rparr>) h rq"
proof -
  have "evaluateCompiledRules (e\<lparr>compiledPolicy := p\<rparr>) h (enrichGitRequest e h rq ann) rs ann' =
      evaluateCompiledRules (e\<lparr>compiledPolicy := q\<rparr>) h (enrichGitRequest e h rq ann) rs ann'" for ann rs ann'
    by (rule compiledRules_filter) (simp add: assms)
  then show ?thesis by (simp add: evaluate_def Let_def split: option.split)
qed

section \<open>The merge\<close>

lemma set_insertServer [simp]: "set (insertServer leq r ss) = insert r (set ss)"
  by (induction ss) auto

lemma set_sortServers [simp]: "set (sortServers leq rs) = set rs"
  by (induction rs) (simp_all add: sortServers_def)

lemma distinct_insertServer:
  "distinct (map f (insertServer leq r ss)) \<longleftrightarrow> f r \<notin> f ` set ss \<and> distinct (map f ss)"
  by (induction ss) auto

lemma distinct_sortServers: "distinct (map f (sortServers leq rs)) \<longleftrightarrow> distinct (map f rs)"
proof (induction rs)
  case (Cons r rs)
  have "sortServers leq (r # rs) = insertServer leq r (sortServers leq rs)" by (simp add: sortServers_def)
  then show ?case using Cons by (simp add: distinct_insertServer)
qed (simp add: sortServers_def)

lemma names_deduplicateFrom:
  "set (map ld_name (deduplicateFrom seen ds)) = set (map ld_name ds) - set seen"
  by (induction ds arbitrary: seen) auto

lemma names_deduplicate [simp]: "ld_name ` set (deduplicateListDefinitions ds) = ld_name ` set ds"
  using names_deduplicateFrom [of "[]" ds] by (simp add: deduplicateListDefinitions_def)

text \<open>The list that a name stands for in the first result that has it.\<close>

definition resolvedOf :: "server_result \<Rightarrow> string \<Rightarrow> resolved_list option" where
  "resolvedOf r n = (case sv_resolvedLists r of None \<Rightarrow> None | Some dyn \<Rightarrow> map_of (dl_lists dyn) n)"

fun firstResolved :: "server_result list \<Rightarrow> string \<Rightarrow> resolved_list option" where
  "firstResolved [] n = None"
| "firstResolved (r # rs) n = (case resolvedOf r n of None \<Rightarrow> firstResolved rs n | Some l \<Rightarrow> Some l)"

lemma addLists_map_of:
  "map_of (foldl (\<lambda>m (name, l). if name \<in> set kept \<and> \<not> name \<in> fst ` set m then setProp m name l else m) m ls) n =
     (case map_of m n of Some l \<Rightarrow> Some l | None \<Rightarrow> if n \<in> set kept then map_of ls n else None)"
proof (induction ls arbitrary: m)
  case (Cons x ls)
  show ?case
  proof (cases x)
    case (Pair name l)
    have none: "map_of m name = None \<longleftrightarrow> name \<notin> fst ` set m" by (rule map_of_eq_None_iff)
    show ?thesis
    proof (cases "name \<in> set kept \<and> name \<notin> fst ` set m")
      case True
      then show ?thesis using Pair Cons.IH [of "setProp m name l"] none by (auto split: option.splits)
    next
      case False
      then show ?thesis using Pair Cons.IH [of m] none by (auto split: option.splits)
    qed
  qed
qed (simp split: option.split)

lemma addResolvedLists_map_of:
  "map_of (addResolvedLists kept m r) n =
     (case map_of m n of Some l \<Rightarrow> Some l | None \<Rightarrow> if n \<in> set kept then resolvedOf r n else None)"
  by (simp add: addResolvedLists_def resolvedOf_def addLists_map_of split: option.split)

lemma mergedLists_map_of:
  "map_of (foldl (addResolvedLists kept) m rs) n =
     (case map_of m n of Some l \<Rightarrow> Some l | None \<Rightarrow> if n \<in> set kept then firstResolved rs n else None)"
  by (induction rs arbitrary: m) (auto simp: addResolvedLists_map_of split: option.splits)

lemma firstResolved_own:
  assumes "r \<in> set rs" "\<forall>s \<in> set rs. resolvedOf s n \<noteq> None \<longrightarrow> s = r"
  shows "firstResolved rs n = resolvedOf r n"
proof -
  have none: "firstResolved ss n = None" if "\<forall>s \<in> set ss. resolvedOf s n = None" for ss using that by (induction ss) auto
  show ?thesis
  proof (cases "resolvedOf r n")
    case None
    then have "\<forall>s \<in> set rs. resolvedOf s n = None" using assms(2) by (metis option.exhaust option.distinct(1))
    then show ?thesis using None none by simp
  next
    case (Some l)
    have "firstResolved ss n = Some l" if "r \<in> set ss" "set ss \<subseteq> set rs" for ss
      using that
    proof (induction ss)
      case (Cons s ss)
      show ?case
      proof (cases "resolvedOf s n")
        case None
        then show ?thesis using Cons Some by auto
      next
        case (Some k)
        then have "s = r" using assms(2) Cons.prems(2) by auto
        then show ?thesis using \<open>resolvedOf r n = Some l\<close> by simp
      qed
    qed simp
    then show ?thesis using assms(1) Some by simp
  qed
qed

lemma filter_own_rules:
  assumes "distinct (map sv_serverName rs)" "r \<in> set rs"
    and "\<forall>s \<in> set rs. validateServerScoping (sv_serverName s) (sv_rules s)"
  shows "filter (admitsServer (sv_serverName r)) (concat (map sv_rules rs)) = sv_rules r"
  using assms
proof (induction rs)
  case (Cons s rs)
  have own: "filter (admitsServer (sv_serverName r)) (sv_rules s) = (if sv_serverName s = sv_serverName r then sv_rules s else [])"
    using Cons.prems(3) by (auto simp: validateServerScoping_def list_all_iff admitsServer_def filter_id_conv filter_empty_conv)
  show ?case
  proof (cases "s = r")
    case True
    have "filter (admitsServer (sv_serverName r)) (sv_rules t) = []" if "t \<in> set rs" for t
    proof -
      have "sv_serverName t \<noteq> sv_serverName r" using Cons.prems(1) True that by (metis distinct.simps(2) image_eqI list.map(2) set_map)
      then show ?thesis using Cons.prems(3) that
        by (auto simp: validateServerScoping_def list_all_iff admitsServer_def filter_empty_conv)
    qed
    then have "filter (admitsServer (sv_serverName r)) (concat (map sv_rules rs)) = []" by (simp add: filter_empty_conv)
    then show ?thesis using own True by simp
  next
    case False
    then have "sv_serverName s \<noteq> sv_serverName r" using Cons.prems(1,2) by auto
    then show ?thesis using own Cons False by simp
  qed
qed simp

section \<open>List references\<close>

lemma expandAllowed_cong:
  assumes "\<And>n. n \<in> set (map (drop 1) (filter isListRef allowed)) \<Longrightarrow> getEffectiveListValues n d = getEffectiveListValues n d'"
  shows "expandAllowed d allowed = expandAllowed d' allowed"
  unfolding expandAllowed_def using assms by (intro arg_cong [where f = concat] map_cong) (auto simp: isListRef_def)

lemma expandRule_cong:
  assumes "\<And>n. n \<in> set (ruleListRefs rule) \<Longrightarrow> getEffectiveListValues n d = getEffectiveListValues n d'"
  shows "expandRule d rule = expandRule d' rule"
proof -
  have "expandAllowed d (dc_allowed dc) = expandAllowed d' (dc_allowed dc)" if "c_domains (r_if rule) = Some dc" for dc
    by (rule expandAllowed_cong) (use that assms in \<open>auto simp: ruleListRefs_def domainEntries_def\<close>)
  moreover have "expandAllowed d (lc_allowed lc) = expandAllowed d' (lc_allowed lc)"
    if "c_lists (r_if rule) = Some ls" "lc \<in> set ls" for ls lc
    by (rule expandAllowed_cong) (use that assms in \<open>auto simp: ruleListRefs_def listConditions_def\<close>)
  ultimately show ?thesis by (simp add: expandRule_def Let_def cong: map_cong split: option.split)
qed

lemma expandRule_plain:
  assumes "ruleListRefs rule = []"
  shows "expandRule d rule = rule"
proof -
  have "\<not> list_ex (\<lambda>e. startsWith e ''@'') (dc_allowed dc)" if "c_domains (r_if rule) = Some dc" for dc
    using that assms by (auto simp: ruleListRefs_def domainEntries_def list_ex_iff filter_empty_conv isListRef_def)
  moreover have "\<not> list_ex (\<lambda>lc. list_ex (\<lambda>e. startsWith e ''@'') (lc_allowed lc)) ls" if "c_lists (r_if rule) = Some ls" for ls
    using that assms by (auto simp: ruleListRefs_def listConditions_def list_ex_iff filter_empty_conv isListRef_def)
  ultimately show ?thesis by (simp add: expandRule_def Let_def split: option.split)
qed

lemma expandRule_server [simp]: "c_server (r_if (expandRule d rule)) = c_server (r_if rule)"
  by (simp add: expandRule_def Let_def split: option.split)

lemma admits_expandRule [simp]: "admitsServer srv (expandRule d rule) = admitsServer srv rule"
  by (simp add: admitsServer_def)

lemma listDefOf_Some: "listDefOf defs n \<noteq> None \<longleftrightarrow> n \<in> ld_name ` set defs"
  by (auto simp: listDefOf_def map_of_eq_None_iff image_image)

lemma validated_refs:
  assumes "fst (validateCompiledRules rules defs) = []" "rule \<in> set rules" "n \<in> set (ruleListRefs rule)"
  shows "n \<in> ld_name ` set defs"
proof -
  have ok: "ruleIssues defs rule = []" using assms(1,2) by (auto simp: validateCompiledRules_def Let_def)
  from assms(3) obtain e where e: "n = drop 1 e" "isListRef e"
    and mem: "e \<in> set (domainEntries rule) \<or> (\<exists>lc \<in> set (listConditions rule). e \<in> set (lc_allowed lc))"
    by (auto simp: ruleListRefs_def)
  from mem have "listDefOf defs n \<noteq> None"
  proof
    assume "e \<in> set (domainEntries rule)"
    then have "domainEntryIssues defs rule e = []" using ok by (auto simp: ruleIssues_def)
    then show ?thesis using e by (auto simp: domainEntryIssues_def Let_def split: option.splits)
  next
    assume "\<exists>lc \<in> set (listConditions rule). e \<in> set (lc_allowed lc)"
    then obtain lc where "lc \<in> set (listConditions rule)" "e \<in> set (lc_allowed lc)" by blast
    then have "listEntryIssues defs rule lc e = []" using ok by (auto simp: ruleIssues_def)
    then show ?thesis using e by (auto simp: listEntryIssues_def Let_def split: option.splits)
  qed
  then show ?thesis by (simp only: listDefOf_Some)
qed

section \<open>The merged policy\<close>

text \<open>What one server's compilation ends with: rules scoped to the server, no issue, and its lists resolved.\<close>

definition wellCompiled :: "server_result \<Rightarrow> bool" where
  "wellCompiled r =
     (validateServerScoping (sv_serverName r) (sv_rules r) \<and>
      fst (validateCompiledRules (sv_rules r) (sv_listDefinitions r)) = [] \<and>
      (sv_listDefinitions r = [] \<or> sv_resolvedLists r \<noteq> None))"

text \<open>The names of the lists that a compilation resolved.\<close>

definition listNamesOf :: "server_result \<Rightarrow> string set" where
  "listNamesOf r = (case sv_resolvedLists r of None \<Rightarrow> {} | Some dyn \<Rightarrow> fst ` set (dl_lists dyn))"

definition ownPolicy :: "string \<Rightarrow> string \<Rightarrow> server_result \<Rightarrow> compiled_policy" where
  "ownPolicy now constitutionHash r =
     \<lparr>cp_generatedAt = now, cp_constitutionHash = constitutionHash, cp_inputHash = sv_inputHash r, cp_rules = sv_rules r\<rparr>"

lemma resolvedOf_names: "resolvedOf r n \<noteq> None \<longleftrightarrow> n \<in> listNamesOf r"
  by (simp add: resolvedOf_def listNamesOf_def map_of_eq_None_iff del: not_None_eq split: option.split)

lemma merged_fields:
  "cp_rules (mp_policy (mergeServerResults leq digest now rs ch sk)) = concat (map sv_rules (sortServers leq rs))"
  "ld_name ` set (mp_listDefinitions (mergeServerResults leq digest now rs ch sk)) = (\<Union>r \<in> set rs. ld_name ` set (sv_listDefinitions r))"
  by (auto simp: mergeServerResults_def Let_def)

lemma own_list_kept:
  assumes "r \<in> set rs" "n \<in> ld_name ` set (sv_listDefinitions r)"
    and "\<forall>s \<in> set rs. s \<noteq> r \<longrightarrow> n \<notin> listNamesOf s"
    and "mergeDynamicLists now (mergeServerResults leq digest now rs ch sk) rs = Some d"
  shows "map_of (dl_lists d) n = resolvedOf r n"
proof -
  let ?kept = "map ld_name (mp_listDefinitions (mergeServerResults leq digest now rs ch sk))"
  have "dl_lists d = foldl (addResolvedLists ?kept) [] rs"
    using assms(4) by (auto simp: mergeDynamicLists_def split: if_splits)
  moreover have "n \<in> set ?kept" using merged_fields(2) [of leq digest now rs ch sk] assms(1,2) by auto
  moreover have "firstResolved rs n = resolvedOf r n"
    by (rule firstResolved_own [OF assms(1)]) (use assms(3) resolvedOf_names in blast)
  ultimately show ?thesis by (simp only: mergedLists_map_of map_of.simps option.case if_True)
qed

text \<open>The rules an engine ends up with.\<close>

definition effectiveRules :: "compiled_rule list \<Rightarrow> dynamic_lists_file option \<Rightarrow> compiled_rule list" where
  "effectiveRules rules dyn = (case dyn of None \<Rightarrow> rules | Some d \<Rightarrow> map (expandRule d) rules)"

lemma engine_rules:
  "cp_rules (compiledPolicy (newPolicyEngine h p ann prot dir doms dyn tr)) = effectiveRules (cp_rules p) dyn"
  by (simp add: newPolicyEngine_def effectiveRules_def expandListReferences_def split: option.split)

lemma effectiveRules_plain:
  "(\<And>rule. rule \<in> set rules \<Longrightarrow> ruleListRefs rule = []) \<Longrightarrow> effectiveRules rules dyn = rules"
  by (simp add: effectiveRules_def expandRule_plain map_idI split: option.split)

lemma engine_as_update:
  "newPolicyEngine h p ann prot dir doms dyn tr =
     (newPolicyEngine h q ann prot dir doms dyn' tr)\<lparr>compiledPolicy := compiledPolicy (newPolicyEngine h p ann prot dir doms dyn tr)\<rparr>"
  by (simp add: newPolicyEngine_def)

lemma filter_effective:
  "filter (admitsServer srv) (effectiveRules rules dyn) = effectiveRules (filter (admitsServer srv) rules) dyn"
  by (simp add: effectiveRules_def filter_map comp_def split: option.split)

lemma own_rules_admitted:
  "validateServerScoping srv rules \<Longrightarrow> filter (admitsServer srv) rules = rules"
  by (auto simp: validateServerScoping_def list_all_iff admitsServer_def intro!: filter_True)

lemma wellCompiled_refs:
  "wellCompiled r \<Longrightarrow> rule \<in> set (sv_rules r) \<Longrightarrow> n \<in> set (ruleListRefs rule) \<Longrightarrow> n \<in> ld_name ` set (sv_listDefinitions r)"
  using validated_refs unfolding wellCompiled_def by blast

lemma effective_agree:
  assumes ok: "\<forall>s \<in> set rs. wellCompiled s" "r \<in> set rs"
    and apart: "\<forall>s \<in> set rs. s \<noteq> r \<longrightarrow> listNamesOf s \<inter> ld_name ` set (sv_listDefinitions r) = {}"
  shows "effectiveRules (sv_rules r) (mergeDynamicLists now (mergeServerResults leq digest now rs ch sk) rs) =
         effectiveRules (sv_rules r) (sv_resolvedLists r)"
proof (cases "sv_listDefinitions r = []")
  case True
  have "ruleListRefs rule = []" if "rule \<in> set (sv_rules r)" for rule
  proof (rule ccontr)
    assume "ruleListRefs rule \<noteq> []"
    then obtain n where "n \<in> set (ruleListRefs rule)" by (meson hd_in_set)
    with wellCompiled_refs [OF bspec [OF ok] that] True show False by simp
  qed
  then show ?thesis by (simp add: effectiveRules_plain)
next
  case False
  let ?m = "mergeServerResults leq digest now rs ch sk"
  have "mp_listDefinitions ?m \<noteq> []" using merged_fields(2) [of leq digest now rs ch sk] False ok(2) by fastforce
  then obtain d where d: "mergeDynamicLists now ?m rs = Some d" by (simp add: mergeDynamicLists_def)
  obtain own where own: "sv_resolvedLists r = Some own" using ok False by (auto simp: wellCompiled_def)
  have "expandRule d rule = expandRule own rule" if rule: "rule \<in> set (sv_rules r)" for rule
  proof (rule expandRule_cong)
    fix n assume "n \<in> set (ruleListRefs rule)"
    then have n: "n \<in> ld_name ` set (sv_listDefinitions r)" by (rule wellCompiled_refs [OF bspec [OF ok] rule])
    have "map_of (dl_lists d) n = resolvedOf r n"
      by (rule own_list_kept [OF ok(2) n _ d]) (use apart n in blast)
    then show "getEffectiveListValues n d = getEffectiveListValues n own"
      by (simp add: getEffectiveListValues_def resolvedOf_def own)
  qed
  then show ?thesis by (simp add: d own effectiveRules_def)
qed

section \<open>What the breadth check leaves\<close>

definition labels :: "string \<Rightarrow> string list" where
  "labels d = filter (\<lambda>l. l \<noteq> []) (splitOn CHR ''.'' d)"

text \<open>A domain is admitted by name, or below a base of two labels at least.\<close>

definition narrowlyAdmits :: "string list \<Rightarrow> string \<Rightarrow> bool" where
  "narrowlyAdmits allowed d =
     list_ex (\<lambda>p. p = hostPart d \<or> p = d \<or>
        startsWith p ''*.'' \<and> 2 \<le> length (labels (drop 2 p)) \<and> (hostPart d = drop 2 p \<or> endsWith (hostPart d) (drop 1 p))) allowed"

lemma narrow_match:
  assumes "\<forall>p \<in> set allowed. \<not> isBroadDomainPattern p" "domainMatchesAllowlist d allowed"
  shows "narrowlyAdmits allowed d"
proof -
  obtain p where p: "p \<in> set allowed" "domainPatternMatches d p" using assms(2) domainMatchesAllowlist_iff by blast
  have narrow: "\<not> isBroadDomainPattern p" using assms(1) p(1) by blast
  then have "p \<noteq> ''*''" by (auto simp: isBroadDomainPattern_def)
  show ?thesis
  proof (cases "startsWith p ''*.''")
    case True
    have "2 \<le> length (labels (drop 2 p))"
      using narrow True \<open>p \<noteq> ''*''\<close> by (simp add: isBroadDomainPattern_def labels_def)
    moreover have "hostPart d = drop 2 p \<or> endsWith (hostPart d) (drop 1 p)"
      using p(2) True \<open>p \<noteq> ''*''\<close> by (simp add: domainPatternMatches_def Let_def)
    ultimately show ?thesis using p(1) True unfolding narrowlyAdmits_def list_ex_iff by blast
  next
    case False
    then have "p = hostPart d \<or> p = d" using p(2) \<open>p \<noteq> ''*''\<close> by (auto simp: domainPatternMatches_def Let_def split: if_splits)
    then show ?thesis using p(1) unfolding narrowlyAdmits_def list_ex_iff by blast
  qed
qed

lemma reference_not_broad: "startsWith p ''@'' \<Longrightarrow> \<not> isBroadDomainPattern p"
  by (auto simp: isBroadDomainPattern_def prefix_def)

lemma expandAllowed_plain: "\<not> list_ex (\<lambda>e. startsWith e ''@'') allowed \<Longrightarrow> expandAllowed d allowed = allowed"
proof -
  assume "\<not> list_ex (\<lambda>e. startsWith e ''@'') allowed"
  then have "map (\<lambda>e. if startsWith e ''@'' then getEffectiveListValues (drop 1 e) d else [e]) allowed = map (\<lambda>e. [e]) allowed"
    by (auto simp: list_ex_iff)
  moreover have "concat (map (\<lambda>e. [e]) allowed) = allowed" by (induction allowed) auto
  ultimately show ?thesis by (simp only: expandAllowed_def)
qed

lemma domainEntries_expandRule: "domainEntries (expandRule d rule) = expandAllowed d (domainEntries rule)"
  by (auto simp: domainEntries_def expandRule_def Let_def expandAllowed_plain expandAllowed_def [of d "[]"] split: option.split)

lemma lists_expandRule:
  "lc \<in> set (listConditions (expandRule d rule)) \<Longrightarrow>
     \<exists>lc0 \<in> set (listConditions rule). lc_allowed lc = expandAllowed d (lc_allowed lc0)"
  by (auto simp: listConditions_def expandRule_def Let_def expandAllowed_plain list_ex_iff split: option.splits if_splits)

lemma paths_expandRule [simp]: "c_paths (r_if (expandRule d rule)) = c_paths (r_if rule)"
  by (simp add: expandRule_def Let_def split: option.split)

lemma breadth_single:
  "e \<in> set allowed \<Longrightarrow> x \<in> set (expandAllowedForBreadth [e] dyn) \<Longrightarrow> x \<in> set (expandAllowedForBreadth allowed dyn)"
  unfolding expandAllowedForBreadth_def by (induction allowed) auto

lemma not_broad_expanded:
  assumes "broadEntries allowed (Some d) = []" "p \<in> set (expandAllowed d allowed)"
  shows "\<not> isBroadDomainPattern p"
proof -
  obtain e where e: "e \<in> set allowed" "p \<in> set (if startsWith e ''@'' then getEffectiveListValues (drop 1 e) d else [e])"
    using assms(2) by (auto simp: expandAllowed_def)
  have "\<exists>via. (p, via) \<in> set (expandAllowedForBreadth allowed (Some d))"
  proof (cases "startsWith e ''@''")
    case True
    then obtain l where "map_of (dl_lists d) (drop 1 e) = Some l"
        "p \<in> set (filter (\<lambda>v. v \<notin> set (rl_manualRemovals l)) (uniq (rl_values l @ rl_manualAdditions l)))"
      using e(2) by (cases "map_of (dl_lists d) (drop 1 e)") (auto simp: getEffectiveListValues_def)
    then have "(p, Some e) \<in> set (expandAllowedForBreadth [e] (Some d))"
      using True by (simp add: expandAllowedForBreadth_def)
    then have "(p, Some e) \<in> set (expandAllowedForBreadth allowed (Some d))" by (rule breadth_single [OF e(1)])
    then show ?thesis by blast
  next
    case False
    then have "(p, None) \<in> set (expandAllowedForBreadth [e] (Some d))"
      using e(2) by (simp add: expandAllowedForBreadth_def)
    then have "(p, None) \<in> set (expandAllowedForBreadth allowed (Some d))" by (rule breadth_single [OF e(1)])
    then show ?thesis by blast
  qed
  with assms(1) show ?thesis by (auto simp: broadEntries_def filter_empty_conv)
qed

lemma not_broad_literal:
  assumes "broadEntries allowed None = []" "p \<in> set allowed"
  shows "\<not> isBroadDomainPattern p"
proof (cases "startsWith p ''@''")
  case False
  then have "(p, None) \<in> set (expandAllowedForBreadth [p] None)" by (simp add: expandAllowedForBreadth_def)
  then have "(p, None) \<in> set (expandAllowedForBreadth allowed None)" by (rule breadth_single [OF assms(2)])
  with assms(1) show ?thesis by (auto simp: broadEntries_def filter_empty_conv)
qed (rule reference_not_broad)

lemma accepted_parts:
  assumes "makeBroadPolicyValidator h ws False policy dyn = None" "rule \<in> set (cp_rules policy)"
  shows "broadEntries (domainEntries rule) dyn = []"
    "lc \<in> set (listConditions rule) \<Longrightarrow> broadEntries (lc_allowed lc) dyn = []"
    "outsideWorkspace h ws rule = []"
proof -
  have uniq_Nil: "uniq xs = [] \<longleftrightarrow> xs = []" for xs :: "string list" by (metis set_empty set_uniq)
  have "bf_broadenedDomains (findBroadPolicy h policy ws dyn) = []" "bf_outOfWorkspacePaths (findBroadPolicy h policy ws dyn) = []"
    using assms(1) by (auto simp: makeBroadPolicyValidator_def Let_def split: if_splits)
  then show "broadEntries (domainEntries rule) dyn = []"
    "lc \<in> set (listConditions rule) \<Longrightarrow> broadEntries (lc_allowed lc) dyn = []"
    "outsideWorkspace h ws rule = []"
    using assms(2) by (auto simp: findBroadPolicy_def uniq_Nil)
qed

section \<open>Patches\<close>

lemma ruleIndex_Some:
  assumes "ruleIndex name rules = Some i"
  shows "rules = take i rules @ rules ! i # drop (i + 1) rules" "r_name (rules ! i) = name" "i < length rules"
proof -
  have i: "i = length (takeWhile (\<lambda>r. r_name r \<noteq> name) rules)" "i < length rules"
    using assms by (auto simp: ruleIndex_def Let_def split: if_splits)
  then show "r_name (rules ! i) = name" using nth_length_takeWhile [of "\<lambda>r. r_name r \<noteq> name" rules] by simp
  show "rules = take i rules @ rules ! i # drop (i + 1) rules" using i(2) id_take_nth_drop by fastforce
qed (use assms in \<open>auto simp: ruleIndex_def Let_def split: if_splits\<close>)

definition touchedBy :: "rule_patch_op \<Rightarrow> string" where
  "touchedBy op = (case op of UpdateRule n _ \<Rightarrow> n | AddRule _ r \<Rightarrow> r_name r | DeleteRule n \<Rightarrow> n)"

lemma applyPatchOp_keeps:
  assumes "applyPatchOp op rules = Inr rules'" "distinct (map r_name rules)"
  shows "distinct (map r_name rules') \<and>
     filter (\<lambda>r. r_name r \<noteq> touchedBy op) rules' = filter (\<lambda>r. r_name r \<noteq> touchedBy op) rules"
proof (cases op)
  case (UpdateRule n rule)
  then obtain i where i: "ruleIndex n rules = Some i" and same: "r_name rule = n" and rules': "rules' = rules[i := rule]"
    using assms(1) by (auto split: option.splits if_splits)
  note at = ruleIndex_Some [OF i]
  have "map r_name rules' = map r_name rules" using at(2,3) same rules' by (metis list_update_id map_update nth_map)
  moreover have "rules' = take i rules @ rule # drop (i + 1) rules" using rules' at(3) by (simp add: upd_conv_take_nth_drop)
  ultimately show ?thesis using assms(2) at(1,2) same UpdateRule
    by (metis (mono_tags, lifting) filter.simps(2) filter_append rule_patch_op.case(1) touchedBy_def)
next
  case (AddRule after rule)
  then have fresh: "\<forall>r \<in> set rules. r_name r \<noteq> r_name rule"
    using assms(1) by (auto simp: list_ex_iff split: if_splits)
  obtain k where rules': "rules' = take k rules @ rule # drop k rules"
  proof (cases after)
    case None
    then show ?thesis using that [of 0] assms(1) AddRule by (auto split: if_splits)
  next
    case (Some a)
    then show ?thesis using that assms(1) AddRule by (auto split: if_splits option.splits)
  qed
  have split: "rules = take k rules @ drop k rules" by simp
  have "distinct (map r_name (take k rules) @ map r_name (drop k rules))" using assms(2) split by (metis map_append)
  moreover have "r_name rule \<notin> set (map r_name (take k rules)) \<union> set (map r_name (drop k rules))"
    using fresh by (auto dest: in_set_takeD in_set_dropD)
  ultimately have "distinct (map r_name rules')" unfolding rules' by auto
  moreover have "filter P rules' = filter P rules" if "\<not> P rule" for P
    using that split unfolding rules' by (metis filter.simps(2) filter_append)
  ultimately show ?thesis using AddRule by (simp add: touchedBy_def)
next
  case (DeleteRule n)
  then obtain i where i: "ruleIndex n rules = Some i" and rules': "rules' = take i rules @ drop (i + 1) rules"
    using assms(1) by (auto split: option.splits)
  note at = ruleIndex_Some [OF i]
  have "distinct (map r_name (take i rules @ rules ! i # drop (i + 1) rules))" using assms(2) at(1) by simp
  then have "distinct (map r_name rules')" unfolding rules' by auto
  moreover have "filter P rules' = filter P rules" if "\<not> P (rules ! i)" for P
    using that at(1) unfolding rules' by (metis filter.simps(2) filter_append)
  ultimately show ?thesis using DeleteRule at(2) by (simp add: touchedBy_def)
qed

section \<open>The decisions of the merged policy\<close>

lemma merged_policy_equals_server:
  assumes names: "distinct (map sv_serverName rs)" and ok: "\<forall>s \<in> set rs. wellCompiled s"
    and r: "r \<in> set rs" "serverName rq = sv_serverName r"
    and apart: "\<forall>s \<in> set rs. s \<noteq> r \<longrightarrow> listNamesOf s \<inter> ld_name ` set (sv_listDefinitions r) = {}"
    and merged: "merged = mergeServerResults leq digest now rs ch sk"
  shows "evaluate (newPolicyEngine h (mp_policy merged) ann prot dir doms (mergeDynamicLists now merged rs) tr) h rq =
         evaluate (newPolicyEngine h (ownPolicy now ch r) ann prot dir doms (sv_resolvedLists r) tr) h rq"
proof -
  let ?e = "newPolicyEngine h (ownPolicy now ch r) ann prot dir doms (sv_resolvedLists r) tr"
  let ?m = "newPolicyEngine h (mp_policy merged) ann prot dir doms (mergeDynamicLists now merged rs) tr"
  have scoped: "\<forall>s \<in> set rs. validateServerScoping (sv_serverName s) (sv_rules s)" using ok by (auto simp: wellCompiled_def)
  have "filter (admitsServer (serverName rq)) (cp_rules (mp_policy merged)) = sv_rules r"
    unfolding merged merged_fields r(2) by (rule filter_own_rules) (use names r(1) scoped in \<open>simp_all add: distinct_sortServers\<close>)
  then have "filter (admitsServer (serverName rq)) (cp_rules (compiledPolicy ?m)) =
      effectiveRules (sv_rules r) (mergeDynamicLists now merged rs)"
    by (simp add: engine_rules filter_effective)
  also have "\<dots> = effectiveRules (sv_rules r) (sv_resolvedLists r)"
    unfolding merged by (rule effective_agree [OF ok r(1) apart])
  also have "\<dots> = filter (admitsServer (serverName rq)) (cp_rules (compiledPolicy ?e))"
    using own_rules_admitted scoped r by (simp add: engine_rules filter_effective ownPolicy_def)
  finally have "evaluate (?e\<lparr>compiledPolicy := compiledPolicy ?m\<rparr>) h rq = evaluate (?e\<lparr>compiledPolicy := compiledPolicy ?e\<rparr>) h rq"
    by (rule evaluate_filter)
  moreover have "?e\<lparr>compiledPolicy := compiledPolicy ?m\<rparr> = ?m" using engine_as_update by metis
  moreover have "?e\<lparr>compiledPolicy := compiledPolicy ?e\<rparr> = ?e" by simp
  ultimately show ?thesis by simp
qed

section \<open>Properties\<close>


text \<open>Patches.\<close>

theorem patched_rules_keep_names:
  assumes "applyRulePatch rules ops = Inr rules'" "distinct (map r_name rules)"
  shows "distinct (map r_name rules') \<and>
     filter (\<lambda>r. r_name r \<notin> touchedBy ` set ops) rules' = filter (\<lambda>r. r_name r \<notin> touchedBy ` set ops) rules"
  using assms
proof (induction ops arbitrary: rules)
  case (Cons op ops)
  then obtain mid where mid: "applyPatchOp op rules = Inr mid" "applyRulePatch mid ops = Inr rules'"
    by (auto split: sum.splits)
  note here = applyPatchOp_keeps [OF mid(1) Cons.prems(2)]
  have rest: "distinct (map r_name rules')"
    "filter (\<lambda>r. r_name r \<notin> touchedBy ` set ops) rules' = filter (\<lambda>r. r_name r \<notin> touchedBy ` set ops) mid"
    using Cons.IH [OF mid(2)] here by auto
  have both: "filter (\<lambda>r. r_name r \<notin> touchedBy ` set (op # ops)) rs =
      filter (\<lambda>r. r_name r \<notin> touchedBy ` set ops) (filter (\<lambda>r. r_name r \<noteq> touchedBy op) rs)"
    "filter (\<lambda>r. r_name r \<notin> touchedBy ` set (op # ops)) rs =
      filter (\<lambda>r. r_name r \<noteq> touchedBy op) (filter (\<lambda>r. r_name r \<notin> touchedBy ` set ops) rs)" for rs
    by (auto intro: filter_cong)
  show ?case using rest here by (metis both)
qed simp

section \<open>Witnesses\<close>

definition mergeDomainRule :: "string \<Rightarrow> compiled_rule" where
  "mergeDomainRule srv = \<lparr>r_name = srv @ ''-hosts'', r_description = [], r_principle = [],
     r_if = \<lparr>c_roles = None, c_server = Some [srv], c_tool = None, c_paths = None,
       c_domains = Some \<lparr>dc_roles = [GitRemoteUrl], dc_allowed = [''@hosts'']\<rparr>, c_lists = None\<rparr>,
     r_then = Allow, r_reason = []\<rparr>"

definition mergeListDef :: list_definition where
  "mergeListDef = \<lparr>ld_name = ''hosts'', ld_type = Domains, ld_principle = [], ld_generationPrompt = [],
     ld_requiresMcp = False, ld_mcpServerHint = None\<rparr>"

definition mergeLists :: "string list \<Rightarrow> dynamic_lists_file" where
  "mergeLists vs = \<lparr>dl_generatedAt = [], dl_lists = [(''hosts'', \<lparr>rl_values = vs, rl_manualAdditions = [], rl_manualRemovals = []\<rparr>)]\<rparr>"

definition mergeGit :: server_result where
  "mergeGit = \<lparr>sv_serverName = ''git'', sv_rules = [mergeDomainRule ''git''], sv_listDefinitions = [mergeListDef],
     sv_inputHash = ''h1'', sv_resolvedLists = Some (mergeLists [''evil.com''])\<rparr>"

definition mergeFetch :: server_result where
  "mergeFetch = mergeGit\<lparr>sv_serverName := ''fetch'', sv_rules := [mergeDomainRule ''fetch''],
     sv_listDefinitions := [mergeListDef\<lparr>ld_generationPrompt := ''fetch''\<rparr>], sv_resolvedLists := Some (mergeLists [''good.com''])\<rparr>"

definition mergePush :: tool_call_request where
  "mergePush = demoRequest ''git'' ''git_push'' [(''path'', JStr ''/s''), (''remote'', JStr ''https://evil.com/x'')]"

definition mergeEngine :: "compiled_policy \<Rightarrow> dynamic_lists_file option \<Rightarrow> policy_engine" where
  "mergeEngine p dyn = newPolicyEngine gitHost p demoAnnotations [] (Some ''/s'') None dyn None"

text \<open>Two servers that define a list of one name get one list, that of the first in the results: the
  rules of the other server decide by the values resolved for this one.\<close>

lemma shared_list_first_wins:
  "mergeDynamicLists [] (mergeServerResults (\<lambda>a b. True) id [] [mergeFetch, mergeGit] [] []) [mergeFetch, mergeGit] =
     Some (mergeLists [''good.com''])"
  "map_sum id er_decision (evaluate (mergeEngine (ownPolicy [] [] mergeGit) (sv_resolvedLists mergeGit)) gitHost mergePush) = Inr Allow"
  "map_sum id er_decision (evaluate (mergeEngine (mp_policy (mergeServerResults (\<lambda>a b. True) id [] [mergeFetch, mergeGit] [] []))
      (Some (mergeLists [''good.com'']))) gitHost mergePush) = Inr Deny"
  by code_simp+

text \<open>The definition is that of the first server by name, the values are those of the first result.\<close>

lemma lists_follow_result_order:
  "map ld_generationPrompt (mp_listDefinitions (mergeServerResults (\<lambda>a b. length b \<le> length a) id [] [mergeGit, mergeFetch] [] [])) = [''fetch'']"
  "mergeDynamicLists [] (mergeServerResults (\<lambda>a b. length b \<le> length a) id [] [mergeGit, mergeFetch] [] []) [mergeGit, mergeFetch] =
     Some (mergeLists [''evil.com''])"
  by code_simp+

definition narrowPolicy :: compiled_policy where
  "narrowPolicy = \<lparr>cp_generatedAt = [], cp_constitutionHash = [], cp_inputHash = [],
     cp_rules = [demoRule ''read-work'' ''filesystem'' (Some \<lparr>pc_roles = [ReadPath], pc_within = ''/s/work''\<rparr>) Allow, mergeDomainRule ''git'']\<rparr>"


text \<open>A rule without a path or domain condition has nothing for the breadth check to find, whatever it allows.\<close>

lemma unconditional_rule_not_broad:
  "makeBroadPolicyValidator gitHost ''/s'' False (narrowPolicy\<lparr>cp_rules := [demoRule ''all'' ''filesystem'' None Allow]\<rparr>) None = None"
  by code_simp

lemma public_suffix_not_broad: "\<not> isBroadDomainPattern ''*.co.uk''"
  by code_simp

text \<open>A decision that moves from deny to escalate is not counted as loosened.\<close>

lemma deny_to_escalate_not_loosened:
  "\<not> isLoosened (demoRule ''r'' ''git'' None Deny) (demoRule ''r'' ''git'' None Escalate)"
  by code_simp

theorem patched_rules_keep_names_witness:
  "distinct (map r_name [mergeDomainRule ''git'', demoRule ''all'' ''git'' None Escalate])"
  using patched_rules_keep_names [of "[demoRule ''all'' ''git'' None Allow, demoRule ''old'' ''git'' None Allow]"
      "[DeleteRule ''old'', AddRule None (mergeDomainRule ''git''), UpdateRule ''all'' (demoRule ''all'' ''git'' None Escalate)]"
      "[mergeDomainRule ''git'', demoRule ''all'' ''git'' None Escalate]"]
  by (simp add: demoRule_def mergeDomainRule_def ruleIndex_def)

end
