(* ===== verification/Policy_Compile_Props.thy ===== *)
theory Policy_Compile_Props
  imports Policy_Compile Compiled_Policy_Props
begin

text \<open>
  What the compilation of a policy promises. Structural conflicts of scenarios do not depend on the rules;
  a server's result is well formed whatever the model answers and whatever a run left behind; a result
  that is not from the cache is the one the last verification ran on; and the merged policy decides each
  request as the policy of its server did.
\<close>

section \<open>Structural verdicts\<close>

definition structuralName :: "string \<Rightarrow> bool" where
  "structuralName n = startsWith n ''structural-''"

definition rulesNamed :: "compiled_rule list \<Rightarrow> bool" where
  "rulesNamed rules = list_all (\<lambda>rule. \<not> structuralName (r_name rule)) rules"

lemma default_deny_plain [simp]: "\<not> structuralName (er_rule DEFAULT_DENY_RESULT)"
  by (simp add: DEFAULT_DENY_RESULT_def structuralName_def)

lemma unscoped_plain: "rulesNamed rules \<Longrightarrow> \<not> structuralName (er_rule (evaluateRulesUnscoped h rules rq ann))"
  by (induction rules) (auto simp: rulesNamed_def ruleToResult_def)

lemma scan_plain: "rulesNamed rules \<Longrightarrow> \<not> structuralName (er_rule (scanRulesForRole h rules rq ann r))"
  by (induction rules) (auto simp: rulesNamed_def ruleToResult_def)

lemma pickResult_plain:
  assumes "\<not> structuralName (er_rule res)"
    and "m = None \<or> (\<exists>x. m = Some x \<and> (\<not> structuralName (er_rule x) \<or> er_rule x = STRUCTURAL_SANDBOX_ALLOW \<and> er_decision x = Allow))"
  shows "\<not> structuralName (er_rule (pickResult m res))"
  using assms by (cases m; cases "er_decision res") (auto simp: pickResult_def)

lemma discharge_plain:
  assumes "rulesNamed rules" "fst (dischargePaths h rq ann r rules ps m) = []"
    and "ps \<noteq> [] \<or> (\<exists>x. m = Some x \<and> \<not> structuralName (er_rule x))"
    and "m = None \<or> (\<exists>x. m = Some x \<and> (\<not> structuralName (er_rule x) \<or> er_rule x = STRUCTURAL_SANDBOX_ALLOW \<and> er_decision x = Allow))"
  shows "\<exists>x. snd (dischargePaths h rq ann r rules ps m) = Some x \<and> \<not> structuralName (er_rule x)"
  using assms
proof (induction rules arbitrary: ps m)
  case (Cons rule rules)
  let ?matched = "case c_paths (r_if rule) of Some pc \<Rightarrow> filter (\<lambda>p. isWithinDirectory h p (pc_within pc)) ps | None \<Rightarrow> ps"
  have named: "rulesNamed rules" "\<not> structuralName (er_rule (ruleToResult rule))"
    using Cons.prems(1) by (auto simp: rulesNamed_def ruleToResult_def)
  show ?case
  proof (cases "ps = [] \<or> \<not> ruleApplies h rq ann r rule \<or> ?matched = []")
    case True
    then show ?thesis
    proof (cases "ps = []")
      case False
      then have "dischargePaths h rq ann r (rule # rules) ps m = dischargePaths h rq ann r rules ps m"
        using True by (auto simp: Let_def)
      then show ?thesis using Cons.IH [OF named(1)] Cons.prems(2-4) by metis
    qed (use Cons.prems(3) in auto)
  next
    case False
    let ?picked = "pickResult m (ruleToResult rule)"
    have picked: "\<not> structuralName (er_rule ?picked)" by (rule pickResult_plain [OF named(2) Cons.prems(4)])
    have "dischargePaths h rq ann r (rule # rules) ps m =
        dischargePaths h rq ann r rules (filter (\<lambda>p. p \<notin> set ?matched) ps) (Some ?picked)"
      using False by (simp only: dischargePaths.simps Let_def de_Morgan_disj not_not not_True_eq_False if_False if_True)
    then show ?thesis using Cons.IH [OF named(1)] Cons.prems(2) picked by metis
  qed
qed auto

lemma enrich_filesystem: "serverName rq = ''filesystem'' \<Longrightarrow> enrichGitRequest e h rq ann = rq"
  by (simp add: enrichGitRequest_def split: option.split)

text \<open>A role that the structural phase left over has a path outside the sandbox, or no path.\<close>

lemma unresolved_role_has_outside_path:
  assumes "r \<notin> set (sandboxResolved e h rq (Some ann))" "serverName rq = ''filesystem''"
    and "extractAnnotatedPaths (arguments rq) ann [r] \<noteq> []"
  shows "\<exists>p \<in> set (extractAnnotatedPaths (arguments rq) ann [r]). \<not> sandboxDischarges e h rq r p"
proof (rule ccontr)
  assume "\<not> ?thesis"
  then have all: "\<And>p. p \<in> set (extractAnnotatedPaths (arguments rq) ann [r]) \<Longrightarrow> sandboxDischarges e h rq r p" by blast
  obtain p where p: "p \<in> set (extractAnnotatedPaths (arguments rq) ann [r])" using assms(3) by (meson hd_in_set)
  obtain dir where dir: "truthyDir (allowedDirectory e) = Some dir"
    using all [OF p] by (auto simp: sandboxDischarges_def split: option.splits)
  have safe: "r \<in> set SANDBOX_SAFE_PATH_ROLES" using all [OF p] dir by (simp add: sandboxDischarges_def)
  then have path: "r \<in> set getPathRoles" by (auto simp: SANDBOX_SAFE_PATH_ROLES_def getPathRoles_eq)
  have within: "list_all (\<lambda>p. isWithinDirectory h p dir) (extractAnnotatedPaths (arguments rq) ann [r])"
    using all dir by (auto simp: list_all_iff sandboxDischarges_def)
  have "extractAnnotatedPaths (arguments rq) ann getPathRoles \<noteq> []"
    using extractAnnotatedPaths_mono [of "[r]" getPathRoles "arguments rq" ann] p path by fastforce
  then have "r \<in> set (sandboxResolved e h rq (Some ann))"
    using dir safe path within assms(2,3) by (simp add: sandboxResolved_def Let_def)
  then show False using assms(1) by simp
qed

lemma role_plain:
  assumes named: "rulesNamed (cp_rules (compiledPolicy e))"
    and res: "evaluateRulesForRole e h (enrichGitRequest e h rq (Some ann)) ann r = Inr res"
    and left: "r \<notin> set (sandboxResolved e h rq (Some ann))"
  shows "\<not> structuralName (er_rule res)"
proof -
  let ?rq = "enrichGitRequest e h rq (Some ann)"
  let ?paths = "extractAnnotatedPaths (arguments ?rq) ann [r]"
  let ?kept = "filter (\<lambda>p. \<not> sandboxDischarges e h ?rq r p) (uniq ?paths)"
  let ?init = "if list_ex (sandboxDischarges e h ?rq r) (uniq ?paths) then Some (sandboxAllowResult e) else None"
  let ?out = "dischargePaths h ?rq ann r (cp_rules (compiledPolicy e)) ?kept ?init"
  show ?thesis
  proof (cases "?paths = []")
    case True
    then show ?thesis using res scan_plain [OF named]
      by (auto simp: evaluateRulesForRole_def evaluateRulesForRolePaths_def)
  next
    case False
    then have out: "(if fst ?out \<noteq> [] then Inr DEFAULT_DENY_RESULT
        else case snd ?out of Some x \<Rightarrow> Inr x | None \<Rightarrow> Inl (Unreachable ''all paths discharged but no result was produced'')) =
        (Inr res :: engine_error + evaluation_result)"
      using res unfolding evaluateRulesForRole_def evaluateRulesForRolePaths_def Let_def by (simp only: if_False fst_conv snd_conv split: prod.splits)
    have kept: "?kept \<noteq> []"
    proof (cases "serverName rq = ''filesystem''")
      case True
      then show ?thesis using unresolved_role_has_outside_path [OF left True] False enrich_filesystem [OF True]
        by (simp add: filter_empty_conv)
    next
      case other: False
      then have "\<not> sandboxDischarges e h ?rq r p" for p by (simp add: sandboxDischarges_def split: option.split)
      then show ?thesis using False by simp
    qed
    show ?thesis
    proof (cases "fst ?out = []")
      case True
      have "\<exists>x. snd ?out = Some x \<and> \<not> structuralName (er_rule x)"
        by (rule discharge_plain [OF named True]) (use kept in \<open>simp_all add: sandboxAllowResult_def\<close>)
      then show ?thesis using out True by auto
    next
      case False
      then show ?thesis using out by auto
    qed
  qed
qed

lemma combine_plain:
  assumes "rulesNamed (cp_rules (compiledPolicy e))"
    and "combineRoles e h (enrichGitRequest e h rq (Some ann)) ann rs m esc = Inr res"
    and "\<forall>r \<in> set rs. r \<notin> set (sandboxResolved e h rq (Some ann))" "\<forall>x. m = Some x \<longrightarrow> \<not> structuralName (er_rule x)"
  shows "\<not> structuralName (er_rule res)"
  using assms(2-4)
proof (induction rs arbitrary: m esc)
  case Nil
  then show ?case by (auto split: option.splits if_splits)
next
  case (Cons r rs)
  obtain x where x: "evaluateRulesForRole e h (enrichGitRequest e h rq (Some ann)) ann r = Inr x"
    using Cons.prems(1) by (auto split: sum.splits)
  have plain: "\<not> structuralName (er_rule x)" by (rule role_plain [OF assms(1) x]) (use Cons.prems(2) in simp)
  show ?case
  proof (cases "er_decision x = Deny")
    case True
    then show ?thesis using Cons.prems(1) x plain by simp
  next
    case False
    let ?m = "case m of None \<Rightarrow> Some x
      | Some y \<Rightarrow> if DECISION_SEVERITY (er_decision x) > DECISION_SEVERITY (er_decision y) then Some x else Some y"
    let ?esc = "if er_decision x = Escalate then esc @ [r] else esc"
    have rest: "combineRoles e h (enrichGitRequest e h rq (Some ann)) ann rs ?m ?esc = Inr res"
      using Cons.prems(1) x False by (simp only: combineRoles.simps sum.case if_False)
    have best: "\<forall>y. ?m = Some y \<longrightarrow> \<not> structuralName (er_rule y)"
      using plain Cons.prems(3) by (auto split: option.splits if_splits)
    show ?thesis by (rule Cons.IH [OF rest _ best]) (use Cons.prems(2) in simp)
  qed
qed

text \<open>A verdict that names a structural rule is the same under every policy.\<close>

lemma structural_verdict_fixed:
  assumes "rulesNamed (cp_rules (compiledPolicy e))" "evaluate e h rq = Inr res" "structuralName (er_rule res)"
  shows "evaluate (e\<lparr>compiledPolicy := p\<rparr>) h rq = Inr res"
proof (cases "serverName rq \<in> set (trustedServers e)")
  case True
  then show ?thesis using assms(2) by (simp add: evaluate_def)
next
  case trusted: False
  let ?ann = "getAnnotation e (serverName rq) (toolName rq) (arguments rq)"
  let ?st = "evaluateStructuralInvariants e h rq ?ann"
  show ?thesis
  proof (cases "sr_decision ?st")
    case (Some d)
    then show ?thesis using assms(2) trusted by (simp add: evaluate_def Let_def)
  next
    case None
    then obtain ann where ann: "?ann = Some ann" using structural_no_annotation by blast
    have resolved: "sr_sandboxResolvedRoles ?st = sandboxResolved e h rq (Some ann)" using structural_resolved [OF None] ann by simp
    let ?res = "sandboxResolved e h rq (Some ann)"
    let ?left = "filter (\<lambda>r. r \<notin> set ?res) (collectDistinctRoles ann)"
    have phase: "evaluateCompiledRules e h (enrichGitRequest e h rq (Some ann)) ?res (Some ann) = Inr res"
      using assms(2) None trusted ann resolved by (simp add: evaluate_def Let_def)
    have "collectDistinctRoles ann \<noteq> [] \<and> ?left = []"
    proof (rule ccontr)
      assume no: "\<not> ?thesis"
      show False
      proof (cases "?left = []")
        case True
        then have "res = evaluateRulesUnscoped h (cp_rules (compiledPolicy e)) (enrichGitRequest e h rq (Some ann)) ann"
          using phase no by (simp add: evaluateCompiledRules_def Let_def)
        then show False using unscoped_plain [OF assms(1)] assms(3) by simp
      next
        case False
        then have "combineRoles e h (enrichGitRequest e h rq (Some ann)) ann ?left None [] = Inr res"
          using phase by (simp add: evaluateCompiledRules_def Let_def split: if_splits)
        then show False using combine_plain [OF assms(1), where rs = ?left and m = None] assms(3) by auto
      qed
    qed
    then show ?thesis using phase None trusted ann resolved by (simp add: evaluate_def evaluateCompiledRules_def Let_def)
  qed
qed

section \<open>Scenarios\<close>

definition runScenario :: "policy_engine \<Rightarrow> host \<Rightarrow> test_scenario \<Rightarrow> execution_result" where
  "runScenario e h s =
     (let res = projr (evaluate e h (requestOf s))
      in \<lparr>xr_scenario = s, xr_actual = er_decision res, xr_rule = er_rule res, xr_pass = scenarioPasses (ts_expected s) (er_decision res)\<rparr>)"

lemma executeScenarios_map: "executeScenarios e h ss = Inr (map (runScenario e h) ss)"
proof (induction ss)
  case (Cons s ss)
  obtain res where "evaluate e h (requestOf s) = Inr res" using evaluate_returns by blast
  then show ?case using Cons by (simp add: runScenario_def Let_def)
qed simp

lemma runScenario_scenario [simp]: "xr_scenario (runScenario e h s) = s"
  by (simp add: runScenario_def Let_def)

lemma filterStructuralConflicts_eq:
  "filterStructuralConflicts e h ss =
     Inr (filter (\<lambda>s. \<not> structuralConflict (runScenario e h s)) ss,
          map (discardStructural \<circ> runScenario e h) (filter (\<lambda>s. structuralConflict (runScenario e h s)) ss))"
  by (simp add: filterStructuralConflicts_def executeScenarios_map filter_map comp_def)

lemma validated_rulesNamed:
  assumes "fst (validateCompiledRules rules defs) = []"
  shows "rulesNamed rules"
proof -
  have "\<not> structuralName (r_name rule)" if "rule \<in> set rules" for rule
  proof
    assume "structuralName (r_name rule)"
    then obtain t where "r_name rule = ''structural-'' @ t" by (auto simp: structuralName_def prefix_def)
    then have "toLowerCase (r_name rule) = ''structural-'' @ toLowerCase t" by (simp add: toLowerCase_def toLowerChar_def)
    then have "strIncludes (toLowerCase (r_name rule)) ''structural''" by (auto simp: sublist_def)
    moreover have "ruleIssues defs rule = []" using assms that by (auto simp: validateCompiledRules_def Let_def)
    ultimately show False by (auto simp: ruleIssues_def namesStructuralConcept_def Let_def split: if_splits)
  qed
  then show ?thesis by (auto simp: rulesNamed_def list_all_iff)
qed

lemma expandRule_name [simp]: "r_name (expandRule d rule) = r_name rule"
  by (simp add: expandRule_def Let_def)

lemma rulesNamed_effective: "rulesNamed rules \<Longrightarrow> rulesNamed (effectiveRules rules dyn)"
  by (auto simp: rulesNamed_def effectiveRules_def list_all_iff split: option.split)

lemma conflict_structural: "structuralConflict (runScenario e h s) \<Longrightarrow> structuralName (er_rule (projr (evaluate e h (requestOf s))))"
  by (simp add: structuralConflict_def runScenario_def structuralName_def Let_def)

lemma conflict_carries_over:
  assumes "rulesNamed (cp_rules (compiledPolicy e))" "structuralConflict (runScenario e h s)"
  shows "runScenario (e\<lparr>compiledPolicy := p\<rparr>) h s = runScenario e h s"
proof -
  obtain res where res: "evaluate e h (requestOf s) = Inr res" using evaluate_returns by blast
  then have "structuralName (er_rule res)" using conflict_structural [OF assms(2)] by simp
  from structural_verdict_fixed [OF assms(1) res this] show ?thesis using res by (simp add: runScenario_def)
qed

section \<open>One server\<close>

definition policyFileOk :: "compile_unit \<Rightarrow> server_policy_file \<Rightarrow> bool" where
  "policyFileOk u pf =
     (validateServerScoping (cu_serverName u) (pf_rules pf) \<and>
      fst (validateCompiledRules (pf_rules pf) (pf_listDefinitions pf)) = [])"

text \<open>What a run may leave in the directory: a policy file in order, and lists when it defines some.\<close>

definition artifactsOk :: "compile_unit \<Rightarrow> server_artifacts \<Rightarrow> bool" where
  "artifactsOk u art =
     (case ar_policy art of
        None \<Rightarrow> True
      | Some pf \<Rightarrow> policyFileOk u pf \<and> (pf_listDefinitions pf = [] \<or> ar_lists art \<noteq> None))"

definition verifiedBy ::
  "compile_world \<Rightarrow> compile_unit \<Rightarrow> host \<Rightarrow> compiled_rule list \<Rightarrow> dynamic_lists_file option \<Rightarrow> verification_result \<Rightarrow> bool" where
  "verifiedBy w u h rules dyn v \<longleftrightarrow>
     (\<exists>k n scenarios. verifyPolicy (cw_judge w k) (verifyEngine w u h rules dyn) h (cu_storedAnnotations u) n scenarios = Inr v)"

definition blamesScenario :: "verification_result \<Rightarrow> execution_result \<Rightarrow> bool" where
  "blamesScenario v f =
     list_ex (\<lambda>a. af_description a = ts_description (xr_scenario f) \<and> (case af_blame a of BlameScenario _ _ \<Rightarrow> True | _ \<Rightarrow> False))
       (lastAttributions v)"

definition passesVerification :: "verification_result \<Rightarrow> bool" where
  "passesVerification v = (vf_pass v \<or> list_all (blamesScenario v) (vf_failed v))"

text \<open>A state of the repair loop before its verification is consumed.\<close>

definition stateOk :: "compile_world \<Rightarrow> compile_unit \<Rightarrow> host \<Rightarrow> server_artifacts \<Rightarrow> compile_state \<Rightarrow> bool" where
  "stateOk w u h art st \<longleftrightarrow>
     artifactsOk u art \<and> policyFileOk u (policyFileOf w (cs_rules st) (cs_listDefinitions st)) \<and>
     (cs_listDefinitions st = [] \<or> cs_dynamicLists st \<noteq> None \<and> ar_lists art \<noteq> None) \<and>
     verifiedBy w u h (cs_rules st) (cs_dynamicLists st) (cs_verification st)"

text \<open>And after.\<close>

definition doneOk :: "compile_world \<Rightarrow> compile_unit \<Rightarrow> host \<Rightarrow> server_artifacts \<Rightarrow> compile_state \<Rightarrow> bool" where
  "doneOk w u h art st \<longleftrightarrow>
     artifactsOk u art \<and> policyFileOk u (policyFileOf w (cs_rules st) (cs_listDefinitions st)) \<and>
     (cs_listDefinitions st = [] \<or> cs_dynamicLists st \<noteq> None \<and> ar_lists art \<noteq> None) \<and>
     (vf_pass (cs_verification st) \<longrightarrow> (\<exists>v. verifiedBy w u h (cs_rules st) (cs_dynamicLists st) v \<and> passesVerification v))"

lemma policyFileOf_simps [simp]:
  "pf_rules (policyFileOf w rules defs) = rules" "pf_listDefinitions (policyFileOf w rules defs) = defs"
  "pf_inputHash (policyFileOf w rules defs) = cw_inputHash w"
  by (simp_all add: policyFileOf_def)

lemma checkedRules_ok: "checkedRules h output = Inr (rules, defs) \<Longrightarrow> fst (validateCompiledRules rules defs) = []"
  by (auto simp: checkedRules_def Let_def split: if_splits)

lemma listsFor_ok:
  assumes "listsFor w u k defs before art = (art', x)"
  shows "ar_policy art' = ar_policy art" "ar_scenarios art' = ar_scenarios art" "ar_lists art \<noteq> None \<Longrightarrow> ar_lists art' \<noteq> None"
    "x = Inr dyn \<Longrightarrow> defs \<noteq> [] \<Longrightarrow> dyn \<noteq> None \<and> ar_lists art' \<noteq> None"
proof -
  have "ar_policy art' = ar_policy art \<and> ar_scenarios art' = ar_scenarios art \<and> (ar_lists art \<noteq> None \<longrightarrow> ar_lists art' \<noteq> None) \<and>
      (x = Inr dyn \<longrightarrow> defs \<noteq> [] \<longrightarrow> dyn \<noteq> None \<and> ar_lists art' \<noteq> None)"
    using assms by (cases "cw_resolveLists w k defs") (auto simp: listsFor_def resolveServerLists_def Let_def split: if_splits)
  then show "ar_policy art' = ar_policy art" "ar_scenarios art' = ar_scenarios art" "ar_lists art \<noteq> None \<Longrightarrow> ar_lists art' \<noteq> None"
    "x = Inr dyn \<Longrightarrow> defs \<noteq> [] \<Longrightarrow> dyn \<noteq> None \<and> ar_lists art' \<noteq> None" by blast+
qed

lemma artifactsOk_lists:
  "ar_policy art' = ar_policy art \<Longrightarrow> (ar_lists art \<noteq> None \<Longrightarrow> ar_lists art' \<noteq> None) \<Longrightarrow> artifactsOk u art \<Longrightarrow> artifactsOk u art'"
  by (auto simp: artifactsOk_def split: option.splits)

lemma artifactsOk_write:
  "policyFileOk u pf \<Longrightarrow> pf_listDefinitions pf = [] \<or> ar_lists art \<noteq> None \<Longrightarrow> artifactsOk u (art\<lparr>ar_policy := Some pf\<rparr>)"
  by (simp add: artifactsOk_def)

lemma consume_fields:
  assumes "consumeVerification showNat st = (st', stop)"
  shows "cs_rules st' = cs_rules st" "cs_listDefinitions st' = cs_listDefinitions st" "cs_dynamicLists st' = cs_dynamicLists st"
    "\<not> stop \<Longrightarrow> cs_verification st' = cs_verification st"
    "vf_pass (cs_verification st') \<Longrightarrow> passesVerification (cs_verification st)"
proof -
  let ?v = "cs_verification st"
  obtain corrections warnings where ext:
    "extractScenarioCorrections (lastAttributions ?v) (cs_scenarios st @ cs_probes st) = (corrections, warnings)" by fastforce
  note consume = assms [unfolded consumeVerification_def Let_def ext prod.case]
  show "cs_rules st' = cs_rules st" "cs_listDefinitions st' = cs_listDefinitions st" "cs_dynamicLists st' = cs_dynamicLists st"
    "\<not> stop \<Longrightarrow> cs_verification st' = cs_verification st"
    using consume by (auto split: if_splits)
  assume pass: "vf_pass (cs_verification st')"
  show "passesVerification ?v"
  proof (cases "vf_pass ?v \<or> \<not> filter (blamesRule (lastAttributions ?v) warnings) (vf_failed ?v) = []")
    case True
    then show ?thesis using consume pass by (auto simp: passesVerification_def split: if_splits)
  next
    case False
    have "blamesScenario ?v f" if "f \<in> set (vf_failed ?v)" for f
    proof -
      have "\<not> blamesRule (lastAttributions ?v) warnings f" using False that by (auto simp: filter_empty_conv)
      then obtain d r where "map_of (rev (map (\<lambda>a. (af_description a, af_blame a)) (lastAttributions ?v))) (ts_description (xr_scenario f)) =
          Some (BlameScenario d r)"
        by (auto simp: blamesRule_def Let_def split: option.splits failure_blame.splits)
      then have "(ts_description (xr_scenario f), BlameScenario d r) \<in> set (map (\<lambda>a. (af_description a, af_blame a)) (lastAttributions ?v))"
        using map_of_SomeD by fastforce
      then show ?thesis by (auto simp: blamesScenario_def list_ex_iff intro!: bexI split: failure_blame.split)
    qed
    then show ?thesis by (simp add: passesVerification_def list_all_iff)
  qed
qed

lemma repairStep_cases:
  assumes "repairStep w u h fe written k st art = (art', x)"
  obtains err where "art' = art" "x = Inl err"
  | defs err where "listsFor w u k defs (cs_dynamicLists st) art = (art', Inl err)" "x = Inl err"
  | out rules defs dyn art1 where "checkedRules h out = Inr (rules, defs)" "validateServerScoping (cu_serverName u) rules"
      "listsFor w u k defs (cs_dynamicLists st) art = (art1, Inr dyn)" "art' = art1\<lparr>ar_policy := Some written\<rparr>"
      "(\<exists>err. x = Inl err) \<or> (\<exists>v ss ps. verifyPolicy (cw_judge w k) (verifyEngine w u h rules dyn) h (cu_storedAnnotations u) 1 ss = Inr v \<and>
         x = Inr (st\<lparr>cs_rules := rules, cs_listDefinitions := defs, cs_dynamicLists := dyn,
           cs_verification := v, cs_probes := ps, cs_repairAttempts := k\<rparr>))"
  using assms unfolding repairStep_def Let_def
  by (auto split: sum.splits prod.splits if_splits) blast+

lemma repairStep_ok:
  assumes step: "repairStep w u h fe written k st art = (art', x)"
    and art: "artifactsOk u art" and written: "policyFileOk u written" "pf_listDefinitions written = [] \<or> ar_lists art \<noteq> None"
  shows "artifactsOk u art' \<and> (pf_listDefinitions written = [] \<or> ar_lists art' \<noteq> None) \<and> (\<forall>st'. x = Inr st' \<longrightarrow> stateOk w u h art' st')"
  using step
proof (cases rule: repairStep_cases)
  case (2 defs err)
  note facts = listsFor_ok [OF 2(1)]
  show ?thesis using artifactsOk_lists [OF facts(1,3) art] facts(3) written(2) 2(2) by blast
next
  case (3 out rules defs dyn art1)
  note facts = listsFor_ok [OF 3(3)]
  have there: "pf_listDefinitions written = [] \<or> ar_lists art1 \<noteq> None" using written(2) facts(3) by blast
  have ok: "artifactsOk u art'" unfolding 3(4) by (rule artifactsOk_write [OF written(1) there])
  moreover have "stateOk w u h art' st'" if st': "x = Inr st'" for st'
  proof -
    have same: "ar_lists art' = ar_lists art1" using 3(4) by simp
    obtain v ss ps where v: "verifyPolicy (cw_judge w k) (verifyEngine w u h rules dyn) h (cu_storedAnnotations u) 1 ss = Inr v"
      and st'_eq: "st' = st\<lparr>cs_rules := rules, cs_listDefinitions := defs, cs_dynamicLists := dyn, cs_verification := v, cs_probes := ps,
        cs_repairAttempts := k\<rparr>"
      using 3(5) st' by auto
    have "policyFileOk u (policyFileOf w rules defs)" using 3(1,2) checkedRules_ok by (simp add: policyFileOk_def)
    moreover have "verifiedBy w u h rules dyn v" using v unfolding verifiedBy_def by blast
    moreover have "defs = [] \<or> dyn \<noteq> None \<and> ar_lists art1 \<noteq> None" using facts(4) by blast
    ultimately show ?thesis using ok st'_eq same by (simp add: stateOk_def)
  qed
  moreover have "pf_listDefinitions written = [] \<or> ar_lists art' \<noteq> None" using there 3(4) by simp
  ultimately show ?thesis by blast
qed (use art written in simp)

lemma consumed_done:
  assumes "stateOk w u h art st" "consumeVerification showNat st = (st', stop)"
  shows "doneOk w u h art st'"
  using assms(1) consume_fields(1-3) [OF assms(2)] consume_fields(5) [OF assms(2)]
  unfolding stateOk_def doneOk_def by auto

declare runRepairLoop.simps [simp del]

lemma runRepairLoop_ok:
  assumes "runRepairLoop showNat w u h fe written left st art = (art', x)" "stateOk w u h art st"
    and "policyFileOk u written" "pf_listDefinitions written = [] \<or> ar_lists art \<noteq> None"
  shows "artifactsOk u art' \<and> (\<forall>st'. x = Inr st' \<longrightarrow> doneOk w u h art' st')"
  using assms
proof (induction left arbitrary: st art)
  case 0
  obtain st1 stop where c: "consumeVerification showNat st = (st1, stop)" by fastforce
  have "doneOk w u h art st1" by (rule consumed_done [OF 0(2) c])
  then show ?case using 0(1,2) c by (cases stop) (auto simp: stateOk_def runRepairLoop.simps [of _ _ _ _ _ _ 0])
next
  case (Suc n)
  obtain st1 stop where c: "consumeVerification showNat st = (st1, stop)" by fastforce
  have done_: "doneOk w u h art st1" by (rule consumed_done [OF Suc.prems(2) c])
  have art: "artifactsOk u art" using Suc.prems(2) by (simp add: stateOk_def)
  show ?case
  proof (cases stop)
    case True
    then show ?thesis using Suc.prems(1) c done_ art by (auto simp: runRepairLoop.simps [of _ _ _ _ _ _ "Suc n"])
  next
    case False
    obtain art2 y where step: "repairStep w u h fe written (MAX_REPAIRS - n) st1 art = (art2, y)" by fastforce
    note ok = repairStep_ok [OF step art Suc.prems(3,4)]
    have run: "(case y of Inl err \<Rightarrow> (art2, Inl err) | Inr st'' \<Rightarrow> runRepairLoop showNat w u h fe written n st'' art2) = (art', x)"
      using Suc.prems(1) c False step by (subst (asm) runRepairLoop.simps) simp
    show ?thesis
    proof (cases y)
      case (Inl err)
      then show ?thesis using run ok by auto
    next
      case (Inr st2)
      then have "runRepairLoop showNat w u h fe written n st2 art2 = (art', x)" using run by simp
      then show ?thesis using Suc.IH [of st2 art2] ok Inr Suc.prems(3) by blast
    qed
  qed
qed

lemma verifyAndRepairServer_ok:
  assumes "verifyAndRepairServer showNat w u h rules defs dyn (policyFileOf w rules defs) scenarios art = (art', x)"
    and pfile: "policyFileOk u (policyFileOf w rules defs)" and art: "artifactsOk u art"
    and dyn: "defs = [] \<or> dyn \<noteq> None \<and> ar_lists art \<noteq> None"
  shows "artifactsOk u art' \<and> (\<forall>st. x = Inr st \<longrightarrow> doneOk w u h art' st)"
proof -
  have early: "artifactsOk u art' \<and> (\<forall>st. x = Inr st \<longrightarrow> doneOk w u h art' st)" if "art' = art" "x = Inl err" for err
    using that art by simp
  let ?fe = "filterEngine w u h rules dyn"
  note run = assms(1) [unfolded verifyAndRepairServer_def Let_def]
  show ?thesis
  proof (cases "filterAndRepairDiscardedScenarios w u h ?fe scenarios")
    case (Inl err)
    then show ?thesis using run by (intro early [of err]) simp_all
  next
    case (Inr fs)
    obtain filtered kept where fs: "fs = (filtered, kept)" by fastforce
    show ?thesis
    proof (cases "verifyPolicy (cw_judge w 0) (verifyEngine w u h rules dyn) h (cu_storedAnnotations u) 3 filtered")
      case (Inl err)
      then show ?thesis using run Inr fs by (intro early [of err]) simp_all
    next
      case v: (Inr v)
      show ?thesis
      proof (cases "filterAndLogStructuralConflicts ?fe h (collectProbeScenarios v) (cu_storedAnnotations u)")
        case (Inl err)
        then show ?thesis using run Inr fs v by (intro early [of "EngineThrew err"]) simp_all
      next
        case ps: (Inr ps)
        obtain probes rest where probes: "ps = (probes, rest)" by fastforce
        let ?st = "\<lparr>cs_rules = rules, cs_listDefinitions = defs, cs_dynamicLists = dyn, cs_verification = v,
          cs_probes = probes, cs_scenarios = kept, cs_repairAttempts = 0\<rparr>"
        have "verifiedBy w u h rules dyn v" using v unfolding verifiedBy_def by blast
        then have st: "stateOk w u h art ?st" using pfile art dyn by (simp add: stateOk_def)
        have out: "(if vf_pass v then (art, Inr ?st)
            else runRepairLoop showNat w u h ?fe (policyFileOf w rules defs) MAX_REPAIRS ?st art) = (art', x)"
          using run Inr fs v ps probes by simp
        show ?thesis
        proof (cases "vf_pass v")
          case True
          then have "doneOk w u h art ?st" using st by (auto simp: stateOk_def doneOk_def passesVerification_def)
          then show ?thesis using out True art by auto
        next
          case False
          then have "runRepairLoop showNat w u h ?fe (policyFileOf w rules defs) MAX_REPAIRS ?st art = (art', x)" using out by simp
          from runRepairLoop_ok [OF this st pfile] dyn show ?thesis by auto
        qed
      qed
    qed
  qed
qed

text \<open>A run that the cache does not answer.\<close>

lemma fresh_compile_ok:
  assumes "cachedResult w u h art = None" "compileServer showNat w u h art = (art', x)"
  shows "(artifactsOk u art \<longrightarrow> artifactsOk u art') \<and>
     (\<forall>r. x = Inr r \<longrightarrow> sv_serverName r = cu_serverName u \<and> wellCompiled r \<and>
        (\<exists>v. verifiedBy w u h (sv_rules r) (sv_resolvedLists r) v \<and> passesVerification v))"
proof -
  note run = assms(2) [unfolded compileServer_def Let_def assms(1) option.case]
  have early: ?thesis if "artifactsOk u art \<Longrightarrow> artifactsOk u art'" "x = Inl err" for err using that by simp
  show ?thesis
  proof (cases "cw_compile w")
    case None
    then show ?thesis using run by (intro early [of ModelThrew]) simp_all
  next
    case compiled: (Some out)
    show ?thesis
    proof (cases "checkedRules h out")
      case (Inl err)
      then show ?thesis using run compiled by (intro early [of err]) simp_all
    next
      case (Inr rd)
      obtain rules defs where rd: "rd = (rules, defs)" by fastforce
      show ?thesis
      proof (cases "validateServerScoping (cu_serverName u) rules")
        case False
        then show ?thesis using run compiled Inr rd by (intro early [of "BadScope (cu_serverName u)"]) simp_all
      next
        case scoped: True
        obtain art1 y where lf: "listsFor w u 0 defs None art = (art1, y)" by fastforce
        note facts = listsFor_ok [OF lf]
        have pfile: "policyFileOk u (policyFileOf w rules defs)"
          using scoped Inr rd checkedRules_ok by (simp add: policyFileOk_def)
        show ?thesis
        proof (cases y)
          case (Inl err)
          then have "art' = art1" "x = Inl err" using run compiled Inr rd scoped lf by simp_all
          then show ?thesis using artifactsOk_lists [OF facts(1,3)] by (intro early [of err]) simp_all
        next
          case y: (Inr dyn)
          let ?art2 = "art1\<lparr>ar_policy := Some (policyFileOf w rules defs)\<rparr>"
          have dyn: "defs = [] \<or> dyn \<noteq> None \<and> ar_lists ?art2 \<noteq> None" using facts(4) [OF y] by auto
          then have art2: "artifactsOk u ?art2" using artifactsOk_write [OF pfile, of art1] by auto
          show ?thesis
          proof (cases "generateTestScenarios w (extractPermittedDirectories rules) dyn (ar_scenarios art)")
            case (Inl err)
            then show ?thesis using run compiled Inr rd scoped lf y art2 by (intro early [of err]) simp_all
          next
            case ss: (Inr scenarios)
            obtain art3 z where vr: "verifyAndRepairServer showNat w u h rules defs dyn (policyFileOf w rules defs) scenarios ?art2 = (art3, z)"
              by fastforce
            note ok = verifyAndRepairServer_ok [OF vr pfile art2 dyn]
            show ?thesis
            proof (cases z)
              case (Inl err)
              then have "art' = art3" "x = Inl err" using run compiled Inr rd scoped lf y ss vr by simp_all
              then show ?thesis using ok by (intro early [of err]) simp_all
            next
              case z: (Inr st)
              then have st: "doneOk w u h art3 st" using ok by blast
              let ?pf = "policyFileOf w (cs_rules st) (cs_listDefinitions st)"
              have fin: "ar_policy art' = Some ?pf" "ar_lists art' = ar_lists art3"
                and x: "x = (if \<not> vf_pass (cs_verification st) then Inl (VerificationFailed (cu_serverName u))
                  else Inr \<lparr>sv_serverName = cu_serverName u, sv_rules = cs_rules st, sv_listDefinitions = cs_listDefinitions st,
                    sv_inputHash = cw_inputHash w, sv_resolvedLists = cs_dynamicLists st\<rparr>)"
                using run compiled Inr rd scoped lf y ss vr z by (auto split: if_splits)
              have "artifactsOk u art'" using st fin by (auto simp: doneOk_def artifactsOk_def)
              moreover have "wellCompiled r" "sv_serverName r = cu_serverName u"
                  "\<exists>v. verifiedBy w u h (sv_rules r) (sv_resolvedLists r) v \<and> passesVerification v" if "x = Inr r" for r
                using that st x by (auto simp: doneOk_def policyFileOk_def wellCompiled_def split: if_splits)
              ultimately show ?thesis by blast
            qed
          qed
        qed
      qed
    qed
  qed
qed

lemma resolved_absolute: "hostOk h \<Longrightarrow> withinIsAbsolute (resolveRealPath h p)"
  using resolveRealPath_isCanonical [of h p] by (auto simp: isCanonical_def absPath_def withinIsAbsolute_def)

lemma resolveRulePaths_ok:
  assumes "hostOk h"
  shows "validateServerScoping srv (resolveRulePaths h rules) = validateServerScoping srv rules"
    and "fst (validateCompiledRules rules defs) = [] \<Longrightarrow> fst (validateCompiledRules (resolveRulePaths h rules) defs) = []"
proof -
  let ?f = "\<lambda>rule. case c_paths (r_if rule) of None \<Rightarrow> rule
     | Some pc \<Rightarrow> if pc_within pc = [] then rule
         else rule\<lparr>r_if := (r_if rule)\<lparr>c_paths := Some (pc\<lparr>pc_within := resolveRealPath h (pc_within pc)\<rparr>)\<rparr>\<rparr>"
  have f: "resolveRulePaths h rules = map ?f rules" for rules by (simp add: resolveRulePaths_def)
  have same: "c_server (r_if (?f rule)) = c_server (r_if rule)" "r_name (?f rule) = r_name rule" "r_description (?f rule) = r_description rule"
    "domainEntries (?f rule) = domainEntries rule" "listConditions (?f rule) = listConditions rule" for rule
    by (auto simp: domainEntries_def listConditions_def split: option.split)
  show "validateServerScoping srv (resolveRulePaths h rules) = validateServerScoping srv rules"
    unfolding f validateServerScoping_def list.pred_map comp_def same ..
  have paths: "pathIssues rule = [] \<Longrightarrow> pathIssues (?f rule) = []" for rule
    using resolved_absolute [OF assms] by (auto simp: pathIssues_def split: option.splits)
  have "domainEntryIssues defs (?f rule) e = domainEntryIssues defs rule e" "listEntryIssues defs (?f rule) lc e = listEntryIssues defs rule lc e"
    "namesStructuralConcept (?f rule) = namesStructuralConcept rule" for rule e lc
    unfolding domainEntryIssues_def listEntryIssues_def namesStructuralConcept_def same by simp_all
  then have "ruleIssues defs rule = [] \<Longrightarrow> ruleIssues defs (?f rule) = []" for rule
    using paths [of rule] unfolding ruleIssues_def same by simp
  then show "fst (validateCompiledRules rules defs) = [] \<Longrightarrow> fst (validateCompiledRules (resolveRulePaths h rules) defs) = []"
    unfolding f by (simp add: validateCompiledRules_def Let_def)
qed

lemma cached_ok:
  assumes "hostOk h" "artifactsOk u art" "cachedResult w u h art = Some r"
  shows "sv_serverName r = cu_serverName u \<and> wellCompiled r"
proof -
  obtain pf where pf: "ar_policy art = Some pf" and r: "sv_serverName r = cu_serverName u" "sv_rules r = resolveRulePaths h (pf_rules pf)"
      "sv_listDefinitions r = pf_listDefinitions pf" "sv_resolvedLists r = ar_lists art"
    using assms(3) by (auto simp: cachedResult_def Let_def split: option.splits if_splits)
  then have "wellCompiled r"
    using assms(2) resolveRulePaths_ok [OF assms(1)] by (auto simp: artifactsOk_def policyFileOk_def wellCompiled_def)
  then show ?thesis using r by simp
qed

section \<open>All servers\<close>

lemma results_distinct:
  assumes "distinct (map name es)" "\<And>e r. e \<in> set es \<Longrightarrow> succeeded (out e) = Some r \<Longrightarrow> sv_serverName r = name e"
  shows "distinct (map sv_serverName (List.map_filter succeeded (map out es)))"
  using assms
proof (induction es)
  case (Cons e es)
  have rest: "distinct (map sv_serverName (List.map_filter succeeded (map out es)))" using Cons by simp
  show ?case
  proof (cases "succeeded (out e)")
    case None
    then show ?thesis using rest by (simp add: List.map_filter_simps)
  next
    case (Some r)
    have "sv_serverName s \<noteq> sv_serverName r" if s: "s \<in> set (List.map_filter succeeded (map out es))" for s
    proof -
      obtain e' where e': "e' \<in> set es" "succeeded (out e') = Some s"
        using s by (auto simp: List.map_filter_def)
      have "sv_serverName s = name e'" using Cons.prems(2) e' by simp
      moreover have "sv_serverName r = name e" using Cons.prems(2) Some by simp
      moreover have "name e \<noteq> name e'" using Cons.prems(1) e'(1) by (metis distinct.simps(2) image_eqI list.map(2) set_map)
      ultimately show ?thesis by simp
    qed
    then have "sv_serverName r \<notin> sv_serverName ` set (List.map_filter succeeded (map out es))" by (metis imageE)
    then show ?thesis using rest Some by (simp add: List.map_filter_simps)
  qed
qed (simp add: List.map_filter_simps)

lemma selectServers_filter:
  assumes "selectServers cfg entries = Inr (selected, skipped)"
  shows "\<exists>P. selected = filter P entries"
proof -
  have "[] = filter (\<lambda>_. False) entries" "entries = filter (\<lambda>_. True) entries" by simp_all
  then show ?thesis using assms unfolding selectServers_def Let_def
    by (auto split: option.splits if_splits intro: exI [of _ "\<lambda>_. False"] exI [of _ "\<lambda>_. True"])
qed

lemma compileAllServers_results:
  assumes "compileAllServers showNat h entries = Inr results"
  shows "results = List.map_filter succeeded (map (\<lambda>(u, w, art). snd (compileServer showNat w u h art)) entries)"
  using assms by (auto simp: compileAllServers_def Let_def List.map_filter_simps split: if_splits list.splits)

lemma compiled_entry_ok:
  assumes "hostOk h" "artifactsOk u art" "succeeded (snd (compileServer showNat w u h art)) = Some r"
  shows "sv_serverName r = cu_serverName u \<and> wellCompiled r"
proof -
  obtain art' where run: "compileServer showNat w u h art = (art', Inr r)"
    using assms(3) by (cases "compileServer showNat w u h art") (auto simp: succeeded_def split: sum.splits)
  show ?thesis
  proof (cases "cachedResult w u h art")
    case None
    then show ?thesis using fresh_compile_ok [OF None run] by blast
  next
    case (Some r')
    then show ?thesis using cached_ok [OF assms(1,2)] run by (simp add: compileServer_def)
  qed
qed

section \<open>Properties\<close>



text \<open>Rule free.\<close>

theorem structural_conflicts_rule_free:
  assumes "fst (validateCompiledRules rules defs) = []" "fst (validateCompiledRules rules' defs') = []"
  shows "filterStructuralConflicts (filterEngine w u h rules dyn) h ss = filterStructuralConflicts (filterEngine w u h rules' dyn') h ss"
proof -
  let ?e = "filterEngine w u h rules dyn" and ?e' = "filterEngine w u h rules' dyn'"
  have named: "rulesNamed (cp_rules (compiledPolicy ?e))" "rulesNamed (cp_rules (compiledPolicy ?e'))"
    using assms by (simp_all add: filterEngine_def engine_rules buildPolicyArtifact_def rulesNamed_effective validated_rulesNamed)
  have upd: "?e\<lparr>compiledPolicy := compiledPolicy ?e'\<rparr> = ?e'" "?e'\<lparr>compiledPolicy := compiledPolicy ?e\<rparr> = ?e"
    by (simp_all add: filterEngine_def newPolicyEngine_def)
  have carried: "structuralConflict (runScenario ?e h s) \<Longrightarrow> runScenario ?e' h s = runScenario ?e h s"
    and returned: "structuralConflict (runScenario ?e' h s) \<Longrightarrow> runScenario ?e h s = runScenario ?e' h s" for s
    using conflict_carries_over named upd by metis+
  then have same: "structuralConflict (runScenario ?e h s) = structuralConflict (runScenario ?e' h s)" for s by metis
  have "map (discardStructural \<circ> runScenario ?e h) (filter (\<lambda>s. structuralConflict (runScenario ?e' h s)) ss) =
      map (discardStructural \<circ> runScenario ?e' h) (filter (\<lambda>s. structuralConflict (runScenario ?e' h s)) ss)"
    using returned by (intro map_cong) auto
  then show ?thesis by (simp only: filterStructuralConflicts_eq same)
qed


lemma extract_descriptions:
  assumes "extractScenarioCorrections afs scenarios = (cs, ws)" "c \<in> set cs"
  shows "\<exists>t. List.find (\<lambda>s. ts_description s = sc_description c) scenarios = Some t \<and> ts_source t \<noteq> HandwrittenScenario"
  using assms
proof (induction afs arbitrary: cs ws)
  case (Cons af afs)
  obtain cs' ws' where rest: "extractScenarioCorrections afs scenarios = (cs', ws')" by fastforce
  show ?case
  proof (cases "c \<in> set cs'")
    case True
    then show ?thesis using Cons.IH [OF rest] by blast
  next
    case False
    then have "correctionOf af = Some c" "\<exists>t. List.find (\<lambda>s. ts_description s = af_description af) scenarios = Some t \<and> ts_source t \<noteq> HandwrittenScenario"
      using Cons.prems rest by (auto split: option.splits if_splits)
    moreover have "sc_description c = af_description af"
      using \<open>correctionOf af = Some c\<close> by (auto simp: correctionOf_def split: failure_blame.splits)
    ultimately show ?thesis by simp
  qed
qed simp

text \<open>Handwritten.\<close>

theorem handwritten_never_corrected:
  assumes "extractScenarioCorrections afs scenarios = (cs, ws)"
    and "List.find (\<lambda>t. ts_description t = ts_description s) scenarios = Some t" "ts_source t = HandwrittenScenario"
  shows "applyScenarioCorrections [s] cs = [s]"
proof -
  have "ts_description s \<noteq> sc_description c" if "c \<in> set cs" for c
    using extract_descriptions [OF assms(1) that] assms(2,3) by auto
  then have "ts_description s \<notin> sc_description ` set cs" by blast
  then have "map_of (rev (map (\<lambda>c. (sc_description c, c)) cs)) (ts_description s) = None"
    by (simp add: map_of_eq_None_iff image_image)
  then show ?thesis by (simp add: applyScenarioCorrections_def)
qed

section \<open>What a failed run leaves\<close>

lemma repair_writes_first_rules:
  assumes "repairStep w u h fe written k st art = (art', Inr st')"
  shows "ar_policy art' = Some written"
  using assms by (cases rule: repairStep_cases) auto

definition compileDemoUnit :: compile_unit where
  "compileDemoUnit = \<lparr>cu_serverName = ''filesystem'',
     cu_storedAnnotations = [demoTool ''filesystem'' ''read_multiple_files'' [(''paths'', StaticRoles [ReadPath])]],
     cu_allowedDirectory = ''/s'', cu_protectedPaths = [], cu_domainAllowlists = None, cu_allowMcpLists = True\<rparr>"

definition compileDemoScenario :: "expected_decision \<Rightarrow> scenario_source \<Rightarrow> test_scenario" where
  "compileDemoScenario d src = \<lparr>ts_description = ''docs'', ts_request = \<lparr>sq_serverName = ''filesystem'', sq_toolName = ''read_multiple_files'',
     sq_arguments = [(''paths'', JArr [JStr ''/docs/b''])]\<rparr>, ts_expected = d, ts_reasoning = [], ts_source = src\<rparr>"

definition compileDemoWorld :: "expected_decision \<Rightarrow> bool \<Rightarrow> compile_world" where
  "compileDemoWorld d p = \<lparr>
     cw_compile = Some ([demoRule ''read-docs'' ''filesystem'' (Some \<lparr>pc_roles = [ReadPath], pc_within = ''/docs''\<rparr>) Allow], []),
     cw_firstPatch = (\<lambda>k. Some \<lparr>rp_operations = [], rp_listDefinitions = None\<rparr>), cw_retryPatch = (\<lambda>k. None), cw_recompile = (\<lambda>k. None),
     cw_resolveLists = (\<lambda>k ds. None), cw_generate = (\<lambda>dirs dyn. Some [compileDemoScenario d GeneratedScenario]),
     cw_replace = (\<lambda>ds. Some []), cw_judge = (\<lambda>k n rs. Some \<lparr>jg_analysis = [], jg_pass = p, jg_attributions = [], jg_additional = []\<rparr>),
     cw_inputHash = ''h'', cw_scenarioHash = (\<lambda>dirs dyn. concat dirs)\<rparr>"

definition noArtifacts :: server_artifacts where
  "noArtifacts = \<lparr>ar_policy = None, ar_scenarios = None, ar_lists = None\<rparr>"

definition compileDemo :: "expected_decision \<Rightarrow> bool \<Rightarrow> server_artifacts \<Rightarrow> server_artifacts \<times> (compile_error + server_result)" where
  "compileDemo d p art = compileServer (\<lambda>n. []) (compileDemoWorld d p) compileDemoUnit demoHost art"

text \<open>The artifacts of a run whose verification failed answer the next run from the cache.\<close>

lemma failed_verification_is_cached:
  "snd (compileDemo (Expected Deny) False noArtifacts) = Inl (VerificationFailed ''filesystem'')"
  "\<not> isl (snd (compileDemo (Expected Deny) False (fst (compileDemo (Expected Deny) False noArtifacts))))"
  by code_simp+

text \<open>A judge that passes a round decides, whatever failed in it.\<close>

lemma judge_pass_hides_failures:
  "map_sum id (\<lambda>v. (vf_pass v, length (vf_failed v)))
     (verifyPolicy (cw_judge (compileDemoWorld (Expected Deny) True) 0)
       (verifyEngine (compileDemoWorld (Expected Deny) True) compileDemoUnit demoHost [] None) demoHost
       (cu_storedAnnotations compileDemoUnit) 3 [compileDemoScenario (Expected Allow) GeneratedScenario]) = Inr (True, 1)"
  by code_simp

text \<open>A conflict with the domain gate is not seen by the engine that filters.\<close>

definition gateDemoUnit :: compile_unit where
  "gateDemoUnit = \<lparr>cu_serverName = ''git'',
     cu_storedAnnotations = [demoTool ''git'' ''git_push'' [(''path'', StaticRoles [ReadPath]), (''remote'', StaticRoles [GitRemoteUrl])]],
     cu_allowedDirectory = ''/s'', cu_protectedPaths = [], cu_domainAllowlists = Some [(''git'', [''github.com''])], cu_allowMcpLists = True\<rparr>"

definition gateDemoScenario :: test_scenario where
  "gateDemoScenario = \<lparr>ts_description = ''push'', ts_request = \<lparr>sq_serverName = ''git'', sq_toolName = ''git_push'',
     sq_arguments = [(''path'', JStr ''/s''), (''remote'', JStr ''https://evil.com/x'')]\<rparr>, ts_expected = Expected Allow, ts_reasoning = [],
     ts_source = GeneratedScenario\<rparr>"

lemma gate_conflict_not_filtered:
  "structuralConflict (runScenario (verifyEngine (compileDemoWorld NotAllow True) gateDemoUnit gitHost [] None) gitHost gateDemoScenario)"
  "\<not> structuralConflict (runScenario (filterEngine (compileDemoWorld NotAllow True) gateDemoUnit gitHost [] None) gitHost gateDemoScenario)"
  by code_simp+

text \<open>A handwritten scenario after a generated one of the same description is corrected with it.\<close>

lemma handwritten_namesake_corrected:
  "applyScenarioCorrections [compileDemoScenario NotAllow HandwrittenScenario]
     (fst (extractScenarioCorrections [\<lparr>af_description = ''docs'', af_blame = BlameScenario Allow []\<rparr>]
       [compileDemoScenario NotAllow GeneratedScenario, compileDemoScenario NotAllow HandwrittenScenario])) =
     [compileDemoScenario (Expected Allow) HandwrittenScenario]"
  by code_simp

section \<open>Witnesses\<close>

theorem structural_conflicts_rule_free_witness:
  "filterStructuralConflicts (filterEngine (compileDemoWorld NotAllow True) gateDemoUnit gitHost
      [demoRule ''git-all'' ''git'' None Allow] None) gitHost [gateDemoScenario] =
   filterStructuralConflicts (filterEngine (compileDemoWorld NotAllow True) gateDemoUnit gitHost [] None) gitHost [gateDemoScenario]"
  by (rule structural_conflicts_rule_free [where defs = "[]" and defs' = "[]"]; code_simp)



definition runDemo :: "run_error + run_result" where
  "runDemo = runPerServer (\<lambda>n. []) demoHost (\<lambda>a b. True) id [] [] (makeBroadPolicyValidator demoHost ''/docs'' False)
     \<lparr>rn_serverFilter = None, rn_prefilterText = None, rn_prefilterDecisions = []\<rparr>
     [(compileDemoUnit, compileDemoWorld (Expected Allow) True, noArtifacts)]"


theorem handwritten_never_corrected_witness:
  "applyScenarioCorrections [compileDemoScenario NotAllow HandwrittenScenario]
     (fst (extractScenarioCorrections [\<lparr>af_description = ''docs'', af_blame = BlameScenario Allow []\<rparr>]
       [compileDemoScenario NotAllow HandwrittenScenario])) = [compileDemoScenario NotAllow HandwrittenScenario]"
  by (rule handwritten_never_corrected [OF prod.collapse [symmetric], where t = "compileDemoScenario NotAllow HandwrittenScenario"]; code_simp)

end
