(* ===== verification/Resource_Watchdog.thy ===== *)
theory Resource_Watchdog
  imports Js_Text Node_Path
begin

text \<open>
  The watchdog over the host state of a nested Docker bundle (\<open>src/docker/resource-watchdog.ts\<close>): the schema
  of its policy, the measurement of the blocks a state class holds, and the fail-closed state machine of
  the class \<open>ResourceWatchdog\<close>. Its asynchronous methods are cut at their \<open>await\<close>s: a call is an event, and so
  is the end of a measurement or of a revocation, so that a run is any interleaving of them. Every event
  carries what the clock read. Bytes and milliseconds are unbounded integers. The walk over the file
  system sees one state of it and is not aborted.
\<close>

section \<open>The policy\<close>

datatype class_kind = FileClass | DirectoryClass

record state_class =
  sc_id :: string
  sc_relativePath :: string
  sc_kind :: class_kind
  sc_required :: bool

record watchdog_policy =
  wp_policyId :: string
  wp_targetRoot :: string
  wp_targetDevice :: int
  wp_targetInode :: int
  wp_stateClasses :: "state_class list"
  wp_sampleIntervalMs :: int
  wp_sampleTimeoutMs :: int
  wp_staleAfterMs :: int
  wp_softEvidenceBytes :: int
  wp_hardSafetyBytes :: int
  wp_hostReserveBytes :: int
  wp_maximumOvershootBytes :: int
  wp_cleanupInventoryGapMs :: int

definition MAX_SAFE_INT :: int where
  "MAX_SAFE_INT = 9007199254740991"

definition isLowerAlnumChar :: "char \<Rightarrow> bool" where
  "isLowerAlnumChar c = (isDigit c \<or> (97 \<le> (of_char c :: nat) \<and> (of_char c :: nat) \<le> 122))"

definition isResourceIdentifier :: "string \<Rightarrow> bool" where
  "isResourceIdentifier s =
     (case s of
        [] \<Rightarrow> False
      | c # cs \<Rightarrow> isLowerAlnumChar c \<and> 2 \<le> length cs \<and> length cs \<le> 127
                  \<and> list_all (\<lambda>x. isLowerAlnumChar x \<or> x \<in> set ''._-'') cs)"

definition positiveBytes :: "int \<Rightarrow> bool" where
  "positiveBytes n = (0 < n \<and> n \<le> MAX_SAFE_INT)"

definition inRange :: "int \<Rightarrow> int \<Rightarrow> int \<Rightarrow> bool" where
  "inRange lo hi n = (lo \<le> n \<and> n \<le> hi)"

definition stateClassOk :: "state_class \<Rightarrow> bool" where
  "stateClassOk c =
     (let p = sc_relativePath c
      in isResourceIdentifier (sc_id c) \<and> 1 \<le> length p \<and> length p \<le> 1024
         \<and> \<not> startsWith p ''/'' \<and> pathNormalize p = p \<and> ''..'' \<notin> set (splitOn CHR ''/'' p))"

definition pathsOverlap :: "string list \<Rightarrow> bool" where
  "pathsOverlap paths =
     list_ex (\<lambda>p. list_ex (\<lambda>q. q \<noteq> p \<and> (startsWith p (q @ ''/'') \<or> startsWith q (p @ ''/''))) paths) paths"

definition policyShapeOk :: "watchdog_policy \<Rightarrow> bool" where
  "policyShapeOk w =
     (isResourceIdentifier (wp_policyId w)
      \<and> 1 \<le> length (wp_targetRoot w) \<and> length (wp_targetRoot w) \<le> 4096
      \<and> inRange 0 MAX_SAFE_INT (wp_targetDevice w) \<and> inRange 1 MAX_SAFE_INT (wp_targetInode w)
      \<and> list_all stateClassOk (wp_stateClasses w)
      \<and> 1 \<le> length (wp_stateClasses w) \<and> length (wp_stateClasses w) \<le> 128
      \<and> inRange 100 60000 (wp_sampleIntervalMs w) \<and> inRange 100 60000 (wp_sampleTimeoutMs w)
      \<and> inRange 200 300000 (wp_staleAfterMs w)
      \<and> positiveBytes (wp_softEvidenceBytes w) \<and> positiveBytes (wp_hardSafetyBytes w)
      \<and> positiveBytes (wp_hostReserveBytes w) \<and> positiveBytes (wp_maximumOvershootBytes w)
      \<and> inRange 100 60000 (wp_cleanupInventoryGapMs w))"

definition policyIssues :: "watchdog_policy \<Rightarrow> string list" where
  "policyIssues w =
     (let root = wp_targetRoot w; ids = map sc_id (wp_stateClasses w); paths = map sc_relativePath (wp_stateClasses w)
      in (if \<not> startsWith root ''/'' \<or> pathResolve ''/'' [root] \<noteq> root
          then [''watchdog targetRoot must be canonical and absolute''] else [])
         @ (if wp_softEvidenceBytes w \<ge> wp_hardSafetyBytes w
            then [''watchdog soft threshold must be below hard threshold''] else [])
         @ (if wp_sampleTimeoutMs w \<ge> wp_staleAfterMs w \<or> wp_staleAfterMs w < wp_sampleIntervalMs w * 2
            then [''watchdog stale threshold must exceed timeout and two intervals''] else [])
         @ (if \<not> distinct ids then [''duplicate watchdog state class ID''] else [])
         @ (if pathsOverlap paths then [''watchdog state classes must not overlap''] else []))"

definition policyAccepted :: "watchdog_policy \<Rightarrow> bool" where
  "policyAccepted w = (policyShapeOk w \<and> policyIssues w = [])"

section \<open>Measuring\<close>

text \<open>What \<open>lstat\<close>, \<open>readdir\<close> and \<open>statfs\<close> answer: an error with its message, \<open>ENOENT\<close> or another, or a result.\<close>

datatype entry_kind = RegularEntry | DirectoryEntry | SymlinkEntry | OtherEntry

datatype fs_error = FsError (fe_missing: bool) (fe_message: string)

record fs_stat =
  fs_dev :: int
  fs_ino :: int
  fs_blocks :: int
  fs_kind :: entry_kind

record file_system =
  lstat :: "string \<Rightarrow> fs_error + fs_stat"
  readdir :: "string \<Rightarrow> fs_error + string list"
  statfs :: "string \<Rightarrow> fs_error + int \<times> int"

record class_sample =
  cs_id :: string
  cs_path :: string
  cs_exists :: bool
  cs_allocatedBytes :: int

record watchdog_sample =
  ws_sampledAtMs :: int
  ws_targetDevice :: int
  ws_targetInode :: int
  ws_availableBytes :: int
  ws_allocatedBytes :: int
  ws_classes :: "class_sample list"

text \<open>The walk: \<open>pending\<close> is a stack with its top at the head, \<open>seen\<close> the identities counted so far.\<close>

definition identityOf :: "fs_stat \<Rightarrow> int \<times> int" where
  "identityOf st = (fs_dev st, fs_ino st)"

definition childPaths :: "string \<Rightarrow> string list \<Rightarrow> string list" where
  "childPaths p entries = rev (map (\<lambda>e. pathJoin [p, e]) entries)"

partial_function (option) treeBytes ::
  "file_system \<Rightarrow> string list \<Rightarrow> (int \<times> int) list \<Rightarrow> int \<Rightarrow> (fs_error + int) option" where
  "treeBytes fs pending seen bytes =
     (case pending of
        [] \<Rightarrow> Some (Inr bytes)
      | p # rest \<Rightarrow>
          (case lstat fs p of
             Inl e \<Rightarrow> Some (Inl e)
           | Inr st \<Rightarrow>
               (if identityOf st \<in> set seen then treeBytes fs rest seen bytes
                else if fs_kind st = DirectoryEntry then
                  (case readdir fs p of
                     Inl e \<Rightarrow> Some (Inl e)
                   | Inr entries \<Rightarrow>
                       treeBytes fs (childPaths p entries @ rest) (identityOf st # seen) (bytes + fs_blocks st * 512))
                else treeBytes fs rest (identityOf st # seen) (bytes + fs_blocks st * 512))))"

definition allocatedTreeBytes :: "file_system \<Rightarrow> string \<Rightarrow> (fs_error + int) option" where
  "allocatedTreeBytes fs p = treeBytes fs [p] [] 0"

text \<open>\<open>path.relative\<close> of two canonical absolute paths.\<close>

fun dropCommon :: "string list \<Rightarrow> string list \<Rightarrow> string list \<times> string list" where
  "dropCommon (x # xs) (y # ys) = (if x = y then dropCommon xs ys else (x # xs, y # ys))"
| "dropCommon xs ys = (xs, ys)"

definition pathRelative :: "string \<Rightarrow> string \<Rightarrow> string" where
  "pathRelative from to =
     (let segs = (\<lambda>p. filter (\<lambda>s. s \<noteq> []) (splitOn CHR ''/'' (pathResolve ''/'' [p])));
          (ups, downs) = dropCommon (segs from) (segs to)
      in joinWith ''/'' (map (\<lambda>_. ''..'') ups @ downs))"

definition sampleClass :: "file_system \<Rightarrow> watchdog_policy \<Rightarrow> state_class \<Rightarrow> (string + class_sample) option" where
  "sampleClass fs w c =
     (let path = pathJoin [wp_targetRoot w, sc_relativePath c];
          escaped = pathRelative (wp_targetRoot w) path
      in if startsWith escaped ''..'' \<or> startsWith escaped ''/''
         then Some (Inl (''watchdog state class escapes root: '' @ sc_id c))
         else
           (case lstat fs path of
              Inl e \<Rightarrow>
                (if fe_missing e \<and> \<not> sc_required c
                 then Some (Inr \<lparr>cs_id = sc_id c, cs_path = path, cs_exists = False, cs_allocatedBytes = 0\<rparr>)
                 else Some (Inl (fe_message e)))
            | Inr st \<Rightarrow>
                (if sc_kind c = FileClass \<and> fs_kind st \<noteq> RegularEntry
                 then Some (Inl (''watchdog state class is not a file: '' @ sc_id c))
                 else if sc_kind c = DirectoryClass \<and> fs_kind st \<noteq> DirectoryEntry
                 then Some (Inl (''watchdog state class is not a directory: '' @ sc_id c))
                 else
                   (case allocatedTreeBytes fs path of
                      None \<Rightarrow> None
                    | Some (Inl e) \<Rightarrow> Some (Inl (fe_message e))
                    | Some (Inr bytes) \<Rightarrow>
                        Some (Inr \<lparr>cs_id = sc_id c, cs_path = path, cs_exists = True, cs_allocatedBytes = bytes\<rparr>)))))"

fun sampleClasses :: "file_system \<Rightarrow> watchdog_policy \<Rightarrow> state_class list \<Rightarrow> (string + class_sample list) option" where
  "sampleClasses fs w [] = Some (Inr [])"
| "sampleClasses fs w (c # cs) =
     (case sampleClass fs w c of
        None \<Rightarrow> None
      | Some (Inl e) \<Rightarrow> Some (Inl e)
      | Some (Inr s) \<Rightarrow>
          (case sampleClasses fs w cs of
             None \<Rightarrow> None
           | Some (Inl e) \<Rightarrow> Some (Inl e)
           | Some (Inr ss) \<Rightarrow> Some (Inr (s # ss))))"

definition totalBytes :: "class_sample list \<Rightarrow> int" where
  "totalBytes cs = sum_list (map cs_allocatedBytes cs)"

definition sampleValidatedResourceState :: "file_system \<Rightarrow> watchdog_policy \<Rightarrow> int \<Rightarrow> (string + watchdog_sample) option" where
  "sampleValidatedResourceState fs w now =
     (case lstat fs (wp_targetRoot w) of
        Inl e \<Rightarrow> Some (Inl (fe_message e))
      | Inr base \<Rightarrow>
          (if fs_kind base \<noteq> DirectoryEntry then Some (Inl ''watchdog target identity is not a real directory'')
           else if fs_dev base \<noteq> wp_targetDevice w \<or> fs_ino base \<noteq> wp_targetInode w
           then Some (Inl ''watchdog target identity changed before measurement'')
           else
             (case statfs fs (wp_targetRoot w) of
                Inl e \<Rightarrow> Some (Inl (fe_message e))
              | Inr (bavail, bsize) \<Rightarrow>
                  (case sampleClasses fs w (wp_stateClasses w) of
                     None \<Rightarrow> None
                   | Some (Inl e) \<Rightarrow> Some (Inl e)
                   | Some (Inr cs) \<Rightarrow>
                       Some (Inr \<lparr>ws_sampledAtMs = now, ws_targetDevice = fs_dev base, ws_targetInode = fs_ino base,
                                  ws_availableBytes = bavail * bsize, ws_allocatedBytes = totalBytes cs, ws_classes = cs\<rparr>)))))"

section \<open>The walk counts every entry once\<close>

inductive reaches :: "file_system \<Rightarrow> string \<Rightarrow> string \<Rightarrow> bool" for fs where
  reaches_refl: "reaches fs p p"
| reaches_step: "lstat fs p = Inr st \<Longrightarrow> fs_kind st = DirectoryEntry \<Longrightarrow> readdir fs p = Inr entries
    \<Longrightarrow> q \<in> set (childPaths p entries) \<Longrightarrow> reaches fs q r \<Longrightarrow> reaches fs p r"

definition identities :: "file_system \<Rightarrow> (int \<times> int) set" where
  "identities fs = {identityOf st | p st. lstat fs p = Inr st}"

text \<open>The walk ends on every file system with finitely many entries, whatever its links make of it.\<close>

lemma treeBytes_returns:
  assumes "finite (identities fs)"
  shows "\<exists>r. treeBytes fs pending seen bytes = Some r"
proof (induction "card (identities fs - set seen)" arbitrary: pending seen bytes rule: less_induct)
  case less
  show ?case
  proof (induction pending)
    case Nil
    then show ?case by (simp add: treeBytes.simps)
  next
    case (Cons p rest)
    show ?case
    proof (cases "lstat fs p")
      case (Inl e)
      then show ?thesis by (simp add: treeBytes.simps)
    next
      case (Inr st)
      show ?thesis
      proof (cases "identityOf st \<in> set seen")
        case True
        then show ?thesis using Inr Cons by (simp add: treeBytes.simps [of fs "p # rest"])
      next
        case False
        have "identityOf st \<in> identities fs" using Inr by (auto simp: identities_def)
        then have "card (identities fs - set (identityOf st # seen)) < card (identities fs - set seen)"
          using False assms by (intro psubset_card_mono) auto
        from less.hyps [OF this] Inr False show ?thesis
          by (subst treeBytes.simps) (simp split: sum.splits)
      qed
    qed
  qed
qed

definition reachableIds :: "file_system \<Rightarrow> string \<Rightarrow> (int \<times> int) set" where
  "reachableIds fs p = {identityOf st | q st. reaches fs p q \<and> lstat fs q = Inr st}"

definition kidsOf :: "file_system \<Rightarrow> string \<Rightarrow> (int \<times> int) set" where
  "kidsOf fs p =
     (case readdir fs p of
        Inl e \<Rightarrow> {}
      | Inr entries \<Rightarrow> {identityOf st | c st. c \<in> set (childPaths p entries) \<and> lstat fs c = Inr st})"

text \<open>Two paths with one identity name one entry; \<open>size\<close> is the number of blocks of an identity.\<close>

definition oneEntry :: "file_system \<Rightarrow> (int \<times> int \<Rightarrow> int) \<Rightarrow> bool" where
  "oneEntry fs blocksOf =
     (\<forall>p q a b. lstat fs p = Inr a \<longrightarrow> lstat fs q = Inr b \<longrightarrow> identityOf a = identityOf b
        \<longrightarrow> a = b \<and> kidsOf fs p = kidsOf fs q \<and> fs_blocks a = blocksOf (identityOf a))"

definition walked :: "file_system \<Rightarrow> string list \<Rightarrow> (int \<times> int) set \<Rightarrow> (int \<times> int) set \<Rightarrow> bool" where
  "walked fs pending seen V =
     (finite V \<and> V \<inter> seen = {}
      \<and> (\<forall>q \<in> set pending. \<exists>st. lstat fs q = Inr st \<and> identityOf st \<in> V \<union> seen)
      \<and> (\<forall>i \<in> V. \<exists>p q st. p \<in> set pending \<and> reaches fs p q \<and> lstat fs q = Inr st \<and> identityOf st = i
            \<and> (fs_kind st = DirectoryEntry \<longrightarrow> kidsOf fs q \<subseteq> V \<union> seen)))"

lemma walked_pending: "walked fs pending seen V \<Longrightarrow> q \<in> set pending \<Longrightarrow> \<exists>st. lstat fs q = Inr st \<and> identityOf st \<in> V \<union> seen"
  by (simp add: walked_def)

lemma walked_entry:
  "walked fs pending seen V \<Longrightarrow> i \<in> V \<Longrightarrow>
   \<exists>p q st. p \<in> set pending \<and> reaches fs p q \<and> lstat fs q = Inr st \<and> identityOf st = i
     \<and> (fs_kind st = DirectoryEntry \<longrightarrow> kidsOf fs q \<subseteq> V \<union> seen)"
  by (simp add: walked_def)

lemma walked_skip:
  assumes "walked fs rest seen V" "lstat fs p = Inr st" "identityOf st \<in> seen"
  shows "walked fs (p # rest) seen V"
  using assms unfolding walked_def by (auto 0 4)

lemma walked_leaf:
  assumes w: "walked fs rest (insert (identityOf st) seen) V" and p: "lstat fs p = Inr st"
    and new: "identityOf st \<notin> seen" and leaf: "fs_kind st \<noteq> DirectoryEntry"
  shows "walked fs (p # rest) seen (insert (identityOf st) V)"
proof -
  have "\<exists>p' q st'. p' \<in> set (p # rest) \<and> reaches fs p' q \<and> lstat fs q = Inr st' \<and> identityOf st' = i
          \<and> (fs_kind st' = DirectoryEntry \<longrightarrow> kidsOf fs q \<subseteq> insert (identityOf st) V \<union> seen)"
    if i: "i \<in> insert (identityOf st) V" for i
  proof (cases "i = identityOf st")
    case True
    then show ?thesis using p leaf reaches_refl by (metis list.set_intros(1))
  next
    case False
    with i w show ?thesis unfolding walked_def by (fastforce simp: insert_commute)
  qed
  then show ?thesis using w p new unfolding walked_def by (fastforce simp: insert_commute)
qed

lemma walked_directory:
  assumes w: "walked fs (childPaths p entries @ rest) (insert (identityOf st) seen) V" and p: "lstat fs p = Inr st"
    and new: "identityOf st \<notin> seen" and dir: "fs_kind st = DirectoryEntry" and entries: "readdir fs p = Inr entries"
  shows "walked fs (p # rest) seen (insert (identityOf st) V)"
proof -
  have kids: "kidsOf fs p \<subseteq> insert (identityOf st) V \<union> seen"
  proof
    fix i assume "i \<in> kidsOf fs p"
    then obtain c st' where c: "c \<in> set (childPaths p entries)" "lstat fs c = Inr st'" "i = identityOf st'"
      using entries by (auto simp: kidsOf_def)
    from w c(1) obtain st'' where "lstat fs c = Inr st''" "identityOf st'' \<in> V \<union> insert (identityOf st) seen"
      unfolding walked_def by (metis Un_iff set_append)
    with c(2,3) show "i \<in> insert (identityOf st) V \<union> seen" by auto
  qed
  have "\<exists>p' q st'. p' \<in> set (p # rest) \<and> reaches fs p' q \<and> lstat fs q = Inr st' \<and> identityOf st' = i
          \<and> (fs_kind st' = DirectoryEntry \<longrightarrow> kidsOf fs q \<subseteq> insert (identityOf st) V \<union> seen)"
    if i: "i \<in> insert (identityOf st) V" for i
  proof (cases "i = identityOf st")
    case True
    then show ?thesis using p kids reaches_refl by (metis list.set_intros(1))
  next
    case False
    with i have "i \<in> V" by simp
    from walked_entry [OF w this] obtain p' q st' where q: "p' \<in> set (childPaths p entries @ rest)" "reaches fs p' q" "lstat fs q = Inr st'"
        "identityOf st' = i" "fs_kind st' = DirectoryEntry \<longrightarrow> kidsOf fs q \<subseteq> V \<union> insert (identityOf st) seen"
      by blast
    have "\<exists>p'' \<in> set (p # rest). reaches fs p'' q"
      using q(1,2) reaches_step [OF p dir entries] by auto
    with q(3,4,5) show ?thesis by (metis Un_insert_left Un_insert_right)
  qed
  moreover have "\<forall>q \<in> set (p # rest). \<exists>st'. lstat fs q = Inr st' \<and> identityOf st' \<in> insert (identityOf st) V \<union> seen"
    using w p unfolding walked_def by fastforce
  ultimately show ?thesis using w new unfolding walked_def by simp
qed

lemma treeBytes_walked:
  "treeBytes fs pending seen bytes = Some r \<Longrightarrow> oneEntry fs blocksOf \<Longrightarrow> r = Inr b
    \<Longrightarrow> \<exists>V. walked fs pending (set seen) V \<and> b = bytes + 512 * (\<Sum>i \<in> V. blocksOf i)"
proof (induction fs pending seen bytes r rule: treeBytes.raw_induct [rotated, consumes 1, case_names step])
  case (step walk fs pending seen bytes r)
  note ih = step(1) [OF _ step(3) refl]
  note body = step(2) [unfolded step(4)]
  note one = step(3)
  show ?case
  proof (cases pending)
    case Nil
    with body show ?thesis by (intro exI [of _ "{}"]) (simp add: walked_def)
  next
    case (Cons p rest)
    with body obtain st where st: "lstat fs p = Inr st" by (auto split: sum.splits)
    show ?thesis
    proof (cases "identityOf st \<in> set seen")
      case True
      with body Cons st have "walk fs rest seen bytes = Some (Inr b)" by simp
      from ih [OF this] True st Cons show ?thesis by (blast intro: walked_skip)
    next
      case new: False
      have count_new: "b = bytes + 512 * (\<Sum>i \<in> insert (identityOf st) V. blocksOf i)"
        if "b = bytes + fs_blocks st * 512 + 512 * (\<Sum>i \<in> V. blocksOf i)" "finite V" "identityOf st \<notin> V" for V
        using that one st by (auto simp: oneEntry_def algebra_simps)
      show ?thesis
      proof (cases "fs_kind st = DirectoryEntry")
        case dir: True
        with body Cons st new obtain entries where e: "readdir fs p = Inr entries"
            "walk fs (childPaths p entries @ rest) (identityOf st # seen) (bytes + fs_blocks st * 512) = Some (Inr b)"
          by (auto split: sum.splits)
        from ih [OF e(2)] obtain V where V: "walked fs (childPaths p entries @ rest) (insert (identityOf st) (set seen)) V"
            "b = bytes + fs_blocks st * 512 + 512 * (\<Sum>i \<in> V. blocksOf i)"
          by auto
        from V(1) have "finite V" "identityOf st \<notin> V" by (auto simp: walked_def)
        with walked_directory [OF V(1) st new dir e(1)] count_new V(2) Cons show ?thesis by blast
      next
        case leaf: False
        with body Cons st new
        have "walk fs rest (identityOf st # seen) (bytes + fs_blocks st * 512) = Some (Inr b)" by simp
        from ih [OF this] obtain V where V: "walked fs rest (insert (identityOf st) (set seen)) V"
            "b = bytes + fs_blocks st * 512 + 512 * (\<Sum>i \<in> V. blocksOf i)"
          by auto
        from V(1) have "finite V" "identityOf st \<notin> V" by (auto simp: walked_def)
        with walked_leaf [OF V(1) st new leaf] count_new V(2) Cons show ?thesis by blast
      qed
    qed
  qed
qed

text \<open>C40: what the walk of a class adds up is the blocks of every entry reachable from its path, each counted once
  however many links lead to it; and on a file system with finitely many entries the walk ends.\<close>

theorem allocated_bytes_count_once:
  assumes one: "oneEntry fs blocksOf" and fin: "finite (identities fs)"
  shows "\<exists>r. allocatedTreeBytes fs p = Some r
           \<and> (\<forall>b. r = Inr b \<longrightarrow> b = 512 * (\<Sum>i \<in> reachableIds fs p. blocksOf i))"
proof -
  obtain r where r: "allocatedTreeBytes fs p = Some r"
    unfolding allocatedTreeBytes_def using treeBytes_returns [OF fin, of "[p]" "[]" 0] by blast
  have "b = 512 * (\<Sum>i \<in> reachableIds fs p. blocksOf i)" if b: "r = Inr b" for b
  proof -
    from treeBytes_walked [OF _ one b] r obtain V
      where V: "walked fs [p] {} V" "b = 512 * (\<Sum>i \<in> V. blocksOf i)"
      unfolding allocatedTreeBytes_def by force
    have into: "\<forall>a. lstat fs x = Inr a \<longrightarrow> identityOf a \<in> V \<Longrightarrow> lstat fs y = Inr c \<Longrightarrow> identityOf c \<in> V"
      if "reaches fs x y" for x y c
      using that
    proof (induction)
      case (reaches_step x st entries q y)
      from reaches_step have "identityOf st \<in> V" by blast
      with V(1) obtain q' st' where q': "lstat fs q' = Inr st'" "identityOf st' = identityOf st"
          "fs_kind st' = DirectoryEntry \<longrightarrow> kidsOf fs q' \<subseteq> V"
        unfolding walked_def by auto
      with one reaches_step.hyps(1) have "st' = st" "kidsOf fs q' = kidsOf fs x" unfolding oneEntry_def by blast+
      with q'(3) reaches_step.hyps have "kidsOf fs x \<subseteq> V" by simp
      with reaches_step.hyps(3,4) have "\<forall>a. lstat fs q = Inr a \<longrightarrow> identityOf a \<in> V"
        by (auto simp: kidsOf_def)
      with reaches_step.IH reaches_step.prems(2) show ?case by blast
    qed blast
    have "reachableIds fs p = V"
    proof
      show "V \<subseteq> reachableIds fs p"
      proof
        fix i assume "i \<in> V"
        from walked_entry [OF V(1) this] show "i \<in> reachableIds fs p" by (auto simp: reachableIds_def)
      qed
      have "\<forall>a. lstat fs p = Inr a \<longrightarrow> identityOf a \<in> V" using walked_pending [OF V(1), of p] by auto
      with into show "reachableIds fs p \<subseteq> V" unfolding reachableIds_def by blast
    qed
    with V(2) show ?thesis by simp
  qed
  with r show ?thesis by blast
qed

section \<open>Examples\<close>

definition watchdogPolicyOf :: "state_class list \<Rightarrow> watchdog_policy" where
  "watchdogPolicyOf classes =
     \<lparr>wp_policyId = ''demo'', wp_targetRoot = ''/w'', wp_targetDevice = 1, wp_targetInode = 2, wp_stateClasses = classes,
      wp_sampleIntervalMs = 200, wp_sampleTimeoutMs = 400, wp_staleAfterMs = 500, wp_softEvidenceBytes = 1000,
      wp_hardSafetyBytes = 2000, wp_hostReserveBytes = 1000, wp_maximumOvershootBytes = 500, wp_cleanupInventoryGapMs = 100\<rparr>"

definition directoryClass :: "string \<Rightarrow> string \<Rightarrow> state_class" where
  "directoryClass i p = \<lparr>sc_id = i, sc_relativePath = p, sc_kind = DirectoryClass, sc_required = True\<rparr>"

text \<open>The schema refuses a class inside another, but not two classes on one path, nor one inside \<open>.\<close> or inside a
  path that ends in a slash.\<close>

lemma overlap_detected: "\<not> policyAccepted (watchdogPolicyOf [directoryClass ''one'' ''a'', directoryClass ''two'' ''a/b''])"
  by code_simp

lemma overlap_missed:
  "policyAccepted (watchdogPolicyOf [directoryClass ''one'' ''a'', directoryClass ''two'' ''a''])"
  "policyAccepted (watchdogPolicyOf [directoryClass ''one'' ''.'', directoryClass ''two'' ''a''])"
  "policyAccepted (watchdogPolicyOf [directoryClass ''one'' ''a/'', directoryClass ''two'' ''a/b''])"
  by code_simp+

text \<open>A directory that holds a file and a link to it under another name.\<close>

definition linkedFs :: file_system where
  "linkedFs =
     \<lparr>lstat = (\<lambda>p. if p = ''/w'' then Inr \<lparr>fs_dev = 1, fs_ino = 2, fs_blocks = 1, fs_kind = DirectoryEntry\<rparr>
                   else if p = ''/w/a'' \<or> p = ''/w/b'' then Inr \<lparr>fs_dev = 1, fs_ino = 3, fs_blocks = 8, fs_kind = RegularEntry\<rparr>
                   else Inl (FsError True ''ENOENT'')),
      readdir = (\<lambda>p. if p = ''/w'' then Inr [''a'', ''b''] else Inl (FsError False ''ENOTDIR'')),
      statfs = (\<lambda>p. Inr (100, 4096))\<rparr>"

definition linkedBlocks :: "int \<times> int \<Rightarrow> int" where
  "linkedBlocks i = (if i = (1, 2) then 1 else 8)"

lemma linked_identities: "identities linkedFs \<subseteq> {(1, 2), (1, 3)}"
  by (auto simp: identities_def linkedFs_def identityOf_def split: if_splits)

lemma linked_oneEntry: "oneEntry linkedFs linkedBlocks"
  by (auto simp: oneEntry_def linkedFs_def identityOf_def linkedBlocks_def kidsOf_def split: if_splits)

lemma allocated_bytes_count_once_witness:
  "allocatedTreeBytes linkedFs ''/w'' = Some (Inr 4608)
   \<and> 4608 = 512 * (\<Sum>i \<in> reachableIds linkedFs ''/w''. linkedBlocks i)"
proof -
  have "pathJoin [''/w'', ''a''] = ''/w/a''" "pathJoin [''/w'', ''b''] = ''/w/b''" by code_simp+
  then have measured: "allocatedTreeBytes linkedFs ''/w'' = Some (Inr 4608)"
    by (simp add: allocatedTreeBytes_def treeBytes.simps linkedFs_def identityOf_def childPaths_def)
  have "finite (identities linkedFs)" using linked_identities by (rule finite_subset) simp
  from allocated_bytes_count_once [OF linked_oneEntry this, of "''/w''"] measured show ?thesis by auto
qed

end
