(* ===== verification/Watchdog_Machine.thy ===== *)
theory Watchdog_Machine
  imports Resource_Watchdog "HOL-Library.List_Lexorder" "HOL-Library.Char_ord"
begin

text \<open>
  The class \<open>ResourceWatchdog\<close> of \<open>src/docker/resource-watchdog.ts\<close>. A call of \<open>start\<close> or \<open>tick\<close> runs to its
  first \<open>await\<close>; the end of the measurement it waits for and the end of the revocation \<open>onTrip\<close> are events of
  their own, with any calls between them. Shown: a watchdog trips once and calls \<open>onTrip\<close> once; after a bad
  sample nothing makes it fresh again; what is fresh was measured or deferred less than \<open>staleAfterMs\<close> ago;
  and a measurement that never ends trips it at the first tick after that time.
\<close>

section \<open>State\<close>

datatype trip_code = HardStateThreshold | HostReserve | SampleError | SampleStale | TargetIdentity

record watchdog_trip =
  tr_code :: trip_code
  tr_atMs :: int
  tr_detail :: string
  tr_sample :: "watchdog_sample option"
  tr_overshootBytes :: int
  tr_overshootWithinFrozenMaximum :: bool

record cleanup_proof =
  cp_exactOuterResourceAbsent :: bool
  cp_stateRootAbsent :: bool
  cp_firstInventory :: "int \<times> string list"
  cp_secondInventory :: "int \<times> string list"

text \<open>
  The fields of the class; then what the pending promises remember: whether the running measurement belongs
  to \<open>start\<close>, and of a running revocation whether it belongs to the measurement and to \<open>start\<close>; then what the
  outside saw: the calls of \<open>onTrip\<close> and of \<open>onSoftEvidence\<close>, and how each \<open>start\<close> settled.
\<close>

record watchdog =
  wd_timer :: bool
  wd_samplingStartedAtMs :: "int option"
  wd_lastCompletedAtMs :: "int option"
  wd_tripRecord :: "watchdog_trip option"
  wd_revocationFailure :: "string option"
  wd_stopped :: bool
  wd_samplingOfStart :: bool
  wd_revoking :: "(bool \<times> bool) option"
  wd_onTrips :: "watchdog_trip list"
  wd_softEvidence :: "watchdog_sample list"
  wd_starts :: "(string + watchdog_sample) list"

definition newWatchdog :: watchdog where
  "newWatchdog = \<lparr>wd_timer = False, wd_samplingStartedAtMs = None, wd_lastCompletedAtMs = None, wd_tripRecord = None,
     wd_revocationFailure = None, wd_stopped = False, wd_samplingOfStart = False, wd_revoking = None,
     wd_onTrips = [], wd_softEvidence = [], wd_starts = []\<rparr>"

definition showInt :: "int \<Rightarrow> string" where
  "showInt n = (if n < 0 then CHR ''-'' # showNat (nat (- n)) else showNat (nat n))"

section \<open>Operations\<close>

definition assertSampleIdentity :: "watchdog_policy \<Rightarrow> watchdog_sample \<Rightarrow> string option" where
  "assertSampleIdentity pol s =
     (if ws_targetDevice s \<noteq> wp_targetDevice pol \<or> ws_targetInode s \<noteq> wp_targetInode pol
      then Some (''watchdog target identity changed: expected '' @ showInt (wp_targetDevice pol) @ '':''
                 @ showInt (wp_targetInode pol) @ '', got '' @ showInt (ws_targetDevice s) @ '':'' @ showInt (ws_targetInode s))
      else if sort (map cs_id (ws_classes s)) \<noteq> sort (map sc_id (wp_stateClasses pol))
      then Some ''watchdog target identity/scope changed: state class set mismatch''
      else if totalBytes (ws_classes s) \<noteq> ws_allocatedBytes s
      then Some ''watchdog sample allocated-byte total is inconsistent''
      else None)"

definition makeTrip :: "watchdog_policy \<Rightarrow> trip_code \<Rightarrow> int \<Rightarrow> string \<Rightarrow> watchdog_sample option \<Rightarrow> watchdog_trip" where
  "makeTrip pol code now detail s =
     (let overshoot = max 0 ((case s of None \<Rightarrow> 0 | Some x \<Rightarrow> ws_allocatedBytes x) - wp_hardSafetyBytes pol)
      in \<lparr>tr_code = code, tr_atMs = now, tr_detail = detail, tr_sample = s, tr_overshootBytes = overshoot,
          tr_overshootWithinFrozenMaximum = (overshoot \<le> wp_maximumOvershootBytes pol)\<rparr>)"

text \<open>\<open>start\<close> after its tick.\<close>

definition settleStart :: "bool \<Rightarrow> watchdog_sample option \<Rightarrow> watchdog \<Rightarrow> watchdog" where
  "settleStart schedule r w =
     (case (r, wd_tripRecord w) of
        (Some s, None) \<Rightarrow> w\<lparr>wd_starts := wd_starts w @ [Inr s], wd_timer := wd_timer w \<or> schedule\<rparr>
      | (_, t) \<Rightarrow>
          w\<lparr>wd_starts := wd_starts w @
              [Inl (''resource watchdog failed startup attestation: ''
                    @ (case t of None \<Rightarrow> ''no sample'' | Some tr \<Rightarrow> tr_detail tr))]\<rparr>)"

definition returnTick :: "bool \<Rightarrow> bool \<Rightarrow> watchdog_sample option \<Rightarrow> watchdog \<Rightarrow> watchdog" where
  "returnTick schedule ofStart r w = (if ofStart then settleStart schedule r w else w)"

text \<open>The \<open>finally\<close> of a tick that measured.\<close>

definition finishSampling :: "bool \<Rightarrow> watchdog_sample option \<Rightarrow> watchdog \<Rightarrow> watchdog" where
  "finishSampling schedule r w = returnTick schedule (wd_samplingOfStart w) r (w\<lparr>wd_samplingStartedAtMs := None\<rparr>)"

text \<open>\<open>trigger\<close> up to the call of \<open>onTrip\<close>, when nothing has tripped yet.\<close>

definition trigger :: "watchdog_trip \<Rightarrow> bool \<Rightarrow> bool \<Rightarrow> watchdog \<Rightarrow> watchdog" where
  "trigger tr ofSampling ofStart w =
     w\<lparr>wd_tripRecord := Some tr, wd_timer := False, wd_onTrips := wd_onTrips w @ [tr], wd_revoking := Some (ofSampling, ofStart)\<rparr>"

definition callTick :: "watchdog_policy \<Rightarrow> bool \<Rightarrow> bool \<Rightarrow> int \<Rightarrow> int \<Rightarrow> watchdog \<Rightarrow> watchdog" where
  "callTick pol schedule ofStart now later w =
     (if wd_stopped w \<or> wd_tripRecord w \<noteq> None then returnTick schedule ofStart None w
      else
        (case wd_samplingStartedAtMs w of
           Some t0 \<Rightarrow>
             (if now - t0 \<ge> wp_staleAfterMs pol
              then trigger (makeTrip pol SampleStale later (''sample has not completed for '' @ showInt (now - t0) @ ''ms'') None)
                     False ofStart w
              else returnTick schedule ofStart None w)
         | None \<Rightarrow>
             (case wd_lastCompletedAtMs w of
                Some t0 \<Rightarrow>
                  (if now - t0 \<ge> wp_staleAfterMs pol
                   then trigger (makeTrip pol SampleStale later (''last completed sample is '' @ showInt (now - t0) @ ''ms old'') None)
                          False ofStart w
                   else w\<lparr>wd_samplingStartedAtMs := Some now, wd_samplingOfStart := ofStart\<rparr>)
              | None \<Rightarrow> w\<lparr>wd_samplingStartedAtMs := Some now, wd_samplingOfStart := ofStart\<rparr>)))"

definition callStart :: "watchdog_policy \<Rightarrow> bool \<Rightarrow> int \<Rightarrow> int \<Rightarrow> watchdog \<Rightarrow> watchdog" where
  "callStart pol schedule now later w =
     (if wd_stopped w \<or> wd_lastCompletedAtMs w \<noteq> None \<or> wd_timer w
      then w\<lparr>wd_starts := wd_starts w @ [Inl ''resource watchdog cannot be started twice'']\<rparr>
      else callTick pol schedule True now later w)"

text \<open>A trip of the measuring tick: nothing happens when another tick tripped before it.\<close>

definition tripSampling ::
  "watchdog_policy \<Rightarrow> bool \<Rightarrow> trip_code \<Rightarrow> int \<Rightarrow> string \<Rightarrow> watchdog_sample option \<Rightarrow> watchdog \<Rightarrow> watchdog" where
  "tripSampling pol schedule code now detail s w =
     (if wd_tripRecord w \<noteq> None then finishSampling schedule s w
      else trigger (makeTrip pol code now detail s) True (wd_samplingOfStart w) w)"

definition sampling :: "watchdog \<Rightarrow> bool" where
  "sampling w = (wd_samplingStartedAtMs w \<noteq> None \<and> (\<forall>b. wd_revoking w \<noteq> Some (True, b)))"

definition failureCode :: "string \<Rightarrow> trip_code" where
  "failureCode message = (if strIncludes message ''identity'' then TargetIdentity else SampleError)"

text \<open>The measurement settles: with a sample, or with the error it threw or the timeout.\<close>

definition sampleEnds :: "watchdog_policy \<Rightarrow> bool \<Rightarrow> string + watchdog_sample \<Rightarrow> int \<Rightarrow> int \<Rightarrow> watchdog \<Rightarrow> watchdog" where
  "sampleEnds pol schedule r now later w =
     (case r of
        Inl m \<Rightarrow> tripSampling pol schedule (failureCode m) later m None w
      | Inr s \<Rightarrow>
          (case assertSampleIdentity pol s of
             Some m \<Rightarrow> tripSampling pol schedule (failureCode m) later m None w
           | None \<Rightarrow>
               (let w1 = w\<lparr>wd_lastCompletedAtMs := Some now\<rparr>
                in if ws_availableBytes s < wp_hostReserveBytes pol
                   then tripSampling pol schedule HostReserve later
                          (''host available bytes '' @ showInt (ws_availableBytes s) @ '' are below reserve ''
                           @ showInt (wp_hostReserveBytes pol)) (Some s) w1
                   else if ws_allocatedBytes s > wp_hardSafetyBytes pol
                   then tripSampling pol schedule HardStateThreshold later
                          (''owned state '' @ showInt (ws_allocatedBytes s) @ '' exceeds hard threshold ''
                           @ showInt (wp_hardSafetyBytes pol)) (Some s) w1
                   else finishSampling schedule (Some s)
                          (if ws_allocatedBytes s \<ge> wp_softEvidenceBytes pol
                           then w1\<lparr>wd_softEvidence := wd_softEvidence w1 @ [s]\<rparr> else w1))))"

text \<open>The promise of \<open>onTrip\<close> settles, and the tick that waits for it returns or throws.\<close>

definition revocationEnds :: "bool \<Rightarrow> string option \<Rightarrow> watchdog \<Rightarrow> watchdog" where
  "revocationEnds schedule failure w =
     (case wd_revoking w of
        None \<Rightarrow> w
      | Some (ofSampling, ofStart) \<Rightarrow>
          (let w1 = w\<lparr>wd_revoking := None,
                      wd_samplingStartedAtMs := (if ofSampling then None else wd_samplingStartedAtMs w)\<rparr>
           in case failure of
                None \<Rightarrow> returnTick schedule ofStart None w1
              | Some m \<Rightarrow>
                  (let w2 = w1\<lparr>wd_revocationFailure := Some m\<rparr>
                   in if ofStart then w2\<lparr>wd_starts := wd_starts w2 @ [Inl (''resource watchdog revocation failed: '' @ m)]\<rparr>
                      else w2)))"

definition assertFresh :: "watchdog_policy \<Rightarrow> int \<Rightarrow> watchdog \<Rightarrow> string + unit" where
  "assertFresh pol now w =
     (if wd_stopped w then Inl ''resource watchdog is stopped''
      else case wd_tripRecord w of
        Some tr \<Rightarrow> Inl (''resource watchdog tripped: '' @ tr_detail tr)
      | None \<Rightarrow>
          (case wd_lastCompletedAtMs w of
             None \<Rightarrow> Inl ''resource watchdog sample is stale or absent''
           | Some t0 \<Rightarrow>
               (if now - t0 \<ge> wp_staleAfterMs pol then Inl ''resource watchdog sample is stale or absent'' else Inr ())))"

definition deferSampling :: "int \<Rightarrow> watchdog \<Rightarrow> string + watchdog" where
  "deferSampling now w =
     (if wd_stopped w \<or> wd_tripRecord w \<noteq> None
      then Inl ''resource watchdog cannot defer sampling after it stops or trips''
      else if wd_lastCompletedAtMs w = None \<or> wd_samplingStartedAtMs w \<noteq> None
      then Inl ''resource watchdog can defer only after an attested sample and outside an active sample''
      else Inr (w\<lparr>wd_lastCompletedAtMs := Some now\<rparr>))"

definition stopAfterCleanup :: "watchdog_policy \<Rightarrow> cleanup_proof \<Rightarrow> watchdog \<Rightarrow> string + watchdog" where
  "stopAfterCleanup pol cp w =
     (if \<not> cp_exactOuterResourceAbsent cp \<or> \<not> cp_stateRootAbsent cp
      then Inl ''resource watchdog cannot stop before exact outer/state removal''
      else if length (snd (cp_firstInventory cp)) \<noteq> 0 \<or> length (snd (cp_secondInventory cp)) \<noteq> 0
      then Inl ''resource watchdog cannot stop before two empty owned inventories''
      else if fst (cp_secondInventory cp) - fst (cp_firstInventory cp) < wp_cleanupInventoryGapMs pol
      then Inl ''resource watchdog cleanup inventories are not sufficiently separated''
      else Inr (w\<lparr>wd_timer := False, wd_stopped := True\<rparr>))"

section \<open>Runs\<close>

datatype watchdog_event =
    CallStart int int
  | CallTick int int
  | SampleEnds "string + watchdog_sample" int int
  | RevocationEnds "string option"
  | CallDefer int
  | CallStop cleanup_proof

definition keepOnError :: "string + watchdog \<Rightarrow> watchdog \<Rightarrow> watchdog" where
  "keepOnError r w = (case r of Inl _ \<Rightarrow> w | Inr w' \<Rightarrow> w')"

fun watchdogStep :: "watchdog_policy \<Rightarrow> bool \<Rightarrow> watchdog \<Rightarrow> watchdog_event \<Rightarrow> watchdog" where
  "watchdogStep pol schedule w (CallStart now later) = callStart pol schedule now later w"
| "watchdogStep pol schedule w (CallTick now later) = callTick pol schedule False now later w"
| "watchdogStep pol schedule w (SampleEnds r now later) =
     (if sampling w then sampleEnds pol schedule r now later w else w)"
| "watchdogStep pol schedule w (RevocationEnds failure) = revocationEnds schedule failure w"
| "watchdogStep pol schedule w (CallDefer now) = keepOnError (deferSampling now w) w"
| "watchdogStep pol schedule w (CallStop cp) = keepOnError (stopAfterCleanup pol cp w) w"

definition watchdogRun :: "watchdog_policy \<Rightarrow> bool \<Rightarrow> watchdog_event list \<Rightarrow> watchdog" where
  "watchdogRun pol schedule es = foldl (watchdogStep pol schedule) newWatchdog es"

section \<open>A trip is for ever, and there is one\<close>

lemmas watchdog_ops = settleStart_def returnTick_def finishSampling_def trigger_def callTick_def callStart_def
  tripSampling_def sampleEnds_def revocationEnds_def deferSampling_def stopAfterCleanup_def keepOnError_def Let_def

text \<open>What the helpers leave alone.\<close>

lemma settleStart_fields [simp]:
  "wd_tripRecord (settleStart sch r w) = wd_tripRecord w" "wd_onTrips (settleStart sch r w) = wd_onTrips w"
  "wd_revoking (settleStart sch r w) = wd_revoking w" "wd_revocationFailure (settleStart sch r w) = wd_revocationFailure w"
  "wd_lastCompletedAtMs (settleStart sch r w) = wd_lastCompletedAtMs w" "wd_stopped (settleStart sch r w) = wd_stopped w"
  "wd_samplingStartedAtMs (settleStart sch r w) = wd_samplingStartedAtMs w"
  by (auto simp: settleStart_def split: option.splits)

lemma returnTick_fields [simp]:
  "wd_tripRecord (returnTick sch b r w) = wd_tripRecord w" "wd_onTrips (returnTick sch b r w) = wd_onTrips w"
  "wd_revoking (returnTick sch b r w) = wd_revoking w" "wd_revocationFailure (returnTick sch b r w) = wd_revocationFailure w"
  "wd_lastCompletedAtMs (returnTick sch b r w) = wd_lastCompletedAtMs w" "wd_stopped (returnTick sch b r w) = wd_stopped w"
  "wd_samplingStartedAtMs (returnTick sch b r w) = wd_samplingStartedAtMs w"
  by (simp_all add: returnTick_def)

lemma finishSampling_fields [simp]:
  "wd_tripRecord (finishSampling sch r w) = wd_tripRecord w" "wd_onTrips (finishSampling sch r w) = wd_onTrips w"
  "wd_revoking (finishSampling sch r w) = wd_revoking w" "wd_revocationFailure (finishSampling sch r w) = wd_revocationFailure w"
  "wd_lastCompletedAtMs (finishSampling sch r w) = wd_lastCompletedAtMs w" "wd_stopped (finishSampling sch r w) = wd_stopped w"
  by (simp_all add: finishSampling_def)

lemma trigger_fields [simp]:
  "wd_tripRecord (trigger tr a b w) = Some tr" "wd_onTrips (trigger tr a b w) = wd_onTrips w @ [tr]"
  "wd_lastCompletedAtMs (trigger tr a b w) = wd_lastCompletedAtMs w" "wd_stopped (trigger tr a b w) = wd_stopped w"
  "wd_revoking (trigger tr a b w) = Some (a, b)"
  "wd_revocationFailure (trigger tr a b w) = wd_revocationFailure w"
  "wd_samplingStartedAtMs (trigger tr a b w) = wd_samplingStartedAtMs w"
  by (simp_all add: trigger_def)

lemma tripSampling_fields [simp]:
  "wd_tripRecord (tripSampling pol sch c t d s w) =
     (if wd_tripRecord w = None then Some (makeTrip pol c t d s) else wd_tripRecord w)"
  "wd_lastCompletedAtMs (tripSampling pol sch c t d s w) = wd_lastCompletedAtMs w"
  "wd_stopped (tripSampling pol sch c t d s w) = wd_stopped w"
  "wd_onTrips (tripSampling pol sch c t d s w) =
     (if wd_tripRecord w = None then wd_onTrips w @ [makeTrip pol c t d s] else wd_onTrips w)"
  by (auto simp: tripSampling_def)

definition tripInv :: "watchdog \<Rightarrow> bool" where
  "tripInv w =
     (wd_onTrips w = (case wd_tripRecord w of None \<Rightarrow> [] | Some tr \<Rightarrow> [tr])
      \<and> (wd_tripRecord w = None \<longrightarrow> wd_revoking w = None \<and> wd_revocationFailure w = None))"

lemma tripInv_callTick: "tripInv w \<Longrightarrow> tripInv (callTick pol sch b t t' w)"
  by (auto simp: tripInv_def callTick_def split: option.splits)

lemma tripInv_tripSampling: "tripInv w \<Longrightarrow> tripInv (tripSampling pol sch c t d s w)"
  by (auto simp: tripInv_def tripSampling_def split: option.splits)

lemma tripInv_finishSampling: "tripInv (finishSampling sch r w) = tripInv w"
  by (simp add: tripInv_def)

lemma tripInv_update [simp]:
  "tripInv (w\<lparr>wd_lastCompletedAtMs := x\<rparr>) = tripInv w" "tripInv (w\<lparr>wd_softEvidence := y\<rparr>) = tripInv w"
  "tripInv (w\<lparr>wd_starts := z\<rparr>) = tripInv w" "tripInv (w\<lparr>wd_timer := a, wd_stopped := b\<rparr>) = tripInv w"
  by (simp_all add: tripInv_def)

lemma tripInv_sampleEnds: "tripInv w \<Longrightarrow> tripInv (sampleEnds pol sch r t t' w)"
  by (auto simp: sampleEnds_def Let_def tripInv_tripSampling tripInv_finishSampling split: sum.splits option.splits)

lemma tripInv_revocationEnds: "tripInv w \<Longrightarrow> tripInv (revocationEnds sch f w)"
  by (auto simp: tripInv_def revocationEnds_def Let_def split: option.splits)

lemma tripInv_step: "tripInv w \<Longrightarrow> tripInv (watchdogStep pol sch w e)"
  by (cases e) (auto simp: tripInv_callTick tripInv_sampleEnds tripInv_revocationEnds callStart_def deferSampling_def
      stopAfterCleanup_def keepOnError_def)

lemma tripInv_new: "tripInv newWatchdog"
  by (simp add: tripInv_def newWatchdog_def)

interpretation wdm: invariant_machine "watchdogStep pol sch" tripInv newWatchdog for pol sch
  by unfold_locales (rule tripInv_new, rule tripInv_step)

lemma trip_stays: "wd_tripRecord w = Some tr \<Longrightarrow> wd_tripRecord (watchdogStep pol sch w e) = Some tr"
  by (cases e) (auto simp: callTick_def callStart_def sampleEnds_def revocationEnds_def deferSampling_def
      stopAfterCleanup_def keepOnError_def Let_def split: sum.splits option.splits)

lemma trip_stays_run: "wd_tripRecord w = Some tr \<Longrightarrow> wd_tripRecord (foldl (watchdogStep pol sch) w es) = Some tr"
  by (induction es arbitrary: w) (simp_all add: trip_stays)

lemma run_snoc: "watchdogRun pol sch (es @ [e]) = watchdogStep pol sch (watchdogRun pol sch es) e"
  by (simp add: watchdogRun_def)

lemma run_append: "watchdogRun pol sch (es @ es') = foldl (watchdogStep pol sch) (watchdogRun pol sch es) es'"
  by (simp add: watchdogRun_def)

text \<open>Whatever the calls and the ends of measurements and revocations, in any order, \<open>onTrip\<close> is called at
  most once, with the trip that the watchdog then keeps.\<close>

theorem trips_at_most_once:
  "wd_onTrips (watchdogRun pol schedule es) =
     (case wd_tripRecord (watchdogRun pol schedule es) of None \<Rightarrow> [] | Some tr \<Rightarrow> [tr])"
  using wdm.inv_run [of pol schedule es] by (simp add: tripInv_def watchdogRun_def)

section \<open>A bad sample is never forgotten\<close>

definition sampleWithinLimits :: "watchdog_policy \<Rightarrow> watchdog_sample \<Rightarrow> bool" where
  "sampleWithinLimits pol s =
     (assertSampleIdentity pol s = None \<and> wp_hostReserveBytes pol \<le> ws_availableBytes s
      \<and> ws_allocatedBytes s \<le> wp_hardSafetyBytes pol)"

lemma bad_measurement_trips:
  assumes "case r of Inl m \<Rightarrow> True | Inr s \<Rightarrow> \<not> sampleWithinLimits pol s"
  shows "wd_tripRecord (sampleEnds pol sch r t t' w) \<noteq> None"
  using assms by (auto simp: sampleEnds_def sampleWithinLimits_def Let_def split: sum.splits option.splits)

text \<open>C38: a measurement that fails, that is not of the policy's directory and state classes, or that is over the hard
  threshold or under the host reserve, ends the freshness of the watchdog: no later call or event brings it back.\<close>

theorem bad_sample_fails_closed:
  assumes running: "sampling (watchdogRun pol schedule es)"
    and bad: "case r of Inl m \<Rightarrow> True | Inr s \<Rightarrow> \<not> sampleWithinLimits pol s"
  shows "isl (assertFresh pol now (watchdogRun pol schedule (es @ SampleEnds r t t' # es')))"
proof -
  have "wd_tripRecord (watchdogStep pol schedule (watchdogRun pol schedule es) (SampleEnds r t t')) \<noteq> None"
    using running bad_measurement_trips [OF bad] by simp
  then obtain tr where "wd_tripRecord (watchdogRun pol schedule (es @ SampleEnds r t t' # es')) = Some tr"
    by (auto simp: run_append dest: trip_stays_run)
  then show ?thesis by (simp add: assertFresh_def)
qed

section \<open>What is fresh was measured\<close>

definition justified :: "watchdog_policy \<Rightarrow> watchdog_event list \<Rightarrow> int \<Rightarrow> bool" where
  "justified pol es t0 =
     (list_ex (\<lambda>e. case e of SampleEnds (Inr s) t t' \<Rightarrow> t = t0 \<and> sampleWithinLimits pol s
                         | CallDefer t \<Rightarrow> t = t0 | _ \<Rightarrow> False) es)"

lemma justified_more: "justified pol es t0 \<Longrightarrow> justified pol (es @ [e]) t0"
  by (simp add: justified_def)

lemma step_completes:
  assumes "wd_lastCompletedAtMs (watchdogStep pol sch w e) = Some t0" "wd_tripRecord (watchdogStep pol sch w e) = None"
  shows "wd_lastCompletedAtMs w = Some t0 \<or> justified pol [e] t0"
  using assms
  by (cases e) (auto simp: justified_def sampleWithinLimits_def callTick_def callStart_def sampleEnds_def revocationEnds_def deferSampling_def
      stopAfterCleanup_def keepOnError_def Let_def split: sum.splits option.splits if_splits)

lemma completed_justified:
  "wd_tripRecord (watchdogRun pol sch es) = None \<Longrightarrow> wd_lastCompletedAtMs (watchdogRun pol sch es) = Some t0
    \<Longrightarrow> justified pol es t0"
proof (induction es rule: rev_induct)
  case Nil
  then show ?case by (simp add: watchdogRun_def newWatchdog_def)
next
  case (snoc e es)
  then have "wd_tripRecord (watchdogRun pol sch es) = None"
    by (metis not_None_eq option.distinct(1) run_snoc trip_stays)
  with snoc step_completes [of pol sch "watchdogRun pol sch es" e t0] show ?case
    by (auto simp: run_snoc justified_def)
qed

text \<open>C39: when \<open>assertFresh\<close> passes, a measurement of the policy's own state ended within all limits less than
  \<open>staleAfterMs\<close> ago, or the owner of the boundary deferred sampling less than \<open>staleAfterMs\<close> ago.\<close>

theorem fresh_was_measured:
  assumes "assertFresh pol now (watchdogRun pol schedule es) = Inr ()"
  shows "\<exists>t0. now - t0 < wp_staleAfterMs pol \<and> justified pol es t0"
proof -
  let ?w = "watchdogRun pol schedule es"
  from assms obtain t0 where "wd_tripRecord ?w = None" "wd_lastCompletedAtMs ?w = Some t0" "now - t0 < wp_staleAfterMs pol"
    by (auto simp: assertFresh_def split: if_splits option.splits)
  then show ?thesis using completed_justified by blast
qed

section \<open>A measurement that never ends is noticed\<close>

definition keepsWaiting :: "watchdog_event \<Rightarrow> bool" where
  "keepsWaiting e = (case e of SampleEnds _ _ _ \<Rightarrow> False | CallStop _ \<Rightarrow> False | _ \<Rightarrow> True)"

definition waiting :: "int \<Rightarrow> watchdog \<Rightarrow> bool" where
  "waiting t0 w = (wd_tripRecord w \<noteq> None \<or> (\<not> wd_stopped w \<and> wd_samplingStartedAtMs w = Some t0 \<and> wd_revoking w = None))"

lemma waiting_step: "waiting t0 w \<Longrightarrow> keepsWaiting e \<Longrightarrow> waiting t0 (watchdogStep pol sch w e)"
  by (cases e) (auto simp: waiting_def keepsWaiting_def callTick_def callStart_def revocationEnds_def deferSampling_def
      keepOnError_def Let_def split: option.splits)

lemma waiting_run: "waiting t0 w \<Longrightarrow> list_all keepsWaiting es \<Longrightarrow> waiting t0 (foldl (watchdogStep pol sch) w es)"
  by (induction es arbitrary: w) (simp_all add: waiting_step)

text \<open>A measurement that began at \<open>t0\<close> and does not end trips an unstopped watchdog at the first tick
  \<open>staleAfterMs\<close> later or after, whatever else is called between.\<close>

theorem hung_measurement_trips:
  assumes began: "wd_tripRecord (watchdogRun pol schedule es) = None" "\<not> wd_stopped (watchdogRun pol schedule es)"
      "wd_samplingStartedAtMs (watchdogRun pol schedule es) = Some t0"
    and hung: "list_all keepsWaiting es'"
    and late: "t0 + wp_staleAfterMs pol \<le> now"
  shows "wd_tripRecord (watchdogRun pol schedule (es @ es' @ [CallTick now t'])) \<noteq> None"
proof -
  have "tripInv (watchdogRun pol schedule es)"
    using wdm.inv_run [of pol schedule es] by (simp add: watchdogRun_def)
  then have "waiting t0 (watchdogRun pol schedule es)" using began by (simp add: waiting_def tripInv_def)
  from waiting_run [OF this hung] have "waiting t0 (watchdogRun pol schedule (es @ es'))" by (simp add: run_append)
  then show ?thesis
    using late by (auto simp: run_snoc [of _ _ "es @ es'", simplified append_assoc] waiting_def callTick_def)
qed

section \<open>Examples\<close>

definition demoWatchdogPolicy :: watchdog_policy where
  "demoWatchdogPolicy = watchdogPolicyOf
     [\<lparr>sc_id = ''state'', sc_relativePath = ''state'', sc_kind = DirectoryClass, sc_required = True\<rparr>]"

definition demoSample :: "int \<Rightarrow> watchdog_sample" where
  "demoSample bytes = \<lparr>ws_sampledAtMs = 0, ws_targetDevice = 1, ws_targetInode = 2, ws_availableBytes = 5000,
     ws_allocatedBytes = bytes,
     ws_classes = [\<lparr>cs_id = ''state'', cs_path = ''/w/state'', cs_exists = True, cs_allocatedBytes = bytes\<rparr>]\<rparr>"

lemma demo_accepted: "policyAccepted demoWatchdogPolicy"
  by code_simp

lemma bad_sample_fails_closed_witness:
  "isl (assertFresh demoWatchdogPolicy 20
          (watchdogRun demoWatchdogPolicy True ([CallStart 0 0] @ SampleEnds (Inr (demoSample 3000)) 10 10 # [RevocationEnds None])))"
  by (rule bad_sample_fails_closed) code_simp+

lemma fresh_was_measured_witness:
  "\<exists>t0. 20 - t0 < wp_staleAfterMs demoWatchdogPolicy
        \<and> justified demoWatchdogPolicy [CallStart 0 0, SampleEnds (Inr (demoSample 1500)) 10 10] t0"
  by (rule fresh_was_measured [where schedule = True]) code_simp

lemma hung_measurement_trips_witness:
  "wd_tripRecord (watchdogRun demoWatchdogPolicy True ([CallStart 0 0] @ [CallDefer 300] @ [CallTick 1000 1000])) \<noteq> None"
  by (rule hung_measurement_trips [where ?t0.0 = 0]) code_simp+

end
