(* ===== verification/Spec2Isabelle.thy ===== *)
theory Spec2Isabelle
  imports Policy_Roots Coordinator_Props Agent_Session Egress_Address_Props Workflow_Props Workflow_Lanes Workflow_Lint_Props
    Registry_Proxy_Props Mediated_Egress_Props Package_Ledger_Props Sse_Framer_Props Policy_Compile_Props
    Audit_Redactor Watchdog_Machine
begin

text \<open>
  IronCurtain runs a language-model agent in a sandbox. Every tool call the agent makes is judged by a
  trusted process before it reaches a tool server: a policy engine allows, denies or escalates it, an
  approval source (whitelist pattern, auto-approver, human) answers an escalation, a circuit breaker
  stops runaway calls, and an audit log records the outcome. The policy is compiled from an English
  constitution and verified against test scenarios. Network traffic of the sandbox passes proxies that
  validate packages and registry requests, a session keeps the agent within step, token and cost
  budgets, and a workflow engine runs several agents by a state machine. This library models these
  parts. Paths below are under \<open>src/src/\<close>.

  \<^bold>\<open>The trusted path.\<close>

  \<^item> \<open>IC_Prelude\<close>: JavaScript values and ordered objects, string operations, decisions and their order, the
    locale \<open>invariant_machine\<close> (a step function and an invariant it keeps), which the whitelist, the breaker,
    the coordinator, the budget tracker and the watchdog interpret. \<open>Node_Path\<close>: the POSIX part of \<open>node:path\<close> and the
    record \<open>host\<close> of what the sources ask the machine for. \<open>Js_Text\<close>: numbers and percent decoding. \<open>Hash\<close>
    (\<open>hash.ts\<close>): the serialisation that does not depend on the order of keys.
  \<^item> \<open>Argument_Roles\<close> (\<open>types/argument-roles.ts\<close>, \<open>types/url-normalize.ts\<close>): the role registry, canonicalisers,
    \<open>resolveRealPath\<close>, containment (locale \<open>containment\<close>, interpreted on \<open>isWithinDirectory\<close>), conditional
    roles. Shown: resolution follows the deepest existing ancestor, containment goes by components.
  \<^item> \<open>Domain_Utils\<close> (\<open>trusted-process/domain-utils.ts\<close>, \<open>list-matcher.ts\<close>) and \<open>Path_Utils\<close>
    (\<open>trusted-process/path-utils.ts\<close>): matching of domains and rewriting of arguments; the engine and the
    server see the same path.
  \<^item> \<open>Policy_Engine\<close>, \<open>Policy_Engine_Props\<close> (\<open>trusted-process/policy-engine.ts\<close>, \<open>pipeline/types.ts\<close>), \<open>Policy_Roots\<close>
    (\<open>trusted-process/policy-roots.ts\<close>): the two-phase evaluation with one definition per function. Shown:
    totality, the refinement to first match per path and strictest over paths and roles, protected
    paths, what an allow rests on.
  \<^item> \<open>Call_Circuit_Breaker\<close>, \<open>Approval_Whitelist\<close>, \<open>Server_Context\<close>, \<open>Auto_Approver\<close> and \<open>Proxy_Tools\<close>: the files
    of the same names under \<open>trusted-process/\<close> and \<open>docker/proxy-tools.ts\<close>. The breaker refines a log of
    calls; a whitelist match is sound for the approved call.
  \<^item> \<open>Tool_Call_Pipeline\<close>, \<open>Pipeline_Props\<close> (\<open>trusted-process/tool-call-pipeline.ts\<close>): the handler of one call as a
    function on the state of the pipeline, \<open>beginCall\<close> up to the escalation wait and \<open>resumeCall\<close> after it.
    Shown: only authorised calls leave, a deny is final, each returned call is audited.
  \<^item> \<open>Tool_Call_Coordinator\<close>, \<open>Coordinator_Props\<close> (\<open>trusted-process/tool-call-coordinator.ts\<close>, \<open>async-mutex.ts\<close>,
    \<open>config/validate-policy-dir.ts\<close>): concurrent calls, policy swaps and a close as threads of a step
    relation; the properties hold under every interleaving.
  \<^item> \<open>Audit_Redactor\<close> (\<open>trusted-process/audit-redactor.ts\<close>): what the audit log masks; each regular expression is
    a function that finds its leftmost greedy match.

  \<^bold>\<open>Policy compilation.\<close>

  \<^item> \<open>Compiled_Policy\<close>, \<open>Compiled_Policy_Props\<close> (\<open>pipeline/constitution-compiler.ts\<close>, \<open>pipeline-shared.ts\<close>,
    \<open>pipeline-runner.ts\<close>, \<open>persona/broad-policy-validator.ts\<close>, \<open>persona/rule-delta.ts\<close>): patches of rule lists,
    validation, the merge of the servers' policies, the breadth check. Shown: the rules of other servers
    do not matter to a request; an accepted policy stays in the workspace and admits no wildcard above
    two labels.
  \<^item> \<open>Policy_Compile\<close>, \<open>Policy_Compile_Props\<close> (\<open>pipeline/pipeline-runner.ts\<close>, \<open>policy-verifier.ts\<close>,
    \<open>scenario-schema-validator.ts\<close>): scenario filters, verification rounds, corrections, the repair loop, the
    cache and the run over all servers. The answers of the language model are the record \<open>compile_world\<close>,
    a function of the number of the call, over which the theorems quantify. Shown: results and artifacts
    are well formed whatever the answers, a fresh result is the one that was verified, structural
    conflicts do not depend on the rules, and the merged policy decides as the servers' policies do.

  \<^bold>\<open>The session.\<close>

  \<^item> \<open>Step_Loop_Detector\<close> (\<open>session/step-loop-detector.ts\<close>), \<open>Truncate_Result\<close> (\<open>session/truncate-result.ts\<close>),
    \<open>Resource_Budget\<close> (\<open>session/resource-budget-tracker.ts\<close>), \<open>Agent_Session\<close> (\<open>session/agent-session.ts\<close>,
    \<open>session/message-compactor.ts\<close>): the detector refines a reference on the whole history, the tracker's
    stop condition holds at every step, code runs only when detector and budget let it.

  \<^bold>\<open>The network.\<close>

  \<^item> \<open>Egress_Address\<close>, \<open>Egress_Address_Props\<close> (\<open>docker/package-egress-address-policy.ts\<close>): notation of addresses and
    the excluded ranges; a screened destination is a public address, also where it embeds an IPv4 address.
  \<^item> \<open>Package_Registry\<close>, \<open>Registry_Proxy\<close>, \<open>Registry_Proxy_Props\<close> (\<open>docker/package-validator.ts\<close>,
    \<open>package-types.ts\<close>, \<open>registry-proxy.ts\<close>): a state machine of requests and answers; a download is
    forwarded only for a version validated within the last hour.
  \<^item> \<open>Egress_Headers\<close>, \<open>Registry_Egress\<close>, \<open>Mediated_Egress\<close> with their properties (\<open>zod-helpers.ts\<close>,
    \<open>docker/hop-by-hop-headers.ts\<close>, \<open>egress-header-policy.ts\<close>, \<open>egress-forwarding.ts\<close>, \<open>registry-egress-policy.ts\<close>,
    \<open>registry-egress-proxy.ts\<close>, \<open>mediated-egress.ts\<close>): authorisation against a manifest, redirects and the life
    of an exchange as events; hosts, headers, hops and bytes stay within the manifest.
  \<^item> \<open>Package_Ledger\<close>, \<open>Package_Ledger_Props\<close> (\<open>docker/package-egress-ledger.ts\<close>): the leases and the token bucket.
  \<^item> \<open>Sse_Framer\<close>, \<open>Sse_Framer_Props\<close> (\<open>docker/llm-observation/sse-event-framer.ts\<close>): the framer equals a
    reference that reads the stream as a whole, and stays within its limits.
  \<^item> \<open>Resource_Watchdog\<close>, \<open>Watchdog_Machine\<close> (\<open>docker/resource-watchdog.ts\<close>): the policy of the watchdog over a nested
    engine's host state, the walk that measures it and the state machine that trips. Shown: the walk ends
    and counts every entry once, a bad sample is never forgotten, one trip, what is fresh was measured,
    a measurement that hangs is noticed.

  \<^bold>\<open>Workflows.\<close>

  \<^item> \<open>Workflow_Types\<close> (\<open>workflow/types.ts\<close>, \<open>guards.ts\<close>), \<open>Workflow_Status\<close> (\<open>status-parser.ts\<close>), \<open>Workflow_Validate\<close>
    (\<open>validate.ts\<close>), \<open>Workflow_Machine\<close> (\<open>machine-builder.ts\<close>), \<open>Workflow_Lanes\<close> (\<open>lane-template.ts\<close>), \<open>Workflow_Lint\<close>
    (\<open>lint.ts\<close>) with \<open>Workflow_Validate_Props\<close>, \<open>Workflow_Props\<close> and \<open>Workflow_Lint_Props\<close>. The statechart
    library is the locale \<open>statechart\<close> of \<open>Workflow_Statechart\<close>: its laws are documented behaviour, and the
    interpretation \<open>documented\<close> shows a step function that obeys them. Shown: the machine of an accepted
    definition is built and never leaves its states, errors end at a gate or terminal, verdicts move a
    run on, the linter's searches are exact.

  \<^bold>\<open>Conventions.\<close> A number of the source that is a double is an exact rational or an integer; a string is
  a list of bytes, ASCII or the UTF-8 encoding. An exception is a value of a sum or option type. A class
  with state is a record that its operations return updated; concurrent code is a step relation or a
  function on events, one step per stretch between two awaits.

  \<^bold>\<open>Bounds.\<close> \<open>resolveRealPath\<close> walks up at most 64 levels, as its source does. The file wait of an
  escalation polls two times more than the timeout has half seconds, rounded up, after which the
  deadline has passed. \<open>verifyRounds\<close> and \<open>runRepairLoop\<close> count the rounds and repairs that are left down
  from the source's constants. The other loops recurse on their data.

  \<^bold>\<open>Parameters.\<close> Code that is not in the repository is an argument: the file system, git and the URL parser
  (\<open>host\<close>), the digest, the text of a number, calls to a language model, the tool servers (\<open>world\<close>), the
  clock, \<open>domainToASCII\<close>, \<open>toFixed\<close> and locale orders, the parsers of YAML, dates and schemas, \<open>minimatch\<close>,
  the statechart library, and upstream replies.

  \<^bold>\<open>Not modelled.\<close> Keys of \<open>Object.prototype\<close>, replacement patterns of \<open>String.replace\<close>, log and progress texts and
  prose of prompts. Whole parts: container and network infrastructure (\<open>docker/docker-infrastructure.ts\<close>,
  \<open>docker-manager.ts\<close>, \<open>mitm-proxy.ts\<close>, \<open>package-egress-proxy.ts\<close>), which drives an engine and sockets; the workflow
  orchestrator's input and output and its status prose; annotation of tools, generation of scenarios and
  resolution of lists, which are prompts to a model; the web, terminal and messaging interfaces, the cron
  and daemon processes, metrics and observation stores, the memory server, authentication and
  configuration files, the control server and session construction, which are input and output around
  the modelled parts.
\<close>

end
